(* ===== verification/Saga_Prelude.thy ===== *)
theory Saga_Prelude
  imports Complex_Main "HOL-Library.AList" "HOL-Library.Multiset"
begin

text \<open>
  Shared vocabulary of the development: the type names of the model, Go's
  string and map primitives as the source uses them, and the generic lemmas on
  association lists, options and sums the component theories rest on.

  A Go map is an association list with distinct keys. Its order is one possible
  iteration order (Go leaves the order of \<^verbatim>\<open>range\<close> unspecified), so a theorem
  about an arbitrary association list is a theorem about every iteration order.
  \<open>map_of\<close> reads a key, \<open>AList.update\<close> writes one and \<open>AList.delete\<close> removes one.
\<close>

named_theorems frame_simps
  \<open>what an operation leaves unchanged\<close>
named_theorems spec_simps
  \<open>what an operation returns, branch by branch\<close>

text \<open>A UUID is its canonical text, so \<^verbatim>\<open>id.String()\<close> is the identity.\<close>

type_synonym uuid = string
type_synonym gotime = int \<comment> \<open>an instant, in nanoseconds; 0 is \<^verbatim>\<open>time.Time{}\<close>\<close>
type_synonym duration = int \<comment> \<open>a time.Duration, in nanoseconds\<close>

abbreviation second_ns :: int where
  "second_ns \<equiv> 1000000000"

abbreviation millisecond_ns :: int where
  "millisecond_ns \<equiv> 1000000"

section \<open>Strings\<close>

text \<open>\<^verbatim>\<open>strings.Split\<close> on a one-byte separator.\<close>

fun split_on :: "char \<Rightarrow> string \<Rightarrow> string list" where
  "split_on c [] = [[]]"
| "split_on c (x # xs) =
     (if x = c then [] # split_on c xs
      else (case split_on c xs of [] \<Rightarrow> [[x]] | y # ys \<Rightarrow> (x # y) # ys))"

text \<open>\<^verbatim>\<open>strings.Join\<close>.\<close>

fun join_with :: "string \<Rightarrow> string list \<Rightarrow> string" where
  "join_with sep [] = []"
| "join_with sep [x] = x"
| "join_with sep (x # y # ys) = x @ sep @ join_with sep (y # ys)"

text \<open>\<^verbatim>\<open>strings.HasPrefix\<close>, \<^verbatim>\<open>strings.TrimPrefix\<close> and \<^verbatim>\<open>strings.Contains\<close>.\<close>

fun has_prefix :: "string \<Rightarrow> string \<Rightarrow> bool" where
  "has_prefix s [] = True"
| "has_prefix [] (p # ps) = False"
| "has_prefix (x # xs) (p # ps) = (x = p \<and> has_prefix xs ps)"

definition trim_prefix :: "string \<Rightarrow> string \<Rightarrow> string" where
  "trim_prefix s p = (if has_prefix s p then drop (length p) s else s)"

fun contains_str :: "string \<Rightarrow> string \<Rightarrow> bool" where
  "contains_str [] p = (p = [])"
| "contains_str (x # xs) p = (has_prefix (x # xs) p \<or> contains_str xs p)"

text \<open>\<^verbatim>\<open>strings.ToLower\<close> on ASCII letters.\<close>

definition lower_char :: "char \<Rightarrow> char" where
  "lower_char c =
     (let n = of_char c :: nat in if 65 \<le> n \<and> n \<le> 90 then char_of (n + 32) else c)"

definition to_lower :: "string \<Rightarrow> string" where
  "to_lower = map lower_char"

text \<open>Decimal rendering, as \<^verbatim>\<open>%d\<close> and \<^verbatim>\<open>strconv.Itoa\<close> do it.\<close>

definition digit_char :: "nat \<Rightarrow> char" where
  "digit_char d = char_of (48 + d)"

fun show_nat :: "nat \<Rightarrow> string" where
  "show_nat n =
     (if n < 10 then [digit_char n] else show_nat (n div 10) @ [digit_char (n mod 10)])"

declare show_nat.simps [simp del]

definition show_int :: "int \<Rightarrow> string" where
  "show_int i = (if i < 0 then CHR ''-'' # show_nat (nat (- i)) else show_nat (nat i))"

text \<open>
  Go's conversion \<^verbatim>\<open>string(b)\<close> of a byte value \<open>b\<close> is the UTF-8 encoding of the
  code point \<open>b\<close>: one byte below 128, two bytes from 128 on.
\<close>

definition rune_bytes :: "char \<Rightarrow> string" where
  "rune_bytes c =
     (let n = of_char c :: nat
      in if n < 128 then [c] else [char_of (192 + n div 64), char_of (128 + n mod 64)])"

definition ascii :: "string \<Rightarrow> bool" where
  "ascii s \<longleftrightarrow> list_all (\<lambda>c. (of_char c :: nat) < 128) s"

lemma rune_bytes_ascii [simp]: "(of_char c :: nat) < 128 \<Longrightarrow> rune_bytes c = [c]"
  by (simp add: rune_bytes_def)

lemma split_on_not_Nil [simp]: "split_on c s \<noteq> []"
  by (induction s) (auto split: list.splits)

lemma split_on_no_sep: "c \<notin> set s \<Longrightarrow> split_on c s = [s]"
  by (induction s) auto

lemma split_on_append:
  "c \<notin> set s \<Longrightarrow> split_on c (s @ c # t) = s # split_on c t"
  by (induction s) auto

lemma split_on_join:
  assumes "ps \<noteq> []" and "\<forall>p \<in> set ps. c \<notin> set p"
  shows "split_on c (join_with [c] ps) = ps"
  using assms
proof (induction ps rule: induct_list012)
  case (2 x)
  then show ?case by (simp add: split_on_no_sep)
next
  case (3 x y zs)
  then show ?case by (simp add: split_on_append)
qed simp

lemma append_sep_inj:
  "c \<notin> set xs \<Longrightarrow> c \<notin> set ys \<Longrightarrow> xs @ c # es = ys @ c # fs \<Longrightarrow> xs = ys \<and> es = fs"
proof (induction xs arbitrary: ys)
  case Nil
  then show ?case by (cases ys) auto
next
  case (Cons x xs)
  then show ?case by (cases ys) auto
qed

lemma has_prefix_append [simp]: "has_prefix (p @ s) p"
  by (induction p) auto

lemma trim_prefix_append [simp]: "trim_prefix (p @ s) p = s"
  by (simp add: trim_prefix_def)

lemma has_prefix_iff: "has_prefix s p \<longleftrightarrow> (\<exists>t. s = p @ t)"
  by (induction s p rule: has_prefix.induct) auto

lemma digit_char_inj: "a < 10 \<Longrightarrow> b < 10 \<Longrightarrow> digit_char a = digit_char b \<Longrightarrow> a = b"
  by (auto simp: digit_char_def take_bit_nat_eq_self
      dest!: arg_cong [where f = "of_char :: char \<Rightarrow> nat"])

lemma show_nat_not_Nil [simp]: "show_nat n \<noteq> []"
  by (subst show_nat.simps) simp

lemma show_nat_inj: "show_nat m = show_nat n \<Longrightarrow> m = n"
proof (induction m arbitrary: n rule: show_nat.induct)
  case (1 m)
  show ?case
  proof (cases "m < 10")
    case True
    then show ?thesis
      using "1.prems" by (cases "n < 10")
        (simp_all add: show_nat.simps [of m] show_nat.simps [of n] digit_char_inj Cons_eq_append_conv)
  next
    case m: False
    show ?thesis
    proof (cases "n < 10")
      case True
      then show ?thesis
        using "1.prems" m
        by (simp add: show_nat.simps [of m] show_nat.simps [of n] append_eq_Cons_conv)
    next
      case False
      with "1.prems" m have "show_nat (m div 10) = show_nat (n div 10)"
        and d: "digit_char (m mod 10) = digit_char (n mod 10)"
        by (simp_all add: show_nat.simps [of m] show_nat.simps [of n])
      then have "m div 10 = n div 10" using "1.IH" [OF m] by blast
      moreover have "m mod 10 = n mod 10" using d by (rule digit_char_inj [rotated 2]) simp_all
      ultimately show ?thesis by (metis div_mult_mod_eq)
    qed
  qed
qed

section \<open>Association lists\<close>

abbreviation keys_distinct :: "('k \<times> 'v) list \<Rightarrow> bool" where
  "keys_distinct m \<equiv> distinct (map fst m)"

text \<open>The values of a map in iteration order.\<close>

abbreviation vals :: "('k \<times> 'v) list \<Rightarrow> 'v list" where
  "vals m \<equiv> map snd m"

lemma map_of_update [simp]: "map_of (AList.update k v m) x = (if x = k then Some v else map_of m x)"
  by (simp add: update_conv')

lemma map_of_delete [simp]: "map_of (AList.delete k m) x = (if x = k then None else map_of m x)"
  by (simp add: delete_conv')

lemma keys_update [simp]: "fst ` set (AList.update k v m) = insert k (fst ` set m)"
  by (induction m) auto

lemma keys_distinct_update [simp]: "keys_distinct m \<Longrightarrow> keys_distinct (AList.update k v m)"
  by (rule distinct_update)

lemma in_vals_update:
  "x \<in> set (vals (AList.update k v m)) \<Longrightarrow> x = v \<or> x \<in> set (vals m)"
  by (induction m) (auto split: if_splits)

lemma vals_map_of: "keys_distinct m \<Longrightarrow> x \<in> set (vals m) \<longleftrightarrow> (\<exists>k. map_of m k = Some x)"
  by (force simp: map_of_eq_Some_iff)

section \<open>Insertion sort\<close>

text \<open>
  The hand-written insertion sorts of the store (and \<^verbatim>\<open>sort.SliceStable\<close>, whose
  result on a strict weak order is the same): the element at the right end moves
  left while it is \<open>lt\<close> (smaller than) its neighbour.
\<close>

fun sink :: "('a \<Rightarrow> 'a \<Rightarrow> bool) \<Rightarrow> 'a \<Rightarrow> 'a list \<Rightarrow> 'a list" where
  "sink lt x [] = [x]"
| "sink lt x (y # ys) = (if lt x y then y # sink lt x ys else x # y # ys)"

definition insert_right :: "('a \<Rightarrow> 'a \<Rightarrow> bool) \<Rightarrow> 'a list \<Rightarrow> 'a \<Rightarrow> 'a list" where
  "insert_right lt ys x = rev (sink lt x (rev ys))"

definition insertion_sort :: "('a \<Rightarrow> 'a \<Rightarrow> bool) \<Rightarrow> 'a list \<Rightarrow> 'a list" where
  "insertion_sort lt xs = foldl (insert_right lt) [] xs"

lemma mset_sink: "mset (sink lt x ys) = add_mset x (mset ys)"
  by (induction ys) auto

lemma mset_insertion_sort [simp]: "mset (insertion_sort lt xs) = mset xs"
proof -
  have "mset (foldl (insert_right lt) acc xs) = mset acc + mset xs" for acc
    by (induction xs arbitrary: acc) (simp_all add: insert_right_def mset_sink)
  then show ?thesis by (simp add: insertion_sort_def)
qed

lemma set_insertion_sort [simp]: "set (insertion_sort lt xs) = set xs"
  by (metis mset_insertion_sort set_mset_mset)

lemma length_insertion_sort [simp]: "length (insertion_sort lt xs) = length xs"
  by (metis mset_insertion_sort size_mset)

text \<open>The result has no later element \<open>lt\<close> (smaller than) an earlier one.\<close>

abbreviation ordered_by :: "('a \<Rightarrow> 'a \<Rightarrow> bool) \<Rightarrow> 'a list \<Rightarrow> bool" where
  "ordered_by lt \<equiv> sorted_wrt (\<lambda>a b. \<not> lt b a)"

lemma sink_ordered:
  assumes asym: "\<And>a b. lt a b \<Longrightarrow> \<not> lt b a"
    and trans: "\<And>a b c. \<not> lt a b \<Longrightarrow> \<not> lt b c \<Longrightarrow> \<not> lt a c"
    and "sorted_wrt (\<lambda>a b. \<not> lt a b) ys"
  shows "sorted_wrt (\<lambda>a b. \<not> lt a b) (sink lt x ys)"
  using assms(3)
proof (induction ys)
  case (Cons y ys)
  have set_sink: "set (sink lt x zs) = insert x (set zs)" for zs
    by (metis mset_sink set_mset_add_mset_insert set_mset_mset)
  show ?case
  proof (cases "lt x y")
    case True
    with Cons asym show ?thesis by (auto simp: set_sink)
  next
    case False
    with Cons trans show ?thesis by auto
  qed
qed simp

lemma insertion_sort_ordered:
  assumes "\<And>a b. lt a b \<Longrightarrow> \<not> lt b a"
    and "\<And>a b c. \<not> lt a b \<Longrightarrow> \<not> lt b c \<Longrightarrow> \<not> lt a c"
  shows "ordered_by lt (insertion_sort lt xs)"
proof -
  have "ordered_by lt acc \<Longrightarrow> ordered_by lt (foldl (insert_right lt) acc xs)" for acc
  proof (induction xs arbitrary: acc)
    case (Cons x xs)
    then have "ordered_by lt (insert_right lt acc x)"
      using sink_ordered [of lt "rev acc" x, OF assms]
      by (simp add: insert_right_def sorted_wrt_rev)
    then show ?case using Cons.IH by simp
  qed simp
  then show ?thesis by (simp add: insertion_sort_def)
qed

section \<open>Results\<close>

text \<open>A fallible operation returns \<open>Inl\<close> its error or \<open>Inr\<close> its value.\<close>

abbreviation is_ok :: "'e + 'a \<Rightarrow> bool" where
  "is_ok r \<equiv> (case r of Inl _ \<Rightarrow> False | Inr _ \<Rightarrow> True)"

text \<open>The default of a missing value: Go's zero value of a failed \<^verbatim>\<open>x, _ := ...\<close>.\<close>

abbreviation or_default :: "'a option \<Rightarrow> 'a \<Rightarrow> 'a" where
  "or_default opt d \<equiv> (case opt of None \<Rightarrow> d | Some x \<Rightarrow> x)"

end
