(* ===== verification/Run_Locks.thy ===== *)
theory Run_Locks
  imports Saga_Prelude
begin

text \<open>
  The per-run mutexes that serialise \<^verbatim>\<open>Advance\<close> (\<^verbatim>\<open>engine/runlock.go\<close>). Each section under the
  table's own mutex is one atomic operation; taking and giving back a run's mutex are
  steps of their own, so the interleavings of any number of goroutines are the paths
  of a step relation. A \<^verbatim>\<open>*runLock\<close> is an address into \<open>heap\<close>.
\<close>

section \<open>The table\<close>

record run_lock =
  lk_held :: bool \<comment> \<open>the state of the mutex mu\<close>
  lk_refs :: int

record run_locks =
  locks :: "(string \<times> nat) list"
  heap :: "nat \<Rightarrow> run_lock"
  next_ptr :: nat

definition new_lock :: run_lock where
  "new_lock = \<lparr>lk_held = False, lk_refs = 0\<rparr>"

definition no_locks :: run_locks where
  "no_locks = \<lparr>locks = [], heap = (\<lambda>_. new_lock), next_ptr = 0\<rparr>"

text \<open>The first section of \<^verbatim>\<open>lock\<close>: find or create the entry and count the caller.\<close>

definition lock_enter :: "string \<Rightarrow> run_locks \<Rightarrow> nat \<times> run_locks" where
  "lock_enter runID l =
     (let (p, l1) = (case map_of (locks l) runID of
                       Some p \<Rightarrow> (p, l)
                     | None \<Rightarrow> (next_ptr l,
                         l\<lparr>locks := AList.update runID (next_ptr l) (locks l),
                           heap := (heap l)(next_ptr l := new_lock), next_ptr := Suc (next_ptr l)\<rparr>))
      in (p, l1\<lparr>heap := (heap l1)(p := (heap l1 p)\<lparr>lk_refs := lk_refs (heap l1 p) + 1\<rparr>)\<rparr>))"

definition lock_set :: "nat \<Rightarrow> bool \<Rightarrow> run_locks \<Rightarrow> run_locks" where
  "lock_set p b l = l\<lparr>heap := (heap l)(p := (heap l p)\<lparr>lk_held := b\<rparr>)\<rparr>"

text \<open>The last section of the unlock function: discount the caller and drop an unused entry.\<close>

definition lock_leave :: "string \<Rightarrow> nat \<Rightarrow> run_locks \<Rightarrow> run_locks" where
  "lock_leave runID p l =
     (let l1 = l\<lparr>heap := (heap l)(p := (heap l p)\<lparr>lk_refs := lk_refs (heap l p) - 1\<rparr>)\<rparr>
      in if lk_refs (heap l1 p) = 0 then l1\<lparr>locks := AList.delete runID (locks l1)\<rparr> else l1)"

definition locks_size :: "run_locks \<Rightarrow> nat" where
  "locks_size l = length (locks l)"

section \<open>Goroutines\<close>

datatype phase = Idle | Waiting string nat | Holding string nat | Leaving string nat

fun user :: "phase \<Rightarrow> string \<Rightarrow> nat \<Rightarrow> bool" where
  "user Idle r p = False"
| "user (Waiting r' p') r p = (r = r' \<and> p = p')"
| "user (Holding r' p') r p = (r = r' \<and> p = p')"
| "user (Leaving r' p') r p = (r = r' \<and> p = p')"

type_synonym lock_conf = "run_locks \<times> (nat \<Rightarrow> phase)"

inductive lock_step :: "lock_conf \<Rightarrow> lock_conf \<Rightarrow> bool" where
  enter: "ph t = Idle \<Longrightarrow> lock_enter r l = (p, l') \<Longrightarrow> lock_step (l, ph) (l', ph(t := Waiting r p))"
| acquire: "ph t = Waiting r p \<Longrightarrow> \<not> lk_held (heap l p)
    \<Longrightarrow> lock_step (l, ph) (lock_set p True l, ph(t := Holding r p))"
| release: "ph t = Holding r p \<Longrightarrow> lock_step (l, ph) (lock_set p False l, ph(t := Leaving r p))"
| leave: "ph t = Leaving r p \<Longrightarrow> lock_step (l, ph) (lock_leave r p l, ph(t := Idle))"

inductive lock_reachable :: "lock_conf \<Rightarrow> bool" where
  start: "lock_reachable (no_locks, \<lambda>_. Idle)"
| step: "lock_reachable c \<Longrightarrow> lock_step c c' \<Longrightarrow> lock_reachable c'"

section \<open>The invariant\<close>

definition users :: "(nat \<Rightarrow> phase) \<Rightarrow> string \<Rightarrow> nat \<Rightarrow> nat set" where
  "users ph r p = {t. user (ph t) r p}"

definition holders :: "(nat \<Rightarrow> phase) \<Rightarrow> string \<Rightarrow> nat \<Rightarrow> nat set" where
  "holders ph r p = {t. ph t = Holding r p}"

text \<open>What an entry's record says about the goroutines that use it.\<close>

definition entry_ok :: "run_locks \<Rightarrow> (nat \<Rightarrow> phase) \<Rightarrow> string \<Rightarrow> nat \<Rightarrow> bool" where
  "entry_ok l ph r p \<longleftrightarrow> p < next_ptr l \<and> finite (users ph r p) \<and> users ph r p \<noteq> {}
     \<and> lk_refs (heap l p) = int (card (users ph r p))
     \<and> (if lk_held (heap l p) then \<exists>t. holders ph r p = {t} else holders ph r p = {})"

definition lock_inv :: "lock_conf \<Rightarrow> bool" where
  "lock_inv c \<longleftrightarrow> (case c of (l, ph) \<Rightarrow>
     keys_distinct (locks l)
     \<and> (\<forall>t r p. user (ph t) r p \<longrightarrow> map_of (locks l) r = Some p)
     \<and> (\<forall>r p. map_of (locks l) r = Some p \<longrightarrow> entry_ok l ph r p)
     \<and> (\<forall>r r' p. map_of (locks l) r = Some p \<longrightarrow> map_of (locks l) r' = Some p \<longrightarrow> r = r'))"

lemma users_upd:
  "users (ph(t := x)) r p = (if user x r p then insert t (users ph r p) else users ph r p - {t})"
  by (auto simp: users_def)

lemma holders_upd:
  "holders (ph(t := x)) r p = (if x = Holding r p then insert t (holders ph r p) else holders ph r p - {t})"
  by (auto simp: holders_def)

lemma user_self [simp]: "user (ph t) r p \<Longrightarrow> t \<in> users ph r p" "t \<notin> users ph r p \<longleftrightarrow> \<not> user (ph t) r p"
  by (simp_all add: users_def)

lemma holders_subset: "holders ph r p \<subseteq> users ph r p"
  by (auto simp: users_def holders_def)

lemma not_holder: "ph t \<noteq> Holding r p \<Longrightarrow> holders ph r p - {t} = holders ph r p"
  by (auto simp: holders_def)

text \<open>A step of one goroutine on one entry leaves the entries of other runs as they were.\<close>

lemma entry_ok_other:
  assumes "entry_ok l ph r' p'" and "heap l' p' = heap l p'" and "next_ptr l \<le> next_ptr l'"
    and "\<not> user (ph t) r' p'" and "\<not> user x r' p'"
  shows "entry_ok l' (ph(t := x)) r' p'"
proof -
  have "users (ph(t := x)) r' p' = users ph r' p'" "holders (ph(t := x)) r' p' = holders ph r' p'"
    using assms(4,5) by (auto simp: users_def holders_def)
  then show ?thesis using assms(1-3) by (simp add: entry_ok_def)
qed

lemma lock_invD:
  assumes "lock_inv (l, ph)"
  shows "keys_distinct (locks l)"
    and "user (ph t) r p \<Longrightarrow> map_of (locks l) r = Some p"
    and "map_of (locks l) r = Some p \<Longrightarrow> entry_ok l ph r p"
    and "map_of (locks l) r = Some p \<Longrightarrow> map_of (locks l) r' = Some p \<Longrightarrow> r = r'"
  using assms unfolding lock_inv_def by blast+

text \<open>
  What a step of goroutine \<open>t\<close> on the entry \<open>(r, p)\<close> has to show: the entry itself, if it is still there.
\<close>

lemma lock_inv_step:
  assumes inv: "lock_inv (l, ph)" and heap: "\<And>q. q \<noteq> p \<Longrightarrow> q < next_ptr l \<Longrightarrow> heap l' q = heap l q"
    and grow: "next_ptr l \<le> next_ptr l'" and keys: "keys_distinct (locks l')"
    and others: "\<And>r'. r' \<noteq> r \<Longrightarrow> map_of (locks l') r' = map_of (locks l) r'"
    and mine: "\<And>r' q. user (ph t) r' q \<Longrightarrow> r' = r \<and> q = p" "\<And>r' q. user x r' q \<Longrightarrow> r' = r \<and> q = p"
    and here: "map_of (locks l) r = Some p \<or> map_of (locks l) r = None \<and> p = next_ptr l"
    and entry: "map_of (locks l') r = Some p \<and> entry_ok l' (ph(t := x)) r p
      \<or> map_of (locks l') r = None \<and> users (ph(t := x)) r p = {}"
  shows "lock_inv (l', ph(t := x))"
proof -
  have below: "q < next_ptr l" if "map_of (locks l) r' = Some q" for r' q
    using lock_invD(3) [OF inv that] by (simp add: entry_ok_def)
  have inj: "r1 = r2" if "map_of (locks l) r1 = Some q" "map_of (locks l) r2 = Some q" for r1 r2 q
    using lock_invD(4) [OF inv that] .
  have apart: "q \<noteq> p" if "map_of (locks l) r' = Some q" "r' \<noteq> r" for r' q
    using here below [OF that(1)] inj [OF that(1), of r] that(2) by auto
  have used: "map_of (locks l) r' = Some q" if "user (ph u) r' q" for u r' q
    using lock_invD(2) [OF inv that] .
  have a: "map_of (locks l') r' = Some q" if "user ((ph(t := x)) u) r' q" for u r' q
  proof (cases "r' = r")
    case True
    have "q = p"
    proof (cases "u = t")
      case True
      then show ?thesis using that mine(2) by auto
    next
      case False
      then have "map_of (locks l) r = Some q" using that used [of u r q] \<open>r' = r\<close> by simp
      then show ?thesis using here by auto
    qed
    then have "u \<in> users (ph(t := x)) r p" using that True by (simp add: users_def)
    then show ?thesis using entry True \<open>q = p\<close> by auto
  next
    case False
    then have "u \<noteq> t" using that mine(2) by auto
    then show ?thesis using that used [of u r' q] others [OF False] by simp
  qed
  have b: "entry_ok l' (ph(t := x)) r' q" if "map_of (locks l') r' = Some q" for r' q
  proof (cases "r' = r")
    case True
    then show ?thesis using that entry by auto
  next
    case False
    then have m: "map_of (locks l) r' = Some q" using that others by simp
    have "\<not> user (ph t) r' q" "\<not> user x r' q" using mine False by blast+
    then show ?thesis
      using entry_ok_other [OF lock_invD(3) [OF inv m] heap [OF apart [OF m False] below [OF m]] grow] by blast
  qed
  have c: "r1 = r2" if "map_of (locks l') r1 = Some q" "map_of (locks l') r2 = Some q" for r1 r2 q
    using that others entry apart inj by (cases "r1 = r"; cases "r2 = r") auto
  show ?thesis unfolding lock_inv_def using keys a b c by blast
qed

lemma lock_inv_enter:
  assumes inv: "lock_inv (l, ph)" and idle: "ph t = Idle" and "lock_enter r l = (p, l')"
  shows "lock_inv (l', ph(t := Waiting r p))"
proof (cases "map_of (locks l) r")
  case (Some q)
  then have pq: "p = q" and l': "l' = l\<lparr>heap := (heap l)(p := (heap l p)\<lparr>lk_refs := lk_refs (heap l p) + 1\<rparr>)\<rparr>"
    using assms(3) by (auto simp: lock_enter_def)
  have old: "entry_ok l ph r p" using lock_invD(3) [OF inv Some] pq by simp
  have "t \<notin> users ph r p" using idle by (simp add: users_def)
  then have "entry_ok l' (ph(t := Waiting r p)) r p"
    using old idle by (auto simp: entry_ok_def users_upd holders_upd not_holder l')
  then show ?thesis
    by (intro lock_inv_step [OF inv, where r = r and p = p])
      (use lock_invD(1) [OF inv] Some pq idle in \<open>auto simp: l'\<close>)
next
  case None
  then have p: "p = next_ptr l" and l': "l' = l\<lparr>locks := AList.update r p (locks l),
      heap := (heap l)(p := new_lock\<lparr>lk_refs := 1\<rparr>), next_ptr := Suc p\<rparr>"
    using assms(3) by (auto simp: lock_enter_def new_lock_def)
  have none: "users ph r p = {}"
    using lock_invD(2) [OF inv, of _ r p] None by (fastforce simp: users_def)
  moreover from this have "holders ph r p = {}" using holders_subset by blast
  ultimately have "entry_ok l' (ph(t := Waiting r p)) r p"
    by (simp add: entry_ok_def users_upd holders_upd l' new_lock_def)
  then show ?thesis
    by (intro lock_inv_step [OF inv, where r = r and p = p])
      (use lock_invD(1) [OF inv] None idle in \<open>auto simp: l' p\<close>)
qed

lemma lock_inv_acquire:
  assumes inv: "lock_inv (l, ph)" and w: "ph t = Waiting r p" and free: "\<not> lk_held (heap l p)"
  shows "lock_inv (lock_set p True l, ph(t := Holding r p))"
proof -
  have m: "map_of (locks l) r = Some p" and e: "entry_ok l ph r p"
    using lock_invD(2) [OF inv, of t r p] lock_invD(3) [OF inv] w by auto
  have "t \<in> users ph r p" using w by (simp add: users_def)
  then have "entry_ok (lock_set p True l) (ph(t := Holding r p)) r p"
    using e free by (auto simp: entry_ok_def users_upd holders_upd lock_set_def insert_absorb)
  then show ?thesis
    by (intro lock_inv_step [OF inv, where r = r and p = p])
      (use lock_invD(1) [OF inv] m w in \<open>auto simp: lock_set_def\<close>)
qed

lemma lock_inv_release:
  assumes inv: "lock_inv (l, ph)" and h: "ph t = Holding r p"
  shows "lock_inv (lock_set p False l, ph(t := Leaving r p))"
proof -
  have m: "map_of (locks l) r = Some p" and e: "entry_ok l ph r p"
    using lock_invD(2) [OF inv, of t r p] lock_invD(3) [OF inv] h by auto
  have "t \<in> users ph r p" "t \<in> holders ph r p" using h by (simp_all add: users_def holders_def)
  then have "entry_ok (lock_set p False l) (ph(t := Leaving r p)) r p"
    using e by (auto simp: entry_ok_def users_upd holders_upd lock_set_def insert_absorb split: if_splits)
  then show ?thesis
    by (intro lock_inv_step [OF inv, where r = r and p = p])
      (use lock_invD(1) [OF inv] m h in \<open>auto simp: lock_set_def\<close>)
qed

lemma lock_inv_leave:
  assumes inv: "lock_inv (l, ph)" and h: "ph t = Leaving r p"
  shows "lock_inv (lock_leave r p l, ph(t := Idle))"
proof -
  have m: "map_of (locks l) r = Some p" and e: "entry_ok l ph r p"
    using lock_invD(2) [OF inv, of t r p] lock_invD(3) [OF inv] h by auto
  have t: "t \<in> users ph r p" "ph t \<noteq> Holding r p" using h by (simp_all add: users_def)
  have card: "int (card (users ph r p - {t})) = int (card (users ph r p)) - 1"
    using t e card_Diff_singleton [of t "users ph r p"] card_gt_0_iff [of "users ph r p"]
    by (auto simp: entry_ok_def)
  have fin: "finite (users ph r p - {t})" and refs: "lk_refs (heap l p) = int (card (users ph r p))"
    using e by (simp_all add: entry_ok_def)
  have gone: "users ph r p - {t} = {} \<longleftrightarrow> lk_refs (heap l p) = 1"
    unfolding card_0_eq [OF fin, symmetric] refs using card by linarith
  have "entry_ok (lock_leave r p l) (ph(t := Idle)) r p" if "lk_refs (heap l p) \<noteq> 1"
    using e that gone card t(2)
    by (auto simp: entry_ok_def users_upd holders_upd not_holder lock_leave_def)
  then show ?thesis
    by (intro lock_inv_step [OF inv, where r = r and p = p])
      (use lock_invD(1) [OF inv] m h gone in \<open>auto simp: lock_leave_def users_upd distinct_delete\<close>)
qed

section \<open>Mutual exclusion\<close>

lemma lock_inv_init: "lock_inv (no_locks, \<lambda>_. Idle)"
  by (simp add: lock_inv_def no_locks_def)

lemma lock_step_inv: "lock_step c c' \<Longrightarrow> lock_inv c \<Longrightarrow> lock_inv c'"
  by (induction rule: lock_step.induct)
    (simp_all add: lock_inv_enter lock_inv_acquire lock_inv_release lock_inv_leave)

lemma lock_reachable_inv: "lock_reachable c \<Longrightarrow> lock_inv c"
  by (induction rule: lock_reachable.induct) (auto simp: lock_inv_init intro: lock_step_inv)

text \<open>
  C15: Advances of one run never overlap. In every interleaving of any number of goroutines at most one
  holds a run's lock at a time; whoever holds, awaits or gives back the lock of a run does so on the
  entry that the table has for the run, which is the one a newcomer gets; the reference count of that
  entry is the number of goroutines that use it; a goroutine that waits for a lock nobody holds can
  take it; and the table has an entry exactly for the runs some goroutine uses, so it is empty
  again when all are done.
\<close>

theorem run_lock_exclusive:
  assumes "lock_reachable (l, ph)"
  shows "(\<forall>t t' r p p'. ph t = Holding r p \<and> ph t' = Holding r p' \<longrightarrow> t = t')
    \<and> (\<forall>t r p. user (ph t) r p \<longrightarrow> map_of (locks l) r = Some p \<and> fst (lock_enter r l) = p
         \<and> lk_refs (heap l p) = int (card {t'. user (ph t') r p}))
    \<and> (\<forall>t r p. ph t = Waiting r p \<and> (\<forall>t' q. ph t' \<noteq> Holding r q)
         \<longrightarrow> lock_step (l, ph) (lock_set p True l, ph(t := Holding r p)))
    \<and> fst ` set (locks l) = {r. \<exists>t p. user (ph t) r p}
    \<and> ((\<forall>t. ph t = Idle) \<longrightarrow> locks_size l = 0)"
proof -
  have inv: "lock_inv (l, ph)" using lock_reachable_inv [OF assms] .
  note I = lock_invD [OF inv]
  have one: "t = t'" if "ph t = Holding r p" "ph t' = Holding r p'" for t t' r p p'
  proof -
    have m: "map_of (locks l) r = Some p" "map_of (locks l) r = Some p'"
      using I(2) [of t r p] I(2) [of t' r p'] that by simp_all
    then have "t \<in> holders ph r p" "t' \<in> holders ph r p" using that by (simp_all add: holders_def)
    then show ?thesis using I(3) [OF m(1)] by (auto simp: entry_ok_def split: if_splits)
  qed
  have entry: "map_of (locks l) r = Some p \<and> fst (lock_enter r l) = p
      \<and> lk_refs (heap l p) = int (card {t'. user (ph t') r p})" if "user (ph t) r p" for t r p
    using I(2) [OF that] I(3) [OF I(2) [OF that]] by (simp add: entry_ok_def users_def lock_enter_def)
  have free: "lock_step (l, ph) (lock_set p True l, ph(t := Holding r p))"
    if "ph t = Waiting r p" "\<forall>t' q. ph t' \<noteq> Holding r q" for t r p
  proof -
    have "entry_ok l ph r p" using I(3) [OF I(2) [of t r p]] that(1) by simp
    moreover have "holders ph r p = {}" using that(2) by (simp add: holders_def)
    ultimately have "\<not> lk_held (heap l p)" by (auto simp: entry_ok_def)
    then show ?thesis using lock_step.acquire [of ph t r p l] that(1) by blast
  qed
  have dom: "fst ` set (locks l) = {r. \<exists>t p. user (ph t) r p}" (is "?L = ?R")
  proof
    show "?L \<subseteq> ?R"
    proof
      fix r assume "r \<in> ?L"
      then obtain p where "map_of (locks l) r = Some p"
        using map_of_eq_None_iff [of "locks l" r] by (cases "map_of (locks l) r") auto
      then have "users ph r p \<noteq> {}" using I(3) by (simp add: entry_ok_def)
      then show "r \<in> ?R" by (auto simp: users_def)
    qed
    show "?R \<subseteq> ?L"
    proof
      fix r assume "r \<in> ?R"
      then obtain t p where "user (ph t) r p" by blast
      then have "(r, p) \<in> set (locks l)" using I(2) map_of_SomeD by metis
      then show "r \<in> ?L" by (metis fst_conv image_eqI)
    qed
  qed
  have empty: "locks_size l = 0" if "\<forall>t. ph t = Idle"
    using dom that by (simp add: locks_size_def)
  show ?thesis
  proof (intro conjI allI impI)
    show "t = t'" if "ph t = Holding r p \<and> ph t' = Holding r p'" for t t' r p p'
      using that one by (elim conjE)
    show "map_of (locks l) r = Some p" "fst (lock_enter r l) = p"
      "lk_refs (heap l p) = int (card {t'. user (ph t') r p})" if "user (ph t) r p" for t r p
      using entry [OF that] by simp_all
    show "lock_step (l, ph) (lock_set p True l, ph(t := Holding r p))"
      if "ph t = Waiting r p \<and> (\<forall>t' q. ph t' \<noteq> Holding r q)" for t r p
      using that free by (elim conjE)
  qed (rule dom, erule empty)
qed

definition two_waiting :: lock_conf where
  "two_waiting = (snd (lock_enter ''r1'' (snd (lock_enter ''r1'' no_locks))),
     (\<lambda>_. Idle)(0 := Waiting ''r1'' 0, 1 := Waiting ''r1'' 0))"

lemma two_waiting_reachable: "lock_reachable two_waiting"
proof -
  have e: "lock_enter ''r1'' no_locks = (0, snd (lock_enter ''r1'' no_locks))"
    "lock_enter ''r1'' (snd (lock_enter ''r1'' no_locks))
      = (0, snd (lock_enter ''r1'' (snd (lock_enter ''r1'' no_locks))))"
    by (simp_all add: lock_enter_def no_locks_def)
  let ?l1 = "snd (lock_enter ''r1'' no_locks)" and ?ph1 = "(\<lambda>_. Idle)(0 := Waiting ''r1'' 0)"
  have "lock_step (no_locks, \<lambda>_. Idle) (?l1, ?ph1)"
    by (rule lock_step.enter [OF _ e(1)]) simp
  moreover have "lock_step (?l1, ?ph1) (snd (lock_enter ''r1'' ?l1), ?ph1(1 := Waiting ''r1'' 0))"
    by (rule lock_step.enter [OF _ e(2)]) simp
  ultimately show ?thesis
    unfolding two_waiting_def using lock_reachable.intros by blast
qed

theorem run_lock_exclusive_witness:
  "lock_step two_waiting (lock_set 0 True (fst two_waiting), (snd two_waiting)(0 := Holding ''r1'' 0))"
proof -
  have "snd two_waiting 0 = Waiting ''r1'' 0" "\<forall>t q. snd two_waiting t \<noteq> Holding ''r1'' q"
    by (simp_all add: two_waiting_def)
  then show ?thesis
    using run_lock_exclusive [of "fst two_waiting" "snd two_waiting"] two_waiting_reachable
    by (metis prod.collapse)
qed

end
