(* ===== verification/Domain.thy ===== *)
theory Domain
  imports Saga_Prelude
begin

text \<open>
  The package \<^verbatim>\<open>domain\<close>: dynamic values, workflow definitions, runs, audit
  events, signals, triggers, user tasks, action registrations and rules, with
  their constructors and lookups. A Go struct is a record, a closed string
  enumeration a datatype, a pointer an option; \<open>Inl\<close> of type \<open>gerr\<close> is a
  returned error.
\<close>

section \<open>Errors\<close>

text \<open>
  \<open>ErrNotFound\<close> is the store's typed error, \<open>ErrSagaPaused\<close> and
  \<open>ErrSagaCancelled\<close> are the verbs' control sentinels, \<open>ErrCtx\<close> is a context
  error and \<open>Errorf f args\<close> is \<^verbatim>\<open>fmt.Errorf\<close> with its arguments; an \<open>AErr\<close>
  argument is a wrapped error (the verb \<^verbatim>\<open>%w\<close>).
\<close>

datatype gerr =
    ErrNotFound string string
  | ErrSagaPaused
  | ErrSagaCancelled
  | ErrCtx string
  | Errorf string "garg list"
and garg = AStr string | AInt int | AErr gerr

text \<open>\<^verbatim>\<open>strconv.Quote\<close> on the characters an identifier or expression can hold.\<close>

fun quote_chars :: "string \<Rightarrow> string" where
  "quote_chars [] = []"
| "quote_chars (c # cs) =
     (if c = CHR 0x22 \<or> c = CHR 0x5C then [CHR 0x5C, c]
      else if c = CHR 0x0A then [CHR 0x5C, CHR ''n'']
      else if c = CHR 0x09 then [CHR 0x5C, CHR ''t'']
      else if c = CHR 0x0D then [CHR 0x5C, CHR ''r'']
      else [c]) @ quote_chars cs"

definition go_quote :: "string \<Rightarrow> string" where
  "go_quote s = [CHR 0x22] @ quote_chars s @ [CHR 0x22]"

text \<open>Filling a format: \<^verbatim>\<open>%q\<close> quotes its argument, the other verbs insert it.\<close>

fun fill_format :: "string \<Rightarrow> string list \<Rightarrow> string" where
  "fill_format [] args = []"
| "fill_format [c] args = [c]"
| "fill_format (c # d # cs) args =
     (if c = CHR ''%''
      then (case args of [] \<Rightarrow> fill_format cs []
            | a # as \<Rightarrow> (if d = CHR ''q'' then go_quote a else a) @ fill_format cs as)
      else c # fill_format (d # cs) args)"

fun err_text :: "gerr \<Rightarrow> string" and arg_text :: "garg \<Rightarrow> string" where
  "err_text (ErrNotFound entity i) = entity @ '' not found: '' @ i"
| "err_text ErrSagaPaused = ''saga paused''"
| "err_text ErrSagaCancelled = ''saga cancelled''"
| "err_text (ErrCtx s) = s"
| "err_text (Errorf f args) = fill_format f (map arg_text args)"
| "arg_text (AStr s) = s"
| "arg_text (AInt i) = show_int i"
| "arg_text (AErr e) = err_text e"

definition sprintf :: "string \<Rightarrow> garg list \<Rightarrow> string" where
  "sprintf f args = fill_format f (map arg_text args)"

text \<open>\<^verbatim>\<open>errors.Is\<close> / \<^verbatim>\<open>errors.As\<close>: the error itself or one it wraps.\<close>

fun err_is :: "(gerr \<Rightarrow> bool) \<Rightarrow> gerr \<Rightarrow> bool" and arg_is :: "(gerr \<Rightarrow> bool) \<Rightarrow> garg \<Rightarrow> bool" where
  "err_is p (Errorf f args) = (p (Errorf f args) \<or> list_ex (arg_is p) args)"
| "err_is p e = p e"
| "arg_is p (AErr e) = err_is p e"
| "arg_is p _ = False"

definition is_paused_err :: "gerr \<Rightarrow> bool" where
  "is_paused_err = err_is (\<lambda>e. e = ErrSagaPaused)"

definition is_cancelled_err :: "gerr \<Rightarrow> bool" where
  "is_cancelled_err = err_is (\<lambda>e. e = ErrSagaCancelled)"

definition is_not_found :: "gerr \<Rightarrow> bool" where
  "is_not_found = err_is (\<lambda>e. case e of ErrNotFound _ _ \<Rightarrow> True | _ \<Rightarrow> False)"

section \<open>Dynamic values\<close>

text \<open>
  The values of type \<^verbatim>\<open>any\<close> that variables, inputs and payloads hold, with the
  Go types the code's type switches tell apart. A \<^verbatim>\<open>float64\<close> is the rational
  number it denotes.
\<close>

datatype val =
    VNil
  | VBool bool
  | VInt int
  | VInt32 int
  | VInt64 int
  | VUint64 int
  | VFloat rat
  | VStr string
  | VList "val list"
  | VMap "(string \<times> val) list"
  | VMaps "(string \<times> val) list list"
  | VStrs "string list"
  | VStrMap "(string \<times> string) list"

type_synonym gomap = "(string \<times> val) list"

text \<open>Type assertions of a map entry, with the zero value or \<open>None\<close> where they fail.\<close>

definition get_str :: "gomap \<Rightarrow> string \<Rightarrow> string" where
  "get_str m k = (case map_of m k of Some (VStr s) \<Rightarrow> s | _ \<Rightarrow> [])"

definition get_map :: "gomap \<Rightarrow> string \<Rightarrow> gomap option" where
  "get_map m k = (case map_of m k of Some (VMap x) \<Rightarrow> Some x | _ \<Rightarrow> None)"

definition get_list :: "gomap \<Rightarrow> string \<Rightarrow> val list option" where
  "get_list m k = (case map_of m k of Some (VList x) \<Rightarrow> Some x | _ \<Rightarrow> None)"

definition get_float :: "gomap \<Rightarrow> string \<Rightarrow> rat option" where
  "get_float m k = (case map_of m k of Some (VFloat x) \<Rightarrow> Some x | _ \<Rightarrow> None)"

definition get_bool :: "gomap \<Rightarrow> string \<Rightarrow> bool option" where
  "get_bool m k = (case map_of m k of Some (VBool b) \<Rightarrow> Some b | _ \<Rightarrow> None)"

text \<open>\<^verbatim>\<open>b, _ := v.(bool)\<close>, and the name \<^verbatim>\<open>%T\<close> prints.\<close>

definition val_true :: "val \<Rightarrow> bool" where
  "val_true v = (case v of VBool b \<Rightarrow> b | _ \<Rightarrow> False)"

fun go_type :: "val \<Rightarrow> string" where
  "go_type VNil = ''<nil>''"
| "go_type (VBool _) = ''bool''"
| "go_type (VInt _) = ''int''"
| "go_type (VInt32 _) = ''int32''"
| "go_type (VInt64 _) = ''int64''"
| "go_type (VUint64 _) = ''uint64''"
| "go_type (VFloat _) = ''float64''"
| "go_type (VStr _) = ''string''"
| "go_type (VList _) = ''[]interface {}''"
| "go_type (VMap _) = ''map[string]interface {}''"
| "go_type (VMaps _) = ''[]map[string]interface {}''"
| "go_type (VStrs _) = ''[]string''"
| "go_type (VStrMap _) = ''map[string]string''"

section \<open>Workflow definitions\<close>

datatype step_type =
    StepTypeEnd | StepTypeAction | StepTypeDecision | StepTypeError | StepTypeNoop
  | StepTypeSetVar | StepTypeTransform | StepTypeMerge | StepTypeFilter | StepTypeMap
  | StepTypeLog | StepTypeMetricEmit | StepTypeAssert | StepTypeHTTPRequest
  | StepTypeWebhookEmit | StepTypeWaitDuration | StepTypeWaitUntil | StepTypeWaitForSignal
  | StepTypeWaitForEvent | StepTypeParallel | StepTypeJoin | StepTypeForeach | StepTypeWhile
  | StepTypeTryCatch | StepTypeSubSaga | StepTypeSpawnSaga | StepTypeManualApproval
  | StepTypeCollectInput | StepTypeSwitch | StepTypeEmitSignal | StepTypeCancel
  | StepTypeEmitEvent
  | StepTypeCustom string

definition step_type_names :: "(step_type \<times> string) list" where
  "step_type_names =
    [(StepTypeEnd, ''end''), (StepTypeAction, ''action''), (StepTypeDecision, ''decision''),
     (StepTypeError, ''error''), (StepTypeNoop, ''noop''), (StepTypeSetVar, ''set_var''),
     (StepTypeTransform, ''transform''), (StepTypeMerge, ''merge''),
     (StepTypeFilter, ''filter''), (StepTypeMap, ''map''), (StepTypeLog, ''log''),
     (StepTypeMetricEmit, ''metric_emit''), (StepTypeAssert, ''assert''),
     (StepTypeHTTPRequest, ''http_request''), (StepTypeWebhookEmit, ''webhook_emit''),
     (StepTypeWaitDuration, ''wait_duration''), (StepTypeWaitUntil, ''wait_until''),
     (StepTypeWaitForSignal, ''wait_for_signal''), (StepTypeWaitForEvent, ''wait_for_event''),
     (StepTypeParallel, ''parallel''), (StepTypeJoin, ''join''), (StepTypeForeach, ''foreach''),
     (StepTypeWhile, ''while''), (StepTypeTryCatch, ''try_catch''),
     (StepTypeSubSaga, ''sub_saga''), (StepTypeSpawnSaga, ''spawn_saga''),
     (StepTypeManualApproval, ''manual_approval''), (StepTypeCollectInput, ''collect_input''),
     (StepTypeSwitch, ''switch''), (StepTypeEmitSignal, ''emit_signal''),
     (StepTypeCancel, ''cancel''), (StepTypeEmitEvent, ''emit_event'')]"

definition step_type_str :: "step_type \<Rightarrow> string" where
  "step_type_str t =
     (case t of StepTypeCustom s \<Rightarrow> s
      | _ \<Rightarrow> (case map_of step_type_names t of Some s \<Rightarrow> s | None \<Rightarrow> []))"

definition step_type_of :: "string \<Rightarrow> step_type" where
  "step_type_of s =
     (case map_of (map (\<lambda>(t, n). (n, t)) step_type_names) s of
        Some t \<Rightarrow> t | None \<Rightarrow> StepTypeCustom s)"

record branch =
  branch_next :: string

record compensation =
  comp_action :: string
  comp_inputs :: gomap

record retry_policy =
  max_attempts :: int
  initial_backoff_ms :: int
  max_backoff_ms :: int
  multiplier :: rat
  jitter :: bool

record step =
  step_id :: string
  step_type :: step_type
  step_next :: string
  step_action :: string
  step_inputs :: gomap
  step_compensation :: "compensation option"
  step_retry :: "retry_policy option"
  step_branches :: "(string \<times> branch) list"
  step_extra :: gomap

record workflow_definition =
  def_id :: string
  def_version :: int
  def_tenant_id :: "string option"
  def_name :: string
  def_description :: string
  def_start :: string
  def_entrypoints :: "(string \<times> string) list"
  def_steps :: "step list"
  def_published :: bool
  def_created_at :: gotime
  def_created_by :: string

text \<open>The zero value \<^verbatim>\<open>domain.Step{ID: id}\<close>.\<close>

definition blank_step :: "string \<Rightarrow> step" where
  "blank_step i = \<lparr>step_id = i, step_type = StepTypeCustom [], step_next = [], step_action = [],
     step_inputs = [], step_compensation = None, step_retry = None, step_branches = [],
     step_extra = []\<rparr>"

definition ResolveEntry :: "workflow_definition \<Rightarrow> string \<Rightarrow> gerr + string" where
  "ResolveEntry d entrypoint =
     (if entrypoint = [] \<or> entrypoint = ''default''
      then (if def_start d = []
            then Inl (Errorf ''resolve entry: workflow %q has no Start'' [AStr (def_id d)])
            else Inr (def_start d))
      else (case map_of (def_entrypoints d) entrypoint of
              None \<Rightarrow> Inl (Errorf ''resolve entry: unknown entrypoint %q for workflow %q''
                             [AStr entrypoint, AStr (def_id d)])
            | Some s \<Rightarrow> Inr s))"

fun find_step :: "step list \<Rightarrow> string \<Rightarrow> step option" where
  "find_step [] i = None"
| "find_step (s # ss) i = (if step_id s = i then Some s else find_step ss i)"

definition StepByID :: "workflow_definition \<Rightarrow> string \<Rightarrow> step option" where
  "StepByID d i = find_step (def_steps d) i"

section \<open>Runs\<close>

datatype run_state =
    RunStatePending | RunStateRunning | RunStatePaused | RunStateCompensating
  | RunStateSucceeded | RunStateFailed | RunStateCancelled

fun run_state_str :: "run_state \<Rightarrow> string" where
  "run_state_str RunStatePending = ''pending''"
| "run_state_str RunStateRunning = ''running''"
| "run_state_str RunStatePaused = ''paused''"
| "run_state_str RunStateCompensating = ''compensating''"
| "run_state_str RunStateSucceeded = ''succeeded''"
| "run_state_str RunStateFailed = ''failed''"
| "run_state_str RunStateCancelled = ''cancelled''"

fun IsTerminal :: "run_state \<Rightarrow> bool" where
  "IsTerminal RunStateSucceeded = True"
| "IsTerminal RunStateFailed = True"
| "IsTerminal RunStateCancelled = True"
| "IsTerminal _ = False"

record try_catch_frame =
  frame_step_id :: string
  frame_catch_step :: string

record saga_run =
  run_id :: uuid
  run_workflow_id :: string
  run_definition_id :: uuid
  run_tenant_id :: "uuid option"
  run_state :: run_state
  run_current_step :: string
  run_inputs :: gomap
  run_variables :: gomap
  run_started_at :: gotime
  run_last_event_at :: gotime
  run_terminal_at :: "gotime option"
  run_requires_manual_review :: bool
  run_trigger_id :: "uuid option"
  run_parent_run_id :: "uuid option"
  run_parent_step_id :: "string option"
  run_parent_branch_id :: "string option"
  run_try_catch_stack :: "try_catch_frame list"
  run_dry_run :: bool
  run_wakeup_at :: "gotime option"
  run_awaited_signal :: "string option"
  run_awaited_event_topic :: "string option"
  run_awaited_event_headers :: "(string \<times> string) list"
  run_feature_overrides :: "(string \<times> bool) list"
  run_awaited_action_dispatch :: "string option"
  run_current_attempt :: int
  run_last_error :: "string option"

text \<open>\<^verbatim>\<open>NewSagaRun\<close> with the id and the instant it draws passed in.\<close>

definition NewSagaRun :: "uuid \<Rightarrow> gotime \<Rightarrow> string \<Rightarrow> uuid \<Rightarrow> uuid option \<Rightarrow> gomap \<Rightarrow> saga_run" where
  "NewSagaRun i now workflowID definitionID tenantID inputs =
     \<lparr>run_id = i, run_workflow_id = workflowID, run_definition_id = definitionID,
      run_tenant_id = tenantID, run_state = RunStatePending, run_current_step = [],
      run_inputs = inputs, run_variables = [], run_started_at = now, run_last_event_at = now,
      run_terminal_at = None, run_requires_manual_review = False, run_trigger_id = None,
      run_parent_run_id = None, run_parent_step_id = None, run_parent_branch_id = None,
      run_try_catch_stack = [], run_dry_run = False, run_wakeup_at = None,
      run_awaited_signal = None, run_awaited_event_topic = None, run_awaited_event_headers = [],
      run_feature_overrides = [], run_awaited_action_dispatch = None, run_current_attempt = 0,
      run_last_error = None\<rparr>"

section \<open>Audit events and signals\<close>

datatype event_type =
    EventSagaStarted | EventStepDispatched | EventStepStarted | EventStepSucceeded
  | EventStepFailed | EventStepSkipped | EventStepPaused | EventRunSucceeded | EventRunFailed
  | EventRunCancelled | EventCompensationStarted | EventLog | EventMetric | EventRuleEvaluated
  | EventLicenseGateRejected

record saga_run_event =
  ev_id :: uuid
  ev_run_id :: uuid
  ev_step_id :: string
  ev_attempt :: int
  ev_type :: event_type
  ev_from_state :: string
  ev_to_state :: string
  ev_actor :: string
  ev_metadata :: gomap
  ev_recorded_at :: gotime

definition NewEvent ::
  "uuid \<Rightarrow> gotime \<Rightarrow> uuid \<Rightarrow> string \<Rightarrow> int \<Rightarrow> event_type \<Rightarrow> string \<Rightarrow> saga_run_event" where
  "NewEvent i now runID stepID attempt eventType actor =
     \<lparr>ev_id = i, ev_run_id = runID, ev_step_id = stepID, ev_attempt = attempt,
      ev_type = eventType, ev_from_state = [], ev_to_state = [], ev_actor = actor,
      ev_metadata = [], ev_recorded_at = now\<rparr>"

record saga_signal =
  sig_id :: uuid
  sig_run_id :: uuid
  sig_name :: string
  sig_payload :: gomap
  sig_received_at :: gotime
  sig_consumed_at :: "gotime option"

section \<open>Triggers, user tasks, registrations, rules\<close>

datatype trigger_type = TriggerRecordTransition | TriggerCron | TriggerOther string

fun trigger_type_str :: "trigger_type \<Rightarrow> string" where
  "trigger_type_str TriggerRecordTransition = ''record_transition''"
| "trigger_type_str TriggerCron = ''cron''"
| "trigger_type_str (TriggerOther s) = s"

record saga_trigger =
  trig_id :: uuid
  trig_type :: trigger_type
  trig_workflow_id :: string
  trig_version :: int
  trig_config :: gomap
  trig_enabled :: bool
  trig_tenant_id :: "uuid option"
  trig_created_at :: gotime
  trig_created_by :: string
  trig_next_fire_at :: "gotime option"
  trig_last_fired_at :: "gotime option"

record trigger_fire_row =
  fire_id :: uuid
  fire_trigger_id :: uuid
  fire_workflow_id :: string
  fire_fired_at :: gotime
  fire_resulting_run_id :: "uuid option"
  fire_error :: string

record user_task =
  task_id :: uuid
  task_run_id :: uuid
  task_step_id :: string
  task_assignee :: string
  task_due_at :: "gotime option"
  task_form_schema :: gomap
  task_submitted_at :: "gotime option"
  task_submitted_by :: string
  task_result :: gomap

record action_registration =
  reg_id :: uuid
  reg_service :: string
  reg_action_name :: string
  reg_version :: int
  reg_description :: string
  reg_category :: string
  reg_compensable :: bool
  reg_input_schema :: gomap
  reg_output_schema :: gomap
  reg_error_codes :: "string list"
  reg_default_retry :: "retry_policy option"
  reg_default_timeout_ms :: int
  reg_deprecated :: bool
  reg_registered_at :: gotime
  reg_service_version :: string
  reg_dry_run_supported :: bool
  reg_license_group :: string
  reg_transport :: string
  reg_address :: string

record decision_table_row =
  row_when :: string
  row_then :: gomap

record rule_spec =
  spec_hit_policy :: string
  spec_rows :: "decision_table_row list"
  spec_default_output :: "gomap option"

record rule_definition =
  rule_uuid :: uuid
  rule_rule_id :: string
  rule_version :: int
  rule_tenant_id :: "string option"
  rule_name :: string
  rule_type :: string
  rule_spec :: rule_spec
  rule_published :: bool
  rule_created_at :: gotime
  rule_created_by :: string

definition NewRuleDefinition ::
  "uuid \<Rightarrow> gotime \<Rightarrow> string \<Rightarrow> int \<Rightarrow> string \<Rightarrow> string \<Rightarrow> rule_spec \<Rightarrow> string \<Rightarrow> rule_definition" where
  "NewRuleDefinition i now ruleID version name ruleType spec createdBy =
     \<lparr>rule_uuid = i, rule_rule_id = ruleID, rule_version = version, rule_tenant_id = None,
      rule_name = name, rule_type = ruleType, rule_spec = spec, rule_published = True,
      rule_created_at = now, rule_created_by = createdBy\<rparr>"

section \<open>Lemmas\<close>

lemma find_step_SomeD: "find_step ss i = Some s \<Longrightarrow> s \<in> set ss \<and> step_id s = i"
  by (induction ss) (auto split: if_splits)

lemma StepByID_SomeD: "StepByID d i = Some s \<Longrightarrow> s \<in> set (def_steps d) \<and> step_id s = i"
  by (simp add: StepByID_def find_step_SomeD)

lemma find_step_None_iff: "find_step ss i = None \<longleftrightarrow> (\<forall>s \<in> set ss. step_id s \<noteq> i)"
  by (induction ss) auto

lemma step_type_names_str: "(t, s) \<in> set step_type_names \<Longrightarrow> step_type_str t = s"
  by (auto simp: step_type_names_def step_type_str_def)

lemma step_type_str_of: "step_type_str (step_type_of s) = s"
  by (auto simp: step_type_of_def step_type_str_def [of "StepTypeCustom _"]
      dest!: map_of_SomeD intro!: step_type_names_str split: option.split)

lemma IsTerminal_iff:
  "IsTerminal s \<longleftrightarrow> s = RunStateSucceeded \<or> s = RunStateFailed \<or> s = RunStateCancelled"
  by (cases s) auto

lemma control_errs [simp]:
  "is_paused_err ErrSagaPaused" "\<not> is_paused_err ErrSagaCancelled"
  "is_cancelled_err ErrSagaCancelled" "\<not> is_cancelled_err ErrSagaPaused"
  "is_not_found (ErrNotFound entity i)"
  by (simp_all add: is_paused_err_def is_cancelled_err_def is_not_found_def)

end
