(* ===== verification/Clone.thy ===== *)
theory Clone
  imports Domain
begin

text \<open>
  \<^verbatim>\<open>store/memory/clone.go\<close>: the deep copies the in-memory store takes of every
  value on the way in and on the way out. The copies are written out as the code
  builds them; the lemmas show that a copy is equal to its original, so a caller
  that mutates what it was given never changes what the store holds.
\<close>

fun cloneAny :: "val \<Rightarrow> val" where
  "cloneAny (VMap m) = VMap (map (\<lambda>(k, v). (k, cloneAny v)) m)"
| "cloneAny (VList l) = VList (map cloneAny l)"
| "cloneAny (VStrMap m) = VStrMap (map (\<lambda>(k, v). (k, v)) m)"
| "cloneAny (VStrs l) = VStrs (l @ [])"
| "cloneAny (VMaps ms) = VMaps (map (map (\<lambda>(k, v). (k, cloneAny v))) ms)"
| "cloneAny v = v"

definition cloneMap :: "gomap \<Rightarrow> gomap" where
  "cloneMap m = map (\<lambda>(k, v). (k, cloneAny v)) m"

definition cloneStrMap :: "(string \<times> string) list \<Rightarrow> (string \<times> string) list" where
  "cloneStrMap m = map (\<lambda>(k, v). (k, v)) m"

definition cloneBoolMap :: "(string \<times> bool) list \<Rightarrow> (string \<times> bool) list" where
  "cloneBoolMap m = map (\<lambda>(k, v). (k, v)) m"

definition cloneStrs :: "string list \<Rightarrow> string list" where
  "cloneStrs l = [] @ l"

definition clonePtr :: "'a option \<Rightarrow> 'a option" where
  "clonePtr p = (case p of None \<Rightarrow> None | Some v \<Rightarrow> Some v)"

definition cloneRun :: "saga_run \<Rightarrow> saga_run" where
  "cloneRun r = r\<lparr>run_tenant_id := clonePtr (run_tenant_id r),
     run_inputs := cloneMap (run_inputs r), run_variables := cloneMap (run_variables r),
     run_terminal_at := clonePtr (run_terminal_at r),
     run_trigger_id := clonePtr (run_trigger_id r),
     run_parent_run_id := clonePtr (run_parent_run_id r),
     run_parent_step_id := clonePtr (run_parent_step_id r),
     run_parent_branch_id := clonePtr (run_parent_branch_id r),
     run_try_catch_stack := [] @ run_try_catch_stack r,
     run_wakeup_at := clonePtr (run_wakeup_at r),
     run_awaited_signal := clonePtr (run_awaited_signal r),
     run_awaited_event_topic := clonePtr (run_awaited_event_topic r),
     run_awaited_event_headers := cloneStrMap (run_awaited_event_headers r),
     run_feature_overrides := cloneBoolMap (run_feature_overrides r),
     run_awaited_action_dispatch := clonePtr (run_awaited_action_dispatch r),
     run_last_error := clonePtr (run_last_error r)\<rparr>"

definition cloneRuns :: "saga_run list \<Rightarrow> saga_run list" where
  "cloneRuns rs = map cloneRun rs"

definition cloneStep :: "step \<Rightarrow> step" where
  "cloneStep st = st\<lparr>step_inputs := cloneMap (step_inputs st),
     step_compensation :=
       map_option (\<lambda>c. c\<lparr>comp_inputs := cloneMap (comp_inputs c)\<rparr>) (step_compensation st),
     step_retry := clonePtr (step_retry st),
     step_branches := map (\<lambda>(k, v). (k, v)) (step_branches st),
     step_extra := cloneMap (step_extra st)\<rparr>"

definition cloneDef :: "workflow_definition \<Rightarrow> workflow_definition" where
  "cloneDef d = d\<lparr>def_tenant_id := clonePtr (def_tenant_id d),
     def_entrypoints := cloneStrMap (def_entrypoints d),
     def_steps := map cloneStep (def_steps d)\<rparr>"

definition cloneDefs :: "workflow_definition list \<Rightarrow> workflow_definition list" where
  "cloneDefs ds = map cloneDef ds"

definition cloneEvent :: "saga_run_event \<Rightarrow> saga_run_event" where
  "cloneEvent e = e\<lparr>ev_metadata := cloneMap (ev_metadata e)\<rparr>"

definition cloneEvents :: "saga_run_event list \<Rightarrow> saga_run_event list" where
  "cloneEvents es = map cloneEvent es"

definition cloneSignal :: "saga_signal \<Rightarrow> saga_signal" where
  "cloneSignal s = s\<lparr>sig_payload := cloneMap (sig_payload s),
     sig_consumed_at := clonePtr (sig_consumed_at s)\<rparr>"

definition cloneUserTask :: "user_task \<Rightarrow> user_task" where
  "cloneUserTask t = t\<lparr>task_due_at := clonePtr (task_due_at t),
     task_form_schema := cloneMap (task_form_schema t),
     task_submitted_at := clonePtr (task_submitted_at t),
     task_result := cloneMap (task_result t)\<rparr>"

definition cloneAction :: "action_registration \<Rightarrow> action_registration" where
  "cloneAction a = a\<lparr>reg_input_schema := cloneMap (reg_input_schema a),
     reg_output_schema := cloneMap (reg_output_schema a),
     reg_error_codes := cloneStrs (reg_error_codes a),
     reg_default_retry := clonePtr (reg_default_retry a)\<rparr>"

definition cloneRuleSpec :: "rule_spec \<Rightarrow> rule_spec" where
  "cloneRuleSpec s = s\<lparr>
     spec_rows := map (\<lambda>row. row\<lparr>row_then := cloneMap (row_then row)\<rparr>) (spec_rows s),
     spec_default_output := map_option cloneMap (spec_default_output s)\<rparr>"

definition cloneRule :: "rule_definition \<Rightarrow> rule_definition" where
  "cloneRule r = r\<lparr>rule_tenant_id := clonePtr (rule_tenant_id r),
     rule_spec := cloneRuleSpec (rule_spec r)\<rparr>"

definition cloneTrigger :: "saga_trigger \<Rightarrow> saga_trigger" where
  "cloneTrigger t = t\<lparr>trig_config := cloneMap (trig_config t),
     trig_tenant_id := clonePtr (trig_tenant_id t),
     trig_next_fire_at := clonePtr (trig_next_fire_at t),
     trig_last_fired_at := clonePtr (trig_last_fired_at t)\<rparr>"

definition cloneTriggerFire :: "trigger_fire_row \<Rightarrow> trigger_fire_row" where
  "cloneTriggerFire f = f\<lparr>fire_resulting_run_id := clonePtr (fire_resulting_run_id f)\<rparr>"

section \<open>A copy equals its original\<close>

lemma cloneAny_id [simp]: "cloneAny v = v"
proof (induction v rule: cloneAny.induct)
  case (1 m)
  then show ?case by (auto intro!: map_idI)
next
  case (2 l)
  then show ?case by (auto intro!: map_idI)
next
  case (5 ms)
  then show ?case by (auto intro!: map_idI)
qed (simp_all add: case_prod_eta)

lemma clone_base_id [simp]:
  "cloneMap m = m" "cloneStrMap sm = sm" "cloneBoolMap bm = bm" "cloneStrs l = l"
  by (simp_all add: cloneMap_def cloneStrMap_def cloneBoolMap_def cloneStrs_def)

lemma cloneMap_fun_id [simp]: "cloneMap = (\<lambda>m. m)"
  by (rule ext) simp

lemma clonePtr_id [simp]: "clonePtr p = p"
  by (simp add: clonePtr_def split: option.split)

lemma cloneStep_id [simp]: "cloneStep s = s"
  by (simp add: cloneStep_def option.map_ident)

lemma cloneRuleSpec_id [simp]: "cloneRuleSpec s = s"
  by (simp add: cloneRuleSpec_def option.map_ident)

lemma clone_entity_id [simp]:
  "cloneRun r = r" "cloneDef d = d" "cloneEvent e = e" "cloneSignal sg = sg"
  "cloneUserTask t = t" "cloneAction a = a" "cloneRule ru = ru" "cloneTrigger tr = tr"
  "cloneTriggerFire f = f"
  by (simp_all add: cloneRun_def cloneDef_def cloneEvent_def cloneSignal_def cloneUserTask_def
      cloneAction_def cloneRule_def cloneTrigger_def cloneTriggerFire_def map_idI)

lemma clone_list_id [simp]:
  "cloneRuns rs = rs" "cloneDefs ds = ds" "cloneEvents es = es"
  by (simp_all add: cloneRuns_def cloneDefs_def cloneEvents_def map_idI)

end
