(* ===== verification/Store_Interface.thy ===== *)
theory Store_Interface
  imports Clone
begin

text \<open>
  The contracts of \<^verbatim>\<open>store/store.go\<close>, stated as locales over an arbitrary store
  type: an entity table (create and get by id), an operation on one run
  (every method that loads a run, changes it and saves it), the operations that
  leave terminal runs alone, and a compare-and-swap claim. The engine reads runs
  only through \<^verbatim>\<open>GetRun\<close>, so the laws are stated through the getter. The
  in-memory store interprets each of them on its methods.
\<close>

section \<open>Entity tables\<close>

locale entity_table =
  fixes put :: "'e \<Rightarrow> 's \<Rightarrow> 's"
    and get :: "'s \<Rightarrow> uuid \<Rightarrow> gerr + 'e"
    and key :: "'e \<Rightarrow> uuid"
    and entity :: string
  assumes get_put: "get (put e s) i = (if i = key e then Inr e else get s i)"
    and get_error: "get s i = Inl err \<Longrightarrow> err = ErrNotFound entity i"
begin

lemma get_put_same: "get (put e s) (key e) = Inr e"
  by (simp add: get_put)

lemma put_overwrites: "key e = key e' \<Longrightarrow> get (put e' (put e s)) i = get (put e' s) i"
  by (simp add: get_put)

lemma put_commute: "key e \<noteq> key e' \<Longrightarrow> get (put e' (put e s)) i = get (put e (put e' s)) i"
  by (auto simp: get_put)

lemma get_cases: "(\<exists>e. get s i = Inr e) \<or> get s i = Inl (ErrNotFound entity i)"
  using get_error by (cases "get s i") auto

text \<open>After any sequence of creates the last one with the id wins.\<close>

lemma get_fold_put:
  "get (fold put es s) i =
     (case find (\<lambda>e. key e = i) (rev es) of Some e \<Rightarrow> Inr e | None \<Rightarrow> get s i)"
proof (induction es rule: rev_induct)
  case (snoc e es)
  then show ?case by (simp add: get_put)
qed simp

end

section \<open>Operations on one run\<close>

locale run_op =
  fixes get :: "'s \<Rightarrow> uuid \<Rightarrow> gerr + saga_run"
    and op :: "uuid \<Rightarrow> 's \<Rightarrow> gerr + 's"
    and eff :: "saga_run \<Rightarrow> saga_run"
  assumes op_missing: "get s i = Inl e \<Longrightarrow> op i s = Inl e"
    and op_hit: "get s i = Inr r \<Longrightarrow> \<exists>s'. op i s = Inr s' \<and> get s' i = Inr (eff r)"
    and op_frame: "op i s = Inr s' \<Longrightarrow> j \<noteq> i \<Longrightarrow> get s' j = get s j"
begin

lemma op_ok_iff: "is_ok (op i s) \<longleftrightarrow> is_ok (get s i)"
  using op_missing op_hit by (cases "get s i") (fastforce split: sum.splits)+

lemma op_get:
  assumes "op i s = Inr s'"
  shows "\<exists>r. get s i = Inr r \<and> get s' i = Inr (eff r)"
  using assms op_missing op_hit by (cases "get s i") fastforce+

lemma op_all:
  assumes "op i s = Inr s'"
    and "\<And>j r. get s j = Inr r \<Longrightarrow> P r"
    and "\<And>r. P r \<Longrightarrow> P (eff r)"
    and "get s' j = Inr r"
  shows "P r"
  using assms op_get [of i s s'] op_frame [of i s s' j] by (cases "j = i") auto

lemma op_commute:
  assumes "i \<noteq> j" and "op i s = Inr s1" and "op j s1 = Inr s2"
  shows "\<exists>s1' s2'. op j s = Inr s1' \<and> op i s1' = Inr s2' \<and> (\<forall>k. get s2' k = get s2 k)"
proof -
  obtain ri where ri: "get s i = Inr ri" "get s1 i = Inr (eff ri)" using op_get assms(2) by blast
  obtain rj where rj: "get s1 j = Inr rj" "get s2 j = Inr (eff rj)" using op_get assms(3) by blast
  have sj: "get s j = Inr rj" using op_frame [OF assms(2)] assms(1) rj by simp
  obtain s1' where s1': "op j s = Inr s1'" "get s1' j = Inr (eff rj)" using op_hit sj by blast
  have "get s1' i = Inr ri" using op_frame [OF s1'(1)] assms(1) ri by simp
  then obtain s2' where s2': "op i s1' = Inr s2'" "get s2' i = Inr (eff ri)" using op_hit by blast
  have "get s2' k = get s2 k" for k
    using op_frame [OF assms(2)] op_frame [OF assms(3)] op_frame [OF s1'(1)] op_frame [OF s2'(1)]
      ri rj s1' s2' assms(1) by (cases "k = i"; cases "k = j") auto
  then show ?thesis using s1' s2' by blast
qed

lemma op_twice:
  assumes "\<And>r. eff (eff r) = eff r" and "op i s = Inr s1" and "op i s1 = Inr s2"
  shows "get s2 j = get s1 j"
  using op_get [OF assms(2)] op_get [OF assms(3)] op_frame [OF assms(3)] assms(1)
  by (cases "j = i") auto

end

text \<open>Operations that change nothing of a terminal run.\<close>

locale terminal_safe_op = run_op +
  assumes eff_terminal: "IsTerminal (run_state r) \<Longrightarrow> eff r = r"
begin

lemma terminal_kept:
  assumes "op i s = Inr s'" and "get s j = Inr r" and "IsTerminal (run_state r)"
  shows "get s' j = Inr r"
  using assms op_get [OF assms(1)] op_frame [OF assms(1)] eff_terminal by (cases "j = i") auto

end

section \<open>Claims\<close>

text \<open>
  A compare-and-swap claim: \<open>claim\<close> reports whether the caller won and \<open>open_for\<close>
  says whether the token a caller holds is still current. Winning with a \<open>valid\<close> token
  makes every token of the same \<open>slot\<close> stale, and a lost claim changes nothing.
  \<open>outcomes\<close> lists what a sequence of claims reports, in order.
\<close>

primrec outcomes :: "('a \<Rightarrow> 's \<Rightarrow> bool \<times> 's) \<Rightarrow> 'a list \<Rightarrow> 's \<Rightarrow> bool list" where
  "outcomes claim [] s = []"
| "outcomes claim (a # as) s = fst (claim a s) # outcomes claim as (snd (claim a s))"

locale claim_op =
  fixes claim :: "'a \<Rightarrow> 's \<Rightarrow> bool \<times> 's"
    and open_for :: "'a \<Rightarrow> 's \<Rightarrow> bool"
    and valid :: "'a \<Rightarrow> bool"
    and slot :: "'a \<Rightarrow> 'k"
  assumes claim_wins: "fst (claim a s) \<longleftrightarrow> open_for a s"
    and claim_closes:
      "valid a \<Longrightarrow> open_for a s \<Longrightarrow> slot b = slot a \<Longrightarrow> \<not> open_for b (snd (claim a s))"
    and claim_loses: "\<not> open_for a s \<Longrightarrow> snd (claim a s) = s"
begin

lemma closed_never_wins:
  "\<forall>b \<in> set as. \<not> open_for b s \<Longrightarrow> outcomes claim as s = replicate (length as) False"
  by (induction as) (simp_all add: claim_wins claim_loses)

lemma first_wins:
  "valid a \<Longrightarrow> open_for a s \<Longrightarrow> \<forall>b \<in> set as. slot b = slot a
     \<Longrightarrow> outcomes claim (a # as) s = True # replicate (length as) False"
  by (simp add: claim_wins closed_never_wins claim_closes)

lemma at_most_one_winner:
  assumes "\<forall>a \<in> set as. valid a \<and> slot a = k"
  shows "length (filter id (outcomes claim as s)) \<le> 1"
  using assms
proof (induction as)
  case (Cons a as)
  show ?case
  proof (cases "open_for a s")
    case True
    then show ?thesis using first_wins [of a s as] Cons.prems by simp
  next
    case False
    then show ?thesis using Cons by (simp add: claim_wins claim_loses)
  qed
qed simp

end

end
