(* ===== verification/Memory_Store.thy ===== *)
theory Memory_Store
  imports Store_Interface
begin

text \<open>
  The in-memory implementation of the \<^verbatim>\<open>store.Store\<close> interface
  (\<^verbatim>\<open>store/memory/store.go\<close>, \<^verbatim>\<open>triggers.go\<close>, \<^verbatim>\<open>trigger_fires.go\<close>). Each method takes
  the store and returns \<open>Inl\<close> its error or \<open>Inr\<close> the new store (or the value
  read); what the method draws from \<^verbatim>\<open>uuid.New()\<close> and \<^verbatim>\<open>time.Now()\<close> is an argument
  (one instant per call). A method holds the store's mutex for its whole body, except
  that \<^verbatim>\<open>Cancel\<close> and \<^verbatim>\<open>FailAction\<close> release it before they append their audit event, so a
  method is one step and the event of those two is taken to follow at once.
\<close>

section \<open>The store\<close>

record mem_store =
  defs :: "(uuid \<times> workflow_definition) list"
  defsByName :: "(string \<times> uuid list) list"
  runs :: "(uuid \<times> saga_run) list"
  events :: "(uuid \<times> saga_run_event list) list"
  rules :: "(uuid \<times> rule_definition) list"
  rulesByID :: "(string \<times> uuid list) list"
  signals :: "(uuid \<times> saga_signal list) list"
  userTasks :: "(uuid \<times> user_task) list"
  actions :: "(string \<times> (int \<times> action_registration) list) list"
  triggers :: "(uuid \<times> saga_trigger) list"
  triggerFires :: "trigger_fire_row list"

definition New :: mem_store where
  "New = \<lparr>defs = [], defsByName = [], runs = [], events = [], rules = [], rulesByID = [],
     signals = [], userTasks = [], actions = [], triggers = [], triggerFires = []\<rparr>"

text \<open>Reading a missing key of a map of slices gives the empty slice.\<close>

definition at_key :: "('k \<times> 'v list) list \<Rightarrow> 'k \<Rightarrow> 'v list" where
  "at_key m k = or_default (map_of m k) []"

definition uuid_Nil :: uuid where
  "uuid_Nil = ''00000000-0000-0000-0000-000000000000''"

section \<open>Workflow definitions\<close>

definition UpsertWorkflowDefinition ::
  "uuid \<Rightarrow> workflow_definition \<Rightarrow> mem_store \<Rightarrow> mem_store" where
  "UpsertWorkflowDefinition i def s =
     s\<lparr>defs := AList.update i (cloneDef def) (defs s),
       defsByName :=
         AList.update (def_id def) (at_key (defsByName s) (def_id def) @ [i]) (defsByName s)\<rparr>"

definition GetWorkflowDefinition :: "mem_store \<Rightarrow> uuid \<Rightarrow> gerr + workflow_definition" where
  "GetWorkflowDefinition s i =
     (case map_of (defs s) i of
        None \<Rightarrow> Inl (ErrNotFound ''workflow_definition'' i)
      | Some d \<Rightarrow> Inr (cloneDef d))"

text \<open>The zero \<^verbatim>\<open>WorkflowDefinition\<close>, which a map read of a missing id yields.\<close>

definition blank_def :: workflow_definition where
  "blank_def = \<lparr>def_id = [], def_version = 0, def_tenant_id = None, def_name = [],
     def_description = [], def_start = [], def_entrypoints = [], def_steps = [],
     def_published = False, def_created_at = 0, def_created_by = []\<rparr>"

fun first_published :: "mem_store \<Rightarrow> uuid list \<Rightarrow> workflow_definition option" where
  "first_published s [] = None"
| "first_published s (i # is) =
     (let d = or_default (map_of (defs s) i) blank_def
      in if def_published d then Some (cloneDef d) else first_published s is)"

definition GetPublishedWorkflowByID :: "mem_store \<Rightarrow> string \<Rightarrow> gerr + workflow_definition" where
  "GetPublishedWorkflowByID s workflowID =
     (let ids = at_key (defsByName s) workflowID
      in case first_published s (rev ids) of
           Some d \<Rightarrow> Inr d
         | None \<Rightarrow>
             (if ids \<noteq> [] then Inr (cloneDef (or_default (map_of (defs s) (last ids)) blank_def))
              else Inl (ErrNotFound ''workflow_definition'' workflowID)))"

record definition_filter =
  dfilter_published :: "bool option"
  dfilter_search :: string
  dfilter_limit :: int
  dfilter_offset :: int

text \<open>
  \<^verbatim>\<open>matched[offset:end]\<close> with the offset clamped at zero, the empty result past the
  end and the end clamped to the length. For offsets and limits whose sum fits an \<^verbatim>\<open>int\<close>: past
  \<open>2 ^ 63\<close> Go's sum is negative and the slice expression panics. The endpoints ask for at most 500.
\<close>

definition page :: "int \<Rightarrow> int \<Rightarrow> 'a list \<Rightarrow> 'a list" where
  "page limit offset xs =
     (let off = (if offset < 0 then 0 else offset)
      in if off \<ge> int (length xs) then []
         else let e = (if off + limit > int (length xs) then int (length xs) else off + limit)
              in take (nat (e - off)) (drop (nat off) xs))"

definition newer_def :: "workflow_definition \<Rightarrow> workflow_definition \<Rightarrow> bool" where
  "newer_def a b =
     (if def_created_at a \<noteq> def_created_at b then def_created_at b < def_created_at a
      else def_version b < def_version a)"

definition def_matches :: "definition_filter \<Rightarrow> workflow_definition \<Rightarrow> bool" where
  "def_matches f d \<longleftrightarrow>
     (case dfilter_published f of None \<Rightarrow> True | Some p \<Rightarrow> def_published d = p) \<and>
     (let search = to_lower (dfilter_search f)
      in search = [] \<or> contains_str (to_lower (def_id d)) search
           \<or> contains_str (to_lower (def_name d)) search)"

definition ListWorkflowDefinitions ::
  "definition_filter \<Rightarrow> mem_store \<Rightarrow> workflow_definition list" where
  "ListWorkflowDefinitions f s =
     (let matched = insertion_sort newer_def (filter (def_matches f) (vals (defs s)));
          limit = (if dfilter_limit f \<le> 0 then 50 else dfilter_limit f);
          limit = (if limit > 500 then 500 else limit)
      in cloneDefs (page limit (dfilter_offset f) matched))"

section \<open>Runs\<close>

definition CreateRun :: "saga_run \<Rightarrow> mem_store \<Rightarrow> mem_store" where
  "CreateRun run s = s\<lparr>runs := AList.update (run_id run) (cloneRun run) (runs s)\<rparr>"

definition GetRun :: "mem_store \<Rightarrow> uuid \<Rightarrow> gerr + saga_run" where
  "GetRun s i =
     (case map_of (runs s) i of
        None \<Rightarrow> Inl (ErrNotFound ''saga_run'' i)
      | Some r \<Rightarrow> Inr (cloneRun r))"

text \<open>
  The body shared by the methods that read a run, change fields of it and store
  it back: \<^verbatim>\<open>r, ok := s.runs[id]; if !ok { return ErrNotFound }; ...; s.runs[id] = r\<close>.
\<close>

definition with_run :: "uuid \<Rightarrow> (saga_run \<Rightarrow> saga_run) \<Rightarrow> mem_store \<Rightarrow> gerr + mem_store" where
  "with_run i f s =
     (case map_of (runs s) i of
        None \<Rightarrow> Inl (ErrNotFound ''saga_run'' i)
      | Some r \<Rightarrow> Inr (s\<lparr>runs := AList.update i (f r) (runs s)\<rparr>))"

definition UpdateRunState :: "uuid \<Rightarrow> run_state \<Rightarrow> string \<Rightarrow> mem_store \<Rightarrow> gerr + mem_store" where
  "UpdateRunState i state currentStep =
     with_run i (\<lambda>r. r\<lparr>run_state := state, run_current_step := currentStep\<rparr>)"

definition AppendEvent :: "saga_run_event \<Rightarrow> mem_store \<Rightarrow> mem_store" where
  "AppendEvent evt s =
     s\<lparr>events := AList.update (ev_run_id evt)
         (at_key (events s) (ev_run_id evt) @ [cloneEvent evt]) (events s)\<rparr>"

definition ListEventsByRun :: "mem_store \<Rightarrow> uuid \<Rightarrow> saga_run_event list" where
  "ListEventsByRun s i = cloneEvents (at_key (events s) i)"

definition GetEventByID :: "mem_store \<Rightarrow> uuid \<Rightarrow> gerr + saga_run_event" where
  "GetEventByID s i =
     (case find (\<lambda>e. ev_id e = i) (concat (vals (events s))) of
        None \<Rightarrow> Inl (ErrNotFound ''saga_run_event'' i)
      | Some e \<Rightarrow> Inr (cloneEvent e))"

text \<open>Closing the run's open user tasks, as \<^verbatim>\<open>Cancel\<close> does.\<close>

definition close_task :: "gotime \<Rightarrow> uuid \<Rightarrow> user_task \<Rightarrow> user_task" where
  "close_task now runID t =
     (if task_run_id t = runID \<and> task_submitted_at t = None
      then t\<lparr>task_submitted_at := Some now, task_submitted_by := ''system:run-cancelled''\<rparr>
      else t)"

definition cancel_run :: "gotime \<Rightarrow> string \<Rightarrow> saga_run \<Rightarrow> saga_run" where
  "cancel_run now reason r =
     r\<lparr>run_state := RunStateCancelled, run_terminal_at := Some now, run_last_event_at := now,
       run_last_error := (if reason \<noteq> [] then Some reason else run_last_error r),
       run_wakeup_at := None, run_awaited_signal := None, run_awaited_event_topic := None,
       run_awaited_event_headers := [], run_awaited_action_dispatch := None\<rparr>"

definition Cancel :: "gotime \<Rightarrow> uuid \<Rightarrow> uuid \<Rightarrow> string \<Rightarrow> mem_store \<Rightarrow> gerr + mem_store" where
  "Cancel now evid runID reason s =
     (case map_of (runs s) runID of
        None \<Rightarrow> Inl (ErrNotFound ''saga_run'' runID)
      | Some r \<Rightarrow>
          (if IsTerminal (run_state r) then Inr s
           else let s' = s\<lparr>runs := AList.update runID (cancel_run now reason r) (runs s),
                         userTasks := map (\<lambda>(i, t). (i, close_task now runID t)) (userTasks s)\<rparr>;
                    evt = (NewEvent evid now runID (run_current_step r) 0 EventRunCancelled ''engine'')
                            \<lparr>ev_metadata := (if reason \<noteq> [] then [(''reason'', VStr reason)] else [])\<rparr>
                in Inr (AppendEvent evt s')))"

definition MarkRunFailed ::
  "gotime \<Rightarrow> uuid \<Rightarrow> string \<Rightarrow> string \<Rightarrow> mem_store \<Rightarrow> gerr + mem_store" where
  "MarkRunFailed now runID currentStep lastError =
     with_run runID
       (\<lambda>r. if IsTerminal (run_state r) then r
            else r\<lparr>run_state := RunStateFailed, run_current_step := currentStep,
                   run_terminal_at := Some now, run_last_event_at := now,
                   run_last_error :=
                     (if lastError \<noteq> [] then Some lastError else run_last_error r)\<rparr>)"

section \<open>Variables\<close>

text \<open>
  The byte loop that splits a key at its dots. Each byte is appended as
  \<^verbatim>\<open>string(key[i])\<close>, the UTF-8 encoding of the byte's value.
\<close>

fun dotted_loop :: "string list \<Rightarrow> string \<Rightarrow> string \<Rightarrow> string list" where
  "dotted_loop parts cur [] = parts @ [cur]"
| "dotted_loop parts cur (c # cs) =
     (if c = CHR ''.'' then dotted_loop (parts @ [cur]) [] cs
      else dotted_loop parts (cur @ rune_bytes c) cs)"

fun set_path :: "gomap \<Rightarrow> string list \<Rightarrow> val \<Rightarrow> gomap" where
  "set_path t [] v = t"
| "set_path t [p] v = AList.update p v t"
| "set_path t (p # q # ps) v =
     (let nested = (case map_of t p of Some (VMap m) \<Rightarrow> m | _ \<Rightarrow> [])
      in AList.update p (VMap (set_path nested (q # ps) v)) t)"

definition applyDottedKey :: "gomap \<Rightarrow> string \<Rightarrow> val \<Rightarrow> gomap" where
  "applyDottedKey target key v = set_path target (dotted_loop [] [] key) v"

definition merge_vars :: "gomap \<Rightarrow> gomap \<Rightarrow> gomap" where
  "merge_vars vars m = foldl (\<lambda>t (k, v). applyDottedKey t k (cloneAny v)) vars m"

definition UpdateRunVariables :: "uuid \<Rightarrow> gomap \<Rightarrow> mem_store \<Rightarrow> gerr + mem_store" where
  "UpdateRunVariables runID m =
     with_run runID (\<lambda>r. r\<lparr>run_variables := merge_vars (run_variables r) m\<rparr>)"

section \<open>Pausing and waking\<close>

definition SetPausedWithWakeup :: "uuid \<Rightarrow> gotime \<Rightarrow> mem_store \<Rightarrow> gerr + mem_store" where
  "SetPausedWithWakeup runID wakeupAt =
     with_run runID (\<lambda>r. r\<lparr>run_state := RunStatePaused, run_wakeup_at := Some wakeupAt\<rparr>)"

definition SetPausedAwaitingSignal ::
  "uuid \<Rightarrow> string \<Rightarrow> gotime option \<Rightarrow> mem_store \<Rightarrow> gerr + mem_store" where
  "SetPausedAwaitingSignal runID signalName deadline =
     with_run runID
       (\<lambda>r. r\<lparr>run_state := RunStatePaused, run_awaited_signal := Some signalName,
             run_wakeup_at :=
               (case deadline of None \<Rightarrow> run_wakeup_at r | Some d \<Rightarrow> Some d)\<rparr>)"

definition SetPausedAwaitingEventWithDeadline ::
  "uuid \<Rightarrow> string \<Rightarrow> (string \<times> string) list \<Rightarrow> gotime option \<Rightarrow> mem_store \<Rightarrow> gerr + mem_store" where
  "SetPausedAwaitingEventWithDeadline runID topic headers deadline =
     with_run runID
       (\<lambda>r. r\<lparr>run_state := RunStatePaused, run_awaited_event_topic := Some topic,
             run_awaited_event_headers := map (\<lambda>(k, v). (k, v)) headers,
             run_wakeup_at := deadline\<rparr>)"

definition SetPausedAwaitingEvent ::
  "uuid \<Rightarrow> string \<Rightarrow> (string \<times> string) list \<Rightarrow> mem_store \<Rightarrow> gerr + mem_store" where
  "SetPausedAwaitingEvent runID topic headers =
     SetPausedAwaitingEventWithDeadline runID topic headers None"

definition ClearPause :: "uuid \<Rightarrow> mem_store \<Rightarrow> gerr + mem_store" where
  "ClearPause runID =
     with_run runID
       (\<lambda>r. r\<lparr>run_state := RunStateRunning, run_wakeup_at := None, run_awaited_signal := None,
             run_awaited_event_topic := None, run_awaited_event_headers := []\<rparr>)"

definition wakeup_due :: "gotime \<Rightarrow> saga_run \<Rightarrow> bool" where
  "wakeup_due now r = (case run_wakeup_at r of None \<Rightarrow> False | Some t \<Rightarrow> \<not> t > now)"

text \<open>The loop stops once it has \<open>limit\<close> ids; the test comes after the append.\<close>

fun collect_due :: "gotime \<Rightarrow> int \<Rightarrow> uuid list \<Rightarrow> (uuid \<times> saga_run) list \<Rightarrow> uuid list" where
  "collect_due now limit out [] = out"
| "collect_due now limit out ((i, r) # rest) =
     (if run_state r = RunStatePaused \<and> wakeup_due now r
      then (let out' = out @ [i]
            in if int (length out') \<ge> limit then out' else collect_due now limit out' rest)
      else collect_due now limit out rest)"

definition FindRunsByDueWakeup :: "gotime \<Rightarrow> int \<Rightarrow> mem_store \<Rightarrow> uuid list" where
  "FindRunsByDueWakeup now limit s = collect_due now limit [] (runs s)"

definition FindRunsByAwaitedEvent :: "string \<Rightarrow> mem_store \<Rightarrow> saga_run list" where
  "FindRunsByAwaitedEvent topic s =
     map cloneRun
       (filter (\<lambda>r. run_state r = RunStatePaused \<and> run_awaited_event_topic r = Some topic)
         (vals (runs s)))"

definition clear_awaits :: "saga_run \<Rightarrow> saga_run" where
  "clear_awaits r =
     r\<lparr>run_awaited_signal := None, run_awaited_event_topic := None,
       run_awaited_event_headers := [], run_wakeup_at := None\<rparr>"

definition consume_signal :: "gotime \<Rightarrow> string \<Rightarrow> saga_signal \<Rightarrow> saga_signal" where
  "consume_signal now name sig =
     (if sig_name sig = name \<and> sig_consumed_at sig = None
      then sig\<lparr>sig_consumed_at := Some now\<rparr> else sig)"

definition TryConsumeAwaitedSignal ::
  "gotime \<Rightarrow> uuid \<Rightarrow> string \<Rightarrow> mem_store \<Rightarrow> bool \<times> mem_store" where
  "TryConsumeAwaitedSignal now runID signalName s =
     (case map_of (runs s) runID of
        None \<Rightarrow> (False, s)
      | Some r \<Rightarrow>
          (if run_state r \<noteq> RunStatePaused \<or> run_awaited_signal r \<noteq> Some signalName
           then (False, s)
           else (True,
             s\<lparr>signals :=
                 (case map_of (signals s) runID of
                    None \<Rightarrow> signals s
                  | Some sigs \<Rightarrow>
                      AList.update runID (map (consume_signal now signalName) sigs) (signals s)),
               runs := AList.update runID (clear_awaits r) (runs s)\<rparr>)))"

definition WakeFromExternal :: "uuid \<Rightarrow> mem_store \<Rightarrow> gerr + mem_store" where
  "WakeFromExternal runID = with_run runID clear_awaits"

definition AppendSignal :: "saga_signal \<Rightarrow> mem_store \<Rightarrow> mem_store" where
  "AppendSignal sig s =
     s\<lparr>signals := AList.update (sig_run_id sig)
         (at_key (signals s) (sig_run_id sig) @ [cloneSignal sig]) (signals s)\<rparr>"

section \<open>Child runs and the try/catch stack\<close>

text \<open>
  \<open>SpawnChildRunAt\<close> reuses the last stored version of the definition's id, or
  stores the definition under the fresh id \<open>freshDef\<close>; \<open>childID\<close> is the id
  \<^verbatim>\<open>NewSagaRun\<close> draws.
\<close>

definition new_child ::
  "uuid \<Rightarrow> gotime \<Rightarrow> uuid \<Rightarrow> uuid \<Rightarrow> string \<Rightarrow> string \<Rightarrow> workflow_definition \<Rightarrow> gomap \<Rightarrow> string
   \<Rightarrow> saga_run" where
  "new_child childID now defStoredID parentID parentStepID branchKey def inputs startStep =
     (let child = NewSagaRun childID now (def_id def) defStoredID None (cloneMap inputs);
          child = (if startStep \<noteq> [] then child\<lparr>run_current_step := startStep\<rparr> else child)
      in child\<lparr>run_parent_run_id := Some parentID, run_parent_step_id := Some parentStepID,
               run_parent_branch_id := Some branchKey\<rparr>)"

definition SpawnChildRunAt ::
  "uuid \<Rightarrow> uuid \<Rightarrow> gotime \<Rightarrow> uuid \<Rightarrow> string \<Rightarrow> string \<Rightarrow> workflow_definition \<Rightarrow> gomap \<Rightarrow> string
   \<Rightarrow> mem_store \<Rightarrow> mem_store" where
  "SpawnChildRunAt freshDef childID now parentID parentStepID branchKey def inputs startStep s =
     (let ids = at_key (defsByName s) (def_id def);
          (defStoredID, s') =
            (if ids \<noteq> [] then (last ids, s)
             else (freshDef,
                   s\<lparr>defs := AList.update freshDef (cloneDef def) (defs s),
                     defsByName := AList.update (def_id def) (ids @ [freshDef]) (defsByName s)\<rparr>));
          child = new_child childID now defStoredID parentID parentStepID branchKey def inputs
                    startStep
      in s'\<lparr>runs := AList.update (run_id child) child (runs s')\<rparr>)"

definition SpawnChildRun ::
  "uuid \<Rightarrow> uuid \<Rightarrow> gotime \<Rightarrow> uuid \<Rightarrow> string \<Rightarrow> string \<Rightarrow> workflow_definition \<Rightarrow> gomap
   \<Rightarrow> mem_store \<Rightarrow> mem_store" where
  "SpawnChildRun freshDef childID now parentID parentStepID branchKey def inputs =
     SpawnChildRunAt freshDef childID now parentID parentStepID branchKey def inputs []"

definition ListChildrenByParent :: "mem_store \<Rightarrow> uuid \<Rightarrow> string \<Rightarrow> saga_run list" where
  "ListChildrenByParent s parentID parentStepID =
     map cloneRun
       (filter (\<lambda>r. run_parent_run_id r = Some parentID \<and> run_parent_step_id r = Some parentStepID)
         (vals (runs s)))"

definition maxDepth :: nat where
  "maxDepth = 3"

definition PushTryCatch :: "uuid \<Rightarrow> try_catch_frame \<Rightarrow> mem_store \<Rightarrow> gerr + mem_store" where
  "PushTryCatch runID frame s =
     (case map_of (runs s) runID of
        None \<Rightarrow> Inl (ErrNotFound ''saga_run'' runID)
      | Some r \<Rightarrow>
          (if length (run_try_catch_stack r) \<ge> maxDepth
           then Inl (Errorf ''try_catch max nesting depth %d exceeded for run %s''
                       [AInt (int maxDepth), AStr runID])
           else Inr (s\<lparr>runs := AList.update runID
                  (r\<lparr>run_try_catch_stack := run_try_catch_stack r @ [frame]\<rparr>) (runs s)\<rparr>)))"

definition PopTryCatch :: "uuid \<Rightarrow> mem_store \<Rightarrow> gerr + try_catch_frame option \<times> mem_store" where
  "PopTryCatch runID s =
     (case map_of (runs s) runID of
        None \<Rightarrow> Inl (ErrNotFound ''saga_run'' runID)
      | Some r \<Rightarrow>
          (if run_try_catch_stack r = [] then Inr (None, s)
           else Inr (Some (last (run_try_catch_stack r)),
                  s\<lparr>runs := AList.update runID
                     (r\<lparr>run_try_catch_stack := butlast (run_try_catch_stack r)\<rparr>) (runs s)\<rparr>)))"

section \<open>User tasks\<close>

definition CreateUserTask :: "user_task \<Rightarrow> mem_store \<Rightarrow> mem_store" where
  "CreateUserTask t s = s\<lparr>userTasks := AList.update (task_id t) (cloneUserTask t) (userTasks s)\<rparr>"

definition GetUserTask :: "mem_store \<Rightarrow> uuid \<Rightarrow> gerr + user_task" where
  "GetUserTask s i =
     (case map_of (userTasks s) i of
        None \<Rightarrow> Inl (ErrNotFound ''user_task'' i)
      | Some t \<Rightarrow> Inr (cloneUserTask t))"

text \<open>Byte order of two UUIDs, read off their canonical texts.\<close>

fun uuidLess :: "uuid \<Rightarrow> uuid \<Rightarrow> bool" where
  "uuidLess (a # as) (b # bs) =
     (if a \<noteq> b then (of_char a :: nat) < of_char b else uuidLess as bs)"
| "uuidLess _ _ = False"

definition ListUserTasksByRun :: "mem_store \<Rightarrow> uuid \<Rightarrow> user_task list" where
  "ListUserTasksByRun s i =
     insertion_sort (\<lambda>a b. uuidLess (task_id a) (task_id b))
       (map cloneUserTask (filter (\<lambda>t. task_run_id t = i) (vals (userTasks s))))"

definition SubmitUserTask ::
  "gotime \<Rightarrow> uuid \<Rightarrow> string \<Rightarrow> gomap \<Rightarrow> mem_store \<Rightarrow> gerr + mem_store" where
  "SubmitUserTask now i submittedBy result s =
     (case map_of (userTasks s) i of
        None \<Rightarrow> Inl (ErrNotFound ''user_task'' i)
      | Some t \<Rightarrow> Inr (s\<lparr>userTasks := AList.update i
            (t\<lparr>task_submitted_at := Some now, task_submitted_by := submittedBy,
               task_result := cloneMap result\<rparr>) (userTasks s)\<rparr>))"

section \<open>Action registry and awaited actions\<close>

definition UpsertActionRegistration ::
  "uuid \<Rightarrow> gotime \<Rightarrow> action_registration \<Rightarrow> mem_store \<Rightarrow> mem_store" where
  "UpsertActionRegistration fresh now reg s =
     (let key = reg_service reg @ ''.'' @ reg_action_name reg;
          reg = reg\<lparr>reg_id := (if reg_id reg = uuid_Nil then fresh else reg_id reg)\<rparr>;
          reg = reg\<lparr>reg_registered_at :=
                      (if reg_registered_at reg = 0 then now else reg_registered_at reg)\<rparr>
      in s\<lparr>actions := AList.update key
             (AList.update (reg_version reg) (cloneAction reg) (at_key (actions s) key))
             (actions s)\<rparr>)"

record action_filter =
  afilter_service :: string
  afilter_search :: string
  afilter_category :: string

definition action_matches :: "action_filter \<Rightarrow> action_registration \<Rightarrow> bool" where
  "action_matches f reg \<longleftrightarrow>
     (afilter_service f = [] \<or> reg_service reg = afilter_service f) \<and>
     (afilter_category f = [] \<or> reg_category reg = afilter_category f) \<and>
     (afilter_search f = [] \<or> contains_str (reg_action_name reg) (afilter_search f))"

definition ListActions :: "action_filter \<Rightarrow> mem_store \<Rightarrow> action_registration list" where
  "ListActions f s =
     map cloneAction (filter (action_matches f) (concat (map vals (vals (actions s)))))"

definition GetAction :: "mem_store \<Rightarrow> string \<Rightarrow> string \<Rightarrow> int \<Rightarrow> gerr + action_registration" where
  "GetAction s service name version =
     (case map_of (at_key (actions s) (service @ ''.'' @ name)) version of
        Some reg \<Rightarrow> Inr (cloneAction reg)
      | None \<Rightarrow> Inl (ErrNotFound ''action_registration''
                  (service @ ''.'' @ name @ '':'' @ show_int version)))"

definition MarkAwaitingAction :: "uuid \<Rightarrow> string \<Rightarrow> int \<Rightarrow> mem_store \<Rightarrow> gerr + mem_store" where
  "MarkAwaitingAction runID dispatch attempt =
     with_run runID
       (\<lambda>r. if run_current_attempt r = attempt \<and> run_awaited_action_dispatch r = Some dispatch
            then r
            else r\<lparr>run_state := RunStatePaused, run_awaited_action_dispatch := Some dispatch,
                   run_current_attempt := attempt\<rparr>)"

definition put_vars :: "gomap \<Rightarrow> gomap \<Rightarrow> gomap" where
  "put_vars vars m = foldl (\<lambda>t (k, v). AList.update k (cloneAny v) t) vars m"

definition CompleteAction :: "gotime \<Rightarrow> uuid \<Rightarrow> int \<Rightarrow> gomap \<Rightarrow> mem_store \<Rightarrow> gerr + mem_store" where
  "CompleteAction now runID attempt result =
     with_run runID
       (\<lambda>r. if run_current_attempt r \<noteq> attempt then r
            else r\<lparr>run_awaited_action_dispatch := None, run_wakeup_at := Some now,
                   run_variables := put_vars (run_variables r) result\<rparr>)"

definition FailAction ::
  "gotime \<Rightarrow> uuid \<Rightarrow> uuid \<Rightarrow> int \<Rightarrow> string \<Rightarrow> string \<Rightarrow> bool \<Rightarrow> mem_store \<Rightarrow> gerr + mem_store" where
  "FailAction now evid runID attempt code message retryable s =
     (case map_of (runs s) runID of
        None \<Rightarrow> Inl (ErrNotFound ''saga_run'' runID)
      | Some r \<Rightarrow>
          (if run_current_attempt r \<noteq> attempt then Inr s
           else let dispatch = or_default (run_awaited_action_dispatch r) [];
                    r' = r\<lparr>run_awaited_action_dispatch := None, run_state := RunStateFailed,
                           run_terminal_at := Some now, run_last_event_at := now,
                           run_last_error :=
                             (if message \<noteq> [] then Some message else run_last_error r)\<rparr>;
                    evt = (NewEvent evid now runID (run_current_step r') attempt
                             EventStepFailed ''engine'')
                          \<lparr>ev_metadata :=
                             [(''code'', VStr code), (''message'', VStr message),
                              (''retryable'', VBool retryable), (''action'', VStr dispatch)]\<rparr>
                in Inr (AppendEvent evt (s\<lparr>runs := AList.update runID r' (runs s)\<rparr>))))"

section \<open>Run queries\<close>

record run_filter =
  rfilter_workflow_id :: string
  rfilter_state :: string
  rfilter_trigger_type :: string
  rfilter_since :: "gotime option"
  rfilter_has_error :: "bool option"
  rfilter_requires_review :: "bool option"
  rfilter_limit :: int
  rfilter_offset :: int

definition buildTriggerTypeMap :: "mem_store \<Rightarrow> (uuid \<times> string) list" where
  "buildTriggerTypeMap s = map (\<lambda>(i, t). (i, trigger_type_str (trig_type t))) (triggers s)"

definition run_matches :: "run_filter \<Rightarrow> (uuid \<times> string) list \<Rightarrow> saga_run \<Rightarrow> bool" where
  "run_matches f triggerTypeByID r \<longleftrightarrow>
     (rfilter_workflow_id f = [] \<or> run_workflow_id r = rfilter_workflow_id f) \<and>
     (rfilter_state f = [] \<or> run_state_str (run_state r) = rfilter_state f) \<and>
     (case rfilter_since f of None \<Rightarrow> True | Some t \<Rightarrow> \<not> run_started_at r < t) \<and>
     (case rfilter_has_error f of None \<Rightarrow> True | Some b \<Rightarrow> b = (run_state r = RunStateFailed)) \<and>
     (case rfilter_requires_review f of None \<Rightarrow> True | Some b \<Rightarrow> run_requires_manual_review r = b) \<and>
     (rfilter_trigger_type f = [] \<or>
        (case run_trigger_id r of
           None \<Rightarrow> False
         | Some i \<Rightarrow> map_of triggerTypeByID i = Some (rfilter_trigger_type f)))"

definition filterRuns :: "run_filter \<Rightarrow> (uuid \<times> string) list \<Rightarrow> mem_store \<Rightarrow> saga_run list" where
  "filterRuns f triggerTypeByID s = filter (run_matches f triggerTypeByID) (vals (runs s))"

definition started_later :: "saga_run \<Rightarrow> saga_run \<Rightarrow> bool" where
  "started_later a b \<longleftrightarrow> run_started_at b < run_started_at a"

definition ListRuns :: "run_filter \<Rightarrow> mem_store \<Rightarrow> saga_run list" where
  "ListRuns f s =
     (let matched = insertion_sort started_later (filterRuns f (buildTriggerTypeMap s) s);
          limit = (if rfilter_limit f \<le> 0 then 50 else rfilter_limit f)
      in cloneRuns (page limit (rfilter_offset f) matched))"

definition CountRuns :: "run_filter \<Rightarrow> mem_store \<Rightarrow> int" where
  "CountRuns f s = int (length (filterRuns f (buildTriggerTypeMap s) s))"

record workflow_stats =
  stats_workflow_id :: string
  stats_success_rate :: "rat option"
  stats_last_run_at :: "gotime option"
  stats_in_flight :: int

text \<open>
  The aggregation loop over the runs of a workflow, with the counters it keeps:
  the latest start, the in-flight count and the successes and failures of the
  last 24 hours.
\<close>

fun stats_loop ::
  "gotime \<Rightarrow> string \<Rightarrow> gotime option \<Rightarrow> int \<Rightarrow> int \<Rightarrow> int \<Rightarrow> saga_run list
   \<Rightarrow> gotime option \<times> int \<times> int \<times> int" where
  "stats_loop window wid lastRun flight ok bad [] = (lastRun, flight, ok, bad)"
| "stats_loop window wid lastRun flight ok bad (r # rs) =
     (if run_workflow_id r \<noteq> wid then stats_loop window wid lastRun flight ok bad rs
      else
        let lastRun = (case lastRun of None \<Rightarrow> Some (run_started_at r)
                       | Some t \<Rightarrow> if run_started_at r > t then Some (run_started_at r) else Some t);
            flight = (if run_state r \<noteq> RunStateSucceeded \<and> run_state r \<noteq> RunStateFailed
                         \<and> run_state r \<noteq> RunStateCancelled then flight + 1 else flight);
            recent = (\<not> run_started_at r < window);
            ok = (if recent \<and> run_state r = RunStateSucceeded then ok + 1 else ok);
            bad = (if recent \<and> run_state r = RunStateFailed then bad + 1 else bad)
        in stats_loop window wid lastRun flight ok bad rs)"

definition StatsForWorkflow :: "gotime \<Rightarrow> string \<Rightarrow> mem_store \<Rightarrow> workflow_stats" where
  "StatsForWorkflow now workflowID s =
     (let window = now - 24 * 3600 * second_ns;
          (lastRun, flight, ok, bad) = stats_loop window workflowID None 0 0 0 (vals (runs s));
          total = ok + bad
      in \<lparr>stats_workflow_id = workflowID,
          stats_success_rate =
            (if total > 0 then Some (of_int ok / of_int total) else None),
          stats_last_run_at = lastRun, stats_in_flight = flight\<rparr>)"

section \<open>Rules\<close>

definition UpsertRuleDefinition :: "uuid \<Rightarrow> rule_definition \<Rightarrow> mem_store \<Rightarrow> uuid \<times> mem_store" where
  "UpsertRuleDefinition fresh def s =
     (let i = (if rule_uuid def = uuid_Nil then fresh else rule_uuid def);
          def = def\<lparr>rule_uuid := i\<rparr>;
          byID = (case map_of (rules s) i of
                    None \<Rightarrow> rulesByID s
                  | Some existing \<Rightarrow>
                      AList.update (rule_rule_id existing)
                        (filter (\<lambda>eid. eid \<noteq> i) (at_key (rulesByID s) (rule_rule_id existing)))
                        (rulesByID s))
      in (i, s\<lparr>rules := AList.update i (cloneRule def) (rules s),
               rulesByID := AList.update (rule_rule_id def)
                              (at_key byID (rule_rule_id def) @ [i]) byID\<rparr>))"

fun first_published_rule :: "mem_store \<Rightarrow> uuid list \<Rightarrow> rule_definition option" where
  "first_published_rule s [] = None"
| "first_published_rule s (i # is) =
     (case map_of (rules s) i of
        Some r \<Rightarrow> (if rule_published r then Some (cloneRule r) else first_published_rule s is)
      | None \<Rightarrow> first_published_rule s is)"

definition blank_rule :: rule_definition where
  "blank_rule = \<lparr>rule_uuid = uuid_Nil, rule_rule_id = [], rule_version = 0, rule_tenant_id = None,
     rule_name = [], rule_type = [],
     rule_spec = \<lparr>spec_hit_policy = [], spec_rows = [], spec_default_output = None\<rparr>,
     rule_published = False, rule_created_at = 0, rule_created_by = []\<rparr>"

definition GetPublishedRuleByID :: "mem_store \<Rightarrow> string \<Rightarrow> gerr + rule_definition" where
  "GetPublishedRuleByID s ruleID =
     (let ids = at_key (rulesByID s) ruleID
      in case first_published_rule s (rev ids) of
           Some r \<Rightarrow> Inr r
         | None \<Rightarrow>
             (if ids \<noteq> [] then Inr (cloneRule (or_default (map_of (rules s) (last ids)) blank_rule))
              else Inl (ErrNotFound ''rule_definition'' ruleID)))"

section \<open>Triggers\<close>

definition UpsertTrigger :: "uuid \<Rightarrow> gotime \<Rightarrow> saga_trigger \<Rightarrow> mem_store \<Rightarrow> uuid \<times> mem_store" where
  "UpsertTrigger fresh now t s =
     (let i = (if trig_id t = uuid_Nil then fresh else trig_id t);
          t = t\<lparr>trig_id := i\<rparr>;
          t = t\<lparr>trig_created_at := (if trig_created_at t = 0 then now else trig_created_at t)\<rparr>
      in (i, s\<lparr>triggers := AList.update i (cloneTrigger t) (triggers s)\<rparr>))"

definition GetTrigger :: "mem_store \<Rightarrow> uuid \<Rightarrow> gerr + saga_trigger" where
  "GetTrigger s i =
     (case map_of (triggers s) i of
        None \<Rightarrow> Inl (ErrNotFound ''saga_trigger'' i)
      | Some t \<Rightarrow> Inr (cloneTrigger t))"

record trigger_filter =
  tfilter_type :: "trigger_type option"
  tfilter_enabled :: "bool option"
  tfilter_tenant_id :: "uuid option"

definition trigger_matches :: "trigger_filter \<Rightarrow> saga_trigger \<Rightarrow> bool" where
  "trigger_matches f t \<longleftrightarrow>
     (case tfilter_type f of None \<Rightarrow> True | Some ty \<Rightarrow> trig_type t = ty) \<and>
     (case tfilter_enabled f of None \<Rightarrow> True | Some b \<Rightarrow> trig_enabled t = b) \<and>
     (case tfilter_tenant_id f of None \<Rightarrow> True | Some i \<Rightarrow> trig_tenant_id t = Some i)"

definition ListTriggers :: "trigger_filter \<Rightarrow> mem_store \<Rightarrow> saga_trigger list" where
  "ListTriggers f s = map cloneTrigger (filter (trigger_matches f) (vals (triggers s)))"

definition DeleteTrigger :: "uuid \<Rightarrow> mem_store \<Rightarrow> gerr + mem_store" where
  "DeleteTrigger i s =
     (case map_of (triggers s) i of
        None \<Rightarrow> Inl (ErrNotFound ''saga_trigger'' i)
      | Some _ \<Rightarrow> Inr (s\<lparr>triggers := AList.delete i (triggers s)\<rparr>))"

definition cron_due :: "gotime \<Rightarrow> saga_trigger \<Rightarrow> bool" where
  "cron_due now t \<longleftrightarrow> trig_type t = TriggerCron \<and> trig_enabled t \<and>
     (case trig_next_fire_at t of None \<Rightarrow> False | Some n \<Rightarrow> \<not> n > now)"

definition fires_before :: "saga_trigger \<Rightarrow> saga_trigger \<Rightarrow> bool" where
  "fires_before a b \<longleftrightarrow> or_default (trig_next_fire_at a) 0 < or_default (trig_next_fire_at b) 0"

definition ListDueCronTriggers :: "gotime \<Rightarrow> int \<Rightarrow> mem_store \<Rightarrow> saga_trigger list" where
  "ListDueCronTriggers now limit s =
     (let out = insertion_sort fires_before
                  (map cloneTrigger (filter (cron_due now) (vals (triggers s))))
      in if limit > 0 \<and> int (length out) > limit then take (nat limit) out else out)"

definition ClaimCronFire :: "uuid \<Rightarrow> gotime \<Rightarrow> gotime \<Rightarrow> mem_store \<Rightarrow> bool \<times> mem_store" where
  "ClaimCronFire i expectedNextFire newNextFire s =
     (case map_of (triggers s) i of
        None \<Rightarrow> (False, s)
      | Some t \<Rightarrow>
          (if trig_next_fire_at t \<noteq> Some expectedNextFire then (False, s)
           else (True, s\<lparr>triggers := AList.update i
                  (t\<lparr>trig_next_fire_at := Some newNextFire, trig_last_fired_at := Some newNextFire\<rparr>)
                  (triggers s)\<rparr>)))"

definition RecordTriggerFire ::
  "uuid \<Rightarrow> gotime \<Rightarrow> uuid \<Rightarrow> string \<Rightarrow> uuid option \<Rightarrow> string \<Rightarrow> mem_store \<Rightarrow> mem_store" where
  "RecordTriggerFire fresh now triggerID workflowID runID fireErr s =
     s\<lparr>triggerFires := triggerFires s @
         [\<lparr>fire_id = fresh, fire_trigger_id = triggerID, fire_workflow_id = workflowID,
           fire_fired_at = now, fire_resulting_run_id = clonePtr runID, fire_error = fireErr\<rparr>]\<rparr>"

definition TriggerFires :: "mem_store \<Rightarrow> trigger_fire_row list" where
  "TriggerFires s = map cloneTriggerFire (triggerFires s)"

section \<open>Laws of the run table\<close>

lemma new_child_fields [simp]:
  "run_id (new_child c now di p ps b d inp st) = c"
  "run_workflow_id (new_child c now di p ps b d inp st) = def_id d"
  "run_definition_id (new_child c now di p ps b d inp st) = di"
  "run_state (new_child c now di p ps b d inp st) = RunStatePending"
  "run_current_step (new_child c now di p ps b d inp st) = st"
  "run_inputs (new_child c now di p ps b d inp st) = inp"
  "run_variables (new_child c now di p ps b d inp st) = []"
  "run_parent_run_id (new_child c now di p ps b d inp st) = Some p"
  "run_parent_step_id (new_child c now di p ps b d inp st) = Some ps"
  "run_parent_branch_id (new_child c now di p ps b d inp st) = Some b"
  "run_try_catch_stack (new_child c now di p ps b d inp st) = []"
  by (simp_all add: new_child_def NewSagaRun_def Let_def)

lemma GetRun_iff: "GetRun s i = Inr r \<longleftrightarrow> map_of (runs s) i = Some r"
  by (auto simp: GetRun_def split: option.splits)

lemma GetRun_Inl_iff:
  "GetRun s i = Inl e \<longleftrightarrow> map_of (runs s) i = None \<and> e = ErrNotFound ''saga_run'' i"
  by (auto simp: GetRun_def split: option.splits)

lemmas run_table = GetRun_iff GetRun_Inl_iff

lemma with_run_run_op: "run_op GetRun (\<lambda>i. with_run i f) f"
  by unfold_locales (auto simp: GetRun_def with_run_def split: option.splits)

lemma with_run_InrD:
  assumes "with_run i f s = Inr s'"
  shows "\<exists>r. map_of (runs s) i = Some r \<and> s' = s\<lparr>runs := AList.update i (f r) (runs s)\<rparr>"
  using assms by (auto simp: with_run_def split: option.splits)

interpretation run_entities: entity_table CreateRun GetRun run_id "''saga_run''"
  by unfold_locales (auto simp: CreateRun_def GetRun_def split: option.splits)

interpretation task_entities: entity_table CreateUserTask GetUserTask task_id "''user_task''"
  by unfold_locales (auto simp: CreateUserTask_def GetUserTask_def split: option.splits)

interpretation state_op: run_op GetRun "\<lambda>i. UpdateRunState i st cur"
    "\<lambda>r. r\<lparr>run_state := st, run_current_step := cur\<rparr>" for st cur
  unfolding UpdateRunState_def by (rule with_run_run_op)

interpretation vars_op: run_op GetRun "\<lambda>i. UpdateRunVariables i m"
    "\<lambda>r. r\<lparr>run_variables := merge_vars (run_variables r) m\<rparr>" for m
  unfolding UpdateRunVariables_def by (rule with_run_run_op)

interpretation pause_op: run_op GetRun "\<lambda>i. SetPausedWithWakeup i t"
    "\<lambda>r. r\<lparr>run_state := RunStatePaused, run_wakeup_at := Some t\<rparr>" for t
  unfolding SetPausedWithWakeup_def by (rule with_run_run_op)

interpretation clear_op: run_op GetRun ClearPause
    "\<lambda>r. r\<lparr>run_state := RunStateRunning, run_wakeup_at := None, run_awaited_signal := None,
          run_awaited_event_topic := None, run_awaited_event_headers := []\<rparr>"
  unfolding ClearPause_def [abs_def] by (rule with_run_run_op)

interpretation wake_op: run_op GetRun WakeFromExternal clear_awaits
  unfolding WakeFromExternal_def [abs_def] by (rule with_run_run_op)

interpretation await_op: run_op GetRun "\<lambda>i. MarkAwaitingAction i d a"
    "\<lambda>r. if run_current_attempt r = a \<and> run_awaited_action_dispatch r = Some d then r
         else r\<lparr>run_state := RunStatePaused, run_awaited_action_dispatch := Some d,
                run_current_attempt := a\<rparr>" for d a
  unfolding MarkAwaitingAction_def by (rule with_run_run_op)

interpretation complete_op: run_op GetRun "\<lambda>i. CompleteAction now i a m"
    "\<lambda>r. if run_current_attempt r \<noteq> a then r
         else r\<lparr>run_awaited_action_dispatch := None, run_wakeup_at := Some now,
                run_variables := put_vars (run_variables r) m\<rparr>" for now a m
  unfolding CompleteAction_def by (rule with_run_run_op)

definition failed_run :: "gotime \<Rightarrow> string \<Rightarrow> string \<Rightarrow> saga_run \<Rightarrow> saga_run" where
  "failed_run now cur msg r =
     (if IsTerminal (run_state r) then r
      else r\<lparr>run_state := RunStateFailed, run_current_step := cur, run_terminal_at := Some now,
             run_last_event_at := now,
             run_last_error := (if msg \<noteq> [] then Some msg else run_last_error r)\<rparr>)"

lemma MarkRunFailed_alt: "MarkRunFailed now i cur msg = with_run i (failed_run now cur msg)"
  by (simp add: MarkRunFailed_def failed_run_def [abs_def])

interpretation fail_op: terminal_safe_op GetRun "\<lambda>i. MarkRunFailed now i cur msg"
    "failed_run now cur msg" for now cur msg
  unfolding MarkRunFailed_alt terminal_safe_op_def terminal_safe_op_axioms_def
  using with_run_run_op by (simp add: failed_run_def)

text \<open>\<open>Cancel\<close> also closes user tasks and appends an event, which no run read sees.\<close>

lemma runs_AppendEvent [simp]: "runs (AppendEvent e s) = runs s"
  by (simp add: AppendEvent_def)

definition cancelled_run :: "gotime \<Rightarrow> string \<Rightarrow> saga_run \<Rightarrow> saga_run" where
  "cancelled_run now reason r = (if IsTerminal (run_state r) then r else cancel_run now reason r)"

interpretation cancel_op: terminal_safe_op GetRun "\<lambda>i. Cancel now evid i reason"
    "cancelled_run now reason" for now evid reason
  by unfold_locales
    (auto simp: GetRun_def Cancel_def cancelled_run_def Let_def split: option.splits if_splits)

interpretation signal_pause_op: run_op GetRun "\<lambda>i. SetPausedAwaitingSignal i n d"
    "\<lambda>r. r\<lparr>run_state := RunStatePaused, run_awaited_signal := Some n,
          run_wakeup_at := (case d of None \<Rightarrow> run_wakeup_at r | Some t \<Rightarrow> Some t)\<rparr>" for n d
  unfolding SetPausedAwaitingSignal_def by (rule with_run_run_op)

interpretation event_pause_op: run_op GetRun "\<lambda>i. SetPausedAwaitingEventWithDeadline i n h d"
    "\<lambda>r. r\<lparr>run_state := RunStatePaused, run_awaited_event_topic := Some n,
          run_awaited_event_headers := map (\<lambda>(k, v). (k, v)) h, run_wakeup_at := d\<rparr>" for n h d
  unfolding SetPausedAwaitingEventWithDeadline_def by (rule with_run_run_op)

text \<open>The two claims: a due cron trigger's next fire, and a paused run's awaited signal.\<close>

definition cron_open :: "uuid \<times> gotime \<times> gotime \<Rightarrow> mem_store \<Rightarrow> bool" where
  "cron_open a s =
     (case map_of (triggers s) (fst a) of
        None \<Rightarrow> False | Some t \<Rightarrow> trig_next_fire_at t = Some (fst (snd a)))"

definition cron_claim :: "uuid \<times> gotime \<times> gotime \<Rightarrow> mem_store \<Rightarrow> bool \<times> mem_store" where
  "cron_claim a = ClaimCronFire (fst a) (fst (snd a)) (snd (snd a))"

interpretation cron: claim_op cron_claim cron_open
    "\<lambda>a. fst (snd a) \<noteq> snd (snd a)" "\<lambda>a. (fst a, fst (snd a))"
  by unfold_locales
    (simp_all add: cron_claim_def cron_open_def ClaimCronFire_def split: option.splits)

definition signal_open :: "gotime \<times> uuid \<times> string \<Rightarrow> mem_store \<Rightarrow> bool" where
  "signal_open a s =
     (case map_of (runs s) (fst (snd a)) of None \<Rightarrow> False
      | Some r \<Rightarrow> run_state r = RunStatePaused \<and> run_awaited_signal r = Some (snd (snd a)))"

definition signal_claim :: "gotime \<times> uuid \<times> string \<Rightarrow> mem_store \<Rightarrow> bool \<times> mem_store" where
  "signal_claim a = TryConsumeAwaitedSignal (fst a) (fst (snd a)) (snd (snd a))"

interpretation signal: claim_op signal_claim signal_open "\<lambda>_. True" snd
  by unfold_locales
    (simp_all add: signal_claim_def signal_open_def TryConsumeAwaitedSignal_def clear_awaits_def
      split: option.splits, blast)

end
