(* ===== verification/Store_Invariant.thy ===== *)
theory Store_Invariant
  imports Memory_Store "HOL-Library.Sublist"
begin

text \<open>
  The in-memory store as a transition system: one rule per mutating method of
  \<^verbatim>\<open>store/memory\<close>, the well-formedness invariant of its tables and indexes, and
  the facts that hold along every history: tables only grow, the audit log is
  append-only and the try/catch stacks stay within their bound.
\<close>

section \<open>Well-formedness\<close>

definition run_wf :: "uuid \<Rightarrow> saga_run \<Rightarrow> bool" where
  "run_wf i r \<longleftrightarrow> run_id r = i \<and> length (run_try_catch_stack r) \<le> maxDepth"

definition table_wf :: "('k \<Rightarrow> 'v \<Rightarrow> bool) \<Rightarrow> ('k \<times> 'v) list \<Rightarrow> bool" where
  "table_wf ok m \<longleftrightarrow> keys_distinct m \<and> list_all (\<lambda>(k, v). ok k v) m"

text \<open>An index lists, per name, ids that the table holds under that name.\<close>

definition index_wf ::
  "(uuid \<Rightarrow> 'd option) \<Rightarrow> ('d \<Rightarrow> string) \<Rightarrow> (string \<times> uuid list) list \<Rightarrow> bool" where
  "index_wf tab name ix \<longleftrightarrow>
     table_wf (\<lambda>n ids. list_all (\<lambda>i. case tab i of None \<Rightarrow> False | Some d \<Rightarrow> name d = n) ids) ix"

definition store_wf :: "mem_store \<Rightarrow> bool" where
  "store_wf s \<longleftrightarrow>
     table_wf run_wf (runs s) \<and>
     table_wf (\<lambda>i es. list_all (\<lambda>e. ev_run_id e = i) es) (events s) \<and>
     table_wf (\<lambda>i gs. list_all (\<lambda>g. sig_run_id g = i) gs) (signals s) \<and>
     table_wf (\<lambda>i t. task_id t = i) (userTasks s) \<and>
     table_wf (\<lambda>i t. trig_id t = i) (triggers s) \<and>
     table_wf (\<lambda>i d. True) (defs s) \<and> index_wf (map_of (defs s)) def_id (defsByName s) \<and>
     table_wf (\<lambda>i d. rule_uuid d = i) (rules s) \<and>
     index_wf (map_of (rules s)) rule_rule_id (rulesByID s) \<and>
     table_wf (\<lambda>k vs. table_wf (\<lambda>v g. reg_version g = v \<and>
                         reg_service g @ ''.'' @ reg_action_name g = k) vs) (actions s)"

section \<open>Steps\<close>

text \<open>
  The guards are what the callers provide: a created run has no deeper try/catch
  stack than the store allows (\<^verbatim>\<open>NewSagaRun\<close> gives none), and a stored definition's
  row id is a fresh \<^verbatim>\<open>uuid.New()\<close>.
\<close>

inductive store_step :: "mem_store \<Rightarrow> mem_store \<Rightarrow> bool" where
  upsert_def: "map_of (defs s) i = None \<Longrightarrow> store_step s (UpsertWorkflowDefinition i d s)"
| create_run: "length (run_try_catch_stack r) \<le> maxDepth \<Longrightarrow> store_step s (CreateRun r s)"
| update_state: "UpdateRunState i st cur s = Inr s' \<Longrightarrow> store_step s s'"
| append_event: "store_step s (AppendEvent e s)"
| cancel: "Cancel now evid i reason s = Inr s' \<Longrightarrow> store_step s s'"
| mark_failed: "MarkRunFailed now i cur msg s = Inr s' \<Longrightarrow> store_step s s'"
| update_vars: "UpdateRunVariables i m s = Inr s' \<Longrightarrow> store_step s s'"
| pause_wakeup: "SetPausedWithWakeup i t s = Inr s' \<Longrightarrow> store_step s s'"
| pause_signal: "SetPausedAwaitingSignal i n d s = Inr s' \<Longrightarrow> store_step s s'"
| pause_event: "SetPausedAwaitingEventWithDeadline i n h d s = Inr s' \<Longrightarrow> store_step s s'"
| clear_pause: "ClearPause i s = Inr s' \<Longrightarrow> store_step s s'"
| consume: "TryConsumeAwaitedSignal now i n s = (b, s') \<Longrightarrow> store_step s s'"
| wake: "WakeFromExternal i s = Inr s' \<Longrightarrow> store_step s s'"
| append_signal: "store_step s (AppendSignal g s)"
| spawn: "map_of (defs s) freshDef = None \<Longrightarrow>
     store_step s (SpawnChildRunAt freshDef childID now p ps b d inp st s)"
| push: "PushTryCatch i f s = Inr s' \<Longrightarrow> store_step s s'"
| pop: "PopTryCatch i s = Inr (fr, s') \<Longrightarrow> store_step s s'"
| create_task: "store_step s (CreateUserTask t s)"
| submit_task: "SubmitUserTask now i who res s = Inr s' \<Longrightarrow> store_step s s'"
| upsert_action: "store_step s (UpsertActionRegistration fresh now reg s)"
| await_action: "MarkAwaitingAction i d a s = Inr s' \<Longrightarrow> store_step s s'"
| complete_action: "CompleteAction now i a m s = Inr s' \<Longrightarrow> store_step s s'"
| fail_action: "FailAction now evid i a c msg rt s = Inr s' \<Longrightarrow> store_step s s'"
| upsert_rule: "UpsertRuleDefinition fresh rd s = (i, s') \<Longrightarrow> store_step s s'"
| upsert_trigger: "UpsertTrigger fresh now t s = (i, s') \<Longrightarrow> store_step s s'"
| delete_trigger: "DeleteTrigger i s = Inr s' \<Longrightarrow> store_step s s'"
| claim_cron: "ClaimCronFire i e n s = (b, s') \<Longrightarrow> store_step s s'"
| record_fire: "store_step s (RecordTriggerFire fresh now i w ri er s)"

abbreviation store_steps :: "mem_store \<Rightarrow> mem_store \<Rightarrow> bool" where
  "store_steps \<equiv> store_step\<^sup>*\<^sup>*"

section \<open>Tables\<close>

lemma list_all_update:
  "list_all (\<lambda>(k, v). P k v) m \<Longrightarrow> P k v \<Longrightarrow> list_all (\<lambda>(k, v). P k v) (AList.update k v m)"
  by (induction m) auto

lemma table_wf_update: "table_wf P m \<Longrightarrow> P k v \<Longrightarrow> table_wf P (AList.update k v m)"
  by (simp add: table_wf_def list_all_update)

lemma table_wf_delete: "table_wf P m \<Longrightarrow> table_wf P (AList.delete k m)"
  by (auto simp: table_wf_def list_all_iff AList.delete_eq intro: distinct_map_filter)

lemma table_wf_Nil [simp]: "table_wf P []"
  by (simp add: table_wf_def)

lemma table_wf_get: "table_wf P m \<Longrightarrow> map_of m k = Some v \<Longrightarrow> P k v"
  by (auto simp: table_wf_def list_all_iff dest!: map_of_SomeD)

lemma table_wf_change:
  "table_wf P m \<Longrightarrow> map_of m k = Some v \<Longrightarrow> (P k v \<Longrightarrow> P k v') \<Longrightarrow> table_wf P (AList.update k v' m)"
  by (metis table_wf_get table_wf_update)

lemma table_wf_at_key: "table_wf P m \<Longrightarrow> P k [] \<Longrightarrow> P k (at_key m k)"
  by (auto simp: at_key_def split: option.splits dest: table_wf_get)

lemma table_wf_mono: "table_wf P m \<Longrightarrow> (\<And>k v. P k v \<Longrightarrow> Q k v) \<Longrightarrow> table_wf Q m"
  by (auto simp: table_wf_def list_all_iff)

lemma table_wf_append:
  assumes "table_wf (\<lambda>k vs. list_all (P k) vs) m" and "P k v"
  shows "table_wf (\<lambda>k vs. list_all (P k) vs) (AList.update k (at_key m k @ [v]) m)"
  using assms table_wf_at_key [OF assms(1), of k] by (intro table_wf_update) auto

lemma table_wf_map_vals:
  "table_wf P m \<Longrightarrow> (\<And>k v. P k v \<Longrightarrow> P k (f v)) \<Longrightarrow> table_wf P (map (\<lambda>(k, v). (k, f v)) m)"
  by (auto simp: table_wf_def list_all_iff comp_def split_beta)

lemma index_wf_extend:
  assumes "index_wf tab name ix" and "\<And>n ids. (n, ids) \<in> set ix \<Longrightarrow> i \<notin> set ids"
  shows "index_wf (tab(i \<mapsto> d)) name (AList.update (name d) (at_key ix (name d) @ [i]) ix)"
proof -
  have "index_wf (tab(i \<mapsto> d)) name ix"
    using assms by (fastforce simp: index_wf_def table_wf_def list_all_iff split: option.splits)
  then show ?thesis
    unfolding index_wf_def by (rule table_wf_append) simp
qed

lemma index_wf_absent:
  "index_wf tab name ix \<Longrightarrow> tab i = None \<Longrightarrow> (n, ids) \<in> set ix \<Longrightarrow> i \<notin> set ids"
  by (force simp: index_wf_def table_wf_def list_all_iff)

text \<open>Dropping an id from the list of its name removes it from the whole index.\<close>

lemma index_wf_drop:
  assumes "index_wf tab name ix" and "tab i = Some d"
    and ix': "ix' = AList.update (name d) (filter (\<lambda>j. j \<noteq> i) (at_key ix (name d))) ix"
  shows "index_wf tab name ix'" and "(n, ids) \<in> set ix' \<Longrightarrow> i \<notin> set ids"
proof -
  have at: "list_all (\<lambda>i. case tab i of None \<Rightarrow> False | Some e \<Rightarrow> name e = name d)
      (at_key ix (name d))"
    using table_wf_at_key [OF assms(1) [unfolded index_wf_def], of "name d"] by simp
  show wf: "index_wf tab name ix'"
    using assms(1) at unfolding index_wf_def ix'
    by (intro table_wf_update) (auto simp: list_all_iff)
  assume "(n, ids) \<in> set ix'"
  with wf have get: "map_of ix' n = Some ids"
    and names: "list_all (\<lambda>i. case tab i of None \<Rightarrow> False | Some e \<Rightarrow> name e = n) ids"
    by (auto simp: index_wf_def table_wf_def list_all_iff)
  show "i \<notin> set ids"
  proof (cases "n = name d")
    case True
    then show ?thesis using get by (auto simp: ix')
  next
    case False
    then show ?thesis using names assms(2) by (auto simp: list_all_iff)
  qed
qed

section \<open>Every method keeps the store well-formed\<close>

lemma store_wf_New: "store_wf New"
  by (simp add: store_wf_def New_def index_wf_def)

lemma wf_set_runs: "store_wf s \<Longrightarrow> table_wf run_wf m \<Longrightarrow> store_wf (s\<lparr>runs := m\<rparr>)"
  by (simp add: store_wf_def)

lemma wf_set_run: "store_wf s \<Longrightarrow> run_wf i r \<Longrightarrow> store_wf (s\<lparr>runs := AList.update i r (runs s)\<rparr>)"
  by (simp add: store_wf_def table_wf_update)

lemma wf_run: "store_wf s \<Longrightarrow> map_of (runs s) i = Some r \<Longrightarrow> run_wf i r"
  by (auto simp: store_wf_def dest: table_wf_get)

lemma wf_change_run:
  "store_wf s \<Longrightarrow> map_of (runs s) i = Some r \<Longrightarrow> (run_wf i r \<Longrightarrow> run_wf i r')
     \<Longrightarrow> store_wf (s\<lparr>runs := AList.update i r' (runs s)\<rparr>)"
  by (simp add: wf_set_run wf_run)

lemma wf_with_run:
  assumes "store_wf s" and "with_run i f s = Inr s'" and "\<And>r. run_wf i r \<Longrightarrow> run_wf i (f r)"
  shows "store_wf s'"
  using with_run_InrD [OF assms(2)] assms by (auto intro!: wf_change_run)

lemma wf_AppendEvent: "store_wf s \<Longrightarrow> store_wf (AppendEvent e s)"
  unfolding store_wf_def by (simp add: AppendEvent_def table_wf_append)

lemma wf_AppendSignal: "store_wf s \<Longrightarrow> store_wf (AppendSignal g s)"
  unfolding store_wf_def by (simp add: AppendSignal_def table_wf_append)

lemma wf_UpsertWorkflowDefinition:
  assumes "store_wf s" and "map_of (defs s) i = None"
  shows "store_wf (UpsertWorkflowDefinition i d s)"
proof -
  have "index_wf ((map_of (defs s))(i \<mapsto> d)) def_id
      (AList.update (def_id d) (at_key (defsByName s) (def_id d) @ [i]) (defsByName s))"
    using assms by (intro index_wf_extend) (auto simp: store_wf_def dest: index_wf_absent)
  then show ?thesis
    using assms by (simp add: store_wf_def UpsertWorkflowDefinition_def table_wf_update update_conv')
qed

lemma wf_SpawnChildRunAt:
  assumes "store_wf s" and "map_of (defs s) f = None"
  shows "store_wf (SpawnChildRunAt f c now p ps b d inp st s)"
proof -
  define s0 where "s0 = (if at_key (defsByName s) (def_id d) \<noteq> [] then s
      else UpsertWorkflowDefinition f d s)"
  have "store_wf s0"
    using assms wf_UpsertWorkflowDefinition [OF assms] by (simp add: s0_def)
  moreover have "\<exists>di. SpawnChildRunAt f c now p ps b d inp st s =
      s0\<lparr>runs := AList.update c (new_child c now di p ps b d inp st) (runs s0)\<rparr>"
    by (cases "at_key (defsByName s) (def_id d) = []")
      (auto simp: SpawnChildRunAt_def s0_def UpsertWorkflowDefinition_def)
  ultimately show ?thesis by (auto simp: wf_set_run run_wf_def)
qed

lemma wf_UpsertRuleDefinition:
  assumes "store_wf s" and "UpsertRuleDefinition fresh d s = (i, s')"
  shows "store_wf s'"
proof -
  define d' where "d' = d\<lparr>rule_uuid := i\<rparr>"
  define ix where "ix = (case map_of (rules s) i of None \<Rightarrow> rulesByID s
      | Some x \<Rightarrow> AList.update (rule_rule_id x)
          (filter (\<lambda>e. e \<noteq> i) (at_key (rulesByID s) (rule_rule_id x))) (rulesByID s))"
  have wf: "index_wf (map_of (rules s)) rule_rule_id (rulesByID s)"
    using assms(1) by (simp add: store_wf_def)
  have ix: "index_wf (map_of (rules s)) rule_rule_id ix"
    "\<And>n ids. (n, ids) \<in> set ix \<Longrightarrow> i \<notin> set ids"
    using wf index_wf_drop [OF wf] index_wf_absent [OF wf]
    by (fastforce simp: ix_def split: option.splits)+
  have s': "s' = s\<lparr>rules := AList.update i d' (rules s),
      rulesByID := AList.update (rule_rule_id d') (at_key ix (rule_rule_id d') @ [i]) ix\<rparr>"
    and i: "rule_uuid d' = i"
    using assms(2) by (auto simp: UpsertRuleDefinition_def Let_def d'_def ix_def cong: if_cong)
  show ?thesis
    using assms(1) i index_wf_extend [OF ix, where d = d']
    by (simp add: s' store_wf_def table_wf_update update_conv')
qed

lemma wf_Cancel:
  assumes "store_wf s" and "Cancel now evid i reason s = Inr s'"
  shows "store_wf s'"
proof -
  obtain r where r: "map_of (runs s) i = Some r"
    using assms(2) by (auto simp: Cancel_def split: option.splits)
  have "store_wf (s\<lparr>runs := AList.update i (cancel_run now reason r) (runs s),
      userTasks := map (\<lambda>(j, t). (j, close_task now i t)) (userTasks s)\<rparr>)"
    using assms(1) wf_run [OF assms(1) r]
    by (auto simp: store_wf_def run_wf_def cancel_run_def close_task_def
        intro!: table_wf_update table_wf_map_vals)
  then show ?thesis
    using assms r by (auto simp: Cancel_def Let_def intro: wf_AppendEvent split: if_splits)
qed

lemma wf_FailAction:
  assumes "store_wf s" and "FailAction now evid i a c msg rt s = Inr s'"
  shows "store_wf s'"
  using assms
  by (auto simp: FailAction_def Let_def run_wf_def split: option.splits if_splits
      intro!: wf_AppendEvent wf_change_run)

lemma wf_TryConsumeAwaitedSignal:
  assumes "store_wf s" and "TryConsumeAwaitedSignal now i n s = (b, s')"
  shows "store_wf s'"
proof -
  have tab: "table_wf (\<lambda>i. list_all (\<lambda>g. sig_run_id g = i)) (signals s)"
    using assms(1) by (simp add: store_wf_def)
  have sigs: "table_wf (\<lambda>i. list_all (\<lambda>g. sig_run_id g = i)) (case map_of (signals s) i of
      None \<Rightarrow> signals s | Some gs \<Rightarrow> AList.update i (map (consume_signal now n) gs) (signals s))"
    using tab table_wf_get [OF tab, of i]
    by (auto simp: list_all_iff consume_signal_def split: option.split intro!: table_wf_update)
  have run: "run_wf i (clear_awaits r)" if "map_of (runs s) i = Some r" for r
    using wf_run [OF assms(1) that] by (simp add: run_wf_def clear_awaits_def)
  show ?thesis
  proof (cases "s' = s")
    case False
    then obtain r where r: "map_of (runs s) i = Some r"
      and s': "s' = s\<lparr>signals := (case map_of (signals s) i of None \<Rightarrow> signals s
          | Some gs \<Rightarrow> AList.update i (map (consume_signal now n) gs) (signals s)),
        runs := AList.update i (clear_awaits r) (runs s)\<rparr>"
      using assms(2)
      by (simp add: TryConsumeAwaitedSignal_def split: option.split_asm if_split_asm)
    then show ?thesis
      using assms(1) sigs run [OF r] by (simp add: store_wf_def table_wf_update)
  qed (simp add: assms(1))
qed

lemma wf_UpsertActionRegistration: "store_wf s \<Longrightarrow> store_wf (UpsertActionRegistration f now g s)"
  unfolding store_wf_def UpsertActionRegistration_def Let_def
  by (auto intro!: table_wf_update table_wf_at_key [where P = "\<lambda>k. table_wf (Q k)" for Q])

text \<open>The methods that rewrite fields of one run, none of them its id or its stack.\<close>

lemma wf_run_ops:
  assumes "store_wf s"
  shows "UpdateRunState i st cur s = Inr s' \<Longrightarrow> store_wf s'"
    "MarkRunFailed now i cur msg s = Inr s' \<Longrightarrow> store_wf s'"
    "UpdateRunVariables i m s = Inr s' \<Longrightarrow> store_wf s'"
    "SetPausedWithWakeup i t s = Inr s' \<Longrightarrow> store_wf s'"
    "SetPausedAwaitingSignal i n d s = Inr s' \<Longrightarrow> store_wf s'"
    "SetPausedAwaitingEventWithDeadline i n h d s = Inr s' \<Longrightarrow> store_wf s'"
    "ClearPause i s = Inr s' \<Longrightarrow> store_wf s'"
    "WakeFromExternal i s = Inr s' \<Longrightarrow> store_wf s'"
    "MarkAwaitingAction i dp a s = Inr s' \<Longrightarrow> store_wf s'"
    "CompleteAction now i a m s = Inr s' \<Longrightarrow> store_wf s'"
  unfolding UpdateRunState_def MarkRunFailed_def UpdateRunVariables_def SetPausedWithWakeup_def
    SetPausedAwaitingSignal_def SetPausedAwaitingEventWithDeadline_def ClearPause_def
    WakeFromExternal_def MarkAwaitingAction_def CompleteAction_def
  by (erule wf_with_run [OF assms], simp add: run_wf_def clear_awaits_def)+

lemma store_step_wf: "store_step s s' \<Longrightarrow> store_wf s \<Longrightarrow> store_wf s'"
proof (induction rule: store_step.induct)
  case create_run
  then show ?case by (auto simp: CreateRun_def run_wf_def intro!: wf_set_run)
next
  case push
  then show ?case
    by (auto simp: PushTryCatch_def run_wf_def split: option.splits if_splits
        intro!: wf_change_run)
next
  case pop
  then show ?case
    by (auto simp: PopTryCatch_def run_wf_def split: option.splits if_splits
        intro!: wf_change_run)
next
  case create_task
  then show ?case by (simp add: store_wf_def CreateUserTask_def table_wf_update)
next
  case submit_task
  then show ?case
    by (auto simp: store_wf_def SubmitUserTask_def split: option.splits
        intro!: table_wf_change)
next
  case upsert_trigger
  then show ?case by (auto simp: store_wf_def UpsertTrigger_def Let_def intro!: table_wf_update)
next
  case delete_trigger
  then show ?case
    by (auto simp: store_wf_def DeleteTrigger_def table_wf_delete split: option.splits)
next
  case claim_cron
  then show ?case
    by (auto simp: store_wf_def ClaimCronFire_def split: option.splits if_splits
        intro!: table_wf_change)
next
  case record_fire
  then show ?case by (simp add: store_wf_def RecordTriggerFire_def)
qed (erule (1) wf_UpsertWorkflowDefinition wf_Cancel wf_SpawnChildRunAt wf_FailAction
      wf_TryConsumeAwaitedSignal wf_UpsertRuleDefinition wf_run_ops
    | erule wf_AppendEvent wf_AppendSignal wf_UpsertActionRegistration)+

section \<open>What every history keeps\<close>

text \<open>The run ids and the event log of a store, and that a step only extends them.\<close>

definition grows :: "mem_store \<Rightarrow> mem_store \<Rightarrow> bool" where
  "grows s s' \<longleftrightarrow>
     (\<forall>i. prefix (at_key (events s) i) (at_key (events s') i)) \<and>
     (\<forall>i. map_of (runs s) i \<noteq> None \<longrightarrow> map_of (runs s') i \<noteq> None)"

lemma grows_refl [simp]: "grows s s"
  by (simp add: grows_def)

lemma grows_trans: "grows s1 s2 \<Longrightarrow> grows s2 s3 \<Longrightarrow> grows s1 s3"
  unfolding grows_def using prefix_order.trans by blast

lemma grows_runs_same:
  "events s' = events s \<Longrightarrow> (\<And>i. map_of (runs s) i \<noteq> None \<Longrightarrow> map_of (runs s') i \<noteq> None)
     \<Longrightarrow> grows s s'"
  by (simp add: grows_def)

lemma at_key_update: "at_key (AList.update k v m) i = (if i = k then v else at_key m i)"
  by (simp add: at_key_def)

lemma grows_AppendEvent: "grows s s' \<Longrightarrow> grows s (AppendEvent e s')"
  by (auto simp: grows_def AppendEvent_def at_key_update intro: prefix_order.trans)

lemma grows_with_run: "with_run i f s = Inr s' \<Longrightarrow> grows s s'"
  by (auto simp: with_run_def split: option.splits intro!: grows_runs_same)

lemma grows_run_ops:
  "UpdateRunState i st cur s = Inr s' \<Longrightarrow> grows s s'"
  "MarkRunFailed now i cur msg s = Inr s' \<Longrightarrow> grows s s'"
  "UpdateRunVariables i m s = Inr s' \<Longrightarrow> grows s s'"
  "SetPausedWithWakeup i t s = Inr s' \<Longrightarrow> grows s s'"
  "SetPausedAwaitingSignal i n d s = Inr s' \<Longrightarrow> grows s s'"
  "SetPausedAwaitingEventWithDeadline i n h d s = Inr s' \<Longrightarrow> grows s s'"
  "ClearPause i s = Inr s' \<Longrightarrow> grows s s'"
  "WakeFromExternal i s = Inr s' \<Longrightarrow> grows s s'"
  "MarkAwaitingAction i dp a s = Inr s' \<Longrightarrow> grows s s'"
  "CompleteAction now i a m s = Inr s' \<Longrightarrow> grows s s'"
  unfolding UpdateRunState_def MarkRunFailed_def UpdateRunVariables_def SetPausedWithWakeup_def
    SetPausedAwaitingSignal_def SetPausedAwaitingEventWithDeadline_def ClearPause_def
    WakeFromExternal_def MarkAwaitingAction_def CompleteAction_def
  by (erule grows_with_run)+

lemma grows_Cancel: "Cancel now evid i reason s = Inr s' \<Longrightarrow> grows s s'"
  by (auto simp: Cancel_def Let_def split: option.splits if_splits
      intro!: grows_AppendEvent grows_runs_same)

lemma grows_FailAction: "FailAction now evid i a c msg rt s = Inr s' \<Longrightarrow> grows s s'"
  by (auto simp: FailAction_def Let_def split: option.splits if_splits
      intro!: grows_AppendEvent grows_runs_same)

lemma store_step_grows: "store_step s s' \<Longrightarrow> grows s s'"
proof (induction rule: store_step.induct)
  case (spawn s freshDef childID now p ps b d inp st)
  show ?case by (auto simp: SpawnChildRunAt_def Let_def intro!: grows_runs_same)
next
  case (consume now i n s b s')
  then show ?case
    by (auto simp: TryConsumeAwaitedSignal_def split: option.splits if_splits
        intro!: grows_runs_same)
qed (erule grows_run_ops grows_Cancel grows_FailAction
    | rule grows_AppendEvent, rule grows_refl
    | force simp: UpsertWorkflowDefinition_def CreateRun_def AppendSignal_def PushTryCatch_def
        PopTryCatch_def CreateUserTask_def SubmitUserTask_def UpsertActionRegistration_def
        UpsertRuleDefinition_def UpsertTrigger_def DeleteTrigger_def ClaimCronFire_def
        RecordTriggerFire_def Let_def split: option.splits if_splits intro!: grows_runs_same)+

section \<open>Properties\<close>

text \<open>
  C9: every store reachable from the empty one by any sequence of the store's
  methods is well-formed: keys are unique, each row is filed under its own id, the
  name indexes point at existing rows of that name, and no run nests more than
  three try/catch frames.
\<close>

theorem store_reachable_wf: "store_steps New s \<Longrightarrow> store_wf s"
  by (induction rule: rtranclp_induct) (auto intro: store_wf_New store_step_wf)

text \<open>
  C34: the audit log is append-only and runs are never removed: whatever sequence of
  store methods runs, the events listed for a run earlier are a prefix of those
  listed later, and a run that could be read can still be read.
\<close>

theorem store_history_append_only:
  assumes "store_steps s s'"
  shows "prefix (ListEventsByRun s i) (ListEventsByRun s' i)
    \<and> (is_ok (GetRun s i) \<longrightarrow> is_ok (GetRun s' i))"
proof -
  have "grows s s'"
    using assms by (induction rule: rtranclp_induct) (auto intro: grows_trans store_step_grows)
  then show ?thesis
    by (auto simp: grows_def ListEventsByRun_def GetRun_def split: option.splits)
qed

end
