(* ===== verification/Store_Properties.thy ===== *)
theory Store_Properties
  imports Store_Invariant
begin

text \<open>
  What the methods of the in-memory store promise their callers: dotted variable
  writes, cancellation, the failure mark, signal and cron claims, the awaited
  action, paging and the published-version lookup.
\<close>

section \<open>Dotted variable names\<close>

text \<open>Reading a nested variable, as an expression \<^verbatim>\<open>a.b.c\<close> over the variables does.\<close>

fun get_path :: "gomap \<Rightarrow> string list \<Rightarrow> val option" where
  "get_path t [] = Some (VMap t)"
| "get_path t [p] = map_of t p"
| "get_path t (p # q # ps) =
     (case map_of t p of Some (VMap m) \<Rightarrow> get_path m (q # ps) | _ \<Rightarrow> None)"

lemma dotted_loop_ascii:
  assumes "ascii key"
  shows "dotted_loop parts cur key =
    parts @ (case split_on (CHR ''.'') key of y # ys \<Rightarrow> (cur @ y) # ys)"
  using assms
  by (induction key arbitrary: parts cur) (auto simp: ascii_def split: list.splits)

lemma dotted_loop_split: "ascii key \<Longrightarrow> dotted_loop [] [] key = split_on (CHR ''.'') key"
  by (simp add: dotted_loop_ascii split: list.splits)

lemma get_set_path: "ps \<noteq> [] \<Longrightarrow> get_path (set_path t ps v) ps = Some v"
  by (induction t ps v rule: set_path.induct) auto

text \<open>A write leaves alone every path that parts from the written one.\<close>

lemma get_set_path_other:
  "\<not> prefix ps qs \<Longrightarrow> \<not> prefix qs ps \<Longrightarrow> get_path (set_path t ps v) qs = get_path t qs"
proof (induction t ps v arbitrary: qs rule: set_path.induct)
  case (2 t p v)
  then show ?case by (cases "(t, qs)" rule: get_path.cases) auto
next
  case (3 t p q ps v)
  have empty: "get_path [] rs = None" if "rs \<noteq> []" for rs
    using that by (cases "([]::gomap, rs)" rule: get_path.cases) auto
  define nested where "nested = (case map_of t p of Some (VMap m) \<Rightarrow> m | _ \<Rightarrow> [])"
  show ?case
  proof (cases "(t, qs)" rule: get_path.cases)
    case (3 t' x y zs)
    have "get_path (set_path nested (q # ps) v) (y # zs) = get_path nested (y # zs)" if "x = p"
      using "3.prems" 3 that "3.IH" [OF nested_def] by simp
    then show ?thesis
      using 3 empty by (auto simp: nested_def split: option.splits val.splits)
  qed (use "3.prems" in auto)
qed simp

lemma set_path_keys_distinct: "keys_distinct t \<Longrightarrow> keys_distinct (set_path t ps v)"
  by (cases "(t, ps, v)" rule: set_path.cases) (simp_all add: Let_def)

section \<open>Inputs of the witnesses\<close>

definition sample_run :: "uuid \<Rightarrow> saga_run" where
  "sample_run i = NewSagaRun i 5 ''wf'' ''d1'' None []"

definition sample_store :: mem_store where
  "sample_store = CreateRun (sample_run ''r1'') New"

lemma sample_steps: "store_steps New sample_store"
  unfolding sample_store_def
  by (rule r_into_rtranclp) (rule store_step.create_run, simp add: sample_run_def NewSagaRun_def)

lemma sample_get: "GetRun sample_store ''r1'' = Inr (sample_run ''r1'')"
  by (simp add: sample_store_def sample_run_def NewSagaRun_def run_entities.get_put)

theorem store_reachable_wf_witness: "store_wf sample_store"
  by (rule store_reachable_wf [OF sample_steps])

theorem store_history_append_only_witness:
  "prefix (ListEventsByRun sample_store ''r1'')
      (ListEventsByRun (AppendEvent (NewEvent ''e'' 6 ''r1'' ''a'' 0 EventLog ''x'') sample_store) ''r1'')
    \<and> is_ok (GetRun (AppendEvent (NewEvent ''e'' 6 ''r1'' ''a'' 0 EventLog ''x'') sample_store) ''r1'')"
  using store_history_append_only [OF r_into_rtranclp, OF store_step.append_event
      [of sample_store "NewEvent ''e'' 6 ''r1'' ''a'' 0 EventLog ''x''"], of "''r1''"]
  by (simp add: sample_get)

section \<open>Variables\<close>

text \<open>
  Writing one variable with an ASCII name stores it at the nested path its dots
  spell, creating the maps in between, and changes no variable whose path parts
  from that one; the run's other fields and every other run stay as they were.
\<close>

theorem UpdateRunVariables_dotted:
  assumes "GetRun s i = Inr r" and "ascii key"
  shows "\<exists>s' vars. UpdateRunVariables i [(key, v)] s = Inr s'
    \<and> GetRun s' i = Inr (r\<lparr>run_variables := vars\<rparr>)
    \<and> get_path vars (split_on (CHR ''.'') key) = Some v
    \<and> (\<forall>qs. \<not> prefix (split_on (CHR ''.'') key) qs \<and> \<not> prefix qs (split_on (CHR ''.'') key)
         \<longrightarrow> get_path vars qs = get_path (run_variables r) qs)
    \<and> (\<forall>j. j \<noteq> i \<longrightarrow> GetRun s' j = GetRun s j)"
proof -
  let ?vars = "set_path (run_variables r) (split_on (CHR ''.'') key) v"
  obtain s' where s': "UpdateRunVariables i [(key, v)] s = Inr s'"
    and r': "GetRun s' i = Inr (r\<lparr>run_variables := merge_vars (run_variables r) [(key, v)]\<rparr>)"
    using vars_op.op_hit [OF assms(1)] by blast
  have "merge_vars (run_variables r) [(key, v)] = ?vars"
    by (simp add: merge_vars_def applyDottedKey_def dotted_loop_split [OF assms(2)])
  with s' r' show ?thesis
    by (intro exI [of _ s'] exI [of _ ?vars])
      (simp add: vars_op.op_frame [OF s'] get_set_path get_set_path_other)
qed

theorem UpdateRunVariables_dotted_witness:
  "\<exists>s' vars. UpdateRunVariables ''r1'' [(''a.b'', VInt 7)] sample_store = Inr s'
    \<and> GetRun s' ''r1'' = Inr ((sample_run ''r1'')\<lparr>run_variables := vars\<rparr>)
    \<and> get_path vars (split_on (CHR ''.'') ''a.b'') = Some (VInt 7)
    \<and> (\<forall>qs. \<not> prefix (split_on (CHR ''.'') ''a.b'') qs \<and> \<not> prefix qs (split_on (CHR ''.'') ''a.b'')
         \<longrightarrow> get_path vars qs = get_path (run_variables (sample_run ''r1'')) qs)
    \<and> (\<forall>j. j \<noteq> ''r1'' \<longrightarrow> GetRun s' j = GetRun sample_store j)"
  by (rule UpdateRunVariables_dotted [OF sample_get]) (simp add: ascii_def)

lemma dotted_loop_no_dot:
  "CHR ''.'' \<notin> set key \<Longrightarrow> dotted_loop parts cur key = parts @ [cur @ concat (map rune_bytes key)]"
  by (induction key arbitrary: cur) auto

lemma length_rune_bytes: "length (rune_bytes c) = (if (of_char c :: nat) < 128 then 1 else 2)"
  by (simp add: rune_bytes_def Let_def)

lemma length_concat_rune_bytes:
  "length (concat (map rune_bytes key)) \<ge> length key \<and>
   (\<not> ascii key \<longrightarrow> length (concat (map rune_bytes key)) > length key)"
  by (induction key) (auto simp: ascii_def length_rune_bytes)

text \<open>
  The byte loop of \<open>applyDottedKey\<close> re-encodes bytes above 127, so a variable
  whose name has no dot and a non-ASCII byte is not found under its own name
  after it is written to an empty variable map.
\<close>

theorem applyDottedKey_non_ascii:
  assumes "CHR ''.'' \<notin> set key" and "\<not> ascii key"
  shows "map_of (applyDottedKey [] key v) key = None"
proof -
  have "concat (map rune_bytes key) \<noteq> key"
    using length_concat_rune_bytes [of key] assms(2) by force
  then show ?thesis by (auto simp: applyDottedKey_def dotted_loop_no_dot [OF assms(1)])
qed

theorem applyDottedKey_non_ascii_witness:
  "map_of (applyDottedKey [] [CHR 0xC3, CHR 0xA9] (VInt 1)) [CHR 0xC3, CHR 0xA9] = None"
  by (rule applyDottedKey_non_ascii) (simp_all add: ascii_def)

section \<open>Cancellation and failure\<close>

definition no_awaits :: "saga_run \<Rightarrow> bool" where
  "no_awaits r \<longleftrightarrow> run_wakeup_at r = None \<and> run_awaited_signal r = None
     \<and> run_awaited_event_topic r = None \<and> run_awaited_event_headers r = []
     \<and> run_awaited_action_dispatch r = None"

lemma Cancel_live:
  assumes "map_of (runs s) i = Some r" and "\<not> IsTerminal (run_state r)"
  shows "Cancel now evid i reason s = Inr
    (AppendEvent ((NewEvent evid now i (run_current_step r) 0 EventRunCancelled ''engine'')
        \<lparr>ev_metadata := (if reason \<noteq> [] then [(''reason'', VStr reason)] else [])\<rparr>)
      (s\<lparr>runs := AList.update i (cancel_run now reason r) (runs s),
         userTasks := map (\<lambda>(j, t). (j, close_task now i t)) (userTasks s)\<rparr>))"
  using assms by (simp add: Cancel_def Let_def)

lemma close_task_submitted: "task_run_id t = i \<Longrightarrow> task_submitted_at (close_task now i t) \<noteq> None"
  by (simp add: close_task_def)

text \<open>
  Cancelling a live run makes it cancelled with its end time set and every wait
  marker cleared, closes each of its open user tasks, adds exactly one audit event
  and leaves other runs alone; cancelling again, or cancelling a run that already
  ended, changes nothing.
\<close>

theorem Cancel_effect:
  assumes "GetRun s i = Inr r" and "\<not> IsTerminal (run_state r)"
  shows "\<exists>s' r'. Cancel now evid i reason s = Inr s' \<and> GetRun s' i = Inr r'
    \<and> run_state r' = RunStateCancelled \<and> run_terminal_at r' = Some now \<and> no_awaits r'
    \<and> (\<forall>t \<in> set (vals (userTasks s')). task_run_id t = i \<longrightarrow> task_submitted_at t \<noteq> None)
    \<and> length (ListEventsByRun s' i) = Suc (length (ListEventsByRun s i))
    \<and> (\<forall>j. j \<noteq> i \<longrightarrow> GetRun s' j = GetRun s j)
    \<and> Cancel now2 evid2 i reason2 s' = Inr s'"
proof -
  have r: "map_of (runs s) i = Some r" using assms(1) by (simp add: GetRun_iff)
  define s' where "s' = (case Cancel now evid i reason s of Inr x \<Rightarrow> x)"
  note c = Cancel_live [OF r assms(2), of now evid reason]
  have s': "Cancel now evid i reason s = Inr s'" by (simp add: s'_def c)
  have get: "GetRun s' i = Inr (cancel_run now reason r)"
    by (simp add: s'_def c GetRun_iff)
  have again: "Cancel now2 evid2 i reason2 s' = Inr s'"
    using get by (simp add: Cancel_def GetRun_iff cancel_run_def)
  have tasks: "\<forall>t \<in> set (vals (userTasks s')). task_run_id t = i \<longrightarrow> task_submitted_at t \<noteq> None"
    by (auto simp: s'_def c AppendEvent_def close_task_def)
  have "length (ListEventsByRun s' i) = Suc (length (ListEventsByRun s i))"
    by (simp add: s'_def c AppendEvent_def ListEventsByRun_def at_key_update NewEvent_def)
  then show ?thesis
    using s' get tasks again cancel_op.op_frame [OF s']
    by (intro exI [of _ s'] exI [of _ "cancel_run now reason r"])
      (simp add: cancel_run_def no_awaits_def)
qed

theorem Cancel_effect_witness:
  "\<exists>s' r'. Cancel 9 ''e1'' ''r1'' ''stop'' sample_store = Inr s' \<and> GetRun s' ''r1'' = Inr r'
    \<and> run_state r' = RunStateCancelled \<and> run_terminal_at r' = Some 9 \<and> no_awaits r'
    \<and> (\<forall>t \<in> set (vals (userTasks s')). task_run_id t = ''r1'' \<longrightarrow> task_submitted_at t \<noteq> None)
    \<and> length (ListEventsByRun s' ''r1'') = Suc (length (ListEventsByRun sample_store ''r1''))
    \<and> (\<forall>j. j \<noteq> ''r1'' \<longrightarrow> GetRun s' j = GetRun sample_store j)
    \<and> Cancel 10 ''e2'' ''r1'' ''again'' s' = Inr s'"
  by (rule Cancel_effect [OF sample_get]) (simp add: sample_run_def NewSagaRun_def)

text \<open>
  Once a run has ended, neither a cancel nor a failure mark, for that run or any
  other, changes what the store returns for it.
\<close>

theorem terminal_run_kept:
  assumes "GetRun s j = Inr r" and "IsTerminal (run_state r)"
    and "Cancel now evid i reason s = Inr s' \<or> MarkRunFailed now i cur msg s = Inr s'"
  shows "GetRun s' j = Inr r"
  using assms cancel_op.terminal_kept fail_op.terminal_kept by blast

definition ended_store :: mem_store where
  "ended_store = CreateRun ((sample_run ''r1'')\<lparr>run_state := RunStateSucceeded\<rparr>) New"

lemma ended_get: "GetRun ended_store ''r1'' = Inr ((sample_run ''r1'')\<lparr>run_state := RunStateSucceeded\<rparr>)"
  by (simp add: ended_store_def sample_run_def NewSagaRun_def run_entities.get_put)

theorem terminal_run_kept_witness:
  "\<exists>s'. MarkRunFailed 9 ''r1'' ''a'' ''boom'' ended_store = Inr s'
     \<and> GetRun s' ''r1'' = Inr ((sample_run ''r1'')\<lparr>run_state := RunStateSucceeded\<rparr>)"
proof -
  obtain s' where "MarkRunFailed 9 ''r1'' ''a'' ''boom'' ended_store = Inr s'"
    using fail_op.op_hit [OF ended_get] by blast
  then show ?thesis using terminal_run_kept [OF ended_get, of 9] by fastforce
qed

section \<open>Claims\<close>

text \<open>
  C27: of any sequence of attempts to consume the signal a run waits for, at whatever
  times, at most one succeeds; when the run is paused on that signal the first
  attempt succeeds, and after it no stored signal of that name is unconsumed.
\<close>

theorem signal_consumed_once:
  assumes "\<forall>a \<in> set as. snd a = (i, name)"
  shows "length (filter id (outcomes signal_claim as s)) \<le> 1
    \<and> (\<forall>now s'. TryConsumeAwaitedSignal now i name s = (True, s') \<longrightarrow>
         (\<forall>g \<in> set (at_key (signals s') i). sig_name g = name \<longrightarrow> sig_consumed_at g \<noteq> None))"
proof
  show "length (filter id (outcomes signal_claim as s)) \<le> 1"
    using assms by (intro signal.at_most_one_winner [where k = "(i, name)"]) simp
  show "\<forall>now s'. TryConsumeAwaitedSignal now i name s = (True, s') \<longrightarrow>
         (\<forall>g \<in> set (at_key (signals s') i). sig_name g = name \<longrightarrow> sig_consumed_at g \<noteq> None)"
    by (auto simp: TryConsumeAwaitedSignal_def at_key_def consume_signal_def
        split: option.splits if_splits)
qed

definition waiting_store :: mem_store where
  "waiting_store = CreateRun ((sample_run ''r1'')
     \<lparr>run_state := RunStatePaused, run_awaited_signal := Some ''go''\<rparr>) New"

theorem signal_consumed_once_witness:
  "outcomes signal_claim [(1, ''r1'', ''go''), (2, ''r1'', ''go'')] waiting_store = [True, False]
    \<and> length (filter id
        (outcomes signal_claim [(1, ''r1'', ''go''), (2, ''r1'', ''go'')] waiting_store)) \<le> 1"
proof
  show "outcomes signal_claim [(1, ''r1'', ''go''), (2, ''r1'', ''go'')] waiting_store
      = [True, False]"
    by (simp add: signal_claim_def TryConsumeAwaitedSignal_def waiting_store_def CreateRun_def
        New_def sample_run_def NewSagaRun_def clear_awaits_def)
  show "length (filter id
      (outcomes signal_claim [(1, ''r1'', ''go''), (2, ''r1'', ''go'')] waiting_store)) \<le> 1"
    using signal_consumed_once
      [of "[(1, ''r1'', ''go''), (2, ''r1'', ''go'')]" "''r1''" "''go''" waiting_store] by simp
qed

text \<open>
  Replicas that race to fire the same due cron trigger, each with the fire time it
  read and a later next time of its own, get at most one winner; if the fire time is
  still current the first of them wins and all others lose.
\<close>

theorem cron_fire_single_winner:
  assumes "\<forall>a \<in> set as. fst a = i \<and> fst (snd a) = due \<and> due < snd (snd a)"
  shows "length (filter id (outcomes cron_claim as s)) \<le> 1
    \<and> (\<forall>t. map_of (triggers s) i = Some t \<and> trig_next_fire_at t = Some due \<and> as \<noteq> [] \<longrightarrow>
         outcomes cron_claim as s = True # replicate (length as - 1) False)"
proof
  show "length (filter id (outcomes cron_claim as s)) \<le> 1"
    using assms by (intro cron.at_most_one_winner [where k = "(i, due)"]) fastforce
  show "\<forall>t. map_of (triggers s) i = Some t \<and> trig_next_fire_at t = Some due \<and> as \<noteq> [] \<longrightarrow>
         outcomes cron_claim as s = True # replicate (length as - 1) False"
  proof (intro allI impI, elim conjE)
    fix t
    assume t: "map_of (triggers s) i = Some t" "trig_next_fire_at t = Some due" and "as \<noteq> []"
    then obtain a rest where as: "as = a # rest" by (cases as) auto
    have "outcomes cron_claim (a # rest) s = True # replicate (length rest) False"
      using assms t as by (intro cron.first_wins) (fastforce simp: cron_open_def)+
    then show "outcomes cron_claim as s = True # replicate (length as - 1) False"
      by (simp add: as)
  qed
qed

definition sample_trigger :: saga_trigger where
  "sample_trigger = \<lparr>trig_id = ''t1'', trig_type = TriggerCron, trig_workflow_id = ''wf'',
     trig_version = 0, trig_config = [(''schedule'', VStr ''* * * * *'')], trig_enabled = True,
     trig_tenant_id = None, trig_created_at = 1, trig_created_by = [],
     trig_next_fire_at = Some 60, trig_last_fired_at = None\<rparr>"

definition cron_store :: mem_store where
  "cron_store = snd (UpsertTrigger ''t1'' 1 sample_trigger New)"

theorem cron_fire_single_winner_witness:
  "outcomes cron_claim [(''t1'', 60, 120), (''t1'', 60, 180)] cron_store = [True, False]"
proof -
  have "map_of (triggers cron_store) ''t1'' = Some sample_trigger"
    by (simp add: cron_store_def UpsertTrigger_def sample_trigger_def uuid_Nil_def New_def Let_def)
  then show ?thesis
    using cron_fire_single_winner
      [of "[(''t1'', 60, 120), (''t1'', 60, 180)]" "''t1''" 60 cron_store]
    by (simp add: sample_trigger_def)
qed

section \<open>Awaited actions\<close>

lemma put_vars_get:
  assumes "keys_distinct m"
  shows "map_of (put_vars vars m) k =
    (case map_of m k of Some v \<Rightarrow> Some v | None \<Rightarrow> map_of vars k)"
  using assms
proof (induction m arbitrary: vars)
  case (Cons kv m)
  obtain k' v' where kv: "kv = (k', v')" by force
  have "map_of m k' = None" using Cons.prems by (simp add: kv map_of_eq_None_iff)
  then show ?case
    using Cons.prems Cons.IH [of "AList.update k' v' vars"] by (auto simp: kv put_vars_def split: option.split)
qed (simp add: put_vars_def)

text \<open>
  An action round trip. Marking a run as awaiting dispatch \<open>d\<close> under attempt \<open>a\<close> pauses
  it, marking it again with the same pair changes nothing, a completion for any
  other attempt changes nothing, and the completion for attempt \<open>a\<close> clears the marker,
  makes the run due at once and stores every result under its name.
\<close>

theorem action_round_trip:
  assumes "GetRun s i = Inr r" and "run_awaited_action_dispatch r = None"
    and "keys_distinct res" and "b \<noteq> a"
  shows "\<exists>s1 s2 r1 r2. MarkAwaitingAction i d a s = Inr s1 \<and> GetRun s1 i = Inr r1
    \<and> run_state r1 = RunStatePaused \<and> run_awaited_action_dispatch r1 = Some d
    \<and> (\<forall>s'. MarkAwaitingAction i d a s1 = Inr s' \<longrightarrow> GetRun s' i = Inr r1)
    \<and> (\<forall>s'. CompleteAction now i b res s1 = Inr s' \<longrightarrow> GetRun s' i = Inr r1)
    \<and> CompleteAction now i a res s1 = Inr s2 \<and> GetRun s2 i = Inr r2
    \<and> run_awaited_action_dispatch r2 = None \<and> wakeup_due now r2
    \<and> (\<forall>k v. map_of res k = Some v \<longrightarrow> map_of (run_variables r2) k = Some v)"
proof -
  define r1 where "r1 = r\<lparr>run_state := RunStatePaused, run_awaited_action_dispatch := Some d,
    run_current_attempt := a\<rparr>"
  define r2 where "r2 = r1\<lparr>run_awaited_action_dispatch := None, run_wakeup_at := Some now,
    run_variables := put_vars (run_variables r1) res\<rparr>"
  obtain s1 where s1: "MarkAwaitingAction i d a s = Inr s1" "GetRun s1 i = Inr r1"
    using await_op.op_hit [OF assms(1), of d a] assms(2) by (auto simp: r1_def)
  obtain s2 where s2: "CompleteAction now i a res s1 = Inr s2" "GetRun s2 i = Inr r2"
    using complete_op.op_hit [OF s1(2), of now a res] by (auto simp: r1_def r2_def)
  have again: "\<forall>s'. MarkAwaitingAction i d a s1 = Inr s' \<longrightarrow> GetRun s' i = Inr r1"
    using await_op.op_get [of i d a s1] s1(2) by (auto simp: r1_def)
  have stale: "\<forall>s'. CompleteAction now i b res s1 = Inr s' \<longrightarrow> GetRun s' i = Inr r1"
    using complete_op.op_get [of now i b res s1] s1(2) assms(4) by (auto simp: r1_def)
  have "\<forall>k v. map_of res k = Some v \<longrightarrow> map_of (run_variables r2) k = Some v"
    using assms(3) by (simp add: r2_def put_vars_get)
  then show ?thesis
    using s1 s2 again stale
    by (intro exI [of _ s1] exI [of _ s2] exI [of _ r1] exI [of _ r2])
      (simp add: r1_def r2_def wakeup_due_def)
qed

theorem action_round_trip_witness:
  "\<exists>s1 s2 r1 r2. MarkAwaitingAction ''r1'' ''svc.act:1'' 1 sample_store = Inr s1
    \<and> GetRun s1 ''r1'' = Inr r1
    \<and> run_state r1 = RunStatePaused \<and> run_awaited_action_dispatch r1 = Some ''svc.act:1''
    \<and> (\<forall>s'. MarkAwaitingAction ''r1'' ''svc.act:1'' 1 s1 = Inr s' \<longrightarrow> GetRun s' ''r1'' = Inr r1)
    \<and> (\<forall>s'. CompleteAction 9 ''r1'' 2 [(''k'', VInt 1)] s1 = Inr s' \<longrightarrow> GetRun s' ''r1'' = Inr r1)
    \<and> CompleteAction 9 ''r1'' 1 [(''k'', VInt 1)] s1 = Inr s2 \<and> GetRun s2 ''r1'' = Inr r2
    \<and> run_awaited_action_dispatch r2 = None \<and> wakeup_due 9 r2
    \<and> (\<forall>k v. map_of [(''k'', VInt 1)] k = Some v \<longrightarrow> map_of (run_variables r2) k = Some v)"
  by (rule action_round_trip [OF sample_get]) (simp_all add: sample_run_def NewSagaRun_def)

text \<open>
  A failure report whose attempt matches is applied whatever the run's state is,
  so a late one turns a run that was already cancelled or had succeeded into a failed
  one; a report for another attempt changes nothing.
\<close>

theorem FailAction_ignores_terminal:
  assumes "GetRun s i = Inr r"
  shows "\<exists>s' r'. FailAction now evid i a code msg retryable s = Inr s' \<and> GetRun s' i = Inr r'
    \<and> (run_current_attempt r = a \<longrightarrow> run_state r' = RunStateFailed \<and> run_terminal_at r' = Some now)
    \<and> (run_current_attempt r \<noteq> a \<longrightarrow> s' = s)"
  using assms by (auto simp: FailAction_def Let_def GetRun_iff)

theorem FailAction_ignores_terminal_witness:
  "\<exists>s' r'. FailAction 9 ''e'' ''r1'' 0 ''c'' ''late'' False ended_store = Inr s'
    \<and> GetRun s' ''r1'' = Inr r'
    \<and> (run_current_attempt (sample_run ''r1'') = 0 \<longrightarrow>
         run_state r' = RunStateFailed \<and> run_terminal_at r' = Some 9)
    \<and> (run_current_attempt (sample_run ''r1'') \<noteq> 0 \<longrightarrow> s' = ended_store)"
  using FailAction_ignores_terminal [OF ended_get, of 9 "''e''" 0 "''c''" "''late''" False] by simp

section \<open>Try/catch frames\<close>

text \<open>
  A frame is pushed exactly when the run has fewer than three; popping then returns
  that frame and gives back the run as it was, and a fourth push is an error that
  changes nothing.
\<close>

theorem try_catch_push_pop:
  assumes "GetRun s i = Inr r"
  shows "(length (run_try_catch_stack r) < 3 \<longrightarrow>
      (\<exists>s1 s2. PushTryCatch i f s = Inr s1 \<and> PopTryCatch i s1 = Inr (Some f, s2)
         \<and> (\<forall>j. GetRun s2 j = GetRun s j)))
    \<and> (length (run_try_catch_stack r) \<ge> 3 \<longrightarrow>
        (\<exists>e. PushTryCatch i f s = Inl e) \<and>
        (\<exists>s2. PopTryCatch i s = Inr (Some (last (run_try_catch_stack r)), s2)))"
  using assms
  by (auto simp: PushTryCatch_def PopTryCatch_def GetRun_def maxDepth_def split: option.splits)

theorem try_catch_push_pop_witness:
  "\<exists>s1 s2. PushTryCatch ''r1'' \<lparr>frame_step_id = ''t'', frame_catch_step = ''c''\<rparr> sample_store = Inr s1
    \<and> PopTryCatch ''r1'' s1 = Inr (Some \<lparr>frame_step_id = ''t'', frame_catch_step = ''c''\<rparr>, s2)
    \<and> (\<forall>j. GetRun s2 j = GetRun sample_store j)"
  using try_catch_push_pop [OF sample_get] by (simp add: sample_run_def NewSagaRun_def)

section \<open>Listing runs\<close>

lemma page_nat: "page (int l) (int k) xs = take l (drop k xs)"
proof -
  have "nat (int k + int l) - k = l" by linarith
  then show ?thesis
    by (auto simp: page_def Let_def nat_diff_distrib' not_less min_def intro: take_all)
qed

lemma pages_tile:
  "concat (map (\<lambda>k. page (int l) (int (k * l)) xs) [0..<n]) = take (n * l) xs"
proof (induction n)
  case (Suc n)
  have "take (Suc n * l) xs = take (n * l) xs @ take l (drop (n * l) xs)"
    by (metis add.commute mult_Suc take_add)
  with Suc show ?case by (simp add: page_nat del: of_nat_mult)
qed simp

lemma started_later_order:
  "started_later a b \<Longrightarrow> \<not> started_later b a"
  "\<not> started_later a b \<Longrightarrow> \<not> started_later b c \<Longrightarrow> \<not> started_later a c"
  by (auto simp: started_later_def)

text \<open>
  Walking \<^verbatim>\<open>ListRuns\<close> page by page with any positive page size visits every run the
  filter matches exactly once, newest first: when the pages cover \<^verbatim>\<open>CountRuns\<close>, their
  concatenation is a permutation of the matching runs in descending start order.
\<close>

theorem ListRuns_pages:
  assumes "l > 0" and "CountRuns f s \<le> int (n * l)"
  shows "\<exists>all. concat (map (\<lambda>k. ListRuns (f\<lparr>rfilter_limit := int l, rfilter_offset := int (k * l)\<rparr>) s)
        [0..<n]) = all
    \<and> mset all = mset (filter (run_matches f (buildTriggerTypeMap s)) (vals (runs s)))
    \<and> sorted_wrt (\<lambda>a b. run_started_at a \<ge> run_started_at b) all"
proof -
  let ?all = "insertion_sort started_later (filterRuns f (buildTriggerTypeMap s) s)"
  have same: "run_matches (f\<lparr>rfilter_limit := x, rfilter_offset := y\<rparr>) = run_matches f" for x y
    by (intro ext) (simp add: run_matches_def split: option.split)
  have "concat (map (\<lambda>k. ListRuns (f\<lparr>rfilter_limit := int l, rfilter_offset := int (k * l)\<rparr>) s)
      [0..<n]) = take (n * l) ?all"
    unfolding pages_tile [symmetric] using assms(1)
    by (simp add: ListRuns_def filterRuns_def same del: of_nat_mult)
  also have "\<dots> = ?all"
    using assms(2) by (simp add: CountRuns_def del: of_nat_mult)
  finally show ?thesis
    using insertion_sort_ordered [of started_later, OF started_later_order]
    by (auto simp: filterRuns_def started_later_def not_less)
qed

definition any_run :: run_filter where
  "any_run = \<lparr>rfilter_workflow_id = [], rfilter_state = [], rfilter_trigger_type = [],
     rfilter_since = None, rfilter_has_error = None, rfilter_requires_review = None,
     rfilter_limit = 0, rfilter_offset = 0\<rparr>"

theorem ListRuns_pages_witness:
  "\<exists>all. concat (map (\<lambda>k. ListRuns (any_run\<lparr>rfilter_limit := int 1, rfilter_offset := int (k * 1)\<rparr>)
        sample_store) [0..<2]) = all
    \<and> mset all = mset (filter (run_matches any_run (buildTriggerTypeMap sample_store))
        (vals (runs sample_store)))
    \<and> sorted_wrt (\<lambda>a b. run_started_at a \<ge> run_started_at b) all"
  by (rule ListRuns_pages)
    (simp_all add: CountRuns_def filterRuns_def sample_store_def CreateRun_def New_def)

section \<open>Published versions\<close>

lemma first_published_append:
  "first_published s (xs @ ys) =
     (case first_published s xs of Some d \<Rightarrow> Some d | None \<Rightarrow> first_published s ys)"
  by (induction xs) (auto simp: Let_def)

text \<open>
  Saving a published version makes it the one \<^verbatim>\<open>GetPublishedWorkflowByID\<close> returns, until
  a later published version of the same workflow replaces it: drafts saved after it do
  not hide it, and other workflows are unaffected.
\<close>

theorem published_version_wins:
  assumes "map_of (defs s) i = None" and "def_published d"
    and "map_of (defs (UpsertWorkflowDefinition i d s)) j = None"
    and "\<not> def_published d'" and "def_id d' = def_id d"
  shows "GetPublishedWorkflowByID (UpsertWorkflowDefinition i d s) (def_id d) = Inr d
    \<and> GetPublishedWorkflowByID
        (UpsertWorkflowDefinition j d' (UpsertWorkflowDefinition i d s)) (def_id d) = Inr d
    \<and> (w \<noteq> def_id d \<longrightarrow> at_key (defsByName (UpsertWorkflowDefinition i d s)) w
         = at_key (defsByName s) w)"
  using assms
  by (auto simp: GetPublishedWorkflowByID_def UpsertWorkflowDefinition_def Let_def at_key_update
      first_published_append split: if_splits)

definition sample_def :: "bool \<Rightarrow> workflow_definition" where
  "sample_def pub = blank_def\<lparr>def_id := ''wf'', def_start := ''a'', def_published := pub\<rparr>"

theorem published_version_wins_witness:
  "GetPublishedWorkflowByID (UpsertWorkflowDefinition ''d1'' (sample_def True) New) ''wf''
      = Inr (sample_def True)
    \<and> GetPublishedWorkflowByID (UpsertWorkflowDefinition ''d2'' (sample_def False)
        (UpsertWorkflowDefinition ''d1'' (sample_def True) New)) ''wf'' = Inr (sample_def True)"
  using published_version_wins [of New "''d1''" "sample_def True" "''d2''" "sample_def False"]
  by (simp add: sample_def_def New_def UpsertWorkflowDefinition_def)

end
