(* ===== verification/Cel.thy ===== *)
theory Cel
  imports Domain
begin

text \<open>
  The expression layer: \<^verbatim>\<open>internal/cel/cel.go\<close> (environment, compilation, evaluation and
  the conversion of results to plain Go values) and \<^verbatim>\<open>internal/cel/cache.go\<close> (the shared
  program cache). The cel-go library itself is a parameter: what it answers when an
  environment is built, an expression compiled and a program evaluated.
\<close>

section \<open>The library\<close>

text \<open>
  Result values of cel-go as \<^verbatim>\<open>refValueToNative\<close> tells them apart: no value, a list, a map,
  a value whose \<^verbatim>\<open>Value()\<close> is a plain Go value, and one whose \<^verbatim>\<open>Value()\<close> is again a
  library value (with its type name).
\<close>

datatype ref_val =
    RNone
  | RList "ref_val list"
  | RMap "(ref_val \<times> ref_val) list"
  | RValue val
  | ROpaque string

type_synonym cel_inner = "gomap \<Rightarrow> gerr + ref_val"

record cel_lib =
  new_env :: "string list \<Rightarrow> gerr option"
  inner_compile :: "string list \<Rightarrow> string \<Rightarrow> gerr option"
  inner_program :: "string list \<Rightarrow> string \<Rightarrow> gerr + cel_inner"

section \<open>Environment, compilation, evaluation\<close>

text \<open>An environment is its list of declared names, a program what it evaluates to.\<close>

definition NewEnv :: "cel_lib \<Rightarrow> string list \<Rightarrow> gerr + string list" where
  "NewEnv L names =
     (case new_env L names of
        Some err \<Rightarrow> Inl (Errorf ''cel: new env: %w'' [AErr err])
      | None \<Rightarrow> Inr names)"

definition Compile :: "cel_lib \<Rightarrow> string list \<Rightarrow> string \<Rightarrow> gerr + cel_inner" where
  "Compile L e expr =
     (if expr = [] then Inl (Errorf ''cel: empty expression'' [])
      else case inner_compile L e expr of
        Some err \<Rightarrow> Inl (Errorf ''cel: compile: %w'' [AErr err])
      | None \<Rightarrow>
          (case inner_program L e expr of
             Inl err \<Rightarrow> Inl (Errorf ''cel: program: %w'' [AErr err])
           | Inr prg \<Rightarrow> Inr prg))"

text \<open>The Go type name of a plain map key that is not a string, as \<^verbatim>\<open>%T\<close> prints it.\<close>

fun key_type :: "ref_val \<Rightarrow> string" where
  "key_type (RValue v) = go_type v"
| "key_type (ROpaque t) = t"
| "key_type (RList _) = ''[]ref.Val''"
| "key_type (RMap _) = ''map[ref.Val]ref.Val''"
| "key_type RNone = ''<nil>''"

fun refValueToNative :: "ref_val \<Rightarrow> gerr + val"
  and native_list :: "ref_val list \<Rightarrow> gerr + val list"
  and native_map :: "gomap \<Rightarrow> (ref_val \<times> ref_val) list \<Rightarrow> gerr + gomap" where
  "refValueToNative RNone = Inr VNil"
| "refValueToNative (RList xs) =
     (case native_list xs of Inl err \<Rightarrow> Inl err | Inr vs \<Rightarrow> Inr (VList vs))"
| "refValueToNative (RMap kvs) =
     (case native_map [] kvs of Inl err \<Rightarrow> Inl err | Inr m \<Rightarrow> Inr (VMap m))"
| "refValueToNative (RValue v) = Inr v"
| "refValueToNative (ROpaque t) = Inl (Errorf ''cel: unsupported result type %T'' [AStr t])"
| "native_list [] = Inr []"
| "native_list (x # xs) =
     (case refValueToNative x of Inl err \<Rightarrow> Inl err
      | Inr v \<Rightarrow> (case native_list xs of Inl err \<Rightarrow> Inl err | Inr vs \<Rightarrow> Inr (v # vs)))"
| "native_map out [] = Inr out"
| "native_map out ((k, v) # kvs) =
     (case k of
        RValue (VStr ks) \<Rightarrow>
          (case refValueToNative v of Inl err \<Rightarrow> Inl err
           | Inr conv \<Rightarrow> native_map (AList.update ks conv out) kvs)
      | _ \<Rightarrow> Inl (Errorf ''cel: map key is not a string: %T'' [AStr (key_type k)]))"

definition Eval :: "cel_inner \<Rightarrow> gomap \<Rightarrow> gerr + val" where
  "Eval prg vars =
     (case prg vars of
        Inl err \<Rightarrow> Inl (Errorf ''cel: eval: %w'' [AErr err])
      | Inr out \<Rightarrow> refValueToNative out)"

section \<open>The program cache\<close>

fun str_less :: "string \<Rightarrow> string \<Rightarrow> bool" where
  "str_less [] [] = False"
| "str_less [] (b # bs) = True"
| "str_less (a # as) [] = False"
| "str_less (a # as) (b # bs) =
     (if a = b then str_less as bs else (of_char a :: nat) < of_char b)"

definition sortedUnique :: "string list \<Rightarrow> string list" where
  "sortedUnique names = remdups_adj (insertion_sort str_less names)"

type_synonym program_cache = "(string \<times> cel_inner) list"

definition cache_key :: "string list \<Rightarrow> string \<Rightarrow> string" where
  "cache_key names expr = join_with [CHR 0x1F] names @ [CHR 0x1E] @ expr"

definition CompiledProgram ::
  "cel_lib \<Rightarrow> string list \<Rightarrow> string \<Rightarrow> program_cache \<Rightarrow> (gerr + cel_inner) \<times> program_cache" where
  "CompiledProgram L varNames expr c =
     (let names = sortedUnique varNames;
          key = cache_key names expr
      in case map_of c key of
           Some cached \<Rightarrow> (Inr cached, c)
         | None \<Rightarrow>
             (case NewEnv L names of
                Inl err \<Rightarrow> (Inl err, c)
              | Inr e \<Rightarrow>
                  (case Compile L e expr of
                     Inl err \<Rightarrow> (Inl err, c)
                   | Inr prg \<Rightarrow> (Inr prg, AList.update key prg c))))"

text \<open>What the call computes with no cache at all: the reference for \<open>CompiledProgram\<close>.\<close>

definition build_program :: "cel_lib \<Rightarrow> string list \<Rightarrow> string \<Rightarrow> gerr + cel_inner" where
  "build_program L varNames expr =
     (case NewEnv L (sortedUnique varNames) of
        Inl err \<Rightarrow> Inl err
      | Inr e \<Rightarrow> Compile L e expr)"

text \<open>The caches that calls with the given kind of names can leave behind.\<close>

definition clean_name :: "string \<Rightarrow> bool" where
  "clean_name n \<longleftrightarrow> n \<noteq> [] \<and> CHR 0x1E \<notin> set n \<and> CHR 0x1F \<notin> set n"

inductive cache_reached :: "cel_lib \<Rightarrow> program_cache \<Rightarrow> bool" for L where
  empty: "cache_reached L []"
| call: "cache_reached L c \<Longrightarrow> list_all clean_name names \<Longrightarrow>
    cache_reached L (snd (CompiledProgram L names expr c))"

section \<open>Names are a set\<close>

lemma str_less_asym: "str_less a b \<Longrightarrow> \<not> str_less b a"
  by (induction a b rule: str_less.induct) (auto split: if_splits)

lemma str_less_linear: "\<not> str_less a b \<Longrightarrow> \<not> str_less b a \<Longrightarrow> a = b"
proof (induction a b rule: str_less.induct)
  case (4 a as b bs)
  show ?case
  proof (cases "a = b")
    case False
    then have "(of_char a :: nat) \<noteq> of_char b" by simp
    then show ?thesis using "4.prems" False by auto
  qed (use 4 in auto)
qed auto

lemma str_less_trans: "str_less a b \<Longrightarrow> str_less b c \<Longrightarrow> str_less a c"
proof (induction a c arbitrary: b rule: str_less.induct)
  case (4 a as c cs)
  then show ?case by (cases b) (auto split: if_splits)
qed (auto elim: str_less.elims)

lemma str_less_irrefl [simp]: "\<not> str_less a a"
  using str_less_asym by blast

lemma str_not_less_trans: "\<not> str_less a b \<Longrightarrow> \<not> str_less b c \<Longrightarrow> \<not> str_less a c"
  using str_less_linear str_less_trans by metis

lemma set_sortedUnique [simp]: "set (sortedUnique names) = set names"
  by (simp add: sortedUnique_def)

lemma strictly_sorted_unique:
  "sorted_wrt str_less xs \<Longrightarrow> sorted_wrt str_less ys \<Longrightarrow> set xs = set ys \<Longrightarrow> xs = ys"
proof (induction xs arbitrary: ys)
  case (Cons x xs)
  then obtain y ys' where ys: "ys = y # ys'" by (cases ys) auto
  have "x = y"
    using Cons.prems ys str_less_asym by (metis insert_iff list.simps(15) sorted_wrt.simps(2))
  moreover have "x \<notin> set xs" "y \<notin> set ys'" using Cons.prems ys by auto
  ultimately have "set xs = set ys'" using Cons.prems ys by auto
  then show ?case using Cons ys \<open>x = y\<close> by simp
qed simp

lemma remdups_adj_strict: "ordered_by str_less xs \<Longrightarrow> sorted_wrt str_less (remdups_adj xs)"
  by (induction xs rule: remdups_adj.induct) (auto dest: str_less_linear)

lemma sortedUnique_strict: "sorted_wrt str_less (sortedUnique names)"
  unfolding sortedUnique_def
  by (rule remdups_adj_strict, rule insertion_sort_ordered)
    (auto dest: str_less_asym str_not_less_trans)

lemma sortedUnique_set: "set xs = set ys \<Longrightarrow> sortedUnique xs = sortedUnique ys"
  by (rule strictly_sorted_unique) (simp_all add: sortedUnique_strict)

section \<open>Keys do not collide\<close>

lemma join_with_not_in:
  "d \<noteq> c \<Longrightarrow> \<forall>p \<in> set ps. d \<notin> set p \<Longrightarrow> d \<notin> set (join_with [c] ps)"
  by (induction "[c]" ps rule: join_with.induct) auto

lemma join_with_Nil_iff: "[] \<notin> set ps \<Longrightarrow> join_with [c] ps = [] \<longleftrightarrow> ps = []"
  by (cases "([c], ps)" rule: join_with.cases) auto

lemma join_with_inj:
  assumes "[] \<notin> set ps" "[] \<notin> set qs"
    and "\<forall>p \<in> set ps. c \<notin> set p" "\<forall>q \<in> set qs. c \<notin> set q"
    and "join_with [c] ps = join_with [c] qs"
  shows "ps = qs"
proof (cases "ps = [] \<or> qs = []")
  case True
  then show ?thesis
    using join_with_Nil_iff [OF assms(1), of c] join_with_Nil_iff [OF assms(2), of c] assms(5)
    by (metis join_with.simps(1))
next
  case False
  then show ?thesis using split_on_join assms by metis
qed

lemma list_all_cleanD:
  assumes "list_all clean_name ns"
  shows "[] \<notin> set ns" "\<forall>n \<in> set ns. CHR 0x1E \<notin> set n" "\<forall>n \<in> set ns. CHR 0x1F \<notin> set n"
  using assms by (auto simp only: list_all_iff clean_name_def)

lemma cache_key_inj:
  assumes "list_all clean_name ps" "list_all clean_name qs" "cache_key ps e = cache_key qs f"
  shows "ps = qs \<and> e = f"
proof -
  note p = list_all_cleanD [OF assms(1)] and q = list_all_cleanD [OF assms(2)]
  have ne: "CHR 0x1E \<noteq> CHR 0x1F" by simp
  have "join_with [CHR 0x1F] ps = join_with [CHR 0x1F] qs \<and> e = f"
    by (rule append_sep_inj [OF join_with_not_in [OF ne p(2)] join_with_not_in [OF ne q(2)]])
      (use assms(3) in \<open>simp only: cache_key_def append.simps\<close>)
  then show ?thesis using join_with_inj [OF p(1) q(1) p(3) q(3)] by blast
qed

definition cache_sound :: "cel_lib \<Rightarrow> program_cache \<Rightarrow> bool" where
  "cache_sound L c \<longleftrightarrow>
     (\<forall>names expr prg. list_all clean_name names \<and>
        map_of c (cache_key (sortedUnique names) expr) = Some prg
        \<longrightarrow> build_program L names expr = Inr prg)"

lemma clean_sortedUnique: "list_all clean_name names \<Longrightarrow> list_all clean_name (sortedUnique names)"
  by (simp add: list_all_iff)

lemma CompiledProgram_sound:
  assumes "cache_sound L c" and "list_all clean_name names"
  shows "fst (CompiledProgram L names expr c) = build_program L names expr"
    and "cache_sound L (snd (CompiledProgram L names expr c))"
proof -
  show "fst (CompiledProgram L names expr c) = build_program L names expr"
    using assms
    by (auto simp: CompiledProgram_def build_program_def cache_sound_def Let_def
        split: option.splits sum.splits)
  show "cache_sound L (snd (CompiledProgram L names expr c))"
  proof (cases "snd (CompiledProgram L names expr c) = c")
    case False
    then obtain prg where prg: "build_program L names expr = Inr prg"
      and c': "snd (CompiledProgram L names expr c) = AList.update (cache_key (sortedUnique names) expr) prg c"
      by (auto simp: CompiledProgram_def build_program_def Let_def split: option.splits sum.splits)
    show ?thesis
      unfolding cache_sound_def
    proof (intro allI impI, elim conjE)
      fix ns e p
      assume ns: "list_all clean_name ns"
        and p: "map_of (snd (CompiledProgram L names expr c)) (cache_key (sortedUnique ns) e) = Some p"
      show "build_program L ns e = Inr p"
      proof (cases "cache_key (sortedUnique ns) e = cache_key (sortedUnique names) expr")
        case True
        then have "sortedUnique ns = sortedUnique names \<and> e = expr"
          using cache_key_inj clean_sortedUnique ns assms(2) by blast
        then show ?thesis using prg p c' by (simp add: build_program_def)
      next
        case False
        then show ?thesis using p ns assms(1) c' by (auto simp: cache_sound_def)
      qed
    qed
  qed (use assms in simp)
qed

lemma cache_reached_sound: "cache_reached L c \<Longrightarrow> cache_sound L c"
proof (induction rule: cache_reached.induct)
  case empty
  show ?case by (simp add: cache_sound_def)
next
  case (call c names expr)
  then show ?case by (simp add: CompiledProgram_sound)
qed

section \<open>Properties\<close>

text \<open>
  The program cache is transparent. Whatever calls filled it, a lookup returns
  exactly what compiling the expression afresh against the same variable set returns,
  and the order and repetition of the names passed do not matter, as long as
  variable names are non-empty and contain neither separator byte.
\<close>

theorem CompiledProgram_transparent:
  assumes "cache_reached L c" and "list_all clean_name names" and "set names' = set names"
  shows "fst (CompiledProgram L names expr c) = build_program L names expr
    \<and> fst (CompiledProgram L names' expr c) = fst (CompiledProgram L names expr c)"
proof -
  have "build_program L names' expr = build_program L names expr"
    by (simp add: build_program_def sortedUnique_set [OF assms(3)])
  moreover have "list_all clean_name names'" using assms by (simp add: list_all_iff)
  ultimately show ?thesis
    using CompiledProgram_sound(1) cache_reached_sound assms by metis
qed

text \<open>A library that knows one variable expression: the program reads the variable.\<close>

definition demo_lib :: cel_lib where
  "demo_lib = \<lparr>new_env = (\<lambda>_. None),
     inner_compile = (\<lambda>ns e. if e \<in> set ns then None else Some (Errorf ''undeclared'' [])),
     inner_program = (\<lambda>ns e. Inr (\<lambda>vars. case map_of vars e of
        None \<Rightarrow> Inl (Errorf ''no such attribute'' []) | Some v \<Rightarrow> Inr (RValue v)))\<rparr>"

theorem CompiledProgram_transparent_witness:
  "fst (CompiledProgram demo_lib [''b'', ''a''] ''a''
      (snd (CompiledProgram demo_lib [''a'', ''b''] ''a'' [])))
     = build_program demo_lib [''b'', ''a''] ''a''
   \<and> fst (CompiledProgram demo_lib [''a'', ''b'', ''a''] ''a''
      (snd (CompiledProgram demo_lib [''a'', ''b''] ''a'' [])))
     = fst (CompiledProgram demo_lib [''b'', ''a''] ''a''
      (snd (CompiledProgram demo_lib [''a'', ''b''] ''a'' [])))"
proof -
  have "cache_reached demo_lib (snd (CompiledProgram demo_lib [''a'', ''b''] ''a'' []))"
    by (rule cache_reached.call [OF cache_reached.empty]) (simp add: clean_name_def)
  then show ?thesis
    by (rule CompiledProgram_transparent) (auto simp: clean_name_def)
qed

end
