(* ===== verification/Rules.thy ===== *)
theory Rules
  imports Cel
begin

text \<open>
  The decision-table evaluator \<^verbatim>\<open>internal/rules/rules.go\<close>: rows are tried in order, the
  first whose condition is true decides, and the audit trail lists the rows tried.
\<close>

record evaluated_row =
  audit_index :: int
  audit_when :: string
  audit_matched :: bool

text \<open>The row loop: the error, the matching row's output or none, with the audit so far.\<close>

fun eval_rows ::
  "cel_lib \<Rightarrow> gomap \<Rightarrow> nat \<Rightarrow> evaluated_row list \<Rightarrow> decision_table_row list
   \<Rightarrow> (gerr + gomap option) \<times> evaluated_row list" where
  "eval_rows L inputs i audit [] = (Inr None, audit)"
| "eval_rows L inputs i audit (row # rows) =
     (case build_program L (map fst inputs) (row_when row) of
        Inl err \<Rightarrow> (Inl (Errorf ''rules: row %d compile: %w'' [AInt (int i), AErr err]), audit)
      | Inr prg \<Rightarrow>
          (case Eval prg inputs of
             Inl err \<Rightarrow> (Inl (Errorf ''rules: row %d eval: %w'' [AInt (int i), AErr err]), audit)
           | Inr v \<Rightarrow>
               (let matched = val_true v;
                    audit = audit @ [\<lparr>audit_index = int i, audit_when = row_when row,
                                      audit_matched = matched\<rparr>]
                in if matched then (Inr (Some (row_then row)), audit)
                   else eval_rows L inputs (Suc i) audit rows)))"

definition Evaluate ::
  "cel_lib \<Rightarrow> rule_definition \<Rightarrow> gomap \<Rightarrow> (gerr + gomap) \<times> evaluated_row list" where
  "Evaluate L def inputs =
     (if rule_type def \<noteq> ''decision_table''
      then (Inl (Errorf ''rules: unsupported rule type: %s'' [AStr (rule_type def)]), [])
      else if spec_hit_policy (rule_spec def) \<noteq> ''first''
      then (Inl (Errorf ''rules: unsupported hit policy: %s''
                  [AStr (spec_hit_policy (rule_spec def))]), [])
      else case eval_rows L inputs 0 [] (spec_rows (rule_spec def)) of
        (Inl err, audit) \<Rightarrow> (Inl err, audit)
      | (Inr (Some out), audit) \<Rightarrow> (Inr out, audit)
      | (Inr None, audit) \<Rightarrow>
          (case spec_default_output (rule_spec def) of
             Some out \<Rightarrow> (Inr out, audit)
           | None \<Rightarrow> (Inl (Errorf ''rules: no_decision_row_matched'' []), audit)))"

section \<open>First hit\<close>

text \<open>What one row's condition evaluates to, with no table around it.\<close>

definition row_value :: "cel_lib \<Rightarrow> gomap \<Rightarrow> decision_table_row \<Rightarrow> bool option" where
  "row_value L inputs row =
     (case build_program L (map fst inputs) (row_when row) of
        Inl _ \<Rightarrow> None
      | Inr prg \<Rightarrow> (case Eval prg inputs of Inl _ \<Rightarrow> None | Inr v \<Rightarrow> Some (val_true v)))"

lemma eval_rows_Cons:
  "row_value L inputs row = Some b \<Longrightarrow>
   eval_rows L inputs i audit (row # rows) =
     (let audit' = audit @ [\<lparr>audit_index = int i, audit_when = row_when row, audit_matched = b\<rparr>]
      in if b then (Inr (Some (row_then row)), audit') else eval_rows L inputs (Suc i) audit' rows)"
  by (auto simp: row_value_def Let_def split: sum.splits)

lemma eval_rows_misses:
  assumes "\<forall>row \<in> set pre. row_value L inputs row = Some False"
  shows "\<exists>trail. eval_rows L inputs i audit (pre @ rows)
      = eval_rows L inputs (i + length pre) (audit @ trail) rows
    \<and> map audit_matched trail = replicate (length pre) False"
  using assms
proof (induction pre arbitrary: i audit)
  case (Cons row pre)
  then have miss: "row_value L inputs row = Some False" by simp
  let ?a = "\<lparr>audit_index = int i, audit_when = row_when row, audit_matched = False\<rparr>"
  obtain trail where "eval_rows L inputs (Suc i) (audit @ [?a]) (pre @ rows)
      = eval_rows L inputs (Suc i + length pre) ((audit @ [?a]) @ trail) rows"
    and "map audit_matched trail = replicate (length pre) False"
    using Cons.IH [of "Suc i" "audit @ [?a]"] Cons.prems by auto
  then show ?case
    using eval_rows_Cons [OF miss] by (intro exI [of _ "?a # trail"]) simp
qed simp

text \<open>
  C40: a decision table is first-hit. When the rows before one all evaluate to
  something other than true and that row to true, its output is the result and the
  audit trail shows exactly those rows, the last one matched; when every row misses,
  the default output is the result, or an error if the table has none.
\<close>

theorem Evaluate_first_hit:
  assumes "rule_type def = ''decision_table''" and "spec_hit_policy (rule_spec def) = ''first''"
    and "\<forall>row \<in> set pre. row_value L inputs row = Some False"
  shows "(spec_rows (rule_spec def) = pre @ row # post \<and> row_value L inputs row = Some True \<longrightarrow>
        (\<exists>audit. Evaluate L def inputs = (Inr (row_then row), audit)
           \<and> map audit_matched audit = replicate (length pre) False @ [True]))
    \<and> (spec_rows (rule_spec def) = pre \<longrightarrow>
        (\<exists>audit. Evaluate L def inputs =
            (case spec_default_output (rule_spec def) of Some out \<Rightarrow> Inr out
             | None \<Rightarrow> Inl (Errorf ''rules: no_decision_row_matched'' []), audit)
           \<and> map audit_matched audit = replicate (length pre) False))"
proof (intro conjI impI, elim conjE)
  assume rows: "spec_rows (rule_spec def) = pre @ row # post"
    and hit: "row_value L inputs row = Some True"
  show "\<exists>audit. Evaluate L def inputs = (Inr (row_then row), audit)
      \<and> map audit_matched audit = replicate (length pre) False @ [True]"
    using eval_rows_misses [OF assms(3), of 0 "[]" "row # post"] eval_rows_Cons [OF hit]
    by (auto simp: Evaluate_def rows assms(1,2) Let_def)
next
  assume rows: "spec_rows (rule_spec def) = pre"
  show "\<exists>audit. Evaluate L def inputs =
      (case spec_default_output (rule_spec def) of Some out \<Rightarrow> Inr out
       | None \<Rightarrow> Inl (Errorf ''rules: no_decision_row_matched'' []), audit)
      \<and> map audit_matched audit = replicate (length pre) False"
    using eval_rows_misses [OF assms(3), of 0 "[]" "[]"]
    by (auto simp: Evaluate_def rows assms(1,2) split: option.split)
qed

definition triage_rule :: rule_definition where
  "triage_rule = NewRuleDefinition ''u'' 0 ''triage'' 1 ''Triage'' ''decision_table''
     \<lparr>spec_hit_policy = ''first'',
      spec_rows = [\<lparr>row_when = ''p1'', row_then = [(''branch'', VStr ''high'')]\<rparr>,
                   \<lparr>row_when = ''p2'', row_then = [(''branch'', VStr ''mid'')]\<rparr>],
      spec_default_output = Some [(''branch'', VStr ''low'')]\<rparr> ''test''"

theorem Evaluate_first_hit_witness:
  "\<exists>audit. Evaluate demo_lib triage_rule [(''p1'', VBool False), (''p2'', VBool True)]
     = (Inr [(''branch'', VStr ''mid'')], audit)
   \<and> map audit_matched audit = replicate 1 False @ [True]"
  using Evaluate_first_hit [of triage_rule
      "[\<lparr>row_when = ''p1'', row_then = [(''branch'', VStr ''high'')]\<rparr>]" demo_lib
      "[(''p1'', VBool False), (''p2'', VBool True)]"
      "\<lparr>row_when = ''p2'', row_then = [(''branch'', VStr ''mid'')]\<rparr>" "[]"]
  by (simp add: triage_rule_def NewRuleDefinition_def row_value_def build_program_def NewEnv_def
      Compile_def Eval_def demo_lib_def val_true_def)

end
