(* ===== verification/Licensing.thy ===== *)
theory Licensing
  imports Domain
begin

text \<open>
  Feature gating: \<^verbatim>\<open>licensing/resolver.go\<close> (the resolver contract, the allow-all stub, the
  TTL cache), \<^verbatim>\<open>licensing/http_resolver.go\<close>, the verb groups of
  \<^verbatim>\<open>engine/verbs/license_groups.go\<close> and the publish-time checks of \<^verbatim>\<open>engine/validate.go\<close>.
\<close>

type_synonym overrides = "(string \<times> bool) list"
type_synonym resolver = "uuid option \<Rightarrow> string \<Rightarrow> overrides \<Rightarrow> gerr + bool"

section \<open>Resolvers\<close>

definition StubAllowAll :: resolver where
  "StubAllowAll tenant feature ovr = Inr True"

record cache_entry =
  entry_value :: bool
  entry_expires :: gotime

type_synonym feature_cache = "(string \<times> cache_entry) list"

definition cacheKey :: "uuid option \<Rightarrow> string \<Rightarrow> string" where
  "cacheKey tenant feature =
     (case tenant of None \<Rightarrow> ''platform|'' @ feature | Some t \<Rightarrow> t @ ''|'' @ feature)"

text \<open>
  \<^verbatim>\<open>Cached.IsFeatureEnabled\<close>: \<open>inner\<close> is the wrapped resolver as it answers at the time of
  the call, \<open>now\<close> the clock reading and \<open>ttl\<close> the configured lifetime.
\<close>

definition cached_IsFeatureEnabled ::
  "resolver \<Rightarrow> duration \<Rightarrow> gotime \<Rightarrow> uuid option \<Rightarrow> string \<Rightarrow> overrides \<Rightarrow> feature_cache
   \<Rightarrow> (gerr + bool) \<times> feature_cache" where
  "cached_IsFeatureEnabled inner ttl now tenant feature ovr data =
     (case map_of ovr feature of
        Some v \<Rightarrow> (Inr v, data)
      | None \<Rightarrow>
          (let key = cacheKey tenant feature;
               ask = (case inner tenant feature [] of
                        Inl err \<Rightarrow> (Inl err, data)
                      | Inr enabled \<Rightarrow>
                          (Inr enabled, AList.update key
                             \<lparr>entry_value = enabled, entry_expires = now + ttl\<rparr> data))
           in case map_of data key of
                Some e \<Rightarrow> (if now < entry_expires e then (Inr (entry_value e), data) else ask)
              | None \<Rightarrow> ask))"

text \<open>
  The HTTP resolver: \<open>http\<close> is the client, which answers a URL with an error or with a
  status and the decoded feature list (\<open>None\<close> when the body does not decode); \<open>encode\<close> is
  \<^verbatim>\<open>url.Values.Encode\<close> of the tenant query.
\<close>

definition http_IsFeatureEnabled ::
  "(string \<Rightarrow> gerr option) \<Rightarrow> (string \<Rightarrow> gerr + int \<times> (gerr + string list)) \<Rightarrow> (uuid \<Rightarrow> string)
   \<Rightarrow> string \<Rightarrow> string \<Rightarrow> resolver" where
  "http_IsFeatureEnabled bad_request http encode baseURL featuresPath tenant feature ovr =
     (let path = (if featuresPath = [] then ''/features'' else featuresPath);
          u = baseURL @ path @ (case tenant of None \<Rightarrow> [] | Some t \<Rightarrow> ''?'' @ encode t)
      in case bad_request u of
           Some err \<Rightarrow> Inl (Errorf ''feature resolver: build request: %w'' [AErr err])
         | None \<Rightarrow>
             (case http u of
                Inl err \<Rightarrow> Inl (Errorf ''feature resolver: do: %w'' [AErr err])
              | Inr (status, body) \<Rightarrow>
                  (if status \<noteq> 200
                   then Inl (Errorf ''feature resolver: unexpected status %d'' [AInt status])
                   else case body of
                     Inl err \<Rightarrow> Inl (Errorf ''feature resolver: decode: %w'' [AErr err])
                   | Inr features \<Rightarrow> Inr (feature \<in> set features))))"

section \<open>Verb groups\<close>

definition GroupToFeature :: "(string \<times> string) list" where
  "GroupToFeature =
    [(''common'', ''''), (''observability'', ''wf.observability''),
     (''external_io_advanced'', ''wf.external_io''), (''waits'', ''wf.timers''),
     (''events_and_signals'', ''wf.event_driven''), (''human_interaction'', ''wf.user_tasks''),
     (''parallel_control'', ''wf.parallel''), (''loops_and_recovery'', ''wf.loops_recovery''),
     (''compositions'', ''wf.compositions'')]"

definition group_feature :: "string \<Rightarrow> string" where
  "group_feature grp = or_default (map_of GroupToFeature grp) []"

definition LicenseGroupForStep :: "step \<Rightarrow> string \<Rightarrow> string" where
  "LicenseGroupForStep s regGroup =
     (if step_type s = StepTypeHTTPRequest
      then (let method = get_str (step_inputs s) ''method'';
                secret = get_str (step_inputs s) ''secret_ref''
            in if (method = [] \<or> method = ''GET'') \<and> secret = [] then ''common''
               else ''external_io_advanced'')
      else regGroup)"

section \<open>Publish-time validation\<close>

text \<open>
  The step index is built left to right, so a later step with the same id wins; the
  entrypoints are checked in iteration order.
\<close>

definition step_index :: "workflow_definition \<Rightarrow> (string \<times> step) list" where
  "step_index d = foldl (\<lambda>m s. AList.update (step_id s) s m) [] (def_steps d)"

fun bad_entrypoint :: "(string \<times> step) list \<Rightarrow> (string \<times> string) list \<Rightarrow> gerr option" where
  "bad_entrypoint ix [] = None"
| "bad_entrypoint ix ((name, stepID) # es) =
     (case map_of ix stepID of
        None \<Rightarrow> Some (Errorf ''validate: entrypoint %q references missing step %q''
                   [AStr name, AStr stepID])
      | Some _ \<Rightarrow> bad_entrypoint ix es)"

fun bad_try_body :: "(string \<times> step) list \<Rightarrow> string \<Rightarrow> val list \<Rightarrow> gerr option" where
  "bad_try_body ix tryID [] = None"
| "bad_try_body ix tryID (idAny # rest) =
     (let i = (case idAny of VStr x \<Rightarrow> x | _ \<Rightarrow> [])
      in case map_of ix i of
           None \<Rightarrow> bad_try_body ix tryID rest
         | Some inner \<Rightarrow>
             (if step_type inner = StepTypeParallel
              then Some (Errorf ''validate: try_catch step %q contains parallel step %q (forbidden)''
                     [AStr tryID, AStr i])
              else bad_try_body ix tryID rest))"

fun bad_try_catch :: "(string \<times> step) list \<Rightarrow> step list \<Rightarrow> gerr option" where
  "bad_try_catch ix [] = None"
| "bad_try_catch ix (s # ss) =
     (if step_type s \<noteq> StepTypeTryCatch then bad_try_catch ix ss
      else case get_list (step_inputs s) ''try'' of
        None \<Rightarrow> bad_try_catch ix ss
      | Some tryAny \<Rightarrow>
          (case bad_try_body ix (step_id s) tryAny of
             Some err \<Rightarrow> Some err
           | None \<Rightarrow> bad_try_catch ix ss))"

definition ValidateDefinition :: "workflow_definition \<Rightarrow> gerr option" where
  "ValidateDefinition d =
     (case bad_entrypoint (step_index d) (def_entrypoints d) of
        Some err \<Rightarrow> Some err
      | None \<Rightarrow> bad_try_catch (step_index d) (def_steps d))"

text \<open>The typed \<^verbatim>\<open>LicenseGateError\<close> is kept apart from the other errors.\<close>

datatype validation_error =
    Invalid gerr
  | LicenseGateError string string string

fun license_walk ::
  "(step_type \<rightharpoonup> string) \<Rightarrow> resolver \<Rightarrow> uuid option \<Rightarrow> overrides \<Rightarrow> step list
   \<Rightarrow> validation_error option" where
  "license_walk groups res tenant ovr [] = None"
| "license_walk groups res tenant ovr (s # ss) =
     (case groups (step_type s) of
        None \<Rightarrow> license_walk groups res tenant ovr ss
      | Some regGroup \<Rightarrow>
          (let grp = LicenseGroupForStep s regGroup;
               feature = group_feature grp
           in if feature = [] then license_walk groups res tenant ovr ss
              else case res tenant feature ovr of
                Inl err \<Rightarrow> Some (Invalid (Errorf ''validate: license check for step %q: %w''
                             [AStr (step_id s), AErr err]))
              | Inr enabled \<Rightarrow>
                  (if \<not> enabled then Some (LicenseGateError (step_id s) grp feature)
                   else license_walk groups res tenant ovr ss)))"

definition ValidateDefinitionWithLicense ::
  "workflow_definition \<Rightarrow> (step_type \<rightharpoonup> string) \<Rightarrow> resolver \<Rightarrow> uuid option \<Rightarrow> overrides
   \<Rightarrow> validation_error option" where
  "ValidateDefinitionWithLicense d groups res tenant ovr =
     (case ValidateDefinition d of
        Some err \<Rightarrow> Some (Invalid err)
      | None \<Rightarrow> license_walk groups res tenant ovr (def_steps d))"

section \<open>What acceptance means\<close>

lemma map_of_step_index:
  "map_of (step_index d) i = find_step (rev (def_steps d)) i"
proof -
  have "map_of (foldl (\<lambda>m s. AList.update (step_id s) s m) m ss) i =
      (case find_step (rev ss) i of Some s \<Rightarrow> Some s | None \<Rightarrow> map_of m i)" for ss m
  proof (induction ss rule: rev_induct)
    case (snoc s ss)
    then show ?case by (auto split: option.split)
  qed simp
  from this [of "[]" "def_steps d"] show ?thesis
    by (simp add: step_index_def split: option.split)
qed

lemma bad_entrypoint_None:
  "bad_entrypoint ix es = None \<longleftrightarrow> (\<forall>(n, i) \<in> set es. map_of ix i \<noteq> None)"
  by (induction ix es rule: bad_entrypoint.induct) (auto split: option.splits)

lemma bad_try_body_None:
  "bad_try_body ix t vs = None \<longleftrightarrow>
     (\<forall>v \<in> set vs. \<forall>s. map_of ix (case v of VStr x \<Rightarrow> x | _ \<Rightarrow> []) = Some s \<longrightarrow>
        step_type s \<noteq> StepTypeParallel)"
  by (induction ix t vs rule: bad_try_body.induct) (auto simp: Let_def split: option.splits)

lemma bad_try_catch_None:
  "bad_try_catch ix ss = None \<longleftrightarrow>
     (\<forall>s \<in> set ss. \<forall>vs. step_type s = StepTypeTryCatch \<and> get_list (step_inputs s) ''try'' = Some vs
        \<longrightarrow> bad_try_body ix (step_id s) vs = None)"
  by (induction ix ss rule: bad_try_catch.induct) (auto split: option.splits)

lemma license_walk_None:
  "license_walk groups res tenant ovr ss = None \<longleftrightarrow>
     (\<forall>s \<in> set ss. \<forall>g. groups (step_type s) = Some g \<longrightarrow>
        group_feature (LicenseGroupForStep s g) = []
        \<or> res tenant (group_feature (LicenseGroupForStep s g)) ovr = Inr True)"
  by (induction groups res tenant ovr ss rule: license_walk.induct)
    (auto simp: Let_def split: option.splits sum.splits)

text \<open>
  An accepted definition (with distinct step ids) has every named entrypoint at an
  existing step, no try body that lists a parallel step, and for each step whose type
  is registered, either no licensed feature to check or one the resolver reports enabled; and
  every definition with those properties is accepted.
\<close>

theorem ValidateDefinitionWithLicense_iff:
  assumes "distinct (map step_id (def_steps d))"
  shows "ValidateDefinitionWithLicense d groups res tenant ovr = None \<longleftrightarrow>
    (\<forall>(n, i) \<in> set (def_entrypoints d). StepByID d i \<noteq> None) \<and>
    (\<forall>s \<in> set (def_steps d). \<forall>vs. step_type s = StepTypeTryCatch
        \<and> get_list (step_inputs s) ''try'' = Some vs \<longrightarrow>
        (\<forall>v \<in> set vs. \<forall>b. StepByID d (case v of VStr x \<Rightarrow> x | _ \<Rightarrow> []) = Some b \<longrightarrow>
           step_type b \<noteq> StepTypeParallel)) \<and>
    (\<forall>s \<in> set (def_steps d). \<forall>g. groups (step_type s) = Some g \<longrightarrow>
        group_feature (LicenseGroupForStep s g) = []
        \<or> res tenant (group_feature (LicenseGroupForStep s g)) ovr = Inr True)"
proof -
  have find_rev: "find_step (rev ss) i = find_step ss i"
    if "distinct (map step_id ss)" for ss i
  proof (cases "find_step ss i")
    case None
    then have "find_step (rev ss) i = None" by (simp add: find_step_None_iff)
    with None show ?thesis by simp
  next
    case (Some s)
    then obtain s' where s': "find_step (rev ss) i = Some s'"
      using find_step_None_iff [of ss i] find_step_None_iff [of "rev ss" i] by fastforce
    then show ?thesis
      using Some that find_step_SomeD [OF s'] find_step_SomeD [OF Some]
      by (auto simp: distinct_map inj_on_def)
  qed
  then have ix: "map_of (step_index d) i = StepByID d i" for i
    using assms by (simp add: map_of_step_index StepByID_def)
  have "ValidateDefinitionWithLicense d groups res tenant ovr = None \<longleftrightarrow>
      bad_entrypoint (step_index d) (def_entrypoints d) = None \<and>
      bad_try_catch (step_index d) (def_steps d) = None \<and>
      license_walk groups res tenant ovr (def_steps d) = None"
    by (simp add: ValidateDefinitionWithLicense_def ValidateDefinition_def split: option.split)
  then show ?thesis
    by (simp only: bad_entrypoint_None bad_try_catch_None bad_try_body_None license_walk_None ix)
qed

text \<open>A one-step definition that needs the timers feature.\<close>

definition wait_def :: workflow_definition where
  "wait_def = \<lparr>def_id = ''wf'', def_version = 1, def_tenant_id = None, def_name = [],
     def_description = [], def_start = ''w'', def_entrypoints = [(''alt'', ''w'')],
     def_steps = [(blank_step ''w'')\<lparr>step_type := StepTypeWaitUntil\<rparr>],
     def_published = True, def_created_at = 0, def_created_by = []\<rparr>"

theorem ValidateDefinitionWithLicense_iff_witness:
  "ValidateDefinitionWithLicense wait_def [StepTypeWaitUntil \<mapsto> ''waits''] StubAllowAll None [] = None"
  by (subst ValidateDefinitionWithLicense_iff)
    (simp_all add: wait_def_def blank_step_def StepByID_def StubAllowAll_def)

section \<open>The resolver contract\<close>

text \<open>
  The interface promises that per-request overrides take precedence over the
  underlying source. A resolver may keep state of its own.
\<close>

locale override_resolver =
  fixes ask :: "uuid option \<Rightarrow> string \<Rightarrow> overrides \<Rightarrow> 's \<Rightarrow> (gerr + bool) \<times> 's"
  assumes override_wins: "map_of ovr feature = Some v \<Longrightarrow> ask tenant feature ovr s = (Inr v, s)"
begin

lemma override_ignores_state:
  "map_of ovr feature = Some v \<Longrightarrow> fst (ask tenant feature ovr s) = fst (ask tenant' feature ovr s')"
  by (simp add: override_wins)

lemma override_never_fails:
  "feature \<in> fst ` set ovr \<Longrightarrow> \<exists>v. ask tenant feature ovr s = (Inr v, s)"
  using override_wins by (metis map_of_eq_None_iff not_None_eq)

end

interpretation cached: override_resolver "cached_IsFeatureEnabled inner ttl now" for inner ttl now
  by unfold_locales (simp add: cached_IsFeatureEnabled_def)

section \<open>The cache is never older than its lifetime\<close>

text \<open>
  A history of queries: \<open>inner t\<close> is the wrapped resolver at instant \<open>t\<close>, and each query
  has its instant, tenant, feature and overrides.
\<close>

inductive cache_history ::
  "(gotime \<Rightarrow> resolver) \<Rightarrow> duration \<Rightarrow> gotime \<Rightarrow> feature_cache \<Rightarrow> bool" for inner ttl where
  start: "cache_history inner ttl t []"
| query: "cache_history inner ttl t data \<Longrightarrow> t \<le> now \<Longrightarrow>
    (\<And>u. tenant = Some u \<Longrightarrow> CHR ''|'' \<notin> set u \<and> u \<noteq> ''platform'') \<Longrightarrow>
    cache_history inner ttl now
      (snd (cached_IsFeatureEnabled (inner now) ttl now tenant feature ovr data))"

definition tenant_ok :: "uuid option \<Rightarrow> bool" where
  "tenant_ok tenant \<longleftrightarrow> (\<forall>u. tenant = Some u \<longrightarrow> CHR ''|'' \<notin> set u \<and> u \<noteq> ''platform'')"

lemma cacheKey_inj:
  assumes "cacheKey t f = cacheKey t' f'" and "tenant_ok t" and "tenant_ok t'"
  shows "t = t' \<and> f = f'"
proof -
  define name where "name = case_option ''platform'' (id :: uuid \<Rightarrow> uuid)"
  have key: "cacheKey x g = name x @ CHR ''|'' # g" for x g
    by (cases x) (simp_all add: cacheKey_def name_def)
  have bar: "CHR ''|'' \<notin> set (name x)" if "tenant_ok x" for x
    using that by (cases x) (auto simp: tenant_ok_def name_def)
  have "name t = name t' \<and> f = f'"
    by (rule append_sep_inj [OF bar bar, OF assms(2,3)]) (use assms(1) in \<open>simp only: key\<close>)
  then show ?thesis
    using assms(2,3) by (cases t; cases t') (auto simp: tenant_ok_def name_def)
qed

definition entries_fresh :: "(gotime \<Rightarrow> resolver) \<Rightarrow> duration \<Rightarrow> gotime \<Rightarrow> feature_cache \<Rightarrow> bool" where
  "entries_fresh inner ttl t data \<longleftrightarrow>
     (\<forall>tenant feature e. tenant_ok tenant \<and> map_of data (cacheKey tenant feature) = Some e \<longrightarrow>
        (\<exists>asked \<le> t. entry_expires e = asked + ttl \<and>
           inner asked tenant feature [] = Inr (entry_value e)))"

lemma entries_fresh_later: "entries_fresh inner ttl t data \<Longrightarrow> t \<le> t' \<Longrightarrow> entries_fresh inner ttl t' data"
  unfolding entries_fresh_def by (meson order_trans)

lemma entries_fresh_add:
  assumes "entries_fresh inner ttl now data" and "tenant_ok tenant"
    and "inner now tenant feature [] = Inr b"
  shows "entries_fresh inner ttl now (AList.update (cacheKey tenant feature)
    \<lparr>entry_value = b, entry_expires = now + ttl\<rparr> data)"
  using assms by (auto simp: entries_fresh_def dest: cacheKey_inj)

lemma cache_history_fresh: "cache_history inner ttl t data \<Longrightarrow> entries_fresh inner ttl t data"
proof (induction rule: cache_history.induct)
  case (start t)
  show ?case by (simp add: entries_fresh_def)
next
  case (query t data now tenant feature ovr)
  then have fresh: "entries_fresh inner ttl now data" and "tenant_ok tenant"
    by (auto intro: entries_fresh_later simp: tenant_ok_def)
  then show ?case
    by (auto simp: cached_IsFeatureEnabled_def Let_def entries_fresh_add split: option.split sum.split)
qed

text \<open>
  Whatever was asked before, an answer of the licensing cache that no override decides is
  one the wrapped resolver gave for that tenant and feature less than one lifetime ago
  (at the current instant, if the lifetime is not positive).
\<close>

theorem cached_answer_fresh:
  assumes "cache_history inner ttl t data" and "t \<le> now" and "tenant_ok tenant"
    and "map_of ovr feature = None"
    and "fst (cached_IsFeatureEnabled (inner now) ttl now tenant feature ovr data) = Inr v"
  shows "\<exists>asked \<le> now. (asked = now \<or> now < asked + ttl) \<and> inner asked tenant feature [] = Inr v"
proof (cases "inner now tenant feature [] = Inr v")
  case False
  then obtain e where e: "map_of data (cacheKey tenant feature) = Some e"
    and due: "now < entry_expires e" "entry_value e = v"
    using assms(4,5)
    by (auto simp: cached_IsFeatureEnabled_def Let_def split: option.splits if_splits sum.splits)
  then obtain asked where "asked \<le> t" "entry_expires e = asked + ttl"
    "inner asked tenant feature [] = Inr (entry_value e)"
    using cache_history_fresh [OF assms(1)] assms(3) unfolding entries_fresh_def by blast
  then show ?thesis using due assms(2) by (intro exI [of _ asked]) auto
qed auto

text \<open>A source that enables the feature until instant 100.\<close>

definition sunset :: "gotime \<Rightarrow> resolver" where
  "sunset t tenant feature ovr = Inr (t < 100)"

theorem cached_answer_fresh_witness:
  "\<exists>asked \<le> 120. (asked = 120 \<or> 120 < asked + 60) \<and> sunset asked None ''wf.timers'' [] = Inr True"
proof -
  let ?d = "snd (cached_IsFeatureEnabled (sunset 90) 60 90 None ''wf.timers'' [] [])"
  have "cache_history sunset 60 90 ?d"
    by (rule cache_history.query [OF cache_history.start order_refl]) simp
  moreover have "fst (cached_IsFeatureEnabled (sunset 120) 60 120 None ''wf.timers'' [] ?d) = Inr True"
    by (simp add: cached_IsFeatureEnabled_def sunset_def cacheKey_def)
  ultimately show ?thesis
    by (intro cached_answer_fresh [where t = 90 and now = 120 and ttl = 60 and ovr = "[]"])
      (simp_all add: tenant_ok_def)
qed

end
