(* ===== verification/Runtime.thy ===== *)
theory Runtime
  imports Store_Properties Rules Licensing
begin

text \<open>
  The world the engine runs in: the store, the messages it has published, the
  dispatches it has sent, the clocks and the stream of fresh UUIDs; and the environment,
  everything the engine calls that is not code of this repository (cel-go, uuid, the
  network, time and number parsing) or that the embedder wires in (publisher,
  dispatchers, emitter, secrets, license resolver). Verbs and the coordinator are functions from
  a world to a result and a world.
\<close>

section \<open>Messages\<close>

text \<open>\<^verbatim>\<open>ActionPayload\<close> and \<^verbatim>\<open>CompensationPayload\<close>, kept as values rather than JSON bytes.\<close>

datatype payload =
    ActionPayload (pl_run: string) (pl_step: string) (pl_attempt: int) (pl_key: string)
      (pl_action: string) (pl_inputs: gomap) (pl_dry: bool)
  | CompensationPayload (pl_run: string) (pl_step: string) (pl_action: string)
      (pl_inputs: gomap) (pl_dry: bool)

record http_req =
  req_method :: string
  req_url :: string
  req_headers :: "(string \<times> string) list"
  req_body :: "val option"
  req_timeout :: duration

record http_resp =
  resp_status :: int
  resp_headers :: "(string \<times> string list) list"
  resp_body :: string
  resp_json :: "val option" \<comment> \<open>what json.Unmarshal makes of the body\<close>

datatype dispatch =
    ToExchange string payload
  | ToURL string payload
  | ToQueue string payload
  | ToHTTP http_req
  | ToEvent string "(string \<times> string) list" gomap

section \<open>World and environment\<close>

record world =
  st :: mem_store
  queue :: "string list" \<comment> \<open>run ids published on saga.advance, in order\<close>
  outbox :: "dispatch list"
  draws :: nat \<comment> \<open>how many UUIDs have been drawn\<close>
  clk :: gotime \<comment> \<open>the injected clock\<close>
  wall :: gotime \<comment> \<open>time.Now\<close>

type_synonym sender = "world \<Rightarrow> string \<Rightarrow> payload \<Rightarrow> gerr option"

record env =
  uuid_new :: "nat \<Rightarrow> uuid"
  uuid_parse :: "string \<Rightarrow> gerr + uuid"
  cel :: cel_lib
  parse_duration :: "string \<Rightarrow> gerr + duration"
  parse_rfc3339 :: "string \<Rightarrow> gerr + gotime"
  format_rfc3339 :: "gotime \<Rightarrow> string"
  fmt_sprint :: "val \<Rightarrow> string"
  fl_round :: "rat \<Rightarrow> rat"
  fl_pow :: "rat \<Rightarrow> nat \<Rightarrow> rat" \<comment> \<open>math.Pow\<close>
  int_of_big :: "rat \<Rightarrow> int" \<comment> \<open>conversion of a float64 outside the int64 range\<close>
  jitter_draw :: "world \<Rightarrow> rat"
  sha256_hex :: "string \<Rightarrow> string"
  hmac_hex :: "string \<Rightarrow> val \<Rightarrow> string"
  ctx_err :: "world \<Rightarrow> gerr option"
  publisher :: "(world \<Rightarrow> string \<Rightarrow> gerr option) option"
  secrets :: "(string \<Rightarrow> gerr + string) option"
  bad_request :: "string \<Rightarrow> string \<Rightarrow> gerr option"
  http_do :: "world \<Rightarrow> http_req \<Rightarrow> gerr + http_resp"
  emitter :: "(string \<Rightarrow> (string \<times> string) list \<Rightarrow> gomap \<Rightarrow> world \<Rightarrow> gerr option \<times> world) option"

type_synonym handler = "saga_run \<Rightarrow> step \<Rightarrow> world \<Rightarrow> (gerr + gomap) \<times> world"

section \<open>Effects\<close>

definition fresh :: "env \<Rightarrow> world \<Rightarrow> uuid \<times> world" where
  "fresh e w = (uuid_new e (draws w), w\<lparr>draws := Suc (draws w)\<rparr>)"

text \<open>A store method that can fail: the error, if any, and the world after it.\<close>

definition try_store :: "(mem_store \<Rightarrow> gerr + mem_store) \<Rightarrow> world \<Rightarrow> gerr option \<times> world" where
  "try_store f w = (case f (st w) of Inl err \<Rightarrow> (Some err, w) | Inr s \<Rightarrow> (None, w\<lparr>st := s\<rparr>))"

definition do_store :: "(mem_store \<Rightarrow> mem_store) \<Rightarrow> world \<Rightarrow> world" where
  "do_store f w = w\<lparr>st := f (st w)\<rparr>"

text \<open>\<^verbatim>\<open>_ = c.store.F(...)\<close>\<close>

abbreviation ignore :: "gerr option \<times> world \<Rightarrow> world" where
  "ignore \<equiv> snd"

text \<open>\<^verbatim>\<open>AppendEvent(ctx, NewEvent(...))\<close> with optional metadata.\<close>

definition emit ::
  "env \<Rightarrow> uuid \<Rightarrow> string \<Rightarrow> int \<Rightarrow> event_type \<Rightarrow> string \<Rightarrow> gomap \<Rightarrow> world \<Rightarrow> world" where
  "emit e runID stepID attempt ty actor meta w =
     (let (i, w1) = fresh e w
      in do_store (AppendEvent ((NewEvent i (wall w1) runID stepID attempt ty actor)
                                  \<lparr>ev_metadata := meta\<rparr>)) w1)"

text \<open>\<^verbatim>\<open>PublishSagaAdvance\<close> on a configured publisher \<open>p\<close>.\<close>

definition PublishSagaAdvance ::
  "(world \<Rightarrow> string \<Rightarrow> gerr option) \<Rightarrow> string \<Rightarrow> world \<Rightarrow> gerr option \<times> world" where
  "PublishSagaAdvance p runID w =
     (case p w runID of
        Some err \<Rightarrow> (Some err, w)
      | None \<Rightarrow> (None, w\<lparr>queue := queue w @ [runID]\<rparr>))"

definition send :: "dispatch \<Rightarrow> world \<Rightarrow> world" where
  "send d w = w\<lparr>outbox := outbox w @ [d]\<rparr>"

section \<open>Numbers\<close>

definition rat_trunc :: "rat \<Rightarrow> int" where
  "rat_trunc q = (if q \<ge> 0 then \<lfloor>q\<rfloor> else - \<lfloor>- q\<rfloor>)"

definition int64_max :: int where
  "int64_max = 2 ^ 63 - 1"

text \<open>\<^verbatim>\<open>int64(f)\<close> and \<^verbatim>\<open>int(f)\<close>: truncation inside the range, platform-defined outside.\<close>

definition int64_of_float :: "env \<Rightarrow> rat \<Rightarrow> int" where
  "int64_of_float e q =
     (let t = rat_trunc q in if - (2 ^ 63) \<le> t \<and> t \<le> int64_max then t else int_of_big e q)"

text \<open>Wrap-around of a signed 64-bit product.\<close>

definition wrap64 :: "int \<Rightarrow> int" where
  "wrap64 x = (x + 2 ^ 63) mod 2 ^ 64 - 2 ^ 63"

lemma wrap64_id: "- (2 ^ 63) \<le> x \<Longrightarrow> x < 2 ^ 63 \<Longrightarrow> wrap64 x = x"
  by (simp add: wrap64_def)

section \<open>What effects leave alone\<close>

lemma emit_frame [simp]:
  "queue (emit e i s a ty act m w) = queue w" "outbox (emit e i s a ty act m w) = outbox w"
  "clk (emit e i s a ty act m w) = clk w" "wall (emit e i s a ty act m w) = wall w"
  "runs (st (emit e i s a ty act m w)) = runs (st w)"
  "defs (st (emit e i s a ty act m w)) = defs (st w)"
  "defsByName (st (emit e i s a ty act m w)) = defsByName (st w)"
  "userTasks (st (emit e i s a ty act m w)) = userTasks (st w)"
  "signals (st (emit e i s a ty act m w)) = signals (st w)"
  "actions (st (emit e i s a ty act m w)) = actions (st w)"
  by (simp_all add: emit_def fresh_def do_store_def AppendEvent_def)

lemma emit_events:
  "map ev_type (at_key (events (st (emit e i s a ty act m w))) j) =
     map ev_type (at_key (events (st w)) j) @ (if j = i then [ty] else [])"
  by (simp add: emit_def fresh_def do_store_def AppendEvent_def NewEvent_def at_key_update)

lemma try_store_frame [simp]:
  "queue (snd (try_store f w)) = queue w" "outbox (snd (try_store f w)) = outbox w"
  "clk (snd (try_store f w)) = clk w" "wall (snd (try_store f w)) = wall w"
  "draws (snd (try_store f w)) = draws w"
  by (simp_all add: try_store_def split: sum.split)

lemma try_store_None_iff:
  "try_store f w = (None, w') \<longleftrightarrow> (\<exists>s. f (st w) = Inr s \<and> w' = w\<lparr>st := s\<rparr>)"
  by (auto simp: try_store_def split: sum.splits)

lemma try_store_Some_iff:
  "try_store f w = (Some err, w') \<longleftrightarrow> f (st w) = Inl err \<and> w' = w"
  by (auto simp: try_store_def split: sum.splits)

lemma PublishSagaAdvance_frame [simp]:
  "st (snd (PublishSagaAdvance p i w)) = st w" "outbox (snd (PublishSagaAdvance p i w)) = outbox w"
  "clk (snd (PublishSagaAdvance p i w)) = clk w" "draws (snd (PublishSagaAdvance p i w)) = draws w"
  by (simp_all add: PublishSagaAdvance_def split: option.split)

lemma send_frame [simp]:
  "st (send d w) = st w" "queue (send d w) = queue w" "clk (send d w) = clk w"
  "draws (send d w) = draws w" "outbox (send d w) = outbox w @ [d]"
  by (simp_all add: send_def)

lemma fresh_frame [simp]:
  "st (snd (fresh e w)) = st w" "queue (snd (fresh e w)) = queue w"
  "outbox (snd (fresh e w)) = outbox w" "clk (snd (fresh e w)) = clk w"
  "draws (snd (fresh e w)) = Suc (draws w)" "fst (fresh e w) = uuid_new e (draws w)"
  by (simp_all add: fresh_def)

end
