(* ===== verification/Verbs_Data.thy ===== *)
theory Verbs_Data
  imports Runtime
begin

text \<open>
  The verbs that compute on a run's variables and the ones that only append an audit event:
  noop, end, error, set_var, transform, merge, filter, map, assert, log, metric_emit,
  decision, switch and while (\<^verbatim>\<open>engine/verbs/*.go\<close>). A verb is a \<open>handler\<close>: it reads the run
  as the coordinator loaded it and returns its output map or an error.
\<close>

section \<open>Expressions\<close>

text \<open>Compile and evaluate with the verb's own wrapping of the two errors.\<close>

definition cel_run ::
  "env \<Rightarrow> string list \<Rightarrow> gomap \<Rightarrow> string \<Rightarrow> string \<Rightarrow> string \<Rightarrow> gerr + val" where
  "cel_run e names vars expr compileFmt evalFmt =
     (case build_program (cel e) names expr of
        Inl err \<Rightarrow> Inl (Errorf compileFmt [AErr err])
      | Inr prg \<Rightarrow>
          (case Eval prg vars of
             Inl err \<Rightarrow> Inl (Errorf evalFmt [AErr err])
           | Inr v \<Rightarrow> Inr v))"

definition keysOf :: "gomap \<Rightarrow> string list" where
  "keysOf m = map fst m"

section \<open>Verbs\<close>

definition NoopVerb :: handler where
  "NoopVerb run s w = (Inr [], w)"

definition EndVerb :: handler where
  "EndVerb run s w = (Inr [], w)"

definition ErrorVerb :: handler where
  "ErrorVerb run s w =
     (let code = get_str (step_inputs s) ''code'';
          msg = get_str (step_inputs s) ''message''
      in if code = [] then (Inl (Errorf ''error: code required'' []), w)
         else if msg = [] then (Inl (Errorf ''%s'' [AStr code]), w)
         else (Inl (Errorf ''%s: %s'' [AStr code, AStr msg]), w))"

definition SetVarVerb :: "env \<Rightarrow> handler" where
  "SetVarVerb e run s w =
     (let outVar = get_str (step_inputs s) ''out_var'';
          vars = run_variables run
      in if outVar = [] then (Inl (Errorf ''set_var: out_var required'' []), w)
         else case map_of (step_inputs s) ''expr'' of
           Some _ \<Rightarrow>
             (let expr = get_str (step_inputs s) ''expr''
              in if expr = []
                 then (Inl (Errorf ''set_var: expr must be a non-empty string'' []), w)
                 else case cel_run e (keysOf vars) vars expr
                             ''set_var: compile: %w'' ''set_var: eval: %w'' of
                   Inl err \<Rightarrow> (Inl err, w)
                 | Inr v \<Rightarrow> (Inr [(outVar, v)], w))
         | None \<Rightarrow>
             (case map_of (step_inputs s) ''value'' of
                Some v \<Rightarrow> (Inr [(outVar, v)], w)
              | None \<Rightarrow> (Inl (Errorf ''set_var: one of value or expr is required'' []), w)))"

definition TransformVerb :: "env \<Rightarrow> handler" where
  "TransformVerb e run s w =
     (let expr = get_str (step_inputs s) ''expr'';
          outVar = get_str (step_inputs s) ''out_var'';
          vars = run_variables run
      in if expr = [] then (Inl (Errorf ''transform: expr required'' []), w)
         else if outVar = [] then (Inl (Errorf ''transform: out_var required'' []), w)
         else case cel_run e (keysOf vars) vars expr
                     ''transform: compile: %w'' ''transform: eval: %w'' of
           Inl err \<Rightarrow> (Inl err, w)
         | Inr v \<Rightarrow> (Inr [(outVar, v)], w))"

function deepFlatten :: "string \<Rightarrow> gomap \<Rightarrow> gomap \<Rightarrow> gomap" where
  "deepFlatten pre [] out = out"
| "deepFlatten pre ((k, v) # rest) out =
     (let fullKey = pre @ ''.'' @ k
      in case v of
           VMap nested \<Rightarrow> deepFlatten pre rest (deepFlatten fullKey nested out)
         | _ \<Rightarrow> deepFlatten pre rest (AList.update fullKey v out))"
  by pat_completeness auto

termination
  by (relation "measure (\<lambda>(pre, m, out). size (VMap m))") auto

definition MergeVerb :: "env \<Rightarrow> handler" where
  "MergeVerb e run s w =
     (let expr = get_str (step_inputs s) ''from'';
          into = get_str (step_inputs s) ''into'';
          vars = run_variables run
      in if expr = [] \<or> into = [] then (Inl (Errorf ''merge: from and into required'' []), w)
         else case cel_run e (keysOf vars) vars expr ''merge: compile: %w'' ''merge: eval: %w'' of
           Inl err \<Rightarrow> (Inl err, w)
         | Inr (VMap fromMap) \<Rightarrow> (Inr (deepFlatten into fromMap []), w)
         | Inr v \<Rightarrow> (Inl (Errorf ''merge: from did not evaluate to a string-keyed map, got %T''
                        [AStr (go_type v)]), w))"

text \<open>
  The element loops of filter and map. The activation holds the run's variables
  with the element bound as \<^verbatim>\<open>_\<close>, unless a run variable of that name shadows it.
\<close>

definition bind_element :: "gomap \<Rightarrow> val \<Rightarrow> gomap" where
  "bind_element vars x =
     (if map_of vars ''_'' \<noteq> None then vars else AList.update ''_'' x vars)"

fun filter_loop :: "env \<Rightarrow> cel_inner \<Rightarrow> gomap \<Rightarrow> val list \<Rightarrow> val list \<Rightarrow> gerr + val list" where
  "filter_loop e prg vars out [] = Inr out"
| "filter_loop e prg vars out (x # xs) =
     (case Eval prg (bind_element vars x) of
        Inl err \<Rightarrow> Inl (Errorf ''filter: eval pred for element %v: %w''
                     [AStr (fmt_sprint e x), AErr err])
      | Inr v \<Rightarrow> filter_loop e prg vars (if val_true v then out @ [x] else out) xs)"

fun map_loop :: "env \<Rightarrow> cel_inner \<Rightarrow> gomap \<Rightarrow> val list \<Rightarrow> val list \<Rightarrow> gerr + val list" where
  "map_loop e prg vars out [] = Inr out"
| "map_loop e prg vars out (x # xs) =
     (case Eval prg (bind_element vars x) of
        Inl err \<Rightarrow> Inl (Errorf ''map: eval for element %v: %w'' [AStr (fmt_sprint e x), AErr err])
      | Inr v \<Rightarrow> map_loop e prg vars (out @ [v]) xs)"

definition FilterVerb :: "env \<Rightarrow> handler" where
  "FilterVerb e run s w =
     (let listExpr = get_str (step_inputs s) ''list'';
          predExpr = get_str (step_inputs s) ''expr'';
          outVar = get_str (step_inputs s) ''out_var'';
          vars = run_variables run
      in if listExpr = [] \<or> predExpr = [] \<or> outVar = []
         then (Inl (Errorf ''filter: list, expr, out_var required'' []), w)
         else case cel_run e (keysOf vars) vars listExpr
                     ''filter: compile list: %w'' ''filter: eval list: %w'' of
           Inl err \<Rightarrow> (Inl err, w)
         | Inr (VList xs) \<Rightarrow>
             (case build_program (cel e) (keysOf vars @ [''_'']) predExpr of
                Inl err \<Rightarrow> (Inl (Errorf ''filter: compile pred: %w'' [AErr err]), w)
              | Inr prg \<Rightarrow>
                  (case filter_loop e prg vars [] xs of
                     Inl err \<Rightarrow> (Inl err, w)
                   | Inr out \<Rightarrow> (Inr [(outVar, VList out)], w)))
         | Inr v \<Rightarrow> (Inl (Errorf ''filter: list expr did not produce []any, got %T''
                        [AStr (go_type v)]), w))"

definition MapVerb :: "env \<Rightarrow> handler" where
  "MapVerb e run s w =
     (let listExpr = get_str (step_inputs s) ''list'';
          mapExpr = get_str (step_inputs s) ''expr'';
          outVar = get_str (step_inputs s) ''out_var'';
          vars = run_variables run
      in if listExpr = [] \<or> mapExpr = [] \<or> outVar = []
         then (Inl (Errorf ''map: list, expr, out_var required'' []), w)
         else case cel_run e (keysOf vars) vars listExpr
                     ''map: compile list: %w'' ''map: eval list: %w'' of
           Inl err \<Rightarrow> (Inl err, w)
         | Inr (VList xs) \<Rightarrow>
             (case build_program (cel e) (keysOf vars @ [''_'']) mapExpr of
                Inl err \<Rightarrow> (Inl (Errorf ''map: compile expr: %w'' [AErr err]), w)
              | Inr prg \<Rightarrow>
                  (case map_loop e prg vars [] xs of
                     Inl err \<Rightarrow> (Inl err, w)
                   | Inr out \<Rightarrow> (Inr [(outVar, VList out)], w)))
         | Inr v \<Rightarrow> (Inl (Errorf ''map: list expr did not produce []any, got %T''
                        [AStr (go_type v)]), w))"

definition AssertVerb :: "env \<Rightarrow> handler" where
  "AssertVerb e run s w =
     (let expr = get_str (step_inputs s) ''expr'';
          code0 = get_str (step_inputs s) ''code'';
          code = (if code0 = [] then ''assertion_failed'' else code0);
          vars = run_variables run
      in if expr = [] then (Inl (Errorf ''assert: expr required'' []), w)
         else case cel_run e (keysOf vars) vars expr ''assert: compile: %w'' ''assert: eval: %w'' of
           Inl err \<Rightarrow> (Inl err, w)
         | Inr v \<Rightarrow> (if \<not> val_true v
                    then (Inl (Errorf ''%s: %q is false'' [AStr code, AStr expr]), w)
                    else (Inr [], w)))"

text \<open>The in-memory \<^verbatim>\<open>AppendEvent\<close> always succeeds, so the append-error branches are empty.\<close>

definition LogVerb :: "env \<Rightarrow> handler" where
  "LogVerb e run s w =
     (let msg = get_str (step_inputs s) ''message'';
          level0 = get_str (step_inputs s) ''level'';
          level = (if level0 = [] then ''info'' else level0)
      in if msg = [] then (Inl (Errorf ''log: message required'' []), w)
         else (Inr [], emit e (run_id run) (step_id s) 0 EventLog ''workflow''
                 [(''message'', VStr msg), (''level'', VStr level)] w))"

definition MetricEmitVerb :: "env \<Rightarrow> handler" where
  "MetricEmitVerb e run s w =
     (let name = get_str (step_inputs s) ''name''
      in if name = [] then (Inl (Errorf ''metric_emit: name required'' []), w)
         else case map_of (step_inputs s) ''value'' of
           None \<Rightarrow> (Inl (Errorf ''metric_emit: value required'' []), w)
         | Some value \<Rightarrow>
             (Inr [], emit e (run_id run) (step_id s) 0 EventMetric ''workflow''
                [(''name'', VStr name), (''value'', value),
                 (''labels'', VMap (or_default (get_map (step_inputs s) ''labels'') []))] w))"

fun map_inputs :: "gomap \<Rightarrow> gomap \<Rightarrow> gomap \<Rightarrow> gerr + gomap" where
  "map_inputs vars out [] = Inr out"
| "map_inputs vars out ((ruleKey, runVarAny) # rest) =
     (let runVar = (case runVarAny of VStr x \<Rightarrow> x | _ \<Rightarrow> [])
      in if runVar = []
         then Inl (Errorf ''decision: inputs_map[%s] must be a string variable name'' [AStr ruleKey])
         else map_inputs vars (AList.update ruleKey (or_default (map_of vars runVar) VNil) out) rest)"

definition audit_val :: "evaluated_row list \<Rightarrow> val" where
  "audit_val audit =
     VMaps (map (\<lambda>a. [(''index'', VInt (audit_index a)), (''when'', VStr (audit_when a)),
                      (''matched'', VBool (audit_matched a))]) audit)"

definition DecisionVerb :: "env \<Rightarrow> handler" where
  "DecisionVerb e run s w =
     (let ruleID = get_str (step_inputs s) ''rule_id''
      in if ruleID = [] then (Inl (Errorf ''decision: rule_id required'' []), w)
         else case GetPublishedRuleByID (st w) ruleID of
           Inl err \<Rightarrow> (Inl (Errorf ''decision: rule_not_found: %w'' [AErr err]), w)
         | Inr def \<Rightarrow>
             (case (case get_map (step_inputs s) ''inputs_map'' of
                      None \<Rightarrow> Inr (run_variables run)
                    | Some im \<Rightarrow> map_inputs (run_variables run) [] im) of
                Inl err \<Rightarrow> (Inl err, w)
              | Inr inputs \<Rightarrow>
                  (case Evaluate (cel e) def inputs of
                     (Inl err, audit) \<Rightarrow> (Inl (Errorf ''decision: %w'' [AErr err]), w)
                   | (Inr out, audit) \<Rightarrow>
                       (Inr out, emit e (run_id run) (step_id s) 0 EventRuleEvaluated ''workflow''
                          [(''rule_id'', VStr ruleID), (''audit'', audit_val audit)] w))))"

definition SwitchVerb :: "env \<Rightarrow> handler" where
  "SwitchVerb e run s w =
     (let expr = get_str (step_inputs s) ''expr'';
          vars = run_variables run
      in if expr = [] then (Inl (Errorf ''switch: expr required'' []), w)
         else case cel_run e (keysOf vars) vars expr
                     ''switch: compile: %w'' ''switch: CEL eval: %w'' of
           Inl err \<Rightarrow> (Inl err, w)
         | Inr (VStr key) \<Rightarrow> (Inr [(''branch'', VStr key)], w)
         | Inr v \<Rightarrow> (Inl (Errorf ''switch: expr must evaluate to string, got %T''
                        [AStr (go_type v)]), w))"

section \<open>While\<close>

definition defaultMaxIterations :: int where
  "defaultMaxIterations = 100"

definition hardMaxIterations :: int where
  "hardMaxIterations = 10000"

definition while_cap :: "env \<Rightarrow> step \<Rightarrow> int" where
  "while_cap e s =
     (let m = (case get_float (step_inputs s) ''max_iterations'' of
                 Some mi \<Rightarrow> int64_of_float e mi | None \<Rightarrow> defaultMaxIterations);
          m = (if m > hardMaxIterations then hardMaxIterations else m)
      in if m < 1 then defaultMaxIterations else m)"

definition while_iter :: "env \<Rightarrow> gomap \<Rightarrow> string \<Rightarrow> int" where
  "while_iter e vars stepID =
     (case get_map vars ''_while'' of
        None \<Rightarrow> 0
      | Some whileMap \<Rightarrow>
          (case get_map whileMap stepID of
             None \<Rightarrow> 0
           | Some stepMap \<Rightarrow>
               (case map_of stepMap ''iter'' of
                  Some (VInt64 v) \<Rightarrow> v
                | Some (VFloat v) \<Rightarrow> int64_of_float e v
                | _ \<Rightarrow> 0)))"

definition WhileVerb :: "env \<Rightarrow> handler" where
  "WhileVerb e run s w =
     (let cond = get_str (step_inputs s) ''condition'';
          maxIter = while_cap e s;
          vars = run_variables run;
          iter = while_iter e vars (step_id s)
      in if cond = [] then (Inl (Errorf ''while: condition required'' []), w)
         else if iter \<ge> maxIter
         then (Inl (Errorf ''while: max_iterations %d reached'' [AInt maxIter]), w)
         else case cel_run e (keysOf vars) vars cond ''while: compile: %w'' ''while: eval: %w'' of
           Inl err \<Rightarrow> (Inl err, w)
         | Inr v \<Rightarrow>
             (Inr [(''branch'', VStr (if val_true v then ''continue'' else ''exit'')),
                   (''_while.'' @ step_id s @ ''.iter'', VInt64 (iter + 1))], w))"

section \<open>The loop counter\<close>

text \<open>
  A while loop as the engine runs it: each round executes the verb on the current
  variables, merges its output as \<^verbatim>\<open>UpdateRunVariables\<close> does, and then the body's steps
  change the variables by \<open>body\<close>. \<open>None\<close> means that the verb refused to go on.
\<close>

fun while_rounds ::
  "env \<Rightarrow> saga_run \<Rightarrow> step \<Rightarrow> world \<Rightarrow> (nat \<Rightarrow> gomap \<Rightarrow> gomap) \<Rightarrow> nat \<Rightarrow> gomap \<Rightarrow> gomap option" where
  "while_rounds e run s w body 0 vars = Some vars"
| "while_rounds e run s w body (Suc n) vars =
     (case fst (WhileVerb e (run\<lparr>run_variables := vars\<rparr>) s w) of
        Inl _ \<Rightarrow> None
      | Inr out \<Rightarrow> while_rounds e run s w body n (body n (merge_vars vars out)))"

lemma while_cap_bounds: "1 \<le> while_cap e s \<and> while_cap e s \<le> 10000"
  by (auto simp: while_cap_def Let_def hardMaxIterations_def defaultMaxIterations_def)

lemma while_iter_path:
  "while_iter e vars i =
     (case get_path vars [''_while'', i, ''iter''] of
        Some (VInt64 v) \<Rightarrow> v | Some (VFloat v) \<Rightarrow> int64_of_float e v | _ \<Rightarrow> 0)"
  by (auto simp: while_iter_def get_map_def split: option.splits val.splits)

lemma ascii_append [simp]: "ascii (a @ b) \<longleftrightarrow> ascii a \<and> ascii b"
  by (simp add: ascii_def)

lemma split_on_append_gen:
  "split_on c (s @ c # t) = split_on c s @ split_on c t"
  by (induction s) (auto split: list.splits)

lemma while_key_path:
  assumes "ascii i"
  shows "applyDottedKey vars (''_while.'' @ i @ ''.iter'') v =
    set_path vars (''_while'' # split_on (CHR ''.'') i @ [''iter'']) v"
proof -
  have asc: "ascii (''_while.'' @ i @ ''.iter'')" using assms by (simp add: ascii_def)
  have "split_on (CHR ''.'') (''_while.'' @ i @ ''.iter'') =
      ''_while'' # split_on (CHR ''.'') i @ [''iter'']"
    using split_on_append_gen [of "CHR ''.''" "''_while''" "i @ CHR ''.'' # ''iter''"]
      split_on_append_gen [of "CHR ''.''" i "''iter''"] by simp
  then show ?thesis by (simp only: applyDottedKey_def dotted_loop_split [OF asc])
qed

lemma merge_while_output:
  assumes "ascii i"
  shows "merge_vars vars [(''branch'', b), (''_while.'' @ i @ ''.iter'', v)] =
    set_path (set_path vars [''branch''] b) (''_while'' # split_on (CHR ''.'') i @ [''iter'']) v"
proof -
  have "applyDottedKey vars ''branch'' b = set_path vars [''branch''] b"
    by (simp add: applyDottedKey_def)
  then show ?thesis using while_key_path [OF assms] by (simp add: merge_vars_def)
qed

lemma while_verb_cases:
  "fst (WhileVerb e (run\<lparr>run_variables := vars\<rparr>) s w) = Inr out \<Longrightarrow>
     while_iter e vars (step_id s) < while_cap e s \<and>
     (\<exists>b. out = [(''branch'', VStr b),
                 (''_while.'' @ step_id s @ ''.iter'', VInt64 (while_iter e vars (step_id s) + 1))])"
  by (auto simp: WhileVerb_def Let_def split: if_splits sum.splits)

lemma while_counts:
  assumes "ascii (step_id s)" and "CHR ''.'' \<notin> set (step_id s)"
    and "fst (WhileVerb e (run\<lparr>run_variables := vars\<rparr>) s w) = Inr out"
  shows "while_iter e (merge_vars vars out) (step_id s) = while_iter e vars (step_id s) + 1"
proof -
  obtain b where out: "out = [(''branch'', VStr b),
      (''_while.'' @ step_id s @ ''.iter'', VInt64 (while_iter e vars (step_id s) + 1))]"
    using while_verb_cases [OF assms(3)] by blast
  have "split_on (CHR ''.'') (step_id s) = [step_id s]" using assms(2) by (rule split_on_no_sep)
  then have "get_path (merge_vars vars out) [''_while'', step_id s, ''iter''] =
      Some (VInt64 (while_iter e vars (step_id s) + 1))"
    using get_set_path [of "[''_while'', step_id s, ''iter'']"]
    unfolding out merge_while_output [OF assms(1)] by (simp del: set_path.simps get_path.simps)
  then show ?thesis by (simp add: while_iter_path)
qed

text \<open>
  A while loop is bounded. For a step whose id is ASCII without dots, as long as the loop body
  does not lower the loop's counter, the verb lets through at most the configured cap
  (at least 1, at most 10000) minus the rounds already counted, whatever the condition says.
\<close>

theorem while_bounded:
  assumes "ascii (step_id s)" and "CHR ''.'' \<notin> set (step_id s)"
    and "\<forall>n v. while_iter e v (step_id s) \<le> while_iter e (body n v) (step_id s)"
    and "while_iter e vars (step_id s) \<le> while_cap e s"
    and "while_rounds e run s w body n vars \<noteq> None"
  shows "int n \<le> while_cap e s - while_iter e vars (step_id s)
    \<and> 1 \<le> while_cap e s \<and> while_cap e s \<le> 10000"
proof -
  have "int n \<le> while_cap e s - while_iter e vars (step_id s)"
    using assms(4,5)
  proof (induction n arbitrary: vars)
    case (Suc n)
    then obtain out where out: "fst (WhileVerb e (run\<lparr>run_variables := vars\<rparr>) s w) = Inr out"
      and rest: "while_rounds e run s w body n (body n (merge_vars vars out)) \<noteq> None"
      by (auto split: sum.splits)
    let ?next = "body n (merge_vars vars out)"
    have step: "while_iter e vars (step_id s) + 1 \<le> while_iter e ?next (step_id s)"
      using while_counts [OF assms(1,2) out] assms(3) by metis
    show ?case
    proof (cases "while_iter e ?next (step_id s) \<le> while_cap e s")
      case True
      then show ?thesis using Suc.IH [OF True rest] step by simp
    next
      case False
      then have "n = 0"
        using rest while_verb_cases by (cases n) (fastforce split: sum.splits)+
      then show ?thesis using while_verb_cases [OF out] by simp
    qed
  qed simp
  then show ?thesis using while_cap_bounds by simp
qed

text \<open>A library in which every expression of an environment evaluates to true.\<close>

definition true_lib :: cel_lib where
  "true_lib = \<lparr>new_env = (\<lambda>_. None), inner_compile = (\<lambda>_ _. None),
     inner_program = (\<lambda>_ _. Inr (\<lambda>_. Inr (RValue (VBool True))))\<rparr>"

definition test_env :: env where
  "test_env = \<lparr>uuid_new = show_nat, uuid_parse = (\<lambda>s. Inr s), cel = true_lib,
     parse_duration = (\<lambda>_. Inr 5), parse_rfc3339 = (\<lambda>_. Inr 5), format_rfc3339 = show_int,
     fmt_sprint = (\<lambda>_. ''?''), fl_round = (\<lambda>q. q), fl_pow = (\<lambda>b n. b ^ n), int_of_big = (\<lambda>_. 0),
     jitter_draw = (\<lambda>_. 0), sha256_hex = (\<lambda>s. s), hmac_hex = (\<lambda>k _. k), ctx_err = (\<lambda>_. None),
     publisher = Some (\<lambda>_ _. None), secrets = None, bad_request = (\<lambda>_ _. None),
     http_do = (\<lambda>_ _. Inl (ErrCtx ''offline'')), emitter = None\<rparr>"

definition test_world :: world where
  "test_world = \<lparr>st = sample_store, queue = [], outbox = [], draws = 0, clk = 10, wall = 10\<rparr>"

definition loop_step :: "string \<Rightarrow> step" where
  "loop_step i = (blank_step i)\<lparr>step_type := StepTypeWhile,
     step_inputs := [(''condition'', VStr ''go''), (''max_iterations'', VFloat 2)]\<rparr>"

theorem while_bounded_witness:
  "while_rounds test_env (sample_run ''r1'') (loop_step ''l'') test_world (\<lambda>_ v. v) 2 [] \<noteq> None
    \<and> int 2 \<le> while_cap test_env (loop_step ''l'') - while_iter test_env [] ''l''"
proof -
  have cap: "while_cap test_env (loop_step ''l'') = 2"
    by (simp add: while_cap_def loop_step_def blank_step_def get_float_def int64_of_float_def
        rat_trunc_def int64_max_def hardMaxIterations_def)
  have it: "while_iter test_env [] ''l'' = 0" by (simp add: while_iter_def get_map_def)
  have two: "while_rounds test_env (sample_run ''r1'') (loop_step ''l'') test_world (\<lambda>_ v. v) 2 []
      \<noteq> None"
    by (simp add: numeral_2_eq_2 WhileVerb_def Let_def while_iter_def while_cap_def get_float_def
        int64_of_float_def rat_trunc_def int64_max_def hardMaxIterations_def get_map_def cel_run_def build_program_def NewEnv_def Compile_def Eval_def
        test_env_def true_lib_def sample_run_def NewSagaRun_def
        loop_step_def blank_step_def get_str_def merge_vars_def applyDottedKey_def)
  show ?thesis
    using while_bounded [of "loop_step ''l''" test_env "\<lambda>_ v. v" "[]" "sample_run ''r1''" test_world 2]
      two it cap by (simp add: loop_step_def blank_step_def ascii_def)
qed

lemma split_on_dotted:
  assumes "c \<in> set i"
  shows "\<exists>p q ps. split_on c i = p # q # ps \<and> p \<noteq> i"
proof -
  obtain a b where i: "i = a @ c # b" and "c \<notin> set a" using split_list_first [OF assms] by blast
  then have "split_on c i = a # split_on c b" by (simp add: split_on_append)
  moreover obtain q ps where "split_on c b = q # ps" by (cases "split_on c b") auto
  ultimately show ?thesis using i by (intro exI [of _ a] exI [of _ q] exI [of _ ps]) simp
qed

lemma while_dotted_no_count:
  assumes "ascii (step_id s)" and "CHR ''.'' \<in> set (step_id s)"
    and "fst (WhileVerb e (run\<lparr>run_variables := vars\<rparr>) s w) = Inr out"
  shows "while_iter e (merge_vars vars out) (step_id s) = while_iter e vars (step_id s)"
proof -
  obtain b where out: "out = [(''branch'', VStr b),
      (''_while.'' @ step_id s @ ''.iter'', VInt64 (while_iter e vars (step_id s) + 1))]"
    using while_verb_cases [OF assms(3)] by blast
  obtain p q ps where split: "split_on (CHR ''.'') (step_id s) = p # q # ps" and "p \<noteq> step_id s"
    using split_on_dotted [OF assms(2)] by blast
  then have "get_path (merge_vars vars out) [''_while'', step_id s, ''iter''] =
      get_path vars [''_while'', step_id s, ''iter'']"
    unfolding out merge_while_output [OF assms(1)]
    by (subst get_set_path_other, simp, simp, subst get_set_path_other) simp_all
  then show ?thesis by (simp add: while_iter_path)
qed

text \<open>
  With a dot in the step id the cap of a while loop never takes effect. The counter is
  written at the nested path the dots spell but read back under the whole id, so it
  stays where it was, and with a condition that keeps evaluating the verb lets through
  any number of rounds.
\<close>

theorem while_dotted_unbounded:
  assumes "ascii (step_id s)" and "CHR ''.'' \<in> set (step_id s)"
    and "get_str (step_inputs s) ''condition'' = cond" and "cond \<noteq> []"
    and "\<forall>vars. \<exists>v. cel_run e (keysOf vars) vars cond ''while: compile: %w'' ''while: eval: %w'' = Inr v"
    and "while_iter e vars (step_id s) < while_cap e s"
  shows "while_rounds e run s w (\<lambda>_ v. v) n vars \<noteq> None"
  using assms(6)
proof (induction n arbitrary: vars)
  case (Suc n)
  obtain v where "cel_run e (keysOf vars) vars cond ''while: compile: %w'' ''while: eval: %w'' = Inr v"
    using assms(5) by blast
  with Suc.prems assms(3,4) obtain out
    where out: "fst (WhileVerb e (run\<lparr>run_variables := vars\<rparr>) s w) = Inr out"
    by (auto simp: WhileVerb_def Let_def)
  then show ?case using Suc while_dotted_no_count [OF assms(1,2) out] by simp
qed simp

theorem while_dotted_unbounded_witness:
  "while_rounds test_env (sample_run ''r1'') (loop_step ''a.b'') test_world (\<lambda>_ v. v) 20000 [] \<noteq> None"
  by (rule while_dotted_unbounded [where cond = "''go''"])
    (simp_all add: loop_step_def blank_step_def ascii_def get_str_def cel_run_def build_program_def
      NewEnv_def Compile_def Eval_def test_env_def true_lib_def while_iter_def get_map_def
      while_cap_def get_float_def int64_of_float_def rat_trunc_def int64_max_def
      hardMaxIterations_def)

section \<open>List verbs\<close>

lemma filter_loop_spec:
  "filter_loop e prg vars out xs = Inr ys \<longleftrightarrow>
     (\<forall>x \<in> set xs. \<exists>v. Eval prg (bind_element vars x) = Inr v) \<and>
     ys = out @ filter (\<lambda>x. Eval prg (bind_element vars x) = Inr (VBool True)) xs"
proof (induction e prg vars out xs rule: filter_loop.induct)
  case (2 e prg vars out x xs)
  have "val_true v \<longleftrightarrow> v = VBool True" for v by (cases v) (auto simp: val_true_def)
  then show ?case using 2 by (auto split: sum.splits)
qed auto

lemma map_loop_spec:
  "map_loop e prg vars out xs = Inr ys \<longleftrightarrow>
     (\<exists>vs. list_all2 (\<lambda>x v. Eval prg (bind_element vars x) = Inr v) xs vs \<and> ys = out @ vs)"
proof (induction e prg vars out xs rule: map_loop.induct)
  case (2 e prg vars out x xs)
  then show ?case by (auto simp: list_all2_Cons1 split: sum.splits)
qed auto

text \<open>
  The filter and map verbs are the list functions they are named after. When the list
  expression gives a list and the element expression evaluates on every element, filter
  returns exactly the elements on which it is true, in order, and map the list of its
  values; neither changes the world.
\<close>

theorem filter_map_spec:
  assumes "get_str (step_inputs s) ''list'' = le" and "get_str (step_inputs s) ''expr'' = ee"
    and "get_str (step_inputs s) ''out_var'' = ov" and "le \<noteq> []" and "ee \<noteq> []" and "ov \<noteq> []"
    and "build_program (cel e) (keysOf (run_variables run)) le = Inr lp"
    and "Eval lp (run_variables run) = Inr (VList xs)"
    and "build_program (cel e) (keysOf (run_variables run) @ [''_'']) ee = Inr prg"
    and "\<forall>x \<in> set xs. Eval prg (bind_element (run_variables run) x) = Inr (f x)"
  shows "FilterVerb e run s w = (Inr [(ov, VList (filter (\<lambda>x. f x = VBool True) xs))], w)
    \<and> MapVerb e run s w = (Inr [(ov, VList (map f xs))], w)"
proof -
  have "filter_loop e prg (run_variables run) [] xs = Inr (filter (\<lambda>x. f x = VBool True) xs)"
    using assms(10) by (auto simp: filter_loop_spec intro!: filter_cong)
  moreover have "map_loop e prg (run_variables run) [] xs = Inr (map f xs)"
    using assms(10) by (auto simp: map_loop_spec list_all2_conv_all_nth)
  ultimately show ?thesis
    using assms(1-9) by (simp add: FilterVerb_def MapVerb_def cel_run_def)
qed

definition list_step :: step where
  "list_step = (blank_step ''f'')\<lparr>step_inputs := [(''list'', VStr ''xs''), (''expr'', VStr ''_''),
     (''out_var'', VStr ''ys'')]\<rparr>"

theorem filter_map_spec_witness:
  "FilterVerb (test_env\<lparr>cel := demo_lib\<rparr>)
      ((sample_run ''r1'')\<lparr>run_variables := [(''xs'', VList [VBool True, VBool False])]\<rparr>) list_step
      test_world
    = (Inr [(''ys'', VList [VBool True])], test_world)"
proof -
  let ?run = "(sample_run ''r1'')\<lparr>run_variables := [(''xs'', VList [VBool True, VBool False])]\<rparr>"
  let ?var = "\<lambda>n vars. case map_of vars n of
      None \<Rightarrow> Inl (Errorf ''no such attribute'' []) | Some v \<Rightarrow> Inr (RValue v)"
  have "FilterVerb (test_env\<lparr>cel := demo_lib\<rparr>) ?run list_step test_world =
      (Inr [(''ys'', VList (filter (\<lambda>x. x = VBool True) [VBool True, VBool False]))], test_world)
    \<and> MapVerb (test_env\<lparr>cel := demo_lib\<rparr>) ?run list_step test_world =
      (Inr [(''ys'', VList (map (\<lambda>x. x) [VBool True, VBool False]))], test_world)"
    by (rule filter_map_spec [where le = "''xs''" and ee = "''_''" and lp = "?var ''xs''"
          and prg = "?var ''_''" and xs = "[VBool True, VBool False]"])
      (simp_all add: list_step_def blank_step_def get_str_def build_program_def NewEnv_def
        Compile_def Eval_def demo_lib_def bind_element_def keysOf_def sample_run_def
        NewSagaRun_def)
  then show ?thesis by simp
qed

end
