(* ===== verification/Verbs_Wait.thy ===== *)
theory Verbs_Wait
  imports Verbs_Data
begin

text \<open>
  The verbs that suspend a run until a time, a signal, an event or a person answers, with
  the sender of signals and the try/catch marker (\<^verbatim>\<open>engine/verbs/wait_*.go\<close>,
  \<^verbatim>\<open>manual_approval.go\<close>, \<^verbatim>\<open>collect_input.go\<close>, \<^verbatim>\<open>emit_signal.go\<close>, \<^verbatim>\<open>try_catch.go\<close>).
\<close>

section \<open>Time waits\<close>

definition WaitDurationVerb :: "env \<Rightarrow> handler" where
  "WaitDurationVerb e run s w =
     (let dStr = get_str (step_inputs s) ''duration''
      in if dStr = [] then (Inl (Errorf ''wait_duration: duration required'' []), w)
         else case parse_duration e dStr of
           Inl err \<Rightarrow> (Inl (Errorf ''wait_duration: parse %q: %w'' [AStr dStr, AErr err]), w)
         | Inr d \<Rightarrow>
             (if d < 0
              then (Inl (Errorf ''wait_duration: negative duration not allowed: %s'' [AStr dStr]), w)
              else case try_store (SetPausedWithWakeup (run_id run) (clk w + d)) w of
                (Some err, w') \<Rightarrow> (Inl (Errorf ''wait_duration: persist wakeup: %w'' [AErr err]), w')
              | (None, w') \<Rightarrow> (Inl ErrSagaPaused, w')))"

definition WaitUntilVerb :: "env \<Rightarrow> handler" where
  "WaitUntilVerb e run s w =
     (let tsStr = get_str (step_inputs s) ''timestamp''
      in if tsStr = [] then (Inl (Errorf ''wait_until: timestamp required'' []), w)
         else case parse_rfc3339 e tsStr of
           Inl err \<Rightarrow> (Inl (Errorf ''wait_until: parse %q: %w'' [AStr tsStr, AErr err]), w)
         | Inr t0 \<Rightarrow>
             (let now = clk w;
                  t = (if t0 < now then now else t0)
              in case try_store (SetPausedWithWakeup (run_id run) t) w of
                   (Some err, w') \<Rightarrow> (Inl (Errorf ''wait_until: persist wakeup: %w'' [AErr err]), w')
                 | (None, w') \<Rightarrow> (Inl ErrSagaPaused, w')))"

text \<open>\<^verbatim>\<open>time.Duration(to * float64(time.Second))\<close>\<close>

definition seconds_duration :: "env \<Rightarrow> rat \<Rightarrow> duration" where
  "seconds_duration e to = int64_of_float e (fl_round e (to * of_int second_ns))"

definition timeout_deadline :: "env \<Rightarrow> step \<Rightarrow> world \<Rightarrow> gotime option" where
  "timeout_deadline e s w =
     (case get_float (step_inputs s) ''timeout_s'' of
        Some to \<Rightarrow> (if to > 0 then Some (clk w + seconds_duration e to) else None)
      | None \<Rightarrow> None)"

section \<open>Signal and event waits\<close>

definition WaitForSignalVerb :: "env \<Rightarrow> handler" where
  "WaitForSignalVerb e run s w =
     (let name = get_str (step_inputs s) ''name''
      in if name = [] then (Inl (Errorf ''wait_for_signal: name required'' []), w)
         else case try_store (SetPausedAwaitingSignal (run_id run) name (timeout_deadline e s w)) w of
           (Some err, w') \<Rightarrow> (Inl (Errorf ''wait_for_signal: persist: %w'' [AErr err]), w')
         | (None, w') \<Rightarrow> (Inl ErrSagaPaused, w'))"

text \<open>Header values are stringified; the map is copied in iteration order.\<close>

definition string_headers :: "env \<Rightarrow> step \<Rightarrow> (string \<times> string) list" where
  "string_headers e s =
     (case get_map (step_inputs s) ''headers'' of
        None \<Rightarrow> []
      | Some h \<Rightarrow> map (\<lambda>(k, v). (k, fmt_sprint e v)) h)"

definition WaitForEventVerb :: "env \<Rightarrow> handler" where
  "WaitForEventVerb e run s w =
     (let topic = get_str (step_inputs s) ''topic''
      in if topic = [] then (Inl (Errorf ''wait_for_event: topic required'' []), w)
         else case try_store (SetPausedAwaitingEventWithDeadline (run_id run) topic
                       (string_headers e s) (timeout_deadline e s w)) w of
           (Some err, w') \<Rightarrow> (Inl (Errorf ''wait_for_event: persist: %w'' [AErr err]), w')
         | (None, w') \<Rightarrow> (Inl ErrSagaPaused, w'))"

definition EmitSignalVerb :: "env \<Rightarrow> handler" where
  "EmitSignalVerb e run s w =
     (let runIDStr = get_str (step_inputs s) ''run_id'';
          name = get_str (step_inputs s) ''name''
      in if runIDStr = [] \<or> name = []
         then (Inl (Errorf ''emit_signal: run_id and name required'' []), w)
         else case uuid_parse e runIDStr of
           Inl err \<Rightarrow> (Inl (Errorf ''emit_signal: bad run_id: %w'' [AErr err]), w)
         | Inr targetID \<Rightarrow>
             (let (i, w1) = fresh e w;
                  sig = \<lparr>sig_id = i, sig_run_id = targetID, sig_name = name,
                         sig_payload = or_default (get_map (step_inputs s) ''payload'') [],
                         sig_received_at = wall w1, sig_consumed_at = None\<rparr>;
                  w2 = do_store (AppendSignal sig) w1;
                  (ok, s') = TryConsumeAwaitedSignal (wall w2) targetID name (st w2);
                  w3 = w2\<lparr>st := s'\<rparr>
              in case publisher e of
                   Some p \<Rightarrow>
                     (if ok then
                        (case PublishSagaAdvance p targetID w3 of
                           (Some err, w4) \<Rightarrow> (Inl (Errorf ''emit_signal: publish: %w'' [AErr err]), w4)
                         | (None, w4) \<Rightarrow> (Inr [], w4))
                      else (Inr [], w3))
                 | None \<Rightarrow> (Inr [], w3)))"

section \<open>User tasks\<close>

text \<open>The optional \<^verbatim>\<open>due_in\<close> input as an instant, with the verb's name in the error.\<close>

definition due_at :: "env \<Rightarrow> string \<Rightarrow> step \<Rightarrow> world \<Rightarrow> gerr + gotime option" where
  "due_at e fmt s w =
     (let dueIn = get_str (step_inputs s) ''due_in''
      in if dueIn = [] then Inr None
         else case parse_duration e dueIn of
           Inl err \<Rightarrow> Inl (Errorf fmt [AStr dueIn, AErr err])
         | Inr d \<Rightarrow> Inr (Some (clk w + d)))"

text \<open>Creating the task and pausing on its submission signal.\<close>

definition open_task ::
  "env \<Rightarrow> string \<Rightarrow> saga_run \<Rightarrow> step \<Rightarrow> string \<Rightarrow> gotime option \<Rightarrow> gomap \<Rightarrow> world
   \<Rightarrow> (gerr + gomap) \<times> world" where
  "open_task e awaitFmt run s assignee due formSchema w =
     (let (i, w1) = fresh e w;
          task = \<lparr>task_id = i, task_run_id = run_id run, task_step_id = step_id s,
                  task_assignee = assignee, task_due_at = due, task_form_schema = formSchema,
                  task_submitted_at = None, task_submitted_by = [], task_result = []\<rparr>;
          w2 = do_store (CreateUserTask task) w1
      in case try_store (SetPausedAwaitingSignal (run_id run)
                   (''user_task.'' @ i @ ''.submitted'') due) w2 of
           (Some err, w3) \<Rightarrow> (Inl (Errorf awaitFmt [AErr err]), w3)
         | (None, w3) \<Rightarrow> (Inl ErrSagaPaused, w3))"

definition ManualApprovalVerb :: "env \<Rightarrow> handler" where
  "ManualApprovalVerb e run s w =
     (let assignee = get_str (step_inputs s) ''assignee''
      in if assignee = [] then (Inl (Errorf ''manual_approval: assignee required'' []), w)
         else case due_at e ''manual_approval: bad due_in %q: %w'' s w of
           Inl err \<Rightarrow> (Inl err, w)
         | Inr due \<Rightarrow>
             open_task e ''manual_approval: set awaited signal: %w'' run s assignee due
               (or_default (get_map (step_inputs s) ''form_schema'') []) w)"

definition CollectInputVerb :: "env \<Rightarrow> handler" where
  "CollectInputVerb e run s w =
     (let assignee = get_str (step_inputs s) ''assignee'';
          formSchema = or_default (get_map (step_inputs s) ''form_schema'') []
      in if assignee = [] then (Inl (Errorf ''collect_input: assignee required'' []), w)
         else if formSchema = []
         then (Inl (Errorf ''collect_input: form_schema required and non-empty'' []), w)
         else case due_at e ''collect_input: bad due_in %q: %w'' s w of
           Inl err \<Rightarrow> (Inl err, w)
         | Inr due \<Rightarrow>
             open_task e ''collect_input: set awaited signal: %w'' run s assignee due formSchema w)"

section \<open>Try/catch\<close>

definition TryCatchVerb :: "env \<Rightarrow> handler" where
  "TryCatchVerb e run s w =
     (let tryAny = or_default (get_list (step_inputs s) ''try'') [];
          catch = get_str (step_inputs s) ''catch''
      in if tryAny = [] then (Inl (Errorf ''try_catch: try list required'' []), w)
         else if catch = [] then (Inl (Errorf ''try_catch: catch step ID required'' []), w)
         else case try_store (PushTryCatch (run_id run)
                     \<lparr>frame_step_id = step_id s, frame_catch_step = catch\<rparr>) w of
           (Some err, w') \<Rightarrow> (Inl (Errorf ''try_catch: push frame: %w'' [AErr err]), w')
         | (None, w') \<Rightarrow> (Inr [], w'))"

section \<open>The pausing contract\<close>

text \<open>
  \<^verbatim>\<open>engine/verbs/errors.go\<close> asks every verb that returns \<^verbatim>\<open>ErrSagaPaused\<close> to have persisted
  the pause first. \<open>paused_run\<close> reads that off the world.
\<close>

definition paused_run :: "uuid \<Rightarrow> world \<Rightarrow> bool" where
  "paused_run i w \<longleftrightarrow>
     (case map_of (runs (st w)) i of None \<Rightarrow> False | Some r \<Rightarrow> run_state r = RunStatePaused)"

locale pausing_verb =
  fixes verb :: handler
  assumes pause_persisted: "verb run s w = (Inl ErrSagaPaused, w') \<Longrightarrow> paused_run (run_id run) w'"
begin

text \<open>What the coordinator does next (append an event) leaves the run paused.\<close>

lemma paused_after_event:
  "verb run s w = (Inl ErrSagaPaused, w') \<Longrightarrow>
     paused_run (run_id run) (emit e j sid a ty actor meta w')"
  using pause_persisted by (simp add: paused_run_def)

lemma paused_run_readable:
  "verb run s w = (Inl ErrSagaPaused, w') \<Longrightarrow>
     \<exists>r. GetRun (st w') (run_id run) = Inr r \<and> \<not> IsTerminal (run_state r)"
  using pause_persisted by (fastforce simp: paused_run_def GetRun_iff split: option.splits)

end

lemma with_run_paused:
  "with_run i f (st w) = Inr s \<Longrightarrow> (\<And>r. run_state (f r) = RunStatePaused) \<Longrightarrow> paused_run i (w\<lparr>st := s\<rparr>)"
  by (auto simp: paused_run_def with_run_def split: option.splits)

lemmas pause_defs = SetPausedWithWakeup_def SetPausedAwaitingSignal_def
  SetPausedAwaitingEventWithDeadline_def

lemma open_task_paused:
  "open_task e f run s a d fs w = (Inl ErrSagaPaused, w') \<Longrightarrow> paused_run (run_id run) w'"
  by (auto simp: open_task_def Let_def try_store_None_iff pause_defs
      split: prod.splits option.splits intro: with_run_paused)

interpretation wait_duration: pausing_verb "WaitDurationVerb e" for e
  by unfold_locales
    (auto simp: WaitDurationVerb_def Let_def try_store_None_iff pause_defs
      split: if_splits sum.splits prod.splits option.splits intro: with_run_paused)

interpretation wait_until: pausing_verb "WaitUntilVerb e" for e
  by unfold_locales
    (auto simp: WaitUntilVerb_def Let_def try_store_None_iff pause_defs
      split: if_splits sum.splits prod.splits option.splits intro: with_run_paused)

interpretation wait_for_signal: pausing_verb "WaitForSignalVerb e" for e
  by unfold_locales
    (auto simp: WaitForSignalVerb_def Let_def try_store_None_iff pause_defs
      split: if_splits sum.splits prod.splits option.splits intro: with_run_paused)

interpretation wait_for_event: pausing_verb "WaitForEventVerb e" for e
  by unfold_locales
    (auto simp: WaitForEventVerb_def Let_def try_store_None_iff pause_defs
      split: if_splits sum.splits prod.splits option.splits intro: with_run_paused)

interpretation manual_approval: pausing_verb "ManualApprovalVerb e" for e
  by unfold_locales
    (auto simp: ManualApprovalVerb_def due_at_def Let_def split: if_splits sum.splits
      intro: open_task_paused)

interpretation collect_input: pausing_verb "CollectInputVerb e" for e
  by unfold_locales
    (auto simp: CollectInputVerb_def due_at_def Let_def split: if_splits sum.splits
      intro: open_task_paused)

section \<open>Properties\<close>

text \<open>
  The signal handshake. Emitting the signal a paused run waits for stores it as
  consumed, clears that run's wait and publishes exactly one advance for it; emitting a
  signal nobody waits for stores it unconsumed and publishes nothing. In both cases the
  verb succeeds with an empty result.
\<close>

theorem emit_signal_handshake:
  assumes "get_str (step_inputs s) ''run_id'' = rid" and "get_str (step_inputs s) ''name'' = name"
    and "rid \<noteq> []" and "name \<noteq> []" and "uuid_parse e rid = Inr target"
    and "publisher e = Some p" and "\<forall>w. p w target = None"
    and "map_of (runs (st w)) target = Some r"
  shows "\<exists>w'. EmitSignalVerb e run s w = (Inr [], w') \<and>
    (if run_state r = RunStatePaused \<and> run_awaited_signal r = Some name
     then queue w' = queue w @ [target] \<and> map_of (runs (st w')) target = Some (clear_awaits r)
       \<and> (\<forall>g \<in> set (at_key (signals (st w')) target). sig_name g = name \<longrightarrow> sig_consumed_at g \<noteq> None)
     else queue w' = queue w \<and> runs (st w') = runs (st w)
       \<and> sig_consumed_at (last (at_key (signals (st w')) target)) = None)"
proof (cases "run_state r = RunStatePaused \<and> run_awaited_signal r = Some name")
  case True
  with assms show ?thesis
    by (auto simp: EmitSignalVerb_def Let_def fresh_def do_store_def AppendSignal_def
        TryConsumeAwaitedSignal_def PublishSagaAdvance_def at_key_def consume_signal_def
        split: prod.splits)
next
  case False
  with assms show ?thesis
    by (auto simp: EmitSignalVerb_def Let_def fresh_def do_store_def AppendSignal_def
        TryConsumeAwaitedSignal_def at_key_def split: prod.splits)
qed

definition go_step :: step where
  "go_step = (blank_step ''s'')\<lparr>step_inputs := [(''run_id'', VStr ''r1''), (''name'', VStr ''go'')]\<rparr>"

theorem emit_signal_handshake_witness:
  "\<exists>w'. EmitSignalVerb test_env (sample_run ''r2'') go_step (test_world\<lparr>st := waiting_store\<rparr>)
      = (Inr [], w')
    \<and> queue w' = [''r1'']"
proof -
  let ?r = "(sample_run ''r1'')\<lparr>run_state := RunStatePaused, run_awaited_signal := Some ''go''\<rparr>"
  have "map_of (runs (st (test_world\<lparr>st := waiting_store\<rparr>))) ''r1'' = Some ?r"
    by (simp add: waiting_store_def CreateRun_def sample_run_def NewSagaRun_def New_def)
  from emit_signal_handshake [OF _ _ _ _ _ _ _ this, of go_step "''r1''" "''go''" test_env
      "\<lambda>_ _. None" "sample_run ''r2''"]
  show ?thesis
    by (auto simp: go_step_def blank_step_def get_str_def test_env_def test_world_def)
qed

text \<open>
  The time waits persist the right instant. A wait of \<open>d \<ge> 0\<close> pauses the run until \<open>d\<close> after
  the engine's clock, and a wait until a timestamp pauses it until the later of that
  timestamp and now, so the run is due exactly from that instant on; a negative duration
  is refused without touching the store.
\<close>

theorem time_waits:
  assumes "map_of (runs (st w)) (run_id run) = Some r"
    and "get_str (step_inputs s) ''duration'' = ds" and "ds \<noteq> []" and "parse_duration e ds = Inr d"
    and "get_str (step_inputs s) ''timestamp'' = ts" and "ts \<noteq> []" and "parse_rfc3339 e ts = Inr t"
  shows "(d < 0 \<longrightarrow> snd (WaitDurationVerb e run s w) = w \<and> (\<exists>err. fst (WaitDurationVerb e run s w) = Inl err
            \<and> \<not> is_paused_err err)) \<and>
    (d \<ge> 0 \<longrightarrow> (\<exists>w' r'. WaitDurationVerb e run s w = (Inl ErrSagaPaused, w')
        \<and> map_of (runs (st w')) (run_id run) = Some r' \<and> run_state r' = RunStatePaused
        \<and> (\<forall>now. wakeup_due now r' \<longleftrightarrow> clk w + d \<le> now))) \<and>
    (\<exists>w' r'. WaitUntilVerb e run s w = (Inl ErrSagaPaused, w')
        \<and> map_of (runs (st w')) (run_id run) = Some r' \<and> run_state r' = RunStatePaused
        \<and> (\<forall>now. wakeup_due now r' \<longleftrightarrow> max t (clk w) \<le> now))"
proof -
  have pause: "\<exists>w'. try_store (SetPausedWithWakeup (run_id run) x) w = (None, w')
      \<and> map_of (runs (st w')) (run_id run) = Some (r\<lparr>run_state := RunStatePaused, run_wakeup_at := Some x\<rparr>)"
    for x
    using assms(1) by (simp add: try_store_def SetPausedWithWakeup_def with_run_def)
  have neg: "d < 0 \<longrightarrow> snd (WaitDurationVerb e run s w) = w \<and> (\<exists>err. fst (WaitDurationVerb e run s w) = Inl err
      \<and> \<not> is_paused_err err)"
    using assms(2-4) by (simp add: WaitDurationVerb_def is_paused_err_def)
  have dur: "d \<ge> 0 \<longrightarrow> (\<exists>w' r'. WaitDurationVerb e run s w = (Inl ErrSagaPaused, w')
      \<and> map_of (runs (st w')) (run_id run) = Some r' \<and> run_state r' = RunStatePaused
      \<and> (\<forall>now. wakeup_due now r' \<longleftrightarrow> clk w + d \<le> now))"
    using assms(2-4) pause [of "clk w + d"] by (auto simp: WaitDurationVerb_def wakeup_due_def)
  have "\<exists>w' r'. WaitUntilVerb e run s w = (Inl ErrSagaPaused, w')
      \<and> map_of (runs (st w')) (run_id run) = Some r' \<and> run_state r' = RunStatePaused
      \<and> (\<forall>now. wakeup_due now r' \<longleftrightarrow> max t (clk w) \<le> now)"
    using assms(5-7) pause [of t] pause [of "clk w"]
    by (auto simp: WaitUntilVerb_def wakeup_due_def Let_def)
  with neg dur show ?thesis by blast
qed

definition wait_step :: step where
  "wait_step = (blank_step ''s'')\<lparr>step_inputs := [(''duration'', VStr ''5ns''), (''timestamp'', VStr ''t5'')]\<rparr>"

theorem time_waits_witness:
  "\<exists>w' r'. WaitUntilVerb test_env (sample_run ''r1'') wait_step test_world = (Inl ErrSagaPaused, w')
    \<and> map_of (runs (st w')) ''r1'' = Some r' \<and> run_state r' = RunStatePaused
    \<and> (\<forall>now. wakeup_due now r' \<longleftrightarrow> max 5 10 \<le> now)"
proof -
  have "map_of (runs (st test_world)) (run_id (sample_run ''r1'')) = Some (sample_run ''r1'')"
    by (simp add: test_world_def sample_store_def CreateRun_def New_def sample_run_def NewSagaRun_def)
  from time_waits [OF this, of wait_step "''5ns''" test_env 5 "''t5''" 5] show ?thesis
    by (simp add: wait_step_def blank_step_def get_str_def test_env_def test_world_def
        sample_run_def NewSagaRun_def)
qed

end
