(* ===== verification/Verbs_Fanout.thy ===== *)
theory Verbs_Fanout
  imports Verbs_Wait
begin

text \<open>
  The verbs that start child runs and the barriers that wait for them:
  \<^verbatim>\<open>engine/verbs/join_shared.go\<close>, \<^verbatim>\<open>parallel.go\<close>, \<^verbatim>\<open>foreach.go\<close>, \<^verbatim>\<open>join.go\<close>, \<^verbatim>\<open>sub_saga.go\<close>
  and \<^verbatim>\<open>spawn_saga.go\<close>.
\<close>

section \<open>Numbers and expressions\<close>

definition ToInt :: "env \<Rightarrow> val option \<Rightarrow> int option" where
  "ToInt e v =
     (case v of Some (VInt n) \<Rightarrow> Some n | Some (VInt64 n) \<Rightarrow> Some n
      | Some (VFloat n) \<Rightarrow> Some (int64_of_float e n) | _ \<Rightarrow> None)"

definition ToIntFromAny :: "env \<Rightarrow> val \<Rightarrow> int option" where
  "ToIntFromAny e v =
     (case v of VInt n \<Rightarrow> Some n | VInt32 n \<Rightarrow> Some n | VInt64 n \<Rightarrow> Some n
      | VFloat n \<Rightarrow> Some (int64_of_float e n)
      | VUint64 n \<Rightarrow> (if n > int64_max then None else Some n)
      | _ \<Rightarrow> None)"

definition evalBranchesCEL :: "env \<Rightarrow> string \<Rightarrow> gomap \<Rightarrow> gerr + val list" where
  "evalBranchesCEL e expr vars =
     (case cel_run e (keysOf vars) vars expr ''compile: %w'' ''eval: %w'' of
        Inl err \<Rightarrow> Inl err
      | Inr (VList l) \<Rightarrow> Inr l
      | Inr v \<Rightarrow> Inl (Errorf ''branches expression must evaluate to a list, got %T''
                    [AStr (go_type v)]))"

definition EvalQuorumNCEL :: "env \<Rightarrow> string \<Rightarrow> gomap \<Rightarrow> gerr + val" where
  "EvalQuorumNCEL e expr vars =
     (case build_program (cel e) (keysOf vars) expr of
        Inl err \<Rightarrow> Inl (Errorf ''compile: %w'' [AErr err])
      | Inr prg \<Rightarrow> Eval prg vars)"

section \<open>Join conditions\<close>

fun stream_ids :: "nat \<Rightarrow> val list \<Rightarrow> gerr + string list" where
  "stream_ids i [] = Inr []"
| "stream_ids i (v # vs) =
     (case v of
        VStr sid \<Rightarrow>
          (if sid = []
           then Inl (Errorf ''streams[%d] must be a non-empty step ID string, got %T''
                  [AInt (int i), AStr (go_type v)])
           else case stream_ids (Suc i) vs of Inl err \<Rightarrow> Inl err | Inr out \<Rightarrow> Inr (sid # out))
      | _ \<Rightarrow> Inl (Errorf ''streams[%d] must be a non-empty step ID string, got %T''
                [AInt (int i), AStr (go_type v)]))"

definition ResolveJoinStreams :: "env \<Rightarrow> val option \<Rightarrow> gomap \<Rightarrow> gerr + string list" where
  "ResolveJoinStreams e raw vars =
     (let listed = (\<lambda>l. if l = []
            then Inl (Errorf ''streams required and must be a non-empty list of step IDs (after CEL eval if applicable)'' [])
            else stream_ids 0 l)
      in case raw of
        Some (VStr s) \<Rightarrow>
          (case evalBranchesCEL e s vars of
             Inl err \<Rightarrow> Inl (Errorf ''streams CEL eval: %w'' [AErr err])
           | Inr l \<Rightarrow> listed l)
      | Some (VList l) \<Rightarrow> listed l
      | Some (VStrs l) \<Rightarrow>
          (if [] \<in> set l then Inl (Errorf ''streams entries must be non-empty step IDs'' [])
           else if l = []
           then Inl (Errorf ''streams required and must be a non-empty list of step IDs'' [])
           else Inr l)
      | _ \<Rightarrow> Inl (Errorf ''streams must be a list of step IDs or a CEL string, got %T''
                [AStr (go_type (or_default raw VNil))]))"

text \<open>The strategy name, \<^verbatim>\<open>all\<close> by default.\<close>

definition join_strategy :: "gomap \<Rightarrow> string" where
  "join_strategy inputs =
     (let j = get_str inputs ''join_strategy'' in if j = [] then ''all'' else j)"

text \<open>
  Reading \<^verbatim>\<open>quorum_n\<close> and checking it against the number of runs; \<open>pre\<close> is the verb's error
  prefix and \<open>what\<close> the noun of the last message.
\<close>

definition check_quorum ::
  "env \<Rightarrow> string \<Rightarrow> string \<Rightarrow> gomap \<Rightarrow> gomap \<Rightarrow> nat \<Rightarrow> gerr option" where
  "check_quorum e pre what inputs vars cnt =
     (let check = (\<lambda>n. if n \<le> 0 then Some (Errorf (pre @ ''quorum_n must be positive'') [])
            else if n > int cnt
            then Some (Errorf (pre @ ''quorum_n=%d exceeds '' @ what @ '' count=%d'')
                         [AInt n, AInt (int cnt)])
            else None)
      in case map_of inputs ''quorum_n'' of
        Some (VStr qv) \<Rightarrow>
          (case EvalQuorumNCEL e qv vars of
             Inl err \<Rightarrow> Some (Errorf (pre @ ''quorum_n CEL eval: %w'') [AErr err])
           | Inr v \<Rightarrow>
               (case ToIntFromAny e v of
                  None \<Rightarrow> Some (Errorf (pre @ ''quorum_n CEL result is not numeric: %T %v'')
                            [AStr (go_type v), AStr (fmt_sprint e v)])
                | Some n \<Rightarrow> check n))
      | q \<Rightarrow>
          (case ToInt e q of
             None \<Rightarrow> Some (Errorf (pre @ ''quorum_n required and must be positive when join_strategy=quorum'') [])
           | Some n \<Rightarrow> check n))"

definition check_strategy ::
  "env \<Rightarrow> string \<Rightarrow> string \<Rightarrow> gomap \<Rightarrow> gomap \<Rightarrow> nat \<Rightarrow> gerr option" where
  "check_strategy e pre what inputs vars cnt =
     (if join_strategy inputs = ''all'' then None
      else if join_strategy inputs = ''quorum'' then check_quorum e pre what inputs vars cnt
      else Some (Errorf (pre @ ''join_strategy %q not supported (use 'all' or 'quorum')'')
             [AStr (join_strategy inputs)]))"

definition validateJoinStrategy :: "env \<Rightarrow> gomap \<Rightarrow> gomap \<Rightarrow> nat \<Rightarrow> gerr option" where
  "validateJoinStrategy e inputs vars watchedCount =
     check_strategy e [] ''watched-child'' inputs vars watchedCount"

text \<open>The quorum the barrier uses, or none when it falls back to \<^verbatim>\<open>all\<close>.\<close>

definition quorum_of :: "env \<Rightarrow> gomap \<Rightarrow> gomap \<Rightarrow> int option" where
  "quorum_of e inputs vars =
     (let positive = (\<lambda>n. case n of Some n \<Rightarrow> (if n \<le> 0 then None else Some n) | None \<Rightarrow> None)
      in case map_of inputs ''quorum_n'' of
           Some (VStr qv) \<Rightarrow>
             (case EvalQuorumNCEL e qv vars of
                Inl _ \<Rightarrow> None
              | Inr v \<Rightarrow> positive (ToIntFromAny e v))
         | q \<Rightarrow> positive (ToInt e q))"

definition succeeded_count :: "saga_run list \<Rightarrow> int" where
  "succeeded_count g = int (length (filter (\<lambda>r. run_state r = RunStateSucceeded) g))"

definition JoinConditionMetCtx :: "env \<Rightarrow> gomap \<Rightarrow> gomap \<Rightarrow> saga_run list \<Rightarrow> bool" where
  "JoinConditionMetCtx e inputs vars g =
     (let allTerminal = list_all (\<lambda>r. IsTerminal (run_state r)) g
      in if g = [] then False
         else if join_strategy inputs = ''all'' then allTerminal
         else if join_strategy inputs = ''quorum''
         then (case quorum_of e inputs vars of
                 None \<Rightarrow> allTerminal
               | Some quorumN \<Rightarrow> succeeded_count g \<ge> quorumN)
         else False)"

definition JoinConditionMet :: "env \<Rightarrow> gomap \<Rightarrow> gomap \<Rightarrow> saga_run list \<Rightarrow> bool" where
  "JoinConditionMet e inputs vars g = JoinConditionMetCtx e inputs vars g"

definition aggregate_entry :: "env \<Rightarrow> mem_store \<Rightarrow> nat \<Rightarrow> saga_run \<Rightarrow> val" where
  "aggregate_entry e s i child =
     (let key0 = or_default (run_parent_branch_id child) [];
          key = (if key0 = [] then ''b'' @ show_int (int i) else key0);
          entry = [(''key'', VStr key), (''variables'', VMap (run_variables child)),
                   (''state'', VStr (run_state_str (run_state child)))]
      in case find (\<lambda>t. task_submitted_at t \<noteq> None) (ListUserTasksByRun s (run_id child)) of
           None \<Rightarrow> VMap entry
         | Some t \<Rightarrow>
             VMap (entry @ [(''_user_task'',
               VMap [(''id'', VStr (task_id t)), (''result'', VMap (task_result t)),
                     (''submitted_by'', VStr (task_submitted_by t)),
                     (''submitted_at'',
                        VStr (format_rfc3339 e (or_default (task_submitted_at t) 0)))])]))"

definition AggregateJoinResults :: "env \<Rightarrow> mem_store \<Rightarrow> saga_run list \<Rightarrow> val" where
  "AggregateJoinResults e s children =
     VList (map (\<lambda>(i, c). aggregate_entry e s i c) (enumerate 0 children))"

section \<open>Branch definitions\<close>

text \<open>
  \<^verbatim>\<open>parseSteps\<close> is a JSON round trip: encoding turns every number into a float and every
  typed slice or map into the generic one, decoding fills the fields of \<^verbatim>\<open>domain.Step\<close> by
  their tags (matched without regard to case, absent or null fields left zero) and rejects
  values of the wrong type. A nil map and an empty one are the same here.
\<close>

fun json_norm :: "env \<Rightarrow> val \<Rightarrow> val" where
  "json_norm e (VInt i) = VFloat (fl_round e (of_int i))"
| "json_norm e (VInt32 i) = VFloat (fl_round e (of_int i))"
| "json_norm e (VInt64 i) = VFloat (fl_round e (of_int i))"
| "json_norm e (VUint64 i) = VFloat (fl_round e (of_int i))"
| "json_norm e (VList vs) = VList (map (json_norm e) vs)"
| "json_norm e (VMap m) = VMap (map (\<lambda>(k, v). (k, json_norm e v)) m)"
| "json_norm e (VMaps ms) = VList (map (\<lambda>m. VMap (map (\<lambda>(k, v). (k, json_norm e v)) m)) ms)"
| "json_norm e (VStrs l) = VList (map VStr l)"
| "json_norm e (VStrMap m) = VMap (map (\<lambda>(k, v). (k, VStr v)) m)"
| "json_norm e v = v"

definition json_field :: "gomap \<Rightarrow> string \<Rightarrow> val" where
  "json_field m name =
     (case map_of m name of
        Some v \<Rightarrow> v
      | None \<Rightarrow> (case find (\<lambda>(k, v). to_lower k = name) m of Some (k, v) \<Rightarrow> v | None \<Rightarrow> VNil))"

definition json_mismatch :: "val \<Rightarrow> string \<Rightarrow> gerr" where
  "json_mismatch v field =
     Errorf ''json: cannot unmarshal %s into Go struct field %s'' [AStr (go_type v), AStr field]"

definition dec_str :: "gomap \<Rightarrow> string \<Rightarrow> gerr + string" where
  "dec_str m f = (case json_field m f of VNil \<Rightarrow> Inr [] | VStr x \<Rightarrow> Inr x | v \<Rightarrow> Inl (json_mismatch v f))"

definition dec_bool :: "gomap \<Rightarrow> string \<Rightarrow> gerr + bool" where
  "dec_bool m f = (case json_field m f of VNil \<Rightarrow> Inr False | VBool x \<Rightarrow> Inr x | v \<Rightarrow> Inl (json_mismatch v f))"

definition dec_float :: "gomap \<Rightarrow> string \<Rightarrow> gerr + rat" where
  "dec_float m f = (case json_field m f of VNil \<Rightarrow> Inr 0 | VFloat x \<Rightarrow> Inr x | v \<Rightarrow> Inl (json_mismatch v f))"

definition dec_int :: "gomap \<Rightarrow> string \<Rightarrow> gerr + int" where
  "dec_int m f =
     (case json_field m f of
        VNil \<Rightarrow> Inr 0
      | VFloat x \<Rightarrow> (if of_int (rat_trunc x) = x \<and> - (2 ^ 63) \<le> rat_trunc x \<and> rat_trunc x \<le> int64_max
                    then Inr (rat_trunc x) else Inl (json_mismatch (VFloat x) f))
      | v \<Rightarrow> Inl (json_mismatch v f))"

definition dec_map :: "gomap \<Rightarrow> string \<Rightarrow> gerr + gomap" where
  "dec_map m f = (case json_field m f of VNil \<Rightarrow> Inr [] | VMap x \<Rightarrow> Inr x | v \<Rightarrow> Inl (json_mismatch v f))"

definition bind_err :: "'e + 'a \<Rightarrow> ('a \<Rightarrow> 'e + 'b) \<Rightarrow> 'e + 'b" where
  "bind_err r f = (case r of Inl err \<Rightarrow> Inl err | Inr x \<Rightarrow> f x)"

definition dec_retry :: "gomap \<Rightarrow> gerr + retry_policy option" where
  "dec_retry m =
     (case json_field m ''retry'' of
        VNil \<Rightarrow> Inr None
      | VMap r \<Rightarrow>
          bind_err (dec_int r ''max_attempts'') (\<lambda>a.
          bind_err (dec_int r ''initial_backoff_ms'') (\<lambda>i.
          bind_err (dec_int r ''max_backoff_ms'') (\<lambda>b.
          bind_err (dec_float r ''multiplier'') (\<lambda>x.
          bind_err (dec_bool r ''jitter'') (\<lambda>j.
            Inr (Some \<lparr>max_attempts = a, initial_backoff_ms = i, max_backoff_ms = b,
                       multiplier = x, jitter = j\<rparr>))))))
      | v \<Rightarrow> Inl (json_mismatch v ''retry''))"

definition dec_compensation :: "gomap \<Rightarrow> gerr + compensation option" where
  "dec_compensation m =
     (case json_field m ''compensation'' of
        VNil \<Rightarrow> Inr None
      | VMap c \<Rightarrow>
          bind_err (dec_str c ''action'') (\<lambda>a.
          bind_err (dec_map c ''inputs'') (\<lambda>i.
            Inr (Some \<lparr>comp_action = a, comp_inputs = i\<rparr>)))
      | v \<Rightarrow> Inl (json_mismatch v ''compensation''))"

fun dec_branches :: "gomap \<Rightarrow> gerr + (string \<times> branch) list" where
  "dec_branches [] = Inr []"
| "dec_branches ((k, v) # rest) =
     bind_err (case v of
         VNil \<Rightarrow> Inr []
       | VMap b \<Rightarrow> dec_str b ''next''
       | _ \<Rightarrow> Inl (json_mismatch v ''branches'')) (\<lambda>n.
     bind_err (dec_branches rest) (\<lambda>bs. Inr ((k, \<lparr>branch_next = n\<rparr>) # bs)))"

definition dec_step :: "val \<Rightarrow> gerr + step" where
  "dec_step v =
     (case v of
        VNil \<Rightarrow> Inr (blank_step [])
      | VMap m \<Rightarrow>
          bind_err (dec_str m ''id'') (\<lambda>i.
          bind_err (dec_str m ''type'') (\<lambda>t.
          bind_err (dec_str m ''next'') (\<lambda>n.
          bind_err (dec_str m ''action'') (\<lambda>a.
          bind_err (dec_map m ''inputs'') (\<lambda>inp.
          bind_err (dec_compensation m) (\<lambda>c.
          bind_err (dec_retry m) (\<lambda>r.
          bind_err (bind_err (dec_map m ''branches'') dec_branches) (\<lambda>bs.
            Inr \<lparr>step_id = i, step_type = step_type_of t, step_next = n, step_action = a,
                 step_inputs = inp, step_compensation = c, step_retry = r, step_branches = bs,
                 step_extra = []\<rparr>))))))))
      | _ \<Rightarrow> Inl (json_mismatch v ''step''))"

fun dec_steps :: "val list \<Rightarrow> gerr + step list" where
  "dec_steps [] = Inr []"
| "dec_steps (v # vs) =
     bind_err (dec_step v) (\<lambda>s. bind_err (dec_steps vs) (\<lambda>ss. Inr (s # ss)))"

definition parseSteps :: "env \<Rightarrow> val list \<Rightarrow> gerr + step list" where
  "parseSteps e vs = dec_steps (map (json_norm e) vs)"

definition normalizeBranch :: "gomap \<Rightarrow> nat \<Rightarrow> gomap" where
  "normalizeBranch b index =
     (let verbType = get_str b ''type'';
          inputs = or_default (get_map b ''inputs'') [];
          key0 = get_str b ''key'';
          key = (if key0 = [] then ''b'' @ show_int (int index) else key0);
          stepID = key @ ''_'' @ verbType;
          endID = key @ ''_end''
      in if map_of b ''start'' \<noteq> None then b
         else if verbType = [] then b
         else [(''key'', VStr key), (''start'', VStr stepID),
               (''steps'', VList
                  [VMap [(''id'', VStr stepID), (''type'', VStr verbType),
                         (''inputs'', VMap inputs), (''next'', VStr endID)],
                   VMap [(''id'', VStr endID), (''type'', VStr ''end'')]])])"

definition branch_def :: "string \<Rightarrow> string \<Rightarrow> string \<Rightarrow> step list \<Rightarrow> workflow_definition" where
  "branch_def wid name start ss =
     \<lparr>def_id = wid, def_version = 1, def_tenant_id = None, def_name = name,
      def_description = [], def_start = start, def_entrypoints = [], def_steps = ss,
      def_published = True, def_created_at = 0, def_created_by = []\<rparr>"

section \<open>Spawning and publishing\<close>

definition upsert_def :: "env \<Rightarrow> workflow_definition \<Rightarrow> world \<Rightarrow> world" where
  "upsert_def e d w =
     (let (i, w1) = fresh e w in do_store (UpsertWorkflowDefinition i d) w1)"

text \<open>\<^verbatim>\<open>SpawnChildRunAt\<close> with the UUIDs it draws: one for the definition only if it is new.\<close>

definition spawn_child ::
  "env \<Rightarrow> uuid \<Rightarrow> string \<Rightarrow> string \<Rightarrow> workflow_definition \<Rightarrow> gomap \<Rightarrow> string \<Rightarrow> world \<Rightarrow> uuid \<times> world" where
  "spawn_child e parentID stepID branchKey d inputs startStep w =
     (let (f, w1) = (if at_key (defsByName (st w)) (def_id d) = [] then fresh e w else ([], w));
          (c, w2) = fresh e w1
      in (c, do_store (SpawnChildRunAt f c (wall w2) parentID stepID branchKey d inputs startStep) w2))"

fun publish_all ::
  "(world \<Rightarrow> string \<Rightarrow> gerr option) \<Rightarrow> string \<Rightarrow> nat \<Rightarrow> string list \<Rightarrow> world \<Rightarrow> gerr option \<times> world" where
  "publish_all p fmt i [] w = (None, w)"
| "publish_all p fmt i (c # cs) w =
     (case PublishSagaAdvance p c w of
        (Some err, w') \<Rightarrow> (Some (Errorf fmt [AInt (int i), AErr err]), w')
      | (None, w') \<Rightarrow> publish_all p fmt (Suc i) cs w')"

text \<open>
  The end of parallel, foreach and sub_saga: pause the parent on the step, then publish
  the children if a publisher is configured.
\<close>

definition pause_and_publish ::
  "env \<Rightarrow> string \<Rightarrow> string \<Rightarrow> saga_run \<Rightarrow> step \<Rightarrow> string list \<Rightarrow> world \<Rightarrow> (gerr + gomap) \<times> world" where
  "pause_and_publish e pauseFmt pubFmt run s childIDs w =
     (case try_store (UpdateRunState (run_id run) RunStatePaused (step_id s)) w of
        (Some err, w1) \<Rightarrow> (Inl (Errorf pauseFmt [AErr err]), w1)
      | (None, w1) \<Rightarrow>
          (case publisher e of
             None \<Rightarrow> (Inl ErrSagaPaused, w1)
           | Some p \<Rightarrow>
               (case publish_all p pubFmt 0 childIDs w1 of
                  (Some err, w2) \<Rightarrow> (Inl err, w2)
                | (None, w2) \<Rightarrow> (Inl ErrSagaPaused, w2))))"

section \<open>Parallel and foreach\<close>

text \<open>One branch object as its key and synthetic definition, or the error the loop returns.\<close>

definition plan_branch ::
  "env \<Rightarrow> saga_run \<Rightarrow> step \<Rightarrow> nat \<Rightarrow> val \<Rightarrow> gerr + string \<times> workflow_definition" where
  "plan_branch e run s i b =
     (case b of
        VMap bm0 \<Rightarrow>
          (let bm = normalizeBranch bm0 i;
               start = get_str bm ''start'';
               stepsAny = or_default (get_list bm ''steps'') [];
               key0 = get_str bm ''key'';
               branchKey = (if key0 = [] then ''b'' @ show_int (int i) else key0)
           in if start = []
              then Inl (Errorf ''parallel: branch %d missing start'' [AInt (int i)])
              else if stepsAny = []
              then Inl (Errorf ''parallel: branch %d missing steps'' [AInt (int i)])
              else case parseSteps e stepsAny of
                Inl err \<Rightarrow> Inl (Errorf ''parallel: branch %d parse: %w'' [AInt (int i), AErr err])
              | Inr stepsParsed \<Rightarrow>
                  Inr (branchKey,
                       branch_def (run_workflow_id run @ ''@'' @ step_id s @ ''/'' @ branchKey)
                         ''synthetic-branch'' start stepsParsed))
      | _ \<Rightarrow> Inl (Errorf ''parallel: branch %d must be an object'' [AInt (int i)]))"

fun spawn_branches ::
  "env \<Rightarrow> saga_run \<Rightarrow> step \<Rightarrow> nat \<Rightarrow> val list \<Rightarrow> world \<Rightarrow> (gerr + string list) \<times> world" where
  "spawn_branches e run s i [] w = (Inr [], w)"
| "spawn_branches e run s i (b # bs) w =
     (case plan_branch e run s i b of
        Inl err \<Rightarrow> (Inl err, w)
      | Inr (branchKey, d) \<Rightarrow>
          (let (c, w1) = spawn_child e (run_id run) (step_id s) branchKey d (run_variables run) []
                           (upsert_def e d w)
           in case spawn_branches e run s (Suc i) bs w1 of
                (Inl err, w2) \<Rightarrow> (Inl err, w2)
              | (Inr ids, w2) \<Rightarrow> (Inr (c # ids), w2)))"

definition ParallelVerb :: "env \<Rightarrow> handler" where
  "ParallelVerb e run s w =
     (let branches =
        (case map_of (step_inputs s) ''branches'' of
           Some (VStr b) \<Rightarrow>
             (case evalBranchesCEL e b (run_variables run) of
                Inl err \<Rightarrow> Inl (Errorf ''parallel: branches CEL eval: %w'' [AErr err])
              | Inr l \<Rightarrow> Inr l)
         | Some (VList l) \<Rightarrow> Inr l
         | raw \<Rightarrow> Inl (Errorf ''parallel: branches must be []any or CEL string, got %T''
                     [AStr (go_type (or_default raw VNil))]))
      in case branches of
           Inl err \<Rightarrow> (Inl err, w)
         | Inr branchesAny \<Rightarrow>
             (if branchesAny = []
              then (Inl (Errorf ''parallel: branches required and must be non-empty list (after CEL eval if applicable)'' []), w)
              else case check_strategy e ''parallel: '' ''branch'' (step_inputs s)
                          (run_variables run) (length branchesAny) of
                Some err \<Rightarrow> (Inl err, w)
              | None \<Rightarrow>
                  (case spawn_branches e run s 0 branchesAny w of
                     (Inl err, w1) \<Rightarrow> (Inl err, w1)
                   | (Inr childIDs, w1) \<Rightarrow>
                       pause_and_publish e ''parallel: pause parent: %w''
                         ''parallel: publish branch %d: %w'' run s childIDs w1)))"

fun spawn_items ::
  "env \<Rightarrow> saga_run \<Rightarrow> step \<Rightarrow> string \<Rightarrow> step list \<Rightarrow> nat \<Rightarrow> val list \<Rightarrow> world \<Rightarrow> string list \<times> world" where
  "spawn_items e run s start body i [] w = ([], w)"
| "spawn_items e run s start body i (item # items) w =
     (let branchKey = ''i'' @ show_int (int i);
          d = branch_def (run_workflow_id run @ ''@'' @ step_id s @ ''/'' @ branchKey)
                ''synthetic-foreach-iter'' start body;
          w1 = upsert_def e d w;
          childInputs = AList.update ''_foreach_index'' (VInt64 (int i))
                          (AList.update ''_foreach_item'' item (run_variables run));
          (c, w2) = spawn_child e (run_id run) (step_id s) branchKey d childInputs [] w1;
          (ids, w3) = spawn_items e run s start body (Suc i) items w2
      in (c # ids, w3))"

definition ForeachVerb :: "env \<Rightarrow> handler" where
  "ForeachVerb e run s w =
     (let listExpr = get_str (step_inputs s) ''list'';
          body = or_default (get_list (step_inputs s) ''body'') [];
          start = get_str (step_inputs s) ''start'';
          vars = run_variables run
      in if get_bool (step_inputs s) ''parallel'' = Some False
         then (Inl (Errorf ''foreach: sequential mode deferred; use `while` with an index counter'' []), w)
         else if listExpr = [] then (Inl (Errorf ''foreach: list required'' []), w)
         else if body = []
         then (Inl (Errorf ''foreach: body required (non-empty []any of step objects)'' []), w)
         else if start = []
         then (Inl (Errorf ''foreach: start (first step ID of body) required'' []), w)
         else case cel_run e (keysOf vars) vars listExpr
                     ''foreach: compile list: %w'' ''foreach: eval list: %w'' of
           Inl err \<Rightarrow> (Inl err, w)
         | Inr (VList items) \<Rightarrow>
             (if items = [] then (Inr [], w)
              else case parseSteps e body of
                Inl err \<Rightarrow> (Inl (Errorf ''foreach: parse body: %w'' [AErr err]), w)
              | Inr stepsParsed \<Rightarrow>
                  (let (childIDs, w1) = spawn_items e run s start stepsParsed 0 items w
                   in pause_and_publish e ''foreach: pause parent: %w''
                        ''foreach: publish iter %d: %w'' run s childIDs w1))
         | Inr v \<Rightarrow> (Inl (Errorf ''foreach: list expr did not produce []any, got %T''
                        [AStr (go_type v)]), w))"

section \<open>Named child workflows\<close>

text \<open>Resolving the published workflow and its entry step, with the verb's error formats.\<close>

definition resolve_child ::
  "string \<Rightarrow> saga_run \<Rightarrow> step \<Rightarrow> world \<Rightarrow> gerr + workflow_definition \<times> gomap \<times> string" where
  "resolve_child verb run s w =
     (let workflowID = get_str (step_inputs s) ''workflow_id'';
          inputs = or_default (get_map (step_inputs s) ''inputs'') [];
          entrypoint = get_str (step_inputs s) ''entrypoint''
      in if workflowID = [] then Inl (Errorf (verb @ '': workflow_id required'') [])
         else case GetPublishedWorkflowByID (st w) workflowID of
           Inl err \<Rightarrow> Inl (Errorf (verb @ '': resolve %q: %w'') [AStr workflowID, AErr err])
         | Inr d \<Rightarrow>
             (case ResolveEntry d entrypoint of
                Inl err \<Rightarrow> Inl (Errorf (verb @ '': %w'') [AErr err])
              | Inr startStep \<Rightarrow> Inr (d, inputs, startStep)))"

definition SubSagaVerb :: "env \<Rightarrow> handler" where
  "SubSagaVerb e run s w =
     (case resolve_child ''sub_saga'' run s w of
        Inl err \<Rightarrow> (Inl err, w)
      | Inr (d, inputs, startStep) \<Rightarrow>
          (let (c, w1) = spawn_child e (run_id run) (step_id s) ''sub'' d inputs startStep w
           in case try_store (UpdateRunState (run_id run) RunStatePaused (step_id s)) w1 of
                (Some err, w2) \<Rightarrow> (Inl (Errorf ''sub_saga: pause parent: %w'' [AErr err]), w2)
              | (None, w2) \<Rightarrow>
                  (case publisher e of
                     None \<Rightarrow> (Inl ErrSagaPaused, w2)
                   | Some p \<Rightarrow>
                       (case PublishSagaAdvance p c w2 of
                          (Some err, w3) \<Rightarrow> (Inl (Errorf ''sub_saga: publish: %w'' [AErr err]), w3)
                        | (None, w3) \<Rightarrow> (Inl ErrSagaPaused, w3)))))"

definition SpawnSagaVerb :: "env \<Rightarrow> handler" where
  "SpawnSagaVerb e run s w =
     (case resolve_child ''spawn_saga'' run s w of
        Inl err \<Rightarrow> (Inl err, w)
      | Inr (d, inputs, startStep) \<Rightarrow>
          (let (c, w1) = spawn_child e (run_id run) (step_id s) ''spawn'' d inputs startStep w
           in case publisher e of
                None \<Rightarrow> (Inr [], w1)
              | Some p \<Rightarrow> (Inr [], ignore (PublishSagaAdvance p c w1))))"

section \<open>Join\<close>

text \<open>The union of the children of the named steps, each step once.\<close>

definition collectWatched :: "mem_store \<Rightarrow> uuid \<Rightarrow> string list \<Rightarrow> saga_run list" where
  "collectWatched s runID streamIDs =
     concat (map (\<lambda>sid. ListChildrenByParent s runID sid) (rev (remdups (rev streamIDs))))"

definition JoinVerb :: "env \<Rightarrow> handler" where
  "JoinVerb e run s w =
     (case ResolveJoinStreams e (map_of (step_inputs s) ''streams'') (run_variables run) of
        Inl err \<Rightarrow> (Inl (Errorf ''join: %w'' [AErr err]), w)
      | Inr streamIDs \<Rightarrow>
          (let watched = collectWatched (st w) (run_id run) streamIDs
           in if watched = []
              then (Inl (Errorf ''join: streams %v matched no spawned children in this run''
                      [AStr (fmt_sprint e (VStrs streamIDs))]), w)
              else case validateJoinStrategy e (step_inputs s) (run_variables run) (length watched) of
                Some err \<Rightarrow> (Inl (Errorf ''join: %w'' [AErr err]), w)
              | None \<Rightarrow>
                  (if JoinConditionMetCtx e (step_inputs s) (run_variables run) watched
                   then (Inr [(''_join.'' @ step_id s @ ''.branches'',
                               AggregateJoinResults e (st w) watched)], w)
                   else case try_store (UpdateRunState (run_id run) RunStatePaused (step_id s)) w of
                     (Some err, w1) \<Rightarrow> (Inl (Errorf ''join: pause run: %w'' [AErr err]), w1)
                   | (None, w1) \<Rightarrow> (Inl ErrSagaPaused, w1))))"

section \<open>Barriers\<close>

text \<open>
  How a watched run may change while a barrier waits: once it has ended it keeps its
  state. A barrier is a condition on the watched group that such progress never undoes.
\<close>

definition progressed :: "saga_run \<Rightarrow> saga_run \<Rightarrow> bool" where
  "progressed r r' \<longleftrightarrow> (IsTerminal (run_state r) \<longrightarrow> run_state r' = run_state r)"

locale barrier =
  fixes met :: "saga_run list \<Rightarrow> bool"
  assumes met_mono: "met g \<Longrightarrow> list_all2 progressed g g' \<Longrightarrow> met g'"
    and met_empty: "\<not> met []"
begin

lemma met_stays:
  assumes "met (g 0)" and "\<And>n. list_all2 progressed (g n) (g (Suc n))"
  shows "met (g n)"
  by (induction n) (use assms met_mono in blast)+

lemma unmet_before:
  assumes "\<And>n. list_all2 progressed (g n) (g (Suc n))" and "\<not> met (g (m + k))"
  shows "\<not> met (g m)"
  using assms(2) by (induction k) (use assms(1) met_mono in \<open>auto\<close>)

end

lemma succeeded_count_mono: "list_all2 progressed g g' \<Longrightarrow> succeeded_count g \<le> succeeded_count g'"
  by (induction rule: list_all2_induct) (auto simp: succeeded_count_def progressed_def)

lemma all_terminal_mono:
  "list_all2 progressed g g' \<Longrightarrow> list_all (\<lambda>r. IsTerminal (run_state r)) g
     \<Longrightarrow> list_all (\<lambda>r. IsTerminal (run_state r)) g'"
  by (induction rule: list_all2_induct) (auto simp: progressed_def)

interpretation join_barrier: barrier "JoinConditionMetCtx e inputs vars" for e inputs vars
proof unfold_locales
  fix g g'
  assume "JoinConditionMetCtx e inputs vars g" and prog: "list_all2 progressed g g'"
  then show "JoinConditionMetCtx e inputs vars g'"
    using succeeded_count_mono [OF prog] all_terminal_mono [OF prog] list_all2_lengthD [OF prog]
    by (auto simp: JoinConditionMetCtx_def Let_def split: if_splits option.splits)
qed (simp add: JoinConditionMetCtx_def)

text \<open>
  The number \<^verbatim>\<open>quorum_n\<close> asks for: the value of its CEL expression when it is a text, else the number it
  is written as.
\<close>

definition quorum_n_is :: "env \<Rightarrow> gomap \<Rightarrow> gomap \<Rightarrow> int \<Rightarrow> bool" where
  "quorum_n_is e inputs vars q \<longleftrightarrow>
     (case map_of inputs ''quorum_n'' of
        Some (VStr qv) \<Rightarrow> (\<exists>v. EvalQuorumNCEL e qv vars = Inr v \<and> ToIntFromAny e v = Some q)
      | x \<Rightarrow> ToInt e x = Some q)"

text \<open>What a validated strategy says about the quorum the barrier will use.\<close>

lemma validated_quorum:
  assumes "check_strategy e pre what inputs vars n = None" and "join_strategy inputs = ''quorum''"
  shows "\<exists>q. quorum_of e inputs vars = Some q \<and> 0 < q \<and> q \<le> int n \<and> quorum_n_is e inputs vars q"
  using assms
  by (auto simp: check_strategy_def check_quorum_def quorum_of_def quorum_n_is_def Let_def
      split: option.splits val.splits sum.splits if_splits)

lemma quorum_n_unique: "quorum_n_is e inputs vars q \<Longrightarrow> quorum_n_is e inputs vars q' \<Longrightarrow> q = q'"
  by (auto simp: quorum_n_is_def split: option.splits val.splits)

text \<open>
  C33: barriers. Take a join strategy that passes validation for a group of that size, with the inputs and
  variables the barrier is then asked with. Once the condition holds it keeps holding however the
  watched runs progress; it holds as soon as every watched run has succeeded; an \<^verbatim>\<open>all\<close> barrier holds
  exactly when every watched run has ended; and a quorum barrier holds exactly when as many of them have
  succeeded as \<^verbatim>\<open>quorum_n\<close> says, a number between one and the size of the group.
\<close>

theorem join_condition:
  assumes "check_strategy e pre what inputs vars (length g) = None" and "g \<noteq> []"
  shows "(JoinConditionMetCtx e inputs vars g \<and> list_all2 progressed g g'
        \<longrightarrow> JoinConditionMetCtx e inputs vars g')
    \<and> (list_all (\<lambda>r. run_state r = RunStateSucceeded) g \<longrightarrow> JoinConditionMetCtx e inputs vars g)
    \<and> (join_strategy inputs = ''all'' \<longrightarrow>
         (JoinConditionMetCtx e inputs vars g \<longleftrightarrow> list_all (\<lambda>r. IsTerminal (run_state r)) g))
    \<and> (join_strategy inputs = ''quorum'' \<longrightarrow> (\<exists>q. quorum_n_is e inputs vars q)
         \<and> (\<forall>q. quorum_n_is e inputs vars q \<longrightarrow> 0 < q \<and> q \<le> int (length g)
              \<and> (JoinConditionMetCtx e inputs vars g \<longleftrightarrow>
                   q \<le> int (length (filter (\<lambda>r. run_state r = RunStateSucceeded) g)))))"
proof -
  have quorum: "\<exists>q. quorum_n_is e inputs vars q \<and> 0 < q \<and> q \<le> int (length g)
      \<and> (JoinConditionMetCtx e inputs vars g \<longleftrightarrow> q \<le> succeeded_count g)"
    if "join_strategy inputs = ''quorum''"
    using validated_quorum [OF assms(1) that] assms(2) that by (auto simp: JoinConditionMetCtx_def)
  have exact: "(\<exists>q. quorum_n_is e inputs vars q)
      \<and> (\<forall>q. quorum_n_is e inputs vars q \<longrightarrow> 0 < q \<and> q \<le> int (length g)
           \<and> (JoinConditionMetCtx e inputs vars g \<longleftrightarrow>
                q \<le> int (length (filter (\<lambda>r. run_state r = RunStateSucceeded) g))))"
    if "join_strategy inputs = ''quorum''"
    using quorum [OF that] quorum_n_unique [of e inputs vars] unfolding succeeded_count_def by metis
  have all: "JoinConditionMetCtx e inputs vars g \<longleftrightarrow> list_all (\<lambda>r. IsTerminal (run_state r)) g"
    if "join_strategy inputs = ''all''"
    using that assms(2) by (simp add: JoinConditionMetCtx_def)
  have "JoinConditionMetCtx e inputs vars g" if ok: "list_all (\<lambda>r. run_state r = RunStateSucceeded) g"
  proof -
    have "filter (\<lambda>r. run_state r = RunStateSucceeded) g = g"
      using ok by (simp add: list_all_iff filter_id_conv)
    then have "succeeded_count g = int (length g)" by (simp add: succeeded_count_def)
    moreover have "list_all (\<lambda>r. IsTerminal (run_state r)) g" using ok by (auto simp: list_all_iff)
    moreover have "join_strategy inputs = ''all'' \<or> join_strategy inputs = ''quorum''"
      using assms(1) by (auto simp: check_strategy_def split: if_splits)
    ultimately show ?thesis using quorum all by auto
  qed
  then show ?thesis using exact all join_barrier.met_mono by blast
qed

definition child_run :: "run_state \<Rightarrow> saga_run" where
  "child_run x = (sample_run ''c'')\<lparr>run_state := x\<rparr>"

definition quorum_two :: gomap where
  "quorum_two = [(''join_strategy'', VStr ''quorum''), (''quorum_n'', VInt 2)]"

lemma quorum_two_reads:
  "join_strategy quorum_two = ''quorum''" "quorum_n_is test_env quorum_two [] 2"
  "2 \<le> n \<Longrightarrow> check_strategy test_env [] [] quorum_two [] n = None"
  by (simp_all add: quorum_two_def check_strategy_def join_strategy_def get_str_def check_quorum_def
      ToInt_def quorum_n_is_def)

theorem join_condition_witness:
  "\<not> JoinConditionMetCtx test_env quorum_two [] [child_run RunStateSucceeded, child_run RunStateFailed]
   \<and> JoinConditionMetCtx test_env quorum_two []
       [child_run RunStateSucceeded, child_run RunStateFailed, child_run RunStateSucceeded]"
proof -
  have met: "JoinConditionMetCtx test_env quorum_two [] g
      \<longleftrightarrow> 2 \<le> int (length (filter (\<lambda>r. run_state r = RunStateSucceeded) g))" if "2 \<le> length g" for g
    using join_condition [of test_env "[]" "[]" quorum_two "[]" g] quorum_two_reads(1,2) quorum_two_reads(3) [of "length g"] that
    by (cases "g = []") auto
  show ?thesis by (simp add: met child_run_def)
qed

section \<open>Pausing\<close>

definition parent_paused :: "uuid \<Rightarrow> string \<Rightarrow> world \<Rightarrow> bool" where
  "parent_paused i sid w \<longleftrightarrow>
     (case map_of (runs (st w)) i of
        None \<Rightarrow> False
      | Some r \<Rightarrow> run_state r = RunStatePaused \<and> run_current_step r = sid)"

lemma parent_paused_run: "parent_paused i sid w \<Longrightarrow> paused_run i w"
  by (auto simp: parent_paused_def paused_run_def split: option.splits)

lemma parent_paused_st: "st w' = st w \<Longrightarrow> parent_paused i sid w' = parent_paused i sid w"
  by (simp add: parent_paused_def)

lemma update_paused:
  "try_store (UpdateRunState i RunStatePaused sid) w = (None, w') \<Longrightarrow> parent_paused i sid w'"
  by (auto simp: try_store_None_iff UpdateRunState_def with_run_def parent_paused_def
      split: option.splits)

lemma PublishSagaAdvance_st: "PublishSagaAdvance p c w = (r, w') \<Longrightarrow> st w' = st w"
  using PublishSagaAdvance_frame(1) [of p c w] by simp

lemma publish_all_st: "publish_all p fmt i cs w = (r, w') \<Longrightarrow> st w' = st w"
  by (induction p fmt i cs w rule: publish_all.induct)
    (auto split: prod.splits option.splits dest: PublishSagaAdvance_st)

lemma pause_and_publish_paused:
  assumes "pause_and_publish e f1 f2 run s ids w = (Inl ErrSagaPaused, w')"
  shows "parent_paused (run_id run) (step_id s) w'"
proof -
  obtain w1 where "try_store (UpdateRunState (run_id run) RunStatePaused (step_id s)) w = (None, w1)"
    and "st w' = st w1"
    using assms
    by (auto simp: pause_and_publish_def split: prod.splits option.splits dest: publish_all_st)
  then show ?thesis using update_paused parent_paused_st by blast
qed

text \<open>Errors of the checks and of spawning are never the pause sentinel.\<close>

lemma check_strategy_error: "check_strategy e pre what inputs vars n = Some err \<Longrightarrow> err \<noteq> ErrSagaPaused"
  by (auto simp: check_strategy_def check_quorum_def Let_def
      split: if_splits option.splits val.splits sum.splits)

lemma plan_branch_error: "plan_branch e run s i b = Inl err \<Longrightarrow> err \<noteq> ErrSagaPaused"
  by (cases b) (auto simp: plan_branch_def Let_def split: if_splits sum.splits)

lemma spawn_branches_error:
  "spawn_branches e run s i bs w = (Inl err, w') \<Longrightarrow> err \<noteq> ErrSagaPaused"
  by (induction bs arbitrary: i w w')
    (auto simp: Let_def dest: plan_branch_error split: sum.splits prod.splits)

lemma pause_and_publish_error:
  "pause_and_publish e f1 f2 run s ids w = (Inl err, w') \<Longrightarrow>
     err = ErrSagaPaused \<or> (\<exists>f args. err = Errorf f args)"
proof -
  have "publish_all p fmt i cs w = (Some er, w') \<Longrightarrow> \<exists>f args. er = Errorf f args" for p fmt i cs w er w'
    by (induction p fmt i cs w rule: publish_all.induct) (auto split: prod.splits option.splits)
  then show "pause_and_publish e f1 f2 run s ids w = (Inl err, w') \<Longrightarrow>
     err = ErrSagaPaused \<or> (\<exists>f args. err = Errorf f args)"
    by (auto simp: pause_and_publish_def split: prod.splits option.splits)
qed

lemma parallel_paused:
  assumes "ParallelVerb e run s w = (Inl ErrSagaPaused, w')"
  shows "parent_paused (run_id run) (step_id s) w'"
  using assms check_strategy_error spawn_branches_error
  by (auto simp: ParallelVerb_def Let_def
      split: option.splits val.splits sum.splits if_splits prod.splits
      dest: pause_and_publish_paused)

interpretation parallel: pausing_verb "ParallelVerb e" for e
  by unfold_locales (blast intro: parent_paused_run parallel_paused)

interpretation foreach: pausing_verb "ForeachVerb e" for e
  by unfold_locales
    (auto simp: ForeachVerb_def cel_run_def Let_def
      split: if_splits sum.splits val.splits prod.splits
      dest!: pause_and_publish_paused intro: parent_paused_run)

interpretation sub_saga: pausing_verb "SubSagaVerb e" for e
proof unfold_locales
  fix run s w w'
  assume a: "SubSagaVerb e run s w = (Inl ErrSagaPaused, w')"
  have "resolve_child ''sub_saga'' run s w = Inl err \<Longrightarrow> err \<noteq> ErrSagaPaused" for err
    by (auto simp: resolve_child_def Let_def split: if_splits sum.splits)
  then obtain w1 w2 where "try_store (UpdateRunState (run_id run) RunStatePaused (step_id s)) w1 = (None, w2)"
    and "st w' = st w2"
    using a
    by (auto simp: SubSagaVerb_def Let_def split: sum.splits prod.splits option.splits
        dest: PublishSagaAdvance_st)
  then show "paused_run (run_id run) w'"
    using update_paused parent_paused_st parent_paused_run by metis
qed

interpretation join: pausing_verb "JoinVerb e" for e
  by unfold_locales
    (auto simp: JoinVerb_def Let_def split: sum.splits if_splits option.splits prod.splits
      intro: parent_paused_run update_paused)

section \<open>Fan-out\<close>

text \<open>
  What \<^verbatim>\<open>uuid.New()\<close> is relied on for: it does not repeat, and what it will return is not the
  id of a run already stored.
\<close>

definition ids_fresh :: "env \<Rightarrow> world \<Rightarrow> bool" where
  "ids_fresh e w \<longleftrightarrow> inj (uuid_new e) \<and> (\<forall>n \<ge> draws w. map_of (runs (st w)) (uuid_new e n) = None)"

definition child_of :: "saga_run \<Rightarrow> step \<Rightarrow> saga_run \<Rightarrow> bool" where
  "child_of run s r \<longleftrightarrow> run_state r = RunStatePending \<and> run_parent_run_id r = Some (run_id run)
     \<and> run_parent_step_id r = Some (step_id s)"

text \<open>From \<open>w\<close> to \<open>w'\<close> exactly the children \<open>ids\<close> were added and nothing was sent.\<close>

definition spawned :: "env \<Rightarrow> saga_run \<Rightarrow> step \<Rightarrow> string list \<Rightarrow> world \<Rightarrow> world \<Rightarrow> bool" where
  "spawned e run s ids w w' \<longleftrightarrow>
     ids_fresh e w' \<and> distinct ids \<and> queue w' = queue w \<and> outbox w' = outbox w
     \<and> (\<forall>c \<in> set ids. map_of (runs (st w)) c = None
          \<and> (\<exists>r. map_of (runs (st w')) c = Some r \<and> child_of run s r))
     \<and> (\<forall>j. j \<notin> set ids \<longrightarrow> map_of (runs (st w')) j = map_of (runs (st w)) j)"

lemma spawned_Nil: "ids_fresh e w \<Longrightarrow> spawned e run s [] w w"
  by (simp add: spawned_def)

lemma spawned_Cons:
  assumes "spawned e run s [c] w w1" and "spawned e run s ids w1 w2"
  shows "spawned e run s (c # ids) w w2"
proof -
  have c: "c \<notin> set ids" using assms by (force simp: spawned_def)
  then have "map_of (runs (st w2)) c = map_of (runs (st w1)) c"
    using assms(2) by (simp add: spawned_def)
  moreover have "map_of (runs (st w)) d = None" if "d \<in> set ids" for d
    using assms that c unfolding spawned_def by (metis empty_iff empty_set set_ConsD)
  ultimately show ?thesis using assms c unfolding spawned_def by auto
qed

lemma runs_SpawnChildRunAt:
  "\<exists>di. runs (SpawnChildRunAt f c now p ps b d inputs start s) =
     AList.update c (new_child c now di p ps b d inputs start) (runs s)"
  by (auto simp: SpawnChildRunAt_def Let_def)

lemma upsert_spawn:
  assumes "ids_fresh e w"
    and "spawn_child e (run_id run) (step_id s) key d inputs start (upsert_def e d w) = (c, w')"
  shows "spawned e run s [c] w w'"
proof -
  let ?w1 = "upsert_def e d w"
  let ?now = "wall ?w1"
  have w1: "draws ?w1 = Suc (draws w)" "runs (st ?w1) = runs (st w)" "queue ?w1 = queue w"
    "outbox ?w1 = outbox w" "at_key (defsByName (st ?w1)) (def_id d) \<noteq> []"
    by (simp_all add: upsert_def_def fresh_def do_store_def UpsertWorkflowDefinition_def at_key_update)
  then have c: "c = uuid_new e (Suc (draws w))"
    and w'_eq: "w' = do_store (SpawnChildRunAt [] c ?now (run_id run) (step_id s) key d inputs start)
      (?w1\<lparr>draws := Suc (Suc (draws w))\<rparr>)"
    using assms(2) by (auto simp: spawn_child_def fresh_def)
  have frame: "draws w' = Suc (Suc (draws w))" "queue w' = queue w" "outbox w' = outbox w"
    by (simp_all add: w'_eq do_store_def w1)
  obtain di where w': "runs (st w') =
      AList.update c (new_child c ?now di (run_id run) (step_id s) key d inputs start) (runs (st w))"
    using runs_SpawnChildRunAt [of "[]" c ?now "run_id run" "step_id s" key d inputs start "st ?w1"]
    by (auto simp: w'_eq do_store_def w1)
  have inj: "inj (uuid_new e)" and absent: "\<And>n. n \<ge> draws w \<Longrightarrow> map_of (runs (st w)) (uuid_new e n) = None"
    using assms(1) by (simp_all add: ids_fresh_def)
  have "uuid_new e n \<noteq> c" if "n \<ge> draws w'" for n
    using that injD [OF inj, of n "Suc (draws w)"] by (auto simp: c frame)
  then have "ids_fresh e w'"
    using inj absent by (simp add: ids_fresh_def frame w')
  moreover have "map_of (runs (st w)) c = None" using absent by (simp add: c)
  ultimately show ?thesis by (simp add: spawned_def frame w' child_of_def)
qed

lemma spawn_branches_spawned:
  "ids_fresh e w \<Longrightarrow> spawn_branches e run s i bs w = (Inr ids, w') \<Longrightarrow>
     spawned e run s ids w w' \<and> length ids = length bs"
proof (induction bs arbitrary: i w ids)
  case (Cons b bs)
  then obtain key d c w1 rest where one:
      "spawn_child e (run_id run) (step_id s) key d (run_variables run) [] (upsert_def e d w) = (c, w1)"
    and rest: "spawn_branches e run s (Suc i) bs w1 = (Inr rest, w')" and ids: "ids = c # rest"
    by (auto simp: Let_def split: sum.splits prod.splits)
  have sp: "spawned e run s [c] w w1" using upsert_spawn [OF Cons.prems(1) one] .
  then have "ids_fresh e w1" by (simp add: spawned_def)
  from Cons.IH [OF this rest] show ?case using sp spawned_Cons ids by auto
qed (simp add: spawned_Nil)

lemma spawn_items_spawned:
  "ids_fresh e w \<Longrightarrow> spawn_items e run s start body i items w = (ids, w') \<Longrightarrow>
     spawned e run s ids w w' \<and> length ids = length items"
proof (induction items arbitrary: i w ids)
  case (Cons x items)
  then obtain key d inputs c w1 rest where one:
      "spawn_child e (run_id run) (step_id s) key d inputs [] (upsert_def e d w) = (c, w1)"
    and rest: "spawn_items e run s start body (Suc i) items w1 = (rest, w')" and ids: "ids = c # rest"
    by (auto simp: Let_def split: prod.splits)
  have sp: "spawned e run s [c] w w1" using upsert_spawn [OF Cons.prems(1) one] .
  then have "ids_fresh e w1" by (simp add: spawned_def)
  from Cons.IH [OF this rest] show ?case using sp spawned_Cons ids by auto
qed (simp add: spawned_Nil)

lemma publish_all_accepted:
  "\<forall>w c. parent_paused i sid w \<longrightarrow> p w c = None \<Longrightarrow> parent_paused i sid w \<Longrightarrow>
     publish_all p fmt n cs w = (None, w\<lparr>queue := queue w @ cs\<rparr>)"
proof (induction cs arbitrary: n w)
  case (Cons c cs)
  have "PublishSagaAdvance p c w = (None, w\<lparr>queue := queue w @ [c]\<rparr>)"
    using Cons.prems by (simp add: PublishSagaAdvance_def)
  then show ?case
    using Cons.IH [OF Cons.prems(1), of "w\<lparr>queue := queue w @ [c]\<rparr>" "Suc n"] Cons.prems(2)
    by (simp add: parent_paused_def)
qed simp

lemma pause_and_publish_ok:
  assumes "spawned e run s ids w w1" and "map_of (runs (st w)) (run_id run) = Some r"
    and "publisher e = Some p"
    and "\<forall>w c. parent_paused (run_id run) (step_id s) w \<longrightarrow> p w c = None"
  shows "\<exists>w'. pause_and_publish e f1 f2 run s ids w1 = (Inl ErrSagaPaused, w')
    \<and> parent_paused (run_id run) (step_id s) w' \<and> queue w' = queue w @ ids
    \<and> (\<forall>c \<in> set ids. \<exists>ch. map_of (runs (st w')) c = Some ch \<and> child_of run s ch)"
proof -
  have notin: "run_id run \<notin> set ids" using assms(1,2) by (auto simp: spawned_def)
  then have r1: "map_of (runs (st w1)) (run_id run) = Some r" "run_id run \<notin> set ids"
    using assms(1,2) unfolding spawned_def by simp_all
  define w2 where "w2 = w1\<lparr>st := (st w1)\<lparr>runs := AList.update (run_id run)
    (r\<lparr>run_state := RunStatePaused, run_current_step := step_id s\<rparr>) (runs (st w1))\<rparr>\<rparr>"
  have up: "try_store (UpdateRunState (run_id run) RunStatePaused (step_id s)) w1 = (None, w2)"
    using r1 by (simp add: try_store_def UpdateRunState_def with_run_def w2_def)
  have "publish_all p f2 0 ids w2 = (None, w2\<lparr>queue := queue w2 @ ids\<rparr>)"
    by (rule publish_all_accepted [OF assms(4) update_paused [OF up]])
  then have "pause_and_publish e f1 f2 run s ids w1 = (Inl ErrSagaPaused, w2\<lparr>queue := queue w2 @ ids\<rparr>)"
    by (simp add: pause_and_publish_def up assms(3))
  moreover have "queue w2 = queue w" using assms(1) by (simp add: w2_def spawned_def)
  moreover have "\<forall>c \<in> set ids. \<exists>ch. map_of (runs (st w2)) c = Some ch \<and> child_of run s ch"
    using assms(1) r1(2) by (auto simp: w2_def spawned_def)
  moreover have "parent_paused (run_id run) (step_id s) (w2\<lparr>queue := queue w2 @ ids\<rparr>)"
    using update_paused [OF up] by (simp add: parent_paused_def)
  ultimately show ?thesis by (intro exI [of _ "w2\<lparr>queue := queue w2 @ ids\<rparr>"]) simp
qed

text \<open>
  C32: a parallel step whose branches parse pauses its parent before it publishes
  anything. With a publisher that accepts a message only once the parent is paused on
  the step, no publish fails: the verb pauses, one pending child per branch exists
  under the step, and exactly those children were published, each once and in branch order.
\<close>

theorem parallel_fanout:
  assumes "ids_fresh e w" and "map_of (runs (st w)) (run_id run) = Some r"
    and "map_of (step_inputs s) ''branches'' = Some (VList bs)" and "bs \<noteq> []"
    and "check_strategy e ''parallel: '' ''branch'' (step_inputs s) (run_variables run) (length bs) = None"
    and "\<forall>i < length bs. \<exists>kd. plan_branch e run s i (bs ! i) = Inr kd"
    and "publisher e = Some p"
    and "\<forall>w c. parent_paused (run_id run) (step_id s) w \<longrightarrow> p w c = None"
  shows "\<exists>w' ids. ParallelVerb e run s w = (Inl ErrSagaPaused, w')
    \<and> parent_paused (run_id run) (step_id s) w' \<and> queue w' = queue w @ ids
    \<and> distinct ids \<and> length ids = length bs
    \<and> (\<forall>c \<in> set ids. map_of (runs (st w)) c = None \<and>
         (\<exists>ch. map_of (runs (st w')) c = Some ch \<and> child_of run s ch))"
proof -
  have plans: "\<exists>ids w1. spawn_branches e run s k cs v = (Inr ids, w1)"
    if "\<forall>i < length cs. \<exists>kd. plan_branch e run s (k + i) (cs ! i) = Inr kd" for k cs v
    using that
  proof (induction cs arbitrary: k v)
    case (Cons c cs)
    then obtain key d where "plan_branch e run s k c = Inr (key, d)" by fastforce
    moreover have "\<forall>i < length cs. \<exists>kd. plan_branch e run s (Suc k + i) (cs ! i) = Inr kd"
      using Cons.prems by auto
    ultimately show ?case
      using Cons.IH [of "Suc k"] by (auto simp: Let_def split: prod.splits sum.splits) (metis Inl_Inr_False prod.inject)
  qed simp
  obtain ids w1 where sp: "spawn_branches e run s 0 bs w = (Inr ids, w1)"
    using plans [of bs 0 w] assms(6) by auto
  note ok = spawn_branches_spawned [OF assms(1) sp]
  obtain w' where w': "pause_and_publish e ''parallel: pause parent: %w''
      ''parallel: publish branch %d: %w'' run s ids w1 = (Inl ErrSagaPaused, w')"
    and after: "parent_paused (run_id run) (step_id s) w'" "queue w' = queue w @ ids"
      "\<forall>c \<in> set ids. \<exists>ch. map_of (runs (st w')) c = Some ch \<and> child_of run s ch"
    using pause_and_publish_ok [OF conjunct1 [OF ok] assms(2,7,8)] by blast
  have "ParallelVerb e run s w = (Inl ErrSagaPaused, w')"
    using assms(3-5) sp w' by (simp add: ParallelVerb_def)
  then show ?thesis
    using after ok by (intro exI [of _ w'] exI [of _ ids]) (simp add: spawned_def)
qed

definition two_branches :: "val list" where
  "two_branches = [VMap [(''type'', VStr ''noop'')], VMap [(''type'', VStr ''noop'')]]"

definition fan_step :: step where
  "fan_step = (blank_step ''fan'')\<lparr>step_type := StepTypeParallel,
     step_inputs := [(''branches'', VList two_branches)]\<rparr>"

lemma show_nat_no_r: "CHR ''r'' \<notin> set (show_nat n)"
proof (induction n rule: show_nat.induct)
  case (1 n)
  have d: "digit_char k \<noteq> CHR ''r''" if "k < 10" for k
  proof
    assume "digit_char k = CHR ''r''"
    then have "(of_char (digit_char k) :: nat) = of_char (CHR ''r'')" by simp
    with that show False by (simp add: digit_char_def take_bit_nat_eq_self)
  qed
  show ?case using 1 d [of n] d [of "n mod 10"] by (subst show_nat.simps) (auto dest: sym)
qed

lemma test_ids_fresh: "ids_fresh test_env test_world"
proof -
  have "show_nat n \<noteq> ''r1''" for n using show_nat_no_r [of n] by auto
  then show ?thesis
    by (auto simp: ids_fresh_def test_env_def test_world_def sample_store_def CreateRun_def New_def
        sample_run_def NewSagaRun_def inj_def dest: show_nat_inj)
qed

theorem parallel_fanout_witness:
  "\<exists>w' ids. ParallelVerb test_env (sample_run ''r1'') fan_step test_world = (Inl ErrSagaPaused, w')
    \<and> parent_paused (run_id (sample_run ''r1'')) (step_id fan_step) w' \<and> queue w' = queue test_world @ ids
    \<and> distinct ids \<and> length ids = length two_branches
    \<and> (\<forall>c \<in> set ids. map_of (runs (st test_world)) c = None \<and>
         (\<exists>ch. map_of (runs (st w')) c = Some ch \<and> child_of (sample_run ''r1'') fan_step ch))"
proof (rule parallel_fanout [OF test_ids_fresh, where p = "\<lambda>_ _. None"])
  show "map_of (runs (st test_world)) (run_id (sample_run ''r1'')) = Some (sample_run ''r1'')"
    by (simp add: test_world_def sample_store_def CreateRun_def New_def sample_run_def NewSagaRun_def)
  show "map_of (step_inputs fan_step) ''branches'' = Some (VList two_branches)"
    by (simp add: fan_step_def)
  show "two_branches \<noteq> []" by (simp add: two_branches_def)
  show "check_strategy test_env ''parallel: '' ''branch'' (step_inputs fan_step)
      (run_variables (sample_run ''r1'')) (length two_branches) = None"
    by (simp add: check_strategy_def join_strategy_def get_str_def fan_step_def)
  have "\<exists>kd. plan_branch test_env (sample_run ''r1'') fan_step i (VMap [(''type'', VStr ''noop'')]) = Inr kd" for i
    by (simp add: plan_branch_def normalizeBranch_def Let_def get_str_def get_map_def get_list_def
        parseSteps_def dec_step_def dec_str_def dec_map_def dec_retry_def dec_compensation_def
        json_field_def bind_err_def to_lower_def lower_char_def)
  then show "\<forall>i < length two_branches. \<exists>kd. plan_branch test_env (sample_run ''r1'') fan_step i
      (two_branches ! i) = Inr kd"
    by (auto simp: two_branches_def less_Suc_eq)
  show "publisher test_env = Some (\<lambda>_ _. None)" by (simp add: test_env_def)
qed simp

end
