(* ===== verification/Verbs_IO.thy ===== *)
theory Verbs_IO
  imports Verbs_Fanout
begin

text \<open>
  The verbs that talk to the outside: action dispatch and its compensation counterpart
  (\<^verbatim>\<open>engine/verbs/action.go\<close>), HTTP requests, webhooks, emitted events and the cancel verb.
\<close>

section \<open>Actions\<close>

text \<open>
  The fields of \<^verbatim>\<open>ActionVerb\<close>: whether a store is set, and the three optional senders.
\<close>

record action_verb =
  av_store :: bool
  av_publisher :: "sender option"
  av_http :: "sender option"
  av_rmq :: "sender option"

text \<open>The zero value \<^verbatim>\<open>var av verbs.ActionVerb\<close>.\<close>

definition no_action_verb :: action_verb where
  "no_action_verb = \<lparr>av_store = False, av_publisher = None, av_http = None, av_rmq = None\<rparr>"

fun index_of :: "char \<Rightarrow> string \<Rightarrow> nat option" where
  "index_of c [] = None"
| "index_of c (x # xs) =
     (if x = c then Some 0 else (case index_of c xs of None \<Rightarrow> None | Some i \<Rightarrow> Some (Suc i)))"

definition splitAction :: "string \<Rightarrow> (string \<times> string) option" where
  "splitAction action =
     (case index_of (CHR ''.'') action of
        None \<Rightarrow> None
      | Some i \<Rightarrow> (if i = 0 \<or> i = length action - 1 then None
                  else Some (take i action, drop (Suc i) action)))"

fun best_registration ::
  "string \<Rightarrow> action_registration option \<Rightarrow> action_registration list \<Rightarrow> action_registration option" where
  "best_registration name best [] = best"
| "best_registration name best (r # rs) =
     (if reg_action_name r \<noteq> name then best_registration name best rs
      else case best of
        None \<Rightarrow> best_registration name (Some r) rs
      | Some b \<Rightarrow> best_registration name (if reg_version r > reg_version b then Some r else Some b) rs)"

definition resolveDispatch :: "action_verb \<Rightarrow> mem_store \<Rightarrow> string \<Rightarrow> string \<times> string" where
  "resolveDispatch av s action =
     (case splitAction action of
        None \<Rightarrow> ([], [])
      | Some (service, name) \<Rightarrow>
          (if \<not> av_store av then ([], [])
           else case best_registration name None
                       (ListActions \<lparr>afilter_service = service, afilter_search = [],
                                     afilter_category = []\<rparr> s) of
             None \<Rightarrow> ([], [])
           | Some b \<Rightarrow> (reg_transport b, reg_address b)))"

definition generateIdempotencyKey :: "env \<Rightarrow> string \<Rightarrow> string \<Rightarrow> int \<Rightarrow> string" where
  "generateIdempotencyKey e runID stepID attempt =
     sha256_hex e (runID @ ''|'' @ stepID @ ''|'' @ show_int attempt)"

text \<open>
  \<^verbatim>\<open>dispatch\<close>: the error it returns and the world after it. Marshalling the payload cannot fail
  on the values of the model, so the body is the payload itself.
\<close>

definition dispatch :: "action_verb \<Rightarrow> string \<Rightarrow> payload \<Rightarrow> world \<Rightarrow> gerr option \<times> world" where
  "dispatch av action body w =
     (let (transport, address) = resolveDispatch av (st w) action
      in if transport = [] \<or> transport = ''grpc''
         then (case av_publisher av of
                 None \<Rightarrow> (None, w)
               | Some p \<Rightarrow>
                   (case p w action body of
                      Some err \<Rightarrow> (Some (Errorf ''action: grpc dispatch: %w'' [AErr err]), w)
                    | None \<Rightarrow> (None, send (ToExchange action body) w)))
         else if transport = ''http''
         then (if address = []
               then (Some (Errorf ''action %q: transport http requires an address'' [AStr action]), w)
               else case av_http av of
                 None \<Rightarrow> (Some (Errorf ''action %q: transport http not supported (no http dispatcher configured)''
                            [AStr action]), w)
               | Some d \<Rightarrow>
                   (case d w address body of
                      Some err \<Rightarrow> (Some (Errorf ''action: http dispatch: %w'' [AErr err]), w)
                    | None \<Rightarrow> (None, send (ToURL address body) w)))
         else if transport = ''rmq''
         then (if address = []
               then (Some (Errorf ''action %q: transport rmq requires an address'' [AStr action]), w)
               else case av_rmq av of
                 None \<Rightarrow> (Some (Errorf ''action %q: transport rmq not supported (no rmq dispatcher configured)''
                            [AStr action]), w)
               | Some d \<Rightarrow>
                   (case d w address body of
                      Some err \<Rightarrow> (Some (Errorf ''action: rmq dispatch: %w'' [AErr err]), w)
                    | None \<Rightarrow> (None, send (ToQueue address body) w)))
         else (Some (Errorf ''action %q: unknown transport %q'' [AStr action, AStr transport]), w))"

definition ActionVerb :: "env \<Rightarrow> action_verb \<Rightarrow> handler" where
  "ActionVerb e av run s w =
     (let action = step_action s
      in if action = []
         then (Inl (Errorf ''action: step.Action required (format service.name)'' []), w)
         else if \<not> contains_str action ''.''
         then (Inl (Errorf ''action: bad format %q (want service.name)'' [AStr action]), w)
         else
           (let attempt = run_current_attempt run + 1;
                idemKey = generateIdempotencyKey e (run_id run) (step_id s) attempt;
                body = ActionPayload (run_id run) (step_id s) attempt idemKey action
                         (step_inputs s) (run_dry_run run)
            in case try_store (MarkAwaitingAction (run_id run) action attempt) w of
                 (Some err, w1) \<Rightarrow> (Inl (Errorf ''action: mark awaiting: %w'' [AErr err]), w1)
               | (None, w1) \<Rightarrow>
                   (case dispatch av action body w1 of
                      (Some err, w2) \<Rightarrow> (Inl err, w2)
                    | (None, w2) \<Rightarrow> (Inl ErrSagaPaused, w2))))"

definition DispatchCompensation ::
  "action_verb \<Rightarrow> string \<Rightarrow> string \<Rightarrow> string \<Rightarrow> gomap \<Rightarrow> bool \<Rightarrow> world \<Rightarrow> gerr option \<times> world" where
  "DispatchCompensation av runID stepID action inputs dryRun w =
     (if action = []
      then (Some (Errorf ''compensation: action required (format service.name)'' []), w)
      else if \<not> contains_str action ''.''
      then (Some (Errorf ''compensation: bad action format %q (want service.name)'' [AStr action]), w)
      else dispatch av action (CompensationPayload runID stepID action inputs dryRun) w)"

section \<open>HTTP\<close>

text \<open>\<^verbatim>\<open>Header.Set\<close> in iteration order; header names are taken as already canonical.\<close>

definition set_headers :: "env \<Rightarrow> gomap \<Rightarrow> (string \<times> string) list \<Rightarrow> (string \<times> string) list" where
  "set_headers e hdrs h = foldl (\<lambda>m (k, v). AList.update k (fmt_sprint e v) m) h hdrs"

text \<open>The first value of each response header that has one, and \<^verbatim>\<open>Header.Get\<close>.\<close>

definition first_headers :: "(string \<times> string list) list \<Rightarrow> (string \<times> string) list" where
  "first_headers hs = foldl (\<lambda>m (k, vs). case vs of [] \<Rightarrow> m | v # _ \<Rightarrow> AList.update k v m) [] hs"

definition header_get :: "(string \<times> string list) list \<Rightarrow> string \<Rightarrow> string" where
  "header_get hs k = (case map_of hs k of Some (v # _) \<Rightarrow> v | _ \<Rightarrow> [])"

definition HTTPRequestVerb :: "env \<Rightarrow> handler" where
  "HTTPRequestVerb e run s w =
     (let inp = step_inputs s;
          method0 = get_str inp ''method'';
          method = (if method0 = [] then ''GET'' else method0);
          url = get_str inp ''url'';
          timeoutS = or_default (get_float inp ''timeout_s'') 30;
          outVar0 = get_str inp ''out_var'';
          outVar = (if outVar0 = [] then ''http_result'' else outVar0);
          body = (case map_of inp ''body'' of Some VNil \<Rightarrow> None | b \<Rightarrow> b);
          hdrs = set_headers e (or_default (get_map inp ''headers'') []) [];
          ref = get_str inp ''secret_ref''
      in if url = [] then (Inl (Errorf ''http_request: url required'' []), w)
         else case bad_request e method url of
           Some err \<Rightarrow> (Inl (Errorf ''http_request: build: %w'' [AErr err]), w)
         | None \<Rightarrow>
             (case (if ref = [] then Inr hdrs
                    else case secrets e of
                      None \<Rightarrow> Inl (Errorf ''http_request: secret_ref %q given but no Secrets resolver wired''
                                [AStr ref])
                    | Some get \<Rightarrow>
                        (case get ref of
                           Inl err \<Rightarrow> Inl (Errorf ''http_request: secret: %w'' [AErr err])
                         | Inr v \<Rightarrow> Inr (AList.update ''Authorization'' v hdrs))) of
                Inl err \<Rightarrow> (Inl err, w)
              | Inr h \<Rightarrow>
                  (let req = \<lparr>req_method = method, req_url = url, req_headers = h, req_body = body,
                              req_timeout = seconds_duration e timeoutS\<rparr>
                   in case http_do e w req of
                        Inl err \<Rightarrow> (Inl (Errorf ''http_request: do: %w'' [AErr err]), send (ToHTTP req) w)
                      | Inr resp \<Rightarrow>
                          (let parsed =
                             (if has_prefix (header_get (resp_headers resp) ''Content-Type'') ''application/json''
                              then or_default (resp_json resp) (VStr (resp_body resp))
                              else VStr (resp_body resp))
                           in (Inr [(outVar, parsed), (outVar @ ''_status'', VInt64 (resp_status resp)),
                                    (outVar @ ''_headers'', VStrMap (first_headers (resp_headers resp)))],
                               send (ToHTTP req) w)))))"

text \<open>The request of an async webhook is sent by a goroutine; its outcome is discarded.\<close>

definition WebhookEmitVerb :: "env \<Rightarrow> handler" where
  "WebhookEmitVerb e run s w =
     (let inp = step_inputs s;
          url = get_str inp ''url'';
          timeoutS = or_default (get_float inp ''timeout_s'') 15;
          async = or_default (get_bool inp ''async'') False;
          outVar0 = get_str inp ''out_var'';
          outVar = (if outVar0 = [] then ''webhook_result'' else outVar0);
          ref = get_str inp ''secret_ref''
      in if url = [] then (Inl (Errorf ''webhook_emit: url required'' []), w)
         else case map_of inp ''body'' of
           None \<Rightarrow> (Inl (Errorf ''webhook_emit: body required'' []), w)
         | Some bodyAny \<Rightarrow>
             (case bad_request e ''POST'' url of
                Some err \<Rightarrow> (Inl (Errorf ''webhook_emit: build: %w'' [AErr err]), w)
              | None \<Rightarrow>
                  (let hdrs = set_headers e (or_default (get_map inp ''headers'') [])
                                [(''Content-Type'', ''application/json'')]
                   in case (if ref = [] then Inr hdrs
                            else case secrets e of
                              None \<Rightarrow> Inl (Errorf ''webhook_emit: secret_ref %q but no Secrets resolver''
                                        [AStr ref])
                            | Some get \<Rightarrow>
                                (case get ref of
                                   Inl err \<Rightarrow> Inl (Errorf ''webhook_emit: secret: %w'' [AErr err])
                                 | Inr key \<Rightarrow> Inr (AList.update ''X-Webhook-Sig''
                                                (''sha256='' @ hmac_hex e key bodyAny) hdrs))) of
                        Inl err \<Rightarrow> (Inl err, w)
                      | Inr h \<Rightarrow>
                          (let req = \<lparr>req_method = ''POST'', req_url = url, req_headers = h,
                                      req_body = Some bodyAny,
                                      req_timeout = seconds_duration e timeoutS\<rparr>;
                               w1 = send (ToHTTP req) w
                           in if async then (Inr [(outVar @ ''_async'', VBool True)], w1)
                              else case http_do e w req of
                                Inl err \<Rightarrow> (Inl (Errorf ''webhook_emit: do: %w'' [AErr err]), w1)
                              | Inr resp \<Rightarrow>
                                  (Inr [(outVar @ ''_status'', VInt64 (resp_status resp))], w1)))))"

section \<open>Events and cancellation\<close>

definition EmitEventVerb :: "env \<Rightarrow> handler" where
  "EmitEventVerb e run s w =
     (let topic = get_str (step_inputs s) ''topic''
      in if topic = [] then (Inl (Errorf ''emit_event: topic required'' []), w)
         else case emitter e of
           None \<Rightarrow> (Inl (Errorf ''emit_event: no EventEmitter configured'' []), w)
         | Some em \<Rightarrow>
             (case em topic (string_headers e s)
                     (or_default (get_map (step_inputs s) ''payload'') []) w of
                (Some err, w') \<Rightarrow> (Inl (Errorf ''emit_event: %w'' [AErr err]), w')
              | (None, w') \<Rightarrow> (Inr [], w')))"

text \<open>\<open>checker\<close> is the optional \<^verbatim>\<open>JoinChecker\<close>: the coordinator's \<^verbatim>\<open>CheckParentJoin\<close>.\<close>

definition CancelVerb :: "env \<Rightarrow> (saga_run \<Rightarrow> world \<Rightarrow> world) option \<Rightarrow> handler" where
  "CancelVerb e checker run s w =
     (let runIDStr = get_str (step_inputs s) ''run_id''
      in if runIDStr = [] \<or> runIDStr = run_id run then (Inl ErrSagaCancelled, w)
         else case uuid_parse e runIDStr of
           Inl err \<Rightarrow> (Inl (Errorf ''cancel: bad run_id: %w'' [AErr err]), w)
         | Inr targetID \<Rightarrow>
             (case try_store (UpdateRunState targetID RunStateCancelled []) w of
                (Some err, w1) \<Rightarrow> (Inl (Errorf ''cancel: update target: %w'' [AErr err]), w1)
              | (None, w1) \<Rightarrow>
                  (let w2 = emit e targetID (step_id s) 0 EventRunCancelled ''engine'' [] w1
                   in (Inr [],
                       case checker of
                         None \<Rightarrow> w2
                       | Some chk \<Rightarrow>
                           (case GetRun (st w2) targetID of
                              Inl _ \<Rightarrow> w2
                            | Inr target \<Rightarrow> chk target w2)))))"

section \<open>Action names\<close>

lemma index_of_first: "c \<notin> set xs \<Longrightarrow> index_of c (xs @ c # ys) = Some (length xs)"
  by (induction xs) auto

lemma splitAction_join:
  "service \<noteq> [] \<Longrightarrow> name \<noteq> [] \<Longrightarrow> CHR ''.'' \<notin> set service \<Longrightarrow>
     splitAction (service @ ''.'' @ name) = Some (service, name)"
  by (simp add: splitAction_def index_of_first)

lemma contains_dot: "CHR ''.'' \<in> set a \<longleftrightarrow> contains_str a ''.''"
  by (induction a) auto

lemma best_registration_max:
  assumes "best_registration name b rs = Some r"
  shows "(b = Some r \<or> r \<in> set rs \<and> reg_action_name r = name)
    \<and> (\<forall>r' \<in> set rs. reg_action_name r' = name \<longrightarrow> reg_version r' \<le> reg_version r)
    \<and> (\<forall>b'. b = Some b' \<longrightarrow> reg_version b' \<le> reg_version r)"
  using assms
proof (induction name b rs rule: best_registration.induct)
  case (2 name best x rs)
  show ?case
  proof (cases "reg_action_name x = name")
    case False
    then show ?thesis using 2 by auto
  next
    case True
    show ?thesis
    proof (cases best)
      case None
      then show ?thesis using 2 True by auto
    next
      case (Some b)
      then show ?thesis using 2(3) [OF _ Some] 2(4) True by (auto split: if_splits)
    qed
  qed
qed auto

lemma best_registration_None:
  "best_registration name b rs = None \<longleftrightarrow> b = None \<and> (\<forall>r \<in> set rs. reg_action_name r \<noteq> name)"
  by (induction name b rs rule: best_registration.induct) (auto split: option.splits)

section \<open>Properties\<close>

definition awaiting :: "uuid \<Rightarrow> string \<Rightarrow> int \<Rightarrow> world \<Rightarrow> bool" where
  "awaiting i action attempt w \<longleftrightarrow>
     (case map_of (runs (st w)) i of
        None \<Rightarrow> False
      | Some r \<Rightarrow> run_state r = RunStatePaused \<and> run_awaited_action_dispatch r = Some action
                 \<and> run_current_attempt r = attempt)"

text \<open>
  An action step marks its run before it dispatches. With a broker that accepts a dispatch only once
  the stored run is paused awaiting that action under the new attempt, the dispatch
  succeeds: the verb pauses the run, and exactly one message is sent, for that
  run and step, under an attempt number one higher than before.
\<close>

theorem action_marks_before_dispatch:
  assumes "map_of (runs (st w)) (run_id run) = Some r"
    and "run_current_attempt r = run_current_attempt run"
    and "CHR ''.'' \<in> set (step_action s)"
    and "\<forall>s'. fst (resolveDispatch av s' (step_action s)) \<in> {[], ''grpc''}"
    and "av_publisher av = Some p"
    and "\<forall>w' b. awaiting (run_id run) (step_action s) (run_current_attempt run + 1) w'
           \<longrightarrow> p w' (step_action s) b = None"
  shows "\<exists>w' b. ActionVerb e av run s w = (Inl ErrSagaPaused, w')
    \<and> awaiting (run_id run) (step_action s) (run_current_attempt run + 1) w'
    \<and> outbox w' = outbox w @ [ToExchange (step_action s) b]
    \<and> pl_run b = run_id run \<and> pl_step b = step_id s \<and> pl_attempt b = run_current_attempt run + 1
    \<and> queue w' = queue w"
proof -
  let ?a = "run_current_attempt run + 1"
  define b where "b = ActionPayload (run_id run) (step_id s) ?a
    (generateIdempotencyKey e (run_id run) (step_id s) ?a) (step_action s) (step_inputs s) (run_dry_run run)"
  define w1 where "w1 = w\<lparr>st := (st w)\<lparr>runs := AList.update (run_id run)
    (r\<lparr>run_state := RunStatePaused, run_awaited_action_dispatch := Some (step_action s),
       run_current_attempt := ?a\<rparr>) (runs (st w))\<rparr>\<rparr>"
  have mark: "try_store (MarkAwaitingAction (run_id run) (step_action s) ?a) w = (None, w1)"
    using assms(1,2) by (simp add: try_store_def MarkAwaitingAction_def with_run_def w1_def)
  have aw: "awaiting (run_id run) (step_action s) ?a w1" by (simp add: awaiting_def w1_def)
  obtain tr ad where "resolveDispatch av (st w1) (step_action s) = (tr, ad)" by force
  moreover from this have "tr = [] \<or> tr = ''grpc''" using assms(4) by (metis fst_conv insertE singletonD)
  moreover have "p w1 (step_action s) b = None" using assms(6) aw by blast
  ultimately have "dispatch av (step_action s) b w1 = (None, send (ToExchange (step_action s) b) w1)"
    using assms(5) by (simp add: dispatch_def)
  then have "ActionVerb e av run s w = (Inl ErrSagaPaused, send (ToExchange (step_action s) b) w1)"
    using assms(3) mark by (auto simp: ActionVerb_def Let_def contains_dot [symmetric] b_def)
  then show ?thesis
    using aw by (intro exI [of _ "send (ToExchange (step_action s) b) w1"] exI [of _ b])
      (simp add: awaiting_def b_def w1_def)
qed

definition act_step :: step where
  "act_step = (blank_step ''a'')\<lparr>step_type := StepTypeAction, step_action := ''svc.do''\<rparr>"

definition broker_verb :: action_verb where
  "broker_verb = \<lparr>av_store = False, av_publisher = Some (\<lambda>_ _ _. None), av_http = None, av_rmq = None\<rparr>"

theorem action_marks_before_dispatch_witness:
  "\<exists>w' b. ActionVerb test_env broker_verb (sample_run ''r1'') act_step test_world = (Inl ErrSagaPaused, w')
    \<and> awaiting (run_id (sample_run ''r1'')) (step_action act_step) (run_current_attempt (sample_run ''r1'') + 1) w'
    \<and> outbox w' = outbox test_world @ [ToExchange (step_action act_step) b]
    \<and> pl_run b = run_id (sample_run ''r1'') \<and> pl_step b = step_id act_step
    \<and> pl_attempt b = run_current_attempt (sample_run ''r1'') + 1 \<and> queue w' = queue test_world"
  by (rule action_marks_before_dispatch [where r = "sample_run ''r1''" and p = "\<lambda>_ _ _. None"])
    (simp_all add: test_world_def sample_store_def CreateRun_def New_def sample_run_def NewSagaRun_def
      act_step_def blank_step_def broker_verb_def resolveDispatch_def split: option.split)

text \<open>
  Idempotency keys identify an attempt. If the hash does not collide on the strings hashed and
  run and step ids contain no bar, two dispatches share a key only if they are for
  the same run, step and attempt.
\<close>

theorem idempotency_key_unique:
  assumes "inj (sha256_hex e)"
    and "CHR ''|'' \<notin> set r1" "CHR ''|'' \<notin> set r2" "CHR ''|'' \<notin> set s1" "CHR ''|'' \<notin> set s2"
    and "a1 \<ge> 0" and "a2 \<ge> 0"
    and "generateIdempotencyKey e r1 s1 a1 = generateIdempotencyKey e r2 s2 a2"
  shows "r1 = r2 \<and> s1 = s2 \<and> a1 = a2"
proof -
  have "r1 @ CHR ''|'' # (s1 @ CHR ''|'' # show_int a1) = r2 @ CHR ''|'' # (s2 @ CHR ''|'' # show_int a2)"
    using assms(1,8) by (auto simp: generateIdempotencyKey_def dest: injD)
  then have "r1 = r2" and "s1 @ CHR ''|'' # show_int a1 = s2 @ CHR ''|'' # show_int a2"
    using append_sep_inj [OF assms(2,3)] by blast+
  then have "s1 = s2" and "show_int a1 = show_int a2"
    using append_sep_inj [OF assms(4,5)] by blast+
  then show ?thesis
    using \<open>r1 = r2\<close> assms(6,7) show_nat_inj [of "nat a1" "nat a2"] by (simp add: show_int_def)
qed

theorem idempotency_key_unique_witness:
  "generateIdempotencyKey test_env ''r1'' ''a'' 1 \<noteq> generateIdempotencyKey test_env ''r1'' ''a'' 2"
  using idempotency_key_unique [of test_env "''r1''" "''r1''" "''a''" "''a''" 1 2]
  by (auto simp: test_env_def inj_def)

text \<open>
  The cancel verb does not look at its target's state. A run that had already succeeded or failed
  becomes cancelled, still without an end time, and its wait markers and open user
  tasks stay as they were.
\<close>

theorem CancelVerb_overwrites_terminal:
  assumes "get_str (step_inputs s) ''run_id'' = rid" and "rid \<noteq> []" and "rid \<noteq> run_id run"
    and "uuid_parse e rid = Inr target" and "map_of (runs (st w)) target = Some r"
  shows "\<exists>w'. CancelVerb e None run s w = (Inr [], w')
    \<and> map_of (runs (st w')) target = Some (r\<lparr>run_state := RunStateCancelled, run_current_step := []\<rparr>)
    \<and> userTasks (st w') = userTasks (st w)"
proof -
  let ?s = "(st w)\<lparr>runs := AList.update target (r\<lparr>run_state := RunStateCancelled, run_current_step := []\<rparr>)
    (runs (st w))\<rparr>"
  have "try_store (UpdateRunState target RunStateCancelled []) w = (None, w\<lparr>st := ?s\<rparr>)"
    using assms(5) by (simp add: try_store_def UpdateRunState_def with_run_def)
  then show ?thesis using assms(1-4) by (simp add: CancelVerb_def)
qed

theorem CancelVerb_overwrites_terminal_witness:
  "\<exists>w'. CancelVerb test_env None (sample_run ''r2'') go_step (test_world\<lparr>st := ended_store\<rparr>) = (Inr [], w')
    \<and> map_of (runs (st w')) ''r1'' = Some ((sample_run ''r1'')
        \<lparr>run_state := RunStateSucceeded, run_state := RunStateCancelled, run_current_step := []\<rparr>)
    \<and> userTasks (st w') = userTasks (st (test_world\<lparr>st := ended_store\<rparr>))"
proof (rule CancelVerb_overwrites_terminal)
  show "map_of (runs (st (test_world\<lparr>st := ended_store\<rparr>))) ''r1''
      = Some ((sample_run ''r1'')\<lparr>run_state := RunStateSucceeded\<rparr>)"
    using ended_get by (simp add: GetRun_iff)
qed (simp_all add: go_step_def blank_step_def get_str_def test_env_def sample_run_def NewSagaRun_def)

end
