(* ===== verification/Coordinator.thy ===== *)
theory Coordinator
  imports Verbs_IO
begin

text \<open>
  The coordinator (\<^verbatim>\<open>engine/coordinator.go\<close>, \<^verbatim>\<open>advance.go\<close>, \<^verbatim>\<open>compensation.go\<close>, \<^verbatim>\<open>retry.go\<close>) and
  the verb registry (\<^verbatim>\<open>engine/verbs/registry.go\<close>). One pass of the loop in \<^verbatim>\<open>Advance\<close> is
  \<open>advance_iter\<close>, which either asks for another pass or returns; \<open>Advance\<close> runs it with
  fuel. Logging has no effect on the world and is left out.
\<close>

section \<open>Registry and coordinator\<close>

record registry_entry =
  entry_handler :: handler
  entry_group :: string
  entry_action :: "action_verb option" \<comment> \<open>the ActionVerb itself, when the handler is one\<close>

type_synonym registry = "step_type \<rightharpoonup> registry_entry"

record coord =
  c_env :: env
  c_verbs :: registry
  c_licensing :: resolver

definition plain_entry :: "handler \<Rightarrow> string \<Rightarrow> registry_entry" where
  "plain_entry h g = \<lparr>entry_handler = h, entry_group = g, entry_action = None\<rparr>"

definition Default :: "env \<Rightarrow> action_verb \<Rightarrow> registry" where
  "Default e av = map_of
    [(StepTypeAction, \<lparr>entry_handler = ActionVerb e av, entry_group = ''common'',
                       entry_action = Some av\<rparr>),
     (StepTypeNoop, plain_entry NoopVerb ''common''),
     (StepTypeSetVar, plain_entry (SetVarVerb e) ''common''),
     (StepTypeTransform, plain_entry (TransformVerb e) ''common''),
     (StepTypeMerge, plain_entry (MergeVerb e) ''common''),
     (StepTypeFilter, plain_entry (FilterVerb e) ''common''),
     (StepTypeMap, plain_entry (MapVerb e) ''common''),
     (StepTypeAssert, plain_entry (AssertVerb e) ''common''),
     (StepTypeError, plain_entry ErrorVerb ''common''),
     (StepTypeLog, plain_entry (LogVerb e) ''common''),
     (StepTypeMetricEmit, plain_entry (MetricEmitVerb e) ''observability''),
     (StepTypeDecision, plain_entry (DecisionVerb e) ''common''),
     (StepTypeHTTPRequest, plain_entry (HTTPRequestVerb e) ''external_io_advanced''),
     (StepTypeWebhookEmit, plain_entry (WebhookEmitVerb e) ''external_io_advanced''),
     (StepTypeWaitDuration, plain_entry (WaitDurationVerb e) ''waits''),
     (StepTypeWaitUntil, plain_entry (WaitUntilVerb e) ''waits''),
     (StepTypeWaitForSignal, plain_entry (WaitForSignalVerb e) ''events_and_signals''),
     (StepTypeWaitForEvent, plain_entry (WaitForEventVerb e) ''events_and_signals''),
     (StepTypeEmitSignal, plain_entry (EmitSignalVerb e) ''events_and_signals''),
     (StepTypeParallel, plain_entry (ParallelVerb e) ''parallel_control''),
     (StepTypeJoin, plain_entry (JoinVerb e) ''parallel_control''),
     (StepTypeForeach, plain_entry (ForeachVerb e) ''parallel_control''),
     (StepTypeWhile, plain_entry (WhileVerb e) ''loops_and_recovery''),
     (StepTypeSwitch, plain_entry (SwitchVerb e) ''common''),
     (StepTypeTryCatch, plain_entry (TryCatchVerb e) ''loops_and_recovery''),
     (StepTypeSubSaga, plain_entry (SubSagaVerb e) ''compositions''),
     (StepTypeSpawnSaga, plain_entry (SpawnSagaVerb e) ''compositions''),
     (StepTypeManualApproval, plain_entry (ManualApprovalVerb e) ''human_interaction''),
     (StepTypeCollectInput, plain_entry (CollectInputVerb e) ''human_interaction''),
     (StepTypeCancel, plain_entry (CancelVerb e None) ''loops_and_recovery''),
     (StepTypeEmitEvent, plain_entry (EmitEventVerb e) ''events_and_signals'')]"

definition RegisterVerb :: "step_type \<Rightarrow> registry_entry \<Rightarrow> coord \<Rightarrow> coord" where
  "RegisterVerb t en c = c\<lparr>c_verbs := (c_verbs c)(t \<mapsto> en)\<rparr>"

section \<open>Waking parents\<close>

definition lookupStepInputs :: "workflow_definition \<Rightarrow> string \<Rightarrow> gomap" where
  "lookupStepInputs d stepID = (case StepByID d stepID of None \<Rightarrow> [] | Some s \<Rightarrow> step_inputs s)"

text \<open>
  The common end of both hooks: write the aggregate (best effort), clear the parent's
  wait and publish its advance.
\<close>

definition wake_parent :: "env \<Rightarrow> uuid \<Rightarrow> string \<Rightarrow> saga_run list \<Rightarrow> world \<Rightarrow> world" where
  "wake_parent e parentID key watched w =
     (let aggregated = AggregateJoinResults e (st w) watched;
          w1 = ignore (try_store (UpdateRunVariables parentID [(key, aggregated)]) w)
      in case try_store (WakeFromExternal parentID) w1 of
           (Some err, w2) \<Rightarrow> w2
         | (None, w2) \<Rightarrow>
             (case publisher e of
                None \<Rightarrow> w2
              | Some p \<Rightarrow> ignore (PublishSagaAdvance p parentID w2)))"

definition checkJoinBarriers :: "env \<Rightarrow> saga_run \<Rightarrow> world \<Rightarrow> world" where
  "checkJoinBarriers e run w =
     (case (run_parent_run_id run, run_parent_step_id run) of
        (Some parentID, Some parentStep) \<Rightarrow>
          (case GetRun (st w) parentID of
             Inl _ \<Rightarrow> w
           | Inr parent \<Rightarrow>
               (if run_state parent \<noteq> RunStatePaused then w
                else case GetWorkflowDefinition (st w) (run_definition_id parent) of
                  Inl _ \<Rightarrow> w
                | Inr parentDef \<Rightarrow>
                    (case StepByID parentDef (run_current_step parent) of
                       None \<Rightarrow> w
                     | Some joinStep \<Rightarrow>
                         (if step_type joinStep \<noteq> StepTypeJoin then w
                          else case ResolveJoinStreams e (map_of (step_inputs joinStep) ''streams'')
                                      (run_variables parent) of
                            Inl _ \<Rightarrow> w
                          | Inr streamIDs \<Rightarrow>
                              (if parentStep \<notin> set streamIDs then w
                               else
                                 (let watched = collectWatched (st w) parentID streamIDs
                                  in if \<not> JoinConditionMetCtx e (step_inputs joinStep)
                                            (run_variables parent) watched then w
                                     else wake_parent e parentID
                                            (''_join.'' @ step_id joinStep @ ''.branches'')
                                            watched w))))))
      | _ \<Rightarrow> w)"

definition checkParentJoin :: "env \<Rightarrow> saga_run \<Rightarrow> world \<Rightarrow> world" where
  "checkParentJoin e run w0 =
     (case (run_parent_run_id run, run_parent_step_id run) of
        (Some parentID, Some parentStep) \<Rightarrow>
          (let w = checkJoinBarriers e run w0
           in case GetRun (st w) parentID of
                Inl _ \<Rightarrow> w
              | Inr parent \<Rightarrow>
                  (if run_state parent \<noteq> RunStatePaused \<or> run_current_step parent \<noteq> parentStep then w
                   else
                     (let siblings = ListChildrenByParent (st w) parentID parentStep
                      in case GetWorkflowDefinition (st w) (run_definition_id parent) of
                           Inl _ \<Rightarrow> w
                         | Inr parentDef \<Rightarrow>
                             (if \<not> JoinConditionMetCtx e (lookupStepInputs parentDef parentStep)
                                      (run_variables parent) siblings then w
                              else wake_parent e parentID
                                     (''_parallel.'' @ parentStep @ ''.branches'') siblings w))))
      | _ \<Rightarrow> w0)"

definition CheckParentJoin :: "coord \<Rightarrow> saga_run \<Rightarrow> world \<Rightarrow> world" where
  "CheckParentJoin c run w = checkParentJoin (c_env c) run w"

definition NewCoordinator :: "env \<Rightarrow> action_verb \<Rightarrow> resolver option \<Rightarrow> coord" where
  "NewCoordinator e av lr =
     RegisterVerb StepTypeCancel
       (plain_entry (CancelVerb e (Some (checkParentJoin e))) ''loops_and_recovery'')
       \<lparr>c_env = e, c_verbs = Default e av, c_licensing = or_default lr StubAllowAll\<rparr>"

definition childrenStillRunning :: "env \<Rightarrow> saga_run \<Rightarrow> mem_store \<Rightarrow> gerr + bool" where
  "childrenStillRunning e run s =
     (case GetWorkflowDefinition s (run_definition_id run) of
        Inl err \<Rightarrow> Inl (Errorf ''get definition: %w'' [AErr err])
      | Inr d \<Rightarrow>
          (case StepByID d (run_current_step run) of
             None \<Rightarrow> Inr False
           | Some sp \<Rightarrow>
               (if step_type sp \<in> {StepTypeParallel, StepTypeForeach, StepTypeSubSaga}
                then Inr (\<not> JoinConditionMetCtx e (step_inputs sp) (run_variables run)
                              (ListChildrenByParent s (run_id run) (step_id sp)))
                else Inr False)))"

section \<open>Compensation\<close>

fun completed_loop ::
  "workflow_definition \<Rightarrow> string \<Rightarrow> string list \<Rightarrow> step list \<Rightarrow> saga_run_event list \<Rightarrow> step list" where
  "completed_loop d excludeID seen out [] = out"
| "completed_loop d excludeID seen out (ev # evs) =
     (if ev_type ev \<noteq> EventStepSucceeded then completed_loop d excludeID seen out evs
      else if ev_step_id ev = [] \<or> ev_step_id ev = excludeID \<or> ev_step_id ev \<in> set seen
      then completed_loop d excludeID seen out evs
      else case StepByID d (ev_step_id ev) of
        None \<Rightarrow> completed_loop d excludeID seen out evs
      | Some sp \<Rightarrow>
          (if step_type sp = StepTypeEnd then completed_loop d excludeID seen out evs
           else completed_loop d excludeID (ev_step_id ev # seen) (out @ [sp]) evs))"

definition completedCompensableSteps ::
  "saga_run \<Rightarrow> workflow_definition \<Rightarrow> string \<Rightarrow> mem_store \<Rightarrow> step list" where
  "completedCompensableSteps run d excludeID s =
     completed_loop d excludeID [] [] (ListEventsByRun s (run_id run))"

fun compensate_steps :: "action_verb \<Rightarrow> saga_run \<Rightarrow> step list \<Rightarrow> world \<Rightarrow> world" where
  "compensate_steps av run [] w = w"
| "compensate_steps av run (sp # ss) w =
     (case step_compensation sp of
        None \<Rightarrow> compensate_steps av run ss w
      | Some cp \<Rightarrow>
          compensate_steps av run ss
            (ignore (DispatchCompensation av (run_id run) (step_id sp) (comp_action cp)
                       (comp_inputs cp) (run_dry_run run) w)))"

definition compensate :: "coord \<Rightarrow> saga_run \<Rightarrow> workflow_definition \<Rightarrow> step \<Rightarrow> world \<Rightarrow> world" where
  "compensate c run d failedStep w =
     (let completed = completedCompensableSteps run d (step_id failedStep) (st w)
      in if completed = [] then w
         else case try_store (UpdateRunState (run_id run) RunStateCompensating (run_current_step run)) w of
           (Some err, w1) \<Rightarrow> w1
         | (None, w1) \<Rightarrow>
             (let w2 = emit (c_env c) (run_id run) (step_id failedStep) 0 EventCompensationStarted
                         ''engine'' [] w1;
                  av = (case c_verbs c StepTypeAction of
                          None \<Rightarrow> no_action_verb
                        | Some en \<Rightarrow> or_default (entry_action en) no_action_verb)
              in compensate_steps av run (rev completed) w2))"

definition CompensateFailedStep :: "coord \<Rightarrow> uuid \<Rightarrow> string \<Rightarrow> world \<Rightarrow> gerr option \<times> world" where
  "CompensateFailedStep c runID failedStepID w =
     (case GetRun (st w) runID of
        Inl err \<Rightarrow> (Some (Errorf ''compensate %s: %w'' [AStr runID, AErr err]), w)
      | Inr run \<Rightarrow>
          (if run_state run = RunStateSucceeded \<or> run_state run = RunStateCancelled
           then (Some (Errorf ''compensate %s: run is %s, not failed''
                   [AStr runID, AStr (run_state_str (run_state run))]), w)
           else case GetWorkflowDefinition (st w) (run_definition_id run) of
             Inl err \<Rightarrow> (Some (Errorf ''compensate %s: definition: %w'' [AStr runID, AErr err]), w)
           | Inr d \<Rightarrow>
               (let sp = or_default (StepByID d failedStepID) (blank_step failedStepID);
                    wasFailed = (run_state run = RunStateFailed);
                    w1 = compensate c run d sp w;
                    settle =
                      (if wasFailed
                       then (case GetRun (st w1) runID of
                               Inl err \<Rightarrow> (Some (Errorf ''compensate %s: reread run: %w''
                                                   [AStr runID, AErr err]), w1)
                             | Inr cur \<Rightarrow>
                                 (if run_state cur = RunStateCompensating
                                  then (case try_store (UpdateRunState runID RunStateFailed
                                                  (run_current_step run)) w1 of
                                          (Some err, w2) \<Rightarrow>
                                            (Some (Errorf ''compensate %s: settle: %w''
                                               [AStr runID, AErr err]), w2)
                                        | (None, w2) \<Rightarrow> (None, w2))
                                  else (None, w1)))
                       else (case try_store (MarkRunFailed (wall w1) runID failedStepID
                                       (sprintf ''step %q failed'' [AStr failedStepID])) w1 of
                               (Some err, w2) \<Rightarrow>
                                 (Some (Errorf ''compensate %s: mark failed: %w''
                                    [AStr runID, AErr err]), w2)
                             | (None, w2) \<Rightarrow> (None, w2)))
                in case settle of
                     (Some err, w2) \<Rightarrow> (Some err, w2)
                   | (None, w2) \<Rightarrow> (None, checkParentJoin (c_env c) run w2))))"

section \<open>Retry\<close>

definition DefaultRetryPolicy :: retry_policy where
  "DefaultRetryPolicy = \<lparr>max_attempts = 3, initial_backoff_ms = 1000, max_backoff_ms = 60000,
     multiplier = 2, jitter = True\<rparr>"

definition Backoff :: "env \<Rightarrow> retry_policy \<Rightarrow> nat \<Rightarrow> bool \<Rightarrow> world \<Rightarrow> duration" where
  "Backoff e p attempt jit w =
     (let mult = (if multiplier p \<le> 0 then 2 else multiplier p);
          base = fl_round e (fl_round e (of_int (initial_backoff_ms p)) * fl_pow e mult attempt);
          capMS = fl_round e (of_int (max_backoff_ms p));
          capMS = (if capMS = 0 then 60000 else capMS);
          base = (if base > capMS then capMS else base);
          base = (if jit
                  then fl_round e (base * fl_round e (1 + fl_round e (fl_round e (jitter_draw e w * (1 / 2)) - 1 / 4)))
                  else base)
      in wrap64 (int64_of_float e base * millisecond_ns))"

definition isControlSignal :: "gerr \<Rightarrow> bool" where
  "isControlSignal err \<longleftrightarrow> is_paused_err err \<or> is_cancelled_err err"

text \<open>
  The attempt loop, with \<open>left\<close> attempts after this one. Between attempts it waits on the
  injected clock, unless the context is done.
\<close>

fun attempt_loop ::
  "coord \<Rightarrow> saga_run \<Rightarrow> step \<Rightarrow> handler \<Rightarrow> retry_policy \<Rightarrow> nat \<Rightarrow> nat \<Rightarrow> world
   \<Rightarrow> (gerr + gomap) \<times> world" where
  "attempt_loop c run s h p attempt 0 w = h run s w"
| "attempt_loop c run s h p attempt (Suc left) w =
     (case h run s w of
        (Inr out, w1) \<Rightarrow> (Inr out, w1)
      | (Inl err, w1) \<Rightarrow>
          (if isControlSignal err then (Inl err, w1)
           else
             (let w2 = emit (c_env c) (run_id run) (step_id s) (int attempt + 1) EventStepFailed
                         ''engine-retry'' [] w1;
                  wait = Backoff (c_env c) p attempt (jitter p) w2
              in case ctx_err (c_env c) w2 of
                   Some cerr \<Rightarrow> (Inl cerr, w2)
                 | None \<Rightarrow>
                     attempt_loop c run s h p (Suc attempt) left (w2\<lparr>clk := clk w2 + max 0 wait\<rparr>))))"

definition executeStep :: "coord \<Rightarrow> saga_run \<Rightarrow> step \<Rightarrow> handler \<Rightarrow> world \<Rightarrow> (gerr + gomap) \<times> world" where
  "executeStep c run s h w =
     (case step_retry s of
        None \<Rightarrow> h run s w
      | Some p \<Rightarrow>
          attempt_loop c run s h p 0 (nat ((if max_attempts p > 1 then max_attempts p else 1) - 1)) w)"

section \<open>Advance\<close>

datatype iter = Continue | Return "gerr option"

text \<open>The branch for a paused run.\<close>

definition wake_paused :: "coord \<Rightarrow> uuid \<Rightarrow> saga_run \<Rightarrow> world \<Rightarrow> iter \<times> world" where
  "wake_paused c runID run w =
     (let e = c_env c;
          wakeupDue = wakeup_due (clk w) run;
          noPendingAwaits = (run_awaited_signal run = None \<and> run_awaited_event_topic run = None);
          externalWake = (noPendingAwaits \<and> run_wakeup_at run = None);
          timedOut = (wakeupDue \<and> \<not> noPendingAwaits)
      in if \<not> (wakeupDue \<or> externalWake) then (Return None, w)
         else case (if wakeupDue then Inr False else childrenStillRunning e run (st w)) of
           Inl werr \<Rightarrow> (Return (Some werr), w)
         | Inr True \<Rightarrow> (Return None, w)
         | Inr False \<Rightarrow>
             (case try_store (ClearPause (run_id run)) w of
                (Some err, w1) \<Rightarrow> (Return (Some (Errorf ''clear pause: %w'' [AErr err])), w1)
              | (None, w1) \<Rightarrow>
                  (case GetRun (st w1) runID of
                     Inl err \<Rightarrow> (Return (Some (Errorf ''re-read after clear: %w'' [AErr err])), w1)
                   | Inr run1 \<Rightarrow>
                       (case GetWorkflowDefinition (st w1) (run_definition_id run1) of
                          Inl err \<Rightarrow> (Return (Some (Errorf ''get def after clear: %w'' [AErr err])), w1)
                        | Inr d \<Rightarrow>
                            (case StepByID d (run_current_step run1) of
                               None \<Rightarrow> (Return (Some (Errorf ''def missing step %s''
                                            [AStr (run_current_step run1)])), w1)
                             | Some sp \<Rightarrow>
                                 (let w2 = emit e (run_id run1) (step_id sp) 0 EventStepSucceeded
                                             ''engine'' [] w1;
                                      next = (if timedOut
                                              then (case map_of (step_branches sp) ''timeout'' of
                                                      Some br \<Rightarrow> (if branch_next br \<noteq> [] then branch_next br
                                                                 else step_next sp)
                                                    | None \<Rightarrow> step_next sp)
                                              else step_next sp)
                                  in if next = []
                                     then (Return (Some (Errorf ''paused step %s has no next''
                                             [AStr (step_id sp)])), w2)
                                     else case try_store (UpdateRunState (run_id run1) RunStateRunning
                                                    next) w2 of
                                       (Some err, w3) \<Rightarrow>
                                         (Return (Some (Errorf ''set next after clear: %w'' [AErr err])), w3)
                                     | (None, w3) \<Rightarrow>
                                         (case GetRun (st w3) runID of
                                            Inl err \<Rightarrow>
                                              (Return (Some (Errorf ''re-read after next: %w'' [AErr err])), w3)
                                          | Inr _ \<Rightarrow> (Continue, w3))))))))"

definition completeRun :: "coord \<Rightarrow> saga_run \<Rightarrow> step \<Rightarrow> world \<Rightarrow> gerr option \<times> world" where
  "completeRun c run s w =
     (let e = c_env c;
          w1 = emit e (run_id run) (step_id s) 0 EventStepSucceeded ''engine'' [] w;
          w2 = emit e (run_id run) [] 0 EventRunSucceeded ''engine'' [] w1
      in case try_store (UpdateRunState (run_id run) RunStateSucceeded []) w2 of
           (Some err, w3) \<Rightarrow> (Some err, w3)
         | (None, w3) \<Rightarrow> (None, checkParentJoin e run w3))"

text \<open>The license gate: the error it stops with, if it does.\<close>

definition license_gate ::
  "coord \<Rightarrow> saga_run \<Rightarrow> step \<Rightarrow> registry_entry \<Rightarrow> world \<Rightarrow> gerr option \<times> world" where
  "license_gate c run s en w =
     (let e = c_env c;
          grp = LicenseGroupForStep s (entry_group en);
          feature = group_feature grp
      in if feature = [] then (None, w)
         else case c_licensing c (run_tenant_id run) feature (run_feature_overrides run) of
           Inl err \<Rightarrow>
             (let w1 = emit e (run_id run) (step_id s) 0 EventLicenseGateRejected ''engine'' [] w;
                  w2 = ignore (try_store (MarkRunFailed (wall w1) (run_id run) (step_id s)
                         (sprintf ''license check for feature %q: %v'' [AStr feature, AErr err])) w1)
              in (Some (Errorf ''license check for step %q (feature %q): %w''
                     [AStr (step_id s), AStr feature, AErr err]), w2))
         | Inr enabled \<Rightarrow>
             (if enabled then (None, w)
              else
                (let w1 = emit e (run_id run) (step_id s) 0 EventLicenseGateRejected ''engine''
                            [(''group'', VStr grp), (''feature'', VStr feature)] w;
                     w2 = ignore (try_store (MarkRunFailed (wall w1) (run_id run) (step_id s)
                            (sprintf ''license_gate: feature %q not enabled for tenant'' [AStr feature])) w1)
                 in (Some (Errorf ''license_gate: feature %q not enabled for tenant'' [AStr feature]), w2))))"

text \<open>The error branch: caught by the innermost try/catch frame, or rolled back and failed.\<close>

definition fail_step ::
  "coord \<Rightarrow> saga_run \<Rightarrow> workflow_definition \<Rightarrow> step \<Rightarrow> gerr \<Rightarrow> world \<Rightarrow> iter \<times> world" where
  "fail_step c run d s err w =
     (let e = c_env c;
          uncaught =
            (\<lambda>w. let w1 = emit e (run_id run) (step_id s) 0 EventStepFailed ''engine'' [] w;
                     w2 = compensate c run d s w1;
                     w3 = ignore (try_store (MarkRunFailed (wall w2) (run_id run) (step_id s)
                            (sprintf ''step %q (%s): %v''
                               [AStr (step_id s), AStr (step_type_str (step_type s)), AErr err])) w2)
                 in (Return (Some (Errorf ''verb %s: %w'' [AStr (step_type_str (step_type s)), AErr err])),
                     checkParentJoin e run w3))
      in case PopTryCatch (run_id run) (st w) of
           Inl _ \<Rightarrow> uncaught w
         | Inr (None, s') \<Rightarrow> uncaught (w\<lparr>st := s'\<rparr>)
         | Inr (Some frame, s') \<Rightarrow>
             (let w1 = w\<lparr>st := s'\<rparr>;
                  errMap = [(''_error'', VMap [(''step_id'', VStr (step_id s)),
                              (''message'', VStr (err_text err)),
                              (''verb'', VStr (step_type_str (step_type s)))])];
                  w2 = ignore (try_store (UpdateRunVariables (run_id run) errMap) w1);
                  w3 = emit e (run_id run) (step_id s) 0 EventStepFailed ''engine-caught'' [] w2;
                  w4 = ignore (try_store (UpdateRunState (run_id run) RunStateRunning
                                 (frame_catch_step frame)) w3)
              in (Continue, w4)))"

text \<open>The step the engine goes to after a success, or the missing-branch error.\<close>

definition next_step :: "step \<Rightarrow> gomap \<Rightarrow> gerr + string" where
  "next_step s result =
     (let branchKey = get_str result ''branch''
      in if branchKey = [] then Inr (step_next s)
         else case map_of (step_branches s) branchKey of
           Some br \<Rightarrow> Inr (branch_next br)
         | None \<Rightarrow>
             (if step_type s \<in> {StepTypeDecision, StepTypeWhile, StepTypeSwitch}
              then Inl (Errorf ''%s branch %q not found in step.Branches''
                     [AStr (step_type_str (step_type s)), AStr branchKey])
              else Inr (step_next s)))"

definition finish_step :: "coord \<Rightarrow> saga_run \<Rightarrow> step \<Rightarrow> gomap \<Rightarrow> world \<Rightarrow> iter \<times> world" where
  "finish_step c run s result w =
     (case (if result = [] then (None, w)
            else try_store (UpdateRunVariables (run_id run) result) w) of
        (Some err, w1) \<Rightarrow> (Return (Some (Errorf ''update variables: %w'' [AErr err])), w1)
      | (None, w1) \<Rightarrow>
          (let w2 = emit (c_env c) (run_id run) (step_id s) 0 EventStepSucceeded ''engine'' [] w1
           in case next_step s result of
                Inl err \<Rightarrow> (Return (Some err), w2)
              | Inr next \<Rightarrow>
                  (if next = []
                   then (Return (Some (Errorf ''step %q has no next and is not end'' [AStr (step_id s)])), w2)
                   else case try_store (UpdateRunState (run_id run) RunStateRunning next) w2 of
                     (Some err, w3) \<Rightarrow> (Return (Some (Errorf ''set next step: %w'' [AErr err])), w3)
                   | (None, w3) \<Rightarrow> (Continue, w3))))"

text \<open>Executing the step found for the run and acting on what the verb returned.\<close>

definition run_step ::
  "coord \<Rightarrow> saga_run \<Rightarrow> workflow_definition \<Rightarrow> step \<Rightarrow> registry_entry \<Rightarrow> world \<Rightarrow> iter \<times> world" where
  "run_step c run d s en w =
     (let e = c_env c
      in case executeStep c run s (entry_handler en) w of
           (Inr result, w1) \<Rightarrow> finish_step c run s result w1
         | (Inl err, w1) \<Rightarrow>
             (if is_paused_err err
              then (Return None, emit e (run_id run) (step_id s) 0 EventStepPaused ''engine'' [] w1)
              else if is_cancelled_err err
              then (let w2 = emit e (run_id run) [] 0 EventRunCancelled ''engine'' [] w1
                    in case try_store (UpdateRunState (run_id run) RunStateCancelled (step_id s)) w2 of
                         (Some er, w3) \<Rightarrow> (Return (Some (Errorf ''cancel: set cancelled: %w'' [AErr er])), w3)
                       | (None, w3) \<Rightarrow> (Return None, checkParentJoin e run w3))
              else fail_step c run d s err w1))"

definition enter_step ::
  "coord \<Rightarrow> saga_run \<Rightarrow> workflow_definition \<Rightarrow> step \<Rightarrow> world \<Rightarrow> iter \<times> world" where
  "enter_step c run d s w =
     (let e = c_env c;
          w1 = emit e (run_id run) (step_id s) 0 EventStepDispatched ''engine'' [] w;
          w2 = ignore (try_store (UpdateRunState (run_id run) RunStateRunning (step_id s)) w1)
      in if step_type s = StepTypeEnd
         then (case completeRun c run s w2 of (r, w3) \<Rightarrow> (Return r, w3))
         else case c_verbs c (step_type s) of
           None \<Rightarrow> (Return (Some (Errorf ''no handler registered for step type: %s''
                        [AStr (step_type_str (step_type s))])), w2)
         | Some en \<Rightarrow>
             (case license_gate c run s en w2 of
                (Some err, w3) \<Rightarrow> (Return (Some err), w3)
              | (None, w3) \<Rightarrow> run_step c run d s en w3))"

definition advance_iter :: "coord \<Rightarrow> uuid \<Rightarrow> world \<Rightarrow> iter \<times> world" where
  "advance_iter c runID w =
     (case ctx_err (c_env c) w of
        Some err \<Rightarrow> (Return (Some err), w)
      | None \<Rightarrow>
          (case GetRun (st w) runID of
             Inl err \<Rightarrow> (Return (Some (Errorf ''get run: %w'' [AErr err])), w)
           | Inr run \<Rightarrow>
               (if IsTerminal (run_state run) then (Return None, w)
                else if run_state run = RunStatePaused then wake_paused c runID run w
                else case GetWorkflowDefinition (st w) (run_definition_id run) of
                  Inl err \<Rightarrow> (Return (Some (Errorf ''get definition: %w'' [AErr err])), w)
                | Inr d \<Rightarrow>
                    (let stepID = (if run_current_step run = [] then def_start d
                                   else run_current_step run);
                         w1 = (if run_state run = RunStatePending
                               then emit (c_env c) (run_id run) [] 0 EventSagaStarted ''engine'' [] w
                               else w)
                     in case StepByID d stepID of
                          None \<Rightarrow> (Return (Some (Errorf ''definition references missing step: %s''
                                       [AStr stepID])), w1)
                        | Some s \<Rightarrow> enter_step c run d s w1))))"

text \<open>The loop: \<open>None\<close> only when the fuel runs out before the loop returns.\<close>

fun advance_loop :: "coord \<Rightarrow> uuid \<Rightarrow> nat \<Rightarrow> world \<Rightarrow> (gerr option \<times> world) option" where
  "advance_loop c runID 0 w = None"
| "advance_loop c runID (Suc fuel) w =
     (case advance_iter c runID w of
        (Return r, w') \<Rightarrow> Some (r, w')
      | (Continue, w') \<Rightarrow> advance_loop c runID fuel w')"

definition Advance :: "coord \<Rightarrow> nat \<Rightarrow> string \<Rightarrow> world \<Rightarrow> (gerr option \<times> world) option" where
  "Advance c fuel runIDStr w =
     (case uuid_parse (c_env c) runIDStr of
        Inl err \<Rightarrow> Some (Some (Errorf ''parse run id: %w'' [AErr err]), w)
      | Inr runID \<Rightarrow> advance_loop c runID fuel w)"

section \<open>Cancellation from outside\<close>

definition coord_Cancel :: "coord \<Rightarrow> uuid \<Rightarrow> string \<Rightarrow> world \<Rightarrow> gerr option \<times> world" where
  "coord_Cancel c runID reason w =
     (case GetRun (st w) runID of
        Inl err \<Rightarrow> (Some (Errorf ''cancel run %s: %w'' [AStr runID, AErr err]), w)
      | Inr run \<Rightarrow>
          (if IsTerminal (run_state run) then (None, w)
           else
             (let (evid, w1) = fresh (c_env c) w
              in case try_store (Cancel (wall w1) evid runID reason) w1 of
                   (Some err, w2) \<Rightarrow> (Some (Errorf ''cancel run %s: %w'' [AStr runID, AErr err]), w2)
                 | (None, w2) \<Rightarrow>
                     (None, case run_parent_run_id run of
                              None \<Rightarrow> w2
                            | Some _ \<Rightarrow> checkParentJoin (c_env c) run w2))))"

end
