(* ===== verification/Coordinator_Properties.thy ===== *)
theory Coordinator_Properties
  imports Coordinator
begin

text \<open>
  What \<^verbatim>\<open>Advance\<close> and its helpers guarantee: premature and repeated deliveries are
  ignored, a due pause resumes at the right step, the license gate stops a step before its
  handler runs, retries respect their budget, a failure is either caught by the innermost
  try/catch frame or rolled back in reverse order of completion, and a finished
  child wakes its parent exactly when the join is met.
\<close>

section \<open>Worlds with one run replaced\<close>

definition put_run :: "uuid \<Rightarrow> saga_run \<Rightarrow> world \<Rightarrow> world" where
  "put_run i r w = w\<lparr>st := (st w)\<lparr>runs := AList.update i r (runs (st w))\<rparr>\<rparr>"

definition history :: "world \<Rightarrow> uuid \<Rightarrow> (event_type \<times> string) list" where
  "history w i = map (\<lambda>ev. (ev_type ev, ev_step_id ev)) (ListEventsByRun (st w) i)"

lemma put_run_frame [simp]:
  "GetRun (st (put_run i r w)) j = (if j = i then Inr r else GetRun (st w) j)"
  "GetWorkflowDefinition (st (put_run i r w)) d = GetWorkflowDefinition (st w) d"
  "events (st (put_run i r w)) = events (st w)"
  "queue (put_run i r w) = queue w" "outbox (put_run i r w) = outbox w"
  "clk (put_run i r w) = clk w" "wall (put_run i r w) = wall w" "draws (put_run i r w) = draws w"
  by (simp_all add: put_run_def GetRun_def GetWorkflowDefinition_def)

lemma put_run_put_run [simp]:
  "GetRun (st (put_run i r' (put_run i r w))) j = GetRun (st (put_run i r' w)) j"
  by simp

lemma history_put_run [simp]: "history (put_run i r w) j = history w j"
  by (simp add: history_def ListEventsByRun_def)

lemma emit_reads [simp]:
  "GetRun (st (emit e i s a ty act m w)) j = GetRun (st w) j"
  "GetWorkflowDefinition (st (emit e i s a ty act m w)) d = GetWorkflowDefinition (st w) d"
  by (simp_all add: GetRun_def GetWorkflowDefinition_def)

lemma history_emit [simp]:
  "history (emit e i s a ty act m w) j = history w j @ (if j = i then [(ty, s)] else [])"
  by (simp add: history_def ListEventsByRun_def emit_def fresh_def do_store_def AppendEvent_def
      NewEvent_def at_key_update)

lemma try_with_run:
  "GetRun (st w) i = Inr r \<Longrightarrow> try_store (with_run i f) w = (None, put_run i (f r) w)"
  by (simp add: try_store_def with_run_def put_run_def GetRun_iff)

lemma try_with_run_missing:
  "GetRun (st w) i = Inl err \<Longrightarrow> try_store (with_run i f) w = (Some err, w)"
  by (auto simp: try_store_def with_run_def GetRun_def split: option.splits)

text \<open>The methods the coordinator calls, as \<open>put_run\<close>.\<close>

lemmas as_with_run = UpdateRunState_def ClearPause_def WakeFromExternal_def UpdateRunVariables_def
  MarkRunFailed_alt

section \<open>Inputs of the witnesses\<close>

definition demo_def :: "step list \<Rightarrow> workflow_definition" where
  "demo_def ss = blank_def\<lparr>def_id := ''wf'', def_start := ''a'', def_steps := ss\<rparr>"

definition demo_world :: "saga_run \<Rightarrow> step list \<Rightarrow> world" where
  "demo_world r ss =
     test_world\<lparr>st := CreateRun r (UpsertWorkflowDefinition ''d1'' (demo_def ss) New)\<rparr>"

definition demo_coord :: coord where
  "demo_coord = NewCoordinator test_env broker_verb None"

lemma demo_reads [simp]:
  "GetRun (st (demo_world r ss)) (run_id r) = Inr r"
  "GetWorkflowDefinition (st (demo_world r ss)) ''d1'' = Inr (demo_def ss)"
  "clk (demo_world r ss) = 10" "outbox (demo_world r ss) = []" "queue (demo_world r ss) = []"
  "history (demo_world r ss) i = []"
  by (simp_all add: demo_world_def test_world_def GetRun_iff GetWorkflowDefinition_def
      CreateRun_def UpsertWorkflowDefinition_def New_def history_def ListEventsByRun_def at_key_def
      cloneEvents_def)

lemma demo_def_fields [simp]:
  "def_start (demo_def ss) = ''a''" "def_steps (demo_def ss) = ss"
  "step_id s = ''a'' \<Longrightarrow> StepByID (demo_def [s]) ''a'' = Some s"
  by (simp_all add: demo_def_def StepByID_def)

lemma sample_fields [simp]:
  "run_id (sample_run i) = i" "run_definition_id (sample_run i) = ''d1''"
  "run_state (sample_run i) = RunStatePending" "run_wakeup_at (sample_run i) = None"
  "run_awaited_signal (sample_run i) = None" "run_awaited_event_topic (sample_run i) = None"
  "run_try_catch_stack (sample_run i) = []" "run_current_step (sample_run i) = []"
  by (simp_all add: sample_run_def NewSagaRun_def)

lemma demo_env [simp]:
  "c_env demo_coord = test_env" "c_licensing demo_coord = StubAllowAll"
  "uuid_parse test_env s = Inr s" "ctx_err test_env w = None"
  by (simp_all add: demo_coord_def NewCoordinator_def RegisterVerb_def test_env_def)

section \<open>Deliveries that are ignored\<close>

definition marker :: "saga_run \<Rightarrow> bool" where
  "marker r \<longleftrightarrow> run_awaited_signal r \<noteq> None \<or> run_awaited_event_topic r \<noteq> None"

definition waits_for_children :: "env \<Rightarrow> saga_run \<Rightarrow> mem_store \<Rightarrow> bool" where
  "waits_for_children e run s \<longleftrightarrow>
     \<not> marker run \<and> run_wakeup_at run = None \<and> childrenStillRunning e run s = Inr True"

text \<open>
  C5: A repeated or premature \<^verbatim>\<open>saga.advance\<close> is acknowledged and changes nothing when the run
  has ended, when it is paused on a time, a signal or an event that is still outstanding and whose
  deadline, if any, is in the future, or when it is the parent of a parallel, foreach or sub-saga
  step whose join is not yet met. The context of the call is taken not to be done. Runs paused on an
  action or at a join step are not among these; \<open>duplicate_advance_skips_wait\<close> shows what
  happens to them.
\<close>

theorem Advance_ignores_early:
  assumes "uuid_parse (c_env c) runIDStr = Inr i" and "ctx_err (c_env c) w = None"
    and "GetRun (st w) i = Inr run"
    and "IsTerminal (run_state run)
      \<or> run_state run = RunStatePaused \<and> \<not> wakeup_due (clk w) run
          \<and> (marker run \<or> run_wakeup_at run \<noteq> None)
      \<or> run_state run = RunStatePaused \<and> waits_for_children (c_env c) run (st w)"
  shows "Advance c (Suc n) runIDStr w = Some (None, w)"
proof -
  have "advance_iter c i w = (Return None, w)"
    using assms(2-4)
    by (auto simp: advance_iter_def wake_paused_def waits_for_children_def marker_def wakeup_due_def
        split: option.splits)
  then show ?thesis using assms(1) by (simp add: Advance_def)
qed

definition paused_sample :: saga_run where
  "paused_sample = (sample_run ''r1'')\<lparr>run_state := RunStatePaused, run_current_step := ''a''\<rparr>"

theorem Advance_ignores_early_witness:
  "Advance demo_coord 1 ''r1'' (demo_world (paused_sample\<lparr>run_wakeup_at := Some 20\<rparr>) [])
     = Some (None, demo_world (paused_sample\<lparr>run_wakeup_at := Some 20\<rparr>) [])"
  unfolding One_nat_def
  by (rule Advance_ignores_early [where i = "''r1''" and run = "paused_sample\<lparr>run_wakeup_at := Some 20\<rparr>"])
    (use demo_reads(1) [of "paused_sample\<lparr>run_wakeup_at := Some 20\<rparr>" "[]"] in
      \<open>simp_all add: paused_sample_def wakeup_due_def\<close>)

section \<open>Resuming\<close>

definition resume_step :: "gotime \<Rightarrow> saga_run \<Rightarrow> step \<Rightarrow> string" where
  "resume_step now run sp =
     (if wakeup_due now run \<and> marker run
      then (case map_of (step_branches sp) ''timeout'' of
              Some br \<Rightarrow> (if branch_next br \<noteq> [] then branch_next br else step_next sp)
            | None \<Rightarrow> step_next sp)
      else step_next sp)"

definition resumed :: "string \<Rightarrow> saga_run \<Rightarrow> saga_run" where
  "resumed next run =
     run\<lparr>run_wakeup_at := None, run_awaited_signal := None, run_awaited_event_topic := None,
         run_awaited_event_headers := [], run_state := RunStateRunning, run_current_step := next\<rparr>"

lemma wake_paused_resumes:
  assumes run: "GetRun (st w) i = Inr run" "run_id run = i"
    and awake: "wakeup_due (clk w) run \<or>
      \<not> marker run \<and> run_wakeup_at run = None \<and> childrenStillRunning (c_env c) run (st w) = Inr False"
    and d: "GetWorkflowDefinition (st w) (run_definition_id run) = Inr d"
    and sp: "StepByID d (run_current_step run) = Some sp"
    and nonempty: "resume_step (clk w) run sp \<noteq> []"
  shows "\<exists>w'. wake_paused c i run w = (Continue, w')
    \<and> GetRun (st w') i = Inr (resumed (resume_step (clk w) run sp) run)
    \<and> (\<forall>j. j \<noteq> i \<longrightarrow> GetRun (st w') j = GetRun (st w) j)
    \<and> (\<forall>j. GetWorkflowDefinition (st w') j = GetWorkflowDefinition (st w) j)
    \<and> history w' i = history w i @ [(EventStepSucceeded, step_id sp)]
    \<and> queue w' = queue w \<and> outbox w' = outbox w \<and> clk w' = clk w"
proof -
  have gate: "(if wakeup_due (clk w) run then Inr False else childrenStillRunning (c_env c) run (st w)) = Inr False"
    "wakeup_due (clk w) run \<or> (run_awaited_signal run = None \<and> run_awaited_event_topic run = None) \<and> run_wakeup_at run = None"
    using awake by (auto simp: marker_def)
  show ?thesis
    using gate nonempty run d sp
    by (cases "wakeup_due (clk w) run \<and> marker run")
      (auto simp: wake_paused_def Let_def as_with_run try_with_run resumed_def resume_step_def
        marker_def split: option.splits)
qed

text \<open>
  C12: A paused run whose pause is over resumes. When the deadline has passed, or the
  signal, event or children it waited for have arrived, \<^verbatim>\<open>Advance\<close> clears every wait marker,
  logs the success of the paused step and goes on from its successor; a deadline that passes while
  the signal or event is still outstanding takes the \<^verbatim>\<open>timeout\<close> branch if there is one.
  Other runs, the queue and the dispatches are untouched.
\<close>

theorem Advance_resumes:
  assumes "uuid_parse (c_env c) runIDStr = Inr i" and "ctx_err (c_env c) w = None"
    and "GetRun (st w) i = Inr run" and "run_id run = i" and "run_state run = RunStatePaused"
    and "wakeup_due (clk w) run \<or>
      \<not> marker run \<and> run_wakeup_at run = None \<and> childrenStillRunning (c_env c) run (st w) = Inr False"
    and "GetWorkflowDefinition (st w) (run_definition_id run) = Inr d"
    and "StepByID d (run_current_step run) = Some sp"
    and "resume_step (clk w) run sp \<noteq> []"
  shows "\<exists>w'. Advance c (Suc n) runIDStr w = advance_loop c i n w'
    \<and> GetRun (st w') i = Inr (resumed (resume_step (clk w) run sp) run)
    \<and> (\<forall>j. j \<noteq> i \<longrightarrow> GetRun (st w') j = GetRun (st w) j)
    \<and> history w' i = history w i @ [(EventStepSucceeded, step_id sp)]
    \<and> queue w' = queue w \<and> outbox w' = outbox w"
proof -
  obtain w' where "wake_paused c i run w = (Continue, w')"
    and w': "GetRun (st w') i = Inr (resumed (resume_step (clk w) run sp) run)"
      "\<forall>j. j \<noteq> i \<longrightarrow> GetRun (st w') j = GetRun (st w) j"
      "history w' i = history w i @ [(EventStepSucceeded, step_id sp)]"
      "queue w' = queue w" "outbox w' = outbox w"
    using wake_paused_resumes [OF assms(3,4,6-9)] by blast
  moreover from this(1) have "advance_iter c i w = (Continue, w')"
    using assms(2,3,5) by (simp add: advance_iter_def)
  ultimately show ?thesis using assms(1) by (auto simp: Advance_def)
qed

definition timed_step :: step where
  "timed_step = (blank_step ''a'')\<lparr>step_type := StepTypeWaitForSignal, step_next := ''b'',
     step_branches := [(''timeout'', \<lparr>branch_next = ''late''\<rparr>)]\<rparr>"

definition timed_out_run :: saga_run where
  "timed_out_run = paused_sample\<lparr>run_wakeup_at := Some 7, run_awaited_signal := Some ''go''\<rparr>"

theorem Advance_resumes_witness:
  "\<exists>w'. Advance demo_coord 1 ''r1'' (demo_world timed_out_run [timed_step])
      = advance_loop demo_coord ''r1'' 0 w'
    \<and> GetRun (st w') ''r1'' = Inr (resumed ''late'' timed_out_run)
    \<and> history w' ''r1'' = [(EventStepSucceeded, ''a'')]"
  using Advance_resumes [of demo_coord "''r1''" "''r1''" "demo_world timed_out_run [timed_step]"
      timed_out_run "demo_def [timed_step]" timed_step 0]
    demo_reads(1) [of timed_out_run "[timed_step]"]
  by (simp add: timed_out_run_def paused_sample_def wakeup_due_def resume_step_def marker_def
      timed_step_def demo_def_def StepByID_def blank_step_def) blast

text \<open>
  A pause on an action or on a join is not protected against a repeated delivery. Such a run carries
  neither a deadline nor a signal or event marker, and the check for outstanding children does not
  look at joins, so a second \<^verbatim>\<open>saga.advance\<close> logs the step as succeeded and moves on: the
  action's dispatch marker is still set and no result was stored, and the watched branches of the
  join may all be running.
\<close>

theorem duplicate_advance_skips_wait:
  assumes "ctx_err (c_env c) w = None"
    and "GetRun (st w) i = Inr run" and "run_id run = i" and "run_state run = RunStatePaused"
    and "\<not> marker run" and "run_wakeup_at run = None"
    and "GetWorkflowDefinition (st w) (run_definition_id run) = Inr d"
    and "StepByID d (run_current_step run) = Some sp"
    and "step_type sp = StepTypeAction \<or> step_type sp = StepTypeJoin" and "step_next sp \<noteq> []"
  shows "\<exists>w' r. advance_iter c i w = (Continue, w') \<and> GetRun (st w') i = Inr r
    \<and> run_state r = RunStateRunning \<and> run_current_step r = step_next sp
    \<and> run_awaited_action_dispatch r = run_awaited_action_dispatch run
    \<and> run_variables r = run_variables run
    \<and> history w' i = history w i @ [(EventStepSucceeded, step_id sp)]"
proof -
  have kids: "childrenStillRunning (c_env c) run (st w) = Inr False"
    using assms(7-9) by (auto simp: childrenStillRunning_def)
  have nx: "resume_step (clk w) run sp = step_next sp"
    using assms(5) by (simp add: resume_step_def)
  obtain w' where "wake_paused c i run w = (Continue, w')"
    "GetRun (st w') i = Inr (resumed (step_next sp) run)"
    "history w' i = history w i @ [(EventStepSucceeded, step_id sp)]"
    using wake_paused_resumes [OF assms(2,3) _ assms(7,8), of c] kids nx assms(5,6,10) by auto
  then show ?thesis
    using assms(1,2,4) by (auto simp: advance_iter_def resumed_def)
qed

definition awaiting_run :: saga_run where
  "awaiting_run = paused_sample\<lparr>run_awaited_action_dispatch := Some ''svc.do''\<rparr>"

theorem duplicate_advance_skips_wait_witness:
  "\<exists>w' r. advance_iter demo_coord ''r1'' (demo_world awaiting_run [act_step\<lparr>step_next := ''b''\<rparr>]) = (Continue, w')
    \<and> GetRun (st w') ''r1'' = Inr r \<and> run_state r = RunStateRunning \<and> run_current_step r = ''b''
    \<and> run_awaited_action_dispatch r = Some ''svc.do''"
  using duplicate_advance_skips_wait [of demo_coord "demo_world awaiting_run [act_step\<lparr>step_next := ''b''\<rparr>]"
      "''r1''" awaiting_run "demo_def [act_step\<lparr>step_next := ''b''\<rparr>]" "act_step\<lparr>step_next := ''b''\<rparr>"]
    demo_reads(1) [of awaiting_run "[act_step\<lparr>step_next := ''b''\<rparr>]"]
  by (simp add: awaiting_run_def paused_sample_def marker_def act_step_def demo_def_def StepByID_def
      blank_step_def) blast

section \<open>The license gate\<close>

definition gate_passes :: "coord \<Rightarrow> saga_run \<Rightarrow> step \<Rightarrow> registry_entry \<Rightarrow> bool" where
  "gate_passes c run s en \<longleftrightarrow>
     (let f = group_feature (LicenseGroupForStep s (entry_group en))
      in f = [] \<or> c_licensing c (run_tenant_id run) f (run_feature_overrides run) = Inr True)"

lemma license_gate_passes: "gate_passes c run s en \<Longrightarrow> license_gate c run s en w = (None, w)"
  by (auto simp: gate_passes_def license_gate_def Let_def)

lemma license_gate_rejects:
  assumes "\<not> gate_passes c run s en" and "GetRun (st w) (run_id run) = Inr r"
  shows "\<exists>err w' msg. license_gate c run s en w = (Some err, w')
    \<and> GetRun (st w') (run_id run) = Inr (failed_run (wall w) (step_id s) msg r) \<and> msg \<noteq> []
    \<and> history w' (run_id run) = history w (run_id run) @ [(EventLicenseGateRejected, step_id s)]
    \<and> queue w' = queue w \<and> outbox w' = outbox w"
  using assms
  by (auto simp: gate_passes_def license_gate_def Let_def as_with_run try_with_run sprintf_def
      split: sum.splits if_splits)

lemma license_gate_handler:
  "license_gate (RegisterVerb t en' c) run s (en\<lparr>entry_handler := h\<rparr>) w = license_gate c run s en w"
  by (simp add: license_gate_def RegisterVerb_def Let_def)

lemma enter_step_gated:
  assumes "step_type s \<noteq> StepTypeEnd" and "c_verbs c (step_type s) = Some en"
    and "try_store (UpdateRunState (run_id run) RunStateRunning (step_id s))
      (emit (c_env c) (run_id run) (step_id s) 0 EventStepDispatched ''engine'' [] w) = (r, w2)"
    and "license_gate c run s en w2 = (Some err, w')"
  shows "enter_step c run d s w = (Return (Some err), w')"
  using assms by (simp add: enter_step_def Let_def)

lemma advance_iter_enter:
  assumes "ctx_err (c_env c) w = None" and "GetRun (st w) i = Inr run"
    and "\<not> IsTerminal (run_state run)" and "run_state run \<noteq> RunStatePaused"
    and "GetWorkflowDefinition (st w) (run_definition_id run) = Inr d"
    and "StepByID d (if run_current_step run = [] then def_start d else run_current_step run) = Some s"
  shows "advance_iter c i w = enter_step c run d s
    (if run_state run = RunStatePending
     then emit (c_env c) (run_id run) [] 0 EventSagaStarted ''engine'' [] w else w)"
  using assms by (auto simp: advance_iter_def Let_def)

text \<open>
  C25: The license gate comes before the verb. When the resolver refuses the step's feature, or
  cannot be asked, the pass ends in an error, the run is failed at that step with a message,
  nothing is dispatched or published, and all this is the same whatever handler is
  registered: it is not called.
\<close>

theorem license_gate_blocks:
  assumes "ctx_err (c_env c) w = None" and "GetRun (st w) i = Inr run" and "run_id run = i"
    and "\<not> IsTerminal (run_state run)" and "run_state run \<noteq> RunStatePaused"
    and "GetWorkflowDefinition (st w) (run_definition_id run) = Inr d"
    and "StepByID d (if run_current_step run = [] then def_start d else run_current_step run) = Some s"
    and "step_type s \<noteq> StepTypeEnd" and "c_verbs c (step_type s) = Some en"
    and "\<not> gate_passes c run s en"
  shows "\<exists>err w' r. advance_iter c i w = (Return (Some err), w')
    \<and> (\<forall>h. advance_iter (RegisterVerb (step_type s) (en\<lparr>entry_handler := h\<rparr>) c) i w
           = (Return (Some err), w'))
    \<and> GetRun (st w') i = Inr r \<and> run_state r = RunStateFailed \<and> run_current_step r = step_id s
    \<and> run_last_error r \<noteq> None \<and> run_variables r = run_variables run
    \<and> last (history w' i) = (EventLicenseGateRejected, step_id s)
    \<and> queue w' = queue w \<and> outbox w' = outbox w"
proof -
  define w1 where "w1 = (if run_state run = RunStatePending
    then emit (c_env c) (run_id run) [] 0 EventSagaStarted ''engine'' [] w else w)"
  define r2 where "r2 = run\<lparr>run_state := RunStateRunning, run_current_step := step_id s\<rparr>"
  define w2 where "w2 = put_run i r2 (emit (c_env c) i (step_id s) 0 EventStepDispatched ''engine'' [] w1)"
  have w1: "GetRun (st w1) i = Inr run" "queue w1 = queue w" "outbox w1 = outbox w"
    using assms(2) by (simp_all add: w1_def)
  have step: "try_store (UpdateRunState i RunStateRunning (step_id s))
      (emit (c_env c) i (step_id s) 0 EventStepDispatched ''engine'' [] w1) = (None, w2)"
    using w1 by (simp add: as_with_run try_with_run w2_def r2_def)
  obtain err w' msg where gate: "license_gate c run s en w2 = (Some err, w')"
    and w': "GetRun (st w') i = Inr (failed_run (wall w2) (step_id s) msg r2)" "msg \<noteq> []"
      "history w' i = history w2 i @ [(EventLicenseGateRejected, step_id s)]"
      "queue w' = queue w2" "outbox w' = outbox w2"
    using license_gate_rejects [OF assms(10), of w2 r2] assms(3) by (auto simp: w2_def)
  have enter: "enter_step c run d s w1 = (Return (Some err), w')"
    using enter_step_gated [OF assms(8,9) _ gate] step assms(3) by blast
  have iter: "advance_iter c i w = (Return (Some err), w')"
    using advance_iter_enter [OF assms(1,2,4-7)] enter by (simp add: w1_def)
  have other: "advance_iter (RegisterVerb (step_type s) (en\<lparr>entry_handler := h\<rparr>) c) i w
      = (Return (Some err), w')" for h
  proof -
    let ?c = "RegisterVerb (step_type s) (en\<lparr>entry_handler := h\<rparr>) c"
    have same: "c_env ?c = c_env c" "c_verbs ?c (step_type s) = Some (en\<lparr>entry_handler := h\<rparr>)"
      by (simp_all add: RegisterVerb_def)
    have "enter_step ?c run d s w1 = (Return (Some err), w')"
      by (rule enter_step_gated [OF assms(8) same(2)])
        (use step gate assms(3) in \<open>auto simp: same(1) license_gate_handler\<close>)
    then show ?thesis
      using advance_iter_enter [of ?c, OF _ assms(2,4-7)] assms(1)
      unfolding same(1) w1_def [symmetric] by simp
  qed
  show ?thesis
    using iter other w' w1 by (auto simp: failed_run_def r2_def w2_def)
qed

definition deny_all :: resolver where
  "deny_all tenant feature ov = Inr False"

definition wait_a :: step where
  "wait_a = (blank_step ''a'')\<lparr>step_type := StepTypeWaitUntil\<rparr>"

lemma wait_a_fields [simp]: "step_id wait_a = ''a''" "step_type wait_a = StepTypeWaitUntil"
  by (simp_all add: wait_a_def blank_step_def)

lemma waits_denied:
  "c_env (NewCoordinator e av (Some deny_all)) = e"
  "c_verbs (NewCoordinator e av lr) StepTypeWaitUntil = Some (plain_entry (WaitUntilVerb e) ''waits'')"
  "\<not> gate_passes (NewCoordinator e av (Some deny_all)) run wait_a (plain_entry h ''waits'')"
  by (simp_all add: NewCoordinator_def RegisterVerb_def Default_def gate_passes_def deny_all_def
      plain_entry_def LicenseGroupForStep_def group_feature_def GroupToFeature_def)

theorem license_gate_blocks_witness:
  "\<exists>err w' r. advance_iter (NewCoordinator test_env broker_verb (Some deny_all)) ''r1''
        (demo_world (sample_run ''r1'') [wait_a]) = (Return (Some err), w')
    \<and> GetRun (st w') ''r1'' = Inr r \<and> run_state r = RunStateFailed"
  using license_gate_blocks [of "NewCoordinator test_env broker_verb (Some deny_all)"
      "demo_world (sample_run ''r1'') [wait_a]" "''r1''" "sample_run ''r1''" "demo_def [wait_a]"
      wait_a "plain_entry (WaitUntilVerb test_env) ''waits''"]
    demo_reads(1) [of "sample_run ''r1''" "[wait_a]"]
    waits_denied by simp blast

section \<open>Retries\<close>

lemma clk_reads [simp]:
  "history (w\<lparr>clk := t\<rparr>) i = history w i"
  by (simp add: history_def)

text \<open>
  What happens between a failed attempt and the next one: the failure is logged with the number of the
  attempt, and the clock moves on by the backoff.
\<close>

definition retry_gap :: "coord \<Rightarrow> saga_run \<Rightarrow> step \<Rightarrow> retry_policy \<Rightarrow> nat \<Rightarrow> world \<Rightarrow> world" where
  "retry_gap c run s p attempt w =
     (let w1 = emit (c_env c) (run_id run) (step_id s) (int attempt + 1) EventStepFailed ''engine-retry'' [] w
      in w1\<lparr>clk := clk w1 + max 0 (Backoff (c_env c) p attempt (jitter p) w1)\<rparr>)"

lemma retry_gap_history:
  "history (retry_gap c run s p a w) (run_id run) = history w (run_id run) @ [(EventStepFailed, step_id s)]"
  by (simp add: retry_gap_def Let_def)

text \<open>The results after which an attempt is the last one whatever the budget: success, pause and cancellation.\<close>

definition final_result :: "gerr + gomap \<Rightarrow> bool" where
  "final_result res \<longleftrightarrow>
     (case res of Inr _ \<Rightarrow> True | Inl err \<Rightarrow> is_paused_err err \<or> is_cancelled_err err)"

lemma attempt_loop_calls:
  assumes "\<And>w. ctx_err (c_env c) w = None"
    and "attempt_loop c run s h p attempt left w = (res, w')"
  shows "\<exists>vs. vs \<noteq> [] \<and> hd vs = w \<and> length vs \<le> Suc left \<and> h run s (last vs) = (res, w')
    \<and> (\<forall>i. Suc i < length vs \<longrightarrow> \<not> final_result (fst (h run s (vs ! i)))
         \<and> vs ! Suc i = retry_gap c run s p (attempt + i) (snd (h run s (vs ! i))))
    \<and> (length vs = Suc left \<or> final_result res)"
  using assms(2)
proof (induction left arbitrary: attempt w)
  case 0
  then show ?case by (intro exI [of _ "[w]"]) simp
next
  case (Suc left)
  obtain r w1 where h: "h run s w = (r, w1)" by fastforce
  show ?case
  proof (cases "final_result r")
    case True
    then have "res = r" "w' = w1"
      using Suc.prems h by (auto simp: final_result_def isControlSignal_def split: sum.splits)
    then show ?thesis using h True by (intro exI [of _ "[w]"]) simp
  next
    case False
    then have "attempt_loop c run s h p (Suc attempt) left (retry_gap c run s p attempt w1) = (res, w')"
      using Suc.prems h assms(1)
      by (auto simp: final_result_def isControlSignal_def retry_gap_def Let_def split: sum.splits)
    from Suc.IH [OF this] obtain vs where vs: "vs \<noteq> []" "hd vs = retry_gap c run s p attempt w1"
      "length vs \<le> Suc left" "h run s (last vs) = (res, w')"
      "\<forall>i. Suc i < length vs \<longrightarrow> \<not> final_result (fst (h run s (vs ! i)))
         \<and> vs ! Suc i = retry_gap c run s p (Suc attempt + i) (snd (h run s (vs ! i)))"
      "length vs = Suc left \<or> final_result res" by blast
    have "\<not> final_result (fst (h run s ((w # vs) ! i)))
        \<and> (w # vs) ! Suc i = retry_gap c run s p (attempt + i) (snd (h run s ((w # vs) ! i)))"
      if "Suc i < length (w # vs)" for i
      using that vs(1,2,5) h False by (cases i) (auto simp: hd_conv_nth)
    then show ?thesis using vs by (intro exI [of _ "w # vs"]) auto
  qed
qed

text \<open>
  C26: A retry policy is a budget of calls. The handler is called on the worlds \<open>vs\<close>, the first of them
  the one the step is entered with: at least once and at most \<^verbatim>\<open>max_attempts\<close> times. Every call but the
  last has failed with an error that is neither a pause nor a cancellation, and the next
  call follows it after one retry event with the number of the attempt and after the backoff. The result
  is the one of the last call, and fewer calls than the budget are made only when that one succeeds,
  pauses or cancels: a pause or a cancellation is never retried. The context is taken not to
  be done meanwhile.
\<close>

theorem retry_budget:
  assumes "step_retry s = Some p" and "\<And>w. ctx_err (c_env c) w = None"
    and "executeStep c run s h w = (res, w')"
  shows "\<exists>vs. vs \<noteq> [] \<and> hd vs = w \<and> int (length vs) \<le> max 1 (max_attempts p)
    \<and> h run s (last vs) = (res, w')
    \<and> (\<forall>i. Suc i < length vs \<longrightarrow>
         (\<exists>err. fst (h run s (vs ! i)) = Inl err \<and> \<not> is_paused_err err \<and> \<not> is_cancelled_err err)
         \<and> vs ! Suc i = retry_gap c run s p i (snd (h run s (vs ! i)))
         \<and> history (vs ! Suc i) (run_id run)
             = history (snd (h run s (vs ! i))) (run_id run) @ [(EventStepFailed, step_id s)])
    \<and> (int (length vs) = max 1 (max_attempts p) \<or> (\<exists>out. res = Inr out)
        \<or> (\<exists>err. res = Inl err \<and> (is_paused_err err \<or> is_cancelled_err err)))"
proof -
  define n where "n = nat ((if max_attempts p > 1 then max_attempts p else 1) - 1)"
  have n: "int (Suc n) = max 1 (max_attempts p)" by (simp add: n_def)
  have "attempt_loop c run s h p 0 n w = (res, w')"
    using assms(1,3) by (simp add: executeStep_def n_def)
  from attempt_loop_calls [OF assms(2) this] obtain vs where vs: "vs \<noteq> []" "hd vs = w"
    "length vs \<le> Suc n" "h run s (last vs) = (res, w')"
    "\<forall>i. Suc i < length vs \<longrightarrow> \<not> final_result (fst (h run s (vs ! i)))
         \<and> vs ! Suc i = retry_gap c run s p i (snd (h run s (vs ! i)))"
    "length vs = Suc n \<or> final_result res" by auto
  have "\<exists>err. r = Inl err \<and> \<not> is_paused_err err \<and> \<not> is_cancelled_err err" if "\<not> final_result r" for r
    using that by (cases r) (auto simp: final_result_def)
  moreover have "(\<exists>out. res = Inr out) \<or> (\<exists>err. res = Inl err \<and> (is_paused_err err \<or> is_cancelled_err err))"
    if "final_result res" using that by (cases res) (auto simp: final_result_def)
  moreover have "int (length vs) \<le> max 1 (max_attempts p)" using vs(3) n by linarith
  moreover have "int (length vs) = max 1 (max_attempts p)" if "length vs = Suc n" using that n by simp
  ultimately show ?thesis
    using vs by (intro exI [of _ vs]) (auto simp: retry_gap_history)
qed

definition http_step :: step where
  "http_step = (blank_step ''a'')\<lparr>step_type := StepTypeHTTPRequest,
     step_inputs := [(''url'', VStr ''u'')], step_retry := Some DefaultRetryPolicy\<rparr>"

text \<open>A handler that fails at its first call and pauses the run at the second.\<close>

definition fail_then_pause :: handler where
  "fail_then_pause run s w =
     (Inl (if queue w = [] then ErrCtx ''x'' else ErrSagaPaused), w\<lparr>queue := [run_id run]\<rparr>)"

theorem retry_budget_witness:
  "\<exists>vs. fail_then_pause (sample_run ''r1'') http_step (last vs)
        = executeStep demo_coord (sample_run ''r1'') http_step fail_then_pause test_world
    \<and> length vs = 2 \<and> hd vs = test_world"
proof -
  let ?h = "fail_then_pause (sample_run ''r1'') http_step"
  let ?x = "executeStep demo_coord (sample_run ''r1'') http_step fail_then_pause test_world"
  have policy: "step_retry http_step = Some DefaultRetryPolicy" "max_attempts DefaultRetryPolicy = 3"
    by (simp_all add: http_step_def DefaultRetryPolicy_def)
  obtain vs where vs: "vs \<noteq> []" "hd vs = test_world" "?h (last vs) = ?x"
    "\<forall>i. Suc i < length vs \<longrightarrow> (\<exists>err. fst (?h (vs ! i)) = Inl err \<and> \<not> is_paused_err err \<and> \<not> is_cancelled_err err)
        \<and> vs ! Suc i = retry_gap demo_coord (sample_run ''r1'') http_step DefaultRetryPolicy i (snd (?h (vs ! i)))"
    "int (length vs) = max 1 3 \<or> (\<exists>out. fst ?x = Inr out)
       \<or> (\<exists>err. fst ?x = Inl err \<and> (is_paused_err err \<or> is_cancelled_err err))"
    using retry_budget [where s = http_step and h = fail_then_pause
        and run = "sample_run ''r1''" and c = demo_coord and w = test_world, OF policy(1) _
        prod.collapse [symmetric]] unfolding policy(2) prod.collapse by (simp only: demo_env) blast
  have first: "vs ! 0 = test_world" using vs(1,2) by (simp add: hd_conv_nth)
  have plain: "\<not> is_paused_err (ErrCtx ''x'')" "\<not> is_cancelled_err (ErrCtx ''x'')" "is_paused_err ErrSagaPaused"
    by (simp_all add: is_paused_err_def is_cancelled_err_def)
  have more: "length vs \<noteq> 1"
  proof
    assume "length vs = 1"
    then have "last vs = test_world" using first by (metis One_nat_def diff_Suc_1 last_conv_nth vs(1))
    then have "fst ?x = Inl (ErrCtx ''x'')" using vs(3) [symmetric] by (simp add: fail_then_pause_def test_world_def)
    then show False using vs(5) \<open>length vs = 1\<close> plain by simp
  qed
  have "\<not> 2 < length vs"
  proof
    assume len: "2 < length vs"
    then have "vs ! Suc 0 = retry_gap demo_coord (sample_run ''r1'') http_step DefaultRetryPolicy 0
        (snd (?h test_world))" using vs(4) first by auto
    then have "queue (vs ! 1) \<noteq> []" by (simp add: retry_gap_def Let_def fail_then_pause_def)
    then have "fst (?h (vs ! 1)) = Inl ErrSagaPaused" by (simp add: fail_then_pause_def)
    then show False using vs(4) [rule_format, of 1] len plain(3) by force
  qed
  then have "length vs = 2" using vs(1) more by (cases vs rule: list.exhaust) (auto simp: less_Suc_eq not_less le_Suc_eq numeral_2_eq_2)
  then show ?thesis using vs by blast
qed

section \<open>Backoff\<close>

definition rounds :: "env \<Rightarrow> bool" where
  "rounds e \<longleftrightarrow> mono (fl_round e) \<and>
     (\<forall>k::int. \<bar>k\<bar> \<le> 2 ^ 53 \<longrightarrow> fl_round e (of_int k / 4) = of_int k / 4)"

lemma rounds_between:
  assumes "rounds e" and "of_int a / 4 \<le> x" and "x \<le> of_int b / 4"
    and "\<bar>a\<bar> \<le> 2 ^ 53" and "\<bar>b\<bar> \<le> 2 ^ 53"
  shows "of_int a / 4 \<le> fl_round e x" "fl_round e x \<le> of_int b / 4"
  using assms monoD [of "fl_round e"] unfolding rounds_def by metis+

lemma rounds_int: "rounds e \<Longrightarrow> \<bar>k\<bar> \<le> 2 ^ 51 \<Longrightarrow> fl_round e (of_int k) = of_int k"
  unfolding rounds_def by (drule conjunct2, drule spec [of _ "4 * k"]) simp

lemma noise_bounds:
  assumes r: "rounds e" and "0 \<le> d" and "d \<le> 1"
  shows "3 / 4 \<le> fl_round e (1 + fl_round e (fl_round e (d * (1 / 2)) - 1 / 4))"
    "fl_round e (1 + fl_round e (fl_round e (d * (1 / 2)) - 1 / 4)) \<le> 5 / 4"
proof -
  have a: "0 \<le> fl_round e (d * (1 / 2))" "fl_round e (d * (1 / 2)) \<le> 1 / 2"
    using rounds_between [OF r, of 0 "d * (1 / 2)" 2] assms(2,3) by simp_all
  have b: "- 1 / 4 \<le> fl_round e (fl_round e (d * (1 / 2)) - 1 / 4)"
    "fl_round e (fl_round e (d * (1 / 2)) - 1 / 4) \<le> 1 / 4"
    using rounds_between [OF r, of "- 1" "fl_round e (d * (1 / 2)) - 1 / 4" 1] a by simp_all
  show "3 / 4 \<le> fl_round e (1 + fl_round e (fl_round e (d * (1 / 2)) - 1 / 4))"
    "fl_round e (1 + fl_round e (fl_round e (d * (1 / 2)) - 1 / 4)) \<le> 5 / 4"
    using rounds_between [OF r, of 3 "1 + fl_round e (fl_round e (d * (1 / 2)) - 1 / 4)" 5] b by simp_all
qed

lemma milliseconds_bounds:
  assumes "0 \<le> q" and "q \<le> of_int b / 4" and "b \<le> 2 ^ 43"
  shows "0 \<le> wrap64 (int64_of_float e q * millisecond_ns)"
    "wrap64 (int64_of_float e q * millisecond_ns) \<le> b div 4 * millisecond_ns"
proof -
  have t: "0 \<le> rat_trunc q" "rat_trunc q \<le> b div 4"
    using assms(1,2) floor_mono [of q "of_int b / 4"] floor_divide_of_int_eq [of b 4, where 'a = rat]
    by (simp_all add: rat_trunc_def)
  have small: "rat_trunc q \<le> 2 ^ 41" using t assms(3) by simp
  then have i: "int64_of_float e q = rat_trunc q"
    using t(1) by (simp add: int64_of_float_def int64_max_def Let_def)
  have "wrap64 (rat_trunc q * millisecond_ns) = rat_trunc q * millisecond_ns"
    using t(1) small by (intro wrap64_id) simp_all
  then show "0 \<le> wrap64 (int64_of_float e q * millisecond_ns)"
    "wrap64 (int64_of_float e q * millisecond_ns) \<le> b div 4 * millisecond_ns"
    using t i by simp_all
qed

text \<open>
  C38: The wait between attempts stays within its bounds for every attempt: never negative, at most
  \<^verbatim>\<open>max_backoff_ms\<close> (60 seconds when unset) without jitter, and at most a quarter more
  with it, since the noise is applied after the cap. The hypotheses are the
  documented behaviour of float64 rounding, \<^verbatim>\<open>math.Pow\<close> and \<^verbatim>\<open>rand.Float64\<close>.
\<close>

theorem Backoff_bounds:
  assumes "rounds e" and "\<And>b n. 0 \<le> b \<Longrightarrow> 0 \<le> fl_pow e b n"
    and "0 \<le> jitter_draw e w" and "jitter_draw e w < 1"
    and "0 \<le> initial_backoff_ms p" and "0 \<le> max_backoff_ms p" and "max_backoff_ms p \<le> 2 ^ 40"
    and "capMS = (if max_backoff_ms p = 0 then 60000 else max_backoff_ms p)"
  shows "0 \<le> Backoff e p attempt jit w
    \<and> Backoff e p attempt jit w \<le> (if jit then 5 * capMS div 4 else capMS) * millisecond_ns"
proof -
  define mult where "mult = (if multiplier p \<le> 0 then 2 else multiplier p)"
  define b1 where "b1 = fl_round e (fl_round e (of_int (initial_backoff_ms p)) * fl_pow e mult attempt)"
  define b2 where "b2 = (if b1 > of_int capMS then of_int capMS else b1)"
  define noise where "noise = fl_round e (1 + fl_round e (fl_round e (jitter_draw e w * (1 / 2)) - 1 / 4))"
  have zero: "fl_round e 0 = 0" using rounds_int [OF assms(1), of 0] by simp
  have nonneg: "0 \<le> fl_round e x" if "0 \<le> x" for x
    using monoD [of "fl_round e" 0 x] assms(1) that zero by (simp add: rounds_def)
  have cap: "0 \<le> capMS" "capMS \<le> 2 ^ 40" using assms(6-8) by (simp_all split: if_splits)
  have b2: "0 \<le> b2" "b2 \<le> of_int capMS"
    using nonneg assms(2) [of mult attempt] assms(5) cap(1) by (simp_all add: b2_def b1_def mult_def)
  have noise: "0 \<le> noise" "noise \<le> 5 / 4"
    using noise_bounds [OF assms(1,3)] assms(4) by (simp_all add: noise_def)
  have unfold: "Backoff e p attempt jit w
      = wrap64 (int64_of_float e (if jit then fl_round e (b2 * noise) else b2) * millisecond_ns)"
    using rounds_int [OF assms(1), of "max_backoff_ms p"] assms(6-8)
    by (auto simp: Backoff_def Let_def b2_def b1_def mult_def noise_def)
  show ?thesis
  proof (cases jit)
    case True
    have "b2 * noise \<le> of_int capMS * (5 / 4)"
      using mult_mono [OF b2(2) noise(2)] b2 noise cap(1) by simp
    then have "0 \<le> fl_round e (b2 * noise)" "fl_round e (b2 * noise) \<le> of_int (5 * capMS) / 4"
      using rounds_between [OF assms(1), of 0 "b2 * noise" "5 * capMS"] b2 noise cap by simp_all
    then show ?thesis using milliseconds_bounds [of _ "5 * capMS" e] cap True unfold by simp
  next
    case False
    then show ?thesis using milliseconds_bounds [of b2 "4 * capMS" e] b2 cap unfold by simp
  qed
qed

theorem Backoff_bounds_witness:
  "0 \<le> Backoff test_env DefaultRetryPolicy 40 True test_world
    \<and> Backoff test_env DefaultRetryPolicy 40 True test_world \<le> 75000 * millisecond_ns"
  using Backoff_bounds [of test_env test_world DefaultRetryPolicy 60000 40 True]
  by (simp add: rounds_def test_env_def mono_def DefaultRetryPolicy_def)

end
