(* ===== verification/Recovery.thy ===== *)
theory Recovery
  imports Coordinator_Properties
begin

text \<open>
  Failure and completion across steps and runs: the order of compensation, the two
  ways a failing step ends, and the hooks by which a finished child wakes its parent
  (\<^verbatim>\<open>engine/compensation.go\<close>, \<^verbatim>\<open>checkParentJoin\<close> and \<^verbatim>\<open>checkJoinBarriers\<close> of \<^verbatim>\<open>engine/advance.go\<close>).
\<close>

section \<open>Which steps are compensated\<close>

text \<open>
  The reference: the ids of the success events in log order, first occurrences only, without
  the failed step, steps the definition does not have and end steps.
\<close>

definition succeeded_ids :: "saga_run_event list \<Rightarrow> string list" where
  "succeeded_ids evs = map ev_step_id (filter (\<lambda>ev. ev_type ev = EventStepSucceeded) evs)"

definition compensable :: "workflow_definition \<Rightarrow> string \<Rightarrow> string \<Rightarrow> bool" where
  "compensable d failed i \<longleftrightarrow> i \<noteq> [] \<and> i \<noteq> failed \<and>
     (case StepByID d i of None \<Rightarrow> False | Some sp \<Rightarrow> step_type sp \<noteq> StepTypeEnd)"

definition firsts :: "'a list \<Rightarrow> 'a list" where
  "firsts xs = rev (remdups (rev xs))"

lemma remdups_snoc: "remdups (xs @ [x]) = filter (\<lambda>y. y \<noteq> x) (remdups xs) @ [x]"
  by (induction xs) auto

lemma firsts_simps [simp]: "firsts [] = []" "firsts (x # xs) = x # filter (\<lambda>y. y \<noteq> x) (firsts xs)"
  by (simp_all add: firsts_def remdups_snoc rev_filter)

lemma firsts_set [simp]: "set (firsts xs) = set xs" "distinct (firsts xs)"
  by (simp_all add: firsts_def)

definition completed_steps :: "workflow_definition \<Rightarrow> string \<Rightarrow> saga_run_event list \<Rightarrow> step list" where
  "completed_steps d failed evs =
     map (\<lambda>i. the (StepByID d i)) (firsts (filter (compensable d failed) (succeeded_ids evs)))"

lemma completed_loop_Cons:
  "completed_loop d failed seen out (ev # evs) =
     (if ev_type ev = EventStepSucceeded \<and> compensable d failed (ev_step_id ev) \<and> ev_step_id ev \<notin> set seen
      then completed_loop d failed (ev_step_id ev # seen) (out @ [the (StepByID d (ev_step_id ev))]) evs
      else completed_loop d failed seen out evs)"
  by (auto simp: compensable_def split: option.split)

lemma completed_loop_spec:
  "completed_loop d failed seen out evs =
     out @ map (\<lambda>i. the (StepByID d i))
       (filter (\<lambda>i. i \<notin> set seen) (firsts (filter (compensable d failed) (succeeded_ids evs))))"
proof (induction evs arbitrary: seen out)
  case (Cons ev evs)
  have shift: "filter (\<lambda>i. i \<notin> set (x # seen)) xs = filter (\<lambda>i. i \<notin> set seen) (filter (\<lambda>y. y \<noteq> x) xs)"
    for x and xs :: "string list" by (induction xs) auto
  have drop: "x \<in> set seen \<Longrightarrow>
      filter (\<lambda>i. i \<notin> set seen) (filter (\<lambda>y. y \<noteq> x) xs) = filter (\<lambda>i. i \<notin> set seen) xs"
    for x and xs :: "string list" by (induction xs) auto
  have ids: "succeeded_ids (ev # evs) =
      (if ev_type ev = EventStepSucceeded then [ev_step_id ev] else []) @ succeeded_ids evs"
    by (simp add: succeeded_ids_def)
  show ?case
    unfolding completed_loop_Cons ids Cons.IH shift
    by (simp add: drop del: filter_filter)
qed (simp add: succeeded_ids_def)

lemma completedCompensableSteps_spec:
  "completedCompensableSteps run d failed s = completed_steps d failed (ListEventsByRun s (run_id run))"
  by (simp add: completedCompensableSteps_def completed_loop_spec completed_steps_def)

section \<open>Compensation\<close>

text \<open>The messages a rollback sends over the broker, in the order of the given steps.\<close>

fun rollback :: "saga_run \<Rightarrow> step list \<Rightarrow> dispatch list" where
  "rollback run [] = []"
| "rollback run (sp # ss) =
     (case step_compensation sp of
        None \<Rightarrow> []
      | Some cp \<Rightarrow>
          (if contains_str (comp_action cp) ''.''
           then [ToExchange (comp_action cp)
                   (CompensationPayload (run_id run) (step_id sp) (comp_action cp) (comp_inputs cp)
                      (run_dry_run run))]
           else []))
     @ rollback run ss"

definition brokered :: "action_verb \<Rightarrow> mem_store \<Rightarrow> bool" where
  "brokered av s \<longleftrightarrow> (\<forall>a. fst (resolveDispatch av s a) \<in> {[], ''grpc''})
     \<and> (\<exists>p. av_publisher av = Some p \<and> (\<forall>w a b. p w a b = None))"

lemma resolveDispatch_cong: "actions s = actions s' \<Longrightarrow> resolveDispatch av s a = resolveDispatch av s' a"
  by (simp add: resolveDispatch_def ListActions_def split: option.split)

lemma brokered_cong: "actions s = actions s' \<Longrightarrow> brokered av s = brokered av s'"
  by (simp add: brokered_def resolveDispatch_cong [of s s'])

lemma dispatch_brokered:
  assumes "brokered av (st w)"
  shows "dispatch av a b w = (None, send (ToExchange a b) w)"
proof -
  obtain tr ad where "resolveDispatch av (st w) a = (tr, ad)" by force
  moreover have "fst (resolveDispatch av (st w) a) \<in> {[], ''grpc''}"
    using assms unfolding brokered_def by blast
  ultimately show ?thesis using assms by (auto simp: dispatch_def brokered_def)
qed

lemma compensate_steps_effect:
  assumes "brokered av (st w)"
  shows "compensate_steps av run ss w = w\<lparr>outbox := outbox w @ rollback run ss\<rparr>"
  using assms
proof (induction ss arbitrary: w)
  case (Cons sp ss)
  have dot: "\<not> contains_str [] ''.''" by (simp add: contains_dot [symmetric])
  show ?case
  proof (cases "step_compensation sp")
    case None
    then show ?thesis using Cons by simp
  next
    case (Some cp)
    define w1 where "w1 = ignore (DispatchCompensation av (run_id run) (step_id sp) (comp_action cp)
      (comp_inputs cp) (run_dry_run run) w)"
    have w1: "w1 = w\<lparr>outbox := outbox w @ rollback run [sp]\<rparr>"
      using Cons.prems Some dot
      by (auto simp: w1_def DispatchCompensation_def dispatch_brokered send_def)
    have "compensate_steps av run (sp # ss) w = compensate_steps av run ss w1"
      by (simp add: Some w1_def)
    also have "\<dots> = w1\<lparr>outbox := outbox w1 @ rollback run ss\<rparr>"
      by (rule Cons.IH) (use Cons.prems w1 in simp)
    finally show ?thesis by (simp add: w1 Some)
  qed
qed simp

lemma actions_put_run [simp]: "actions (st (put_run i r w)) = actions (st w)"
  by (simp add: put_run_def)

lemma compensate_effect:
  assumes "GetRun (st w) (run_id run) = Inr r" and "c_verbs c StepTypeAction = Some en"
    and "entry_action en = Some av" and "brokered av (st w)"
    and "done = completed_steps d (step_id failed) (ListEventsByRun (st w) (run_id run))"
  shows "compensate c run d failed w =
    (if done = [] then w
     else (emit (c_env c) (run_id run) (step_id failed) 0 EventCompensationStarted ''engine'' []
             (put_run (run_id run)
               (r\<lparr>run_state := RunStateCompensating, run_current_step := run_current_step run\<rparr>) w))
          \<lparr>outbox := outbox w @ rollback run (rev done)\<rparr>)"
proof -
  let ?w = "emit (c_env c) (run_id run) (step_id failed) 0 EventCompensationStarted ''engine'' []
    (put_run (run_id run) (r\<lparr>run_state := RunStateCompensating, run_current_step := run_current_step run\<rparr>) w)"
  have "brokered av (st ?w)" using assms(4) brokered_cong [of "st ?w" "st w"] by simp
  from compensate_steps_effect [OF this, of run "rev done"] show ?thesis
    using assms(1-3)
    by (simp add: compensate_def completedCompensableSteps_spec assms(5) as_with_run try_with_run)
qed

text \<open>
  C1: Rollback. When a step of a run fails, the steps that succeeded before it, each taken once however
  often it ran, are compensated in the reverse of the order in which they first completed;
  the failed step itself, end steps and steps without a compensation send nothing. With a broker
  that accepts messages every one of them is sent, and the run is left compensating.
\<close>

theorem compensation_reverse_order:
  assumes "GetRun (st w) (run_id run) = Inr r" and "c_verbs c StepTypeAction = Some en"
    and "entry_action en = Some av" and "brokered av (st w)"
    and "ids = firsts (filter (compensable d (step_id failed)) (succeeded_ids (ListEventsByRun (st w) (run_id run))))"
    and "ids \<noteq> []"
  shows "outbox (compensate c run d failed w)
      = outbox w @ rollback run (map (\<lambda>i. the (StepByID d i)) (rev ids))
    \<and> distinct ids \<and> step_id failed \<notin> set ids
    \<and> (\<exists>r'. GetRun (st (compensate c run d failed w)) (run_id run) = Inr r'
        \<and> run_state r' = RunStateCompensating \<and> run_variables r' = run_variables r)
    \<and> queue (compensate c run d failed w) = queue w"
  unfolding compensate_effect [OF assms(1-4) refl]
  using assms(5,6) by (auto simp: completed_steps_def rev_map compensable_def)

lemma history_outbox [simp]: "history (w\<lparr>outbox := x\<rparr>) i = history w i"
  by (simp add: history_def)

lemma succeeded_ids_history:
  "succeeded_ids (ListEventsByRun (st w) i) = map snd (filter (\<lambda>(t, s). t = EventStepSucceeded) (history w i))"
proof -
  have "succeeded_ids evs = map snd (filter (\<lambda>(t, s). t = EventStepSucceeded)
      (map (\<lambda>ev. (ev_type ev, ev_step_id ev)) evs))" for evs
    by (induction evs) (simp_all add: succeeded_ids_def)
  then show ?thesis by (simp add: history_def)
qed

definition undo_step :: "string \<Rightarrow> step" where
  "undo_step i = (blank_step i)\<lparr>step_compensation := Some \<lparr>comp_action = ''svc.undo'', comp_inputs = []\<rparr>\<rparr>"

definition two_done :: world where
  "two_done = emit test_env ''r1'' ''b'' 0 EventStepSucceeded ''engine'' []
     (emit test_env ''r1'' ''a'' 0 EventStepSucceeded ''engine'' []
       (demo_world (sample_run ''r1'') [undo_step ''a'', undo_step ''b'', blank_step ''c'']))"

lemma two_done_reads:
  "GetRun (st two_done) ''r1'' = Inr (sample_run ''r1'')"
  "succeeded_ids (ListEventsByRun (st two_done) ''r1'') = [''a'', ''b'']"
  "outbox two_done = []"
  using demo_reads(1) [of "sample_run ''r1''"]
  by (simp_all add: two_done_def succeeded_ids_history)

lemma demo_broker:
  "\<exists>en. c_verbs demo_coord StepTypeAction = Some en \<and> entry_action en = Some broker_verb"
  "brokered broker_verb s"
  by (simp_all add: demo_coord_def NewCoordinator_def RegisterVerb_def Default_def brokered_def
      broker_verb_def resolveDispatch_def split: option.split)

theorem compensation_reverse_order_witness:
  "map pl_step (map (\<lambda>m. case m of ToExchange a b \<Rightarrow> b) (outbox (compensate demo_coord (sample_run ''r1'')
     (demo_def [undo_step ''a'', undo_step ''b'', blank_step ''c'']) (blank_step ''c'') two_done)))
   = [''b'', ''a'']"
proof -
  obtain en where en: "c_verbs demo_coord StepTypeAction = Some en" "entry_action en = Some broker_verb"
    using demo_broker(1) by blast
  let ?d = "demo_def [undo_step ''a'', undo_step ''b'', blank_step ''c'']"
  have ids: "firsts (filter (compensable ?d ''c'') [''a'', ''b'']) = [''a'', ''b'']"
    "map (\<lambda>i. the (StepByID ?d i)) [''b'', ''a''] = [undo_step ''b'', undo_step ''a'']"
    by (simp_all add: compensable_def StepByID_def undo_step_def blank_step_def)
  show ?thesis
    using compensation_reverse_order [of two_done "sample_run ''r1''" "sample_run ''r1''" demo_coord en
        broker_verb "[''a'', ''b'']" ?d "blank_step ''c''"] en demo_broker(2) two_done_reads ids
    by (simp add: undo_step_def blank_step_def contains_dot [symmetric])
qed

section \<open>A failing step\<close>

lemma checkParentJoin_top: "run_parent_run_id run = None \<Longrightarrow> checkParentJoin e run w = w"
  by (simp add: checkParentJoin_def)

lemma pop_frame:
  assumes "GetRun (st w) i = Inr r"
  shows "PopTryCatch i (st w) =
    (if run_try_catch_stack r = [] then Inr (None, st w)
     else Inr (Some (last (run_try_catch_stack r)),
               st (put_run i (r\<lparr>run_try_catch_stack := butlast (run_try_catch_stack r)\<rparr>) w)))"
  using assms by (simp add: PopTryCatch_def GetRun_iff put_run_def)

lemma st_put_run: "w\<lparr>st := st (put_run i r w)\<rparr> = put_run i r w"
  by (simp add: put_run_def)

lemma error_key: "applyDottedKey t ''_error'' v = AList.update ''_error'' v t"
  by (simp add: applyDottedKey_def dotted_loop_split ascii_def)

text \<open>
  C21: A step that fails inside a try block does not fail the run: the innermost frame is popped, the
  error is stored in the variable \<^verbatim>\<open>_error\<close>, the run goes on at the frame's catch step, and
  nothing is dispatched, published or rolled back.
\<close>

theorem failure_caught:
  assumes "GetRun (st w) (run_id run) = Inr r" and "run_try_catch_stack r = frames @ [frame]"
  shows "\<exists>w' r'. fail_step c run d s err w = (Continue, w')
    \<and> GetRun (st w') (run_id run) = Inr r'
    \<and> run_state r' = RunStateRunning \<and> run_current_step r' = frame_catch_step frame
    \<and> run_try_catch_stack r' = frames \<and> run_last_error r' = run_last_error r
    \<and> get_path (run_variables r') [''_error'', ''step_id''] = Some (VStr (step_id s))
    \<and> get_path (run_variables r') [''_error'', ''message''] = Some (VStr (err_text err))
    \<and> history w' (run_id run) = history w (run_id run) @ [(EventStepFailed, step_id s)]
    \<and> outbox w' = outbox w \<and> queue w' = queue w"
  using assms(2) unfolding fail_step_def pop_frame [OF assms(1)]
  by (simp add: Let_def st_put_run as_with_run try_with_run merge_vars_def error_key)

definition caught_run :: saga_run where
  "caught_run = (sample_run ''r1'')\<lparr>run_state := RunStateRunning,
     run_try_catch_stack := [\<lparr>frame_step_id = ''t'', frame_catch_step = ''c''\<rparr>]\<rparr>"

theorem failure_caught_witness:
  "\<exists>w' r'. fail_step demo_coord caught_run (demo_def []) (blank_step ''a'') (ErrCtx ''x'')
        (demo_world caught_run []) = (Continue, w')
    \<and> GetRun (st w') ''r1'' = Inr r' \<and> run_state r' = RunStateRunning \<and> run_current_step r' = ''c''
    \<and> run_try_catch_stack r' = []"
  using failure_caught [of "demo_world caught_run []" caught_run caught_run "[]"
      "\<lparr>frame_step_id = ''t'', frame_catch_step = ''c''\<rparr>" demo_coord "demo_def []" "blank_step ''a''" "ErrCtx ''x''"]
    demo_reads(1) [of caught_run "[]"]
  by (auto simp: caught_run_def)

text \<open>What the parent hook leaves alone: the dispatches, every log, and every run but the parent.\<close>

lemma wake_parent_keeps [simp]:
  "outbox (wake_parent e pid key watched w) = outbox w"
  "history (wake_parent e pid key watched w) j = history w j"
  "j \<noteq> pid \<Longrightarrow> GetRun (st (wake_parent e pid key watched w)) j = GetRun (st w) j"
proof -
  have upd: "outbox w' = outbox w \<and> history w' j = history w j \<and> (j \<noteq> pid \<longrightarrow> GetRun (st w') j = GetRun (st w) j)"
    if "try_store (with_run pid f) w = (err, w')" for f err w' and w :: world
    using that by (auto simp: try_store_def with_run_def history_def ListEventsByRun_def GetRun_def split: option.splits if_splits)
  have pub: "history (snd (PublishSagaAdvance p pid v)) j = history v j" for p v
    by (simp add: history_def)
  obtain e1 w1 where w1: "try_store (UpdateRunVariables pid [(key, AggregateJoinResults e (st w) watched)]) w = (e1, w1)"
    by fastforce
  obtain e2 w2 where w2: "try_store (WakeFromExternal pid) w1 = (e2, w2)" by fastforce
  note k1 = upd [OF w1 [unfolded UpdateRunVariables_def]] and k2 = upd [OF w2 [unfolded WakeFromExternal_def]]
  show "outbox (wake_parent e pid key watched w) = outbox w"
    "history (wake_parent e pid key watched w) j = history w j"
    "j \<noteq> pid \<Longrightarrow> GetRun (st (wake_parent e pid key watched w)) j = GetRun (st w) j"
    using k1 k2 pub w1 w2
    by (simp_all add: wake_parent_def Let_def split: option.split)
qed

lemma checkParentJoin_keeps:
  "outbox (checkParentJoin e run w) = outbox w"
  "history (checkParentJoin e run w) j = history w j"
  "run_parent_run_id run \<noteq> Some j \<Longrightarrow> GetRun (st (checkParentJoin e run w)) j = GetRun (st w) j"
proof -
  have b: "outbox (checkJoinBarriers e run w) = outbox w"
    "history (checkJoinBarriers e run w) j = history w j"
    "run_parent_run_id run \<noteq> Some j \<Longrightarrow> GetRun (st (checkJoinBarriers e run w)) j = GetRun (st w) j"
    by (auto simp: checkJoinBarriers_def Let_def split: option.splits sum.splits)
  then show "outbox (checkParentJoin e run w) = outbox w"
    "history (checkParentJoin e run w) j = history w j"
    "run_parent_run_id run \<noteq> Some j \<Longrightarrow> GetRun (st (checkParentJoin e run w)) j = GetRun (st w) j"
    by (auto simp: checkParentJoin_def Let_def split: option.splits sum.splits)
qed

text \<open>
  C2: A step that fails outside every try block fails the run, be it a top-level run or a child: the
  failure is logged, the completed steps are rolled back in reverse order, and the run ends failed at
  that step with the step, its type and the error as its last error. Nothing of the run's
  variables is lost, and the caller gets the verb's error. The hook that may wake the run's parent comes
  last, on the run as it has failed; a top-level run has no parent and publishes nothing. The
  compensations are taken to be dispatched through the broker, with a publisher that accepts them
  (\<open>brokered\<close>), and a run is never its own parent.
\<close>

theorem failure_uncaught:
  assumes "GetRun (st w) (run_id run) = Inr r" and "run_try_catch_stack r = []"
    and "\<not> IsTerminal (run_state r)" and "run_parent_run_id run \<noteq> Some (run_id run)"
    and "c_verbs c StepTypeAction = Some en" and "entry_action en = Some av" and "brokered av (st w)"
    and "done = completed_steps d (step_id s) (ListEventsByRun (st w) (run_id run))"
  shows "\<exists>w3 w' r'. fail_step c run d s err w
        = (Return (Some (Errorf ''verb %s: %w'' [AStr (step_type_str (step_type s)), AErr err])), w')
    \<and> w' = checkParentJoin (c_env c) run w3 \<and> queue w3 = queue w
    \<and> GetRun (st w3) (run_id run) = Inr r' \<and> GetRun (st w') (run_id run) = Inr r'
    \<and> run_state r' = RunStateFailed \<and> run_current_step r' = step_id s
    \<and> run_last_error r' = Some (sprintf ''step %q (%s): %v''
        [AStr (step_id s), AStr (step_type_str (step_type s)), AErr err])
    \<and> run_variables r' = run_variables r
    \<and> history w' (run_id run) = history w (run_id run) @ (EventStepFailed, step_id s)
        # (if done = [] then [] else [(EventCompensationStarted, step_id s)])
    \<and> outbox w' = outbox w @ rollback run (rev done)
    \<and> (run_parent_run_id run = None \<longrightarrow> queue w' = queue w)"
proof -
  define w1 where "w1 = emit (c_env c) (run_id run) (step_id s) 0 EventStepFailed ''engine'' [] w"
  define w2 where "w2 = compensate c run d s w1"
  define msg where "msg = sprintf ''step %q (%s): %v''
    [AStr (step_id s), AStr (step_type_str (step_type s)), AErr err]"
  have msg: "msg \<noteq> []" by (simp add: msg_def sprintf_def)
  have hist: "completed_steps d i (ListEventsByRun (st w1) (run_id run))
      = completed_steps d i (ListEventsByRun (st w) (run_id run))" for i
    by (simp add: completed_steps_def succeeded_ids_history w1_def)
  have get1: "GetRun (st w1) (run_id run) = Inr r" using assms(1) by (simp add: w1_def)
  have brok: "brokered av (st w1)" using assms(7) brokered_cong [of "st w1" "st w"] by (simp add: w1_def)
  have comp: "w2 = (if done = [] then w1
     else (emit (c_env c) (run_id run) (step_id s) 0 EventCompensationStarted ''engine'' []
             (put_run (run_id run)
               (r\<lparr>run_state := RunStateCompensating, run_current_step := run_current_step run\<rparr>) w1))
          \<lparr>outbox := outbox w1 @ rollback run (rev done)\<rparr>)"
    unfolding w2_def by (rule compensate_effect [OF get1 assms(5,6) brok]) (simp add: assms(8) hist)
  define r2 where "r2 = (if done = [] then r
    else r\<lparr>run_state := RunStateCompensating, run_current_step := run_current_step run\<rparr>)"
  have w2: "GetRun (st w2) (run_id run) = Inr r2" "queue w2 = queue w"
    "outbox w2 = outbox w @ rollback run (rev done)"
    "history w2 (run_id run) = history w (run_id run) @ (EventStepFailed, step_id s)
      # (if done = [] then [] else [(EventCompensationStarted, step_id s)])"
    using get1 by (simp_all add: comp r2_def) (simp_all add: w1_def)
  define w3 where "w3 = put_run (run_id run) (failed_run (wall w2) (step_id s) msg r2) w2"
  have live: "\<not> IsTerminal (run_state r2)" using assms(3) by (simp add: r2_def)
  have "fail_step c run d s err w =
    (Return (Some (Errorf ''verb %s: %w'' [AStr (step_type_str (step_type s)), AErr err])),
     checkParentJoin (c_env c) run w3)"
    using assms(1,2) w2(1) pop_frame [OF assms(1)]
    by (simp add: fail_step_def Let_def w1_def [symmetric] w2_def [symmetric] msg_def [symmetric]
        as_with_run try_with_run w3_def)
  then show ?thesis
    using w2 msg live checkParentJoin_keeps [where e = "c_env c" and run = run and w = w3] assms(4)
    by (auto simp: w3_def failed_run_def r2_def msg_def checkParentJoin_top)
qed

theorem failure_uncaught_witness:
  "\<exists>w' r'. fail_step demo_coord (sample_run ''r1'')
        (demo_def [undo_step ''a'', undo_step ''b'', blank_step ''c'']) (blank_step ''c'') (ErrCtx ''x'') two_done
        = (Return (Some (Errorf ''verb %s: %w'' [AStr [], AErr (ErrCtx ''x'')])), w')
    \<and> GetRun (st w') ''r1'' = Inr r' \<and> run_state r' = RunStateFailed
    \<and> outbox w' = rollback (sample_run ''r1'') [undo_step ''b'', undo_step ''a'']"
proof -
  obtain en where en: "c_verbs demo_coord StepTypeAction = Some en" "entry_action en = Some broker_verb"
    using demo_broker(1) by blast
  let ?d = "demo_def [undo_step ''a'', undo_step ''b'', blank_step ''c'']"
  have "completed_steps ?d ''c'' (ListEventsByRun (st two_done) ''r1'') = [undo_step ''a'', undo_step ''b'']"
    by (simp add: completed_steps_def two_done_reads compensable_def StepByID_def undo_step_def blank_step_def)
  then show ?thesis
    using failure_uncaught [of two_done "sample_run ''r1''" "sample_run ''r1''" demo_coord en broker_verb
        "[undo_step ''a'', undo_step ''b'']" ?d "blank_step ''c''" "ErrCtx ''x''"]
      en demo_broker(2) two_done_reads
    by (simp add: sample_run_def NewSagaRun_def blank_step_def step_type_str_def) blast
qed

section \<open>Waking the parent\<close>

definition woken :: "env \<Rightarrow> mem_store \<Rightarrow> string \<Rightarrow> saga_run list \<Rightarrow> saga_run \<Rightarrow> saga_run" where
  "woken e s key watched parent =
     clear_awaits (parent\<lparr>run_variables :=
       merge_vars (run_variables parent) [(key, AggregateJoinResults e s watched)]\<rparr>)"

lemma wake_parent_effect:
  assumes "GetRun (st w) pid = Inr parent" and "publisher e = Some p" and "\<And>w. p w pid = None"
  shows "queue (wake_parent e pid key watched w) = queue w @ [pid]"
    "GetRun (st (wake_parent e pid key watched w)) j =
       (if j = pid then Inr (woken e (st w) key watched parent) else GetRun (st w) j)"
    "outbox (wake_parent e pid key watched w) = outbox w"
  using assms(1,2,3)
  by (auto simp: wake_parent_def Let_def as_with_run try_with_run PublishSagaAdvance_def woken_def)

lemma no_join_barrier:
  assumes "GetRun (st w) pid = Inr parent" and "run_parent_run_id run = Some pid"
    and "\<And>d sp. GetWorkflowDefinition (st w) (run_definition_id parent) = Inr d \<Longrightarrow>
      StepByID d (run_current_step parent) = Some sp \<Longrightarrow> step_type sp \<noteq> StepTypeJoin"
  shows "checkJoinBarriers e run w = w"
  using assms by (auto simp: checkJoinBarriers_def split: option.split sum.split)

text \<open>
  C8: A finished child wakes its fan-out parent exactly when the join is met. While the
  condition over the children spawned at the step is not met, or when the parent has ended, runs or has
  moved on, the hook changes nothing; once it is met the children's results are stored under
  \<^verbatim>\<open>_parallel.<step>.branches\<close>, the parent's wait is cleared and one advance is
  published for it. No other run changes.
\<close>

theorem child_wakes_parent:
  assumes "run_parent_run_id run = Some pid" and "run_parent_step_id run = Some ps"
    and "GetRun (st w) pid = Inr parent"
    and "GetWorkflowDefinition (st w) (run_definition_id parent) = Inr d"
    and "StepByID d (run_current_step parent) = Some sp" and "step_type sp \<noteq> StepTypeJoin"
    and "publisher e = Some p" and "\<And>w. p w pid = None"
    and "watched = ListChildrenByParent (st w) pid ps"
    and "ready \<longleftrightarrow> run_state parent = RunStatePaused \<and> run_current_step parent = ps
      \<and> JoinConditionMetCtx e (step_inputs sp) (run_variables parent) watched"
  shows "(\<not> ready \<longrightarrow> checkParentJoin e run w = w)
    \<and> (ready \<longrightarrow> (let w' = checkParentJoin e run w in
        queue w' = queue w @ [pid] \<and> outbox w' = outbox w
        \<and> GetRun (st w') pid = Inr (woken e (st w) (''_parallel.'' @ ps @ ''.branches'') watched parent)
        \<and> (\<forall>j. j \<noteq> pid \<longrightarrow> GetRun (st w') j = GetRun (st w) j)))"
proof -
  have "checkJoinBarriers e run w = w"
    by (rule no_join_barrier [OF assms(3,1)]) (use assms(4-6) in auto)
  then have "checkParentJoin e run w =
      (if ready then wake_parent e pid (''_parallel.'' @ ps @ ''.branches'') watched w else w)"
    using assms(1-5,9,10) by (auto simp: checkParentJoin_def Let_def lookupStepInputs_def)
  then show ?thesis using wake_parent_effect [OF assms(3,7,8)] by (simp add: Let_def)
qed

definition fan_parent :: saga_run where
  "fan_parent = (sample_run ''r1'')\<lparr>run_state := RunStatePaused, run_current_step := ''a''\<rparr>"

definition fan_child :: "run_state \<Rightarrow> saga_run" where
  "fan_child x = (sample_run ''k'')\<lparr>run_state := x, run_parent_run_id := Some ''r1'',
     run_parent_step_id := Some ''a''\<rparr>"

definition family :: "saga_run \<Rightarrow> run_state \<Rightarrow> step list \<Rightarrow> world" where
  "family parent x ss = put_run ''k'' (fan_child x) (demo_world parent ss)"

lemma family_fields [simp]:
  "run_id fan_parent = ''r1''" "run_state fan_parent = RunStatePaused"
  "run_current_step fan_parent = ''a''" "run_definition_id fan_parent = ''d1''"
  "run_wakeup_at fan_parent = None" "\<not> marker fan_parent"
  "run_parent_run_id (fan_child x) = Some ''r1''" "run_parent_step_id (fan_child x) = Some ''a''"
  "run_state (fan_child x) = x"
  by (simp_all add: fan_parent_def fan_child_def marker_def)

lemma family_children:
  "run_id parent = ''r1'' \<Longrightarrow> run_parent_run_id parent = None \<Longrightarrow>
     ListChildrenByParent (st (family parent x ss)) ''r1'' ''a'' = [fan_child x]"
  by (simp add: ListChildrenByParent_def family_def put_run_def demo_world_def test_world_def CreateRun_def
      UpsertWorkflowDefinition_def New_def fan_child_def)

definition fan_all :: step where
  "fan_all = (blank_step ''a'')\<lparr>step_type := StepTypeParallel, step_next := ''b''\<rparr>"

lemma fan_all_fields [simp]:
  "step_id fan_all = ''a''" "step_type fan_all = StepTypeParallel" "step_inputs fan_all = []"
  by (simp_all add: fan_all_def blank_step_def)

lemma test_publisher: "publisher test_env = Some (\<lambda>_ _. None)"
  by (simp add: test_env_def)

theorem child_wakes_parent_witness:
  "queue (checkParentJoin test_env (fan_child RunStateFailed) (family fan_parent RunStateFailed [fan_all])) = [''r1'']
    \<and> checkParentJoin test_env (fan_child RunStateRunning) (family fan_parent RunStateRunning [fan_all])
      = family fan_parent RunStateRunning [fan_all]"
proof -
  have fam: "GetRun (st (family fan_parent x [fan_all])) ''r1'' = Inr fan_parent"
    "GetWorkflowDefinition (st (family fan_parent x [fan_all])) ''d1'' = Inr (demo_def [fan_all])"
    "queue (family fan_parent x [fan_all]) = []" for x
    using demo_reads(1) [of fan_parent "[fan_all]"] by (simp_all add: family_def)
  have kids: "ListChildrenByParent (st (family fan_parent x [fan_all])) ''r1'' ''a'' = [fan_child x]" for x
    by (rule family_children) (simp_all add: fan_parent_def sample_run_def NewSagaRun_def)
  have met: "JoinConditionMetCtx test_env [] vars [fan_child x] \<longleftrightarrow> IsTerminal x" for x vars
    by (simp add: JoinConditionMetCtx_def join_strategy_def get_str_def)
  note wakes = child_wakes_parent [where pid = "''r1''" and ps = "''a''" and parent = fan_parent
    and d = "demo_def [fan_all]" and sp = fan_all and e = test_env and p = "\<lambda>_ _. None", OF _ _ fam(1)]
  show ?thesis
    using wakes [of "fan_child RunStateFailed" RunStateFailed "[fan_child RunStateFailed]" True]
      wakes [of "fan_child RunStateRunning" RunStateRunning "[fan_child RunStateRunning]" False]
    by (simp add: fam kids met test_publisher Let_def)
qed

text \<open>
  A parent paused at a join step is woken by the same hook when a child of one of the watched
  streams finishes: nothing happens for a child of another step or while the join's own
  condition over all watched children is not met; otherwise the results go to
  \<^verbatim>\<open>_join.<step>.branches\<close> and one advance is published.
\<close>

theorem join_step_wakes:
  assumes "run_parent_run_id run = Some pid" and "run_parent_step_id run = Some ps"
    and "GetRun (st w) pid = Inr parent" and "run_state parent = RunStatePaused"
    and "GetWorkflowDefinition (st w) (run_definition_id parent) = Inr d"
    and "StepByID d (run_current_step parent) = Some js" and "step_type js = StepTypeJoin"
    and "run_current_step parent \<noteq> ps"
    and "ResolveJoinStreams e (map_of (step_inputs js) ''streams'') (run_variables parent) = Inr streams"
    and "publisher e = Some p" and "\<And>w. p w pid = None"
    and "watched = collectWatched (st w) pid streams"
    and "ready \<longleftrightarrow> ps \<in> set streams
      \<and> JoinConditionMetCtx e (step_inputs js) (run_variables parent) watched"
  shows "(\<not> ready \<longrightarrow> checkParentJoin e run w = w)
    \<and> (ready \<longrightarrow> (let w' = checkParentJoin e run w in
        queue w' = queue w @ [pid] \<and> outbox w' = outbox w
        \<and> GetRun (st w') pid = Inr (woken e (st w) (''_join.'' @ step_id js @ ''.branches'') watched parent)
        \<and> (\<forall>j. j \<noteq> pid \<longrightarrow> GetRun (st w') j = GetRun (st w) j)))"
proof -
  let ?key = "''_join.'' @ step_id js @ ''.branches''"
  have "checkJoinBarriers e run w = (if ready then wake_parent e pid ?key watched w else w)"
    using assms(1-7,9,12,13) by (auto simp: checkJoinBarriers_def Let_def)
  moreover have "run_current_step (woken e (st w) ?key watched parent) \<noteq> ps"
    using assms(8) by (simp add: woken_def clear_awaits_def)
  ultimately have "checkParentJoin e run w = (if ready then wake_parent e pid ?key watched w else w)"
    using assms(1-3,8) wake_parent_effect(2) [OF assms(3,10,11)]
    by (auto simp: checkParentJoin_def Let_def)
  then show ?thesis using wake_parent_effect [OF assms(3,10,11)] by (simp add: Let_def)
qed

definition join_a :: step where
  "join_a = (blank_step ''j'')\<lparr>step_type := StepTypeJoin, step_next := ''b'',
     step_inputs := [(''streams'', VStrs [''a''])]\<rparr>"

definition join_parent :: saga_run where
  "join_parent = fan_parent\<lparr>run_current_step := ''j''\<rparr>"

lemma join_parent_fields [simp]:
  "run_current_step join_parent = ''j''" "run_state join_parent = RunStatePaused"
  "run_definition_id join_parent = ''d1''"
  by (simp_all add: join_parent_def)

theorem join_step_wakes_witness:
  "queue (checkParentJoin test_env (fan_child RunStateSucceeded) (family join_parent RunStateSucceeded [join_a]))
    = [''r1'']"
proof -
  have fam: "GetRun (st (family join_parent x [join_a])) ''r1'' = Inr join_parent"
    "GetWorkflowDefinition (st (family join_parent x [join_a])) ''d1'' = Inr (demo_def [join_a])"
    "queue (family join_parent x [join_a]) = []" for x
    using demo_reads(1) [of join_parent "[join_a]"] by (simp_all add: family_def join_parent_def)
  have kids: "collectWatched (st (family join_parent x [join_a])) ''r1'' [''a''] = [fan_child x]" for x
    unfolding collectWatched_def
    using family_children [of join_parent x "[join_a]"]
    by (simp add: join_parent_def fan_parent_def sample_run_def NewSagaRun_def)
  have join: "step_type join_a = StepTypeJoin" "StepByID (demo_def [join_a]) ''j'' = Some join_a"
    "ResolveJoinStreams test_env (map_of (step_inputs join_a) ''streams'') vars = Inr [''a'']"
    "JoinConditionMetCtx test_env (step_inputs join_a) vars [fan_child RunStateSucceeded]" for vars
    by (simp_all add: join_a_def blank_step_def StepByID_def ResolveJoinStreams_def
        JoinConditionMetCtx_def join_strategy_def get_str_def)
  show ?thesis
    using join_step_wakes [where pid = "''r1''" and ps = "''a''" and parent = join_parent
        and d = "demo_def [join_a]" and js = join_a and e = test_env and p = "\<lambda>_ _. None"
        and streams = "[''a'']" and watched = "[fan_child RunStateSucceeded]" and ready = True
        and run = "fan_child RunStateSucceeded", OF _ _ fam(1) [of RunStateSucceeded]]
    by (simp add: fam kids join test_publisher Let_def)
qed

text \<open>
  C39: A quorum that can no longer be reached blocks its parent for good. Once every child has ended and
  fewer than \<^verbatim>\<open>quorum_n\<close> of them succeeded, neither the hook of any of the children nor a
  delivered \<^verbatim>\<open>saga.advance\<close> changes anything: the parent stays paused at the step.
\<close>

theorem unreachable_quorum_stuck:
  assumes "GetRun (st w) pid = Inr parent" and "run_id parent = pid"
    and "run_state parent = RunStatePaused" and "\<not> marker parent" and "run_wakeup_at parent = None"
    and "GetWorkflowDefinition (st w) (run_definition_id parent) = Inr d"
    and "StepByID d (run_current_step parent) = Some sp" and "step_type sp = StepTypeParallel"
    and "join_strategy (step_inputs sp) = ''quorum''"
    and "quorum_of e (step_inputs sp) (run_variables parent) = Some q"
    and "watched = ListChildrenByParent (st w) pid (step_id sp)"
    and "list_all (\<lambda>r. IsTerminal (run_state r)) watched" and "succeeded_count watched < q"
    and "c_env c = e" and "uuid_parse e runIDStr = Inr pid" and "ctx_err e w = None"
  shows "Advance c (Suc n) runIDStr w = Some (None, w)
    \<and> (\<forall>child \<in> set watched. checkParentJoin e child w = w)"
proof -
  have sid: "step_id sp = run_current_step parent" using StepByID_SomeD [OF assms(7)] by simp
  have unmet: "\<not> JoinConditionMetCtx e (step_inputs sp) (run_variables parent) watched"
    using assms(9,10,13) by (simp add: JoinConditionMetCtx_def)
  have "waits_for_children e parent (st w)"
    using assms(2,4-8,11) unmet by (simp add: waits_for_children_def childrenStillRunning_def)
  then have "advance_iter c pid w = (Return None, w)"
    using assms(1,3,14,16)
    by (auto simp: advance_iter_def wake_paused_def waits_for_children_def marker_def wakeup_due_def)
  moreover have "checkParentJoin e child w = w" if "child \<in> set watched" for child
  proof -
    have kid: "run_parent_run_id child = Some pid" "run_parent_step_id child = Some (step_id sp)"
      using that assms(11) by (auto simp: ListChildrenByParent_def)
    have "checkJoinBarriers e child w = w"
      by (rule no_join_barrier [OF assms(1) kid(1)]) (use assms(6-8) in auto)
    then show ?thesis
      using kid assms(1,3,6,7,11) sid unmet by (simp add: checkParentJoin_def Let_def lookupStepInputs_def)
  qed
  ultimately show ?thesis using assms(14,15) by (simp add: Advance_def)
qed

definition fan_quorum :: step where
  "fan_quorum = fan_all\<lparr>step_inputs := [(''join_strategy'', VStr ''quorum''), (''quorum_n'', VInt 1)]\<rparr>"

theorem unreachable_quorum_stuck_witness:
  "Advance demo_coord 1 ''r1'' (family fan_parent RunStateFailed [fan_quorum])
    = Some (None, family fan_parent RunStateFailed [fan_quorum])"
proof -
  let ?w = "family fan_parent RunStateFailed [fan_quorum]"
  have fam: "GetRun (st ?w) ''r1'' = Inr fan_parent"
    "GetWorkflowDefinition (st ?w) ''d1'' = Inr (demo_def [fan_quorum])"
    using demo_reads(1) [of fan_parent "[fan_quorum]"] by (simp_all add: family_def)
  have kids: "ListChildrenByParent (st ?w) ''r1'' ''a'' = [fan_child RunStateFailed]"
    by (rule family_children) (simp_all add: fan_parent_def sample_run_def NewSagaRun_def)
  have sp: "step_type fan_quorum = StepTypeParallel" "step_id fan_quorum = ''a''"
    "join_strategy (step_inputs fan_quorum) = ''quorum''"
    "quorum_of test_env (step_inputs fan_quorum) vars = Some 1" for vars
    by (simp_all add: fan_quorum_def fan_all_def blank_step_def join_strategy_def get_str_def
        quorum_of_def ToInt_def)
  show ?thesis
    using unreachable_quorum_stuck [where pid = "''r1''" and parent = fan_parent and w = ?w
        and d = "demo_def [fan_quorum]" and sp = fan_quorum and e = test_env and q = 1
        and watched = "[fan_child RunStateFailed]" and c = demo_coord and runIDStr = "''r1''" and n = 0,
        OF fam(1)]
    by (simp add: fam kids sp succeeded_count_def)
qed

end
