(* ===== verification/Progress.thy ===== *)
theory Progress
  imports Recovery
begin

text \<open>
  \<^verbatim>\<open>Advance\<close> loops until a step pauses or the run ends, and a definition may well contain
  cycles. This theory shows that on definitions whose edges descend in some rank the
  loop returns, with the number of passes it needs. What the coordinator relies on from a
  verb is stated as a locale and interpreted for the verbs of the default registry.
\<close>

section \<open>What a verb leaves alone\<close>

text \<open>
  The run \<open>i\<close> is still there, of the same definition and with the try/catch stack \<open>frames\<close>.
\<close>

definition intact :: "uuid \<Rightarrow> uuid \<Rightarrow> try_catch_frame list \<Rightarrow> workflow_definition \<Rightarrow> world \<Rightarrow> bool" where
  "intact i di frames d w \<longleftrightarrow> GetWorkflowDefinition (st w) di = Inr d \<and>
     (\<exists>r. GetRun (st w) i = Inr r \<and> run_id r = i \<and> run_definition_id r = di \<and> run_try_catch_stack r = frames)"

lemma definition_reads [simp]:
  "GetWorkflowDefinition (s\<lparr>runs := x\<rparr>) = GetWorkflowDefinition s"
  "GetWorkflowDefinition (s\<lparr>signals := y\<rparr>) = GetWorkflowDefinition s"
  "GetWorkflowDefinition (s\<lparr>userTasks := z\<rparr>) = GetWorkflowDefinition s"
  by (simp_all add: GetWorkflowDefinition_def fun_eq_iff)

lemma intact_frame [simp]:
  "intact i di fs d (w\<lparr>clk := t\<rparr>) = intact i di fs d w"
  "intact i di fs d (w\<lparr>queue := q\<rparr>) = intact i di fs d w"
  "intact i di fs d (w\<lparr>outbox := ms\<rparr>) = intact i di fs d w"
  "intact i di fs d (w\<lparr>draws := n\<rparr>) = intact i di fs d w"
  "intact i di fs d (emit e j sid a ty actor meta w) = intact i di fs d w"
  "intact i di fs d (send m w) = intact i di fs d w"
  "intact i di fs d (snd (PublishSagaAdvance p k w)) = intact i di fs d w"
  by (simp_all add: intact_def)

text \<open>
  The contract: a verb that succeeds keeps the run and adds the frames \<open>extra s\<close> to its stack, one that
  fails keeps both. Pausing and cancelling end the loop, so nothing is asked of them.
\<close>

locale tame_verb =
  fixes verb :: handler and extra :: "step \<Rightarrow> try_catch_frame list"
  assumes keeps: "intact (run_id run) di fs d w \<Longrightarrow> verb run s w = (Inr out, w')
      \<Longrightarrow> intact (run_id run) di (fs @ extra s) d w'"
    and fails: "intact (run_id run) di fs d w \<Longrightarrow> verb run s w = (Inl err, w') \<Longrightarrow> \<not> isControlSignal err
      \<Longrightarrow> intact (run_id run) di fs d w'"
begin

text \<open>The retry loop keeps what a single call keeps.\<close>

lemma attempt_loop_tame:
  assumes "intact (run_id run) di fs d w" and "attempt_loop c run s verb p n left w = (res, w')"
  shows "(\<forall>out. res = Inr out \<longrightarrow> intact (run_id run) di (fs @ extra s) d w')
    \<and> (\<forall>err. res = Inl err \<longrightarrow> \<not> isControlSignal err \<longrightarrow> intact (run_id run) di fs d w')"
  using assms
proof (induction left arbitrary: n w)
  case 0
  then have "verb run s w = (res, w')" by simp
  then show ?case using keeps fails 0 by blast
next
  case (Suc left)
  obtain r1 w1 where v: "verb run s w = (r1, w1)" by fastforce
  show ?case
  proof (cases "\<exists>err. r1 = Inl err \<and> \<not> isControlSignal err")
    case True
    define w2 where "w2 = emit (c_env c) (run_id run) (step_id s) (int n + 1) EventStepFailed ''engine-retry'' [] w1"
    have i2: "intact (run_id run) di fs d w2" using fails [OF Suc.prems(1)] v True by (auto simp: w2_def)
    show ?thesis
    proof (cases "ctx_err (c_env c) w2")
      case None
      then have "attempt_loop c run s verb p (Suc n) left
          (w2\<lparr>clk := clk w2 + max 0 (Backoff (c_env c) p n (jitter p) w2)\<rparr>) = (res, w')"
        using Suc.prems(2) v True by (auto simp: Let_def w2_def)
      then show ?thesis using Suc.IH i2 by (metis intact_frame(1))
    next
      case (Some err)
      then show ?thesis using Suc.prems(2) v True i2 by (auto simp: Let_def w2_def)
    qed
  next
    case False
    then have "res = r1" "w' = w1" using Suc.prems(2) v by (cases r1; force)+
    then show ?thesis using keeps fails Suc.prems(1) v by blast
  qed
qed

lemma executeStep_tame:
  assumes "intact (run_id run) di fs d w" and "executeStep c run s verb w = (res, w')"
  shows "res = Inr out \<Longrightarrow> intact (run_id run) di (fs @ extra s) d w'"
    and "res = Inl err \<Longrightarrow> \<not> isControlSignal err \<Longrightarrow> intact (run_id run) di fs d w'"
  using assms(2) keeps [OF assms(1)] fails [OF assms(1)] attempt_loop_tame [OF assms(1)]
  by (auto simp: executeStep_def split: option.splits)

end

abbreviation plain :: "handler \<Rightarrow> bool" where
  "plain v \<equiv> tame_verb v (\<lambda>_. [])"

section \<open>The verbs\<close>

text \<open>Verbs that only compute: they return the world they were given.\<close>

definition pure_verb :: "handler \<Rightarrow> bool" where
  "pure_verb v \<longleftrightarrow> (\<forall>run s w. snd (v run s w) = w)"

lemma pure_tame: "pure_verb v \<Longrightarrow> plain v"
  by unfold_locales (metis append_Nil2 pure_verb_def snd_conv)+

lemma pure_verbs:
  "pure_verb NoopVerb" "pure_verb EndVerb" "pure_verb ErrorVerb" "pure_verb (SetVarVerb e)"
  "pure_verb (TransformVerb e)" "pure_verb (MergeVerb e)" "pure_verb (FilterVerb e)"
  "pure_verb (MapVerb e)" "pure_verb (AssertVerb e)" "pure_verb (SwitchVerb e)" "pure_verb (WhileVerb e)"
  by (auto simp: pure_verb_def NoopVerb_def EndVerb_def ErrorVerb_def SetVarVerb_def TransformVerb_def
      MergeVerb_def FilterVerb_def MapVerb_def AssertVerb_def SwitchVerb_def WhileVerb_def Let_def
      split: option.split sum.split val.split prod.split)

lemma reads_tame:
  assumes "\<And>run s w. defs (st (snd (v run s w))) = defs (st w)" "\<And>run s w. runs (st (snd (v run s w))) = runs (st w)"
  shows "plain v"
proof -
  have "intact i di fs d (snd (v run s w)) = intact i di fs d w" for i di fs d run s w
    using assms [of run s w] by (simp add: intact_def GetRun_def GetWorkflowDefinition_def)
  then show ?thesis by unfold_locales (metis append_Nil2 snd_conv)+
qed

lemma log_tame: "plain (LogVerb e)"
  by (rule reads_tame) (simp_all add: LogVerb_def Let_def)

lemma metric_tame: "plain (MetricEmitVerb e)"
  by (rule reads_tame) (simp_all add: MetricEmitVerb_def Let_def split: option.split)

lemma decision_tame: "plain (DecisionVerb e)"
  by (rule reads_tame) (simp_all add: DecisionVerb_def Let_def split: option.split sum.split prod.split)

lemma case_const:
  "(case x of None \<Rightarrow> a | Some _ \<Rightarrow> a) = a" "(case y of Inl _ \<Rightarrow> a | Inr _ \<Rightarrow> a) = a"
  by (simp_all split: option.split sum.split)

lemmas push_st = if_distrib [of "\<lambda>x. st (snd x)"] option.case_distrib [of "\<lambda>x. st (snd x)"]
  sum.case_distrib [of "\<lambda>x. st (snd x)"] case_const if_cancel snd_conv send_frame

lemma http_st: "st (snd (HTTPRequestVerb e run s w)) = st w"
  unfolding HTTPRequestVerb_def Let_def by (simp only: push_st)

lemma webhook_st: "st (snd (WebhookEmitVerb e run s w)) = st w"
  unfolding WebhookEmitVerb_def Let_def by (simp only: push_st)

lemma http_tame: "plain (HTTPRequestVerb e)" "plain (WebhookEmitVerb e)"
  by (rule reads_tame; simp add: http_st webhook_st)+

text \<open>
  The verbs that pause: a failure leaves at most the run's state, markers and user tasks behind.
\<close>

lemma with_run_intact:
  assumes "intact i di fs d w" and "try_store (with_run j f) w = (r, w')"
    and "\<And>r. run_id (f r) = run_id r \<and> run_definition_id (f r) = run_definition_id r
      \<and> run_try_catch_stack (f r) = run_try_catch_stack r"
  shows "intact i di fs d w'"
  using assms by (auto simp: intact_def try_store_def with_run_def GetRun_iff GetWorkflowDefinition_def
      split: option.splits)

lemma waiting_tame:
  "plain (WaitDurationVerb e)" "plain (WaitUntilVerb e)" "plain (WaitForSignalVerb e)"
  "plain (WaitForEventVerb e)"
  by (unfold_locales,
      auto simp: WaitDurationVerb_def WaitUntilVerb_def WaitForSignalVerb_def WaitForEventVerb_def Let_def
        isControlSignal_def try_store_Some_iff split: if_splits option.splits sum.splits prod.splits)+

lemma open_task_tame:
  assumes "intact (run_id run) di fs d w" and "open_task e fmt run s a due fsch w = (res, w')"
    and "\<And>err. res = Inl err \<Longrightarrow> \<not> isControlSignal err"
  shows "intact (run_id run) di fs d w'"
  using assms by (auto simp: open_task_def fresh_def do_store_def CreateUserTask_def isControlSignal_def
      try_store_Some_iff intact_def GetRun_def GetWorkflowDefinition_def Let_def split: option.splits prod.splits)

lemma task_tame: "plain (ManualApprovalVerb e)" "plain (CollectInputVerb e)"
  by (unfold_locales,
      auto simp: ManualApprovalVerb_def CollectInputVerb_def Let_def intro: open_task_tame
        split: if_splits sum.splits)+

lemma dispatch_st: "st (snd (dispatch av a b w)) = st w"
  by (simp add: dispatch_def Let_def split_beta split: option.split)

lemma action_tame: "plain (ActionVerb e av)"
proof -
  have "intact i di fs d w'"
    if i: "intact i di fs d w" and v: "ActionVerb e av run s w = (res, w')" for i di fs d run s w res w'
  proof (cases "step_action s = [] \<or> \<not> contains_str (step_action s) ''.''")
    case True
    then show ?thesis using i v by (auto simp: ActionVerb_def Let_def split: if_splits)
  next
    case False
    obtain r1 w1 where m: "try_store (MarkAwaitingAction (run_id run) (step_action s) (run_current_attempt run + 1)) w
        = (r1, w1)" by fastforce
    then have "intact i di fs d w1"
      using with_run_intact [OF i] unfolding MarkAwaitingAction_def by simp
    moreover have "st w' = st w1"
      using v False m dispatch_st
      by (auto simp: ActionVerb_def Let_def split: option.splits prod.splits) (metis snd_conv)+
    ultimately show ?thesis by (simp add: intact_def)
  qed
  then show ?thesis by unfold_locales auto
qed

lemma consume_intact:
  "intact i di fs d w \<Longrightarrow> intact i di fs d (w\<lparr>st := snd (TryConsumeAwaitedSignal now j n (st w))\<rparr>)"
  by (auto simp: intact_def TryConsumeAwaitedSignal_def clear_awaits_def GetRun_iff split: option.split)

lemma signal_tame: "plain (EmitSignalVerb e)"
proof -
  have "intact i di fs d w'"
    if i: "intact i di fs d w" and v: "EmitSignalVerb e run s w = (res, w')" for i di fs d run s w res w'
  proof (cases "get_str (step_inputs s) ''run_id'' = [] \<or> get_str (step_inputs s) ''name'' = []
      \<or> (\<exists>err. uuid_parse e (get_str (step_inputs s) ''run_id'') = Inl err)")
    case True
    then show ?thesis using i v by (auto simp: EmitSignalVerb_def Let_def split: if_splits)
  next
    case False
    then obtain t where t: "uuid_parse e (get_str (step_inputs s) ''run_id'') = Inr t"
      by (cases "uuid_parse e (get_str (step_inputs s) ''run_id'')") auto
    define g where "g = \<lparr>sig_id = uuid_new e (draws w), sig_run_id = t, sig_name = get_str (step_inputs s) ''name'',
      sig_payload = or_default (get_map (step_inputs s) ''payload'') [], sig_received_at = wall w,
      sig_consumed_at = None\<rparr>"
    define w2 where "w2 = w\<lparr>draws := Suc (draws w), st := AppendSignal g (st w)\<rparr>"
    define w3 where "w3 = w2\<lparr>st := snd (TryConsumeAwaitedSignal (wall w2) t (get_str (step_inputs s) ''name'') (st w2))\<rparr>"
    have "intact i di fs d w2"
      using i by (simp add: intact_def w2_def AppendSignal_def GetRun_def GetWorkflowDefinition_def)
    then have i3: "intact i di fs d w3" unfolding w3_def by (rule consume_intact)
    have "st w' = st w3"
      using v False t
      by (auto simp: EmitSignalVerb_def fresh_def do_store_def Let_def g_def w2_def w3_def
          PublishSagaAdvance_def split: prod.splits option.splits if_splits)
    then show ?thesis using i3 by (simp add: intact_def)
  qed
  then show ?thesis by unfold_locales auto
qed

interpretation try_catch: tame_verb "TryCatchVerb e"
  "\<lambda>s. [\<lparr>frame_step_id = step_id s, frame_catch_step = get_str (step_inputs s) ''catch''\<rparr>]" for e
  by unfold_locales
    (auto simp: TryCatchVerb_def Let_def intact_def try_store_def PushTryCatch_def GetRun_iff
      GetWorkflowDefinition_def split: if_splits sum.splits option.splits)

lemma join_tame: "plain (JoinVerb e)"
  by unfold_locales
    (auto simp: JoinVerb_def Let_def try_store_Some_iff isControlSignal_def
      split: sum.splits if_splits option.splits prod.splits)

section \<open>Ranked definitions\<close>

definition successors :: "step \<Rightarrow> string set" where
  "successors s = insert (step_next s) (branch_next ` snd ` set (step_branches s))"

text \<open>The empty step id stands for the start step.\<close>

definition eff :: "workflow_definition \<Rightarrow> string \<Rightarrow> string" where
  "eff d x = (if x = [] then def_start d else x)"

text \<open>
  Every edge goes to a step of smaller rank; behind a try/catch marker there is also room for its catch step.
\<close>

definition ranked :: "workflow_definition \<Rightarrow> (string \<Rightarrow> nat) \<Rightarrow> bool" where
  "ranked d rank \<longleftrightarrow> (\<forall>s \<in> set (def_steps d). step_id s \<noteq> []) \<and>
     (\<forall>s \<in> set (def_steps d). \<forall>t \<in> successors s. t \<noteq> [] \<longrightarrow>
     rank t + (if step_type s = StepTypeTryCatch
               then Suc (rank (eff d (get_str (step_inputs s) ''catch''))) else 0) < rank (step_id s))"

definition frames_rank :: "workflow_definition \<Rightarrow> (string \<Rightarrow> nat) \<Rightarrow> try_catch_frame list \<Rightarrow> nat" where
  "frames_rank d rank fs = (\<Sum>f \<leftarrow> fs. Suc (rank (eff d (frame_catch_step f))))"

definition potential :: "workflow_definition \<Rightarrow> (string \<Rightarrow> nat) \<Rightarrow> saga_run \<Rightarrow> nat" where
  "potential d rank r = rank (eff d (run_current_step r)) + frames_rank d rank (run_try_catch_stack r)"

text \<open>The handlers of the definition's step types meet their contracts.\<close>

definition tame_for :: "coord \<Rightarrow> workflow_definition \<Rightarrow> bool" where
  "tame_for c d \<longleftrightarrow> (\<forall>s \<in> set (def_steps d). \<forall>en. c_verbs c (step_type s) = Some en \<longrightarrow>
     (if step_type s = StepTypeTryCatch then \<exists>e. entry_handler en = TryCatchVerb e
      else plain (entry_handler en)))"

text \<open>The run is \<open>r\<close>, of definition \<open>d\<close>.\<close>

definition at_run :: "uuid \<Rightarrow> workflow_definition \<Rightarrow> saga_run \<Rightarrow> world \<Rightarrow> bool" where
  "at_run i d r w \<longleftrightarrow> GetRun (st w) i = Inr r \<and> run_id r = i
     \<and> GetWorkflowDefinition (st w) (run_definition_id r) = Inr d"

lemma at_run_intact:
  "at_run i d r w \<Longrightarrow> intact i (run_definition_id r) (run_try_catch_stack r) d w"
  by (auto simp: at_run_def intact_def)

lemma intact_at_run:
  "intact i di fs d w \<Longrightarrow> \<exists>r. at_run i d r w \<and> run_try_catch_stack r = fs"
  by (auto simp: at_run_def intact_def)

text \<open>A pass that continues has moved the run on and lowered its potential.\<close>

lemma wake_paused_descends:
  assumes "at_run i d run w" and "ranked d rank" and "wake_paused c i run w = (Continue, w')"
  shows "\<exists>r. at_run i d r w' \<and> potential d rank r < potential d rank run"
proof -
  have run: "GetRun (st w) i = Inr run" "run_id run = i"
    "GetWorkflowDefinition (st w) (run_definition_id run) = Inr d" using assms(1) by (simp_all add: at_run_def)
  obtain sp where sp: "StepByID d (run_current_step run) = Some sp"
    using assms(3) run
    by (cases "StepByID d (run_current_step run)")
      (auto simp: wake_paused_def Let_def as_with_run try_with_run split: if_splits sum.splits bool.splits)
  have awake: "wakeup_due (clk w) run \<or>
      \<not> marker run \<and> run_wakeup_at run = None \<and> childrenStillRunning (c_env c) run (st w) = Inr False"
    using assms(3) by (auto simp: wake_paused_def Let_def marker_def split: if_splits sum.splits bool.splits)
  have ne: "resume_step (clk w) run sp \<noteq> []"
  proof
    assume e: "resume_step (clk w) run sp = []"
    have "wake_paused c i run w = (Return (Some (Errorf ''paused step %s has no next'' [AStr (step_id sp)])),
        snd (wake_paused c i run w))"
      using run sp awake e
      by (cases "wakeup_due (clk w) run \<and> marker run")
        (auto simp: wake_paused_def Let_def as_with_run try_with_run resume_step_def marker_def split: option.splits)
    then show False using assms(3) by simp
  qed
  from wake_paused_resumes [OF run(1,2) awake run(3) sp ne] assms(3) have
    w': "GetRun (st w') i = Inr (resumed (resume_step (clk w) run sp) run)"
      "\<forall>j. GetWorkflowDefinition (st w') j = GetWorkflowDefinition (st w) j" by auto
  have "resume_step (clk w) run sp \<in> successors sp"
    by (auto simp: resume_step_def successors_def dest: map_of_SomeD intro!: image_eqI split: option.splits)
  then have "rank (resume_step (clk w) run sp) < rank (run_current_step run)"
    using assms(2) ne StepByID_SomeD [OF sp] by (fastforce simp: ranked_def)
  moreover have "run_current_step run \<noteq> []"
    using assms(2) StepByID_SomeD [OF sp] by (auto simp: ranked_def)
  ultimately show ?thesis
    using w' run ne by (auto simp: at_run_def potential_def resumed_def eff_def)
qed

definition fixed_step :: "uuid \<Rightarrow> workflow_definition \<Rightarrow> string \<Rightarrow> try_catch_frame list \<Rightarrow> world \<Rightarrow> bool" where
  "fixed_step i d x fs w \<longleftrightarrow> (\<exists>r. at_run i d r w \<and> run_current_step r = x \<and> run_try_catch_stack r = fs)"

lemma put_run_intact:
  assumes "intact i di fs d w"
    and "\<And>r. run_id (f r) = run_id r \<and> run_definition_id (f r) = run_definition_id r
      \<and> run_try_catch_stack (f r) = run_try_catch_stack r"
  shows "\<exists>w'. try_store (with_run i f) w = (None, w') \<and> intact i di fs d w'
    \<and> (\<forall>x. (\<forall>r. run_current_step (f r) = x) \<longrightarrow> fixed_step i d x fs w')"
proof -
  obtain r where r: "GetRun (st w) i = Inr r" "run_id r = i" "run_definition_id r = di"
    "run_try_catch_stack r = fs" "GetWorkflowDefinition (st w) di = Inr d"
    using assms(1) by (auto simp: intact_def)
  then show ?thesis
    using assms(2) by (simp add: try_with_run intact_def fixed_step_def at_run_def)
qed

lemma set_step_intact:
  assumes "intact i di fs d w"
  obtains w' where "try_store (UpdateRunState i x y) w = (None, w')" "intact i di fs d w'"
    "fixed_step i d y fs w'"
  using put_run_intact [OF assms, of "\<lambda>r. r\<lparr>run_state := x, run_current_step := y\<rparr>"] that
  by (auto simp: UpdateRunState_def)

lemma set_vars_intact:
  assumes "intact i di fs d w"
  obtains w' where "try_store (UpdateRunVariables i m) w = (None, w')" "intact i di fs d w'"
  using put_run_intact [OF assms, of "\<lambda>r. r\<lparr>run_variables := merge_vars (run_variables r) m\<rparr>"] that
  by (auto simp: UpdateRunVariables_def)

lemma next_step_successors: "next_step s result = Inr y \<Longrightarrow> y \<in> successors s"
  by (auto simp: next_step_def successors_def Let_def dest!: map_of_SomeD
      split: if_splits option.splits) force+

lemma finish_step_moves:
  assumes "intact (run_id run) di fs d w" and "finish_step c run s result w = (Continue, w')"
  shows "\<exists>y \<in> successors s. y \<noteq> [] \<and> fixed_step (run_id run) d y fs w'"
proof -
  obtain w1 where w1: "(if result = [] then (None, w) else try_store (UpdateRunVariables (run_id run) result) w)
      = (None, w1)" "intact (run_id run) di fs d w1"
    using set_vars_intact [OF assms(1), of result] assms(1) by (metis (full_types))
  define w2 where "w2 = emit (c_env c) (run_id run) (step_id s) 0 EventStepSucceeded ''engine'' [] w1"
  have i2: "intact (run_id run) di fs d w2" using w1(2) by (simp add: w2_def)
  obtain y where y: "next_step s result = Inr y" "y \<noteq> []"
    using assms(2) w1(1)
    by (cases "next_step s result") (auto simp: finish_step_def Let_def split: if_splits)
  obtain w3 where "try_store (UpdateRunState (run_id run) RunStateRunning y) w2 = (None, w3)"
    "fixed_step (run_id run) d y fs w3" using set_step_intact [OF i2] by metis
  moreover from this(1) have "w' = w3"
    using assms(2) w1(1) y by (simp add: finish_step_def Let_def w2_def [symmetric])
  ultimately show ?thesis using y next_step_successors by blast
qed

lemma fail_step_moves:
  assumes "intact (run_id run) di fs d w" and "fail_step c run d s err w = (Continue, w')"
  shows "fs \<noteq> [] \<and> fixed_step (run_id run) d (frame_catch_step (last fs)) (butlast fs) w'"
proof -
  obtain r where r: "map_of (runs (st w)) (run_id run) = Some r" "run_id r = run_id run"
    "run_definition_id r = di" "run_try_catch_stack r = fs" "GetWorkflowDefinition (st w) di = Inr d"
    using assms(1) by (auto simp: intact_def GetRun_iff)
  have ne: "fs \<noteq> []"
    using assms(2) r by (auto simp: fail_step_def Let_def PopTryCatch_def split: if_splits)
  define w1 where "w1 = put_run (run_id run) (r\<lparr>run_try_catch_stack := butlast fs\<rparr>) w"
  have i1: "intact (run_id run) di (butlast fs) d w1" using r by (simp add: w1_def intact_def)
  obtain w2 where w2: "try_store (UpdateRunVariables (run_id run) [(''_error'', VMap [(''step_id'', VStr (step_id s)),
        (''message'', VStr (err_text err)), (''verb'', VStr (step_type_str (step_type s)))])]) w1 = (None, w2)"
    "intact (run_id run) di (butlast fs) d w2" using set_vars_intact [OF i1] by metis
  define w3 where "w3 = emit (c_env c) (run_id run) (step_id s) 0 EventStepFailed ''engine-caught'' [] w2"
  have i3: "intact (run_id run) di (butlast fs) d w3" using w2(2) by (simp add: w3_def)
  obtain w4 where w4: "try_store (UpdateRunState (run_id run) RunStateRunning (frame_catch_step (last fs))) w3 = (None, w4)"
    "fixed_step (run_id run) d (frame_catch_step (last fs)) (butlast fs) w4"
    using set_step_intact [OF i3] by metis
  have "PopTryCatch (run_id run) (st w) = Inr (Some (last fs), st w1)" "w\<lparr>st := st w1\<rparr> = w1"
    using r ne by (simp_all add: PopTryCatch_def w1_def put_run_def)
  then have "w' = w4"
    using assms(2) w2(1) w4(1) by (simp add: fail_step_def Let_def w3_def [symmetric])
  then show ?thesis using ne w4(2) by simp
qed

lemma frames_rank_snoc: "fs \<noteq> [] \<Longrightarrow> frames_rank d rank fs
    = frames_rank d rank (butlast fs) + Suc (rank (eff d (frame_catch_step (last fs))))"
  by (induction fs rule: rev_induct) (auto simp: frames_rank_def)

lemma run_step_descends:
  assumes ok: "ranked d rank" "tame_for c d" and s: "s \<in> set (def_steps d)"
    and v: "c_verbs c (step_type s) = Some en" and i: "intact (run_id run) di fs d w"
    and c: "run_step c run d s en w = (Continue, w')"
  shows "\<exists>r. at_run (run_id run) d r w' \<and> potential d rank r < rank (step_id s) + frames_rank d rank fs"
proof -
  define extra :: "step \<Rightarrow> try_catch_frame list" where "extra = (\<lambda>s'. if step_type s = StepTypeTryCatch
    then [\<lparr>frame_step_id = step_id s', frame_catch_step = get_str (step_inputs s') ''catch''\<rparr>] else [])"
  have tame: "tame_verb (entry_handler en) extra"
  proof (cases "step_type s = StepTypeTryCatch")
    case True
    then obtain e where "entry_handler en = TryCatchVerb e"
      using ok(2) s v unfolding tame_for_def by (metis (full_types))
    then show ?thesis using try_catch.tame_verb_axioms [of e] True by (simp add: extra_def)
  next
    case False
    then show ?thesis using ok(2) s v by (auto simp: tame_for_def extra_def)
  qed
  obtain res w1 where x: "executeStep c run s (entry_handler en) w = (res, w1)" by fastforce
  show ?thesis
  proof (cases res)
    case (Inl err)
    then have "\<not> isControlSignal err" and f: "fail_step c run d s err w1 = (Continue, w')"
      using c x by (auto simp: run_step_def isControlSignal_def Let_def split: if_splits option.splits prod.splits)
    then have "intact (run_id run) di fs d w1" using tame_verb.executeStep_tame(2) [OF tame i x] Inl by blast
    from fail_step_moves [OF this f] show ?thesis
      using ok(1) s by (auto simp: fixed_step_def potential_def frames_rank_snoc)
  next
    case (Inr out)
    then have f: "finish_step c run s out w1 = (Continue, w')" using c x by (simp add: run_step_def)
    have "intact (run_id run) di (fs @ extra s) d w1" using tame_verb.executeStep_tame(1) [OF tame i x] Inr by blast
    from finish_step_moves [OF this f] obtain y r where y: "y \<in> successors s" "y \<noteq> []"
      and r: "at_run (run_id run) d r w'" "run_current_step r = y" "run_try_catch_stack r = fs @ extra s"
      by (auto simp: fixed_step_def)
    have "rank y + (if step_type s = StepTypeTryCatch
        then Suc (rank (eff d (get_str (step_inputs s) ''catch''))) else 0) < rank (step_id s)"
      using ok(1) s y unfolding ranked_def by blast
    then have "rank y + frames_rank d rank (extra s) < rank (step_id s)"
      by (simp add: frames_rank_def extra_def split: if_splits)
    moreover have "potential d rank r = rank y + (frames_rank d rank fs + frames_rank d rank (extra s))"
      using r(2,3) y(2) by (simp add: potential_def eff_def frames_rank_def)
    ultimately show ?thesis using r(1) by (intro exI [of _ r]) simp
  qed
qed

lemma enter_step_descends:
  assumes ok: "ranked d rank" "tame_for c d" and s: "s \<in> set (def_steps d)"
    and i: "intact (run_id run) di fs d w" and c: "enter_step c run d s w = (Continue, w')"
  shows "\<exists>r. at_run (run_id run) d r w' \<and> potential d rank r < rank (step_id s) + frames_rank d rank fs"
proof -
  define w1 where "w1 = emit (c_env c) (run_id run) (step_id s) 0 EventStepDispatched ''engine'' [] w"
  have "intact (run_id run) di fs d w1" using i by (simp add: w1_def)
  then obtain w2 where w2: "try_store (UpdateRunState (run_id run) RunStateRunning (step_id s)) w1 = (None, w2)"
    "intact (run_id run) di fs d w2" using set_step_intact by metis
  have ne: "step_type s \<noteq> StepTypeEnd"
    using c by (auto simp: enter_step_def Let_def split: prod.splits)
  then obtain en where v: "c_verbs c (step_type s) = Some en"
    using c by (cases "c_verbs c (step_type s)") (auto simp: enter_step_def Let_def)
  have "gate_passes c run s en"
  proof (rule ccontr)
    assume g: "\<not> gate_passes c run s en"
    obtain r where "GetRun (st w2) (run_id run) = Inr r" using w2(2) by (auto simp: intact_def)
    from license_gate_rejects [OF g this] show False
      using c v ne w2(1) by (auto simp: enter_step_def Let_def w1_def)
  qed
  then have "run_step c run d s en w2 = (Continue, w')"
    using c v ne w2(1) by (simp add: enter_step_def Let_def w1_def license_gate_passes)
  then show ?thesis using run_step_descends [OF ok s v w2(2)] by blast
qed

lemma advance_iter_descends:
  assumes ok: "ranked d rank" "tame_for c d" and r: "at_run i d run w"
    and c: "advance_iter c i w = (Continue, w')"
  shows "\<exists>r. at_run i d r w' \<and> potential d rank r < potential d rank run"
proof (cases "run_state run = RunStatePaused")
  case True
  then have "wake_paused c i run w = (Continue, w')"
    using c r by (auto simp: advance_iter_def at_run_def split: option.splits if_splits)
  then show ?thesis by (rule wake_paused_descends [OF r ok(1)])
next
  case False
  define w1 where "w1 = (if run_state run = RunStatePending
    then emit (c_env c) (run_id run) [] 0 EventSagaStarted ''engine'' [] w else w)"
  obtain s where s: "StepByID d (eff d (run_current_step run)) = Some s"
      and en: "enter_step c run d s w1 = (Continue, w')"
    using c r False
    by (auto simp: advance_iter_def at_run_def Let_def eff_def w1_def split: option.splits if_splits)
  have "intact (run_id run) (run_definition_id run) (run_try_catch_stack run) d w1"
    using at_run_intact [OF r] r by (simp add: w1_def at_run_def)
  from enter_step_descends [OF ok _ this en] show ?thesis
    using StepByID_SomeD [OF s] r by (auto simp: potential_def at_run_def)
qed

lemma advance_loop_returns:
  assumes "ranked d rank" "tame_for c d" "at_run i d run w" "potential d rank run < n"
  shows "\<exists>res. advance_loop c i n w = Some res"
  using assms(3,4)
proof (induction n arbitrary: w run)
  case (Suc n)
  obtain x w' where x: "advance_iter c i w = (x, w')" by fastforce
  show ?case
  proof (cases x)
    case Continue
    with x advance_iter_descends [OF assms(1,2) Suc.prems(1)]
    obtain r where "at_run i d r w'" "potential d rank r < potential d rank run" by blast
    then show ?thesis using Suc.IH [of r w'] Suc.prems(2) x Continue by simp
  qed (use x in simp)
qed simp

section \<open>Termination\<close>

lemma wake_parent_intact:
  assumes "intact i di fs d w"
  shows "intact i di fs d (wake_parent e pid key watched w)"
proof -
  define w1 where "w1 = ignore (try_store (UpdateRunVariables pid [(key, AggregateJoinResults e (st w) watched)]) w)"
  have i1: "intact i di fs d w1"
    using with_run_intact [OF assms prod.collapse [symmetric]] unfolding w1_def UpdateRunVariables_def by simp
  obtain r w2 where w2: "try_store (WakeFromExternal pid) w1 = (r, w2)" by fastforce
  then have "intact i di fs d w2" using with_run_intact [OF i1, of pid clear_awaits] unfolding WakeFromExternal_def by (simp add: clear_awaits_def)
  then show ?thesis
    using w2 by (cases r) (auto simp: wake_parent_def Let_def w1_def [symmetric] split: option.split)
qed

lemma checkParentJoin_intact:
  assumes "intact i di fs d w"
  shows "intact i di fs d (checkParentJoin e run w)"
proof -
  have "intact i di fs d (checkJoinBarriers e run w)"
    using assms by (auto simp: checkJoinBarriers_def Let_def wake_parent_intact split: option.split sum.split)
  then show ?thesis
    using assms by (auto simp: checkParentJoin_def Let_def wake_parent_intact split: option.split sum.split)
qed

lemma cancel_tame: "plain (CancelVerb e (Some (checkParentJoin e')))"
proof -
  have "intact i di fs d w'"
    if i: "intact i di fs d w" and v: "CancelVerb e (Some (checkParentJoin e')) run s w = (res, w')"
    for i di fs d run s w res w'
  proof (cases "\<exists>t. uuid_parse e (get_str (step_inputs s) ''run_id'') = Inr t")
    case True
    then obtain t where t: "uuid_parse e (get_str (step_inputs s) ''run_id'') = Inr t" by blast
    obtain r1 w1 where u: "try_store (UpdateRunState t RunStateCancelled []) w = (r1, w1)" by fastforce
    then have "intact i di fs d w1" using with_run_intact [OF i] unfolding UpdateRunState_def by simp
    then show ?thesis using i v t u
      by (auto simp: CancelVerb_def Let_def checkParentJoin_intact split: if_splits option.splits sum.splits)
  qed (use i v in \<open>auto simp: CancelVerb_def Let_def split: if_splits sum.splits\<close>)
  then show ?thesis by unfold_locales auto
qed

lemmas plain_verbs = pure_verbs [THEN pure_tame] log_tame metric_tame decision_tame http_tame waiting_tame
  task_tame action_tame signal_tame join_tame cancel_tame

text \<open>The step types that create runs or call an injected emitter.\<close>

definition outward :: "step_type set" where
  "outward = {StepTypeParallel, StepTypeForeach, StepTypeSubSaga, StepTypeSpawnSaga, StepTypeEmitEvent}"

lemma Default_tame:
  assumes "Default e av t = Some en" "t \<notin> outward" "t \<noteq> StepTypeCancel"
  shows "if t = StepTypeTryCatch then \<exists>e. entry_handler en = TryCatchVerb e else plain (entry_handler en)"
  using map_of_SomeD [OF assms(1) [unfolded Default_def]] assms(2,3) plain_verbs
  by (auto simp only: set_simps insert_iff empty_iff prod.inject outward_def plain_entry_def
      registry_entry.simps step_type.distinct if_False if_True simp_thms)

lemma NewCoordinator_tame:
  assumes "step_type ` set (def_steps d) \<inter> outward = {}"
  shows "tame_for (NewCoordinator e av lr) d"
proof -
  have "if step_type s = StepTypeTryCatch then \<exists>e. entry_handler en = TryCatchVerb e else plain (entry_handler en)"
    if s: "s \<in> set (def_steps d)" "c_verbs (NewCoordinator e av lr) (step_type s) = Some en" for s en
  proof (cases "step_type s = StepTypeCancel")
    case True
    then show ?thesis using s(2) cancel_tame by (auto simp: NewCoordinator_def RegisterVerb_def plain_entry_def)
  next
    case False
    then have "Default e av (step_type s) = Some en" using s(2) by (simp add: NewCoordinator_def RegisterVerb_def)
    moreover have "step_type s \<notin> outward" using s(1) assms by blast
    ultimately show ?thesis using False by (rule Default_tame)
  qed
  then show ?thesis by (auto simp: tame_for_def)
qed

text \<open>
  C13: on an engine with the default verbs, \<^verbatim>\<open>Advance\<close> returns for every run whose definition descends in some rank
  (every edge, and behind a try/catch step also the way into its handler) and has no step of the types parallel,
  foreach, sub_saga, spawn_saga and emit_event (\<open>outward\<close>), whose verbs write rows of other runs or hand the event to
  an emitter: the number of passes through the loop is bounded by the rank of the run's step plus its open try/catch
  frames, whatever the other verbs answer, and however often steps fail.
\<close>

theorem Advance_terminates:
  assumes "uuid_parse e str = Inr i" and "at_run i d run w" and "ranked d rank"
    and "step_type ` set (def_steps d) \<inter> outward = {}" and "potential d rank run < n"
  shows "\<exists>err w'. Advance (NewCoordinator e av lr) n str w = Some (err, w')"
  using advance_loop_returns [OF assms(3) NewCoordinator_tame [OF assms(4)] assms(2,5)] assms(1)
  by (simp add: Advance_def NewCoordinator_def RegisterVerb_def)

definition guarded_steps :: "step list" where
  "guarded_steps =
     [(blank_step ''a'')\<lparr>step_type := StepTypeTryCatch, step_next := ''b'',
        step_inputs := [(''catch'', VStr ''h'')]\<rparr>,
      (blank_step ''b'')\<lparr>step_type := StepTypeError, step_next := ''z''\<rparr>,
      (blank_step ''h'')\<lparr>step_type := StepTypeNoop, step_next := ''z''\<rparr>,
      (blank_step ''z'')\<lparr>step_type := StepTypeEnd\<rparr>]"

definition guarded_rank :: "string \<Rightarrow> nat" where
  "guarded_rank x = (if x = ''a'' then 4 else if x = ''z'' then 0 else 1)"

theorem Advance_terminates_witness:
  "\<exists>err w'. Advance (NewCoordinator test_env broker_verb None) 5 ''r1''
     (demo_world (sample_run ''r1'') guarded_steps) = Some (err, w')"
proof (rule Advance_terminates)
  show "uuid_parse test_env ''r1'' = Inr ''r1''" by (simp add: test_env_def)
  show "at_run ''r1'' (demo_def guarded_steps) (sample_run ''r1'') (demo_world (sample_run ''r1'') guarded_steps)"
    using demo_reads(1) [of "sample_run ''r1''" guarded_steps] by (simp add: at_run_def)
  show "ranked (demo_def guarded_steps) guarded_rank"
    by (simp add: ranked_def guarded_steps_def guarded_rank_def successors_def eff_def get_str_def blank_step_def)
  show "potential (demo_def guarded_steps) guarded_rank (sample_run ''r1'') < 5"
    by (simp add: potential_def frames_rank_def eff_def guarded_rank_def)
qed (simp add: guarded_steps_def outward_def)

end
