(* ===== verification/Json.thy ===== *)
theory Json
  imports Store_Properties "HOL-Library.Log_Nat"
begin

text \<open>
  What becomes of Go values that are written as JSON and read back, by the plain decoder and by the
  one of the Redis store, which keeps integers apart from floats.
\<close>

section \<open>Numbers\<close>

text \<open>\<^verbatim>\<open>float64(n)\<close>: 53 significant bits, ties to even.\<close>

definition round_even :: "nat \<Rightarrow> nat \<Rightarrow> nat" where
  "round_even n u =
     (let q = n div u; r = n mod u
      in if 2 * r < u \<or> 2 * r = u \<and> even q then q else Suc q)"

definition float64_nat :: "nat \<Rightarrow> nat" where
  "float64_nat n = (let u = 2 ^ (floorlog 2 n - 53) in round_even n u * u)"

definition float64 :: "int \<Rightarrow> int" where
  "float64 i = (if i < 0 then - int (float64_nat (nat (- i))) else int (float64_nat (nat i)))"

definition in_int64 :: "int \<Rightarrow> bool" where
  "in_int64 n \<longleftrightarrow> - (2 ^ 63) \<le> n \<and> n < 2 ^ 63"

section \<open>JSON\<close>

text \<open>
  What \<^verbatim>\<open>unmarshalJSON\<close> makes of the text \<^verbatim>\<open>json.Marshal\<close> writes for a value: numbers are
  \<^verbatim>\<open>int\<close> when their literal fits an \<^verbatim>\<open>int64\<close> and \<^verbatim>\<open>float64\<close> otherwise (whole floats are
  written without a point), typed slices and maps come back as the generic ones.
\<close>

definition convertJSONNumber :: "rat \<Rightarrow> val" where
  "convertJSONNumber q =
     (case quotient_of q of (n, d) \<Rightarrow> if d = 1 \<and> in_int64 n then VInt n else VFloat q)"

definition int_literal :: "int \<Rightarrow> val" where
  "int_literal n = (if in_int64 n then VInt n else VFloat (of_int (float64 n)))"

fun to_json :: "val \<Rightarrow> val" where
  "to_json (VInt n) = int_literal n"
| "to_json (VInt32 n) = int_literal n"
| "to_json (VInt64 n) = int_literal n"
| "to_json (VUint64 n) = int_literal n"
| "to_json (VFloat q) = convertJSONNumber q"
| "to_json (VList vs) = VList (map to_json vs)"
| "to_json (VMap m) = VMap (map (\<lambda>(k, v). (k, to_json v)) m)"
| "to_json (VMaps ms) = VList (map (\<lambda>m. VMap (map (\<lambda>(k, v). (k, to_json v)) m)) ms)"
| "to_json (VStrs l) = VList (map VStr l)"
| "to_json (VStrMap m) = VMap (map (\<lambda>(k, v). (k, VStr v)) m)"
| "to_json v = v"

text \<open>What the plain \<^verbatim>\<open>json.Unmarshal\<close> makes of a stored value: every number is a \<^verbatim>\<open>float64\<close>.\<close>

fun std_json :: "val \<Rightarrow> val" where
  "std_json (VInt n) = VFloat (of_int (float64 n))"
| "std_json (VList vs) = VList (map std_json vs)"
| "std_json (VMap m) = VMap (map (\<lambda>(k, v). (k, std_json v)) m)"
| "std_json v = v"

definition json_map :: "gomap \<Rightarrow> gomap" where
  "json_map m = map (\<lambda>(k, v). (k, to_json v)) m"

definition std_map :: "gomap \<Rightarrow> gomap" where
  "std_map m = map (\<lambda>(k, v). (k, std_json v)) m"

definition json_run :: "saga_run \<Rightarrow> saga_run" where
  "json_run r = r\<lparr>run_inputs := json_map (run_inputs r), run_variables := json_map (run_variables r)\<rparr>"

definition std_run :: "saga_run \<Rightarrow> saga_run" where
  "std_run r = r\<lparr>run_inputs := std_map (run_inputs r), run_variables := std_map (run_variables r)\<rparr>"

text \<open>\<^verbatim>\<open>Step.Extra\<close> has the tag \<^verbatim>\<open>json:"-"\<close>.\<close>

definition json_step :: "step \<Rightarrow> step" where
  "json_step s = s\<lparr>step_inputs := json_map (step_inputs s),
     step_compensation :=
       map_option (\<lambda>c. c\<lparr>comp_inputs := json_map (comp_inputs c)\<rparr>) (step_compensation s),
     step_extra := []\<rparr>"

definition json_def :: "workflow_definition \<Rightarrow> workflow_definition" where
  "json_def d = d\<lparr>def_steps := map json_step (def_steps d)\<rparr>"

definition json_event :: "saga_run_event \<Rightarrow> saga_run_event" where
  "json_event e = e\<lparr>ev_metadata := json_map (ev_metadata e)\<rparr>"

definition std_event :: "saga_run_event \<Rightarrow> saga_run_event" where
  "std_event e = e\<lparr>ev_metadata := std_map (ev_metadata e)\<rparr>"

definition json_signal :: "saga_signal \<Rightarrow> saga_signal" where
  "json_signal g = g\<lparr>sig_payload := json_map (sig_payload g)\<rparr>"

definition std_signal :: "saga_signal \<Rightarrow> saga_signal" where
  "std_signal g = g\<lparr>sig_payload := std_map (sig_payload g)\<rparr>"

definition json_task :: "user_task \<Rightarrow> user_task" where
  "json_task t = t\<lparr>task_form_schema := json_map (task_form_schema t), task_result := json_map (task_result t)\<rparr>"

definition json_action :: "action_registration \<Rightarrow> action_registration" where
  "json_action g = g\<lparr>reg_input_schema := json_map (reg_input_schema g),
     reg_output_schema := json_map (reg_output_schema g)\<rparr>"

text \<open>An empty \<^verbatim>\<open>default_output\<close> is omitted and reads back as nil.\<close>

definition json_rule :: "rule_definition \<Rightarrow> rule_definition" where
  "json_rule d =
     (let sp = rule_spec d
      in d\<lparr>rule_spec := sp\<lparr>
             spec_rows := map (\<lambda>row. row\<lparr>row_then := json_map (row_then row)\<rparr>) (spec_rows sp),
             spec_default_output :=
               (case spec_default_output sp of
                  None \<Rightarrow> None
                | Some m \<Rightarrow> (if m = [] then None else Some (json_map m)))\<rparr>\<rparr>)"

definition json_trigger :: "saga_trigger \<Rightarrow> saga_trigger" where
  "json_trigger t = t\<lparr>trig_config := json_map (trig_config t)\<rparr>"

end
