(* ===== verification/Redis_Store.thy ===== *)
theory Redis_Store
  imports Json
begin

text \<open>
  The Redis/Valkey implementation of the \<^verbatim>\<open>store.Store\<close> interface (\<^verbatim>\<open>store/redis\<close>). The
  server's keyspace is one table per kind of key the package builds: strings holding an entity as
  JSON, lists, sets and sorted sets. A blob is kept as the value \<^verbatim>\<open>unmarshalJSON\<close> reads back
  from it. Texts are valid UTF-8. The order of a set's list stands for the order in which
  \<^verbatim>\<open>SMEMBERS\<close> returns it. The commands themselves do not fail.
\<close>

section \<open>The keyspace\<close>

text \<open>The keys that can carry an expiry.\<close>

datatype rkey = KRun uuid | KEvents uuid | KSignals uuid | KTasksByRun uuid

record redis =
  k_def :: "(uuid \<times> workflow_definition) list"
  k_def_byname :: "(string \<times> uuid list) list"
  k_idx_defs :: "uuid list"
  k_run :: "(uuid \<times> saga_run) list"
  k_idx_runs :: "(uuid \<times> int) list"
  k_byworkflow :: "(string \<times> uuid list) list"
  k_children :: "((uuid \<times> string) \<times> uuid list) list"
  k_wakeup :: "(uuid \<times> int) list"
  k_awaitevent :: "(string \<times> uuid list) list"
  k_events :: "(uuid \<times> saga_run_event list) list"
  k_event :: "(uuid \<times> saga_run_event) list"
  k_signals :: "(uuid \<times> saga_signal list) list"
  k_usertask :: "(uuid \<times> user_task) list"
  k_tasks_byrun :: "(uuid \<times> uuid list) list"
  k_action :: "(string \<times> action_registration) list"
  k_idx_actions :: "string list"
  k_rule :: "(uuid \<times> rule_definition) list"
  k_rule_byid :: "(string \<times> uuid list) list"
  k_trigger :: "(uuid \<times> saga_trigger) list"
  k_idx_triggers :: "uuid list"
  k_expiring :: "rkey list"

definition redis_empty :: redis where
  "redis_empty = \<lparr>k_def = [], k_def_byname = [], k_idx_defs = [], k_run = [], k_idx_runs = [],
     k_byworkflow = [], k_children = [], k_wakeup = [], k_awaitevent = [], k_events = [], k_event = [],
     k_signals = [], k_usertask = [], k_tasks_byrun = [], k_action = [], k_idx_actions = [],
     k_rule = [], k_rule_byid = [], k_trigger = [], k_idx_triggers = [], k_expiring = []\<rparr>"

text \<open>\<^verbatim>\<open>SADD\<close>, \<^verbatim>\<open>SREM\<close>, \<^verbatim>\<open>RPUSH\<close>; a sorted set is updated by \<open>AList.update\<close> and \<open>AList.delete\<close>.\<close>

definition sadd :: "'a \<Rightarrow> 'a list \<Rightarrow> 'a list" where
  "sadd x xs = (if x \<in> set xs then xs else xs @ [x])"

definition sadd_at :: "'k \<Rightarrow> 'a \<Rightarrow> ('k \<times> 'a list) list \<Rightarrow> ('k \<times> 'a list) list" where
  "sadd_at k x m = AList.update k (sadd x (at_key m k)) m"

definition srem_at :: "'k \<Rightarrow> 'a \<Rightarrow> ('k \<times> 'a list) list \<Rightarrow> ('k \<times> 'a list) list" where
  "srem_at k x m = AList.update k (removeAll x (at_key m k)) m"

definition rpush_at :: "'k \<Rightarrow> 'a \<Rightarrow> ('k \<times> 'a list) list \<Rightarrow> ('k \<times> 'a list) list" where
  "rpush_at k x m = AList.update k (at_key m k @ [x]) m"

text \<open>\<^verbatim>\<open>MGET\<close> of the blobs under the given ids, skipping the nil ones.\<close>

definition mget :: "('k \<times> 'v) list \<Rightarrow> 'k list \<Rightarrow> 'v list" where
  "mget m ks = List.map_filter (map_of m) ks"

text \<open>Members of a sorted set by score, then by member.\<close>

definition zrange :: "(uuid \<times> int) list \<Rightarrow> uuid list" where
  "zrange z =
     map fst (insertion_sort (\<lambda>a b. snd a < snd b \<or> snd a = snd b \<and> uuidLess (fst a) (fst b)) z)"

section \<open>Transactions on a run\<close>

text \<open>
  \<^verbatim>\<open>txRun\<close> reads the run, lets \<open>mutate\<close> change it and queue commands on the pipeline,
  and executes the pipeline only if the watched key was not written meanwhile. \<open>rivals n\<close> is
  what other clients do during the \<open>n\<close>-th attempt, with whether they wrote the watched key.
  \<open>mutate\<close> is a closure: the variables it assigns (\<open>c\<close>) keep their values across attempts.
\<close>

datatype mutation = Abort | Failed gerr | Write saga_run "redis \<Rightarrow> redis"

type_synonym rivals = "nat \<Rightarrow> redis \<Rightarrow> bool \<times> redis"

definition txMaxRetries :: nat where
  "txMaxRetries = 50"

definition set_run :: "uuid \<Rightarrow> saga_run \<Rightarrow> redis \<Rightarrow> redis" where
  "set_run i r rd = rd\<lparr>k_run := AList.update i (json_run r) (k_run rd)\<rparr>"

fun tx_loop ::
  "rivals \<Rightarrow> uuid \<Rightarrow> (redis \<Rightarrow> saga_run \<Rightarrow> 'c \<Rightarrow> mutation \<times> 'c) \<Rightarrow> nat \<Rightarrow> nat \<Rightarrow> 'c \<Rightarrow> redis
   \<Rightarrow> gerr option \<times> 'c \<times> redis" where
  "tx_loop rv i mutate n 0 c rd =
     (Some (Errorf ''redis: tx retry budget exhausted for run %s'' [AStr i]), c, rd)"
| "tx_loop rv i mutate n (Suc left) c rd =
     (case map_of (k_run rd) i of
        None \<Rightarrow> (Some (ErrNotFound ''saga_run'' i), c, rd)
      | Some r \<Rightarrow>
          (case mutate rd r c of
             (Abort, c') \<Rightarrow> (None, c', rd)
           | (Failed err, c') \<Rightarrow> (Some err, c', rd)
           | (Write r' cmds, c') \<Rightarrow>
               (case rv n rd of
                  (True, rd') \<Rightarrow> tx_loop rv i mutate (Suc n) left c' rd'
                | (False, rd') \<Rightarrow> (None, c', set_run i r' (cmds rd')))))"

definition txRun ::
  "rivals \<Rightarrow> uuid \<Rightarrow> (redis \<Rightarrow> saga_run \<Rightarrow> 'c \<Rightarrow> mutation \<times> 'c) \<Rightarrow> 'c \<Rightarrow> redis
   \<Rightarrow> gerr option \<times> 'c \<times> redis" where
  "txRun rv i mutate c rd = tx_loop rv i mutate 0 txMaxRetries c rd"

text \<open>Methods whose closure assigns no variables.\<close>

definition txSimple ::
  "rivals \<Rightarrow> uuid \<Rightarrow> (saga_run \<Rightarrow> mutation) \<Rightarrow> redis \<Rightarrow> gerr option \<times> redis" where
  "txSimple rv i mutate rd =
     (case txRun rv i (\<lambda>_ r c. (mutate r, c)) () rd of (err, _, rd') \<Rightarrow> (err, rd'))"

section \<open>Expiry\<close>

definition key_exists :: "redis \<Rightarrow> rkey \<Rightarrow> bool" where
  "key_exists rd k =
     (case k of KRun i \<Rightarrow> map_of (k_run rd) i \<noteq> None
      | KEvents i \<Rightarrow> at_key (k_events rd) i \<noteq> []
      | KSignals i \<Rightarrow> at_key (k_signals rd) i \<noteq> []
      | KTasksByRun i \<Rightarrow> at_key (k_tasks_byrun rd) i \<noteq> [])"

text \<open>\<open>ttl\<close> is the option \<^verbatim>\<open>runTTL\<close>; \<^verbatim>\<open>EXPIRE\<close> has no effect on a key that does not exist.\<close>

definition applyTerminalTTL :: "duration \<Rightarrow> uuid \<Rightarrow> redis \<Rightarrow> redis" where
  "applyTerminalTTL ttl i rd =
     (if ttl \<le> 0 then rd
      else rd\<lparr>k_expiring := fold sadd
                (filter (key_exists rd) [KRun i, KEvents i, KSignals i, KTasksByRun i]) (k_expiring rd)\<rparr>)"

text \<open>The server drops a key whose time has come.\<close>

definition redis_expire :: "rkey \<Rightarrow> redis \<Rightarrow> redis" where
  "redis_expire k rd =
     (if k \<notin> set (k_expiring rd) then rd
      else (case k of KRun i \<Rightarrow> rd\<lparr>k_run := AList.delete i (k_run rd)\<rparr>
            | KEvents i \<Rightarrow> rd\<lparr>k_events := AList.delete i (k_events rd)\<rparr>
            | KSignals i \<Rightarrow> rd\<lparr>k_signals := AList.delete i (k_signals rd)\<rparr>
            | KTasksByRun i \<Rightarrow> rd\<lparr>k_tasks_byrun := AList.delete i (k_tasks_byrun rd)\<rparr>)
           \<lparr>k_expiring := removeAll k (k_expiring rd)\<rparr>)"

section \<open>Definitions and events\<close>

definition redis_UpsertWorkflowDefinition :: "uuid \<Rightarrow> workflow_definition \<Rightarrow> redis \<Rightarrow> redis" where
  "redis_UpsertWorkflowDefinition i d rd =
     rd\<lparr>k_def := AList.update i (json_def d) (k_def rd),
        k_def_byname := rpush_at (def_id d) i (k_def_byname rd),
        k_idx_defs := sadd i (k_idx_defs rd)\<rparr>"

definition redis_GetWorkflowDefinition :: "redis \<Rightarrow> uuid \<Rightarrow> gerr + workflow_definition" where
  "redis_GetWorkflowDefinition rd i =
     (case map_of (k_def rd) i of
        None \<Rightarrow> Inl (ErrNotFound ''workflow_definition'' i)
      | Some d \<Rightarrow> Inr d)"

text \<open>The walk over the versions, newest first: the first published one, else the first one present.\<close>

fun walk_versions :: "('v \<Rightarrow> bool) \<Rightarrow> (uuid \<times> 'v) list \<Rightarrow> uuid list \<Rightarrow> 'v option \<Rightarrow> 'v option" where
  "walk_versions published tab [] fallback = fallback"
| "walk_versions published tab (i # is) fallback =
     (case map_of tab i of
        None \<Rightarrow> walk_versions published tab is fallback
      | Some v \<Rightarrow>
          (let fallback = (case fallback of None \<Rightarrow> Some v | Some f \<Rightarrow> Some f)
           in if published v then Some v else walk_versions published tab is fallback))"

definition redis_GetPublishedWorkflowByID :: "redis \<Rightarrow> string \<Rightarrow> gerr + workflow_definition" where
  "redis_GetPublishedWorkflowByID rd workflowID =
     (let ids = at_key (k_def_byname rd) workflowID
      in if ids = [] then Inl (ErrNotFound ''workflow_definition'' workflowID)
         else case walk_versions def_published (k_def rd) (rev ids) None of
           Some d \<Rightarrow> Inr d
         | None \<Rightarrow> Inl (ErrNotFound ''workflow_definition'' workflowID))"

definition redis_ListWorkflowDefinitions :: "definition_filter \<Rightarrow> redis \<Rightarrow> workflow_definition list" where
  "redis_ListWorkflowDefinitions f rd =
     (let matched = insertion_sort newer_def (filter (def_matches f) (mget (k_def rd) (k_idx_defs rd)));
          limit = (if dfilter_limit f \<le> 0 then 50 else dfilter_limit f);
          limit = (if limit > 500 then 500 else limit)
      in page limit (dfilter_offset f) matched)"

definition redis_AppendEvent :: "saga_run_event \<Rightarrow> redis \<Rightarrow> redis" where
  "redis_AppendEvent evt rd =
     rd\<lparr>k_events := rpush_at (ev_run_id evt) (json_event evt) (k_events rd),
        k_event := AList.update (ev_id evt) (json_event evt) (k_event rd)\<rparr>"

definition redis_ListEventsByRun :: "redis \<Rightarrow> uuid \<Rightarrow> saga_run_event list" where
  "redis_ListEventsByRun rd i = map std_event (at_key (k_events rd) i)"

definition redis_GetEventByID :: "redis \<Rightarrow> uuid \<Rightarrow> gerr + saga_run_event" where
  "redis_GetEventByID rd i =
     (case map_of (k_event rd) i of
        None \<Rightarrow> Inl (ErrNotFound ''saga_run_event'' i)
      | Some e \<Rightarrow> Inr e)"

section \<open>User tasks\<close>

definition redis_CreateUserTask :: "user_task \<Rightarrow> redis \<Rightarrow> redis" where
  "redis_CreateUserTask t rd =
     rd\<lparr>k_usertask := AList.update (task_id t) (json_task t) (k_usertask rd),
        k_tasks_byrun := sadd_at (task_run_id t) (task_id t) (k_tasks_byrun rd)\<rparr>"

definition redis_GetUserTask :: "redis \<Rightarrow> uuid \<Rightarrow> gerr + user_task" where
  "redis_GetUserTask rd i =
     (case map_of (k_usertask rd) i of
        None \<Rightarrow> Inl (ErrNotFound ''user_task'' i)
      | Some t \<Rightarrow> Inr t)"

definition redis_SubmitUserTask ::
  "gotime \<Rightarrow> uuid \<Rightarrow> string \<Rightarrow> gomap \<Rightarrow> redis \<Rightarrow> gerr option \<times> redis" where
  "redis_SubmitUserTask now i submittedBy result rd =
     (case map_of (k_usertask rd) i of
        None \<Rightarrow> (Some (ErrNotFound ''user_task'' i), rd)
      | Some t \<Rightarrow>
          (None, rd\<lparr>k_usertask := AList.update i
             (json_task (t\<lparr>task_submitted_at := Some now, task_submitted_by := submittedBy,
                task_result := result\<rparr>)) (k_usertask rd)\<rparr>))"

definition redis_ListUserTasksByRun :: "redis \<Rightarrow> uuid \<Rightarrow> user_task list" where
  "redis_ListUserTasksByRun rd i =
     insertion_sort (\<lambda>a b. uuidLess (task_id a) (task_id b))
       (mget (k_usertask rd) (at_key (k_tasks_byrun rd) i))"

section \<open>Runs\<close>

definition redis_CreateRun :: "saga_run \<Rightarrow> redis \<Rightarrow> redis" where
  "redis_CreateRun run rd =
     rd\<lparr>k_run := AList.update (run_id run) (json_run run) (k_run rd),
        k_expiring := removeAll (KRun (run_id run)) (k_expiring rd),
        k_idx_runs := AList.update (run_id run) (float64 (run_started_at run)) (k_idx_runs rd),
        k_byworkflow := sadd_at (run_workflow_id run) (run_id run) (k_byworkflow rd)\<rparr>"

definition redis_GetRun :: "redis \<Rightarrow> uuid \<Rightarrow> gerr + saga_run" where
  "redis_GetRun rd i =
     (case map_of (k_run rd) i of
        None \<Rightarrow> Inl (ErrNotFound ''saga_run'' i)
      | Some r \<Rightarrow> Inr r)"

text \<open>\<^verbatim>\<open>ZREM idx:wakeup\<close> and, for a run that awaits an event, \<^verbatim>\<open>SREM idx:awaitevent:{topic}\<close>.\<close>

definition drop_indexes :: "uuid \<Rightarrow> saga_run \<Rightarrow> redis \<Rightarrow> redis" where
  "drop_indexes i r rd =
     (let rd = rd\<lparr>k_wakeup := AList.delete i (k_wakeup rd)\<rparr>
      in case run_awaited_event_topic r of
           None \<Rightarrow> rd
         | Some topic \<Rightarrow> rd\<lparr>k_awaitevent := srem_at topic i (k_awaitevent rd)\<rparr>)"

definition add_wakeup :: "uuid \<Rightarrow> gotime \<Rightarrow> redis \<Rightarrow> redis" where
  "add_wakeup i t rd = rd\<lparr>k_wakeup := AList.update i (float64 t) (k_wakeup rd)\<rparr>"

definition redis_UpdateRunState ::
  "duration \<Rightarrow> rivals \<Rightarrow> uuid \<Rightarrow> run_state \<Rightarrow> string \<Rightarrow> redis \<Rightarrow> gerr option \<times> redis" where
  "redis_UpdateRunState ttl rv i state currentStep =
     txSimple rv i
       (\<lambda>r. Write (r\<lparr>run_state := state, run_current_step := currentStep\<rparr>)
              (\<lambda>rd. if IsTerminal state then applyTerminalTTL ttl i (drop_indexes i r rd) else rd))"

fun close_tasks :: "gotime \<Rightarrow> user_task list \<Rightarrow> redis \<Rightarrow> redis" where
  "close_tasks now [] rd = rd"
| "close_tasks now (t # ts) rd =
     (if task_submitted_at t \<noteq> None then close_tasks now ts rd
      else close_tasks now ts
             (rd\<lparr>k_usertask := AList.update (task_id t)
                (json_task (t\<lparr>task_submitted_at := Some now, task_submitted_by := ''system:run-cancelled''\<rparr>))
                (k_usertask rd)\<rparr>))"

text \<open>The closure of \<^verbatim>\<open>Cancel\<close> assigns \<^verbatim>\<open>cancelled\<close> and \<^verbatim>\<open>step\<close>.\<close>

definition cancel_mutation ::
  "duration \<Rightarrow> gotime \<Rightarrow> uuid \<Rightarrow> string \<Rightarrow> redis \<Rightarrow> saga_run \<Rightarrow> bool \<times> string
   \<Rightarrow> mutation \<times> bool \<times> string" where
  "cancel_mutation ttl now i reason rd0 r c =
     (if IsTerminal (run_state r) then (Write r (\<lambda>rd. rd), c)
      else (Write (cancel_run now reason r) (\<lambda>rd. applyTerminalTTL ttl i (drop_indexes i r rd)),
            (True, run_current_step r)))"

definition redis_Cancel ::
  "duration \<Rightarrow> rivals \<Rightarrow> gotime \<Rightarrow> uuid \<Rightarrow> uuid \<Rightarrow> string \<Rightarrow> redis \<Rightarrow> gerr option \<times> redis" where
  "redis_Cancel ttl rv now evid i reason rd =
     (case txRun rv i (cancel_mutation ttl now i reason) (False, []) rd of
        (Some err, _, rd1) \<Rightarrow> (Some err, rd1)
      | (None, (cancelled, stp), rd1) \<Rightarrow>
          (if \<not> cancelled then (None, rd1)
           else let rd2 = close_tasks now (redis_ListUserTasksByRun rd1 i) rd1;
                    evt = (NewEvent evid now i stp 0 EventRunCancelled ''engine'')
                            \<lparr>ev_metadata := (if reason \<noteq> [] then [(''reason'', VStr reason)] else [])\<rparr>
                in (None, redis_AppendEvent evt rd2)))"

definition redis_MarkRunFailed ::
  "duration \<Rightarrow> rivals \<Rightarrow> gotime \<Rightarrow> uuid \<Rightarrow> string \<Rightarrow> string \<Rightarrow> redis \<Rightarrow> gerr option \<times> redis" where
  "redis_MarkRunFailed ttl rv now i currentStep lastError =
     txSimple rv i
       (\<lambda>r. if IsTerminal (run_state r) then Write r (\<lambda>rd. rd)
            else Write (r\<lparr>run_state := RunStateFailed, run_current_step := currentStep,
                          run_terminal_at := Some now, run_last_event_at := now,
                          run_last_error :=
                            (if lastError \<noteq> [] then Some lastError else run_last_error r)\<rparr>)
                   (\<lambda>rd. applyTerminalTTL ttl i (drop_indexes i r rd)))"

definition redis_merge :: "gomap \<Rightarrow> gomap \<Rightarrow> gomap" where
  "redis_merge vars m = foldl (\<lambda>t (k, v). applyDottedKey t k v) vars m"

definition redis_UpdateRunVariables :: "rivals \<Rightarrow> uuid \<Rightarrow> gomap \<Rightarrow> redis \<Rightarrow> gerr option \<times> redis" where
  "redis_UpdateRunVariables rv i m =
     txSimple rv i
       (\<lambda>r. Write (r\<lparr>run_variables := redis_merge (run_variables r) m\<rparr>) (\<lambda>rd. rd))"

section \<open>Pausing and waking\<close>

definition redis_SetPausedWithWakeup :: "rivals \<Rightarrow> uuid \<Rightarrow> gotime \<Rightarrow> redis \<Rightarrow> gerr option \<times> redis" where
  "redis_SetPausedWithWakeup rv i wakeupAt =
     txSimple rv i
       (\<lambda>r. Write (r\<lparr>run_state := RunStatePaused, run_wakeup_at := Some wakeupAt\<rparr>)
              (add_wakeup i wakeupAt))"

definition redis_SetPausedAwaitingSignal ::
  "rivals \<Rightarrow> uuid \<Rightarrow> string \<Rightarrow> gotime option \<Rightarrow> redis \<Rightarrow> gerr option \<times> redis" where
  "redis_SetPausedAwaitingSignal rv i signalName deadline =
     txSimple rv i
       (\<lambda>r. case deadline of
              None \<Rightarrow> Write (r\<lparr>run_state := RunStatePaused, run_awaited_signal := Some signalName\<rparr>) (\<lambda>rd. rd)
            | Some d \<Rightarrow> Write (r\<lparr>run_state := RunStatePaused, run_awaited_signal := Some signalName,
                                run_wakeup_at := Some d\<rparr>) (add_wakeup i d))"

definition redis_SetPausedAwaitingEventWithDeadline ::
  "rivals \<Rightarrow> uuid \<Rightarrow> string \<Rightarrow> (string \<times> string) list \<Rightarrow> gotime option \<Rightarrow> redis \<Rightarrow> gerr option \<times> redis" where
  "redis_SetPausedAwaitingEventWithDeadline rv i topic headers deadline =
     txSimple rv i
       (\<lambda>r. Write (r\<lparr>run_state := RunStatePaused, run_awaited_event_topic := Some topic,
                     run_awaited_event_headers := map (\<lambda>(k, v). (k, v)) headers,
                     run_wakeup_at := deadline\<rparr>)
              (\<lambda>rd. let rd = rd\<lparr>k_awaitevent := sadd_at topic i (k_awaitevent rd)\<rparr>
                    in case deadline of None \<Rightarrow> rd | Some d \<Rightarrow> add_wakeup i d rd))"

definition redis_SetPausedAwaitingEvent ::
  "rivals \<Rightarrow> uuid \<Rightarrow> string \<Rightarrow> (string \<times> string) list \<Rightarrow> redis \<Rightarrow> gerr option \<times> redis" where
  "redis_SetPausedAwaitingEvent rv i topic headers =
     redis_SetPausedAwaitingEventWithDeadline rv i topic headers None"

definition redis_ClearPause :: "rivals \<Rightarrow> uuid \<Rightarrow> redis \<Rightarrow> gerr option \<times> redis" where
  "redis_ClearPause rv i =
     txSimple rv i
       (\<lambda>r. Write (r\<lparr>run_state := RunStateRunning, run_wakeup_at := None, run_awaited_signal := None,
                     run_awaited_event_topic := None, run_awaited_event_headers := []\<rparr>)
              (drop_indexes i r))"

definition redis_WakeFromExternal :: "rivals \<Rightarrow> uuid \<Rightarrow> redis \<Rightarrow> gerr option \<times> redis" where
  "redis_WakeFromExternal rv i = txSimple rv i (\<lambda>r. Write (clear_awaits r) (drop_indexes i r))"

text \<open>
  Scores up to \<^verbatim>\<open>now\<close>, both rounded to \<^verbatim>\<open>float64\<close>; the blobs are then filtered by state and the
  result cut at \<open>limit\<close> (a negative one would panic).
\<close>

definition redis_FindRunsByDueWakeup :: "gotime \<Rightarrow> nat \<Rightarrow> redis \<Rightarrow> uuid list" where
  "redis_FindRunsByDueWakeup now limit rd =
     take limit
       (filter (\<lambda>i. case map_of (k_run rd) i of None \<Rightarrow> False | Some r \<Rightarrow> run_state r = RunStatePaused)
         (zrange (filter (\<lambda>(i, score). score \<le> float64 now) (k_wakeup rd))))"

definition redis_FindRunsByAwaitedEvent :: "string \<Rightarrow> redis \<Rightarrow> saga_run list" where
  "redis_FindRunsByAwaitedEvent topic rd =
     filter (\<lambda>r. run_state r = RunStatePaused \<and> run_awaited_event_topic r = Some topic)
       (map std_run (mget (k_run rd) (at_key (k_awaitevent rd) topic)))"

text \<open>
  The closure assigns \<^verbatim>\<open>consumed\<close>. The signals are read outside the watched key, so the rewrite
  replaces the list by what was read in this attempt; a rewritten list has no expiry.
\<close>

definition consume_mutation ::
  "gotime \<Rightarrow> uuid \<Rightarrow> string \<Rightarrow> redis \<Rightarrow> saga_run \<Rightarrow> bool \<Rightarrow> mutation \<times> bool" where
  "consume_mutation now i signalName rd0 r consumed =
     (if run_state r \<noteq> RunStatePaused \<or> run_awaited_signal r \<noteq> Some signalName
      then (Abort, consumed)
      else
        let sigs = at_key (k_signals rd0) i;
            sigs' = map (\<lambda>g. json_signal (consume_signal now signalName (std_signal g))) sigs
        in (Write (clear_awaits r)
              (\<lambda>rd. let rd = drop_indexes i r rd
                    in if sigs = [] then rd
                       else rd\<lparr>k_signals := AList.update i sigs' (k_signals rd),
                               k_expiring := removeAll (KSignals i) (k_expiring rd)\<rparr>),
            True))"

definition redis_TryConsumeAwaitedSignal ::
  "rivals \<Rightarrow> gotime \<Rightarrow> uuid \<Rightarrow> string \<Rightarrow> redis \<Rightarrow> (gerr + bool) \<times> redis" where
  "redis_TryConsumeAwaitedSignal rv now i signalName rd =
     (case txRun rv i (consume_mutation now i signalName) False rd of
        (Some err, _, rd') \<Rightarrow> (Inl err, rd')
      | (None, consumed, rd') \<Rightarrow> (Inr consumed, rd'))"

definition redis_AppendSignal :: "saga_signal \<Rightarrow> redis \<Rightarrow> redis" where
  "redis_AppendSignal g rd = rd\<lparr>k_signals := rpush_at (sig_run_id g) (json_signal g) (k_signals rd)\<rparr>"

section \<open>Children and the try/catch stack\<close>

text \<open>
  The transaction watches \<^verbatim>\<open>def:byname:{id}\<close>; both ids are drawn before the loop. A definition
  stored here is not added to \<^verbatim>\<open>idx:defs\<close>.
\<close>

definition spawn_writes ::
  "uuid \<Rightarrow> uuid \<Rightarrow> gotime \<Rightarrow> uuid \<Rightarrow> string \<Rightarrow> string \<Rightarrow> workflow_definition \<Rightarrow> gomap \<Rightarrow> string
   \<Rightarrow> uuid list \<Rightarrow> redis \<Rightarrow> redis" where
  "spawn_writes newDefID childID now parentID parentStepID branchKey d inputs startStep ids rd =
     (let defStoredID = (if ids \<noteq> [] then last ids else newDefID);
          child = new_child childID now defStoredID parentID parentStepID branchKey d inputs startStep;
          rd1 = (if ids \<noteq> [] then rd
                 else rd\<lparr>k_def := AList.update newDefID (json_def d) (k_def rd),
                         k_def_byname := rpush_at (def_id d) newDefID (k_def_byname rd)\<rparr>)
      in rd1\<lparr>k_run := AList.update childID (json_run child) (k_run rd1),
             k_expiring := removeAll (KRun childID) (k_expiring rd1),
             k_idx_runs := AList.update childID (float64 now) (k_idx_runs rd1),
             k_byworkflow := sadd_at (def_id d) childID (k_byworkflow rd1),
             k_children := sadd_at (parentID, parentStepID) childID (k_children rd1)\<rparr>)"

fun spawn_loop ::
  "rivals \<Rightarrow> string \<Rightarrow> uuid \<Rightarrow> uuid \<Rightarrow> (uuid list \<Rightarrow> redis \<Rightarrow> redis) \<Rightarrow> nat \<Rightarrow> nat \<Rightarrow> redis
   \<Rightarrow> (gerr + uuid) \<times> redis" where
  "spawn_loop rv name parentID childID writes n 0 rd =
     (Inl (Errorf ''redis: tx retry budget exhausted for child spawn under parent %s'' [AStr parentID]), rd)"
| "spawn_loop rv name parentID childID writes n (Suc left) rd =
     (let ids = at_key (k_def_byname rd) name
      in case rv n rd of
           (True, rd') \<Rightarrow> spawn_loop rv name parentID childID writes (Suc n) left rd'
         | (False, rd') \<Rightarrow> (Inr childID, writes ids rd'))"

definition redis_SpawnChildRunAt ::
  "rivals \<Rightarrow> uuid \<Rightarrow> uuid \<Rightarrow> gotime \<Rightarrow> uuid \<Rightarrow> string \<Rightarrow> string \<Rightarrow> workflow_definition \<Rightarrow> gomap \<Rightarrow> string
   \<Rightarrow> redis \<Rightarrow> (gerr + uuid) \<times> redis" where
  "redis_SpawnChildRunAt rv newDefID childID now parentID parentStepID branchKey d inputs startStep =
     spawn_loop rv (def_id d) parentID childID
       (spawn_writes newDefID childID now parentID parentStepID branchKey d inputs startStep)
       0 txMaxRetries"

definition redis_SpawnChildRun ::
  "rivals \<Rightarrow> uuid \<Rightarrow> uuid \<Rightarrow> gotime \<Rightarrow> uuid \<Rightarrow> string \<Rightarrow> string \<Rightarrow> workflow_definition \<Rightarrow> gomap
   \<Rightarrow> redis \<Rightarrow> (gerr + uuid) \<times> redis" where
  "redis_SpawnChildRun rv newDefID childID now parentID parentStepID branchKey d inputs =
     redis_SpawnChildRunAt rv newDefID childID now parentID parentStepID branchKey d inputs []"

definition redis_ListChildrenByParent :: "redis \<Rightarrow> uuid \<Rightarrow> string \<Rightarrow> saga_run list" where
  "redis_ListChildrenByParent rd parentID parentStepID =
     mget (k_run rd) (at_key (k_children rd) (parentID, parentStepID))"

definition redis_PushTryCatch :: "rivals \<Rightarrow> uuid \<Rightarrow> try_catch_frame \<Rightarrow> redis \<Rightarrow> gerr option \<times> redis" where
  "redis_PushTryCatch rv i frame =
     txSimple rv i
       (\<lambda>r. if length (run_try_catch_stack r) \<ge> maxDepth
            then Failed (Errorf ''try_catch max nesting depth %d exceeded for run %s''
                           [AInt (int maxDepth), AStr i])
            else Write (r\<lparr>run_try_catch_stack := run_try_catch_stack r @ [frame]\<rparr>) (\<lambda>rd. rd))"

definition redis_PopTryCatch ::
  "rivals \<Rightarrow> uuid \<Rightarrow> redis \<Rightarrow> (gerr + try_catch_frame option) \<times> redis" where
  "redis_PopTryCatch rv i rd =
     (case txRun rv i
             (\<lambda>_ r popped. if run_try_catch_stack r = [] then (Abort, popped)
                           else (Write (r\<lparr>run_try_catch_stack := butlast (run_try_catch_stack r)\<rparr>) (\<lambda>rd. rd),
                                 Some (last (run_try_catch_stack r)))) None rd of
        (Some err, _, rd') \<Rightarrow> (Inl err, rd')
      | (None, popped, rd') \<Rightarrow> (Inr popped, rd'))"

section \<open>Actions\<close>

definition actionKey :: "string \<Rightarrow> string \<Rightarrow> int \<Rightarrow> string" where
  "actionKey service actionName version = service @ ''.'' @ actionName @ '':'' @ show_int version"

definition redis_UpsertActionRegistration ::
  "uuid \<Rightarrow> gotime \<Rightarrow> action_registration \<Rightarrow> redis \<Rightarrow> redis" where
  "redis_UpsertActionRegistration fresh now reg rd =
     (let reg = reg\<lparr>reg_id := (if reg_id reg = uuid_Nil then fresh else reg_id reg)\<rparr>;
          reg = reg\<lparr>reg_registered_at :=
                      (if reg_registered_at reg = 0 then now else reg_registered_at reg)\<rparr>;
          ak = actionKey (reg_service reg) (reg_action_name reg) (reg_version reg)
      in rd\<lparr>k_action := AList.update ak (json_action reg) (k_action rd),
            k_idx_actions := sadd ak (k_idx_actions rd)\<rparr>)"

definition redis_GetAction :: "redis \<Rightarrow> string \<Rightarrow> string \<Rightarrow> int \<Rightarrow> gerr + action_registration" where
  "redis_GetAction rd service name version =
     (case map_of (k_action rd) (actionKey service name version) of
        Some reg \<Rightarrow> Inr reg
      | None \<Rightarrow> Inl (ErrNotFound ''action_registration''
                  (service @ ''.'' @ name @ '':'' @ show_int version)))"

definition redis_ListActions :: "action_filter \<Rightarrow> redis \<Rightarrow> action_registration list" where
  "redis_ListActions f rd = filter (action_matches f) (mget (k_action rd) (k_idx_actions rd))"

definition redis_MarkAwaitingAction ::
  "rivals \<Rightarrow> uuid \<Rightarrow> string \<Rightarrow> int \<Rightarrow> redis \<Rightarrow> gerr option \<times> redis" where
  "redis_MarkAwaitingAction rv i dispatch attempt =
     txSimple rv i
       (\<lambda>r. if run_current_attempt r = attempt \<and> run_awaited_action_dispatch r = Some dispatch then Abort
            else Write (r\<lparr>run_state := RunStatePaused, run_awaited_action_dispatch := Some dispatch,
                          run_current_attempt := attempt\<rparr>) (\<lambda>rd. rd))"

definition redis_put :: "gomap \<Rightarrow> gomap \<Rightarrow> gomap" where
  "redis_put vars m = foldl (\<lambda>t (k, v). AList.update k v t) vars m"

definition redis_CompleteAction ::
  "rivals \<Rightarrow> gotime \<Rightarrow> uuid \<Rightarrow> int \<Rightarrow> gomap \<Rightarrow> redis \<Rightarrow> gerr option \<times> redis" where
  "redis_CompleteAction rv now i attempt result =
     txSimple rv i
       (\<lambda>r. if run_current_attempt r \<noteq> attempt then Abort
            else Write (r\<lparr>run_awaited_action_dispatch := None, run_wakeup_at := Some now,
                          run_variables := redis_put (run_variables r) result\<rparr>)
                   (add_wakeup i now))"

text \<open>The closure assigns \<^verbatim>\<open>dispatch\<close> and \<^verbatim>\<open>currentStep\<close>; the event follows the transaction.\<close>

definition fail_mutation ::
  "duration \<Rightarrow> uuid \<Rightarrow> int \<Rightarrow> redis \<Rightarrow> saga_run \<Rightarrow> string \<times> string \<Rightarrow> mutation \<times> string \<times> string" where
  "fail_mutation ttl i attempt rd0 r c =
     (if run_current_attempt r \<noteq> attempt then (Abort, c)
      else (Write (r\<lparr>run_awaited_action_dispatch := None, run_state := RunStateFailed\<rparr>)
              (\<lambda>rd. applyTerminalTTL ttl i (drop_indexes i r rd)),
            (or_default (run_awaited_action_dispatch r) (fst c), run_current_step r)))"

definition redis_FailAction ::
  "duration \<Rightarrow> rivals \<Rightarrow> gotime \<Rightarrow> uuid \<Rightarrow> uuid \<Rightarrow> int \<Rightarrow> string \<Rightarrow> string \<Rightarrow> bool \<Rightarrow> redis
   \<Rightarrow> gerr option \<times> redis" where
  "redis_FailAction ttl rv now evid i attempt code message retryable rd =
     (case txRun rv i (fail_mutation ttl i attempt) ([], []) rd of
        (Some err, _, rd') \<Rightarrow> (Some err, rd')
      | (None, (dispatch, currentStep), rd') \<Rightarrow>
          (None, redis_AppendEvent
             ((NewEvent evid now i currentStep attempt EventStepFailed ''engine'')
                \<lparr>ev_metadata :=
                   [(''code'', VStr code), (''message'', VStr message),
                    (''retryable'', VBool retryable), (''action'', VStr dispatch)]\<rparr>) rd'))"

section \<open>Queries\<close>

definition loadCandidates :: "string \<Rightarrow> redis \<Rightarrow> saga_run list" where
  "loadCandidates workflowID rd =
     mget (k_run rd)
       (if workflowID \<noteq> [] then at_key (k_byworkflow rd) workflowID else zrange (k_idx_runs rd))"

definition redis_triggerTypeMap :: "redis \<Rightarrow> (uuid \<times> string) list" where
  "redis_triggerTypeMap rd =
     map (\<lambda>t. (trig_id t, trigger_type_str (trig_type t))) (mget (k_trigger rd) (k_idx_triggers rd))"

definition redis_filterRuns :: "saga_run list \<Rightarrow> run_filter \<Rightarrow> (uuid \<times> string) list \<Rightarrow> saga_run list" where
  "redis_filterRuns rs f triggerTypeByID =
     insertion_sort started_later (filter (run_matches f triggerTypeByID) rs)"

definition redis_ListRuns :: "run_filter \<Rightarrow> redis \<Rightarrow> saga_run list" where
  "redis_ListRuns f rd =
     (let matched = redis_filterRuns (loadCandidates (rfilter_workflow_id f) rd) f (redis_triggerTypeMap rd);
          limit = (if rfilter_limit f \<le> 0 then 50 else rfilter_limit f)
      in page limit (rfilter_offset f) matched)"

definition redis_CountRuns :: "run_filter \<Rightarrow> redis \<Rightarrow> int" where
  "redis_CountRuns f rd =
     int (length (redis_filterRuns (loadCandidates (rfilter_workflow_id f) rd) f (redis_triggerTypeMap rd)))"

fun redis_stats_loop ::
  "gotime \<Rightarrow> gotime option \<Rightarrow> int \<Rightarrow> int \<Rightarrow> int \<Rightarrow> saga_run list \<Rightarrow> gotime option \<times> int \<times> int \<times> int" where
  "redis_stats_loop window lastRun flight ok bad [] = (lastRun, flight, ok, bad)"
| "redis_stats_loop window lastRun flight ok bad (r # rs) =
     (let lastRun = (case lastRun of None \<Rightarrow> Some (run_started_at r)
                     | Some t \<Rightarrow> if run_started_at r > t then Some (run_started_at r) else Some t);
          flight = (if run_state r \<noteq> RunStateSucceeded \<and> run_state r \<noteq> RunStateFailed
                       \<and> run_state r \<noteq> RunStateCancelled then flight + 1 else flight);
          recent = (\<not> run_started_at r < window);
          ok = (if recent \<and> run_state r = RunStateSucceeded then ok + 1 else ok);
          bad = (if recent \<and> run_state r = RunStateFailed then bad + 1 else bad)
      in redis_stats_loop window lastRun flight ok bad rs)"

definition redis_StatsForWorkflow :: "gotime \<Rightarrow> string \<Rightarrow> redis \<Rightarrow> workflow_stats" where
  "redis_StatsForWorkflow now workflowID rd =
     (let window = now - 24 * 3600 * second_ns;
          (lastRun, flight, ok, bad) =
            redis_stats_loop window None 0 0 0 (mget (k_run rd) (at_key (k_byworkflow rd) workflowID));
          total = ok + bad
      in \<lparr>stats_workflow_id = workflowID,
          stats_success_rate =
            (if total > 0 then Some (of_int ok / of_int total) else None),
          stats_last_run_at = lastRun, stats_in_flight = flight\<rparr>)"

section \<open>Rules\<close>

text \<open>The transaction watches \<^verbatim>\<open>rule:{id}\<close>.\<close>

fun rule_loop :: "rivals \<Rightarrow> uuid \<Rightarrow> rule_definition \<Rightarrow> nat \<Rightarrow> nat \<Rightarrow> redis \<Rightarrow> (gerr + uuid) \<times> redis" where
  "rule_loop rv i d n 0 rd =
     (Inl (Errorf ''redis: tx retry budget exhausted for rule %s'' [AStr i]), rd)"
| "rule_loop rv i d n (Suc left) rd =
     (let existing = map_of (k_rule rd) i
      in case rv n rd of
           (True, rd') \<Rightarrow> rule_loop rv i d (Suc n) left rd'
         | (False, rd') \<Rightarrow>
             (let byid = (case existing of
                            None \<Rightarrow> k_rule_byid rd'
                          | Some x \<Rightarrow> srem_at (rule_rule_id x) i (k_rule_byid rd'))
              in (Inr i, rd'\<lparr>k_rule := AList.update i (json_rule d) (k_rule rd'),
                             k_rule_byid := rpush_at (rule_rule_id d) i byid\<rparr>)))"

definition redis_UpsertRuleDefinition ::
  "rivals \<Rightarrow> uuid \<Rightarrow> rule_definition \<Rightarrow> redis \<Rightarrow> (gerr + uuid) \<times> redis" where
  "redis_UpsertRuleDefinition rv fresh d rd =
     (let i = (if rule_uuid d = uuid_Nil then fresh else rule_uuid d)
      in rule_loop rv i (d\<lparr>rule_uuid := i\<rparr>) 0 txMaxRetries rd)"

definition redis_GetPublishedRuleByID :: "redis \<Rightarrow> string \<Rightarrow> gerr + rule_definition" where
  "redis_GetPublishedRuleByID rd ruleID =
     (let ids = at_key (k_rule_byid rd) ruleID
      in if ids = [] then Inl (ErrNotFound ''rule_definition'' ruleID)
         else case walk_versions rule_published (k_rule rd) (rev ids) None of
           Some r \<Rightarrow> Inr r
         | None \<Rightarrow> Inl (ErrNotFound ''rule_definition'' ruleID))"

section \<open>Triggers\<close>

definition redis_UpsertTrigger :: "uuid \<Rightarrow> gotime \<Rightarrow> saga_trigger \<Rightarrow> redis \<Rightarrow> uuid \<times> redis" where
  "redis_UpsertTrigger fresh now t rd =
     (let i = (if trig_id t = uuid_Nil then fresh else trig_id t);
          t = t\<lparr>trig_id := i\<rparr>;
          t = t\<lparr>trig_created_at := (if trig_created_at t = 0 then now else trig_created_at t)\<rparr>
      in (i, rd\<lparr>k_trigger := AList.update i (json_trigger t) (k_trigger rd),
                k_idx_triggers := sadd i (k_idx_triggers rd)\<rparr>))"

definition redis_GetTrigger :: "redis \<Rightarrow> uuid \<Rightarrow> gerr + saga_trigger" where
  "redis_GetTrigger rd i =
     (case map_of (k_trigger rd) i of
        None \<Rightarrow> Inl (ErrNotFound ''saga_trigger'' i)
      | Some t \<Rightarrow> Inr t)"

definition redis_ListTriggers :: "trigger_filter \<Rightarrow> redis \<Rightarrow> saga_trigger list" where
  "redis_ListTriggers f rd = filter (trigger_matches f) (mget (k_trigger rd) (k_idx_triggers rd))"

definition redis_DeleteTrigger :: "uuid \<Rightarrow> redis \<Rightarrow> gerr option \<times> redis" where
  "redis_DeleteTrigger i rd =
     (case map_of (k_trigger rd) i of
        None \<Rightarrow> (Some (ErrNotFound ''saga_trigger'' i), rd)
      | Some _ \<Rightarrow> (None, rd\<lparr>k_trigger := AList.delete i (k_trigger rd),
                            k_idx_triggers := removeAll i (k_idx_triggers rd)\<rparr>))"

definition redis_ListDueCronTriggers :: "gotime \<Rightarrow> int \<Rightarrow> redis \<Rightarrow> saga_trigger list" where
  "redis_ListDueCronTriggers now limit rd =
     (let out = insertion_sort fires_before
                  (filter (cron_due now) (mget (k_trigger rd) (k_idx_triggers rd)))
      in if limit > 0 \<and> int (length out) > limit then take (nat limit) out else out)"

text \<open>The transaction watches the trigger's key; \<^verbatim>\<open>won\<close> starts as false in every attempt.\<close>

fun claim_loop ::
  "rivals \<Rightarrow> gotime \<Rightarrow> uuid \<Rightarrow> gotime \<Rightarrow> gotime \<Rightarrow> nat \<Rightarrow> nat \<Rightarrow> redis \<Rightarrow> (gerr + bool) \<times> redis" where
  "claim_loop rv now i expected next n 0 rd =
     (Inl (Errorf ''redis: ClaimCronFire tx retry budget exhausted for %s'' [AStr i]), rd)"
| "claim_loop rv now i expected next n (Suc left) rd =
     (case map_of (k_trigger rd) i of
        None \<Rightarrow> (Inr False, rd)
      | Some t \<Rightarrow>
          (if trig_next_fire_at t \<noteq> Some expected then (Inr False, rd)
           else case rv n rd of
             (True, rd') \<Rightarrow> claim_loop rv now i expected next (Suc n) left rd'
           | (False, rd') \<Rightarrow>
               (Inr True, rd'\<lparr>k_trigger := AList.update i
                  (json_trigger (t\<lparr>trig_next_fire_at := Some next, trig_last_fired_at := Some now\<rparr>))
                  (k_trigger rd')\<rparr>)))"

definition redis_ClaimCronFire ::
  "rivals \<Rightarrow> gotime \<Rightarrow> uuid \<Rightarrow> gotime \<Rightarrow> gotime \<Rightarrow> redis \<Rightarrow> (gerr + bool) \<times> redis" where
  "redis_ClaimCronFire rv now i expectedNextFire newNextFire rd =
     claim_loop rv now i expectedNextFire newNextFire 0 txMaxRetries rd"

definition redis_RecordTriggerFire ::
  "uuid \<Rightarrow> string \<Rightarrow> uuid option \<Rightarrow> string \<Rightarrow> redis \<Rightarrow> redis" where
  "redis_RecordTriggerFire triggerID workflowID runID fireErr rd = rd"

end
