(* ===== verification/Redis_Properties.thy ===== *)
theory Redis_Properties
  imports Redis_Store
begin

text \<open>
  Facts about the pieces of the Redis store: the rounding of scores, the JSON normal form of stored
  values, the optimistic transaction as an atomic step, and what its closures do when an
  attempt is repeated.
\<close>

section \<open>Scores\<close>

lemma round_even_bounds: "u > 0 \<Longrightarrow> n div u \<le> round_even n u \<and> round_even n u \<le> Suc (n div u)"
  by (simp add: round_even_def Let_def)

lemma round_even_mono:
  assumes "m \<le> n" and "u > 0"
  shows "round_even m u \<le> round_even n u"
proof (cases "m div u = n div u")
  case True
  then have "m mod u \<le> n mod u" using assms(1) by (simp add: minus_div_mult_eq_mod [symmetric])
  then show ?thesis using True by (auto simp: round_even_def Let_def)
next
  case False
  then have "Suc (m div u) \<le> n div u" using div_le_mono [OF assms(1), of u] by linarith
  then show ?thesis using round_even_bounds [OF assms(2)] by (meson le_trans)
qed

lemma round_even_exact: "u > 0 \<Longrightarrow> round_even (k * u) u = k"
  by (simp add: round_even_def)

lemma below_floorlog: "n < 2 ^ floorlog 2 n"
  by (simp add: floorlog_leD)

lemma float64_nat_le_pow: "float64_nat n \<le> 2 ^ floorlog 2 n"
proof (cases "floorlog 2 n \<le> 53")
  case True
  then show ?thesis using below_floorlog [of n] by (simp add: float64_nat_def round_even_def)
next
  case False
  define u :: nat where "u = 2 ^ (floorlog 2 n - 53)"
  have "floorlog 2 n = 53 + (floorlog 2 n - 53)" using False by simp
  then have p: "(2::nat) ^ floorlog 2 n = 2 ^ 53 * u" unfolding u_def by (metis power_add)
  then have "n \<le> 2 ^ 53 * u" using below_floorlog [of n] by simp
  then have "round_even n u \<le> 2 ^ 53"
    using round_even_mono [of n "2 ^ 53 * u" u] round_even_exact [of u "2 ^ 53"] by (simp add: u_def)
  then show ?thesis unfolding p by (simp add: float64_nat_def u_def [symmetric] Let_def)
qed

lemma float64_nat_ge_pow:
  assumes "n > 0"
  shows "2 ^ (floorlog 2 n - 1) \<le> float64_nat n"
proof -
  define u :: nat where "u = 2 ^ (floorlog 2 n - 53)"
  define k where "k = floorlog 2 n - 1 - (floorlog 2 n - 53)"
  have p: "(2::nat) ^ (floorlog 2 n - 1) = 2 ^ k * u" by (simp add: u_def k_def flip: power_add)
  then have "2 ^ k * u \<le> n" using floorlog_bounds [OF assms, of 2] by simp
  then have "2 ^ k \<le> round_even n u"
    using round_even_mono [of "2 ^ k * u" n u] round_even_exact [of u "2 ^ k"] by (simp add: u_def)
  then show ?thesis unfolding p by (simp add: float64_nat_def u_def [symmetric] Let_def)
qed

lemma float64_nat_mono:
  assumes "m \<le> n"
  shows "float64_nat m \<le> float64_nat n"
proof (cases "floorlog 2 m = floorlog 2 n")
  case True
  then show ?thesis using assms round_even_mono by (simp add: float64_nat_def Let_def)
next
  case False
  then have lt: "floorlog 2 m < floorlog 2 n" using floorlog_mono [OF assms, of 2] by simp
  then have "n > 0" by (cases "n = 0") (auto simp: floorlog_def)
  have "float64_nat m \<le> 2 ^ floorlog 2 m" by (rule float64_nat_le_pow)
  also have "\<dots> \<le> 2 ^ (floorlog 2 n - 1)" using lt by (intro power_increasing) auto
  also have "\<dots> \<le> float64_nat n" using float64_nat_ge_pow [OF \<open>n > 0\<close>] .
  finally show ?thesis .
qed

lemma float64_nat_pow: "float64_nat (2 ^ a) = 2 ^ a"
proof -
  have "floorlog 2 (2 ^ a) = Suc a"
    using floorlog_power [of 1 2 a] by (simp add: floorlog_def)
  moreover have "(2::nat) ^ a = 2 ^ (a - (Suc a - 53)) * 2 ^ (Suc a - 53)" by (simp flip: power_add)
  ultimately show ?thesis
    using round_even_exact [of "2 ^ (Suc a - 53)" "2 ^ (a - (Suc a - 53))"]
    by (simp add: float64_nat_def Let_def)
qed

lemma float64_mono: "m \<le> n \<Longrightarrow> float64 m \<le> float64 n"
  using float64_nat_mono [of "nat m" "nat n"] float64_nat_mono [of "nat (- n)" "nat (- m)"]
  by (auto simp: float64_def)

lemma float64_small: "\<bar>n\<bar> < 2 ^ 53 \<Longrightarrow> float64 n = n"
proof -
  have "float64_nat k = k" if "k < 2 ^ 53" for k
  proof -
    have "floorlog 2 k \<le> 53" using that by (simp add: floorlog_le_iff)
    then show ?thesis by (simp add: float64_nat_def round_even_def)
  qed
  moreover assume "\<bar>n\<bar> < 2 ^ 53"
  then have "nat n < 2 ^ 53" "nat (- n) < 2 ^ 53" by auto
  ultimately show ?thesis by (simp add: float64_def)
qed

section \<open>Stored values\<close>

text \<open>The values a program can hold: machine integers are in range.\<close>

fun go_value :: "val \<Rightarrow> bool" where
  "go_value (VInt n) = in_int64 n"
| "go_value (VInt32 n) = (- (2 ^ 31) \<le> n \<and> n < 2 ^ 31)"
| "go_value (VInt64 n) = in_int64 n"
| "go_value (VUint64 n) = (0 \<le> n \<and> n < 2 ^ 64)"
| "go_value (VList vs) = list_all go_value vs"
| "go_value (VMap m) = list_all (\<lambda>(k, v). go_value v) m"
| "go_value (VMaps ms) = list_all (list_all (\<lambda>(k, v). go_value v)) ms"
| "go_value _ = True"

text \<open>The values \<^verbatim>\<open>unmarshalJSON\<close> produces.\<close>

fun json_value :: "val \<Rightarrow> bool" where
  "json_value (VInt n) = in_int64 n"
| "json_value (VFloat q) = (convertJSONNumber q = VFloat q)"
| "json_value (VList vs) = list_all json_value vs"
| "json_value (VMap m) = list_all (\<lambda>(k, v). json_value v) m"
| "json_value v = (v = VNil \<or> (\<exists>b. v = VBool b) \<or> (\<exists>s. v = VStr s))"

lemma to_json_fixed: "json_value v \<Longrightarrow> to_json v = v"
proof (induction v rule: json_value.induct)
  case (3 vs)
  then show ?case by (auto simp: list_all_iff intro!: map_idI)
next
  case (4 m)
  then show ?case by (fastforce simp: list_all_iff intro!: map_idI)
qed (auto simp: int_literal_def)

lemma convertJSONNumber_value: "json_value (convertJSONNumber q)"
  by (auto simp: convertJSONNumber_def split: prod.split)

lemma int_literal_value: "- (2 ^ 63) \<le> n \<Longrightarrow> json_value (int_literal n)"
proof -
  assume n: "- (2 ^ 63) \<le> n"
  have "\<not> in_int64 (float64 n)" if "2 ^ 63 \<le> n"
  proof -
    have "float64 (2 ^ 63) = 2 ^ 63" using float64_nat_pow [of 63] by (simp add: float64_def)
    then show ?thesis using float64_mono [OF that] by (simp add: in_int64_def)
  qed
  then show ?thesis
    using n by (cases "n < 2 ^ 63") (auto simp: int_literal_def in_int64_def convertJSONNumber_def)
qed

lemma to_json_value: "go_value v \<Longrightarrow> json_value (to_json v)"
proof (induction v rule: to_json.induct)
  case (7 m)
  then show ?case by (fastforce simp: list_all_iff)
next
  case (8 ms)
  then show ?case by (fastforce simp: list_all_iff)
qed (auto simp: list_all_iff in_int64_def int_literal_value convertJSONNumber_value)

text \<open>
  C36: whatever value is stored, what a read of the blob returns has one of the seven JSON types, and
  storing it again changes nothing more. Values that are already of those types come back as they
  were.
\<close>

theorem json_round_trip:
  assumes "go_value v"
  shows "json_value (to_json v) \<and> to_json (to_json v) = to_json v \<and> (json_value v \<longrightarrow> to_json v = v)"
  using to_json_value [OF assms] to_json_fixed by blast

theorem json_round_trip_witness:
  "json_value (to_json (VList [VFloat 2, VStrs [''a''], VUint64 (2 ^ 64 - 1)]))
   \<and> to_json (VList [VFloat 2, VStrs [''a'']]) = VList [VInt 2, VList [VStr ''a'']]"
proof -
  have "go_value (VList [VFloat 2, VStrs [''a''], VUint64 (2 ^ 64 - 1)])" by simp
  from json_round_trip [OF this] show ?thesis
    by (simp add: convertJSONNumber_def in_int64_def quotient_of_number)
qed

section \<open>Transactions\<close>

text \<open>No other client is active.\<close>

definition quiet :: rivals where
  "quiet n rd = (False, rd)"

text \<open>What one atomic execution of the transaction does.\<close>

definition atomic_tx ::
  "uuid \<Rightarrow> (redis \<Rightarrow> saga_run \<Rightarrow> 'c \<Rightarrow> mutation \<times> 'c) \<Rightarrow> 'c \<Rightarrow> redis \<Rightarrow> gerr option \<times> 'c \<times> redis" where
  "atomic_tx i mutate c rd =
     (case map_of (k_run rd) i of
        None \<Rightarrow> (Some (ErrNotFound ''saga_run'' i), c, rd)
      | Some r \<Rightarrow>
          (case mutate rd r c of
             (Abort, c') \<Rightarrow> (None, c', rd)
           | (Failed err, c') \<Rightarrow> (Some err, c', rd)
           | (Write r' cmds, c') \<Rightarrow> (None, c', set_run i r' (cmds rd))))"

lemma txRun_quiet: "txRun quiet i mutate c rd = atomic_tx i mutate c rd"
  by (simp add: txRun_def txMaxRetries_def atomic_tx_def quiet_def eval_nat_numeral
      split: option.split prod.split mutation.split)

text \<open>The state in which the \<open>n\<close>-th attempt starts.\<close>

primrec attempt_state :: "rivals \<Rightarrow> redis \<Rightarrow> nat \<Rightarrow> redis" where
  "attempt_state rv rd 0 = rd"
| "attempt_state rv rd (Suc n) = snd (rv n (attempt_state rv rd n))"

text \<open>\<^verbatim>\<open>WATCH\<close>: unless \<^verbatim>\<open>EXEC\<close> is refused, the watched run is as it was read.\<close>

definition watches_run :: "rivals \<Rightarrow> uuid \<Rightarrow> bool" where
  "watches_run rv i \<longleftrightarrow>
     (\<forall>n rd. \<not> fst (rv n rd) \<longrightarrow> map_of (k_run (snd (rv n rd))) i = map_of (k_run rd) i)"

lemma tx_loop_linearizes:
  assumes "watches_run rv i"
  shows "\<exists>k \<le> n + left. tx_loop rv i (\<lambda>_ r c. (m r, c)) n left () (attempt_state rv rd n)
      = atomic_tx i (\<lambda>_ r c. (m r, c)) () (attempt_state rv rd k)
    \<or> tx_loop rv i (\<lambda>_ r c. (m r, c)) n left () (attempt_state rv rd n)
      = (Some (Errorf ''redis: tx retry budget exhausted for run %s'' [AStr i]), (), attempt_state rv rd (n + left))"
proof (induction left arbitrary: n)
  case (Suc left)
  let ?s = "attempt_state rv rd n"
  show ?case
  proof (cases "\<exists>r r' cmds. map_of (k_run ?s) i = Some r \<and> m r = Write r' cmds")
    case False
    then have "tx_loop rv i (\<lambda>_ r c. (m r, c)) n (Suc left) () ?s = atomic_tx i (\<lambda>_ r c. (m r, c)) () ?s"
      by (auto simp: atomic_tx_def split: option.split mutation.split)
    then show ?thesis by (intro exI [of _ n]) simp
  next
    case True
    then obtain r r' cmds where r: "map_of (k_run ?s) i = Some r" "m r = Write r' cmds" by blast
    obtain b s' where s': "rv n ?s = (b, s')" by fastforce
    then have nxt: "attempt_state rv rd (Suc n) = s'" by simp
    show ?thesis
    proof (cases b)
      case False
      then have "map_of (k_run s') i = Some r"
        using assms s' r unfolding watches_run_def by (metis fst_conv snd_conv)
      then have "tx_loop rv i (\<lambda>_ r c. (m r, c)) n (Suc left) () ?s = atomic_tx i (\<lambda>_ r c. (m r, c)) () s'"
        using r s' False by (simp add: atomic_tx_def)
      then show ?thesis using nxt by (intro exI [of _ "Suc n"]) simp
    next
      case True
      then show ?thesis using Suc.IH [of "Suc n"] r s' nxt by simp
    qed
  qed
qed auto

text \<open>
  C14: optimistic transactions are atomic. Whatever other clients do between the reads and the writes,
  a run update of the Redis store (one that decides from the run alone) has the effect and the result of
  running it alone at one moment between their actions, on all keys, or it
  gives up after fifty conflicts and has then written nothing.
\<close>

theorem txRun_atomic:
  assumes "watches_run rv i"
  shows "(\<exists>k \<le> txMaxRetries. txSimple rv i m rd = txSimple quiet i m (attempt_state rv rd k))
    \<or> txSimple rv i m rd = (Some (Errorf ''redis: tx retry budget exhausted for run %s'' [AStr i]),
        attempt_state rv rd txMaxRetries)"
  using tx_loop_linearizes [OF assms, of 0 txMaxRetries m rd]
  by (auto simp: txSimple_def txRun_quiet) (auto simp: txRun_def)

text \<open>A rival that renames the run's step in the first attempt only.\<close>

definition one_conflict :: rivals where
  "one_conflict n rd = (if n = 0 then (True, set_run ''r1'' (sample_run ''r1'') rd) else (False, rd))"

theorem txRun_atomic_witness:
  "(\<exists>k \<le> txMaxRetries. redis_UpdateRunState 0 one_conflict ''r1'' RunStateFailed ''a'' redis_empty
      = redis_UpdateRunState 0 quiet ''r1'' RunStateFailed ''a'' (attempt_state one_conflict redis_empty k))
   \<or> redis_UpdateRunState 0 one_conflict ''r1'' RunStateFailed ''a'' redis_empty
      = (Some (Errorf ''redis: tx retry budget exhausted for run %s'' [AStr ''r1'']),
         attempt_state one_conflict redis_empty txMaxRetries)"
  unfolding redis_UpdateRunState_def
  by (rule txRun_atomic) (simp add: watches_run_def one_conflict_def)

lemma txSimple_quiet:
  "txSimple quiet i m rd =
     (case map_of (k_run rd) i of
        None \<Rightarrow> (Some (ErrNotFound ''saga_run'' i), rd)
      | Some r \<Rightarrow>
          (case m r of
             Abort \<Rightarrow> (None, rd)
           | Failed err \<Rightarrow> (Some err, rd)
           | Write r' cmds \<Rightarrow> (None, set_run i r' (cmds rd))))"
  by (simp add: txSimple_def txRun_quiet atomic_tx_def split: option.split mutation.split)

section \<open>Closures across attempts\<close>

text \<open>
  C35: a signal can be claimed twice. The closure of \<^verbatim>\<open>TryConsumeAwaitedSignal\<close> sets \<^verbatim>\<open>consumed\<close>
  before its transaction commits and never resets it, so a caller whose first attempt loses
  the race against another consumer of the same signal still reports that it consumed
  it: both callers get true.
\<close>

theorem redis_signal_claimed_twice:
  assumes "map_of (k_run rd) i = Some r" and "run_state r = RunStatePaused"
    and "run_awaited_signal r = Some name"
    and "rv 0 rd = (True, snd (redis_TryConsumeAwaitedSignal quiet now' i name rd))"
  shows "fst (redis_TryConsumeAwaitedSignal quiet now' i name rd) = Inr True
    \<and> redis_TryConsumeAwaitedSignal rv now i name rd
        = (Inr True, snd (redis_TryConsumeAwaitedSignal quiet now' i name rd))"
proof -
  define rd1 where "rd1 = snd (redis_TryConsumeAwaitedSignal quiet now' i name rd)"
  have q: "fst (redis_TryConsumeAwaitedSignal quiet now' i name rd) = Inr True"
    "map_of (k_run rd1) i = Some (json_run (clear_awaits r))"
    using assms(1-3)
    by (simp_all add: rd1_def redis_TryConsumeAwaitedSignal_def txRun_quiet atomic_tx_def consume_mutation_def
        set_run_def Let_def)
  have "txRun rv i (consume_mutation now i name) False rd = (None, True, rd1)"
    using assms q(2)
    by (simp add: txRun_def txMaxRetries_def eval_nat_numeral consume_mutation_def Let_def rd1_def [symmetric]
        clear_awaits_def json_run_def)
  then show ?thesis using q(1) by (simp add: redis_TryConsumeAwaitedSignal_def rd1_def)
qed

definition waiting_redis :: redis where
  "waiting_redis = redis_empty\<lparr>k_run :=
     [(''r1'', (sample_run ''r1'')\<lparr>run_state := RunStatePaused, run_awaited_signal := Some ''go''\<rparr>)]\<rparr>"

theorem redis_signal_claimed_twice_witness:
  "fst (redis_TryConsumeAwaitedSignal
      (\<lambda>n rd. if n = 0 then (True, snd (redis_TryConsumeAwaitedSignal quiet 7 ''r1'' ''go'' rd)) else (False, rd))
      8 ''r1'' ''go'' waiting_redis) = Inr True"
  by (subst redis_signal_claimed_twice
      [where now' = 7 and r = "(sample_run ''r1'')\<lparr>run_state := RunStatePaused, run_awaited_signal := Some ''go''\<rparr>"])
    (simp_all add: waiting_redis_def)

text \<open>
  A failure report for another attempt leaves the run alone but, unlike the in-memory store, is logged: an event of
  no step and no action is appended.
\<close>

theorem redis_FailAction_late:
  assumes "map_of (k_run rd) i = Some r" and "run_current_attempt r \<noteq> a"
  shows "\<exists>evt. redis_FailAction ttl quiet now evid i a code msg retr rd = (None, redis_AppendEvent evt rd)
    \<and> ev_type evt = EventStepFailed \<and> ev_step_id evt = [] \<and> ev_run_id evt = i"
  using assms
  apply (simp add: redis_FailAction_def txRun_quiet atomic_tx_def fail_mutation_def NewEvent_def)
  apply (rule exI, rule conjI, rule refl, simp)
  done

end
