(* ===== verification/Store_Trace.thy ===== *)
theory Store_Trace
  imports Store_Properties
begin

text \<open>
  Stores side by side: simulations between two state machines, and the language of calls a caller
  makes of any store, played on the in-memory one. Both other stores are compared with it by
  playing the same calls on both sides.
\<close>

section \<open>Simulations\<close>

text \<open>
  \<open>step\<close>: a call the abstract side allows gives the same answer on both sides and keeps them
  related.
\<close>

locale simulation =
  fixes rel :: "'c \<Rightarrow> 'a \<Rightarrow> bool"
    and cdo :: "'op \<Rightarrow> 'c \<Rightarrow> 'r \<times> 'c"
    and ado :: "'op \<Rightarrow> 'a \<Rightarrow> 'r \<times> 'a"
    and allowed :: "'op \<Rightarrow> 'a \<Rightarrow> bool"
  assumes step: "rel c a \<Longrightarrow> allowed op a \<Longrightarrow>
      fst (cdo op c) = fst (ado op a) \<and> rel (snd (cdo op c)) (snd (ado op a))"

primrec play :: "('op \<Rightarrow> 's \<Rightarrow> 'r \<times> 's) \<Rightarrow> 'op list \<Rightarrow> 's \<Rightarrow> 'r list \<times> 's" where
  "play f [] s = ([], s)"
| "play f (x # xs) s =
     (case f x s of (r, s1) \<Rightarrow> case play f xs s1 of (rs, s2) \<Rightarrow> (r # rs, s2))"

primrec all_allowed :: "('op \<Rightarrow> 's \<Rightarrow> bool) \<Rightarrow> ('op \<Rightarrow> 's \<Rightarrow> 'r \<times> 's) \<Rightarrow> 'op list \<Rightarrow> 's \<Rightarrow> bool" where
  "all_allowed ok f [] s = True"
| "all_allowed ok f (x # xs) s = (ok x s \<and> all_allowed ok f xs (snd (f x s)))"

context simulation
begin

lemma traces:
  assumes "rel c a" and "all_allowed allowed ado ops a"
  shows "fst (play cdo ops c) = fst (play ado ops a) \<and> rel (snd (play cdo ops c)) (snd (play ado ops a))"
  using assms
proof (induction ops arbitrary: c a)
  case (Cons op ops)
  then show ?case using step [of c a op] by (auto simp: split_beta)
qed simp

end

section \<open>The calls\<close>

datatype store_op =
    PutDef uuid workflow_definition
  | PutRun saga_run
  | SetState uuid run_state string
  | PutEvent saga_run_event
  | CancelRun gotime uuid uuid string
  | FailRun gotime uuid string string
  | MergeVars uuid gomap
  | PauseUntil uuid gotime
  | PauseSignal uuid string "gotime option"
  | PauseEvent uuid string "(string \<times> string) list" "gotime option"
  | Unpause uuid
  | WakeRun uuid
  | Consume gotime uuid string
  | PutSignal saga_signal
  | Spawn uuid uuid gotime uuid string string workflow_definition gomap string
  | PushFrame uuid try_catch_frame
  | PopFrame uuid
  | PutTask user_task
  | SubmitTask gotime uuid string gomap
  | AwaitAction uuid string int
  | FinishAction gotime uuid int gomap
  | PutTrigger uuid gotime saga_trigger
  | DropTrigger uuid

datatype op_result = Ok | Fails gerr | Claimed bool | Popped "try_catch_frame option" | Made uuid

definition of_sum :: "'s \<Rightarrow> gerr + 's \<Rightarrow> op_result \<times> 's" where
  "of_sum s r = (case r of Inl e \<Rightarrow> (Fails e, s) | Inr s' \<Rightarrow> (Ok, s'))"

definition of_opt :: "gerr option \<times> 's \<Rightarrow> op_result \<times> 's" where
  "of_opt r = ((case fst r of None \<Rightarrow> Ok | Some e \<Rightarrow> Fails e), snd r)"

fun mem_do :: "store_op \<Rightarrow> mem_store \<Rightarrow> op_result \<times> mem_store" where
  "mem_do (PutDef i d) s = (Made i, UpsertWorkflowDefinition i d s)"
| "mem_do (PutRun r) s = (Ok, CreateRun r s)"
| "mem_do (SetState i state cur) s = of_sum s (UpdateRunState i state cur s)"
| "mem_do (PutEvent e) s = (Ok, AppendEvent e s)"
| "mem_do (CancelRun now evid i reason) s = of_sum s (Cancel now evid i reason s)"
| "mem_do (FailRun now i cur msg) s = of_sum s (MarkRunFailed now i cur msg s)"
| "mem_do (MergeVars i m) s = of_sum s (UpdateRunVariables i m s)"
| "mem_do (PauseUntil i t) s = of_sum s (SetPausedWithWakeup i t s)"
| "mem_do (PauseSignal i n d) s = of_sum s (SetPausedAwaitingSignal i n d s)"
| "mem_do (PauseEvent i n h d) s = of_sum s (SetPausedAwaitingEventWithDeadline i n h d s)"
| "mem_do (Unpause i) s = of_sum s (ClearPause i s)"
| "mem_do (WakeRun i) s = of_sum s (WakeFromExternal i s)"
| "mem_do (Consume now i n) s =
     (case TryConsumeAwaitedSignal now i n s of (b, s') \<Rightarrow> (Claimed b, s'))"
| "mem_do (PutSignal g) s = (Ok, AppendSignal g s)"
| "mem_do (Spawn di ci now p ps b d inp start) s = (Made ci, SpawnChildRunAt di ci now p ps b d inp start s)"
| "mem_do (PushFrame i f) s = of_sum s (PushTryCatch i f s)"
| "mem_do (PopFrame i) s =
     (case PopTryCatch i s of Inl e \<Rightarrow> (Fails e, s) | Inr (f, s') \<Rightarrow> (Popped f, s'))"
| "mem_do (PutTask t) s = (Ok, CreateUserTask t s)"
| "mem_do (SubmitTask now i who res) s = of_sum s (SubmitUserTask now i who res s)"
| "mem_do (AwaitAction i d a) s = of_sum s (MarkAwaitingAction i d a s)"
| "mem_do (FinishAction now i a m) s = of_sum s (CompleteAction now i a m s)"
| "mem_do (PutTrigger f now t) s = (case UpsertTrigger f now t s of (i, s') \<Rightarrow> (Made i, s'))"
| "mem_do (DropTrigger i) s = of_sum s (DeleteTrigger i s)"

text \<open>A run that can still be resumed.\<close>

definition live :: "run_state \<Rightarrow> bool" where
  "live s \<longleftrightarrow> s = RunStatePending \<or> s = RunStateRunning \<or> s = RunStatePaused"

definition live_run :: "mem_store \<Rightarrow> uuid \<Rightarrow> bool" where
  "live_run s i = (case map_of (runs s) i of None \<Rightarrow> True | Some r \<Rightarrow> live (run_state r))"

end
