(* ===== verification/Redis_Refinement.thy ===== *)
theory Redis_Refinement
  imports Redis_Properties Store_Trace
begin

text \<open>
  The Redis store refines the in-memory one. Both are driven by the same sequence of method calls; the
  relation between their states says that the blobs are the in-memory rows and that the
  index keys list what a scan of those rows would find.
\<close>

section \<open>The calls\<close>

fun redis_do :: "duration \<Rightarrow> store_op \<Rightarrow> redis \<Rightarrow> op_result \<times> redis" where
  "redis_do ttl (PutDef i d) s = (Made i, redis_UpsertWorkflowDefinition i d s)"
| "redis_do ttl (PutRun r) s = (Ok, redis_CreateRun r s)"
| "redis_do ttl (SetState i state cur) s = of_opt (redis_UpdateRunState ttl quiet i state cur s)"
| "redis_do ttl (PutEvent e) s = (Ok, redis_AppendEvent e s)"
| "redis_do ttl (CancelRun now evid i reason) s = of_opt (redis_Cancel ttl quiet now evid i reason s)"
| "redis_do ttl (FailRun now i cur msg) s = of_opt (redis_MarkRunFailed ttl quiet now i cur msg s)"
| "redis_do ttl (MergeVars i m) s = of_opt (redis_UpdateRunVariables quiet i m s)"
| "redis_do ttl (PauseUntil i t) s = of_opt (redis_SetPausedWithWakeup quiet i t s)"
| "redis_do ttl (PauseSignal i n d) s = of_opt (redis_SetPausedAwaitingSignal quiet i n d s)"
| "redis_do ttl (PauseEvent i n h d) s = of_opt (redis_SetPausedAwaitingEventWithDeadline quiet i n h d s)"
| "redis_do ttl (Unpause i) s = of_opt (redis_ClearPause quiet i s)"
| "redis_do ttl (WakeRun i) s = of_opt (redis_WakeFromExternal quiet i s)"
| "redis_do ttl (Consume now i n) s =
     (case redis_TryConsumeAwaitedSignal quiet now i n s of
        (Inl e, s') \<Rightarrow> (Fails e, s') | (Inr b, s') \<Rightarrow> (Claimed b, s'))"
| "redis_do ttl (PutSignal g) s = (Ok, redis_AppendSignal g s)"
| "redis_do ttl (Spawn di ci now p ps b d inp start) s =
     (case redis_SpawnChildRunAt quiet di ci now p ps b d inp start s of
        (Inl e, s') \<Rightarrow> (Fails e, s') | (Inr i, s') \<Rightarrow> (Made i, s'))"
| "redis_do ttl (PushFrame i f) s = of_opt (redis_PushTryCatch quiet i f s)"
| "redis_do ttl (PopFrame i) s =
     (case redis_PopTryCatch quiet i s of
        (Inl e, s') \<Rightarrow> (Fails e, s') | (Inr f, s') \<Rightarrow> (Popped f, s'))"
| "redis_do ttl (PutTask t) s = (Ok, redis_CreateUserTask t s)"
| "redis_do ttl (SubmitTask now i who res) s = of_opt (redis_SubmitUserTask now i who res s)"
| "redis_do ttl (AwaitAction i d a) s = of_opt (redis_MarkAwaitingAction quiet i d a s)"
| "redis_do ttl (FinishAction now i a m) s = of_opt (redis_CompleteAction quiet now i a m s)"
| "redis_do ttl (PutTrigger f now t) s = (case redis_UpsertTrigger f now t s of (i, s') \<Rightarrow> (Made i, s'))"
| "redis_do ttl (DropTrigger i) s = of_opt (redis_DeleteTrigger i s)"

section \<open>What the callers keep to\<close>

definition json_stable :: "gomap \<Rightarrow> bool" where
  "json_stable m \<longleftrightarrow> json_map m = m"

text \<open>
  Identifiers that are drawn are fresh, values are JSON values, a run that has ended or is being
  rolled back is not made runnable or paused again, and a created run has no marker and no parent yet.
\<close>

fun allowed_op :: "store_op \<Rightarrow> mem_store \<Rightarrow> bool" where
  "allowed_op (PutDef i d) s = (json_def d = d)"
| "allowed_op (PutRun r) s =
     (map_of (runs s) (run_id r) = None \<and> json_run r = r \<and> run_wakeup_at r = None
      \<and> run_awaited_event_topic r = None \<and> run_parent_run_id r = None)"
| "allowed_op (SetState i state cur) s = (live state \<longrightarrow> live_run s i)"
| "allowed_op (PutEvent e) s = (json_event e = e)"
| "allowed_op (MergeVars i m) s = json_stable m"
| "allowed_op (PauseUntil i t) s = live_run s i"
| "allowed_op (PauseSignal i n d) s = live_run s i"
| "allowed_op (PauseEvent i n h d) s = live_run s i"
| "allowed_op (Consume now i n) s = (map_of (runs s) i \<noteq> None)"
| "allowed_op (PutSignal g) s = (json_stable (sig_payload g) \<and> json_map (std_map (sig_payload g)) = sig_payload g)"
| "allowed_op (Spawn di ci now p ps b d inp start) s =
     (map_of (runs s) ci = None \<and> json_def d = d \<and> json_stable inp)"
| "allowed_op (PutTask t) s = (map_of (userTasks s) (task_id t) = None \<and> json_task t = t)"
| "allowed_op (SubmitTask now i who res) s = json_stable res"
| "allowed_op (AwaitAction i d a) s = live_run s i"
| "allowed_op (FinishAction now i a m) s = json_stable m"
| "allowed_op (PutTrigger f now t) s = (json_trigger t = t)"
| "allowed_op _ s = True"

section \<open>The relation\<close>

definition waits_indexed :: "uuid \<Rightarrow> saga_run \<Rightarrow> redis \<Rightarrow> bool" where
  "waits_indexed i r rd \<longleftrightarrow> live (run_state r) \<longrightarrow>
     (\<forall>t. run_wakeup_at r = Some t \<longrightarrow> map_of (k_wakeup rd) i = Some (float64 t)) \<and>
     (\<forall>topic. run_awaited_event_topic r = Some topic \<longrightarrow> i \<in> set (at_key (k_awaitevent rd) topic))"

definition runs_rel :: "redis \<Rightarrow> mem_store \<Rightarrow> bool" where
  "runs_rel rd s \<longleftrightarrow> keys_distinct (runs s) \<and> (\<forall>i. map_of (k_run rd) i = map_of (runs s) i) \<and>
     (\<forall>i r. map_of (runs s) i = Some r \<longrightarrow> json_run r = r \<and> waits_indexed i r rd) \<and>
     (\<forall>i p ps. i \<in> set (at_key (k_children rd) (p, ps)) \<longleftrightarrow>
        (\<exists>r. map_of (runs s) i = Some r \<and> run_parent_run_id r = Some p \<and> run_parent_step_id r = Some ps)) \<and>
     (\<forall>i wid. i \<in> set (at_key (k_byworkflow rd) wid) \<longleftrightarrow>
        (\<exists>r. map_of (runs s) i = Some r \<and> run_workflow_id r = wid))"

definition defs_rel :: "redis \<Rightarrow> mem_store \<Rightarrow> bool" where
  "defs_rel rd s \<longleftrightarrow> (\<forall>i. map_of (k_def rd) i = map_of (defs s) i) \<and>
     (\<forall>n. at_key (k_def_byname rd) n = at_key (defsByName s) n)"

definition logs_rel :: "redis \<Rightarrow> mem_store \<Rightarrow> bool" where
  "logs_rel rd s \<longleftrightarrow> (\<forall>i. at_key (k_events rd) i = at_key (events s) i) \<and>
     (\<forall>i. at_key (k_signals rd) i = at_key (signals s) i) \<and>
     (\<forall>i. \<forall>g \<in> set (at_key (signals s) i). json_signal (std_signal g) = g)"

definition tasks_rel :: "redis \<Rightarrow> mem_store \<Rightarrow> bool" where
  "tasks_rel rd s \<longleftrightarrow> (\<forall>i. map_of (k_usertask rd) i = map_of (userTasks s) i) \<and>
     (\<forall>i t. map_of (userTasks s) i = Some t \<longrightarrow> task_id t = i \<and> json_task t = t) \<and>
     (\<forall>i run. i \<in> set (at_key (k_tasks_byrun rd) run) \<longleftrightarrow>
        (\<exists>t. map_of (userTasks s) i = Some t \<and> task_run_id t = run))"

definition triggers_rel :: "redis \<Rightarrow> mem_store \<Rightarrow> bool" where
  "triggers_rel rd s \<longleftrightarrow> keys_distinct (triggers s) \<and> (\<forall>i. map_of (k_trigger rd) i = map_of (triggers s) i) \<and>
     (\<forall>i. i \<in> set (k_idx_triggers rd) \<longleftrightarrow> map_of (triggers s) i \<noteq> None)"

definition store_rel :: "redis \<Rightarrow> mem_store \<Rightarrow> bool" where
  "store_rel rd s \<longleftrightarrow> runs_rel rd s \<and> defs_rel rd s \<and> logs_rel rd s \<and> tasks_rel rd s \<and> triggers_rel rd s"

lemma empty_rel: "store_rel redis_empty New"
  by (simp add: store_rel_def runs_rel_def defs_rel_def logs_rel_def tasks_rel_def triggers_rel_def
      redis_empty_def New_def at_key_def)

section \<open>Writes to a run\<close>

lemma set_sadd [simp]: "set (sadd x xs) = insert x (set xs)"
  by (auto simp: sadd_def)

lemma at_key_index [simp]:
  "at_key (sadd_at k x m) j = (if j = k then sadd x (at_key m k) else at_key m j)"
  "at_key (srem_at k x m) j = (if j = k then removeAll x (at_key m k) else at_key m j)"
  "at_key (rpush_at k x m) j = (if j = k then at_key m k @ [x] else at_key m j)"
  by (simp_all add: sadd_at_def srem_at_def rpush_at_def at_key_update)

text \<open>Commands that only touch the index entries of the run \<open>i\<close>.\<close>

definition index_only :: "uuid \<Rightarrow> redis \<Rightarrow> redis \<Rightarrow> bool" where
  "index_only i rd rd' \<longleftrightarrow> (\<exists>wk ev ex. rd' = rd\<lparr>k_wakeup := wk, k_awaitevent := ev, k_expiring := ex\<rparr> \<and>
     (\<forall>j. j \<noteq> i \<longrightarrow> map_of wk j = map_of (k_wakeup rd) j) \<and>
     (\<forall>j topic. j \<noteq> i \<longrightarrow> j \<in> set (at_key ev topic) \<longleftrightarrow> j \<in> set (at_key (k_awaitevent rd) topic)))"

lemma index_onlyI:
  assumes "rd' = rd\<lparr>k_wakeup := wk, k_awaitevent := ev, k_expiring := ex\<rparr>"
    and "\<And>j. j \<noteq> i \<Longrightarrow> map_of wk j = map_of (k_wakeup rd) j"
    and "\<And>j topic. j \<noteq> i \<Longrightarrow> j \<in> set (at_key ev topic) \<longleftrightarrow> j \<in> set (at_key (k_awaitevent rd) topic)"
  shows "index_only i rd rd'"
  using assms unfolding index_only_def by blast

lemma redis_surj: "rd\<lparr>k_wakeup := k_wakeup rd, k_awaitevent := k_awaitevent rd, k_expiring := k_expiring rd\<rparr> = rd"
  by simp

lemma index_only_refl [simp]: "index_only i rd rd"
  by (rule index_onlyI [where wk = "k_wakeup rd" and ev = "k_awaitevent rd" and ex = "k_expiring rd"]) simp_all

lemma index_only_trans [trans]:
  assumes "index_only i a b" and "index_only i b c"
  shows "index_only i a c"
proof -
  obtain wk ev ex where b: "b = a\<lparr>k_wakeup := wk, k_awaitevent := ev, k_expiring := ex\<rparr>"
    "\<forall>j. j \<noteq> i \<longrightarrow> map_of wk j = map_of (k_wakeup a) j"
    "\<forall>j topic. j \<noteq> i \<longrightarrow> j \<in> set (at_key ev topic) \<longleftrightarrow> j \<in> set (at_key (k_awaitevent a) topic)"
    using assms(1) unfolding index_only_def by blast
  obtain wk' ev' ex' where c: "c = b\<lparr>k_wakeup := wk', k_awaitevent := ev', k_expiring := ex'\<rparr>"
    "\<forall>j. j \<noteq> i \<longrightarrow> map_of wk' j = map_of (k_wakeup b) j"
    "\<forall>j topic. j \<noteq> i \<longrightarrow> j \<in> set (at_key ev' topic) \<longleftrightarrow> j \<in> set (at_key (k_awaitevent b) topic)"
    using assms(2) unfolding index_only_def by blast
  show ?thesis
    by (rule index_onlyI [where wk = wk' and ev = ev' and ex = ex']) (use b c in simp_all)
qed

lemma index_only_wakeup [simp]: "index_only i rd (add_wakeup i t rd)"
  by (rule index_onlyI [where wk = "AList.update i (float64 t) (k_wakeup rd)" and ev = "k_awaitevent rd"
        and ex = "k_expiring rd"]) (simp_all add: add_wakeup_def)

lemma add_wakeup_fields [simp]:
  "k_wakeup (add_wakeup i t rd) = AList.update i (float64 t) (k_wakeup rd)"
  "k_awaitevent (add_wakeup i t rd) = k_awaitevent rd"
  by (simp_all add: add_wakeup_def)

lemma index_only_sadd [simp]: "index_only i rd (rd\<lparr>k_awaitevent := sadd_at topic i (k_awaitevent rd)\<rparr>)"
  by (rule index_onlyI [where wk = "k_wakeup rd" and ev = "sadd_at topic i (k_awaitevent rd)"
        and ex = "k_expiring rd"]) simp_all

lemma index_only_drop [simp]: "index_only i rd (drop_indexes i r rd)"
proof (cases "run_awaited_event_topic r")
  case None
  then show ?thesis
    by (intro index_onlyI [where wk = "AList.delete i (k_wakeup rd)" and ev = "k_awaitevent rd"
          and ex = "k_expiring rd"]) (simp_all add: drop_indexes_def)
next
  case (Some topic)
  then show ?thesis
    by (intro index_onlyI [where wk = "AList.delete i (k_wakeup rd)"
          and ev = "srem_at topic i (k_awaitevent rd)" and ex = "k_expiring rd"]) (simp_all add: drop_indexes_def Let_def)
qed

lemma index_only_ttl [simp]: "index_only i rd (applyTerminalTTL ttl i rd)"
  by (rule index_onlyI [where wk = "k_wakeup rd" and ev = "k_awaitevent rd"
        and ex = "k_expiring (applyTerminalTTL ttl i rd)"]) (simp_all add: applyTerminalTTL_def)

lemma index_only_terminal [simp]: "index_only i rd (applyTerminalTTL ttl i (drop_indexes i r rd))"
  using index_only_trans [OF index_only_drop index_only_ttl] .

lemma waits_frame:
  "index_only i rd rd' \<Longrightarrow> j \<noteq> i \<Longrightarrow> waits_indexed j r (set_run i x rd') = waits_indexed j r rd"
  by (auto simp: index_only_def waits_indexed_def set_run_def)

lemma waits_set_run [simp]: "waits_indexed j r (set_run i x rd) = waits_indexed j r rd"
  by (simp add: waits_indexed_def set_run_def)

lemma run_write_rel:
  assumes rel: "store_rel rd s" and r: "map_of (runs s) i = Some r"
    and ix: "index_only i rd rd'" and r': "json_run r' = r'" "waits_indexed i r' rd'"
    and ids: "run_parent_run_id r' = run_parent_run_id r" "run_parent_step_id r' = run_parent_step_id r"
      "run_workflow_id r' = run_workflow_id r"
  shows "store_rel (set_run i r' rd') (s\<lparr>runs := AList.update i r' (runs s)\<rparr>)"
proof -
  have w: "waits_indexed j x (set_run i r' rd')" if "map_of (AList.update i r' (runs s)) j = Some x" for j x
    using that rel r'(2) waits_frame [OF ix, of j x r']
    by (auto simp: store_rel_def runs_rel_def simp del: map_of_eq_Some_iff split: if_splits)
  have "runs_rel (set_run i r' rd') (s\<lparr>runs := AList.update i r' (runs s)\<rparr>)"
    using rel r r'(1) ids ix w
    by (auto simp: store_rel_def runs_rel_def index_only_def set_run_def simp del: map_of_eq_Some_iff
        split: if_splits)
  then show ?thesis
    using rel ix by (auto simp: store_rel_def defs_rel_def logs_rel_def tasks_rel_def triggers_rel_def
        index_only_def set_run_def)
qed

text \<open>The same for a whole method, on both sides.\<close>

lemma tx_write_step:
  assumes rel: "store_rel rd s"
    and m: "\<And>r. map_of (runs s) i = Some r \<Longrightarrow>
      m r = Abort \<and> f r = r \<or>
      (\<exists>cmds. m r = Write (f r) cmds \<and> index_only i rd (cmds rd) \<and> json_run (f r) = f r
        \<and> waits_indexed i (f r) (cmds rd) \<and> run_parent_run_id (f r) = run_parent_run_id r
        \<and> run_parent_step_id (f r) = run_parent_step_id r \<and> run_workflow_id (f r) = run_workflow_id r)"
  shows "fst (of_opt (txSimple quiet i m rd)) = fst (of_sum s (with_run i f s))
    \<and> store_rel (snd (of_opt (txSimple quiet i m rd))) (snd (of_sum s (with_run i f s)))"
proof (cases "map_of (runs s) i")
  case None
  then show ?thesis using rel
    by (simp add: txSimple_quiet with_run_def of_opt_def of_sum_def store_rel_def runs_rel_def)
next
  case (Some r)
  then have k: "map_of (k_run rd) i = Some r" using rel by (simp add: store_rel_def runs_rel_def)
  show ?thesis
  proof (cases "m r = Abort \<and> f r = r")
    case True
    have "AList.update i r (runs s) = runs s" using Some by (simp add: AList.update_triv)
    then show ?thesis using rel Some k True
      by (simp add: txSimple_quiet with_run_def of_opt_def of_sum_def)
  next
    case False
    then obtain cmds where c: "m r = Write (f r) cmds" "index_only i rd (cmds rd)" "json_run (f r) = f r"
        "waits_indexed i (f r) (cmds rd)" "run_parent_run_id (f r) = run_parent_run_id r"
        "run_parent_step_id (f r) = run_parent_step_id r" "run_workflow_id (f r) = run_workflow_id r"
      using m [OF Some] by blast
    then show ?thesis using run_write_rel [OF rel Some c(2-)] Some k
      by (simp add: txSimple_quiet with_run_def of_opt_def of_sum_def)
  qed
qed

section \<open>Stable values\<close>

lemma json_run_iff: "json_run r = r \<longleftrightarrow> json_stable (run_inputs r) \<and> json_stable (run_variables r)"
proof
  assume "json_run r = r"
  then have "run_inputs (json_run r) = run_inputs r" "run_variables (json_run r) = run_variables r" by simp_all
  then show "json_stable (run_inputs r) \<and> json_stable (run_variables r)" by (simp add: json_run_def json_stable_def)
next
  assume "json_stable (run_inputs r) \<and> json_stable (run_variables r)"
  then show "json_run r = r" by (simp add: json_run_def json_stable_def)
qed

lemma stable_iff: "json_stable m \<longleftrightarrow> (\<forall>(k, v) \<in> set m. to_json v = v)"
  by (induction m) (auto simp: json_stable_def json_map_def)

lemma stable_update: "json_stable m \<Longrightarrow> to_json v = v \<Longrightarrow> json_stable (AList.update k v m)"
  by (induction m) (auto simp: stable_iff)

lemma stable_get: "json_stable m \<Longrightarrow> map_of m k = Some v \<Longrightarrow> to_json v = v"
  by (force simp: stable_iff dest: map_of_SomeD)

lemma to_json_VMap_iff: "to_json (VMap m) = VMap m \<longleftrightarrow> json_stable m"
  by (simp add: json_stable_def json_map_def)

lemma stable_set_path:
  "json_stable t \<Longrightarrow> to_json v = v \<Longrightarrow> json_stable (set_path t ps v)"
proof (induction t ps v rule: set_path.induct)
  case (3 t p q ps v)
  have "json_stable (case map_of t p of Some (VMap m) \<Rightarrow> m | _ \<Rightarrow> [])"
    using stable_get [OF 3(2), of p]
    by (auto simp: json_stable_def json_map_def split: option.splits val.splits)
  then have "json_stable (set_path (case map_of t p of Some (VMap m) \<Rightarrow> m | _ \<Rightarrow> []) (q # ps) v)"
    using 3 by blast
  then show ?case using 3(2)
    by (simp add: Let_def stable_update to_json_VMap_iff del: to_json.simps)
qed (simp_all add: stable_update)

lemma stable_merge: "json_stable t \<Longrightarrow> json_stable m \<Longrightarrow> json_stable (merge_vars t m)"
  unfolding merge_vars_def
  by (induction m arbitrary: t)
    (auto simp: applyDottedKey_def stable_set_path stable_iff [of "_ # _"] stable_iff [symmetric])

lemma stable_put: "json_stable t \<Longrightarrow> json_stable m \<Longrightarrow> json_stable (put_vars t m)"
  unfolding put_vars_def
  by (induction m arbitrary: t)
    (auto simp: stable_update stable_iff [of "_ # _"] stable_iff [symmetric])

lemma redis_merge_eq: "redis_merge = merge_vars" "redis_put = put_vars"
  by (simp_all add: fun_eq_iff redis_merge_def merge_vars_def redis_put_def put_vars_def)

section \<open>Each call\<close>

lemma rel_run:
  assumes "store_rel rd s" and "map_of (runs s) i = Some r"
  shows "json_stable (run_inputs r)" "json_stable (run_variables r)" "waits_indexed i r rd" "map_of (k_run rd) i = Some r"
  using assms by (simp_all add: store_rel_def runs_rel_def json_run_iff)

lemma live_runD: "live_run s i \<Longrightarrow> map_of (runs s) i = Some r \<Longrightarrow> live (run_state r)"
  by (simp add: live_run_def)

lemma live_states [simp]:
  "live RunStatePaused" "live RunStateRunning" "live RunStatePending" "IsTerminal x \<Longrightarrow> \<not> live x"
  by (auto simp: live_def IsTerminal_iff)

lemmas tx_defs = redis_UpdateRunState_def redis_MarkRunFailed_def redis_UpdateRunVariables_def
  redis_SetPausedWithWakeup_def redis_SetPausedAwaitingSignal_def redis_SetPausedAwaitingEventWithDeadline_def
  redis_ClearPause_def redis_WakeFromExternal_def redis_MarkAwaitingAction_def redis_CompleteAction_def
  UpdateRunState_def MarkRunFailed_def UpdateRunVariables_def SetPausedWithWakeup_def
  SetPausedAwaitingSignal_def SetPausedAwaitingEventWithDeadline_def ClearPause_def WakeFromExternal_def
  MarkAwaitingAction_def CompleteAction_def

abbreviation agrees :: "duration \<Rightarrow> redis \<Rightarrow> mem_store \<Rightarrow> store_op \<Rightarrow> bool" where
  "agrees ttl rd s op \<equiv> fst (redis_do ttl op rd) = fst (mem_do op s)
     \<and> store_rel (snd (redis_do ttl op rd)) (snd (mem_do op s))"

lemma state_steps:
  assumes "store_rel rd s"
  shows "live state \<longrightarrow> live_run s i \<Longrightarrow> agrees ttl rd s (SetState i state cur)"
    and "agrees ttl rd s (FailRun now i cur msg)"
    and "json_stable m \<Longrightarrow> agrees ttl rd s (MergeVars i m)"
    and "agrees ttl rd s (Unpause i)" and "agrees ttl rd s (WakeRun i)"
    and "live_run s i \<Longrightarrow> agrees ttl rd s (AwaitAction i d a)"
    and "json_stable m \<Longrightarrow> agrees ttl rd s (FinishAction now i a m)"
proof -
  note run = rel_run [OF assms]
  show "agrees ttl rd s (SetState i state cur)" if "live state \<longrightarrow> live_run s i"
    unfolding redis_do.simps mem_do.simps tx_defs
    by (rule tx_write_step [OF assms])
      (use run that in \<open>auto simp: json_run_iff waits_indexed_def dest: live_runD\<close>)
  show "agrees ttl rd s (FailRun now i cur msg)"
    unfolding redis_do.simps mem_do.simps tx_defs
    by (rule tx_write_step [OF assms])
      (use run in \<open>auto simp: json_run_iff waits_indexed_def live_def\<close>)
  show "agrees ttl rd s (MergeVars i m)" if "json_stable m"
    unfolding redis_do.simps mem_do.simps tx_defs
    by (rule tx_write_step [OF assms])
      (use run that in \<open>auto simp: json_run_iff waits_indexed_def redis_merge_eq stable_merge\<close>)
  show "agrees ttl rd s (Unpause i)"
    unfolding redis_do.simps mem_do.simps tx_defs
    by (rule tx_write_step [OF assms])
      (use run in \<open>auto simp: json_run_iff waits_indexed_def\<close>)
  show "agrees ttl rd s (WakeRun i)"
    unfolding redis_do.simps mem_do.simps tx_defs
    by (rule tx_write_step [OF assms])
      (use run in \<open>auto simp: json_run_iff waits_indexed_def clear_awaits_def\<close>)
  show "agrees ttl rd s (AwaitAction i d a)" if "live_run s i"
    unfolding redis_do.simps mem_do.simps tx_defs
    by (rule tx_write_step [OF assms])
      (use run that in \<open>auto simp: json_run_iff waits_indexed_def dest: live_runD\<close>)
  show "agrees ttl rd s (FinishAction now i a m)" if "json_stable m"
    unfolding redis_do.simps mem_do.simps tx_defs
    by (rule tx_write_step [OF assms])
      (use run that in \<open>auto simp: json_run_iff waits_indexed_def redis_merge_eq stable_put\<close>)
qed

lemma pause_steps:
  assumes "store_rel rd s" and "live_run s i"
  shows "agrees ttl rd s (PauseUntil i t)" and "agrees ttl rd s (PauseSignal i n dl)"
    and "agrees ttl rd s (PauseEvent i n h dl)"
proof -
  note run = rel_run [OF assms(1)] live_runD [OF assms(2)]
  show "agrees ttl rd s (PauseUntil i t)"
    unfolding redis_do.simps mem_do.simps tx_defs
    by (rule tx_write_step [OF assms(1)])
      (use run in \<open>auto simp: json_run_iff waits_indexed_def\<close>)
  show "agrees ttl rd s (PauseSignal i n dl)"
    unfolding redis_do.simps mem_do.simps tx_defs
    by (rule tx_write_step [OF assms(1)])
      (use run in \<open>auto simp: json_run_iff waits_indexed_def split: option.splits\<close>)
  have "index_only i rd (add_wakeup i x (rd\<lparr>k_awaitevent := sadd_at n i (k_awaitevent rd)\<rparr>))" for x
    by (rule index_only_trans [OF index_only_sadd index_only_wakeup])
  then show "agrees ttl rd s (PauseEvent i n h dl)"
    unfolding redis_do.simps mem_do.simps tx_defs
    by (intro tx_write_step [OF assms(1)])
      (use run in \<open>auto simp: json_run_iff waits_indexed_def Let_def split: option.splits\<close>)
qed

lemmas rel_defs = store_rel_def runs_rel_def defs_rel_def logs_rel_def tasks_rel_def triggers_rel_def

lemma waits_cong:
  "k_wakeup rd' = k_wakeup rd \<Longrightarrow> k_awaitevent rd' = k_awaitevent rd \<Longrightarrow> waits_indexed i r rd' = waits_indexed i r rd"
  by (simp add: waits_indexed_def)

lemma create_steps:
  assumes "store_rel rd s"
  shows "allowed_op (PutDef i d) s \<Longrightarrow> agrees ttl rd s (PutDef i d)"
    and "allowed_op (PutEvent e) s \<Longrightarrow> agrees ttl rd s (PutEvent e)"
    and "allowed_op (PutSignal g) s \<Longrightarrow> agrees ttl rd s (PutSignal g)"
    and "allowed_op (PutTask t) s \<Longrightarrow> agrees ttl rd s (PutTask t)"
    and "allowed_op (SubmitTask now i who res) s \<Longrightarrow> agrees ttl rd s (SubmitTask now i who res)"
proof -
  show "agrees ttl rd s (PutDef i d)" if "allowed_op (PutDef i d) s"
    using assms that
    by (simp add: rel_defs redis_UpsertWorkflowDefinition_def UpsertWorkflowDefinition_def at_key_update
        waits_indexed_def del: map_of_eq_Some_iff)
  show "agrees ttl rd s (PutEvent e)" if "allowed_op (PutEvent e) s"
    using assms that
    by (simp add: rel_defs redis_AppendEvent_def AppendEvent_def at_key_update
        waits_indexed_def del: map_of_eq_Some_iff)
  show "agrees ttl rd s (PutSignal g)" if "allowed_op (PutSignal g) s"
    using assms that
    by (simp add: rel_defs redis_AppendSignal_def AppendSignal_def at_key_update json_signal_def std_signal_def
        json_stable_def waits_indexed_def del: map_of_eq_Some_iff)
  show "agrees ttl rd s (PutTask t)" if "allowed_op (PutTask t) s"
    using assms that
    by (auto simp: rel_defs redis_CreateUserTask_def CreateUserTask_def
        waits_indexed_def simp del: map_of_eq_Some_iff)
  show "agrees ttl rd s (SubmitTask now i who res)" if "allowed_op (SubmitTask now i who res) s"
  proof (cases "map_of (userTasks s) i")
    case None
    then show ?thesis using assms
      by (simp add: redis_SubmitUserTask_def SubmitUserTask_def of_opt_def of_sum_def rel_defs)
  next
    case (Some t)
    define t' where "t' = t\<lparr>task_submitted_at := Some now, task_submitted_by := who, task_result := res\<rparr>"
    have "json_task t = t" "task_id t = i" "map_of (k_usertask rd) i = Some t"
      using assms Some by (simp_all add: rel_defs)
    moreover have "json_map (task_form_schema t) = task_form_schema t"
      using arg_cong [OF \<open>json_task t = t\<close>, of task_form_schema] by (simp add: json_task_def)
    ultimately have t': "json_task t' = t'" "task_id t' = i" "task_run_id t' = task_run_id t"
      using that by (simp_all add: t'_def json_task_def json_stable_def)
    show ?thesis using assms Some t'
      by (auto simp: redis_SubmitUserTask_def SubmitUserTask_def of_opt_def of_sum_def rel_defs t'_def [symmetric]
          waits_indexed_def simp del: map_of_eq_Some_iff)
  qed
qed

lemma trigger_steps:
  assumes "store_rel rd s"
  shows "allowed_op (PutTrigger f now t) s \<Longrightarrow> agrees ttl rd s (PutTrigger f now t)"
    and "agrees ttl rd s (DropTrigger i)"
proof -
  show "agrees ttl rd s (PutTrigger f now t)" if "allowed_op (PutTrigger f now t) s"
  proof -
    have "trig_config (json_trigger t) = trig_config t" using that by simp
    then have "json_map (trig_config t) = trig_config t" by (simp add: json_trigger_def)
    then show ?thesis using assms
      by (auto simp: rel_defs redis_UpsertTrigger_def UpsertTrigger_def Let_def json_trigger_def
          waits_indexed_def simp del: map_of_eq_Some_iff)
  qed
  show "agrees ttl rd s (DropTrigger i)"
    using assms
    by (auto simp: rel_defs redis_DeleteTrigger_def DeleteTrigger_def of_opt_def of_sum_def AList.distinct_delete
        waits_indexed_def simp del: map_of_eq_Some_iff split: option.split)
qed

lemma new_run_rel:
  assumes rel: "store_rel rd s" and new: "map_of (runs s) (run_id r) = None"
    and r: "json_run r = r" "run_wakeup_at r = None" "run_awaited_event_topic r = None"
    and rd': "k_run rd' = AList.update (run_id r) r (k_run rd)"
      "k_byworkflow rd' = sadd_at (run_workflow_id r) (run_id r) (k_byworkflow rd)"
      "k_wakeup rd' = k_wakeup rd" "k_awaitevent rd' = k_awaitevent rd"
    and s': "runs s' = AList.update (run_id r) r (runs s)"
    and kids: "\<And>j p ps. j \<in> set (at_key (k_children rd') (p, ps)) \<longleftrightarrow> j \<in> set (at_key (k_children rd) (p, ps))
      \<or> j = run_id r \<and> run_parent_run_id r = Some p \<and> run_parent_step_id r = Some ps"
  shows "runs_rel rd' s'"
proof -
  have "waits_indexed (run_id r) r rd'" using r(2,3) by (simp add: waits_indexed_def)
  moreover have "waits_indexed j x rd'" if "waits_indexed j x rd" for j x
    using that rd' by (simp add: waits_indexed_def)
  ultimately show ?thesis
    using rel new r(1) rd' s' kids
    by (auto simp: store_rel_def runs_rel_def simp del: map_of_eq_Some_iff split: if_splits)
qed

lemma run_steps:
  assumes "store_rel rd s"
  shows "allowed_op (PutRun r) s \<Longrightarrow> agrees ttl rd s (PutRun r)"
    and "allowed_op (Spawn di ci now p ps b d inp start) s \<Longrightarrow> agrees ttl rd s (Spawn di ci now p ps b d inp start)"
proof -
  show "agrees ttl rd s (PutRun r)" if "allowed_op (PutRun r) s"
  proof -
    have "runs_rel (redis_CreateRun r rd) (CreateRun r s)"
      by (rule new_run_rel [OF assms, of r]) (use that in \<open>simp_all add: redis_CreateRun_def CreateRun_def\<close>)
    then show ?thesis using assms by (simp add: rel_defs redis_CreateRun_def CreateRun_def)
  qed
  show "agrees ttl rd s (Spawn di ci now p ps b d inp start)"
    if ok: "allowed_op (Spawn di ci now p ps b d inp start) s"
  proof -
    define ids where "ids = at_key (defsByName s) (def_id d)"
    have ids: "at_key (k_def_byname rd) (def_id d) = ids"
      using assms by (simp add: store_rel_def defs_rel_def ids_def)
    define rd' where "rd' = spawn_writes di ci now p ps b d inp start ids rd"
    define s' where "s' = SpawnChildRunAt di ci now p ps b d inp start s"
    define child where "child = new_child ci now (if ids \<noteq> [] then last ids else di) p ps b d inp start"
    have child: "json_run child = child" "run_wakeup_at child = None" "run_awaited_event_topic child = None"
      using ok by (simp_all add: child_def json_run_iff)
        (simp_all add: json_stable_def json_map_def new_child_def NewSagaRun_def Let_def)
    have "runs_rel rd' s'"
      by (rule new_run_rel [OF assms, of child])
        (use ok child in \<open>auto simp: child_def rd'_def s'_def spawn_writes_def SpawnChildRunAt_def Let_def
          ids_def [symmetric] split: prod.split\<close>)
    moreover have "defs_rel rd' s'" "logs_rel rd' s'" "tasks_rel rd' s'" "triggers_rel rd' s'"
      using assms ok
      by (auto simp: rel_defs rd'_def s'_def spawn_writes_def SpawnChildRunAt_def Let_def ids_def at_key_update
          split: prod.split)
    moreover have "redis_SpawnChildRunAt quiet di ci now p ps b d inp start rd = (Inr ci, rd')"
      by (simp add: redis_SpawnChildRunAt_def txMaxRetries_def eval_nat_numeral quiet_def Let_def ids rd'_def)
    ultimately show ?thesis by (simp add: store_rel_def s'_def)
  qed
qed

lemma frame_steps:
  assumes "store_rel rd s"
  shows "agrees ttl rd s (PushFrame i f)" and "agrees ttl rd s (PopFrame i)"
proof -
  note run = rel_run [OF assms]
  show "agrees ttl rd s (PushFrame i f)"
  proof (cases "\<exists>r. map_of (runs s) i = Some r \<and> length (run_try_catch_stack r) \<ge> maxDepth")
    case True
    then show ?thesis using run assms
      by (auto simp: redis_PushTryCatch_def PushTryCatch_def txSimple_quiet of_opt_def of_sum_def)
  next
    case False
    then have "PushTryCatch i f s = with_run i (\<lambda>r. r\<lparr>run_try_catch_stack := run_try_catch_stack r @ [f]\<rparr>) s"
      by (auto simp: PushTryCatch_def with_run_def split: option.split)
    then show ?thesis
      unfolding redis_do.simps mem_do.simps redis_PushTryCatch_def
      using tx_write_step [OF assms, of i
          "\<lambda>r. if length (run_try_catch_stack r) \<ge> maxDepth
               then Failed (Errorf ''try_catch max nesting depth %d exceeded for run %s'' [AInt (int maxDepth), AStr i])
               else Write (r\<lparr>run_try_catch_stack := run_try_catch_stack r @ [f]\<rparr>) (\<lambda>rd. rd)"
          "\<lambda>r. r\<lparr>run_try_catch_stack := run_try_catch_stack r @ [f]\<rparr>"] run False
      by (simp add: json_run_iff waits_indexed_def)
  qed
  show "agrees ttl rd s (PopFrame i)"
  proof (cases "map_of (runs s) i")
    case None
    then show ?thesis using assms
      by (simp add: redis_PopTryCatch_def PopTryCatch_def txRun_quiet atomic_tx_def rel_defs)
  next
    case (Some r)
    have "store_rel (set_run i (r\<lparr>run_try_catch_stack := butlast (run_try_catch_stack r)\<rparr>) rd)
      (s\<lparr>runs := AList.update i (r\<lparr>run_try_catch_stack := butlast (run_try_catch_stack r)\<rparr>) (runs s)\<rparr>)"
      by (rule run_write_rel [OF assms Some]) (use run [OF Some] in \<open>simp_all add: json_run_iff waits_indexed_def\<close>)
    then show ?thesis using run [OF Some] Some assms
      by (simp add: redis_PopTryCatch_def PopTryCatch_def txRun_quiet atomic_tx_def)
  qed
qed

lemma consume_step:
  assumes rel: "store_rel rd s" and r: "map_of (runs s) i = Some r"
  shows "agrees ttl rd s (Consume now i n)"
proof (cases "run_state r \<noteq> RunStatePaused \<or> run_awaited_signal r \<noteq> Some n")
  case True
  then show ?thesis using rel_run [OF rel r] r rel
    by (auto simp: redis_TryConsumeAwaitedSignal_def TryConsumeAwaitedSignal_def txRun_quiet atomic_tx_def
        consume_mutation_def)
next
  case False
  note run = rel_run [OF rel r]
  let ?s1 = "s\<lparr>runs := AList.update i (clear_awaits r) (runs s)\<rparr>"
  let ?rd1 = "set_run i (clear_awaits r) (drop_indexes i r rd)"
  have rel1: "store_rel ?rd1 ?s1"
    by (rule run_write_rel [OF rel r])
      (use run in \<open>simp_all add: json_run_iff waits_indexed_def clear_awaits_def\<close>)
  have sigs: "at_key (k_signals rd) i = at_key (signals s) i"
    "\<forall>g \<in> set (at_key (signals s) i). json_signal (std_signal g) = g"
    using rel by (simp_all add: rel_defs)
  have commute: "json_signal (consume_signal now n (std_signal g)) = consume_signal now n (json_signal (std_signal g))"
    for g by (simp add: json_signal_def consume_signal_def std_signal_def)
  then have new: "map (\<lambda>g. json_signal (consume_signal now n (std_signal g))) (at_key (signals s) i)
      = map (consume_signal now n) (at_key (signals s) i)"
    using sigs(2) by simp
  have keep: "json_signal (std_signal (consume_signal now n g)) = consume_signal now n (json_signal (std_signal g))" for g
    by (simp add: json_signal_def consume_signal_def std_signal_def)
  let ?sigs = "case map_of (signals s) i of None \<Rightarrow> signals s
    | Some gs \<Rightarrow> AList.update i (map (consume_signal now n) gs) (signals s)"
  have mem: "at_key ?sigs j = (if j = i then map (consume_signal now n) (at_key (signals s) i)
      else at_key (signals s) j)" for j
    by (simp add: at_key_def split: option.split)
  define rd2 where "rd2 = (if at_key (signals s) i = [] then ?rd1
    else ?rd1\<lparr>k_signals := AList.update i (map (consume_signal now n) (at_key (signals s) i)) (k_signals ?rd1),
      k_expiring := removeAll (KSignals i) (k_expiring ?rd1)\<rparr>)"
  have swap: "set_run i x (y\<lparr>k_signals := a, k_expiring := b\<rparr>) = (set_run i x y)\<lparr>k_signals := a, k_expiring := b\<rparr>"
    "k_signals (set_run i x y) = k_signals y" "k_expiring (set_run i x y) = k_expiring y" for x y a b
    by (simp_all add: set_run_def)
  have k1: "at_key (k_signals ?rd1) j = at_key (signals s) j" for j
    using rel1 by (simp add: rel_defs)
  have "at_key (k_signals rd2) j = at_key ?sigs j" for j
    unfolding mem by (simp add: rd2_def at_key_update k1)
  then have "logs_rel rd2 (?s1\<lparr>signals := ?sigs\<rparr>)"
    using rel1 sigs(2) mem keep by (auto simp: rel_defs rd2_def)
  moreover have "runs_rel rd2 (?s1\<lparr>signals := ?sigs\<rparr>)"
    using rel1 waits_cong [of rd2 ?rd1]
    by (simp add: rel_defs rd2_def del: map_of_eq_Some_iff)
  moreover have "defs_rel rd2 (?s1\<lparr>signals := ?sigs\<rparr>)" "tasks_rel rd2 (?s1\<lparr>signals := ?sigs\<rparr>)"
    "triggers_rel rd2 (?s1\<lparr>signals := ?sigs\<rparr>)"
    using rel1 by (simp_all add: rel_defs rd2_def)
  moreover have "consume_mutation now i n rd r False = (Write (clear_awaits r)
      (\<lambda>rd. let rd = drop_indexes i r rd in if at_key (signals s) i = [] then rd
        else rd\<lparr>k_signals := AList.update i (map (consume_signal now n) (at_key (signals s) i)) (k_signals rd),
                k_expiring := removeAll (KSignals i) (k_expiring rd)\<rparr>), True)"
    unfolding consume_mutation_def Let_def sigs(1) new using False by simp
  then have "redis_TryConsumeAwaitedSignal quiet now i n rd = (Inr True, rd2)"
    using run(4) swap
    by (simp add: redis_TryConsumeAwaitedSignal_def txRun_quiet atomic_tx_def rd2_def Let_def)
  moreover have "TryConsumeAwaitedSignal now i n s = (True, ?s1\<lparr>signals := ?sigs\<rparr>)"
    using False r by (simp add: TryConsumeAwaitedSignal_def)
  ultimately show ?thesis by (simp add: store_rel_def)
qed

text \<open>Closing the open tasks of a run one blob at a time is closing them in the table.\<close>

lemma close_tasks_frame:
  "close_tasks now ts rd = rd\<lparr>k_usertask := k_usertask (close_tasks now ts rd)\<rparr>"
proof (induction ts arbitrary: rd)
  case (Cons t ts)
  show ?case
  proof (cases "task_submitted_at t = None")
    case True
    define rd1 where "rd1 = rd\<lparr>k_usertask := AList.update (task_id t)
      (json_task (t\<lparr>task_submitted_at := Some now, task_submitted_by := ''system:run-cancelled''\<rparr>)) (k_usertask rd)\<rparr>"
    have "close_tasks now (t # ts) rd = close_tasks now ts rd1" using True by (simp add: rd1_def)
    also have "\<dots> = rd1\<lparr>k_usertask := k_usertask (close_tasks now ts rd1)\<rparr>" by (rule Cons.IH)
    also have "\<dots> = rd\<lparr>k_usertask := k_usertask (close_tasks now (t # ts) rd)\<rparr>"
      using True by (simp add: rd1_def)
    finally show ?thesis .
  qed (use Cons.IH in simp)
qed simp

lemma close_tasks_lookup:
  assumes "\<And>t. t \<in> set ts \<Longrightarrow> json_task t = t" and "\<And>t. t \<in> set ts \<Longrightarrow> task_id t = j \<Longrightarrow> t = t0"
  shows "map_of (k_usertask (close_tasks now ts rd)) j =
    (if (\<exists>t \<in> set ts. task_id t = j) \<and> task_submitted_at t0 = None
     then Some (t0\<lparr>task_submitted_at := Some now, task_submitted_by := ''system:run-cancelled''\<rparr>)
     else map_of (k_usertask rd) j)"
  using assms
proof (induction ts arbitrary: rd)
  case (Cons t ts)
  have IH: "map_of (k_usertask (close_tasks now ts x)) j =
      (if (\<exists>t \<in> set ts. task_id t = j) \<and> task_submitted_at t0 = None
       then Some (t0\<lparr>task_submitted_at := Some now, task_submitted_by := ''system:run-cancelled''\<rparr>)
       else map_of (k_usertask x) j)" for x
    using Cons.IH [of x] Cons.prems by simp
  have t: "json_task (t\<lparr>task_submitted_at := a, task_submitted_by := b\<rparr>) = t\<lparr>task_submitted_at := a, task_submitted_by := b\<rparr>"
    for a b
  proof -
    have "task_form_schema (json_task t) = task_form_schema t" "task_result (json_task t) = task_result t"
      using Cons.prems(1) [of t] by simp_all
    then show ?thesis by (simp add: json_task_def)
  qed
  show ?case using Cons.prems(2) [of t] by (auto simp: IH t)
qed simp

lemma mget_members: "x \<in> set (mget m ks) \<longleftrightarrow> (\<exists>k \<in> set ks. map_of m k = Some x)"
  by (force simp: mget_def List.map_filter_def)

lemma map_of_map_vals: "map_of (map (\<lambda>(i, t). (i, f t)) m) j = map_option f (map_of m j)"
  by (induction m) auto

lemma close_task_ids:
  "task_id (close_task now i t) = task_id t" "task_run_id (close_task now i t) = task_run_id t"
  by (simp_all add: close_task_def)

lemma cancel_step:
  assumes "store_rel rd s"
  shows "agrees ttl rd s (CancelRun now evid i reason)"
proof (cases "map_of (runs s) i")
  case None
  then show ?thesis using assms
    by (simp add: redis_Cancel_def Cancel_def txRun_quiet atomic_tx_def of_opt_def of_sum_def rel_defs)
next
  case (Some r)
  note run = rel_run [OF assms Some]
  show ?thesis
  proof (cases "IsTerminal (run_state r)")
    case True
    have "set_run i r rd = rd\<lparr>k_run := AList.update i r (k_run rd)\<rparr>"
      using run by (simp add: set_run_def json_run_iff [THEN iffD2])
    also have "\<dots> = rd" using run(4) by (simp add: AList.update_triv)
    finally show ?thesis using assms Some run(4) True
      by (simp add: redis_Cancel_def Cancel_def txRun_quiet atomic_tx_def of_opt_def of_sum_def cancel_mutation_def)
  next
    case False
    define rd1 where "rd1 = set_run i (cancel_run now reason r) (applyTerminalTTL ttl i (drop_indexes i r rd))"
    define s1 where "s1 = s\<lparr>runs := AList.update i (cancel_run now reason r) (runs s)\<rparr>"
    have rel1: "store_rel rd1 s1" unfolding rd1_def s1_def
      by (rule run_write_rel [OF assms Some])
        (use run in \<open>simp_all add: json_run_iff waits_indexed_def cancel_run_def\<close>)
    define ts where "ts = redis_ListUserTasksByRun rd1 i"
    define rd2 where "rd2 = close_tasks now ts rd1"
    define s2 where "s2 = s1\<lparr>userTasks := map (\<lambda>(j, t). (j, close_task now i t)) (userTasks s1)\<rparr>"
    have tab: "map_of (k_usertask rd1) j = map_of (userTasks s1) j"
      "map_of (userTasks s1) j = Some t \<Longrightarrow> task_id t = j \<and> json_task t = t"
      "j \<in> set (at_key (k_tasks_byrun rd1) x) \<longleftrightarrow> (\<exists>t. map_of (userTasks s1) j = Some t \<and> task_run_id t = x)"
      for j t x using rel1 by (simp_all add: store_rel_def tasks_rel_def)
    have ts: "t \<in> set ts \<longleftrightarrow> map_of (userTasks s1) (task_id t) = Some t \<and> task_run_id t = i" for t
    proof -
      have "t \<in> set ts \<longleftrightarrow> (\<exists>j \<in> set (at_key (k_tasks_byrun rd1) i). map_of (userTasks s1) j = Some t)"
        using tab by (simp add: ts_def redis_ListUserTasksByRun_def mget_members)
      also have "\<dots> \<longleftrightarrow> (\<exists>j. map_of (userTasks s1) j = Some t \<and> task_run_id t = i)" using tab(3) by fastforce
      also have "\<dots> \<longleftrightarrow> map_of (userTasks s1) (task_id t) = Some t \<and> task_run_id t = i" using tab(2) by blast
      finally show ?thesis .
    qed
    have tj: "json_task t = t" if "t \<in> set ts" for t using that ts tab(2) by blast
    have look: "map_of (k_usertask rd2) j = map_option (close_task now i) (map_of (userTasks s1) j)" for j
    proof (cases "map_of (userTasks s1) j")
      case None
      then have "\<forall>t \<in> set ts. task_id t \<noteq> j" using ts by auto
      then show ?thesis
        using close_tasks_lookup [of ts j undefined now rd1] tj None by (simp add: rd2_def tab(1))
    next
      case (Some t0)
      then have t0: "task_id t0 = j" "json_task t0 = t0" "map_of (k_usertask rd1) j = Some t0"
        using tab by simp_all
      have "(\<exists>t \<in> set ts. task_id t = j) \<longleftrightarrow> task_run_id t0 = i"
        using ts t0(1) Some by force
      then show ?thesis
        using close_tasks_lookup [of ts j t0 now rd1] tj ts Some t0
        by (simp add: rd2_def close_task_def)
    qed
    have fr: "rd2 = rd1\<lparr>k_usertask := k_usertask rd2\<rparr>" unfolding rd2_def by (rule close_tasks_frame)
    have js: "json_task (close_task now i t) = close_task now i t" if "json_task t = t" for t
    proof -
      have "task_form_schema (json_task t) = task_form_schema t" "task_result (json_task t) = task_result t"
        using that by simp_all
      then show ?thesis by (simp add: json_task_def close_task_def)
    qed
    have "tasks_rel rd2 s2"
      using tab arg_cong [OF fr, of k_tasks_byrun] look js
      by (auto simp: tasks_rel_def s2_def map_of_map_vals close_task_ids)
    moreover have "runs_rel rd2 s2" "defs_rel rd2 s2" "logs_rel rd2 s2" "triggers_rel rd2 s2"
      using rel1 by (subst fr, simp add: rel_defs s2_def waits_indexed_def del: map_of_eq_Some_iff)+
    ultimately have rel2: "store_rel rd2 s2" by (simp add: store_rel_def)
    define evt where "evt = (NewEvent evid now i (run_current_step r) 0 EventRunCancelled ''engine'')
      \<lparr>ev_metadata := (if reason \<noteq> [] then [(''reason'', VStr reason)] else [])\<rparr>"
    have "json_event evt = evt" by (simp add: evt_def json_event_def json_map_def)
    then have "agrees ttl rd2 s2 (PutEvent evt)" using create_steps(2) [OF rel2] by simp
    moreover have "redis_Cancel ttl quiet now evid i reason rd = (None, redis_AppendEvent evt rd2)"
      using False run(4)
      by (simp add: redis_Cancel_def txRun_quiet atomic_tx_def cancel_mutation_def Let_def
          rd1_def [symmetric] ts_def [symmetric] rd2_def [symmetric] evt_def)
    moreover have "Cancel now evid i reason s = Inr (AppendEvent evt s2)"
      using False Some by (simp add: Cancel_def Let_def s2_def s1_def evt_def)
    ultimately show ?thesis by (simp add: of_opt_def of_sum_def)
  qed
qed

interpretation redis: simulation store_rel "redis_do ttl" mem_do allowed_op for ttl
proof
  fix rd s op
  assume rel: "store_rel rd s" and ok: "allowed_op op s"
  show "agrees ttl rd s op"
  proof (cases op)
    case (Consume now i n)
    then show ?thesis using consume_step [OF rel] ok by fastforce
  qed (use ok state_steps [OF rel] pause_steps [OF rel] create_steps [OF rel] trigger_steps [OF rel]
      run_steps [OF rel] frame_steps [OF rel] cancel_step [OF rel] in \<open>simp_all del: redis_do.simps mem_do.simps\<close>)
qed

section \<open>Observations\<close>

lemma rel_reads:
  assumes "store_rel rd s"
  shows "redis_GetRun rd i = GetRun s i" "redis_GetWorkflowDefinition rd i = GetWorkflowDefinition s i"
    "redis_ListEventsByRun rd i = map std_event (ListEventsByRun s i)"
    "redis_GetUserTask rd i = GetUserTask s i" "redis_GetTrigger rd i = GetTrigger s i"
    "set (redis_ListChildrenByParent rd p ps) = set (ListChildrenByParent s p ps)"
proof -
  have tabs: "map_of (k_run rd) j = map_of (runs s) j" "map_of (k_def rd) j = map_of (defs s) j"
    "at_key (k_events rd) j = at_key (events s) j" "map_of (k_usertask rd) j = map_of (userTasks s) j"
    "map_of (k_trigger rd) j = map_of (triggers s) j" for j
    using assms by (simp_all add: rel_defs)
  show "redis_GetRun rd i = GetRun s i" "redis_GetWorkflowDefinition rd i = GetWorkflowDefinition s i"
    "redis_ListEventsByRun rd i = map std_event (ListEventsByRun s i)"
    "redis_GetUserTask rd i = GetUserTask s i" "redis_GetTrigger rd i = GetTrigger s i"
    by (simp_all add: tabs redis_GetRun_def GetRun_def redis_GetWorkflowDefinition_def GetWorkflowDefinition_def
        redis_ListEventsByRun_def ListEventsByRun_def redis_GetUserTask_def GetUserTask_def redis_GetTrigger_def
        GetTrigger_def split: option.split)
  have keys: "keys_distinct (runs s)" using assms by (simp add: store_rel_def runs_rel_def)
  have "x \<in> set (redis_ListChildrenByParent rd p ps) \<longleftrightarrow>
      (\<exists>j. map_of (runs s) j = Some x) \<and> run_parent_run_id x = Some p \<and> run_parent_step_id x = Some ps" for x
    using assms
    by (auto simp: redis_ListChildrenByParent_def mget_members store_rel_def runs_rel_def simp del: map_of_eq_Some_iff)
  then show "set (redis_ListChildrenByParent rd p ps) = set (ListChildrenByParent s p ps)"
    using vals_map_of [OF keys] by (auto simp: ListChildrenByParent_def)
qed

lemma std_run_fields [simp]:
  "run_state (std_run r) = run_state r" "run_awaited_event_topic (std_run r) = run_awaited_event_topic r"
  by (simp_all add: std_run_def)

lemma rel_awaited:
  assumes "store_rel rd s"
  shows "set (redis_FindRunsByAwaitedEvent topic rd) = std_run ` set (FindRunsByAwaitedEvent topic s)"
proof -
  have keys: "keys_distinct (runs s)" using assms by (simp add: store_rel_def runs_rel_def)
  have ix: "i \<in> set (at_key (k_awaitevent rd) topic)"
    if "map_of (runs s) i = Some r" "run_state r = RunStatePaused" "run_awaited_event_topic r = Some topic" for i r
    using rel_run(3) [OF assms that(1)] that(2,3) by (simp add: waits_indexed_def)
  show ?thesis
  proof (intro set_eqI iffI)
    fix y
    assume "y \<in> set (redis_FindRunsByAwaitedEvent topic rd)"
    then obtain j r where r: "map_of (k_run rd) j = Some r" "y = std_run r" "run_state r = RunStatePaused"
      "run_awaited_event_topic r = Some topic"
      by (auto simp: redis_FindRunsByAwaitedEvent_def mget_members)
    then have "map_of (runs s) j = Some r" using assms by (simp add: store_rel_def runs_rel_def)
    then have "r \<in> set (vals (runs s))" using vals_map_of [OF keys] by blast
    then show "y \<in> std_run ` set (FindRunsByAwaitedEvent topic s)" using r by (simp add: FindRunsByAwaitedEvent_def)
  next
    fix y
    assume "y \<in> std_run ` set (FindRunsByAwaitedEvent topic s)"
    then obtain r where r: "r \<in> set (vals (runs s))" "y = std_run r" "run_state r = RunStatePaused"
      "run_awaited_event_topic r = Some topic" by (auto simp: FindRunsByAwaitedEvent_def)
    then obtain j where j: "map_of (runs s) j = Some r" using vals_map_of [OF keys] by blast
    then have "r \<in> set (mget (k_run rd) (at_key (k_awaitevent rd) topic))"
      using ix [OF j r(3,4)] rel_run(4) [OF assms j] by (auto simp: mget_members)
    then show "y \<in> set (redis_FindRunsByAwaitedEvent topic rd)" using r by (simp add: redis_FindRunsByAwaitedEvent_def)
  qed
qed

lemma set_zrange: "set (zrange z) = fst ` set z"
  by (simp add: zrange_def)

lemma rel_due:
  assumes "store_rel rd s" and "map_of (runs s) i = Some r" and "run_state r = RunStatePaused"
    and "wakeup_due now r" and "length (k_wakeup rd) \<le> limit"
  shows "i \<in> set (redis_FindRunsByDueWakeup now limit rd)"
proof -
  obtain t where t: "run_wakeup_at r = Some t" "t \<le> now"
    using assms(4) by (auto simp: wakeup_due_def split: option.splits)
  then have "map_of (k_wakeup rd) i = Some (float64 t)"
    using rel_run(3) [OF assms(1,2)] assms(3) by (simp add: waits_indexed_def)
  then have "(i, float64 t) \<in> set (k_wakeup rd)" by (rule map_of_SomeD)
  moreover have "float64 t \<le> float64 now" using float64_mono t(2) .
  ultimately have m: "i \<in> set (zrange (filter (\<lambda>(i, score). score \<le> float64 now) (k_wakeup rd)))"
    by (force simp: set_zrange)
  let ?due = "filter (\<lambda>i. case map_of (k_run rd) i of None \<Rightarrow> False | Some r \<Rightarrow> run_state r = RunStatePaused)
    (zrange (filter (\<lambda>(i, score). score \<le> float64 now) (k_wakeup rd)))"
  have "length ?due \<le> length (zrange (filter (\<lambda>(i, score). score \<le> float64 now) (k_wakeup rd)))"
    by (rule length_filter_le)
  also have "\<dots> \<le> length (k_wakeup rd)" unfolding zrange_def by (simp add: length_filter_le)
  finally have "take limit ?due = ?due" using assms(5) by simp
  then show ?thesis
    using rel_run(4) [OF assms(1,2)] assms(3) m by (simp add: redis_FindRunsByDueWakeup_def)
qed

text \<open>
  C3: within stated limits the Redis store refines the in-memory store. Driven by any sequence of the calls of
  \<open>store_op\<close> (which leave out \<^verbatim>\<open>FailAction\<close>, rules, the action registry, cron claims and trigger
  fires) that \<open>allowed_op\<close> admits (ids that are drawn are fresh, values are such as JSON gives back, a run that has
  ended is not made live or paused again, a created run has no marker and no parent), both give the same answer
  to every call. Afterwards the same runs, definitions, user tasks and triggers are read from them, the same
  children of every parent, the same events up to the numbers in their metadata (\<open>std_event\<close>), and the
  same runs awaiting every topic up to the numbers in their values (\<open>std_run\<close>): both lists are
  read with the plain JSON decoder, to which every number is a float.
\<close>

theorem redis_refines_memory:
  assumes "all_allowed allowed_op mem_do ops New"
    and "play (redis_do ttl) ops redis_empty = (answers, rd)" and "play mem_do ops New = (answers', s)"
  shows "answers = answers' \<and> redis_GetRun rd i = GetRun s i
    \<and> redis_GetWorkflowDefinition rd i = GetWorkflowDefinition s i
    \<and> redis_GetUserTask rd i = GetUserTask s i \<and> redis_GetTrigger rd i = GetTrigger s i
    \<and> redis_ListEventsByRun rd i = map std_event (ListEventsByRun s i)
    \<and> set (redis_ListChildrenByParent rd i stp) = set (ListChildrenByParent s i stp)
    \<and> set (redis_FindRunsByAwaitedEvent topic rd) = std_run ` set (FindRunsByAwaitedEvent topic s)"
proof -
  have "answers = answers'" and rel: "store_rel rd s"
    using redis.traces [OF empty_rel assms(1), of ttl] assms(2,3) by simp_all
  then show ?thesis using rel_reads [OF rel] rel_awaited [OF rel] by simp
qed

definition demo_ops :: "store_op list" where
  "demo_ops = [PutRun (sample_run ''r1''), PauseSignal ''r1'' ''go'' (Some 7), Consume 3 ''r1'' ''go'', PauseUntil ''r1'' 9]"

lemma demo_ops_allowed: "all_allowed allowed_op mem_do demo_ops New"
  by (simp add: demo_ops_def New_def CreateRun_def json_run_def json_map_def live_run_def of_sum_def
      SetPausedAwaitingSignal_def with_run_def TryConsumeAwaitedSignal_def clear_awaits_def live_def
      sample_run_def NewSagaRun_def)

theorem redis_refines_memory_witness:
  "fst (play (redis_do 0) demo_ops redis_empty) = [Ok, Ok, Claimed True, Ok]
   \<and> redis_GetRun (snd (play (redis_do 0) demo_ops redis_empty)) ''r1'' = GetRun (snd (play mem_do demo_ops New)) ''r1''"
proof -
  have "fst (play mem_do demo_ops New) = [Ok, Ok, Claimed True, Ok]"
    by (simp add: demo_ops_def New_def CreateRun_def of_sum_def SetPausedAwaitingSignal_def with_run_def
        TryConsumeAwaitedSignal_def clear_awaits_def SetPausedWithWakeup_def sample_run_def NewSagaRun_def)
  then show ?thesis
    using redis_refines_memory [OF demo_ops_allowed prod.collapse [symmetric] prod.collapse [symmetric]] by metis
qed

text \<open>
  No due run is missed. After any such sequence of calls, a run that is paused with a wake-up time that
  has come is among the ids the timer gets, if the batch is large enough for the index; the rounding
  of times to sorted-set scores never hides one.
\<close>

theorem redis_due_complete:
  assumes "all_allowed allowed_op mem_do ops New" and "snd (play (redis_do ttl) ops redis_empty) = rd"
    and "redis_GetRun rd i = Inr r" and "run_state r = RunStatePaused" and "wakeup_due now r"
    and "length (k_wakeup rd) \<le> limit"
  shows "i \<in> set (redis_FindRunsByDueWakeup now limit rd)"
proof -
  have rel: "store_rel rd (snd (play mem_do ops New))"
    using redis.traces [OF empty_rel assms(1), of ttl] assms(2) by blast
  then have "GetRun (snd (play mem_do ops New)) i = Inr r" using rel_reads(1) assms(3) by metis
  then show ?thesis using rel_due [OF rel] assms(4-6) by (simp add: GetRun_iff)
qed

theorem redis_due_complete_witness:
  "''r1'' \<in> set (redis_FindRunsByDueWakeup 9 1 (snd (play (redis_do 0) demo_ops redis_empty)))"
proof (rule redis_due_complete [OF demo_ops_allowed refl])
  show "redis_GetRun (snd (play (redis_do 0) demo_ops redis_empty)) ''r1''
      = Inr ((sample_run ''r1'')\<lparr>run_state := RunStatePaused, run_wakeup_at := Some 9\<rparr>)"
    by (simp add: demo_ops_def redis_empty_def redis_CreateRun_def redis_SetPausedAwaitingSignal_def txSimple_quiet
        of_opt_def redis_TryConsumeAwaitedSignal_def txRun_quiet atomic_tx_def consume_mutation_def Let_def
        redis_SetPausedWithWakeup_def set_run_def redis_GetRun_def json_run_def json_map_def clear_awaits_def
        drop_indexes_def at_key_def add_wakeup_def sample_run_def NewSagaRun_def)
  show "length (k_wakeup (snd (play (redis_do 0) demo_ops redis_empty))) \<le> 1"
    by (simp add: demo_ops_def redis_empty_def redis_CreateRun_def redis_SetPausedAwaitingSignal_def txSimple_quiet
        of_opt_def redis_TryConsumeAwaitedSignal_def txRun_quiet atomic_tx_def consume_mutation_def Let_def
        redis_SetPausedWithWakeup_def set_run_def redis_GetRun_def json_run_def json_map_def clear_awaits_def
        drop_indexes_def at_key_def add_wakeup_def sample_run_def NewSagaRun_def)
qed (simp_all add: wakeup_due_def)

end
