(* ===== verification/Sql.thy ===== *)
theory Sql
  imports Json
begin

text \<open>
  The part of SQL the statements of \<^verbatim>\<open>store/postgres\<close> use, with PostgreSQL's semantics: truth values
  with NULL (\<open>None\<close>), tables as lists of rows, guarded updates with their row counts, sorting,
  \<^verbatim>\<open>LIKE\<close>, and JSONB objects. A column that may be NULL is an option.
\<close>

section \<open>Truth values\<close>

type_synonym truth = "bool option"

definition sql_not :: "truth \<Rightarrow> truth" where
  "sql_not p = map_option Not p"

definition sql_and :: "truth \<Rightarrow> truth \<Rightarrow> truth" where
  "sql_and p q =
     (if p = Some False \<or> q = Some False then Some False
      else if p = None \<or> q = None then None else Some True)"

definition sql_or :: "truth \<Rightarrow> truth \<Rightarrow> truth" where
  "sql_or p q = sql_not (sql_and (sql_not p) (sql_not q))"

text \<open>A comparison with NULL is unknown; \<^verbatim>\<open>IS NULL\<close> never is.\<close>

definition sql_cmp :: "('a \<Rightarrow> 'a \<Rightarrow> bool) \<Rightarrow> 'a option \<Rightarrow> 'a option \<Rightarrow> truth" where
  "sql_cmp r x y = (case (x, y) of (Some a, Some b) \<Rightarrow> Some (r a b) | _ \<Rightarrow> None)"

definition is_null :: "'a option \<Rightarrow> truth" where
  "is_null x = Some (x = None)"

text \<open>A row is selected when the condition is true, not when it is unknown.\<close>

definition selects :: "truth \<Rightarrow> bool" where
  "selects p \<longleftrightarrow> p = Some True"

definition sql_nullif :: "'a \<Rightarrow> 'a \<Rightarrow> 'a option" where
  "sql_nullif x y = (if x = y then None else Some x)"

definition sql_coalesce :: "'a option \<Rightarrow> 'a option \<Rightarrow> 'a option" where
  "sql_coalesce x y = (if x = None then y else x)"

lemma selects_simps [simp]:
  "selects (Some b) = b" "\<not> selects None"
  "selects (sql_and p q) \<longleftrightarrow> selects p \<and> selects q"
  "selects (sql_or p q) \<longleftrightarrow> selects p \<or> selects q"
  "selects (sql_cmp r x y) \<longleftrightarrow> (\<exists>a b. x = Some a \<and> y = Some b \<and> r a b)"
  "selects (is_null x) \<longleftrightarrow> x = None"
  by (auto simp: selects_def sql_and_def sql_or_def sql_not_def sql_cmp_def is_null_def split: option.splits)

text \<open>The negation of a comparison with NULL selects nothing.\<close>

lemma selects_not_cmp [simp]:
  "selects (sql_not (sql_cmp r x y)) \<longleftrightarrow> (\<exists>a b. x = Some a \<and> y = Some b \<and> \<not> r a b)"
  "selects (sql_not (Some b)) \<longleftrightarrow> \<not> b"
  by (auto simp: selects_def sql_not_def sql_cmp_def split: option.splits)

lemma selects_not_and:
  "selects (sql_not (sql_and p q)) \<longleftrightarrow> selects (sql_not p) \<or> selects (sql_not q)"
  by (auto simp: selects_def sql_not_def sql_and_def)

section \<open>Tables\<close>

text \<open>
  The order of a list stands for the order in which the server returns the rows of a query
  without \<^verbatim>\<open>ORDER BY\<close>.
\<close>

definition sql_select :: "('r \<Rightarrow> truth) \<Rightarrow> 'r list \<Rightarrow> 'r list" where
  "sql_select p t = filter (\<lambda>r. selects (p r)) t"

text \<open>\<^verbatim>\<open>UPDATE t SET .. WHERE ..\<close>: the number of rows affected, and the table.\<close>

definition sql_update :: "('r \<Rightarrow> truth) \<Rightarrow> ('r \<Rightarrow> 'r) \<Rightarrow> 'r list \<Rightarrow> nat \<times> 'r list" where
  "sql_update p f t = (length (sql_select p t), map (\<lambda>r. if selects (p r) then f r else r) t)"

definition sql_delete :: "('r \<Rightarrow> truth) \<Rightarrow> 'r list \<Rightarrow> nat \<times> 'r list" where
  "sql_delete p t = (length (sql_select p t), filter (\<lambda>r. \<not> selects (p r)) t)"

text \<open>A violated constraint is an error with a SQLSTATE.\<close>

definition sql_error :: "string \<Rightarrow> gerr" where
  "sql_error code = Errorf ''SQLSTATE %s'' [AStr code]"

definition unique_violation :: gerr where "unique_violation = sql_error ''23505''"
definition foreign_key_violation :: gerr where "foreign_key_violation = sql_error ''23503''"
definition invalid_text :: gerr where "invalid_text = sql_error ''22P02''"

text \<open>\<^verbatim>\<open>INSERT\<close> under a key that must be unique.\<close>

definition insert_row :: "('r \<Rightarrow> 'k) \<Rightarrow> 'r \<Rightarrow> 'r list \<Rightarrow> gerr + 'r list" where
  "insert_row key r t = (if key r \<in> key ` set t then Inl unique_violation else Inr (t @ [r]))"

text \<open>\<^verbatim>\<open>INSERT .. ON CONFLICT (key) DO UPDATE\<close>: \<open>merge\<close> takes the old row and the excluded one.\<close>

definition upsert_row :: "('r \<Rightarrow> 'k) \<Rightarrow> ('r \<Rightarrow> 'r \<Rightarrow> 'r) \<Rightarrow> 'r \<Rightarrow> 'r list \<Rightarrow> 'r list" where
  "upsert_row key merge r t =
     (if key r \<in> key ` set t then map (\<lambda>old. if key old = key r then merge old r else old) t
      else t @ [r])"

text \<open>The first row of a key, of which there is at most one.\<close>

definition row_at :: "('r \<Rightarrow> 'k) \<Rightarrow> 'k \<Rightarrow> 'r list \<Rightarrow> 'r option" where
  "row_at key k t = find (\<lambda>r. key r = k) t"

text \<open>\<^verbatim>\<open>LIMIT\<close> and \<^verbatim>\<open>OFFSET\<close> after sorting.\<close>

definition limit_offset :: "int \<Rightarrow> int \<Rightarrow> 'r list \<Rightarrow> 'r list" where
  "limit_offset n k t = take (nat n) (drop (nat k) t)"

section \<open>Times\<close>

text \<open>
  A \<^verbatim>\<open>TIMESTAMPTZ\<close> column and \<^verbatim>\<open>now()\<close> keep microseconds; the driver sends a parameter without the
  rest of its nanoseconds.
\<close>

definition timestamptz :: "gotime \<Rightarrow> gotime" where
  "timestamptz t = t - t mod 1000"

lemma timestamptz_idem [simp]: "timestamptz (timestamptz t) = timestamptz t"
  by (simp add: timestamptz_def mod_diff_eq)

lemma timestamptz_mono: "t \<le> u \<Longrightarrow> timestamptz t \<le> timestamptz u"
  using zdiv_mono1 [of t u 1000] by (simp add: timestamptz_def minus_mod_eq_mult_div)

section \<open>Patterns\<close>

text \<open>
  \<^verbatim>\<open>LIKE\<close>: \<^verbatim>\<open>%\<close> matches any text, \<^verbatim>\<open>_\<close> any character (of ASCII texts) and a backslash
  makes the next character plain.
\<close>

fun like :: "string \<Rightarrow> string \<Rightarrow> bool" where
  "like [] s = (s = [])"
| "like (p # ps) [] = (p = CHR ''%'' \<and> like ps [])"
| "like (p # ps) (c # cs) =
     (if p = CHR ''%'' then like ps (c # cs) \<or> like (p # ps) cs
      else if p = CHR ''_'' then like ps cs
      else if p = CHR 0x5C then (case ps of [] \<Rightarrow> False | q # qs \<Rightarrow> q = c \<and> like qs cs)
      else p = c \<and> like ps cs)"

definition ilike :: "string \<Rightarrow> string \<Rightarrow> bool" where
  "ilike p s = like (to_lower p) (to_lower s)"

section \<open>JSONB\<close>

text \<open>A JSONB column holds what the plain decoder reads back from it.\<close>

definition jsonb :: "gomap \<Rightarrow> gomap" where
  "jsonb m = std_map (json_map m)"

definition jsonb_val :: "val \<Rightarrow> val" where
  "jsonb_val v = std_json (to_json v)"

text \<open>\<^verbatim>\<open>a || b\<close> of two objects: the keys of \<open>b\<close> win.\<close>

definition jsonb_concat :: "gomap \<Rightarrow> gomap \<Rightarrow> gomap" where
  "jsonb_concat a b = foldl (\<lambda>m (k, v). AList.update k v m) a b"

text \<open>\<^verbatim>\<open>obj #> path\<close> and \<^verbatim>\<open>jsonb_set(obj, path, v, true)\<close> along objects.\<close>

fun jsonb_get :: "gomap \<Rightarrow> string list \<Rightarrow> val option" where
  "jsonb_get m [] = Some (VMap m)"
| "jsonb_get m [p] = map_of m p"
| "jsonb_get m (p # q # ps) =
     (case map_of m p of Some (VMap n) \<Rightarrow> jsonb_get n (q # ps) | _ \<Rightarrow> None)"

fun jsonb_set :: "gomap \<Rightarrow> string list \<Rightarrow> val \<Rightarrow> gomap" where
  "jsonb_set m [] v = m"
| "jsonb_set m [p] v = AList.update p v m"
| "jsonb_set m (p # q # ps) v =
     (case map_of m p of
        Some (VMap n) \<Rightarrow> AList.update p (VMap (jsonb_set n (q # ps) v)) m
      | _ \<Rightarrow> m)"

definition is_object :: "val option \<Rightarrow> bool" where
  "is_object v = (case v of Some (VMap _) \<Rightarrow> True | _ \<Rightarrow> False)"

section \<open>Lemmas\<close>

lemma like_percent [simp]: "like [CHR ''%''] s"
  by (induction s) auto

text \<open>A search text without special characters matches as a substring.\<close>

definition plain_pattern :: "string \<Rightarrow> bool" where
  "plain_pattern s \<longleftrightarrow> CHR ''%'' \<notin> set s \<and> CHR ''_'' \<notin> set s \<and> CHR 0x5C \<notin> set s"

lemma like_prefix: "plain_pattern p \<Longrightarrow> like (p @ ''%'') s = has_prefix s p"
proof (induction p arbitrary: s)
  case (Cons a p)
  then show ?case by (cases s) (auto simp: plain_pattern_def)
qed simp

lemma like_contains: "plain_pattern p \<Longrightarrow> like (''%'' @ p @ ''%'') s = contains_str s p"
proof (induction s)
  case Nil
  then show ?case using like_prefix [of p "[]"] by (cases p) auto
next
  case (Cons c s)
  then show ?case using like_prefix [of p "c # s"] by simp
qed

text \<open>On a unique key an update is a pointwise change of the lookup.\<close>

lemma row_at_Some_iff:
  assumes "distinct (map key t)"
  shows "row_at key k t = Some r \<longleftrightarrow> r \<in> set t \<and> key r = k"
  using assms unfolding row_at_def
proof (induction t)
  case (Cons a t)
  then show ?case by auto
qed simp

lemma row_at_key: "row_at key k t = Some r \<Longrightarrow> key r = k"
  by (auto simp: row_at_def find_Some_iff)

lemma row_at_None_iff: "row_at key k t = None \<longleftrightarrow> k \<notin> key ` set t"
  by (auto simp: row_at_def find_None_iff)

lemma row_at_map:
  assumes "\<And>r. key (g r) = key r"
  shows "row_at key k (map g t) = map_option g (row_at key k t)"
  unfolding row_at_def by (induction t) (simp_all add: assms)

lemma row_at_append:
  "row_at key k (t @ [r]) = (case row_at key k t of Some x \<Rightarrow> Some x | None \<Rightarrow> if key r = k then Some r else None)"
  unfolding row_at_def by (induction t) auto

lemma distinct_map_keys: "(\<And>r. key (g r) = key r) \<Longrightarrow> distinct (map key (map g t)) = distinct (map key t)"
  by (simp add: comp_def)

text \<open>Rows that come in the order asked for stay as they are.\<close>

lemma insertion_sort_sorted: "ordered_by lt xs \<Longrightarrow> insertion_sort lt xs = xs"
proof (induction xs rule: rev_induct)
  case (snoc x xs)
  have "sink lt x (rev xs) = x # rev xs"
    using snoc.prems by (cases xs rule: rev_cases) (auto simp: sorted_wrt_append)
  then show ?case
    using snoc by (simp add: insertion_sort_def insert_right_def sorted_wrt_append)
qed (simp add: insertion_sort_def)

text \<open>Sorting commutes with a change of the entries that keeps their order.\<close>

lemma insertion_sort_map:
  assumes "\<And>a b. lt' (h a) (h b) = lt a b"
  shows "map h (insertion_sort lt xs) = insertion_sort lt' (map h xs)"
proof -
  have m: "map h (sink lt x ys) = sink lt' (h x) (map h ys)" for x ys
    by (induction ys) (simp_all add: assms)
  have "map h (insert_right lt acc x) = insert_right lt' (map h acc) (h x)" for acc x
    by (simp add: insert_right_def rev_map m [symmetric])
  then have "map h (foldl (insert_right lt) acc xs) = foldl (insert_right lt') (map h acc) (map h xs)" for acc
    by (induction xs arbitrary: acc) simp_all
  from this [of "[]"] show ?thesis by (simp add: insertion_sort_def)
qed

end
