(* ===== verification/Postgres_Store.thy ===== *)
theory Postgres_Store
  imports Sql
begin

text \<open>
  The PostgreSQL implementation of the \<^verbatim>\<open>store.Store\<close> interface (\<^verbatim>\<open>store/postgres\<close>), over the tables its
  migrations create. Every statement is translated into the operations of \<open>Sql\<close>; a
  method that runs several statements in a transaction gives the old tables back when it does not
  commit. \<^verbatim>\<open>now()\<close>, the ids drawn and the server's UUID input function are arguments. The
  connection works, and texts and numbers fit their columns. Times are cut to the microseconds the
  columns keep. Where \<^verbatim>\<open>ORDER BY\<close> leaves the order open, the rows come in table order, but for
  the events of a run, whose order within one microsecond is an argument. A transaction is one step: each
  starts by locking the run's row. \<open>Postgres_Properties\<close> takes one of them apart.
\<close>

section \<open>Tables\<close>

text \<open>\<^verbatim>\<open>runtime.saga_runs\<close>; \<open>Scan\<close> reads a NULL text column into a Go string only through \<^verbatim>\<open>COALESCE\<close>.\<close>

record run_row =
  sr_id :: uuid
  sr_workflow_id :: string
  sr_definition_id :: uuid
  sr_tenant_id :: "uuid option"
  sr_state :: run_state
  sr_current_step :: "string option"
  sr_inputs :: gomap
  sr_variables :: gomap
  sr_started_at :: gotime
  sr_last_event_at :: gotime
  sr_terminal_at :: "gotime option"
  sr_requires_manual_review :: bool
  sr_trigger_id :: "uuid option"
  sr_parent_run_id :: "uuid option"
  sr_parent_step_id :: "string option"
  sr_parent_branch_id :: "string option"
  sr_try_catch_stack :: "try_catch_frame list"
  sr_dry_run :: bool
  sr_feature_overrides :: "(string \<times> bool) list"
  sr_awaited_action_dispatch :: "string option"
  sr_current_attempt :: int
  sr_wakeup_at :: "gotime option"
  sr_awaited_signal :: "string option"
  sr_awaited_event_topic :: "string option"
  sr_awaited_event_headers :: "(string \<times> string) list option"
  sr_last_error :: "string option"

text \<open>\<^verbatim>\<open>definitions.workflow_definitions\<close> and \<^verbatim>\<open>audit.saga_run_events\<close>.\<close>

record def_row =
  wd_id :: uuid
  wd_workflow_id :: string
  wd_version :: int
  wd_tenant_id :: "uuid option"
  wd_name :: string
  wd_description :: string
  wd_spec :: workflow_definition
  wd_published :: bool
  wd_created_at :: gotime
  wd_created_by :: string

record event_row =
  se_id :: uuid
  se_run_id :: uuid
  se_step_id :: "string option"
  se_attempt :: int
  se_event_type :: event_type
  se_from_state :: "string option"
  se_to_state :: "string option"
  se_actor :: string
  se_metadata :: gomap
  se_recorded_at :: gotime

text \<open>The other tables have the columns of the Go structs they hold.\<close>

record pgdb =
  workflow_definitions :: "def_row list"
  rule_definitions :: "rule_definition list"
  action_registry :: "action_registration list"
  saga_runs :: "run_row list"
  saga_run_events :: "event_row list"
  saga_signals :: "saga_signal list"
  saga_user_tasks :: "user_task list"
  saga_triggers :: "saga_trigger list"
  saga_trigger_fires :: "trigger_fire_row list"

definition pg_empty :: pgdb where
  "pg_empty = \<lparr>workflow_definitions = [], rule_definitions = [], action_registry = [], saga_runs = [],
     saga_run_events = [], saga_signals = [], saga_user_tasks = [], saga_triggers = [],
     saga_trigger_fires = []\<rparr>"

text \<open>The steps of a definition in its \<^verbatim>\<open>spec\<close> column; \<^verbatim>\<open>Step.Extra\<close> is not written.\<close>

definition jsonb_step :: "step \<Rightarrow> step" where
  "jsonb_step s = s\<lparr>step_inputs := jsonb (step_inputs s),
     step_compensation := map_option (\<lambda>c. c\<lparr>comp_inputs := jsonb (comp_inputs c)\<rparr>) (step_compensation s),
     step_extra := []\<rparr>"

definition jsonb_def :: "workflow_definition \<Rightarrow> workflow_definition" where
  "jsonb_def d = d\<lparr>def_steps := map jsonb_step (def_steps d)\<rparr>"

section \<open>Definitions\<close>

text \<open>An optional UUID parameter that comes as a text.\<close>

definition uuid_param :: "(string \<Rightarrow> uuid option) \<Rightarrow> string option \<Rightarrow> gerr + uuid option" where
  "uuid_param as_uuid t =
     (case t of None \<Rightarrow> Inr None
      | Some s \<Rightarrow> (case as_uuid s of None \<Rightarrow> Inl invalid_text | Some u \<Rightarrow> Inr (Some u)))"

definition def_key :: "def_row \<Rightarrow> string \<times> int" where
  "def_key r = (wd_workflow_id r, wd_version r)"

definition pg_UpsertWorkflowDefinition ::
  "(string \<Rightarrow> uuid option) \<Rightarrow> uuid \<Rightarrow> gotime \<Rightarrow> workflow_definition \<Rightarrow> pgdb \<Rightarrow> (gerr + uuid) \<times> pgdb" where
  "pg_UpsertWorkflowDefinition as_uuid i now d db =
     (case uuid_param as_uuid (def_tenant_id d) of
        Inl err \<Rightarrow> (Inl err, db)
      | Inr tenant \<Rightarrow>
          (let r = \<lparr>wd_id = i, wd_workflow_id = def_id d, wd_version = def_version d, wd_tenant_id = tenant,
                    wd_name = def_name d, wd_description = def_description d, wd_spec = jsonb_def d,
                    wd_published = def_published d,
                    wd_created_at = timestamptz (if def_created_at d = 0 then now else def_created_at d),
                    wd_created_by = (if def_created_by d = [] then ''system'' else def_created_by d)\<rparr>;
               t = upsert_row def_key (\<lambda>old new. old\<lparr>wd_name := wd_name new,
                     wd_description := wd_description new, wd_spec := wd_spec new,
                     wd_published := wd_published new\<rparr>) r (workflow_definitions db)
           in (Inr (case row_at def_key (def_key r) t of Some x \<Rightarrow> wd_id x | None \<Rightarrow> i),
               db\<lparr>workflow_definitions := t\<rparr>)))"

definition pg_GetWorkflowDefinition :: "pgdb \<Rightarrow> uuid \<Rightarrow> gerr + workflow_definition" where
  "pg_GetWorkflowDefinition db i =
     (case row_at wd_id i (workflow_definitions db) of
        None \<Rightarrow> Inl (ErrNotFound ''workflow_definition'' i)
      | Some r \<Rightarrow> Inr (wd_spec r))"

definition newer_def_row :: "def_row \<Rightarrow> def_row \<Rightarrow> bool" where
  "newer_def_row a b =
     (if wd_created_at a \<noteq> wd_created_at b then wd_created_at b < wd_created_at a
      else wd_version b < wd_version a)"

definition pg_ListWorkflowDefinitions :: "definition_filter \<Rightarrow> pgdb \<Rightarrow> workflow_definition list" where
  "pg_ListWorkflowDefinitions f db =
     (let pattern = ''%'' @ dfilter_search f @ ''%'';
          cond = (\<lambda>r. sql_and
            (case dfilter_published f of None \<Rightarrow> Some True | Some p \<Rightarrow> Some (wd_published r = p))
            (if dfilter_search f = [] then Some True
             else sql_or (Some (ilike pattern (wd_workflow_id r))) (Some (ilike pattern (wd_name r)))));
          sorted = insertion_sort newer_def_row (sql_select cond (workflow_definitions db));
          limit = (if dfilter_limit f \<le> 0 then 50 else dfilter_limit f);
          limit = (if limit > 500 then 500 else limit)
      in map wd_spec (limit_offset limit (if dfilter_offset f > 0 then dfilter_offset f else 0) sorted))"

definition pg_GetPublishedWorkflowByID :: "pgdb \<Rightarrow> string \<Rightarrow> uuid option \<Rightarrow> gerr + workflow_definition" where
  "pg_GetPublishedWorkflowByID db workflowID tenantID =
     (let cond = (\<lambda>r. sql_and (sql_and (Some (wd_workflow_id r = workflowID))
             (sql_or (sql_and (is_null tenantID) (is_null (wd_tenant_id r)))
                     (sql_cmp (=) (wd_tenant_id r) tenantID)))
             (Some (wd_published r)))
      in case insertion_sort (\<lambda>a b. wd_version b < wd_version a) (sql_select cond (workflow_definitions db)) of
           [] \<Rightarrow> Inl (ErrNotFound ''workflow_definition'' workflowID)
         | r # _ \<Rightarrow> Inr (wd_spec r))"

section \<open>Creating and reading runs\<close>

definition row_of_run :: "saga_run \<Rightarrow> run_row" where
  "row_of_run r =
     \<lparr>sr_id = run_id r, sr_workflow_id = run_workflow_id r, sr_definition_id = run_definition_id r,
      sr_tenant_id = run_tenant_id r, sr_state = run_state r, sr_current_step = Some (run_current_step r),
      sr_inputs = jsonb (run_inputs r), sr_variables = jsonb (run_variables r),
      sr_started_at = timestamptz (run_started_at r),
      sr_last_event_at = timestamptz (run_last_event_at r), sr_terminal_at = None,
      sr_requires_manual_review = run_requires_manual_review r, sr_trigger_id = run_trigger_id r,
      sr_parent_run_id = run_parent_run_id r, sr_parent_step_id = run_parent_step_id r,
      sr_parent_branch_id = run_parent_branch_id r, sr_try_catch_stack = run_try_catch_stack r,
      sr_dry_run = run_dry_run r, sr_feature_overrides = run_feature_overrides r,
      sr_awaited_action_dispatch = None, sr_current_attempt = 0, sr_wakeup_at = None,
      sr_awaited_signal = None, sr_awaited_event_topic = None, sr_awaited_event_headers = None,
      sr_last_error = None\<rparr>"

definition pg_CreateRun :: "saga_run \<Rightarrow> pgdb \<Rightarrow> gerr option \<times> pgdb" where
  "pg_CreateRun run db =
     (case insert_row sr_id (row_of_run run) (saga_runs db) of
        Inl err \<Rightarrow> (Some err, db)
      | Inr t \<Rightarrow>
          (if run_definition_id run \<in> wd_id ` set (workflow_definitions db)
           then (None, db\<lparr>saga_runs := t\<rparr>)
           else (Some foreign_key_violation, db)))"

definition run_of_row :: "run_row \<Rightarrow> saga_run" where
  "run_of_row r =
     \<lparr>run_id = sr_id r, run_workflow_id = sr_workflow_id r, run_definition_id = sr_definition_id r,
      run_tenant_id = sr_tenant_id r, run_state = sr_state r,
      run_current_step = or_default (sr_current_step r) [], run_inputs = sr_inputs r,
      run_variables = sr_variables r, run_started_at = sr_started_at r,
      run_last_event_at = sr_last_event_at r, run_terminal_at = sr_terminal_at r,
      run_requires_manual_review = sr_requires_manual_review r, run_trigger_id = sr_trigger_id r,
      run_parent_run_id = sr_parent_run_id r, run_parent_step_id = sr_parent_step_id r,
      run_parent_branch_id = sr_parent_branch_id r, run_try_catch_stack = sr_try_catch_stack r,
      run_dry_run = sr_dry_run r, run_wakeup_at = sr_wakeup_at r, run_awaited_signal = sr_awaited_signal r,
      run_awaited_event_topic = sr_awaited_event_topic r,
      run_awaited_event_headers = or_default (sr_awaited_event_headers r) [],
      run_feature_overrides = sr_feature_overrides r,
      run_awaited_action_dispatch = sr_awaited_action_dispatch r,
      run_current_attempt = sr_current_attempt r, run_last_error = sr_last_error r\<rparr>"

definition pg_GetRun :: "pgdb \<Rightarrow> uuid \<Rightarrow> gerr + saga_run" where
  "pg_GetRun db i =
     (case row_at sr_id i (saga_runs db) of
        None \<Rightarrow> Inl (ErrNotFound ''saga_run'' i)
      | Some r \<Rightarrow> Inr (run_of_row r))"

text \<open>
  The three queries that read some columns only: what they leave out has its zero value in
  the result.
\<close>

definition child_of_row :: "run_row \<Rightarrow> saga_run" where
  "child_of_row r = (run_of_row r)\<lparr>run_parent_step_id := None, run_parent_branch_id := None,
     run_try_catch_stack := [], run_wakeup_at := None, run_awaited_signal := None,
     run_awaited_event_topic := None, run_awaited_event_headers := [], run_feature_overrides := [],
     run_awaited_action_dispatch := None, run_current_attempt := 0, run_last_error := None\<rparr>"

definition awaiting_of_row :: "run_row \<Rightarrow> saga_run" where
  "awaiting_of_row r = (child_of_row r)\<lparr>run_wakeup_at := sr_wakeup_at r,
     run_awaited_signal := sr_awaited_signal r, run_awaited_event_topic := sr_awaited_event_topic r,
     run_awaited_event_headers := or_default (sr_awaited_event_headers r) []\<rparr>"

definition scanRunRow :: "run_row \<Rightarrow> saga_run" where
  "scanRunRow r = (child_of_row r)\<lparr>run_feature_overrides := sr_feature_overrides r\<rparr>"

section \<open>Changing runs\<close>

text \<open>\<^verbatim>\<open>UPDATE runtime.saga_runs SET f WHERE id = i AND guard\<close>, with the number of rows it touched.\<close>

definition run_update :: "uuid \<Rightarrow> (run_row \<Rightarrow> truth) \<Rightarrow> (run_row \<Rightarrow> run_row) \<Rightarrow> pgdb \<Rightarrow> nat \<times> pgdb" where
  "run_update i guard f db =
     (case sql_update (\<lambda>r. sql_and (Some (sr_id r = i)) (guard r)) f (saga_runs db) of
        (n, t) \<Rightarrow> (n, db\<lparr>saga_runs := t\<rparr>))"

text \<open>The answer of an update that must touch a row, and of one whose count is not looked at.\<close>

definition must_touch :: "uuid \<Rightarrow> nat \<times> pgdb \<Rightarrow> gerr option \<times> pgdb" where
  "must_touch i = (\<lambda>(n, db). (if n = 0 then Some (ErrNotFound ''saga_run'' i) else None, db))"

definition any_touch :: "nat \<times> pgdb \<Rightarrow> gerr option \<times> pgdb" where
  "any_touch = (\<lambda>(n, db). (None, db))"

definition run_exists :: "pgdb \<Rightarrow> uuid \<Rightarrow> bool" where
  "run_exists db i \<longleftrightarrow> i \<in> sr_id ` set (saga_runs db)"

text \<open>A guarded update that touched no row fails only if there is no such run.\<close>

definition notFoundUnlessRunExists :: "uuid \<Rightarrow> nat \<times> pgdb \<Rightarrow> gerr option \<times> pgdb" where
  "notFoundUnlessRunExists i = (\<lambda>(n, db).
     (if n > 0 \<or> run_exists db i then None else Some (ErrNotFound ''saga_run'' i), db))"

definition always :: "run_row \<Rightarrow> truth" where
  "always r = Some True"

definition not_ended :: "run_row \<Rightarrow> truth" where
  "not_ended r =
     sql_not (Some (sr_state r \<in> {RunStateSucceeded, RunStateFailed, RunStateCancelled}))"

definition pg_UpdateRunState :: "gotime \<Rightarrow> uuid \<Rightarrow> run_state \<Rightarrow> string \<Rightarrow> pgdb \<Rightarrow> gerr option \<times> pgdb" where
  "pg_UpdateRunState now i state currentStep db =
     must_touch i (run_update i always (\<lambda>r. r\<lparr>sr_state := state,
       sr_current_step := sql_nullif currentStep [], sr_last_event_at := timestamptz now,
       sr_terminal_at := (if IsTerminal state then Some (timestamptz now) else sr_terminal_at r)\<rparr>) db)"

definition pg_MarkRunFailed :: "gotime \<Rightarrow> uuid \<Rightarrow> string \<Rightarrow> string \<Rightarrow> pgdb \<Rightarrow> gerr option \<times> pgdb" where
  "pg_MarkRunFailed now i currentStep lastError db =
     notFoundUnlessRunExists i (run_update i not_ended (\<lambda>r. r\<lparr>sr_state := RunStateFailed,
       sr_current_step := sql_nullif currentStep [], sr_terminal_at := Some (timestamptz now), sr_last_event_at := timestamptz now,
       sr_last_error := sql_coalesce (sql_nullif lastError []) (sr_last_error r)\<rparr>) db)"

text \<open>Inserting an audit event: its unique key holds for events of a step only, as NULLs differ.\<close>

definition same_event :: "event_row \<Rightarrow> event_row \<Rightarrow> bool" where
  "same_event a b \<longleftrightarrow> se_run_id a = se_run_id b \<and> selects (sql_cmp (=) (se_step_id a) (se_step_id b))
     \<and> se_attempt a = se_attempt b \<and> se_event_type a = se_event_type b"

definition insert_event :: "event_row \<Rightarrow> pgdb \<Rightarrow> gerr + pgdb" where
  "insert_event e db =
     (if se_id e \<in> se_id ` set (saga_run_events db) \<or> (\<exists>x \<in> set (saga_run_events db). same_event x e)
      then Inl unique_violation
      else if \<not> run_exists db (se_run_id e) then Inl foreign_key_violation
      else Inr (db\<lparr>saga_run_events := saga_run_events db @ [e]\<rparr>))"

definition pg_Cancel :: "gotime \<Rightarrow> uuid \<Rightarrow> uuid \<Rightarrow> string \<Rightarrow> pgdb \<Rightarrow> gerr option \<times> pgdb" where
  "pg_Cancel now evid i reason db =
     (case run_update i not_ended (\<lambda>r. r\<lparr>sr_state := RunStateCancelled, sr_terminal_at := Some (timestamptz now),
             sr_last_event_at := timestamptz now, sr_last_error := sql_coalesce (sql_nullif reason []) (sr_last_error r),
             sr_wakeup_at := None, sr_awaited_signal := None, sr_awaited_event_topic := None,
             sr_awaited_event_headers := None, sr_awaited_action_dispatch := None\<rparr>) db of
        (n, db1) \<Rightarrow>
          (if n = 0 then (if run_exists db1 i then None else Some (ErrNotFound ''saga_run'' i), db)
           else let stepID = (case row_at sr_id i (saga_runs db1) of None \<Rightarrow> None | Some r \<Rightarrow> sr_current_step r);
                    (_, tasks) = sql_update (\<lambda>t. sql_and (Some (task_run_id t = i)) (is_null (task_submitted_at t)))
                      (\<lambda>t. t\<lparr>task_submitted_at := Some (timestamptz now), task_submitted_by := ''system:run-cancelled''\<rparr>)
                      (saga_user_tasks db1);
                    db2 = db1\<lparr>saga_user_tasks := tasks\<rparr>
                in case insert_event
                       \<lparr>se_id = evid, se_run_id = i, se_step_id = Some (or_default stepID []), se_attempt = 0,
                        se_event_type = EventRunCancelled, se_from_state = None, se_to_state = None,
                        se_actor = ''engine'', se_metadata = [(''reason'', VStr reason)], se_recorded_at = timestamptz now\<rparr> db2 of
                     Inl err \<Rightarrow> (Some (Errorf ''cancel: append event: %w'' [AErr err]), db)
                   | Inr db3 \<Rightarrow> (None, db3)))"

section \<open>Pausing and waking\<close>

definition pg_SetPausedWithWakeup :: "gotime \<Rightarrow> uuid \<Rightarrow> gotime \<Rightarrow> pgdb \<Rightarrow> gerr option \<times> pgdb" where
  "pg_SetPausedWithWakeup now i wakeupAt db =
     any_touch (run_update i always (\<lambda>r. r\<lparr>sr_state := RunStatePaused, sr_wakeup_at := Some (timestamptz wakeupAt),
       sr_last_event_at := timestamptz now\<rparr>) db)"

definition pg_SetPausedAwaitingSignal ::
  "gotime \<Rightarrow> uuid \<Rightarrow> string \<Rightarrow> gotime option \<Rightarrow> pgdb \<Rightarrow> gerr option \<times> pgdb" where
  "pg_SetPausedAwaitingSignal now i signalName deadline db =
     any_touch (run_update i always (\<lambda>r. r\<lparr>sr_state := RunStatePaused, sr_awaited_signal := Some signalName,
       sr_wakeup_at := map_option timestamptz deadline, sr_last_event_at := timestamptz now\<rparr>) db)"

definition pg_SetPausedAwaitingEventWithDeadline ::
  "gotime \<Rightarrow> uuid \<Rightarrow> string \<Rightarrow> (string \<times> string) list \<Rightarrow> gotime option \<Rightarrow> pgdb \<Rightarrow> gerr option \<times> pgdb" where
  "pg_SetPausedAwaitingEventWithDeadline now i topic headers deadline db =
     any_touch (run_update i always (\<lambda>r. r\<lparr>sr_state := RunStatePaused, sr_awaited_event_topic := Some topic,
       sr_awaited_event_headers := Some headers, sr_wakeup_at := map_option timestamptz deadline, sr_last_event_at := timestamptz now\<rparr>) db)"

definition pg_SetPausedAwaitingEvent ::
  "gotime \<Rightarrow> uuid \<Rightarrow> string \<Rightarrow> (string \<times> string) list \<Rightarrow> pgdb \<Rightarrow> gerr option \<times> pgdb" where
  "pg_SetPausedAwaitingEvent now i topic headers =
     pg_SetPausedAwaitingEventWithDeadline now i topic headers None"

definition clear_markers :: "gotime \<Rightarrow> run_row \<Rightarrow> run_row" where
  "clear_markers now r = r\<lparr>sr_awaited_signal := None, sr_awaited_event_topic := None,
     sr_awaited_event_headers := None, sr_wakeup_at := None, sr_last_event_at := timestamptz now\<rparr>"

definition pg_ClearPause :: "gotime \<Rightarrow> uuid \<Rightarrow> pgdb \<Rightarrow> gerr option \<times> pgdb" where
  "pg_ClearPause now i db =
     must_touch i (run_update i always (\<lambda>r. (clear_markers now r)\<lparr>sr_state := RunStateRunning\<rparr>) db)"

definition pg_WakeFromExternal :: "gotime \<Rightarrow> uuid \<Rightarrow> pgdb \<Rightarrow> gerr option \<times> pgdb" where
  "pg_WakeFromExternal now i db = must_touch i (run_update i always (clear_markers now) db)"

definition pg_FindRunsByDueWakeup :: "gotime \<Rightarrow> int \<Rightarrow> pgdb \<Rightarrow> uuid list" where
  "pg_FindRunsByDueWakeup now limit db =
     (let cond = (\<lambda>r. sql_and (sql_and (Some (sr_state r = RunStatePaused)) (sql_not (is_null (sr_wakeup_at r))))
                    (sql_cmp (\<le>) (sr_wakeup_at r) (Some (timestamptz now))))
      in map sr_id (take (nat limit)
           (insertion_sort (\<lambda>a b. or_default (sr_wakeup_at a) 0 < or_default (sr_wakeup_at b) 0)
             (sql_select cond (saga_runs db)))))"

definition pg_FindRunsByAwaitedEvent :: "string \<Rightarrow> pgdb \<Rightarrow> saga_run list" where
  "pg_FindRunsByAwaitedEvent topic db =
     map awaiting_of_row (sql_select (\<lambda>r. sql_and (Some (sr_state r = RunStatePaused))
       (sql_cmp (=) (sr_awaited_event_topic r) (Some topic))) (saga_runs db))"

text \<open>The row read \<^verbatim>\<open>FOR UPDATE\<close> must be paused; the two updates and the commit follow.\<close>

definition pg_TryConsumeAwaitedSignal :: "gotime \<Rightarrow> uuid \<Rightarrow> string \<Rightarrow> pgdb \<Rightarrow> bool \<times> pgdb" where
  "pg_TryConsumeAwaitedSignal now i signalName db =
     (case sql_select (\<lambda>r. sql_and (Some (sr_id r = i)) (Some (sr_state r = RunStatePaused))) (saga_runs db) of
        [] \<Rightarrow> (False, db)
      | r # _ \<Rightarrow>
          (if sr_awaited_signal r \<noteq> Some signalName then (False, db)
           else let (_, db1) = run_update i always (clear_markers now) db;
                    (_, sigs) = sql_update (\<lambda>g. sql_and (sql_and (Some (sig_run_id g = i))
                        (Some (sig_name g = signalName))) (is_null (sig_consumed_at g)))
                      (\<lambda>g. g\<lparr>sig_consumed_at := Some (timestamptz now)\<rparr>) (saga_signals db1)
                in (True, db1\<lparr>saga_signals := sigs\<rparr>)))"

definition pg_AppendSignal :: "saga_signal \<Rightarrow> pgdb \<Rightarrow> gerr option \<times> pgdb" where
  "pg_AppendSignal g db =
     (case insert_row sig_id (g\<lparr>sig_payload := jsonb (sig_payload g),
           sig_received_at := timestamptz (sig_received_at g), sig_consumed_at := None\<rparr>) (saga_signals db) of
        Inl err \<Rightarrow> (Some (Errorf ''append signal: %w'' [AErr err]), db)
      | Inr t \<Rightarrow>
          (if run_exists db (sig_run_id g) then (None, db\<lparr>saga_signals := t\<rparr>)
           else (Some (Errorf ''append signal: %w'' [AErr foreign_key_violation]), db)))"

section \<open>Child runs and the try/catch stack\<close>

definition pg_SpawnChildRunAt ::
  "uuid \<Rightarrow> gotime \<Rightarrow> uuid \<Rightarrow> string \<Rightarrow> string \<Rightarrow> workflow_definition \<Rightarrow> gomap \<Rightarrow> string
   \<Rightarrow> pgdb \<Rightarrow> (gerr + uuid) \<times> pgdb" where
  "pg_SpawnChildRunAt childID now parentID parentStepID branchKey def inputs startStep db =
     (case row_at def_key (def_id def, def_version def) (workflow_definitions db) of
        None \<Rightarrow> (Inl (Errorf ''spawn child: resolve definition %s v%d: %w''
                  [AStr (def_id def), AInt (def_version def),
                   AErr (ErrNotFound ''workflow_definition'' (def_id def))]), db)
      | Some d \<Rightarrow>
          (let child = NewSagaRun childID now (def_id def) (wd_id d) None inputs;
               child = (if startStep \<noteq> [] then child\<lparr>run_current_step := startStep\<rparr> else child);
               child = child\<lparr>run_parent_run_id := Some parentID, run_parent_step_id := Some parentStepID,
                             run_parent_branch_id := Some branchKey\<rparr>
           in case pg_CreateRun child db of
                (Some err, db1) \<Rightarrow> (Inl (Errorf ''spawn child: create: %w'' [AErr err]), db1)
              | (None, db1) \<Rightarrow> (Inr (run_id child), db1)))"

definition pg_SpawnChildRun ::
  "uuid \<Rightarrow> gotime \<Rightarrow> uuid \<Rightarrow> string \<Rightarrow> string \<Rightarrow> workflow_definition \<Rightarrow> gomap \<Rightarrow> pgdb \<Rightarrow> (gerr + uuid) \<times> pgdb" where
  "pg_SpawnChildRun childID now parentID parentStepID branchKey def inputs =
     pg_SpawnChildRunAt childID now parentID parentStepID branchKey def inputs []"

definition pg_ListChildrenByParent :: "pgdb \<Rightarrow> uuid \<Rightarrow> string \<Rightarrow> saga_run list" where
  "pg_ListChildrenByParent db parentID parentStepID =
     map child_of_row (sql_select (\<lambda>r. sql_and (sql_cmp (=) (sr_parent_run_id r) (Some parentID))
       (sql_cmp (=) (sr_parent_step_id r) (Some parentStepID))) (saga_runs db))"

definition pg_PushTryCatch :: "gotime \<Rightarrow> uuid \<Rightarrow> try_catch_frame \<Rightarrow> pgdb \<Rightarrow> gerr option \<times> pgdb" where
  "pg_PushTryCatch now i frame db =
     (case row_at sr_id i (saga_runs db) of
        None \<Rightarrow> (Some (ErrNotFound ''saga_run'' i), db)
      | Some r \<Rightarrow>
          (let stack = sr_try_catch_stack r
           in if length stack \<ge> 3
              then (Some (Errorf ''try_catch max nesting depth %d exceeded for run %s'' [AInt 3, AStr i]), db)
              else any_touch (run_update i always (\<lambda>r. r\<lparr>sr_try_catch_stack := stack @ [frame],
                     sr_last_event_at := timestamptz now\<rparr>) db)))"

definition pg_PopTryCatch :: "gotime \<Rightarrow> uuid \<Rightarrow> pgdb \<Rightarrow> (gerr + try_catch_frame option) \<times> pgdb" where
  "pg_PopTryCatch now i db =
     (case row_at sr_id i (saga_runs db) of
        None \<Rightarrow> (Inl (ErrNotFound ''saga_run'' i), db)
      | Some r \<Rightarrow>
          (let stack = sr_try_catch_stack r
           in if stack = [] then (Inr None, db)
              else (Inr (Some (last stack)),
                    snd (run_update i always (\<lambda>r. r\<lparr>sr_try_catch_stack := butlast stack,
                      sr_last_event_at := timestamptz now\<rparr>) db))))"

section \<open>Variables\<close>

text \<open>
  The keys are split as the in-memory store does; those without a dot are merged by one
  \<^verbatim>\<open>||\<close>, the others are written one by one after their parents were made objects.
\<close>

definition split_merge :: "gomap \<Rightarrow> gomap \<times> (string list \<times> val) list" where
  "split_merge m =
     foldl (\<lambda>(flat, dotted) (k, v).
       (case dotted_loop [] [] k of
          [p] \<Rightarrow> (AList.update p v flat, dotted)
        | parts \<Rightarrow> (flat, dotted @ [(parts, v)]))) ([], []) m"

definition make_parent :: "string list \<Rightarrow> gomap \<Rightarrow> gomap" where
  "make_parent path vars =
     jsonb_set vars path (if is_object (jsonb_get vars path) then the (jsonb_get vars path) else VMap [])"

definition set_dotted :: "string list \<Rightarrow> val \<Rightarrow> gomap \<Rightarrow> gomap" where
  "set_dotted parts v vars =
     jsonb_set (fold (\<lambda>i. make_parent (take i parts)) [1..<length parts] vars) parts (jsonb_val v)"

definition pg_merge :: "gomap \<Rightarrow> gomap \<Rightarrow> gomap" where
  "pg_merge vars m =
     (case split_merge m of (flat, dotted) \<Rightarrow>
        fold (\<lambda>(parts, v). set_dotted parts v) dotted
          (if flat = [] then vars else jsonb_concat vars (jsonb flat)))"

definition pg_UpdateRunVariables :: "gotime \<Rightarrow> uuid \<Rightarrow> gomap \<Rightarrow> pgdb \<Rightarrow> gerr option \<times> pgdb" where
  "pg_UpdateRunVariables now i m db =
     (if m = [] then (None, db)
      else if \<not> run_exists db i then (Some (ErrNotFound ''saga_run'' i), db)
      else any_touch (run_update i always (\<lambda>r. r\<lparr>sr_variables := pg_merge (sr_variables r) m,
             sr_last_event_at := timestamptz now\<rparr>) db))"

section \<open>Run queries\<close>

definition list_cond :: "run_filter \<Rightarrow> saga_trigger list \<Rightarrow> run_row \<Rightarrow> truth" where
  "list_cond f trigs r =
     (let on = (\<lambda>b p. if b then p else Some True);
          joined = (case sr_trigger_id r of None \<Rightarrow> None | Some i \<Rightarrow> row_at trig_id i trigs)
      in foldr sql_and
        [on (rfilter_workflow_id f \<noteq> []) (Some (sr_workflow_id r = rfilter_workflow_id f)),
         on (rfilter_state f \<noteq> []) (Some (run_state_str (sr_state r) = rfilter_state f)),
         on (rfilter_since f \<noteq> None) (sql_cmp (\<ge>) (Some (sr_started_at r)) (map_option timestamptz (rfilter_since f))),
         (case rfilter_has_error f of None \<Rightarrow> Some True
          | Some True \<Rightarrow> Some (sr_state r = RunStateFailed)
          | Some False \<Rightarrow> Some (sr_state r \<noteq> RunStateFailed)),
         on (rfilter_requires_review f \<noteq> None)
           (sql_cmp (=) (Some (sr_requires_manual_review r)) (rfilter_requires_review f)),
         on (rfilter_trigger_type f \<noteq> [])
           (sql_cmp (=) (map_option (\<lambda>t. trigger_type_str (trig_type t)) joined) (Some (rfilter_trigger_type f)))]
        (Some True))"

definition pg_ListRuns :: "run_filter \<Rightarrow> pgdb \<Rightarrow> saga_run list" where
  "pg_ListRuns f db =
     (let sorted = insertion_sort (\<lambda>a b. sr_started_at b < sr_started_at a)
                     (sql_select (list_cond f (saga_triggers db)) (saga_runs db));
          limit = (if rfilter_limit f \<le> 0 then 50 else rfilter_limit f)
      in map scanRunRow (limit_offset limit (if rfilter_offset f > 0 then rfilter_offset f else 0) sorted))"

definition pg_CountRuns :: "run_filter \<Rightarrow> pgdb \<Rightarrow> int" where
  "pg_CountRuns f db = int (length (sql_select (list_cond f (saga_triggers db)) (saga_runs db)))"

text \<open>The aggregates: \<^verbatim>\<open>max\<close> of no rows is NULL.\<close>

definition pg_StatsForWorkflow :: "gotime \<Rightarrow> string \<Rightarrow> pgdb \<Rightarrow> workflow_stats" where
  "pg_StatsForWorkflow now workflowID db =
     (let mine = sql_select (\<lambda>r. Some (sr_workflow_id r = workflowID)) (saga_runs db);
          recent = (\<lambda>s. int (length (filter (\<lambda>r. sr_state r = s \<and> sr_started_at r \<ge> timestamptz now - 24 * 3600 * second_ns) mine)));
          ok = recent RunStateSucceeded; bad = recent RunStateFailed
      in \<lparr>stats_workflow_id = workflowID,
          stats_success_rate = (if ok + bad > 0 then Some (of_int ok / of_int (ok + bad)) else None),
          stats_last_run_at = (if mine = [] then None else Some (Max (set (map sr_started_at mine)))),
          stats_in_flight = int (length (sql_select not_ended mine))\<rparr>)"

section \<open>Awaited actions\<close>

text \<open>The guard against a repeated mark: \<^verbatim>\<open>NOT (current_attempt = .. AND awaited_action_dispatch = ..)\<close>.\<close>

definition pg_MarkAwaitingAction :: "gotime \<Rightarrow> uuid \<Rightarrow> string \<Rightarrow> int \<Rightarrow> pgdb \<Rightarrow> gerr option \<times> pgdb" where
  "pg_MarkAwaitingAction now i dispatch attempt db =
     any_touch (run_update i
       (\<lambda>r. sql_not (sql_and (Some (sr_current_attempt r = attempt))
              (sql_cmp (=) (sr_awaited_action_dispatch r) (Some dispatch))))
       (\<lambda>r. r\<lparr>sr_state := RunStatePaused, sr_awaited_action_dispatch := Some dispatch,
              sr_current_attempt := attempt, sr_last_event_at := timestamptz now\<rparr>) db)"

definition pg_CompleteAction :: "gotime \<Rightarrow> uuid \<Rightarrow> int \<Rightarrow> gomap \<Rightarrow> pgdb \<Rightarrow> gerr option \<times> pgdb" where
  "pg_CompleteAction now i attempt result db =
     notFoundUnlessRunExists i (run_update i (\<lambda>r. Some (sr_current_attempt r = attempt))
       (\<lambda>r. r\<lparr>sr_awaited_action_dispatch := None, sr_wakeup_at := Some (timestamptz now), sr_last_event_at := timestamptz now,
              sr_variables := (if result = [] then sr_variables r
                               else jsonb_concat (sr_variables r) (jsonb result))\<rparr>) db)"

definition pg_FailAction ::
  "gotime \<Rightarrow> uuid \<Rightarrow> uuid \<Rightarrow> int \<Rightarrow> string \<Rightarrow> string \<Rightarrow> bool \<Rightarrow> pgdb \<Rightarrow> gerr option \<times> pgdb" where
  "pg_FailAction now evid i attempt code message retryable db =
     (case row_at sr_id i (saga_runs db) of
        None \<Rightarrow> (Some (ErrNotFound ''saga_run'' i), db)
      | Some r \<Rightarrow>
          (if sr_current_attempt r \<noteq> attempt then (None, db)
           else let dispatch = or_default (sr_awaited_action_dispatch r) [];
                    stepID = or_default (sr_current_step r) [];
                    (_, db1) = run_update i always (\<lambda>r. r\<lparr>sr_state := RunStateFailed,
                      sr_awaited_action_dispatch := None, sr_terminal_at := Some (timestamptz now), sr_last_event_at := timestamptz now,
                      sr_last_error := sql_nullif message []\<rparr>) db
                in case insert_event
                       \<lparr>se_id = evid, se_run_id = i, se_step_id = Some stepID, se_attempt = attempt,
                        se_event_type = EventStepFailed, se_from_state = None, se_to_state = None,
                        se_actor = ''engine'',
                        se_metadata = jsonb [(''code'', VStr code), (''message'', VStr message),
                          (''retryable'', VBool retryable), (''action'', VStr dispatch)],
                        se_recorded_at = timestamptz now\<rparr> db1 of
                     Inl err \<Rightarrow> (Some (Errorf ''fail action: append event: %w'' [AErr err]), db)
                   | Inr db2 \<Rightarrow> (None, db2)))"

section \<open>Events\<close>

definition row_of_event :: "saga_run_event \<Rightarrow> event_row" where
  "row_of_event e =
     \<lparr>se_id = ev_id e, se_run_id = ev_run_id e, se_step_id = sql_nullif (ev_step_id e) [],
      se_attempt = ev_attempt e, se_event_type = ev_type e,
      se_from_state = sql_nullif (ev_from_state e) [], se_to_state = sql_nullif (ev_to_state e) [],
      se_actor = ev_actor e, se_metadata = jsonb (ev_metadata e), se_recorded_at = timestamptz (ev_recorded_at e)\<rparr>"

text \<open>\<^verbatim>\<open>ON CONFLICT .. DO NOTHING\<close> on the unique key.\<close>

definition pg_AppendEvent :: "saga_run_event \<Rightarrow> pgdb \<Rightarrow> gerr option \<times> pgdb" where
  "pg_AppendEvent e db =
     (if \<exists>x \<in> set (saga_run_events db). same_event x (row_of_event e) then (None, db)
      else case insert_event (row_of_event e) db of
        Inl err \<Rightarrow> (Some err, db)
      | Inr db1 \<Rightarrow> (None, db1))"

definition event_of_row :: "event_row \<Rightarrow> saga_run_event" where
  "event_of_row r =
     \<lparr>ev_id = se_id r, ev_run_id = se_run_id r, ev_step_id = or_default (se_step_id r) [],
      ev_attempt = se_attempt r, ev_type = se_event_type r, ev_from_state = or_default (se_from_state r) [],
      ev_to_state = or_default (se_to_state r) [], ev_actor = se_actor r, ev_metadata = se_metadata r,
      ev_recorded_at = se_recorded_at r\<rparr>"

text \<open>
  \<^verbatim>\<open>ORDER BY recorded_at ASC\<close> says nothing of events of the same microsecond: \<open>tie\<close> is the order
  the server puts them in.
\<close>

type_synonym event_tie = "saga_run_event \<Rightarrow> saga_run_event \<Rightarrow> bool"

definition event_before :: "event_tie \<Rightarrow> saga_run_event \<Rightarrow> saga_run_event \<Rightarrow> bool" where
  "event_before tie a b \<longleftrightarrow>
     ev_recorded_at a < ev_recorded_at b \<or> ev_recorded_at a = ev_recorded_at b \<and> tie a b"

definition pg_ListEventsByRun :: "event_tie \<Rightarrow> pgdb \<Rightarrow> uuid \<Rightarrow> saga_run_event list" where
  "pg_ListEventsByRun tie db i =
     insertion_sort (event_before tie)
       (map event_of_row (sql_select (\<lambda>r. Some (se_run_id r = i)) (saga_run_events db)))"

definition pg_GetEventByID :: "pgdb \<Rightarrow> uuid \<Rightarrow> gerr + saga_run_event" where
  "pg_GetEventByID db i =
     (case row_at se_id i (saga_run_events db) of
        None \<Rightarrow> Inl (ErrNotFound ''saga_run_event'' i)
      | Some r \<Rightarrow> Inr (event_of_row r))"

section \<open>User tasks\<close>

definition pg_CreateUserTask :: "user_task \<Rightarrow> pgdb \<Rightarrow> gerr option \<times> pgdb" where
  "pg_CreateUserTask t db =
     (let r = t\<lparr>task_form_schema := jsonb (task_form_schema t),
                task_due_at := map_option timestamptz (task_due_at t), task_submitted_at := None,
                task_submitted_by := [], task_result := []\<rparr>
      in case insert_row task_id r (saga_user_tasks db) of
           Inl err \<Rightarrow> (Some (Errorf ''create user task: %w'' [AErr err]), db)
         | Inr tab \<Rightarrow>
             (if run_exists db (task_run_id t) then (None, db\<lparr>saga_user_tasks := tab\<rparr>)
              else (Some (Errorf ''create user task: %w'' [AErr foreign_key_violation]), db)))"

definition pg_GetUserTask :: "pgdb \<Rightarrow> uuid \<Rightarrow> gerr + user_task" where
  "pg_GetUserTask db i =
     (case row_at task_id i (saga_user_tasks db) of
        None \<Rightarrow> Inl (ErrNotFound ''user_task'' i)
      | Some t \<Rightarrow> Inr t)"

definition pg_ListUserTasksByRun :: "pgdb \<Rightarrow> uuid \<Rightarrow> user_task list" where
  "pg_ListUserTasksByRun db i =
     insertion_sort (\<lambda>a b. uuidLess (task_id a) (task_id b))
       (sql_select (\<lambda>t. Some (task_run_id t = i)) (saga_user_tasks db))"

definition pg_SubmitUserTask :: "gotime \<Rightarrow> uuid \<Rightarrow> string \<Rightarrow> gomap \<Rightarrow> pgdb \<Rightarrow> gerr option \<times> pgdb" where
  "pg_SubmitUserTask now i submittedBy result db =
     (case sql_update (\<lambda>t. Some (task_id t = i))
             (\<lambda>t. t\<lparr>task_submitted_at := Some (timestamptz now), task_submitted_by := submittedBy,
                    task_result := jsonb result\<rparr>) (saga_user_tasks db) of
        (n, tab) \<Rightarrow> (if n = 0 then Some (ErrNotFound ''user_task'' i) else None, db\<lparr>saga_user_tasks := tab\<rparr>))"

section \<open>Rules\<close>

definition jsonb_rule_spec :: "rule_spec \<Rightarrow> rule_spec" where
  "jsonb_rule_spec sp = sp\<lparr>
     spec_rows := map (\<lambda>row. row\<lparr>row_then := jsonb (row_then row)\<rparr>) (spec_rows sp),
     spec_default_output :=
       (case spec_default_output sp of None \<Rightarrow> None | Some m \<Rightarrow> if m = [] then None else Some (jsonb m))\<rparr>"

definition rule_key :: "rule_definition \<Rightarrow> string \<times> int" where
  "rule_key r = (rule_rule_id r, rule_version r)"

definition pg_UpsertRuleDefinition ::
  "(string \<Rightarrow> uuid option) \<Rightarrow> uuid \<Rightarrow> gotime \<Rightarrow> rule_definition \<Rightarrow> pgdb \<Rightarrow> (gerr + uuid) \<times> pgdb" where
  "pg_UpsertRuleDefinition as_uuid fresh now d db =
     (case uuid_param as_uuid (rule_tenant_id d) of
        Inl err \<Rightarrow> (Inl (Errorf ''upsert rule: %w'' [AErr err]), db)
      | Inr tenant \<Rightarrow>
          (let i = (if rule_uuid d = uuid_Nil then fresh else rule_uuid d);
               r = d\<lparr>rule_uuid := i, rule_tenant_id := tenant, rule_spec := jsonb_rule_spec (rule_spec d),
                     rule_created_at := timestamptz now\<rparr>
           in if i \<in> rule_uuid ` set (rule_definitions db) \<and> rule_key r \<notin> rule_key ` set (rule_definitions db)
              then (Inl (Errorf ''upsert rule: %w'' [AErr unique_violation]), db)
              else (Inr i, db\<lparr>rule_definitions :=
                upsert_row rule_key
                  (\<lambda>old new. old\<lparr>rule_spec := rule_spec new, rule_name := rule_name new,
                                 rule_published := rule_published new\<rparr>) r (rule_definitions db)\<rparr>)))"

definition pg_GetPublishedRuleByID :: "pgdb \<Rightarrow> string \<Rightarrow> uuid option \<Rightarrow> gerr + rule_definition" where
  "pg_GetPublishedRuleByID db ruleID tenantID =
     (let cond = (\<lambda>r. sql_and (sql_and (Some (rule_rule_id r = ruleID)) (Some (rule_published r)))
             (sql_or (sql_or (is_null tenantID) (is_null (rule_tenant_id r)))
                     (sql_cmp (=) (rule_tenant_id r) tenantID)))
      in case insertion_sort (\<lambda>a b. rule_version b < rule_version a) (sql_select cond (rule_definitions db)) of
           [] \<Rightarrow> Inl (ErrNotFound ''rule_definition'' ruleID)
         | r # _ \<Rightarrow> Inr r)"

section \<open>Action registry\<close>

definition action_key :: "action_registration \<Rightarrow> string \<times> string \<times> int" where
  "action_key g = (reg_service g, reg_action_name g, reg_version g)"

text \<open>An update keeps the id, the registration time and the key of the old row.\<close>

definition pg_UpsertActionRegistration ::
  "uuid \<Rightarrow> gotime \<Rightarrow> action_registration \<Rightarrow> pgdb \<Rightarrow> gerr option \<times> pgdb" where
  "pg_UpsertActionRegistration fresh now g db =
     (let i = (if reg_id g = uuid_Nil then fresh else reg_id g);
          r = g\<lparr>reg_id := i, reg_registered_at := timestamptz now, reg_input_schema := jsonb (reg_input_schema g),
                reg_output_schema := jsonb (reg_output_schema g)\<rparr>
      in if i \<in> reg_id ` set (action_registry db) \<and> action_key r \<notin> action_key ` set (action_registry db)
         then (Some (Errorf ''upsert action: %w'' [AErr unique_violation]), db)
         else (None, db\<lparr>action_registry :=
                upsert_row action_key (\<lambda>old new. new\<lparr>reg_id := reg_id old,
                  reg_registered_at := reg_registered_at old\<rparr>) r (action_registry db)\<rparr>))"

text \<open>\<^verbatim>\<open>ORDER BY service, action_name, version\<close>; \<open>before\<close> is the collation of the database.\<close>

definition action_before ::
  "(string \<Rightarrow> string \<Rightarrow> bool) \<Rightarrow> action_registration \<Rightarrow> action_registration \<Rightarrow> bool" where
  "action_before before a b =
     (if reg_service a \<noteq> reg_service b then before (reg_service a) (reg_service b)
      else if reg_action_name a \<noteq> reg_action_name b then before (reg_action_name a) (reg_action_name b)
      else reg_version a < reg_version b)"

definition pg_ListActions ::
  "(string \<Rightarrow> string \<Rightarrow> bool) \<Rightarrow> action_filter \<Rightarrow> pgdb \<Rightarrow> action_registration list" where
  "pg_ListActions before f db =
     (let cond = (\<lambda>g. sql_and (sql_and
            (Some (afilter_service f = [] \<or> reg_service g = afilter_service f))
            (Some (afilter_category f = [] \<or> reg_category g = afilter_category f)))
            (Some (afilter_search f = [] \<or> like (''%'' @ afilter_search f @ ''%'') (reg_action_name g))))
      in insertion_sort (action_before before) (sql_select cond (action_registry db)))"

definition pg_GetAction :: "pgdb \<Rightarrow> string \<Rightarrow> string \<Rightarrow> int \<Rightarrow> gerr + action_registration" where
  "pg_GetAction db service name version =
     (case row_at action_key (service, name, version) (action_registry db) of
        None \<Rightarrow> Inl (ErrNotFound ''action_registration'' (service @ ''.'' @ name))
      | Some g \<Rightarrow> Inr g)"

section \<open>Triggers\<close>

definition pg_UpsertTrigger :: "uuid \<Rightarrow> gotime \<Rightarrow> saga_trigger \<Rightarrow> pgdb \<Rightarrow> uuid \<times> pgdb" where
  "pg_UpsertTrigger fresh now t db =
     (let i = (if trig_id t = uuid_Nil then fresh else trig_id t);
          r = t\<lparr>trig_id := i, trig_config := jsonb (trig_config t),
                trig_created_at := timestamptz (if trig_created_at t = 0 then now else trig_created_at t),
                trig_next_fire_at := map_option timestamptz (trig_next_fire_at t),
                trig_last_fired_at := map_option timestamptz (trig_last_fired_at t)\<rparr>
      in (i, db\<lparr>saga_triggers :=
               upsert_row trig_id (\<lambda>old new. new\<lparr>trig_created_at := trig_created_at old,
                 trig_created_by := trig_created_by old\<rparr>) r (saga_triggers db)\<rparr>))"

definition pg_GetTrigger :: "pgdb \<Rightarrow> uuid \<Rightarrow> gerr + saga_trigger" where
  "pg_GetTrigger db i =
     (case row_at trig_id i (saga_triggers db) of
        None \<Rightarrow> Inl (ErrNotFound ''saga_trigger'' i)
      | Some t \<Rightarrow> Inr t)"

definition pg_ListTriggers :: "trigger_filter \<Rightarrow> pgdb \<Rightarrow> saga_trigger list" where
  "pg_ListTriggers f db =
     (let cond = (\<lambda>t. sql_and (sql_and
            (case tfilter_type f of None \<Rightarrow> Some True | Some ty \<Rightarrow> Some (trig_type t = ty))
            (case tfilter_enabled f of None \<Rightarrow> Some True | Some b \<Rightarrow> Some (trig_enabled t = b)))
            (case tfilter_tenant_id f of None \<Rightarrow> Some True | Some i \<Rightarrow> sql_cmp (=) (trig_tenant_id t) (Some i)))
      in insertion_sort (\<lambda>a b. trig_created_at a < trig_created_at b) (sql_select cond (saga_triggers db)))"

definition pg_DeleteTrigger :: "uuid \<Rightarrow> pgdb \<Rightarrow> gerr option \<times> pgdb" where
  "pg_DeleteTrigger i db =
     (case sql_delete (\<lambda>t. Some (trig_id t = i)) (saga_triggers db) of
        (n, tab) \<Rightarrow> (if n = 0 then Some (ErrNotFound ''saga_trigger'' i) else None, db\<lparr>saga_triggers := tab\<rparr>))"

definition pg_ListDueCronTriggers :: "gotime \<Rightarrow> int \<Rightarrow> pgdb \<Rightarrow> saga_trigger list" where
  "pg_ListDueCronTriggers now limit db =
     (let cond = (\<lambda>t. sql_and (sql_and (Some (trig_type t = TriggerCron)) (Some (trig_enabled t)))
            (sql_and (sql_not (is_null (trig_next_fire_at t))) (sql_cmp (\<le>) (trig_next_fire_at t) (Some (timestamptz now)))))
      in take (nat limit) (insertion_sort fires_before (sql_select cond (saga_triggers db))))"

definition pg_ClaimCronFire :: "gotime \<Rightarrow> uuid \<Rightarrow> gotime \<Rightarrow> gotime \<Rightarrow> pgdb \<Rightarrow> bool \<times> pgdb" where
  "pg_ClaimCronFire now i expectedNextFire newNextFire db =
     (case sql_update (\<lambda>t. sql_and (Some (trig_id t = i))
             (sql_cmp (=) (trig_next_fire_at t) (Some (timestamptz expectedNextFire))))
             (\<lambda>t. t\<lparr>trig_next_fire_at := Some (timestamptz newNextFire), trig_last_fired_at := Some (timestamptz now)\<rparr>) (saga_triggers db) of
        (n, tab) \<Rightarrow> (n \<noteq> 0, db\<lparr>saga_triggers := tab\<rparr>))"

definition pg_RecordTriggerFire ::
  "uuid \<Rightarrow> gotime \<Rightarrow> uuid \<Rightarrow> string \<Rightarrow> uuid option \<Rightarrow> string \<Rightarrow> pgdb \<Rightarrow> gerr option \<times> pgdb" where
  "pg_RecordTriggerFire fresh now triggerID workflowID runID fireErr db =
     (case insert_row fire_id \<lparr>fire_id = fresh, fire_trigger_id = triggerID, fire_workflow_id = workflowID,
             fire_fired_at = timestamptz now, fire_resulting_run_id = runID, fire_error = fireErr\<rparr> (saga_trigger_fires db) of
        Inl err \<Rightarrow> (Some (Errorf ''record trigger fire: %w'' [AErr err]), db)
      | Inr tab \<Rightarrow> (None, db\<lparr>saga_trigger_fires := tab\<rparr>))"

end
