(* ===== verification/Postgres_Properties.thy ===== *)
theory Postgres_Properties
  imports Postgres_Store
begin

text \<open>
  What the statements of the PostgreSQL store promise: each of its run operations as one change of one
  run, the merge of variables by JSONB operators, the claims, the effect of the unique key on
  audit events, and concurrent consumers of a signal under row locks.
\<close>

section \<open>Run operations\<close>

lemma row_at_run_update:
  assumes "\<And>r. sr_id (f r) = sr_id r"
  shows "row_at sr_id j (saga_runs (snd (run_update i g f db))) =
    map_option (\<lambda>r. if j = i \<and> selects (g r) then f r else r) (row_at sr_id j (saga_runs db))"
proof -
  have "row_at sr_id j (saga_runs (snd (run_update i g f db))) =
      map_option (\<lambda>r. if sr_id r = i \<and> selects (g r) then f r else r) (row_at sr_id j (saga_runs db))"
    by (simp add: run_update_def sql_update_def row_at_map assms)
  then show ?thesis
    by (cases "row_at sr_id j (saga_runs db)") (auto dest: row_at_key)
qed

lemma run_exists_iff: "run_exists db i \<longleftrightarrow> row_at sr_id i (saga_runs db) \<noteq> None"
  by (simp add: run_exists_def row_at_None_iff)

lemma touched_none: "fst (run_update i always f db) = 0 \<longleftrightarrow> row_at sr_id i (saga_runs db) = None"
  by (auto simp: run_update_def sql_update_def sql_select_def always_def row_at_None_iff filter_empty_conv)

lemma run_update_fields [simp]:
  "workflow_definitions (snd (run_update i g f db)) = workflow_definitions db"
  "rule_definitions (snd (run_update i g f db)) = rule_definitions db"
  "action_registry (snd (run_update i g f db)) = action_registry db"
  "saga_run_events (snd (run_update i g f db)) = saga_run_events db"
  "saga_signals (snd (run_update i g f db)) = saga_signals db"
  "saga_user_tasks (snd (run_update i g f db)) = saga_user_tasks db"
  "saga_triggers (snd (run_update i g f db)) = saga_triggers db"
  "saga_trigger_fires (snd (run_update i g f db)) = saga_trigger_fires db"
  by (simp_all add: run_update_def sql_update_def)

definition as_sum :: "gerr option \<times> 's \<Rightarrow> gerr + 's" where
  "as_sum r = (case fst r of Some e \<Rightarrow> Inl e | None \<Rightarrow> Inr (snd r))"

lemma must_touch_run_op:
  assumes "\<And>r. sr_id (f r) = sr_id r" and "\<And>r. run_of_row (f r) = eff (run_of_row r)"
  shows "run_op pg_GetRun (\<lambda>i db. as_sum (must_touch i (run_update i always f db))) eff"
  by unfold_locales
    (auto simp: pg_GetRun_def as_sum_def must_touch_def split_beta touched_none row_at_run_update [OF assms(1)]
      always_def assms(2) split: option.splits if_splits)

interpretation pg_state_op: run_op pg_GetRun "\<lambda>i db. as_sum (pg_UpdateRunState now i state cur db)"
    "\<lambda>r. r\<lparr>run_state := state, run_current_step := cur, run_last_event_at := timestamptz now,
          run_terminal_at := (if IsTerminal state then Some (timestamptz now) else run_terminal_at r)\<rparr>" for now state cur
  unfolding pg_UpdateRunState_def by (rule must_touch_run_op) (simp_all add: run_of_row_def sql_nullif_def)

interpretation pg_clear_op: run_op pg_GetRun "\<lambda>i db. as_sum (pg_ClearPause now i db)"
    "\<lambda>r. (clear_awaits r)\<lparr>run_state := RunStateRunning, run_last_event_at := timestamptz now\<rparr>" for now
  unfolding pg_ClearPause_def
  by (rule must_touch_run_op) (simp_all add: run_of_row_def clear_markers_def clear_awaits_def)

interpretation pg_wake_op: run_op pg_GetRun "\<lambda>i db. as_sum (pg_WakeFromExternal now i db)"
    "\<lambda>r. (clear_awaits r)\<lparr>run_last_event_at := timestamptz now\<rparr>" for now
  unfolding pg_WakeFromExternal_def
  by (rule must_touch_run_op) (simp_all add: run_of_row_def clear_markers_def clear_awaits_def)

lemma touched_exists: "fst (run_update i g f db) > 0 \<Longrightarrow> run_exists db i"
  by (auto simp: run_update_def sql_update_def sql_select_def run_exists_def filter_empty_conv)

lemma guarded_answer:
  assumes "\<And>r. sr_id (f r) = sr_id r"
  shows "fst (notFoundUnlessRunExists i (run_update i g f db)) =
    (if run_exists db i then None else Some (ErrNotFound ''saga_run'' i))"
proof -
  have "run_exists (snd (run_update i g f db)) i = run_exists db i"
    by (simp add: run_exists_iff row_at_run_update [OF assms])
  then show ?thesis
    using touched_exists [of i g f db] by (auto simp: notFoundUnlessRunExists_def split_beta)
qed

lemma guarded_state [simp]: "snd (notFoundUnlessRunExists i x) = snd x" "snd (any_touch x) = snd x"
    "snd (must_touch i x) = snd x" "fst (any_touch x) = None"
  by (simp_all add: notFoundUnlessRunExists_def any_touch_def must_touch_def split_beta)

lemma guarded_run_op:
  assumes id: "\<And>r. sr_id (f r) = sr_id r"
    and eff: "\<And>r. run_of_row (if selects (g r) then f r else r) = eff (run_of_row r)"
  shows "run_op pg_GetRun (\<lambda>i db. as_sum (notFoundUnlessRunExists i (run_update i g f db))) eff"
  by unfold_locales
    (auto simp: pg_GetRun_def as_sum_def guarded_answer [OF id] run_exists_iff row_at_run_update [OF id]
      eff [symmetric] split: option.splits if_splits)

text \<open>The failure mark leaves ended runs alone.\<close>

lemma not_ended_iff: "selects (not_ended r) \<longleftrightarrow> \<not> IsTerminal (sr_state r)"
  by (cases "sr_state r") (simp_all add: not_ended_def)

interpretation pg_fail_op: terminal_safe_op pg_GetRun "\<lambda>i db. as_sum (pg_MarkRunFailed now i cur msg db)"
    "failed_run (timestamptz now) cur msg" for now cur msg
proof -
  have "run_op pg_GetRun (\<lambda>i db. as_sum (pg_MarkRunFailed now i cur msg db)) (failed_run (timestamptz now) cur msg)"
    unfolding pg_MarkRunFailed_def
    by (rule guarded_run_op)
      (simp_all add: not_ended_iff failed_run_def run_of_row_def sql_nullif_def sql_coalesce_def)
  then show "terminal_safe_op pg_GetRun (\<lambda>i db. as_sum (pg_MarkRunFailed now i cur msg db)) (failed_run (timestamptz now) cur msg)"
    by (simp add: terminal_safe_op_def terminal_safe_op_axioms_def failed_run_def)
qed

interpretation pg_complete_op: run_op pg_GetRun "\<lambda>i db. as_sum (pg_CompleteAction now i a m db)"
    "\<lambda>r. if run_current_attempt r \<noteq> a then r
         else r\<lparr>run_awaited_action_dispatch := None, run_wakeup_at := Some (timestamptz now),
                run_last_event_at := timestamptz now,
                run_variables := jsonb_concat (run_variables r) (jsonb m)\<rparr>" for now a m
  unfolding pg_CompleteAction_def
  by (rule guarded_run_op) (simp_all add: run_of_row_def jsonb_concat_def jsonb_def json_map_def std_map_def)

section \<open>Variables\<close>

text \<open>
  The order in which two keys are written matters only for the place of new ones: one that is there
  already can be written later.
\<close>

lemma update_late:
  "p \<in> fst ` set m \<Longrightarrow> p \<noteq> q \<Longrightarrow> AList.update p v (AList.update q w m) = AList.update q w (AList.update p v m)"
  by (induction m) auto

lemma concat_late:
  "p \<in> fst ` set m \<Longrightarrow> p \<notin> fst ` set b \<Longrightarrow>
    jsonb_concat (AList.update p v m) b = AList.update p v (jsonb_concat m b)"
proof (induction b arbitrary: m)
  case (Cons x b)
  obtain k w where x: "x = (k, w)" by (cases x)
  show ?case
    using Cons.IH [of "AList.update k w m"] Cons.prems update_late [of p m k v w]
    by (simp add: x jsonb_concat_def dom_update)
qed (simp add: jsonb_concat_def)

lemma concat_update:
  "distinct (map fst b) \<Longrightarrow> jsonb_concat m (AList.update p v b) = AList.update p v (jsonb_concat m b)"
proof (induction b arbitrary: m)
  case (Cons x b)
  obtain k w where x: "x = (k, w)" by (cases x)
  show ?case
  proof (cases "k = p")
    case True
    have "jsonb_concat (AList.update p v (AList.update p w m)) b = AList.update p v (jsonb_concat (AList.update p w m) b)"
      using Cons.prems by (intro concat_late) (auto simp: x True dom_update)
    then show ?thesis by (simp add: x True jsonb_concat_def)
  next
    case False
    then show ?thesis using Cons by (simp add: x jsonb_concat_def)
  qed
qed (simp add: jsonb_concat_def)

text \<open>Making the parents and setting the leaf writes the path.\<close>

lemma make_parent_Cons:
  assumes "path \<noteq> []"
  shows "make_parent (p # path) (AList.update p (VMap n) vars) = AList.update p (VMap (make_parent path n)) vars"
  using assms by (cases path) (simp_all add: make_parent_def)

lemma make_parents_Cons:
  assumes "\<forall>i \<in> set is. 0 < i" and "path \<noteq> []"
  shows "fold (\<lambda>i. make_parent (p # take i path)) is (AList.update p (VMap n) vars) =
    AList.update p (VMap (fold (\<lambda>i. make_parent (take i path)) is n)) vars"
  using assms by (induction "is" arbitrary: n) (simp_all add: make_parent_Cons)

lemma make_parents_shift:
  "fold (\<lambda>i. make_parent (take i (p # path))) [2..<Suc (length path)] vars =
    fold (\<lambda>i. make_parent (p # take i path)) [1..<length path] vars"
proof -
  have "[2..<Suc (length path)] = map Suc [1..<length path]" by (simp add: map_Suc_upt numeral_2_eq_2)
  then show ?thesis by (simp add: fold_map comp_def)
qed

lemma set_dotted_path: "parts \<noteq> [] \<Longrightarrow> set_dotted parts v vars = set_path vars parts (jsonb_val v)"
proof (induction parts arbitrary: vars)
  case (Cons p path)
  show ?case
  proof (cases path)
    case Nil
    then show ?thesis by (simp add: set_dotted_def)
  next
    case (Cons q qs)
    let ?n = "case map_of vars p of Some (VMap m) \<Rightarrow> m | _ \<Rightarrow> []"
    have first: "make_parent [p] vars = AList.update p (VMap ?n) vars"
      by (auto simp: make_parent_def is_object_def split: option.splits val.splits)
    have "[1..<length (p # path)] = 1 # [2..<Suc (length path)]"
      using Cons by (simp add: upt_rec numeral_2_eq_2)
    then have "fold (\<lambda>i. make_parent (take i (p # path))) [1..<length (p # path)] vars
        = fold (\<lambda>i. make_parent (take i (p # path))) [2..<Suc (length path)] (make_parent [p] vars)"
      by (simp only: fold_simps(2) take_Suc_Cons One_nat_def take_0)
    also have "\<dots> = fold (\<lambda>i. make_parent (p # take i path)) [1..<length path] (AList.update p (VMap ?n) vars)"
      by (simp only: first make_parents_shift)
    also have "\<dots> = AList.update p (VMap (fold (\<lambda>i. make_parent (take i path)) [1..<length path] ?n)) vars"
      using Cons by (intro make_parents_Cons) auto
    finally have "set_dotted (p # path) v vars = AList.update p (VMap (set_dotted path v ?n)) vars"
      using Cons by (simp add: set_dotted_def)
    then show ?thesis using Cons.IH [of ?n] Cons by simp
  qed
qed simp

text \<open>Keys without a dot have one part, the others at least two.\<close>

definition undotted :: "string \<Rightarrow> bool" where
  "undotted k \<longleftrightarrow> CHR ''.'' \<notin> set k"

lemma length_dotted_loop:
  "length (dotted_loop parts cur k) = Suc (length parts + length (filter (\<lambda>c. c = CHR ''.'') k))"
  by (induction k arbitrary: parts cur) simp_all

lemma parts_undotted: "undotted k \<Longrightarrow> \<exists>p. dotted_loop [] [] k = [p]"
  by (simp add: undotted_def dotted_loop_no_dot)

lemma parts_dotted: "\<not> undotted k \<Longrightarrow> \<exists>p q qs. dotted_loop [] [] k = p # q # qs"
  using length_dotted_loop [of "[]" "[]" k]
  by (cases "dotted_loop [] [] k"; cases "tl (dotted_loop [] [] k)") (auto simp: undotted_def filter_empty_conv)

lemma split_merge_snoc:
  "split_merge (m @ [(k, v)]) = (case split_merge m of (flat, dotted) \<Rightarrow>
     (case dotted_loop [] [] k of [p] \<Rightarrow> (AList.update p v flat, dotted) | parts \<Rightarrow> (flat, dotted @ [(parts, v)])))"
  by (simp add: split_merge_def split_beta)

lemma jsonb_update: "jsonb (AList.update p v m) = AList.update p (jsonb_val v) (jsonb m)"
  unfolding jsonb_def json_map_def std_map_def jsonb_val_def by (induction m) auto

lemma jsonb_append: "jsonb (a @ b) = jsonb a @ jsonb b" "jsonb [] = []" "jsonb ((k, v) # m) = (k, jsonb_val v) # jsonb m"
    "jsonb m = [] \<longleftrightarrow> m = []" "map fst (jsonb m) = map fst m"
  by (simp_all add: jsonb_def json_map_def std_map_def jsonb_val_def comp_def split_beta)

lemma merge_vars_snoc: "merge_vars vars (m @ [(k, v)]) = set_path (merge_vars vars m) (dotted_loop [] [] k) v"
  by (simp add: merge_vars_def applyDottedKey_def cloneAny_id)

lemma flat_merge:
  assumes "\<forall>x \<in> set m. undotted (fst x)"
  shows "\<exists>flat. split_merge m = (flat, []) \<and> distinct (map fst flat)
    \<and> jsonb_concat vars (jsonb flat) = merge_vars vars (jsonb m)"
  using assms
proof (induction m rule: rev_induct)
  case Nil
  then show ?case by (simp add: split_merge_def merge_vars_def jsonb_append jsonb_concat_def)
next
  case (snoc x m)
  obtain k v where x: "x = (k, v)" by (cases x)
  obtain flat where flat: "split_merge m = (flat, [])" "distinct (map fst flat)"
      "jsonb_concat vars (jsonb flat) = merge_vars vars (jsonb m)" using snoc by auto
  obtain p where p: "dotted_loop [] [] k = [p]" using parts_undotted snoc.prems x by auto
  have "jsonb_concat vars (jsonb (AList.update p v flat)) = merge_vars vars (jsonb (m @ [x]))"
    using flat(2,3) by (simp add: jsonb_update concat_update jsonb_append x merge_vars_snoc p)
  moreover have "distinct (map fst (AList.update p v flat))" using flat(2) by (rule distinct_update)
  ultimately show ?case using flat(1) by (simp add: split_merge_snoc x p)
qed

lemma dotted_merge:
  assumes "\<forall>x \<in> set m. \<not> undotted (fst x)" and "split_merge a = (flat, [])"
  shows "\<exists>dotted. split_merge (a @ m) = (flat, dotted)
    \<and> fold (\<lambda>(parts, v). set_dotted parts v) dotted vars = merge_vars vars (jsonb m)"
  using assms(1)
proof (induction m rule: rev_induct)
  case Nil
  then show ?case using assms(2) by (simp add: merge_vars_def jsonb_append)
next
  case (snoc x m)
  obtain k v where x: "x = (k, v)" by (cases x)
  obtain p q qs where p: "dotted_loop [] [] k = p # q # qs" using parts_dotted snoc.prems x by fastforce
  show ?case
    using snoc split_merge_snoc [of "a @ m" k v]
    by (auto simp: x p set_dotted_path merge_vars_snoc jsonb_append)
qed

text \<open>
  C10: The JSONB statements of \<^verbatim>\<open>UpdateRunVariables\<close> compute the in-memory merge. Whatever the variables and
  the keys are, merging by one \<^verbatim>\<open>||\<close> and a \<^verbatim>\<open>jsonb_set\<close> per dotted path, after every parent
  was made an object, gives what writing the keys one by one at their paths gives, with the
  values as they are read back. (A Go map has no order; here its keys without dots come first.)
\<close>

theorem pg_merge_equivalent:
  assumes "\<forall>x \<in> set flat. undotted (fst x)" and "\<forall>x \<in> set dotted. \<not> undotted (fst x)"
  shows "pg_merge vars (flat @ dotted) = merge_vars vars (jsonb (flat @ dotted))"
proof -
  obtain f where f: "split_merge flat = (f, [])" "jsonb_concat vars (jsonb f) = merge_vars vars (jsonb flat)"
    using flat_merge [OF assms(1)] by blast
  obtain d where "split_merge (flat @ dotted) = (f, d)"
      "fold (\<lambda>(parts, v). set_dotted parts v) d (jsonb_concat vars (jsonb f)) =
        merge_vars (jsonb_concat vars (jsonb f)) (jsonb dotted)"
    using dotted_merge [OF assms(2) f(1)] by blast
  moreover have "(if f = [] then vars else jsonb_concat vars (jsonb f)) = jsonb_concat vars (jsonb f)"
    by (simp add: jsonb_concat_def jsonb_append)
  ultimately show ?thesis by (simp add: pg_merge_def f(2) jsonb_append merge_vars_def)
qed

theorem pg_merge_equivalent_witness:
  "pg_merge [(''a'', VList [])] [(''n'', VStr ''x''), (''a.b.c'', VBool True)]
   = [(''a'', VMap [(''b'', VMap [(''c'', VBool True)])]), (''n'', VStr ''x'')]"
  using pg_merge_equivalent [of "[(''n'', VStr ''x'')]" "[(''a.b.c'', VBool True)]" "[(''a'', VList [])]"]
  by (simp add: undotted_def merge_vars_def applyDottedKey_def jsonb_append jsonb_val_def cloneAny_id rune_bytes_def)

section \<open>Claims\<close>

definition pg_signal_open :: "gotime \<times> uuid \<times> string \<Rightarrow> pgdb \<Rightarrow> bool" where
  "pg_signal_open a db =
     (case row_at sr_id (fst (snd a)) (saga_runs db) of None \<Rightarrow> False
      | Some r \<Rightarrow> sr_state r = RunStatePaused \<and> sr_awaited_signal r = Some (snd (snd a)))"

definition pg_cron_open :: "gotime \<times> uuid \<times> gotime \<times> gotime \<Rightarrow> pgdb \<Rightarrow> bool" where
  "pg_cron_open a db \<longleftrightarrow> (\<exists>t \<in> set (saga_triggers db).
     trig_id t = fst (snd a) \<and> trig_next_fire_at t = Some (timestamptz (fst (snd (snd a)))))"

definition pg_cron_claim :: "gotime \<times> uuid \<times> gotime \<times> gotime \<Rightarrow> pgdb \<Rightarrow> bool \<times> pgdb" where
  "pg_cron_claim a = pg_ClaimCronFire (fst a) (fst (snd a)) (fst (snd (snd a))) (snd (snd (snd a)))"

interpretation pg_cron: claim_op pg_cron_claim pg_cron_open
    "\<lambda>a. timestamptz (fst (snd (snd a))) \<noteq> timestamptz (snd (snd (snd a)))"
    "\<lambda>a. (fst (snd a), timestamptz (fst (snd (snd a))))"
proof unfold_locales
  fix a db
  show "fst (pg_cron_claim a db) = pg_cron_open a db"
    by (auto simp: pg_cron_claim_def pg_ClaimCronFire_def sql_update_def sql_select_def pg_cron_open_def filter_empty_conv)
next
  fix a b :: "gotime \<times> uuid \<times> gotime \<times> gotime" and db
  assume "timestamptz (fst (snd (snd a))) \<noteq> timestamptz (snd (snd (snd a)))"
    and "(fst (snd b), timestamptz (fst (snd (snd b)))) = (fst (snd a), timestamptz (fst (snd (snd a))))"
  then show "\<not> pg_cron_open b (snd (pg_cron_claim a db))"
    by (auto simp: pg_cron_claim_def pg_ClaimCronFire_def sql_update_def pg_cron_open_def split: if_splits)
next
  fix a db
  assume "\<not> pg_cron_open a db"
  then have "map (\<lambda>t. if selects (sql_and (Some (trig_id t = fst (snd a))) (sql_cmp (=) (trig_next_fire_at t) (Some (timestamptz (fst (snd (snd a)))))))
      then f t else t) (saga_triggers db) = saga_triggers db" for f
    by (intro map_idI) (auto simp: pg_cron_open_def)
  then show "snd (pg_cron_claim a db) = db"
    by (simp add: pg_cron_claim_def pg_ClaimCronFire_def sql_update_def)
qed

section \<open>Concurrent consumers\<close>

text \<open>
  \<^verbatim>\<open>TryConsumeAwaitedSignal\<close> taken apart, as any number of clients run it for one run and signal at
  the default isolation level. \<^verbatim>\<open>SELECT .. FOR UPDATE\<close> waits for the row lock and then sees the last
  committed row; the lock is held until the transaction ends, when the statements it ran become
  visible. Other transactions may do anything that leaves a locked row alone and does not
  make the run await the signal anew.
\<close>

datatype consumer_pc = Ready | Selected | Cleared | Marked | Answered bool

record 'c consumers =
  committed :: pgdb
  row_lock :: "'c option"
  pc :: "'c \<Rightarrow> consumer_pc"

definition awaits :: "uuid \<Rightarrow> string \<Rightarrow> pgdb \<Rightarrow> bool" where
  "awaits i name db \<longleftrightarrow>
     (\<exists>r. row_at sr_id i (saga_runs db) = Some r \<and> sr_state r = RunStatePaused \<and> sr_awaited_signal r = Some name)"

definition consume_writes :: "gotime \<Rightarrow> uuid \<Rightarrow> string \<Rightarrow> pgdb \<Rightarrow> pgdb" where
  "consume_writes now i name db =
     (let (_, db1) = run_update i always (clear_markers now) db;
          (_, sigs) = sql_update (\<lambda>g. sql_and (sql_and (Some (sig_run_id g = i))
              (Some (sig_name g = name))) (is_null (sig_consumed_at g)))
            (\<lambda>g. g\<lparr>sig_consumed_at := Some (timestamptz now)\<rparr>) (saga_signals db1)
      in db1\<lparr>saga_signals := sigs\<rparr>)"

text \<open>Run without interruption these steps are the method.\<close>

lemma select_one:
  assumes "distinct (map sr_id t)" and "x \<in> set t"
  shows "sql_select (\<lambda>r. sql_and (Some (sr_id r = sr_id x)) (p r)) t = (if selects (p x) then [x] else [])"
proof -
  have "filter (\<lambda>r. sr_id r = sr_id x \<and> selects (p r)) t = (if selects (p x) then [x] else [])"
    using assms
  proof (induction t)
    case (Cons a t)
    have "\<forall>r \<in> set t. sr_id r \<noteq> sr_id a" using Cons.prems(1) by (auto simp: image_iff)
    then show ?case using Cons by (auto simp: filter_empty_conv)
  qed simp
  then show ?thesis by (simp add: sql_select_def)
qed

lemma consume_sequential:
  assumes "distinct (map sr_id (saga_runs db))"
  shows "pg_TryConsumeAwaitedSignal now i name db =
    (if awaits i name db then (True, consume_writes now i name db) else (False, db))"
proof (cases "row_at sr_id i (saga_runs db)")
  case None
  then have "sql_select (\<lambda>r. sql_and (Some (sr_id r = i)) (Some (sr_state r = RunStatePaused))) (saga_runs db) = []"
    by (auto simp: sql_select_def filter_empty_conv row_at_None_iff)
  then show ?thesis using None by (simp add: pg_TryConsumeAwaitedSignal_def awaits_def)
next
  case (Some r)
  then have r: "r \<in> set (saga_runs db)" "sr_id r = i" using assms by (simp_all add: row_at_Some_iff)
  then have "sql_select (\<lambda>r. sql_and (Some (sr_id r = i)) (Some (sr_state r = RunStatePaused))) (saga_runs db)
      = (if sr_state r = RunStatePaused then [r] else [])"
    using select_one [OF assms r(1), of "\<lambda>r. Some (sr_state r = RunStatePaused)"] by simp
  then show ?thesis
    using Some by (auto simp: pg_TryConsumeAwaitedSignal_def awaits_def consume_writes_def split_beta)
qed

inductive consumer_step :: "gotime \<Rightarrow> uuid \<Rightarrow> string \<Rightarrow> 'c consumers \<Rightarrow> 'c consumers \<Rightarrow> bool"
  for now i name where
  no_row: "pc s c = Ready \<Longrightarrow> \<not> awaits i name (committed s) \<Longrightarrow> row_lock s = None
    \<Longrightarrow> consumer_step now i name s (s\<lparr>pc := (pc s)(c := Answered False)\<rparr>)"
| lock_row: "pc s c = Ready \<Longrightarrow> awaits i name (committed s) \<Longrightarrow> row_lock s = None
    \<Longrightarrow> consumer_step now i name s (s\<lparr>row_lock := Some c, pc := (pc s)(c := Selected)\<rparr>)"
| clear_row: "pc s c = Selected
    \<Longrightarrow> consumer_step now i name s (s\<lparr>pc := (pc s)(c := Cleared)\<rparr>)"
| mark_rows: "pc s c = Cleared
    \<Longrightarrow> consumer_step now i name s (s\<lparr>pc := (pc s)(c := Marked)\<rparr>)"
| commit: "pc s c = Marked
    \<Longrightarrow> consumer_step now i name s \<lparr>committed = consume_writes now i name (committed s), row_lock = None,
          pc = (pc s)(c := Answered True)\<rparr>"
| rollback: "pc s c \<in> {Selected, Cleared, Marked}
    \<Longrightarrow> consumer_step now i name s (s\<lparr>row_lock := None, pc := (pc s)(c := Answered False)\<rparr>)"
| others: "row_lock s \<noteq> None \<Longrightarrow> row_at sr_id i (saga_runs db) = row_at sr_id i (saga_runs (committed s))
    \<Longrightarrow> consumer_step now i name s (s\<lparr>committed := db\<rparr>)"
| others_free: "row_lock s = None \<Longrightarrow> awaits i name db \<Longrightarrow> awaits i name (committed s)
    \<Longrightarrow> consumer_step now i name s (s\<lparr>committed := db\<rparr>)"
| others_clear: "row_lock s = None \<Longrightarrow> \<not> awaits i name db
    \<Longrightarrow> consumer_step now i name s (s\<lparr>committed := db\<rparr>)"

inductive consumers_reach :: "gotime \<Rightarrow> uuid \<Rightarrow> string \<Rightarrow> pgdb \<Rightarrow> 'c consumers \<Rightarrow> bool"
  for now i name db where
  init: "consumers_reach now i name db \<lparr>committed = db, row_lock = None, pc = \<lambda>_. Ready\<rparr>"
| step: "consumers_reach now i name db s \<Longrightarrow> consumer_step now i name s s' \<Longrightarrow> consumers_reach now i name db s'"

lemma consume_clears: "\<not> awaits i name (consume_writes now i name db)"
  by (auto simp: awaits_def consume_writes_def split_beta row_at_run_update clear_markers_def always_def)

definition consumer_inv :: "uuid \<Rightarrow> string \<Rightarrow> 'c consumers \<Rightarrow> bool" where
  "consumer_inv i name s \<longleftrightarrow>
     (\<forall>c. pc s c \<in> {Selected, Cleared, Marked} \<longleftrightarrow> row_lock s = Some c)
     \<and> (row_lock s \<noteq> None \<longrightarrow> awaits i name (committed s))
     \<and> ((\<exists>c. pc s c = Answered True) \<longrightarrow> \<not> awaits i name (committed s))
     \<and> (\<forall>c c'. pc s c = Answered True \<longrightarrow> pc s c' = Answered True \<longrightarrow> c = c')"

lemma awaits_cong: "row_at sr_id i (saga_runs db) = row_at sr_id i (saga_runs db') \<Longrightarrow> awaits i name db = awaits i name db'"
  by (simp add: awaits_def)

lemma consumer_inv_step:
  assumes "consumer_step now i name s s'" and "consumer_inv i name s"
  shows "consumer_inv i name s'"
  using assms
proof (induction rule: consumer_step.induct)
  case (others s db)
  then show ?case using awaits_cong [OF others(2), of name] by (auto simp: consumer_inv_def)
next
  case (commit s c)
  then have "row_lock s = Some c" and "\<forall>c. pc s c \<noteq> Answered True" by (auto simp: consumer_inv_def)
  then show ?case using commit by (auto simp: consumer_inv_def consume_clears)
next
  case (rollback s c)
  then have "row_lock s = Some c" by (auto simp: consumer_inv_def)
  then show ?case using rollback by (simp add: consumer_inv_def) metis
qed (auto simp: consumer_inv_def)

lemma consumer_reach_inv: "consumers_reach now i name db s \<Longrightarrow> consumer_inv i name s"
proof (induction rule: consumers_reach.induct)
  case init
  show ?case by (simp add: consumer_inv_def)
next
  case (step s s')
  show ?case by (rule consumer_inv_step [OF step.hyps(2) step.IH])
qed

text \<open>
  C11: An awaited signal is handed to one consumer. However many clients try to consume the signal a run of
  the PostgreSQL store awaits, and however their statements interleave with each other, with rollbacks and
  with other transactions, at most one is told that it consumed it, and once one is, the run
  no longer awaits the signal.
\<close>

theorem pg_signal_claimed_once:
  assumes "consumers_reach now i name db s"
  shows "(\<forall>c c'. pc s c = Answered True \<and> pc s c' = Answered True \<longrightarrow> c = c')
    \<and> (\<forall>c. pc s c = Answered True \<longrightarrow> \<not> awaits i name (committed s))
    \<and> (\<forall>c. pc s c \<in> {Selected, Cleared, Marked} \<longrightarrow> row_lock s = Some c \<and> awaits i name (committed s))"
  using consumer_reach_inv [OF assms] by (auto simp: consumer_inv_def)

definition awaiting_row :: run_row where
  "awaiting_row = (row_of_run ((NewSagaRun ''r1'' 0 ''wf'' ''d1'' None [])))
     \<lparr>sr_state := RunStatePaused, sr_awaited_signal := Some ''go''\<rparr>"

definition awaiting_db :: pgdb where
  "awaiting_db = pg_empty\<lparr>saga_runs := [awaiting_row]\<rparr>"

lemma one_consumer_commits:
  "\<exists>s. consumers_reach 5 ''r1'' ''go'' awaiting_db (s :: nat consumers) \<and> pc s 1 = Answered True \<and> pc s 2 = Ready"
proof -
  let ?s = "\<lambda>l p. \<lparr>committed = awaiting_db, row_lock = l, pc = (\<lambda>_. Ready)(1 := p)\<rparr> :: nat consumers"
  have a: "awaits ''r1'' ''go'' awaiting_db"
    by (simp add: awaits_def awaiting_db_def awaiting_row_def row_of_run_def NewSagaRun_def row_at_def pg_empty_def)
  have "consumers_reach 5 ''r1'' ''go'' awaiting_db (?s (Some 1) Selected)"
    using consumers_reach.step [OF consumers_reach.init lock_row [where c = "1 :: nat"]] a by simp
  from consumers_reach.step [OF this clear_row [where c = 1]]
  have "consumers_reach 5 ''r1'' ''go'' awaiting_db (?s (Some 1) Cleared)" by simp
  from consumers_reach.step [OF this mark_rows [where c = 1]]
  have "consumers_reach 5 ''r1'' ''go'' awaiting_db (?s (Some 1) Marked)" by simp
  from consumers_reach.step [OF this commit [where c = 1]] show ?thesis
    by (intro exI conjI) auto
qed

theorem pg_signal_claimed_once_witness:
  "\<exists>s. consumers_reach 5 ''r1'' ''go'' awaiting_db (s :: nat consumers) \<and> pc s 1 = Answered True
    \<and> pc s 2 \<noteq> Answered True \<and> \<not> awaits ''r1'' ''go'' (committed s)"
proof -
  obtain s :: "nat consumers" where s: "consumers_reach 5 ''r1'' ''go'' awaiting_db s" "pc s 1 = Answered True"
    using one_consumer_commits by blast
  then show ?thesis using pg_signal_claimed_once [OF s(1)] by (metis one_eq_numeral_iff semiring_norm(85))
qed

section \<open>The audit log\<close>

text \<open>An event as it is read back.\<close>

definition stored_event :: "saga_run_event \<Rightarrow> saga_run_event" where
  "stored_event e = e\<lparr>ev_metadata := jsonb (ev_metadata e), ev_recorded_at := timestamptz (ev_recorded_at e)\<rparr>"

lemma event_round_trip: "event_of_row (row_of_event e) = stored_event e"
  by (simp add: event_of_row_def row_of_event_def sql_nullif_def stored_event_def)

text \<open>The first event of each step, attempt and type; events of no step are all kept.\<close>

definition log_key :: "saga_run_event \<Rightarrow> string \<times> int \<times> event_type" where
  "log_key e = (ev_step_id e, ev_attempt e, ev_type e)"

fun keep_first :: "(string \<times> int \<times> event_type) list \<Rightarrow> saga_run_event list \<Rightarrow> saga_run_event list" where
  "keep_first seen [] = []"
| "keep_first seen (e # es) =
     (if ev_step_id e \<noteq> [] \<and> log_key e \<in> set seen then keep_first seen es
      else e # keep_first (seen @ [log_key e]) es)"

lemma same_event_iff:
  "same_event (row_of_event a) (row_of_event b) \<longleftrightarrow>
     ev_run_id a = ev_run_id b \<and> ev_step_id b \<noteq> [] \<and> log_key a = log_key b"
  by (auto simp: same_event_def row_of_event_def log_key_def sql_nullif_def)

definition append_all :: "saga_run_event list \<Rightarrow> pgdb \<Rightarrow> pgdb" where
  "append_all es db = fold (\<lambda>e db. snd (pg_AppendEvent e db)) es db"

lemma append_all_rows:
  assumes "run_exists db i" and "\<forall>e \<in> set es. ev_run_id e = i" and "distinct (map ev_id es)"
    and "ev_id ` set es \<inter> se_id ` set (saga_run_events db) = {}"
    and "filter (\<lambda>r. se_run_id r = i) (saga_run_events db) = map row_of_event ks"
  shows "filter (\<lambda>r. se_run_id r = i) (saga_run_events (append_all es db)) =
    map row_of_event (ks @ keep_first (map log_key ks) es)"
  using assms
proof (induction es arbitrary: db ks)
  case (Cons e es)
  have ks: "\<forall>k \<in> set ks. ev_run_id k = i"
  proof
    fix k assume "k \<in> set ks"
    then have "row_of_event k \<in> set (filter (\<lambda>r. se_run_id r = i) (saga_run_events db))"
      unfolding Cons.prems(5) by simp
    then show "ev_run_id k = i" by (simp add: row_of_event_def)
  qed
  have dup: "(\<exists>x \<in> set (saga_run_events db). same_event x (row_of_event e)) \<longleftrightarrow>
      ev_step_id e \<noteq> [] \<and> log_key e \<in> log_key ` set ks"
  proof -
    have "(\<exists>x \<in> set (saga_run_events db). same_event x (row_of_event e)) \<longleftrightarrow>
        (\<exists>x \<in> set (filter (\<lambda>r. se_run_id r = i) (saga_run_events db)). same_event x (row_of_event e))"
      using Cons.prems(2) by (auto simp: same_event_def row_of_event_def)
    also have "\<dots> \<longleftrightarrow> (\<exists>k \<in> set ks. same_event (row_of_event k) (row_of_event e))"
      unfolding Cons.prems(5) by simp
    also have "\<dots> \<longleftrightarrow> ev_step_id e \<noteq> [] \<and> log_key e \<in> log_key ` set ks"
      using ks Cons.prems(2) by (auto simp: same_event_iff) (metis image_eqI)
    finally show ?thesis .
  qed
  show ?case
  proof (cases "ev_step_id e \<noteq> [] \<and> log_key e \<in> log_key ` set ks")
    case True
    then have "snd (pg_AppendEvent e db) = db" using dup by (simp add: pg_AppendEvent_def)
    then show ?thesis using Cons True by (simp add: append_all_def)
  next
    case False
    let ?db = "db\<lparr>saga_run_events := saga_run_events db @ [row_of_event e]\<rparr>"
    have e: "se_id (row_of_event e) = ev_id e" "se_run_id (row_of_event e) = i"
      using Cons.prems(2) by (simp_all add: row_of_event_def)
    then have app: "snd (pg_AppendEvent e db) = ?db"
      using dup False Cons.prems(1,4) by (auto simp: pg_AppendEvent_def insert_event_def)
    have "run_exists ?db i" using Cons.prems(1) by (simp add: run_exists_def)
    then have "filter (\<lambda>r. se_run_id r = i) (saga_run_events (append_all es ?db)) =
        map row_of_event ((ks @ [e]) @ keep_first (map log_key (ks @ [e])) es)"
      using Cons.prems e by (intro Cons.IH) auto
    then show ?thesis using False by (auto simp: append_all_def app)
  qed
qed (simp add: append_all_def)

lemma set_keep_first: "set (keep_first seen es) \<subseteq> set es"
  by (induction es arbitrary: seen) auto

lemma sorted_keep_first:
  "sorted_wrt R (map f es) \<Longrightarrow> sorted_wrt R (map f (keep_first seen es))"
  using set_keep_first by (induction es arbitrary: seen) (auto, blast+)

text \<open>
  C24: The PostgreSQL log keeps first visits only. Of the events appended to a new run exactly those are listed
  that are the first of their step, attempt and type, or of no step at all, by their times to the microsecond
  and in any order within one; when the microseconds grow, in the order they were appended. The dispatch
  and the success of a step that a loop enters again, which the engine logs with attempt 0 each time,
  are dropped without an error.
\<close>

theorem pg_log_keeps_first:
  assumes "run_exists db i" and "filter (\<lambda>r. se_run_id r = i) (saga_run_events db) = []"
    and "\<forall>e \<in> set es. ev_run_id e = i" and "distinct (map ev_id es)"
    and "ev_id ` set es \<inter> se_id ` set (saga_run_events db) = {}"
  shows "pg_ListEventsByRun tie (append_all es db) i =
      insertion_sort (event_before tie) (map stored_event (keep_first [] es))
    \<and> (sorted_wrt (<) (map (\<lambda>e. timestamptz (ev_recorded_at e)) es) \<longrightarrow>
        pg_ListEventsByRun tie (append_all es db) i = map stored_event (keep_first [] es))"
proof -
  have rows: "filter (\<lambda>r. se_run_id r = i) (saga_run_events (append_all es db)) = map row_of_event (keep_first [] es)"
    using append_all_rows [of db i es "[]"] assms by simp
  have "ordered_by (event_before tie) (map stored_event (keep_first [] es))"
    if "sorted_wrt (<) (map (\<lambda>e. timestamptz (ev_recorded_at e)) es)"
    using sorted_keep_first [OF that, of "[]"]
    by (auto simp: sorted_wrt_map stored_event_def event_before_def elim!: sorted_wrt_mono_rel [rotated])
  then show ?thesis
    by (auto simp: pg_ListEventsByRun_def sql_select_def rows insertion_sort_sorted event_round_trip comp_def)
qed

definition one_run_db :: pgdb where
  "one_run_db = pg_empty\<lparr>saga_runs := [row_of_run (NewSagaRun ''r1'' 0 ''wf'' ''d1'' None [])]\<rparr>"

theorem pg_log_keeps_first_witness:
  "map ev_id (pg_ListEventsByRun (\<lambda>_ _. True) (append_all
     [NewEvent ''e1'' 1000 ''r1'' ''loop'' 0 EventStepSucceeded ''engine'',
      NewEvent ''e2'' 2000 ''r1'' [] 0 EventLog ''engine'',
      NewEvent ''e3'' 3000 ''r1'' ''loop'' 0 EventStepSucceeded ''engine''] one_run_db) ''r1'') = [''e1'', ''e2'']"
  by (subst pg_log_keeps_first [THEN conjunct2, THEN mp])
    (simp_all add: stored_event_def timestamptz_def one_run_db_def pg_empty_def run_exists_def row_of_run_def NewSagaRun_def NewEvent_def log_key_def)

section \<open>Failure reports\<close>

text \<open>
  C23: A failure report can be refused for ever. An action step whose first dispatch could not be sent is
  logged as failed for attempt 1 and dispatched again, still as attempt 1. When the worker then
  reports that attempt as failed, the event the store wants to insert violates the unique
  key of the log and the transaction is rolled back: the report, and every repetition of it, is an
  error, and the run stays paused on the action.
\<close>

theorem pg_failure_report_refused:
  assumes "row_at sr_id i (saga_runs db) = Some r" and "sr_current_step r = Some stp" and "stp \<noteq> []"
    and "sr_current_attempt r = 0"
    and "\<forall>x \<in> set (saga_run_events db). se_run_id x \<noteq> i" and "evid \<notin> se_id ` set (saga_run_events db)"
    and "db1 = snd (pg_MarkAwaitingAction t1 i action 1 db)"
    and "db2 = snd (pg_AppendEvent (NewEvent evid t2 i stp 1 EventStepFailed ''engine-retry'') db1)"
    and "db3 = snd (pg_MarkAwaitingAction t3 i action 1 db2)"
  shows "pg_FailAction t4 evid2 i 1 code msg again db3 =
      (Some (Errorf ''fail action: append event: %w'' [AErr unique_violation]), db3)
    \<and> (\<exists>run. pg_GetRun db3 i = Inr run \<and> run_state run = RunStatePaused \<and> run_current_step run = stp
        \<and> run_awaited_action_dispatch run = Some action \<and> run_current_attempt run = 1)"
proof -
  let ?mark = "\<lambda>t r. r\<lparr>sr_state := RunStatePaused, sr_awaited_action_dispatch := Some action,
    sr_current_attempt := 1, sr_last_event_at := timestamptz t\<rparr>"
  let ?guard = "\<lambda>r. sql_not (sql_and (Some (sr_current_attempt r = 1))
    (sql_cmp (=) (sr_awaited_action_dispatch r) (Some action)))"
  have mark: "snd (pg_MarkAwaitingAction t i action 1 x) = snd (run_update i ?guard (?mark t) x)" for t x
    by (simp add: pg_MarkAwaitingAction_def)
  have row1: "row_at sr_id i (saga_runs db1) = Some (?mark t1 r)"
    using assms(1,4) by (simp add: assms(7) mark row_at_run_update selects_not_and)
  have ev: "saga_run_events db1 = saga_run_events db" by (simp add: assms(7) mark)
  let ?e = "NewEvent evid t2 i stp 1 EventStepFailed ''engine-retry''"
  have re: "se_run_id (row_of_event ?e) = i" "se_id (row_of_event ?e) = evid"
    by (simp_all add: row_of_event_def NewEvent_def)
  then have "pg_AppendEvent ?e db1 = (None, db1\<lparr>saga_run_events := saga_run_events db @ [row_of_event ?e]\<rparr>)"
    using assms(5,6) row1 by (auto simp: pg_AppendEvent_def insert_event_def ev run_exists_iff same_event_def)
  then have db2: "saga_runs db2 = saga_runs db1" "saga_run_events db2 = saga_run_events db @ [row_of_event ?e]"
    by (simp_all add: assms(8))
  have row3: "row_at sr_id i (saga_runs db3) = Some (?mark t1 r)"
    by (simp add: assms(9) mark row_at_run_update db2 row1 selects_not_and)
  have "row_of_event ?e \<in> set (saga_run_events db3)" by (simp add: assms(9) mark db2)
  moreover have "same_event (row_of_event ?e) x" if "se_run_id x = i" "se_step_id x = Some stp" "se_attempt x = 1"
      "se_event_type x = EventStepFailed" for x
    using assms(3) that by (auto simp: same_event_def row_of_event_def NewEvent_def sql_nullif_def)
  ultimately have "insert_event x db' = Inl unique_violation" if "se_run_id x = i" "se_step_id x = Some stp"
      "se_attempt x = 1" "se_event_type x = EventStepFailed" "saga_run_events db' = saga_run_events db3" for x db'
    using that by (auto simp: insert_event_def)
  then have "pg_FailAction t4 evid2 i 1 code msg again db3 =
      (Some (Errorf ''fail action: append event: %w'' [AErr unique_violation]), db3)"
    using assms(2) by (simp add: pg_FailAction_def row3 Let_def split_beta)
  then show ?thesis
    using assms(2) by (simp add: pg_GetRun_def row3 run_of_row_def)
qed

theorem pg_failure_report_refused_witness:
  "fst (pg_FailAction 9 ''e2'' ''r1'' 1 ''c'' ''m'' True
     (snd (pg_MarkAwaitingAction 3 ''r1'' ''svc.go'' 1
       (snd (pg_AppendEvent (NewEvent ''e1'' 2 ''r1'' ''a'' 1 EventStepFailed ''engine-retry'')
         (snd (pg_MarkAwaitingAction 1 ''r1'' ''svc.go'' 1
           (pg_empty\<lparr>saga_runs := [(row_of_run (NewSagaRun ''r1'' 0 ''wf'' ''d1'' None []))\<lparr>sr_current_step := Some ''a''\<rparr>]\<rparr>))))))))
   = Some (Errorf ''fail action: append event: %w'' [AErr unique_violation])"
  by (subst pg_failure_report_refused [THEN conjunct1])
    (auto simp: row_at_def row_of_run_def NewSagaRun_def pg_empty_def)

text \<open>
  The guard against a repeated mark is unknown, and so selects no row, when the attempt is the
  current one and no action is awaited: the mark is lost, where the in-memory store pauses the run.
\<close>

lemma pg_mark_lost:
  assumes "row_at sr_id i (saga_runs db) = Some r" and "sr_current_attempt r = a"
    and "sr_awaited_action_dispatch r = None"
  shows "fst (pg_MarkAwaitingAction now i action a db) = None
    \<and> pg_GetRun (snd (pg_MarkAwaitingAction now i action a db)) i = pg_GetRun db i"
  using assms by (simp add: pg_MarkAwaitingAction_def pg_GetRun_def row_at_run_update selects_not_and)

section \<open>Tenants\<close>

text \<open>
  A published definition is found for exactly the tenant asked for, a rule also when it
  belongs to no tenant, and any tenant's rule when none is asked for.
\<close>

lemma pg_published_tenant:
  assumes "pg_GetPublishedWorkflowByID db wid tenant = Inr d"
  shows "\<exists>r \<in> set (workflow_definitions db). wd_spec r = d \<and> wd_workflow_id r = wid \<and> wd_published r
    \<and> wd_tenant_id r = tenant
    \<and> (\<forall>q \<in> set (workflow_definitions db). wd_workflow_id q = wid \<and> wd_published q \<and> wd_tenant_id q = tenant
        \<longrightarrow> wd_version q \<le> wd_version r)"
proof -
  define cond :: "def_row \<Rightarrow> truth" where "cond = (\<lambda>r. sql_and (sql_and (Some (wd_workflow_id r = wid))
      (sql_or (sql_and (is_null tenant) (is_null (wd_tenant_id r))) (sql_cmp (=) (wd_tenant_id r) tenant)))
      (Some (wd_published r)))"
  have sel: "selects (cond r) \<longleftrightarrow> wd_workflow_id r = wid \<and> wd_published r \<and> wd_tenant_id r = tenant" for r
    by (auto simp: cond_def)
  let ?s = "insertion_sort (\<lambda>a b. wd_version b < wd_version a) (sql_select cond (workflow_definitions db))"
  obtain r rs where s: "?s = r # rs" "d = wd_spec r"
    using assms by (auto simp: pg_GetPublishedWorkflowByID_def cond_def [symmetric] split: list.splits)
  have ord: "ordered_by (\<lambda>a b. wd_version b < wd_version a) ?s"
    by (rule insertion_sort_ordered) auto
  have mem: "set ?s = {q \<in> set (workflow_definitions db). selects (cond q)}" by (simp add: sql_select_def)
  then have "r \<in> set (workflow_definitions db) \<and> selects (cond r)"
    by (metis (mono_tags, lifting) list.set_intros(1) mem_Collect_eq s(1))
  moreover have "wd_version q \<le> wd_version r" if "q \<in> set (workflow_definitions db)" "selects (cond q)" for q
  proof -
    have "q \<in> set (r # rs)" using that mem s(1) by auto
    then show ?thesis using ord by (auto simp: s(1) not_less)
  qed
  ultimately show ?thesis by (auto simp: s(2) sel)
qed

lemma pg_rule_any_tenant:
  assumes "pg_GetPublishedRuleByID db rid tenant = Inr d"
  shows "d \<in> set (rule_definitions db) \<and> rule_rule_id d = rid \<and> rule_published d
    \<and> (tenant = None \<or> rule_tenant_id d = None \<or> rule_tenant_id d = tenant)"
proof -
  define cond :: "rule_definition \<Rightarrow> truth" where "cond = (\<lambda>r. sql_and (sql_and (Some (rule_rule_id r = rid)) (Some (rule_published r)))
             (sql_or (sql_or (is_null tenant) (is_null (rule_tenant_id r)))
                     (sql_cmp (=) (rule_tenant_id r) tenant)))"
  obtain rs where "insertion_sort (\<lambda>a b. rule_version b < rule_version a) (sql_select cond (rule_definitions db)) = d # rs"
    using assms by (auto simp: pg_GetPublishedRuleByID_def cond_def [symmetric] split: list.splits)
  then have "d \<in> set (sql_select cond (rule_definitions db))" by (metis list.set_intros(1) set_insertion_sort)
  then show ?thesis by (auto simp: sql_select_def cond_def)
qed

text \<open>
  Storing a version of a rule that is there already, without an id, answers with an id that no
  row has: the existing row keeps its own. (For definitions the row's id is returned.)
\<close>

lemma pg_rule_phantom_id:
  assumes "rule_uuid d = uuid_Nil" and "uuid_param as_uuid (rule_tenant_id d) = Inr tenant"
    and "rule_key d \<in> rule_key ` set (rule_definitions db)" and "u \<notin> rule_uuid ` set (rule_definitions db)"
    and "pg_UpsertRuleDefinition as_uuid u now d db = (res, db')"
  shows "res = Inr u \<and> u \<notin> rule_uuid ` set (rule_definitions db')"
proof -
  have "rule_key (d\<lparr>rule_uuid := a, rule_tenant_id := b, rule_spec := c, rule_created_at := e\<rparr>) = rule_key d" for a b c e
    by (simp add: rule_key_def)
  then show ?thesis
    using assms by (auto simp: pg_UpsertRuleDefinition_def upsert_row_def Let_def)
qed

end
