(* ===== verification/Postgres_Refinement.thy ===== *)
theory Postgres_Refinement
  imports Postgres_Properties Store_Trace
begin

text \<open>
  The PostgreSQL store refines the in-memory one. The relation says that the rows with an id read back as
  the in-memory entity with that id, its times cut to microseconds, up to the two time stamps only
  PostgreSQL keeps in step.
  What the callers must keep to is spelled out call by call: where the two stores do
  differ, the call is not allowed.
\<close>

section \<open>The calls\<close>

text \<open>\<open>tm\<close> is the time of the transaction, for calls that do not carry one.\<close>

fun pg_do :: "(string \<Rightarrow> uuid option) \<Rightarrow> (store_op \<Rightarrow> gotime) \<Rightarrow> store_op \<Rightarrow> pgdb \<Rightarrow> op_result \<times> pgdb" where
  "pg_do u tm (PutDef i d) db =
     (case pg_UpsertWorkflowDefinition u i (tm (PutDef i d)) d db of
        (Inl e, db') \<Rightarrow> (Fails e, db') | (Inr j, db') \<Rightarrow> (Made j, db'))"
| "pg_do u tm (PutRun r) db = of_opt (pg_CreateRun r db)"
| "pg_do u tm (SetState i state cur) db = of_opt (pg_UpdateRunState (tm (SetState i state cur)) i state cur db)"
| "pg_do u tm (PutEvent e) db = of_opt (pg_AppendEvent e db)"
| "pg_do u tm (CancelRun now evid i reason) db = of_opt (pg_Cancel now evid i reason db)"
| "pg_do u tm (FailRun now i cur msg) db = of_opt (pg_MarkRunFailed now i cur msg db)"
| "pg_do u tm (MergeVars i m) db = of_opt (pg_UpdateRunVariables (tm (MergeVars i m)) i m db)"
| "pg_do u tm (PauseUntil i t) db = of_opt (pg_SetPausedWithWakeup (tm (PauseUntil i t)) i t db)"
| "pg_do u tm (PauseSignal i n d) db = of_opt (pg_SetPausedAwaitingSignal (tm (PauseSignal i n d)) i n d db)"
| "pg_do u tm (PauseEvent i n h d) db =
     of_opt (pg_SetPausedAwaitingEventWithDeadline (tm (PauseEvent i n h d)) i n h d db)"
| "pg_do u tm (Unpause i) db = of_opt (pg_ClearPause (tm (Unpause i)) i db)"
| "pg_do u tm (WakeRun i) db = of_opt (pg_WakeFromExternal (tm (WakeRun i)) i db)"
| "pg_do u tm (Consume now i n) db =
     (case pg_TryConsumeAwaitedSignal now i n db of (b, db') \<Rightarrow> (Claimed b, db'))"
| "pg_do u tm (PutSignal g) db = of_opt (pg_AppendSignal g db)"
| "pg_do u tm (Spawn di ci now p ps b d inp start) db =
     (case pg_SpawnChildRunAt ci now p ps b d inp start db of
        (Inl e, db') \<Rightarrow> (Fails e, db') | (Inr i, db') \<Rightarrow> (Made i, db'))"
| "pg_do u tm (PushFrame i f) db = of_opt (pg_PushTryCatch (tm (PushFrame i f)) i f db)"
| "pg_do u tm (PopFrame i) db =
     (case pg_PopTryCatch (tm (PopFrame i)) i db of
        (Inl e, db') \<Rightarrow> (Fails e, db') | (Inr f, db') \<Rightarrow> (Popped f, db'))"
| "pg_do u tm (PutTask t) db = of_opt (pg_CreateUserTask t db)"
| "pg_do u tm (SubmitTask now i who res) db = of_opt (pg_SubmitUserTask now i who res db)"
| "pg_do u tm (AwaitAction i d a) db = of_opt (pg_MarkAwaitingAction (tm (AwaitAction i d a)) i d a db)"
| "pg_do u tm (FinishAction now i a m) db = of_opt (pg_CompleteAction now i a m db)"
| "pg_do u tm (PutTrigger f now t) db = (case pg_UpsertTrigger f now t db of (i, db') \<Rightarrow> (Made i, db'))"
| "pg_do u tm (DropTrigger i) db = of_opt (pg_DeleteTrigger i db)"

section \<open>What the callers keep to\<close>

definition visible :: "saga_run \<Rightarrow> saga_run" where
  "visible r = r\<lparr>run_last_event_at := 0, run_terminal_at := None\<rparr>"

text \<open>The entities as PostgreSQL keeps them.\<close>

definition cut_run :: "saga_run \<Rightarrow> saga_run" where
  "cut_run r = r\<lparr>run_started_at := timestamptz (run_started_at r),
     run_last_event_at := timestamptz (run_last_event_at r),
     run_terminal_at := map_option timestamptz (run_terminal_at r),
     run_wakeup_at := map_option timestamptz (run_wakeup_at r)\<rparr>"

definition cut_event :: "saga_run_event \<Rightarrow> saga_run_event" where
  "cut_event e = e\<lparr>ev_recorded_at := timestamptz (ev_recorded_at e)\<rparr>"

definition cut_signal :: "saga_signal \<Rightarrow> saga_signal" where
  "cut_signal g = g\<lparr>sig_received_at := timestamptz (sig_received_at g),
     sig_consumed_at := map_option timestamptz (sig_consumed_at g)\<rparr>"

definition cut_task :: "user_task \<Rightarrow> user_task" where
  "cut_task t = t\<lparr>task_due_at := map_option timestamptz (task_due_at t),
     task_submitted_at := map_option timestamptz (task_submitted_at t)\<rparr>"

definition cut_trigger :: "saga_trigger \<Rightarrow> saga_trigger" where
  "cut_trigger t = t\<lparr>trig_created_at := timestamptz (trig_created_at t),
     trig_next_fire_at := map_option timestamptz (trig_next_fire_at t),
     trig_last_fired_at := map_option timestamptz (trig_last_fired_at t)\<rparr>"

lemma cut_ids [simp]: "ev_id (cut_event e) = ev_id e" "log_key (cut_event e) = log_key e"
    "ev_type (cut_event e) = ev_type e" "ev_run_id (cut_event e) = ev_run_id e"
    "sig_id (cut_signal g) = sig_id g" "sig_run_id (cut_signal g) = sig_run_id g"
    "task_id (cut_task t) = task_id t" "trig_id (cut_trigger v) = trig_id v"
  by (simp_all add: cut_event_def cut_signal_def cut_task_def cut_trigger_def log_key_def)

definition has_run :: "mem_store \<Rightarrow> uuid \<Rightarrow> bool" where
  "has_run s i \<longleftrightarrow> map_of (runs s) i \<noteq> None"

definition logged :: "mem_store \<Rightarrow> saga_run_event list" where
  "logged s = concat (vals (events s))"

definition signalled :: "mem_store \<Rightarrow> saga_signal list" where
  "signalled s = concat (vals (signals s))"

text \<open>The keys without dots come first.\<close>

definition flat_first :: "gomap \<Rightarrow> bool" where
  "flat_first m \<longleftrightarrow> (\<forall>x \<in> set (dropWhile (\<lambda>x. undotted (fst x)) m). \<not> undotted (fst x))"

text \<open>The run that is created has initial values in the columns \<open>CreateRun\<close> does not write.\<close>

definition storable :: "saga_run \<Rightarrow> bool" where
  "storable r \<longleftrightarrow> visible (run_of_row (row_of_run r)) = visible (cut_run r)"

fun pg_allowed :: "store_op \<Rightarrow> mem_store \<Rightarrow> bool" where
  "pg_allowed (PutDef i d) s =
     (jsonb_def d = d \<and> def_tenant_id d = None \<and> map_of (defs s) i = None
      \<and> (\<forall>x \<in> set (vals (defs s)). (def_id x, def_version x) \<noteq> (def_id d, def_version d)))"
| "pg_allowed (PutRun r) s =
     (\<not> has_run s (run_id r) \<and> map_of (defs s) (run_definition_id r) \<noteq> None \<and> storable r)"
| "pg_allowed (PutEvent e) s =
     (has_run s (ev_run_id e) \<and> jsonb (ev_metadata e) = ev_metadata e \<and> ev_id e \<notin> ev_id ` set (logged s)
      \<and> (ev_step_id e = [] \<or> log_key e \<notin> log_key ` set (at_key (events s) (ev_run_id e))))"
| "pg_allowed (CancelRun now evid i reason) s =
     (reason \<noteq> [] \<and> evid \<notin> ev_id ` set (logged s)
      \<and> (\<forall>e \<in> set (at_key (events s) i). ev_type e \<noteq> EventRunCancelled))"
| "pg_allowed (MergeVars i m) s = (has_run s i \<and> jsonb m = m \<and> flat_first m)"
| "pg_allowed (PauseUntil i t) s = has_run s i"
| "pg_allowed (PauseSignal i n d) s =
     (case map_of (runs s) i of None \<Rightarrow> False | Some r \<Rightarrow> d \<noteq> None \<or> run_wakeup_at r = None)"
| "pg_allowed (PauseEvent i n h d) s = has_run s i"
| "pg_allowed (PutSignal g) s =
     (has_run s (sig_run_id g) \<and> jsonb (sig_payload g) = sig_payload g \<and> sig_consumed_at g = None
      \<and> sig_id g \<notin> sig_id ` set (signalled s))"
| "pg_allowed (Spawn di ci now p ps b d inp start) s =
     (\<not> has_run s ci \<and> jsonb inp = inp \<and> at_key (defsByName s) (def_id d) \<noteq> []
      \<and> (case map_of (defs s) (last (at_key (defsByName s) (def_id d))) of None \<Rightarrow> False
         | Some x \<Rightarrow> def_id x = def_id d \<and> def_version x = def_version d))"
| "pg_allowed (PutTask t) s =
     (map_of (userTasks s) (task_id t) = None \<and> has_run s (task_run_id t)
      \<and> t\<lparr>task_form_schema := jsonb (task_form_schema t), task_submitted_at := None,
           task_submitted_by := [], task_result := []\<rparr> = t)"
| "pg_allowed (SubmitTask now i who res) s = (jsonb res = res)"
| "pg_allowed (AwaitAction i d a) s =
     (case map_of (runs s) i of None \<Rightarrow> False
      | Some r \<Rightarrow> run_current_attempt r \<noteq> a \<or> run_awaited_action_dispatch r \<noteq> None)"
| "pg_allowed (FinishAction now i a m) s = (jsonb m = m)"
| "pg_allowed (PutTrigger f now t) s =
     (jsonb (trig_config t) = trig_config t
      \<and> map_of (triggers s) (if trig_id t = uuid_Nil then f else trig_id t) = None)"
| "pg_allowed _ s = True"

section \<open>The relation\<close>

definition pg_runs_rel :: "pgdb \<Rightarrow> mem_store \<Rightarrow> bool" where
  "pg_runs_rel db s \<longleftrightarrow>
     (\<forall>i. map_option (\<lambda>x. visible (run_of_row x)) (row_at sr_id i (saga_runs db)) =
        map_option (\<lambda>r. visible (cut_run r)) (map_of (runs s) i))
     \<and> distinct (map sr_id (saga_runs db)) \<and> distinct (map fst (runs s))"

definition pg_defs_rel :: "pgdb \<Rightarrow> mem_store \<Rightarrow> bool" where
  "pg_defs_rel db s \<longleftrightarrow>
     (\<forall>i. map_option wd_spec (row_at wd_id i (workflow_definitions db)) = map_of (defs s) i)
     \<and> distinct (map wd_id (workflow_definitions db)) \<and> distinct (map def_key (workflow_definitions db))
     \<and> (\<forall>r \<in> set (workflow_definitions db). def_key r = (def_id (wd_spec r), def_version (wd_spec r)))"

definition pg_logs_rel :: "pgdb \<Rightarrow> mem_store \<Rightarrow> bool" where
  "pg_logs_rel db s \<longleftrightarrow>
     (\<forall>i. map event_of_row (filter (\<lambda>r. se_run_id r = i) (saga_run_events db))
        = map cut_event (at_key (events s) i))
     \<and> (\<forall>i. filter (\<lambda>g. sig_run_id g = i) (saga_signals db) = map cut_signal (at_key (signals s) i))"

definition pg_rest_rel :: "pgdb \<Rightarrow> mem_store \<Rightarrow> bool" where
  "pg_rest_rel db s \<longleftrightarrow>
     (\<forall>i. row_at task_id i (saga_user_tasks db) = map_option cut_task (map_of (userTasks s) i))
     \<and> (\<forall>i. row_at trig_id i (saga_triggers db) = map_option cut_trigger (map_of (triggers s) i))"

definition pg_rel :: "pgdb \<Rightarrow> mem_store \<Rightarrow> bool" where
  "pg_rel db s \<longleftrightarrow> pg_runs_rel db s \<and> pg_defs_rel db s \<and> pg_logs_rel db s \<and> pg_rest_rel db s"

lemmas pg_rel_defs = pg_rel_def pg_runs_rel_def pg_defs_rel_def pg_logs_rel_def pg_rest_rel_def

lemma pg_empty_rel: "pg_rel pg_empty New"
  by (simp add: pg_rel_defs pg_empty_def New_def row_at_def at_key_def)

text \<open>Both sides have the run, or neither.\<close>

lemma rel_run_cases:
  assumes "pg_rel db s"
  obtains (missing) "row_at sr_id i (saga_runs db) = None" "map_of (runs s) i = None"
  | (present) x r where "row_at sr_id i (saga_runs db) = Some x" "map_of (runs s) i = Some r"
      "visible (run_of_row x) = visible (cut_run r)" "sr_id x = i"
proof -
  have "map_option (\<lambda>x. visible (run_of_row x)) (row_at sr_id i (saga_runs db))
      = map_option (\<lambda>r. visible (cut_run r)) (map_of (runs s) i)"
    using assms by (simp add: pg_rel_defs)
  then show ?thesis
    using that by (cases "row_at sr_id i (saga_runs db)"; cases "map_of (runs s) i") (auto dest: row_at_key)
qed

lemma visible_eq:
  "visible a = visible b \<longleftrightarrow> run_id a = run_id b \<and> run_workflow_id a = run_workflow_id b
    \<and> run_definition_id a = run_definition_id b \<and> run_tenant_id a = run_tenant_id b \<and> run_state a = run_state b
    \<and> run_current_step a = run_current_step b \<and> run_inputs a = run_inputs b
    \<and> run_variables a = run_variables b \<and> run_started_at a = run_started_at b
    \<and> run_requires_manual_review a = run_requires_manual_review b \<and> run_trigger_id a = run_trigger_id b
    \<and> run_parent_run_id a = run_parent_run_id b \<and> run_parent_step_id a = run_parent_step_id b
    \<and> run_parent_branch_id a = run_parent_branch_id b \<and> run_try_catch_stack a = run_try_catch_stack b
    \<and> run_dry_run a = run_dry_run b \<and> run_wakeup_at a = run_wakeup_at b
    \<and> run_awaited_signal a = run_awaited_signal b \<and> run_awaited_event_topic a = run_awaited_event_topic b
    \<and> run_awaited_event_headers a = run_awaited_event_headers b
    \<and> run_feature_overrides a = run_feature_overrides b
    \<and> run_awaited_action_dispatch a = run_awaited_action_dispatch b
    \<and> run_current_attempt a = run_current_attempt b \<and> run_last_error a = run_last_error b"
  by (cases a; cases b) (auto simp: visible_def)

lemma visible_row:
  "visible (run_of_row x) = visible (cut_run r) \<longleftrightarrow> run_id r = sr_id x \<and> run_workflow_id r = sr_workflow_id x
    \<and> run_definition_id r = sr_definition_id x \<and> run_tenant_id r = sr_tenant_id x \<and> run_state r = sr_state x
    \<and> run_current_step r = or_default (sr_current_step x) [] \<and> run_inputs r = sr_inputs x
    \<and> run_variables r = sr_variables x \<and> timestamptz (run_started_at r) = sr_started_at x
    \<and> run_requires_manual_review r = sr_requires_manual_review x \<and> run_trigger_id r = sr_trigger_id x
    \<and> run_parent_run_id r = sr_parent_run_id x \<and> run_parent_step_id r = sr_parent_step_id x
    \<and> run_parent_branch_id r = sr_parent_branch_id x \<and> run_try_catch_stack r = sr_try_catch_stack x
    \<and> run_dry_run r = sr_dry_run x \<and> map_option timestamptz (run_wakeup_at r) = sr_wakeup_at x
    \<and> run_awaited_signal r = sr_awaited_signal x \<and> run_awaited_event_topic r = sr_awaited_event_topic x
    \<and> run_awaited_event_headers r = or_default (sr_awaited_event_headers x) []
    \<and> run_feature_overrides r = sr_feature_overrides x
    \<and> run_awaited_action_dispatch r = sr_awaited_action_dispatch x
    \<and> run_current_attempt r = sr_current_attempt x \<and> run_last_error r = sr_last_error x"
  unfolding visible_eq by (auto simp: run_of_row_def cut_run_def)

text \<open>One update of a run that both sides have.\<close>

lemma run_update_rel:
  assumes rel: "pg_rel db s" and x: "row_at sr_id i (saga_runs db) = Some x"
    and f: "\<And>r. sr_id (f r) = sr_id r"
    and r': "visible (run_of_row (if selects (g x) then f x else x)) = visible (cut_run r')"
  shows "pg_rel (snd (run_update i g f db)) (s\<lparr>runs := AList.update i r' (runs s)\<rparr>)"
proof -
  have "distinct (map sr_id (saga_runs (snd (run_update i g f db))))"
    using rel distinct_map_keys [of sr_id "\<lambda>r. if selects (sql_and (Some (sr_id r = i)) (g r)) then f r else r" "saga_runs db"] f
    by (simp add: pg_rel_defs run_update_def sql_update_def)
  then show ?thesis
    using rel x r' by (auto simp: pg_rel_defs row_at_run_update [OF f] keys_distinct_update option.map_comp comp_def
        intro!: option.map_cong)
qed

section \<open>Changing one run\<close>

definition agrees :: "op_result \<times> pgdb \<Rightarrow> op_result \<times> mem_store \<Rightarrow> bool" where
  "agrees a b \<longleftrightarrow> fst a = fst b \<and> pg_rel (snd a) (snd b)"

lemma run_update_missing:
  assumes "row_at sr_id i (saga_runs db) = None"
  shows "snd (run_update i g f db) = db"
proof -
  have "map (\<lambda>r. if selects (sql_and (Some (sr_id r = i)) (g r)) then f r else r) (saga_runs db) = saga_runs db"
    using assms by (intro map_idI) (auto simp: row_at_None_iff)
  then show ?thesis by (simp add: run_update_def sql_update_def)
qed

lemma update_agrees:
  assumes rel: "pg_rel db s" and f: "\<And>r. sr_id (f r) = sr_id r"
    and answer: "fst y = (if run_exists db i then None else Some (ErrNotFound ''saga_run'' i))"
    and db': "snd y = snd (run_update i g f db)"
    and vis: "\<And>x r. map_of (runs s) i = Some r \<Longrightarrow> visible (run_of_row x) = visible (cut_run r) \<Longrightarrow>
      visible (run_of_row (if selects (g x) then f x else x)) = visible (cut_run (h r))"
  shows "agrees (of_opt y) (of_sum s (with_run i h s))"
proof (cases rule: rel_run_cases [OF rel, where i = i, case_names missing present])
  case missing
  then show ?thesis
    using rel by (simp add: agrees_def of_opt_def of_sum_def with_run_def answer db' run_exists_iff run_update_missing)
next
  case (present x r)
  then have "pg_rel (snd (run_update i g f db)) (s\<lparr>runs := AList.update i (h r) (runs s)\<rparr>)"
    by (intro run_update_rel [OF rel present(1) f] vis)
  then show ?thesis
    using present by (simp add: agrees_def of_opt_def of_sum_def with_run_def answer db' run_exists_iff)
qed

lemma must_touch_answer:
  "fst (must_touch i (run_update i always f db)) = (if run_exists db i then None else Some (ErrNotFound ''saga_run'' i))"
  by (auto simp: must_touch_def split_beta touched_none run_exists_iff)

lemma has_run_exists: "pg_rel db s \<Longrightarrow> run_exists db i = has_run s i"
  by (erule rel_run_cases [where i = i]) (auto simp: run_exists_iff has_run_def)

lemmas must_agrees = update_agrees [OF _ _ must_touch_answer guarded_state(3)]
lemmas guard_agrees = update_agrees [OF _ _ guarded_answer guarded_state(1)]

lemma any_agrees:
  assumes "pg_rel db s" and "has_run s i" and "\<And>r. sr_id (f r) = sr_id r"
    and "\<And>x r. map_of (runs s) i = Some r \<Longrightarrow> visible (run_of_row x) = visible (cut_run r) \<Longrightarrow>
      visible (run_of_row (if selects (g x) then f x else x)) = visible (cut_run (h r))"
  shows "agrees (of_opt (any_touch (run_update i g f db))) (of_sum s (with_run i h s))"
proof (rule update_agrees [OF assms(1,3)])
  show "fst (any_touch (run_update i g f db)) = (if run_exists db i then None else Some (ErrNotFound ''saga_run'' i))"
    using assms(2) by (simp add: has_run_exists [OF assms(1)])
qed (simp, rule assms(4))

lemma concat_put: "jsonb_concat vars m = put_vars vars m"
  by (simp add: jsonb_concat_def put_vars_def)

lemma flat_first_merge:
  assumes "flat_first m" and "jsonb m = m"
  shows "pg_merge vars m = merge_vars vars m"
proof -
  let ?p = "\<lambda>x. undotted (fst x)"
  have a: "\<forall>x \<in> set (takeWhile ?p m). ?p x" by (auto dest: set_takeWhileD)
  have b: "\<forall>x \<in> set (dropWhile ?p m). \<not> ?p x" using assms(1) by (simp only: flat_first_def)
  show ?thesis
    using pg_merge_equivalent [OF a b, of vars] unfolding takeWhile_dropWhile_id assms(2) .
qed

lemma state_agrees:
  assumes "pg_rel db s"
  shows "agrees (pg_do u tm (SetState i state cur) db) (mem_do (SetState i state cur) s)"
    and "agrees (pg_do u tm (FailRun now i cur msg) db) (mem_do (FailRun now i cur msg) s)"
    and "agrees (pg_do u tm (Unpause i) db) (mem_do (Unpause i) s)"
    and "agrees (pg_do u tm (WakeRun i) db) (mem_do (WakeRun i) s)"
proof -
  show "agrees (pg_do u tm (SetState i state cur) db) (mem_do (SetState i state cur) s)"
    unfolding pg_do.simps mem_do.simps pg_UpdateRunState_def UpdateRunState_def
    by (rule must_agrees [OF assms]) (auto simp: visible_row always_def sql_nullif_def)
  show "agrees (pg_do u tm (FailRun now i cur msg) db) (mem_do (FailRun now i cur msg) s)"
    unfolding pg_do.simps mem_do.simps pg_MarkRunFailed_def MarkRunFailed_def
    by (rule guard_agrees [OF assms]) (auto simp: visible_row not_ended_iff sql_nullif_def sql_coalesce_def)
  show "agrees (pg_do u tm (Unpause i) db) (mem_do (Unpause i) s)"
    unfolding pg_do.simps mem_do.simps pg_ClearPause_def ClearPause_def
    by (rule must_agrees [OF assms]) (auto simp: visible_row always_def clear_markers_def)
  show "agrees (pg_do u tm (WakeRun i) db) (mem_do (WakeRun i) s)"
    unfolding pg_do.simps mem_do.simps pg_WakeFromExternal_def WakeFromExternal_def
    by (rule must_agrees [OF assms]) (auto simp: visible_row always_def clear_markers_def clear_awaits_def)
qed

lemma pause_agrees:
  assumes "pg_rel db s"
  shows "pg_allowed (PauseUntil i t) s \<Longrightarrow> agrees (pg_do u tm (PauseUntil i t) db) (mem_do (PauseUntil i t) s)"
    and "pg_allowed (PauseSignal i n d) s \<Longrightarrow> agrees (pg_do u tm (PauseSignal i n d) db) (mem_do (PauseSignal i n d) s)"
    and "pg_allowed (PauseEvent i n h d) s \<Longrightarrow> agrees (pg_do u tm (PauseEvent i n h d) db) (mem_do (PauseEvent i n h d) s)"
proof -
  show "agrees (pg_do u tm (PauseUntil i t) db) (mem_do (PauseUntil i t) s)" if "pg_allowed (PauseUntil i t) s"
    unfolding pg_do.simps mem_do.simps pg_SetPausedWithWakeup_def SetPausedWithWakeup_def
    using that by (intro any_agrees [OF assms]) (auto simp: visible_row always_def)
  show "agrees (pg_do u tm (PauseSignal i n d) db) (mem_do (PauseSignal i n d) s)" if "pg_allowed (PauseSignal i n d) s"
    unfolding pg_do.simps mem_do.simps pg_SetPausedAwaitingSignal_def SetPausedAwaitingSignal_def
    using that by (intro any_agrees [OF assms]) (auto simp: visible_row always_def has_run_def split: option.splits)
  show "agrees (pg_do u tm (PauseEvent i n h d) db) (mem_do (PauseEvent i n h d) s)" if "pg_allowed (PauseEvent i n h d) s"
    unfolding pg_do.simps mem_do.simps pg_SetPausedAwaitingEventWithDeadline_def SetPausedAwaitingEventWithDeadline_def
    using that by (intro any_agrees [OF assms]) (auto simp: visible_row always_def)
qed

lemma action_agrees:
  assumes "pg_rel db s"
  shows "pg_allowed (AwaitAction i d a) s \<Longrightarrow> agrees (pg_do u tm (AwaitAction i d a) db) (mem_do (AwaitAction i d a) s)"
    and "pg_allowed (FinishAction now i a m) s \<Longrightarrow> agrees (pg_do u tm (FinishAction now i a m) db) (mem_do (FinishAction now i a m) s)"
    and "pg_allowed (MergeVars i m) s \<Longrightarrow> agrees (pg_do u tm (MergeVars i m) db) (mem_do (MergeVars i m) s)"
proof -
  show "agrees (pg_do u tm (AwaitAction i d a) db) (mem_do (AwaitAction i d a) s)" if "pg_allowed (AwaitAction i d a) s"
    unfolding pg_do.simps mem_do.simps pg_MarkAwaitingAction_def MarkAwaitingAction_def
    using that by (intro any_agrees [OF assms])
      (auto simp: visible_row has_run_def selects_not_and split: option.splits)
  show "agrees (pg_do u tm (FinishAction now i a m) db) (mem_do (FinishAction now i a m) s)" if "pg_allowed (FinishAction now i a m) s"
    unfolding pg_do.simps mem_do.simps pg_CompleteAction_def CompleteAction_def
    using that by (intro guard_agrees [OF assms]) (auto simp: visible_row concat_put put_vars_def)
  show "agrees (pg_do u tm (MergeVars i m) db) (mem_do (MergeVars i m) s)" if a: "pg_allowed (MergeVars i m) s"
  proof (cases "m = []")
    case True
    then obtain r where "map_of (runs s) i = Some r" using a by (auto simp: has_run_def)
    moreover have "s\<lparr>runs := AList.update i r (runs s)\<rparr> = s" using calculation by (simp add: AList.update_triv)
    ultimately show ?thesis
      using True assms by (simp add: agrees_def pg_UpdateRunVariables_def UpdateRunVariables_def of_opt_def of_sum_def
          with_run_def merge_vars_def)
  next
    case False
    have "run_exists db i" using a assms by (simp add: has_run_exists)
    moreover have "agrees (of_opt (any_touch (run_update i always
        (\<lambda>r. r\<lparr>sr_variables := pg_merge (sr_variables r) m, sr_last_event_at := timestamptz (tm (MergeVars i m))\<rparr>) db)))
        (of_sum s (UpdateRunVariables i m s))"
      unfolding UpdateRunVariables_def using a
      by (intro any_agrees [OF assms]) (auto simp: visible_row always_def flat_first_merge)
    ultimately show ?thesis using False by (simp add: pg_UpdateRunVariables_def)
  qed
qed

section \<open>Definitions, new runs and frames\<close>

lemma rel_def_row:
  assumes "pg_rel db s" and "map_of (defs s) i = Some d"
  obtains r where "r \<in> set (workflow_definitions db)" "wd_id r = i" "wd_spec r = d"
      "row_at def_key (def_id d, def_version d) (workflow_definitions db) = Some r"
proof -
  have rel: "map_option wd_spec (row_at wd_id i (workflow_definitions db)) = Some d"
      "distinct (map wd_id (workflow_definitions db))" "distinct (map def_key (workflow_definitions db))"
      "\<forall>r \<in> set (workflow_definitions db). def_key r = (def_id (wd_spec r), def_version (wd_spec r))"
    using assms by (simp_all add: pg_rel_defs)
  then obtain r where r: "row_at wd_id i (workflow_definitions db) = Some r" "wd_spec r = d" by auto
  then have "r \<in> set (workflow_definitions db) \<and> wd_id r = i" using rel(2) by (simp add: row_at_Some_iff)
  then show ?thesis using that r rel(3,4) by (auto simp: row_at_Some_iff)
qed

lemma create_rel:
  assumes rel: "pg_rel db s" and new: "\<not> has_run s (run_id r)" and d: "map_of (defs s) (run_definition_id r) \<noteq> None"
    and "storable r"
  shows "pg_CreateRun r db = (None, db\<lparr>saga_runs := saga_runs db @ [row_of_run r]\<rparr>)
    \<and> pg_rel (db\<lparr>saga_runs := saga_runs db @ [row_of_run r]\<rparr>) (CreateRun r s)"
proof -
  have id: "sr_id (row_of_run r) = run_id r" by (simp add: row_of_run_def)
  have none: "row_at sr_id (run_id r) (saga_runs db) = None" "map_of (runs s) (run_id r) = None"
    using rel_run_cases [OF rel, of "run_id r"] new by (force simp: has_run_def)+
  then have fresh: "run_id r \<notin> sr_id ` set (saga_runs db)" by (simp add: row_at_None_iff)
  obtain x where "map_of (defs s) (run_definition_id r) = Some x" using d by blast
  then have "run_definition_id r \<in> wd_id ` set (workflow_definitions db)" using rel_def_row [OF rel] by (metis image_eqI)
  then have "pg_CreateRun r db = (None, db\<lparr>saga_runs := saga_runs db @ [row_of_run r]\<rparr>)"
    using fresh by (simp add: pg_CreateRun_def insert_row_def id)
  moreover have "pg_rel (db\<lparr>saga_runs := saga_runs db @ [row_of_run r]\<rparr>) (CreateRun r s)"
  proof -
    have v: "visible (run_of_row (row_of_run r)) = visible (cut_run r)" using assms(4) by (simp add: storable_def)
    have "map_option (\<lambda>r. visible (cut_run r)) (map_of (runs s) i) = map_option (\<lambda>x. visible (run_of_row x)) (row_at sr_id i (saga_runs db))" for i
      using rel by (simp add: pg_rel_defs)
    then have "pg_runs_rel (db\<lparr>saga_runs := saga_runs db @ [row_of_run r]\<rparr>) (CreateRun r s)"
      using rel fresh none(1) v
      by (simp add: pg_rel_def pg_runs_rel_def CreateRun_def row_at_append id split: option.split)
    then show ?thesis using rel by (simp add: pg_rel_def pg_defs_rel_def pg_logs_rel_def pg_rest_rel_def CreateRun_def)
  qed
  ultimately show ?thesis by simp
qed

lemma create_agrees:
  assumes rel: "pg_rel db s"
  shows "pg_allowed (PutRun r) s \<Longrightarrow> agrees (pg_do u tm (PutRun r) db) (mem_do (PutRun r) s)"
    and "pg_allowed (PutDef i d) s \<Longrightarrow> agrees (pg_do u tm (PutDef i d) db) (mem_do (PutDef i d) s)"
    and "pg_allowed (Spawn di ci now p ps b d inp start) s \<Longrightarrow>
      agrees (pg_do u tm (Spawn di ci now p ps b d inp start) db) (mem_do (Spawn di ci now p ps b d inp start) s)"
proof -
  show "agrees (pg_do u tm (PutRun r) db) (mem_do (PutRun r) s)" if "pg_allowed (PutRun r) s"
    using create_rel [OF rel, of r] that by (auto simp: agrees_def of_opt_def)
  show "agrees (pg_do u tm (PutDef i d) db) (mem_do (PutDef i d) s)" if a: "pg_allowed (PutDef i d) s"
  proof -
    let ?new = "\<lparr>wd_id = i, wd_workflow_id = def_id d, wd_version = def_version d, wd_tenant_id = None,
      wd_name = def_name d, wd_description = def_description d, wd_spec = d, wd_published = def_published d,
      wd_created_at = timestamptz (if def_created_at d = 0 then tm (PutDef i d) else def_created_at d),
      wd_created_by = (if def_created_by d = [] then ''system'' else def_created_by d)\<rparr>"
    have key: "def_key ?new = (def_id d, def_version d)" by (simp add: def_key_def)
    have "map_of (defs s) (wd_id r) = Some (wd_spec r)" if "r \<in> set (workflow_definitions db)" for r
      using rel that by (metis (no_types, lifting) option.simps(9) pg_defs_rel_def pg_rel_def row_at_Some_iff)
    then have "wd_spec r \<in> set (vals (defs s))" if "r \<in> set (workflow_definitions db)" for r
      using that by (metis image_eqI image_set map_of_SomeD snd_conv)
    moreover have "\<forall>r \<in> set (workflow_definitions db). def_key r = (def_id (wd_spec r), def_version (wd_spec r))"
      using rel by (simp add: pg_rel_defs)
    moreover have "\<forall>x \<in> set (vals (defs s)). (def_id x, def_version x) \<noteq> (def_id d, def_version d)"
      using a unfolding pg_allowed.simps by blast
    ultimately have "\<forall>r \<in> set (workflow_definitions db). def_key r \<noteq> (def_id d, def_version d)" by metis
    then have nk: "def_key ?new \<notin> def_key ` set (workflow_definitions db)" by (auto simp: key)
    then have none: "row_at def_key (def_key ?new) (workflow_definitions db) = None" by (simp add: row_at_None_iff)
    have "map_option wd_spec (row_at wd_id i (workflow_definitions db)) = map_of (defs s) i"
      using rel by (simp add: pg_rel_defs)
    then have ni: "row_at wd_id i (workflow_definitions db) = None" using a by simp
    have "pg_UpsertWorkflowDefinition u i (tm (PutDef i d)) d db =
        (Inr i, db\<lparr>workflow_definitions := workflow_definitions db @ [?new]\<rparr>)"
      using a nk none by (simp add: pg_UpsertWorkflowDefinition_def uuid_param_def upsert_row_def Let_def row_at_append)
    moreover have "pg_rel (db\<lparr>workflow_definitions := workflow_definitions db @ [?new]\<rparr>) (UpsertWorkflowDefinition i d s)"
    proof -
      have eq: "map_of (defs s) j = map_option wd_spec (row_at wd_id j (workflow_definitions db))" for j
        using rel by (simp add: pg_rel_defs)
      have "map_option wd_spec (row_at wd_id j (workflow_definitions db @ [?new]))
          = map_of (defs (UpsertWorkflowDefinition i d s)) j" for j
        using ni by (cases "row_at wd_id j (workflow_definitions db)")
          (auto simp: UpsertWorkflowDefinition_def row_at_append eq)
      moreover have "i \<notin> wd_id ` set (workflow_definitions db)" using ni by (simp add: row_at_None_iff)
      ultimately have "pg_defs_rel (db\<lparr>workflow_definitions := workflow_definitions db @ [?new]\<rparr>) (UpsertWorkflowDefinition i d s)"
        using rel nk key by (simp add: pg_rel_def pg_defs_rel_def)
      then show ?thesis
        using rel by (simp add: pg_rel_def pg_runs_rel_def pg_logs_rel_def pg_rest_rel_def UpsertWorkflowDefinition_def)
    qed
    ultimately show ?thesis by (simp add: agrees_def)
  qed
  show "agrees (pg_do u tm (Spawn di ci now p ps b d inp start) db) (mem_do (Spawn di ci now p ps b d inp start) s)"
    if a: "pg_allowed (Spawn di ci now p ps b d inp start) s"
  proof -
    let ?ids = "at_key (defsByName s) (def_id d)"
    obtain x where x: "map_of (defs s) (last ?ids) = Some x" "def_id x = def_id d" "def_version x = def_version d"
      using a by (auto split: option.splits)
    obtain r where r: "wd_id r = last ?ids" "row_at def_key (def_id d, def_version d) (workflow_definitions db) = Some r"
      using rel_def_row [OF rel x(1)] x(2,3) by metis
    let ?child = "new_child ci now (last ?ids) p ps b d inp start"
    have "storable ?child"
      using a by (simp add: storable_def visible_row new_child_def NewSagaRun_def Let_def row_of_run_def jsonb_append)
    moreover have "run_id ?child = ci" "run_definition_id ?child = last ?ids" by simp_all
    ultimately have c: "pg_CreateRun ?child db = (None, db\<lparr>saga_runs := saga_runs db @ [row_of_run ?child]\<rparr>)"
        "pg_rel (db\<lparr>saga_runs := saga_runs db @ [row_of_run ?child]\<rparr>) (CreateRun ?child s)"
      using create_rel [OF rel, of ?child] a x(1) by auto
    have "pg_SpawnChildRunAt ci now p ps b d inp start db = (Inr ci, db\<lparr>saga_runs := saga_runs db @ [row_of_run ?child]\<rparr>)"
      using c(1) r unfolding new_child_def Let_def
      by (auto simp: pg_SpawnChildRunAt_def NewSagaRun_def Let_def split: if_splits)
    moreover have "SpawnChildRunAt di ci now p ps b d inp start s = CreateRun ?child s"
      using a by (simp add: SpawnChildRunAt_def CreateRun_def Let_def)
    ultimately show ?thesis using c(2) by (simp add: agrees_def)
  qed
qed

lemma frame_agrees:
  assumes rel: "pg_rel db s"
  shows "agrees (pg_do u tm (PushFrame i f) db) (mem_do (PushFrame i f) s)"
    and "agrees (pg_do u tm (PopFrame i) db) (mem_do (PopFrame i) s)"
proof -
  have "agrees (pg_do u tm (PushFrame i f) db) (mem_do (PushFrame i f) s)
      \<and> agrees (pg_do u tm (PopFrame i) db) (mem_do (PopFrame i) s)"
  proof (cases rule: rel_run_cases [OF rel, where i = i, case_names missing present])
    case missing
    then show ?thesis
      using rel by (simp add: agrees_def of_opt_def of_sum_def pg_PushTryCatch_def PushTryCatch_def
          pg_PopTryCatch_def PopTryCatch_def)
  next
    case (present x r)
    have stack: "run_try_catch_stack r = sr_try_catch_stack x" using present(3) by (simp add: visible_row)
    have "pg_rel (snd (run_update i always (\<lambda>r. r\<lparr>sr_try_catch_stack := st, sr_last_event_at := timestamptz t\<rparr>) db))
        (s\<lparr>runs := AList.update i (r\<lparr>run_try_catch_stack := st\<rparr>) (runs s)\<rparr>)" for st t
      using present(3) by (intro run_update_rel [OF rel present(1)]) (auto simp: visible_row always_def)
    then show ?thesis
      using present(1,2) rel by (simp add: agrees_def of_opt_def of_sum_def pg_PushTryCatch_def PushTryCatch_def
          pg_PopTryCatch_def PopTryCatch_def stack maxDepth_def Let_def)
  qed
  then show "agrees (pg_do u tm (PushFrame i f) db) (mem_do (PushFrame i f) s)"
    and "agrees (pg_do u tm (PopFrame i) db) (mem_do (PopFrame i) s)" by simp_all
qed

section \<open>Events and signals\<close>

lemma rel_event:
  assumes "pg_rel db s" and "x \<in> set (saga_run_events db)"
  obtains e where "event_of_row x = cut_event e" "e \<in> set (at_key (events s) (se_run_id x))" "e \<in> set (logged s)"
proof -
  have "map event_of_row (filter (\<lambda>r. se_run_id r = se_run_id x) (saga_run_events db))
      = map cut_event (at_key (events s) (se_run_id x))"
    using assms(1) by (simp add: pg_rel_defs)
  then have "cut_event ` set (at_key (events s) (se_run_id x))
      = event_of_row ` set (filter (\<lambda>r. se_run_id r = se_run_id x) (saga_run_events db))" by (metis set_map)
  then have "event_of_row x \<in> cut_event ` set (at_key (events s) (se_run_id x))" using assms(2) by auto
  then obtain e where e: "event_of_row x = cut_event e" "e \<in> set (at_key (events s) (se_run_id x))" by blast
  then have "e \<in> set (logged s)"
    by (cases "map_of (events s) (se_run_id x)") (force simp: at_key_def logged_def dest: map_of_SomeD)+
  then show ?thesis using that e by blast
qed

lemma insert_event_rel:
  assumes rel: "pg_rel db s" and run: "has_run s (se_run_id x)" and id: "se_id x \<notin> ev_id ` set (logged s)"
    and "\<not> (\<exists>y \<in> set (saga_run_events db). same_event y x)" and e: "event_of_row x = cut_event e"
  shows "insert_event x db = Inr (db\<lparr>saga_run_events := saga_run_events db @ [x]\<rparr>)
    \<and> pg_rel (db\<lparr>saga_run_events := saga_run_events db @ [x]\<rparr>) (AppendEvent e s)"
proof -
  have "se_id y \<noteq> se_id x" if "y \<in> set (saga_run_events db)" for y
  proof
    assume "se_id y = se_id x"
    then have "ev_id (event_of_row y) = se_id x" by (simp add: event_of_row_def)
    then show False using rel_event [OF rel that] id by (metis image_eqI cut_ids(1))
  qed
  then have "se_id x \<notin> se_id ` set (saga_run_events db)" by (metis imageE)
  then have "insert_event x db = Inr (db\<lparr>saga_run_events := saga_run_events db @ [x]\<rparr>)"
    using assms(4) run by (simp add: insert_event_def has_run_exists [OF rel])
  moreover have "ev_run_id e = se_run_id x" using arg_cong [OF e, of ev_run_id] by (simp add: event_of_row_def)
  then have "pg_rel (db\<lparr>saga_run_events := saga_run_events db @ [x]\<rparr>) (AppendEvent e s)"
    using rel e by (auto simp: pg_rel_defs AppendEvent_def at_key_def)
  ultimately show ?thesis by simp
qed

lemma event_agrees:
  assumes rel: "pg_rel db s" and a: "pg_allowed (PutEvent e) s"
  shows "agrees (pg_do u tm (PutEvent e) db) (mem_do (PutEvent e) s)"
proof -
  let ?x = "row_of_event e"
  have fields: "se_run_id ?x = ev_run_id e" "se_id ?x = ev_id e" "event_of_row ?x = cut_event e"
    using a by (simp_all add: event_round_trip stored_event_def cut_event_def) (simp_all add: row_of_event_def)
  have "\<not> (\<exists>y \<in> set (saga_run_events db). same_event y ?x)"
  proof
    assume "\<exists>y \<in> set (saga_run_events db). same_event y ?x"
    then obtain y where y: "y \<in> set (saga_run_events db)" "same_event y ?x" by blast
    then have "ev_step_id e \<noteq> []" "log_key (event_of_row y) = log_key e" "se_run_id y = ev_run_id e"
      by (auto simp: same_event_def row_of_event_def event_of_row_def log_key_def sql_nullif_def split: if_splits)
    then show False using rel_event [OF rel y(1)] a by (metis image_eqI pg_allowed.simps(3) cut_ids(2))
  qed
  then show ?thesis
    using insert_event_rel [OF rel, of ?x] a fields by (simp add: agrees_def of_opt_def pg_AppendEvent_def)
qed

lemma rel_tasks: "pg_rel db s \<Longrightarrow> row_at task_id i (saga_user_tasks db) = map_option cut_task (map_of (userTasks s) i)"
  by (simp add: pg_rel_defs)

lemma rel_triggers: "pg_rel db s \<Longrightarrow> row_at trig_id i (saga_triggers db) = map_option cut_trigger (map_of (triggers s) i)"
  by (simp add: pg_rel_defs)

text \<open>Changing the tables that only the last part of the relation speaks about.\<close>

lemma rel_rest:
  assumes "pg_rel db s" and "\<And>j. row_at task_id j ta = map_option cut_task (map_of ta' j)"
    and "\<And>j. row_at trig_id j tr = map_option cut_trigger (map_of tr' j)"
  shows "pg_rel (db\<lparr>saga_user_tasks := ta, saga_triggers := tr\<rparr>) (s\<lparr>userTasks := ta', triggers := tr'\<rparr>)"
  using assms by (simp add: pg_rel_defs)

lemma rel_put_tasks:
  assumes "pg_rel db s" and "\<And>j. row_at task_id j ta = map_option cut_task (map_of ta' j)"
  shows "pg_rel (db\<lparr>saga_user_tasks := ta\<rparr>) (s\<lparr>userTasks := ta'\<rparr>)"
  using rel_rest [OF assms, of "saga_triggers db" "triggers s"] rel_triggers [OF assms(1)] by simp

lemma rel_put_triggers:
  assumes "pg_rel db s" and "\<And>j. row_at trig_id j tr = map_option cut_trigger (map_of tr' j)"
  shows "pg_rel (db\<lparr>saga_triggers := tr\<rparr>) (s\<lparr>triggers := tr'\<rparr>)"
  using rel_rest [OF assms(1) _ assms(2), of "saga_user_tasks db" "userTasks s"] rel_tasks [OF assms(1)] by simp

lemma close_tasks_rel:
  assumes "pg_rel db s"
  shows "pg_rel (db\<lparr>saga_user_tasks := snd (sql_update
      (\<lambda>t. sql_and (Some (task_run_id t = i)) (is_null (task_submitted_at t)))
      (\<lambda>t. t\<lparr>task_submitted_at := Some (timestamptz now), task_submitted_by := ''system:run-cancelled''\<rparr>) (saga_user_tasks db))\<rparr>)
    (s\<lparr>userTasks := map (\<lambda>(j, t). (j, close_task now i t)) (userTasks s)\<rparr>)"
proof (rule rel_put_tasks [OF assms])
  fix j :: uuid
  have "map_of (map (\<lambda>(j, t). (j, close_task now i t)) xs) j = map_option (close_task now i) (map_of xs j)" for xs
    by (induction xs) auto
  moreover have "(if selects (sql_and (Some (task_run_id t = i)) (is_null (task_submitted_at t)))
      then t\<lparr>task_submitted_at := Some (timestamptz now), task_submitted_by := ''system:run-cancelled''\<rparr> else t) = close_task (timestamptz now) i t" for t
    by (simp add: close_task_def)
  moreover have "task_id (close_task k i t) = task_id t" "close_task (timestamptz k) i (cut_task t) = cut_task (close_task k i t)"
    for k t by (simp_all add: close_task_def cut_task_def)
  ultimately show "row_at task_id j (snd (sql_update
      (\<lambda>t. sql_and (Some (task_run_id t = i)) (is_null (task_submitted_at t)))
      (\<lambda>t. t\<lparr>task_submitted_at := Some (timestamptz now), task_submitted_by := ''system:run-cancelled''\<rparr>) (saga_user_tasks db)))
    = map_option cut_task (map_of (map (\<lambda>(j, t). (j, close_task now i t)) (userTasks s)) j)"
    using rel_tasks [OF assms] by (simp add: sql_update_def row_at_map option.map_comp comp_def)
qed

lemma touched_guard:
  assumes "pg_rel db s"
  shows "fst (run_update i g f db) = 0 \<longleftrightarrow> (\<forall>x. row_at sr_id i (saga_runs db) = Some x \<longrightarrow> \<not> selects (g x))"
proof -
  have "distinct (map sr_id (saga_runs db))" using assms by (simp add: pg_rel_defs)
  then show ?thesis
    by (auto simp: run_update_def sql_update_def sql_select_def filter_empty_conv row_at_Some_iff)
qed

text \<open>The row \<^verbatim>\<open>Cancel\<close> writes, and the event it logs.\<close>

abbreviation cancel_row :: "gotime \<Rightarrow> string \<Rightarrow> run_row \<Rightarrow> run_row" where
  "cancel_row now reason r \<equiv> r\<lparr>sr_state := RunStateCancelled, sr_terminal_at := Some (timestamptz now),
     sr_last_event_at := timestamptz now, sr_last_error := sql_coalesce (sql_nullif reason []) (sr_last_error r),
     sr_wakeup_at := None, sr_awaited_signal := None, sr_awaited_event_topic := None,
     sr_awaited_event_headers := None, sr_awaited_action_dispatch := None\<rparr>"

abbreviation cancel_event :: "gotime \<Rightarrow> uuid \<Rightarrow> uuid \<Rightarrow> string \<Rightarrow> string \<Rightarrow> event_row" where
  "cancel_event now evid i reason stp \<equiv>
     \<lparr>se_id = evid, se_run_id = i, se_step_id = Some stp, se_attempt = 0,
      se_event_type = EventRunCancelled, se_from_state = None, se_to_state = None,
      se_actor = ''engine'', se_metadata = [(''reason'', VStr reason)], se_recorded_at = timestamptz now\<rparr>"

lemma cancel_agrees:
  assumes rel: "pg_rel db s" and a: "pg_allowed (CancelRun now evid i reason) s"
  shows "agrees (pg_do u tm (CancelRun now evid i reason) db) (mem_do (CancelRun now evid i reason) s)"
proof -
  let ?u = "run_update i not_ended (cancel_row now reason) db"
  show ?thesis
  proof (cases rule: rel_run_cases [OF rel, where i = i, case_names missing present])
    case missing
    then have "fst ?u = 0" by (simp add: touched_guard [OF rel])
    then show ?thesis
      using missing rel by (simp add: agrees_def of_opt_def of_sum_def pg_Cancel_def Cancel_def split_beta run_exists_iff
          run_update_missing)
  next
    case (present x r)
    have state: "run_state r = sr_state x" "run_current_step r = or_default (sr_current_step x) []"
      using present(3) by (simp_all add: visible_row)
    show ?thesis
    proof (cases "IsTerminal (sr_state x)")
      case True
      then have "fst ?u = 0" using present(1) by (simp add: touched_guard [OF rel] not_ended_iff)
      then show ?thesis
        using True present(1,2) rel state by (simp add: agrees_def of_opt_def of_sum_def pg_Cancel_def Cancel_def
            split_beta run_exists_iff row_at_run_update)
    next
      case False
      let ?s1 = "s\<lparr>runs := AList.update i (cancel_run now reason r) (runs s)\<rparr>"
      let ?t = "snd (sql_update (\<lambda>t. sql_and (Some (task_run_id t = i)) (is_null (task_submitted_at t)))
          (\<lambda>t. t\<lparr>task_submitted_at := Some (timestamptz now), task_submitted_by := ''system:run-cancelled''\<rparr>)
          (saga_user_tasks (snd ?u)))"
      let ?s2 = "?s1\<lparr>userTasks := map (\<lambda>(j, t). (j, close_task now i t)) (userTasks ?s1)\<rparr>"
      let ?db2 = "(snd ?u)\<lparr>saga_user_tasks := ?t\<rparr>"
      let ?x = "cancel_event now evid i reason (or_default (sr_current_step x) [])"
      let ?e = "(event_of_row ?x)\<lparr>ev_recorded_at := now\<rparr>"
      have touched: "fst ?u \<noteq> 0"
        using False present(1) by (simp only: touched_guard [OF rel] not_ended_iff) auto
      have "pg_rel (snd ?u) ?s1"
        using False present(3) a
        by (intro run_update_rel [OF rel present(1)])
          (auto simp: visible_row not_ended_iff cancel_run_def sql_coalesce_def sql_nullif_def)
      then have rel2: "pg_rel ?db2 ?s2" by (rule close_tasks_rel)
      have fresh: "\<not> (\<exists>y \<in> set (saga_run_events ?db2). same_event y ?x)"
      proof
        assume "\<exists>y \<in> set (saga_run_events ?db2). same_event y ?x"
        then obtain y where y: "y \<in> set (saga_run_events db)" "se_run_id y = i" "se_event_type y = EventRunCancelled"
          by (auto simp: same_event_def)
        obtain e where e: "event_of_row y = cut_event e" "e \<in> set (at_key (events s) (se_run_id y))"
          using rel_event [OF rel y(1)] by blast
        have "ev_type e = EventRunCancelled" using arg_cong [OF e(1), of ev_type] y(3) by (simp add: event_of_row_def)
        then show False using e(2) y(2) a by auto
      qed
      have "has_run ?s2 i" by (simp add: has_run_def)
      then have ins: "insert_event ?x ?db2 = Inr (?db2\<lparr>saga_run_events := saga_run_events ?db2 @ [?x]\<rparr>)"
          "pg_rel (?db2\<lparr>saga_run_events := saga_run_events ?db2 @ [?x]\<rparr>) (AppendEvent ?e ?s2)"
        using insert_event_rel [OF rel2 _ _ fresh, of ?e] a by (simp_all add: logged_def event_of_row_def cut_event_def)
      have step: "row_at sr_id i (saga_runs (snd ?u)) = Some (cancel_row now reason x)"
        using present(1) False by (simp add: row_at_run_update not_ended_iff)
      have "pg_Cancel now evid i reason db = (None, ?db2\<lparr>saga_run_events := saga_run_events ?db2 @ [?x]\<rparr>)"
        using touched ins(1) by (simp add: pg_Cancel_def split_beta step)
      moreover have "Cancel now evid i reason s = Inr (AppendEvent ?e ?s2)"
        using present(2) False a state by (simp add: Cancel_def NewEvent_def event_of_row_def Let_def)
      ultimately show ?thesis using ins(2) by (simp add: agrees_def of_opt_def of_sum_def)
    qed
  qed
qed

lemma rel_put_signals:
  assumes "pg_rel db s" and "\<And>j. filter (\<lambda>g. sig_run_id g = j) sg = map cut_signal (at_key sg' j)"
  shows "pg_rel (db\<lparr>saga_signals := sg\<rparr>) (s\<lparr>signals := sg'\<rparr>)"
  using assms by (simp add: pg_rel_defs)

lemma consume_agrees:
  assumes rel: "pg_rel db s"
  shows "agrees (pg_do u tm (Consume now i n) db) (mem_do (Consume now i n) s)"
proof (cases rule: rel_run_cases [OF rel, where i = i, case_names missing present])
  case missing
  then have "sql_select (\<lambda>r. sql_and (Some (sr_id r = i)) (Some (sr_state r = RunStatePaused))) (saga_runs db) = []"
    by (auto simp: sql_select_def filter_empty_conv row_at_None_iff)
  then show ?thesis
    using missing rel by (simp add: agrees_def pg_TryConsumeAwaitedSignal_def TryConsumeAwaitedSignal_def)
next
  case (present x r)
  have rows: "x \<in> set (saga_runs db)" "distinct (map sr_id (saga_runs db))"
    using present(1) rel by (simp_all add: pg_rel_defs row_at_Some_iff)
  have state: "run_state r = sr_state x" "run_awaited_signal r = sr_awaited_signal x"
    using present(3) by (simp_all add: visible_row)
  have sel: "sql_select (\<lambda>r. sql_and (Some (sr_id r = i)) (Some (sr_state r = RunStatePaused))) (saga_runs db)
      = (if sr_state x = RunStatePaused then [x] else [])"
    using select_one [OF rows(2,1), of "\<lambda>r. Some (sr_state r = RunStatePaused)"] present(4) by simp
  show ?thesis
  proof (cases "sr_state x = RunStatePaused \<and> sr_awaited_signal x = Some n")
    case False
    then show ?thesis
      using present(2) rel state sel
      by (auto simp: agrees_def pg_TryConsumeAwaitedSignal_def TryConsumeAwaitedSignal_def)
  next
    case True
    let ?u = "snd (run_update i always (clear_markers now) db)"
    let ?g = "\<lambda>g. if selects (sql_and (sql_and (Some (sig_run_id g = i)) (Some (sig_name g = n)))
        (is_null (sig_consumed_at g))) then g\<lparr>sig_consumed_at := Some (timestamptz now)\<rparr> else g"
    have rel1: "pg_rel ?u (s\<lparr>runs := AList.update i (clear_awaits r) (runs s)\<rparr>)"
      using present(3) by (intro run_update_rel [OF rel present(1)])
        (auto simp: visible_row always_def clear_markers_def clear_awaits_def)
    have log: "filter (\<lambda>g. sig_run_id g = j) (map ?g (saga_signals db)) = map cut_signal (at_key
        (case map_of (signals s) i of None \<Rightarrow> signals s
         | Some sigs \<Rightarrow> AList.update i (map (consume_signal now n) sigs) (signals s)) j)" for j
    proof -
      have eq: "filter (\<lambda>g. sig_run_id g = k) (saga_signals db) = map cut_signal (at_key (signals s) k)" for k
        using rel by (simp add: pg_rel_defs)
      have run: "sig_run_id (?g g) = sig_run_id g" for g by simp
      have "filter (\<lambda>g. sig_run_id g = j) (map ?g (saga_signals db))
          = map ?g (filter (\<lambda>g. sig_run_id g = j) (saga_signals db))"
        unfolding filter_map comp_def run ..
      also have "\<dots> = map (if j = i then consume_signal (timestamptz now) n else (\<lambda>g. g)) (filter (\<lambda>g. sig_run_id g = j) (saga_signals db))"
        by (intro map_cong) (auto simp: consume_signal_def)
      also have "\<dots> = map cut_signal (map (if j = i then consume_signal now n else (\<lambda>g. g)) (at_key (signals s) j))"
        unfolding eq by (auto simp: consume_signal_def cut_signal_def)
      finally show ?thesis by (cases "map_of (signals s) i") (auto simp: at_key_def)
    qed
    have swap: "s\<lparr>signals := a, runs := b\<rparr> = s\<lparr>runs := b, signals := a\<rparr>" for a b by simp
    have "pg_TryConsumeAwaitedSignal now i n db = (True, ?u\<lparr>saga_signals := map ?g (saga_signals db)\<rparr>)"
      using True sel by (simp add: pg_TryConsumeAwaitedSignal_def split_beta sql_update_def)
    then show ?thesis
      using True present(2) state rel_put_signals [OF rel1 log]
      by (simp add: agrees_def TryConsumeAwaitedSignal_def swap)
  qed
qed

lemma signal_agrees:
  assumes rel: "pg_rel db s" and a: "pg_allowed (PutSignal g) s"
  shows "agrees (pg_do u tm (PutSignal g) db) (mem_do (PutSignal g) s)"
proof -
  have same: "g\<lparr>sig_payload := jsonb (sig_payload g), sig_received_at := timestamptz (sig_received_at g),
      sig_consumed_at := None\<rparr> = cut_signal g"
    using a by (cases g) (simp add: cut_signal_def)
  have eq: "map cut_signal (at_key (signals s) k) = filter (\<lambda>g. sig_run_id g = k) (saga_signals db)" for k
    using rel by (simp add: pg_rel_defs)
  have "sig_id y \<noteq> sig_id g" if "y \<in> set (saga_signals db)" for y
  proof
    assume *: "sig_id y = sig_id g"
    have "y \<in> set (map cut_signal (at_key (signals s) (sig_run_id y)))" using that by (simp add: eq)
    then obtain z where z: "z \<in> set (at_key (signals s) (sig_run_id y))" "y = cut_signal z" by auto
    then have "z \<in> set (signalled s)"
      by (cases "map_of (signals s) (sig_run_id y)") (force simp: at_key_def signalled_def dest: map_of_SomeD)+
    then show False using a * z(2) by (metis image_eqI pg_allowed.simps(9) cut_ids(5))
  qed
  then have "sig_id g \<notin> sig_id ` set (saga_signals db)" by (metis imageE)
  moreover have "pg_rel (db\<lparr>saga_signals := saga_signals db @ [cut_signal g]\<rparr>) (AppendSignal g s)"
    using rel by (simp add: pg_rel_defs AppendSignal_def at_key_def)
  moreover have "run_exists db (sig_run_id g)" using a has_run_exists [OF rel] by simp
  ultimately have "pg_AppendSignal g db = (None, db\<lparr>saga_signals := saga_signals db @ [cut_signal g]\<rparr>)
      \<and> pg_rel (db\<lparr>saga_signals := saga_signals db @ [cut_signal g]\<rparr>) (AppendSignal g s)"
    unfolding pg_AppendSignal_def same by (simp add: insert_row_def cut_signal_def)
  then show ?thesis by (simp add: agrees_def of_opt_def)
qed

section \<open>User tasks and triggers\<close>

lemma task_agrees:
  assumes rel: "pg_rel db s"
  shows "pg_allowed (PutTask t) s \<Longrightarrow> agrees (pg_do u tm (PutTask t) db) (mem_do (PutTask t) s)"
    and "pg_allowed (SubmitTask now i who res) s \<Longrightarrow>
      agrees (pg_do u tm (SubmitTask now i who res) db) (mem_do (SubmitTask now i who res) s)"
proof -
  have eq: "row_at task_id j (saga_user_tasks db) = map_option cut_task (map_of (userTasks s) j)" for j
    by (simp add: rel_tasks [OF rel])
  show "agrees (pg_do u tm (PutTask t) db) (mem_do (PutTask t) s)" if a: "pg_allowed (PutTask t) s"
  proof -
    have none: "row_at task_id (task_id t) (saga_user_tasks db) = None" using a by (simp add: eq)
    have same: "t\<lparr>task_form_schema := jsonb (task_form_schema t), task_due_at := map_option timestamptz (task_due_at t),
        task_submitted_at := None, task_submitted_by := [], task_result := []\<rparr> = cut_task t"
      using a by (cases t) (simp add: cut_task_def)
    have "pg_rel (db\<lparr>saga_user_tasks := saga_user_tasks db @ [cut_task t]\<rparr>) (CreateUserTask t s)"
      unfolding CreateUserTask_def
      using a by (intro rel_put_tasks [OF rel]) (auto simp: row_at_append eq split: option.split)
    then show ?thesis
      using a none has_run_exists [OF rel]
      by (simp add: agrees_def of_opt_def pg_CreateUserTask_def same insert_row_def row_at_None_iff Let_def)
  qed
  show "agrees (pg_do u tm (SubmitTask now i who res) db) (mem_do (SubmitTask now i who res) s)"
    if a: "pg_allowed (SubmitTask now i who res) s"
  proof (cases "map_of (userTasks s) i")
    case None
    then have "row_at task_id i (saga_user_tasks db) = None" by (simp add: eq)
    then have same: "sql_update (\<lambda>t. Some (task_id t = i)) f (saga_user_tasks db) = (0, saga_user_tasks db)" for f
      by (auto simp: sql_update_def sql_select_def filter_empty_conv row_at_None_iff intro!: map_idI)
    then show ?thesis
      using None rel by (simp add: agrees_def of_opt_def of_sum_def pg_SubmitUserTask_def SubmitUserTask_def)
  next
    case (Some t)
    let ?f = "\<lambda>k t. t\<lparr>task_submitted_at := Some k, task_submitted_by := who, task_result := res\<rparr>"
    let ?up = "sql_update (\<lambda>t. Some (task_id t = i)) (?f (timestamptz now)) (saga_user_tasks db)"
    have "row_at task_id i (saga_user_tasks db) \<noteq> None" using Some by (simp add: eq)
    then have "fst ?up \<noteq> 0"
      by (auto simp: sql_update_def sql_select_def filter_empty_conv row_at_def find_Some_iff)
    moreover have "row_at task_id j (snd ?up) = map_option cut_task (map_of (AList.update i (?f now t) (userTasks s)) j)" for j
    proof -
      have "row_at task_id j (snd ?up) = map_option (\<lambda>r. if task_id r = i then ?f (timestamptz now) r else r) (row_at task_id j (saga_user_tasks db))"
        by (simp add: sql_update_def row_at_map)
      moreover have "task_id x = j" if "map_of (userTasks s) j = Some x" for x
        using eq [of j] that by (auto dest: row_at_key)
      ultimately show ?thesis using Some by (cases "map_of (userTasks s) j") (auto simp: eq, simp_all add: cut_task_def)
    qed
    then have "pg_rel (db\<lparr>saga_user_tasks := snd ?up\<rparr>) (s\<lparr>userTasks := AList.update i (?f now t) (userTasks s)\<rparr>)"
      by (rule rel_put_tasks [OF rel])
    ultimately show ?thesis
      using Some a by (simp add: agrees_def of_opt_def of_sum_def pg_SubmitUserTask_def SubmitUserTask_def split_beta)
  qed
qed

lemma trigger_agrees:
  assumes rel: "pg_rel db s"
  shows "pg_allowed (PutTrigger f now t) s \<Longrightarrow> agrees (pg_do u tm (PutTrigger f now t) db) (mem_do (PutTrigger f now t) s)"
    and "agrees (pg_do u tm (DropTrigger i) db) (mem_do (DropTrigger i) s)"
proof -
  have eq: "row_at trig_id j (saga_triggers db) = map_option cut_trigger (map_of (triggers s) j)" for j
    by (simp add: rel_triggers [OF rel])
  show "agrees (pg_do u tm (PutTrigger f now t) db) (mem_do (PutTrigger f now t) s)" if a: "pg_allowed (PutTrigger f now t) s"
  proof -
    let ?i = "if trig_id t = uuid_Nil then f else trig_id t"
    let ?r = "t\<lparr>trig_id := ?i, trig_created_at := (if trig_created_at t = 0 then now else trig_created_at t)\<rparr>"
    have none: "row_at trig_id ?i (saga_triggers db) = None" using a by (simp add: eq)
    have "pg_rel (db\<lparr>saga_triggers := saga_triggers db @ [cut_trigger ?r]\<rparr>) (s\<lparr>triggers := AList.update ?i ?r (triggers s)\<rparr>)"
      using a by (intro rel_put_triggers [OF rel]) (auto simp: row_at_append eq split: option.split)
    moreover have "pg_UpsertTrigger f now t db = (?i, db\<lparr>saga_triggers := saga_triggers db @ [cut_trigger ?r]\<rparr>)"
      using a none by (simp add: pg_UpsertTrigger_def upsert_row_def row_at_None_iff Let_def cut_trigger_def)
    moreover have "UpsertTrigger f now t s = (?i, s\<lparr>triggers := AList.update ?i ?r (triggers s)\<rparr>)"
      by (simp add: UpsertTrigger_def Let_def)
    ultimately show ?thesis by (simp add: agrees_def)
  qed
  show "agrees (pg_do u tm (DropTrigger i) db) (mem_do (DropTrigger i) s)"
  proof (cases "map_of (triggers s) i")
    case None
    then have "row_at trig_id i (saga_triggers db) = None" by (simp add: eq)
    then have "sql_delete (\<lambda>t. Some (trig_id t = i)) (saga_triggers db) = (0, saga_triggers db)"
      by (auto simp: sql_delete_def sql_select_def filter_empty_conv filter_id_conv row_at_None_iff)
    then show ?thesis
      using None rel by (simp add: agrees_def of_opt_def of_sum_def pg_DeleteTrigger_def DeleteTrigger_def)
  next
    case (Some t)
    have drop: "row_at trig_id j (filter (\<lambda>t. trig_id t \<noteq> i) xs) = (if j = i then None else row_at trig_id j xs)" for j xs
      by (induction xs) (auto simp: row_at_def)
    have "pg_rel (db\<lparr>saga_triggers := filter (\<lambda>t. trig_id t \<noteq> i) (saga_triggers db)\<rparr>)
        (s\<lparr>triggers := AList.delete i (triggers s)\<rparr>)"
      by (intro rel_put_triggers [OF rel]) (simp add: delete_conv eq drop)
    moreover have "filter (\<lambda>t. trig_id t = i) (saga_triggers db) \<noteq> []"
      using eq [of i] Some by (auto simp: filter_empty_conv row_at_def find_Some_iff)
    ultimately show ?thesis
      using Some by (simp add: agrees_def of_opt_def of_sum_def pg_DeleteTrigger_def DeleteTrigger_def
          sql_delete_def sql_select_def)
  qed
qed

section \<open>The refinement\<close>

lemma pg_agrees:
  assumes "pg_rel db s" and "pg_allowed x s"
  shows "agrees (pg_do u tm x db) (mem_do x s)"
proof (cases x)
  case (PutDef i d) then show ?thesis using assms create_agrees(2) by blast
next
  case (PutRun r) then show ?thesis using assms create_agrees(1) by blast
next
  case (Spawn di ci now p ps b d inp start) then show ?thesis using assms create_agrees(3) by blast
next
  case (SetState i state cur) then show ?thesis using assms state_agrees(1) by blast
next
  case (FailRun now i cur msg) then show ?thesis using assms state_agrees(2) by blast
next
  case (Unpause i) then show ?thesis using assms state_agrees(3) by blast
next
  case (WakeRun i) then show ?thesis using assms state_agrees(4) by blast
next
  case (PauseUntil i t) then show ?thesis using assms pause_agrees(1) by blast
next
  case (PauseSignal i n d) then show ?thesis using assms pause_agrees(2) by blast
next
  case (PauseEvent i n h d) then show ?thesis using assms pause_agrees(3) by blast
next
  case (AwaitAction i d a) then show ?thesis using assms action_agrees(1) by blast
next
  case (FinishAction now i a m) then show ?thesis using assms action_agrees(2) by blast
next
  case (MergeVars i m) then show ?thesis using assms action_agrees(3) by blast
next
  case (PushFrame i f) then show ?thesis using assms frame_agrees(1) by blast
next
  case (PopFrame i) then show ?thesis using assms frame_agrees(2) by blast
next
  case (PutEvent e) then show ?thesis using assms event_agrees by blast
next
  case (CancelRun now evid i reason) then show ?thesis using assms cancel_agrees by blast
next
  case (Consume now i n) then show ?thesis using assms consume_agrees by blast
next
  case (PutSignal g) then show ?thesis using assms signal_agrees by blast
next
  case (PutTask t) then show ?thesis using assms task_agrees(1) by blast
next
  case (SubmitTask now i who res) then show ?thesis using assms task_agrees(2) by blast
next
  case (PutTrigger f now t) then show ?thesis using assms trigger_agrees(1) by blast
next
  case (DropTrigger i) then show ?thesis using assms trigger_agrees(2) by blast
qed

interpretation postgres: simulation pg_rel "pg_do u tm" mem_do pg_allowed for u tm
  by unfold_locales (use pg_agrees in \<open>auto simp: agrees_def\<close>)

text \<open>What is read from related states.\<close>

definition seen :: "gerr + saga_run \<Rightarrow> gerr + saga_run" where
  "seen = map_sum id visible"

lemma pg_reads:
  assumes rel: "pg_rel db s"
  shows "seen (pg_GetRun db i) = seen (map_sum id cut_run (GetRun s i))"
    and "pg_GetWorkflowDefinition db i = GetWorkflowDefinition s i"
    and "pg_GetUserTask db i = map_sum id cut_task (GetUserTask s i)"
    and "pg_GetTrigger db i = map_sum id cut_trigger (GetTrigger s i)"
    and "pg_ListEventsByRun tie db i = insertion_sort (event_before tie) (map cut_event (ListEventsByRun s i))"
proof -
  show "seen (pg_GetRun db i) = seen (map_sum id cut_run (GetRun s i))"
    by (rule rel_run_cases [OF rel, of i]) (simp_all add: seen_def pg_GetRun_def GetRun_def)
  have "map_option wd_spec (row_at wd_id i (workflow_definitions db)) = map_of (defs s) i"
    using rel by (simp add: pg_rel_defs)
  then show "pg_GetWorkflowDefinition db i = GetWorkflowDefinition s i"
    by (cases "row_at wd_id i (workflow_definitions db)")
      (auto simp: pg_GetWorkflowDefinition_def GetWorkflowDefinition_def dest: sym)
  show "pg_GetUserTask db i = map_sum id cut_task (GetUserTask s i)"
      "pg_GetTrigger db i = map_sum id cut_trigger (GetTrigger s i)"
    using rel_tasks [OF rel] rel_triggers [OF rel]
    by (simp_all add: pg_GetUserTask_def GetUserTask_def pg_GetTrigger_def GetTrigger_def split: option.split)
  show "pg_ListEventsByRun tie db i = insertion_sort (event_before tie) (map cut_event (ListEventsByRun s i))"
    using rel by (simp add: pg_rel_defs pg_ListEventsByRun_def ListEventsByRun_def sql_select_def)
qed

text \<open>
  C4: the PostgreSQL store refines the in-memory one, to the microsecond. Driven by any sequence of calls
  within the stated limits (\<open>pg_allowed\<close>), both give the same answer to every call, and afterwards the same
  definitions are read from them, the same runs up to the two time stamps, user tasks and triggers, each
  with its times cut to microseconds, and the same events, which PostgreSQL lists by their cut time and
  in any order within one microsecond.
\<close>

theorem postgres_refines_memory:
  assumes "all_allowed pg_allowed mem_do ops New"
    and "play (pg_do u tm) ops pg_empty = (answers, db)" and "play mem_do ops New = (answers', s)"
  shows "answers = answers' \<and> seen (pg_GetRun db i) = seen (map_sum id cut_run (GetRun s i))
    \<and> pg_GetWorkflowDefinition db i = GetWorkflowDefinition s i
    \<and> pg_GetUserTask db i = map_sum id cut_task (GetUserTask s i)
    \<and> pg_GetTrigger db i = map_sum id cut_trigger (GetTrigger s i)
    \<and> pg_ListEventsByRun tie db i = insertion_sort (event_before tie) (map cut_event (ListEventsByRun s i))"
proof -
  have "answers = answers'" and rel: "pg_rel db s"
    using postgres.traces [OF pg_empty_rel assms(1), of u tm] assms(2,3) by simp_all
  then show ?thesis using pg_reads [OF rel] by simp
qed

definition pg_demo_ops :: "store_op list" where
  "pg_demo_ops = [PutDef ''d1'' (sample_def True), PutRun (sample_run ''r1''), PauseSignal ''r1'' ''go'' (Some 7000),
     Consume 3 ''r1'' ''go'', CancelRun 8 ''e1'' ''r1'' ''stop'']"

lemma pg_demo_ops_allowed: "all_allowed pg_allowed mem_do pg_demo_ops New"
  by (simp add: pg_demo_ops_def New_def CreateRun_def has_run_def storable_def visible_row row_of_run_def of_sum_def
      UpsertWorkflowDefinition_def at_key_def sample_def_def blank_def_def jsonb_def_def jsonb_append
      SetPausedAwaitingSignal_def with_run_def TryConsumeAwaitedSignal_def clear_awaits_def logged_def
      sample_run_def NewSagaRun_def)

theorem postgres_refines_memory_witness:
  "fst (play (pg_do Some (\<lambda>_. 1)) pg_demo_ops pg_empty) = [Made ''d1'', Ok, Ok, Claimed True, Ok]
   \<and> seen (pg_GetRun (snd (play (pg_do Some (\<lambda>_. 1)) pg_demo_ops pg_empty)) ''r1'')
     = seen (map_sum id cut_run (GetRun (snd (play mem_do pg_demo_ops New)) ''r1''))"
proof -
  have "fst (play mem_do pg_demo_ops New) = [Made ''d1'', Ok, Ok, Claimed True, Ok]"
    by (simp add: pg_demo_ops_def New_def CreateRun_def of_sum_def SetPausedAwaitingSignal_def with_run_def
        UpsertWorkflowDefinition_def Cancel_def TryConsumeAwaitedSignal_def clear_awaits_def sample_run_def NewSagaRun_def Let_def)
  then show ?thesis
    using postgres_refines_memory [OF pg_demo_ops_allowed prod.collapse [symmetric] prod.collapse [symmetric],
        where u = Some and tm = "\<lambda>_. 1" and i = "''r1''"] by simp
qed

end
