(* ===== verification/Liveness.thy ===== *)
theory Liveness
  imports Recovery
begin

text \<open>
  The service workers report to (\<^verbatim>\<open>liveness/server.go\<close>, \<^verbatim>\<open>liveness/reporter.go\<close>): the
  stream protocol of \<^verbatim>\<open>Server.ExecuteStep\<close>, one message at a time, over the store-backed
  reporter. gRPC itself is the list of what \<^verbatim>\<open>Recv\<close> returns and the outcome of sending the
  acknowledgement; what the rest of the system does between two messages is part of that list.
\<close>

section \<open>Reporter\<close>

definition ErrRunNotFound :: gerr where
  "ErrRunNotFound = Errorf ''liveness: run not found'' []"

definition ErrStepNotAwaited :: gerr where
  "ErrStepNotAwaited = Errorf ''liveness: step not awaited'' []"

text \<open>\<^verbatim>\<open>StoreReporter\<close>: its publisher and compensator, each optional.\<close>

record reporter =
  rp_advance :: "(world \<Rightarrow> string \<Rightarrow> gerr option) option"
  rp_compensator :: "(uuid \<Rightarrow> string \<Rightarrow> world \<Rightarrow> gerr option \<times> world) option"

definition CheckStep :: "mem_store \<Rightarrow> uuid \<Rightarrow> string \<Rightarrow> int \<Rightarrow> gerr option" where
  "CheckStep s runID stepID attempt =
     (case GetRun s runID of
        Inl err \<Rightarrow>
          (if is_not_found err then Some (Errorf ''%w: %s'' [AErr ErrRunNotFound, AStr runID])
           else Some (Errorf ''liveness: read run %s: %w'' [AStr runID, AErr err]))
      | Inr run \<Rightarrow>
          (if run_state run \<noteq> RunStatePaused \<or> run_awaited_action_dispatch run = None
              \<or> run_current_step run \<noteq> stepID \<or> run_current_attempt run \<noteq> attempt
           then Some (Errorf ''%w: run %s step %s attempt %d''
                        [AErr ErrStepNotAwaited, AStr runID, AStr stepID, AInt attempt])
           else None))"

text \<open>
  What \<^verbatim>\<open>CompleteStep\<close> and \<^verbatim>\<open>FailStep\<close> do once the check has passed. The check and the
  store call are two calls on the store, so they are kept apart.
\<close>

definition complete_checked ::
  "reporter \<Rightarrow> uuid \<Rightarrow> string \<Rightarrow> int \<Rightarrow> gomap \<Rightarrow> world \<Rightarrow> gerr option \<times> world" where
  "complete_checked rp runID stepID attempt result w =
     (case try_store (CompleteAction (wall w) runID attempt result) w of
        (Some err, w1) \<Rightarrow>
          (Some (Errorf ''liveness: complete %s/%s: %w'' [AStr runID, AStr stepID, AErr err]), w1)
      | (None, w1) \<Rightarrow>
          (None, case rp_advance rp of
                   None \<Rightarrow> w1
                 | Some p \<Rightarrow> ignore (PublishSagaAdvance p runID w1)))"

definition CompleteStep ::
  "reporter \<Rightarrow> uuid \<Rightarrow> string \<Rightarrow> int \<Rightarrow> gomap \<Rightarrow> world \<Rightarrow> gerr option \<times> world" where
  "CompleteStep rp runID stepID attempt result w =
     (case CheckStep (st w) runID stepID attempt of
        Some err \<Rightarrow> (Some err, w)
      | None \<Rightarrow> complete_checked rp runID stepID attempt result w)"

definition fail_checked ::
  "env \<Rightarrow> reporter \<Rightarrow> uuid \<Rightarrow> string \<Rightarrow> int \<Rightarrow> string \<Rightarrow> string \<Rightarrow> bool \<Rightarrow> world
   \<Rightarrow> gerr option \<times> world" where
  "fail_checked e rp runID stepID attempt code message retryable w =
     (let (evid, w0) = fresh e w
      in case try_store (FailAction (wall w0) evid runID attempt code message retryable) w0 of
           (Some err, w1) \<Rightarrow>
             (Some (Errorf ''liveness: fail %s/%s: %w'' [AStr runID, AStr stepID, AErr err]), w1)
         | (None, w1) \<Rightarrow>
             (None, case rp_compensator rp of
                      None \<Rightarrow> w1
                    | Some cmp \<Rightarrow> ignore (cmp runID stepID w1)))"

definition FailStep ::
  "env \<Rightarrow> reporter \<Rightarrow> uuid \<Rightarrow> string \<Rightarrow> int \<Rightarrow> string \<Rightarrow> string \<Rightarrow> bool \<Rightarrow> world
   \<Rightarrow> gerr option \<times> world" where
  "FailStep e rp runID stepID attempt code message retryable w =
     (case CheckStep (st w) runID stepID attempt of
        Some err \<Rightarrow> (Some err, w)
      | None \<Rightarrow> fail_checked e rp runID stepID attempt code message retryable w)"

section \<open>The stream\<close>

text \<open>gRPC statuses; \<open>Transport\<close> is an error passed on as it is.\<close>

datatype grpc_status =
    StatusOK
  | NotFound string
  | FailedPrecondition string
  | InvalidArgument string
  | Internal string
  | Transport gerr

definition statusOf :: "gerr \<Rightarrow> grpc_status" where
  "statusOf err =
     (if err_is (\<lambda>e. e = ErrRunNotFound) err then NotFound (err_text err)
      else if err_is (\<lambda>e. e = ErrStepNotAwaited) err then FailedPrecondition (err_text err)
      else Internal ''liveness: the report could not be recorded'')"

text \<open>
  A worker's messages. \<open>WComplete b r\<close> carries the bytes of the result and what
  \<^verbatim>\<open>json.Unmarshal\<close> makes of them; \<open>WUnset\<close> is a message without an event.
\<close>

datatype worker_event =
    WStart string string int
  | WHeartbeat int
  | WComplete string "gerr + gomap"
  | WError string string bool
  | WUnset

record server =
  srv_env :: env
  srv_reporter :: reporter
  srv_send_ack :: "world \<Rightarrow> gerr option"

text \<open>The job a stream has started, and what the server does after a message.\<close>

record job =
  job_run :: uuid
  job_step :: string
  job_attempt :: int

datatype served = Serving "job option" bool | Ended grpc_status

definition server_complete :: "server \<Rightarrow> job \<Rightarrow> string \<Rightarrow> gerr + gomap \<Rightarrow> world \<Rightarrow> grpc_status \<times> world" where
  "server_complete srv j b decoded w =
     (let result = (if b = [] then []
                    else case decoded of
                      Inl _ \<Rightarrow> [(''_raw_result'', VStr b)]
                    | Inr m \<Rightarrow> m)
      in case CompleteStep (srv_reporter srv) (job_run j) (job_step j) (job_attempt j) result w of
           (Some err, w1) \<Rightarrow> (statusOf err, w1)
         | (None, w1) \<Rightarrow> (StatusOK, w1))"

definition server_start :: "server \<Rightarrow> string \<Rightarrow> string \<Rightarrow> int \<Rightarrow> world \<Rightarrow> served" where
  "server_start srv runIDStr stepID attempt w =
     (case uuid_parse (srv_env srv) runIDStr of
        Inl err \<Rightarrow> Ended (InvalidArgument ''liveness: run_id is not a uuid'')
      | Inr runID \<Rightarrow>
          (case CheckStep (st w) runID stepID attempt of
             Some err \<Rightarrow> Ended (statusOf err)
           | None \<Rightarrow>
               (case srv_send_ack srv w of
                  Some err \<Rightarrow> Ended (Transport err)
                | None \<Rightarrow> Serving (Some \<lparr>job_run = runID, job_step = stepID, job_attempt = attempt\<rparr>) True)))"

fun server_step :: "server \<Rightarrow> job option \<Rightarrow> worker_event \<Rightarrow> world \<Rightarrow> served \<times> world" where
  "server_step srv started (WStart runIDStr stepID attempt) w =
     (case started of
        Some _ \<Rightarrow> (Ended (InvalidArgument ''liveness: duplicate StartJob''), w)
      | None \<Rightarrow> (server_start srv runIDStr stepID attempt w, w))"
| "server_step srv started (WHeartbeat pct) w = (Serving started False, w)"
| "server_step srv started (WComplete b decoded) w =
     (case started of
        None \<Rightarrow> (Ended (InvalidArgument ''liveness: Complete before StartJob''), w)
      | Some j \<Rightarrow> (case server_complete srv j b decoded w of (x, w1) \<Rightarrow> (Ended x, w1)))"
| "server_step srv started (WError code message retryable) w =
     (case started of
        None \<Rightarrow> (Ended (InvalidArgument ''liveness: Error before StartJob''), w)
      | Some j \<Rightarrow>
          (case FailStep (srv_env srv) (srv_reporter srv) (job_run j) (job_step j) (job_attempt j)
                  code message retryable w of
             (Some err, w1) \<Rightarrow> (Ended (statusOf err), w1)
           | (None, w1) \<Rightarrow> (Ended StatusOK, w1)))"
| "server_step srv started WUnset w = (Serving started False, w)"

text \<open>
  What \<^verbatim>\<open>Recv\<close> returns in turn: the rest of the system acts, then a message arrives or the
  transport fails; the end of the list is \<^verbatim>\<open>io.EOF\<close>.
\<close>

type_synonym received = "(world \<Rightarrow> world) \<times> (gerr + worker_event)"

fun ExecuteStep :: "server \<Rightarrow> job option \<Rightarrow> received list \<Rightarrow> world \<Rightarrow> grpc_status \<times> world" where
  "ExecuteStep srv started [] w = (StatusOK, w)"
| "ExecuteStep srv started ((between, r) # rest) w =
     (case r of
        Inl err \<Rightarrow> (Transport err, between w)
      | Inr ev \<Rightarrow>
          (case server_step srv started ev (between w) of
             (Ended x, w1) \<Rightarrow> (x, w1)
           | (Serving started' acked, w1) \<Rightarrow> ExecuteStep srv started' rest w1))"

section \<open>Refusals\<close>

lemma CheckStep_None_iff:
  "CheckStep s i sid a = None \<longleftrightarrow>
     (\<exists>r d. GetRun s i = Inr r \<and> run_state r = RunStatePaused \<and> run_awaited_action_dispatch r = Some d
        \<and> run_current_step r = sid \<and> run_current_attempt r = a)"
  by (auto simp: CheckStep_def split: sum.split)

lemma statusOf_CheckStep:
  "CheckStep s i sid a = Some err \<Longrightarrow>
     statusOf err = (if is_ok (GetRun s i) then FailedPrecondition (err_text err) else NotFound (err_text err))"
  by (auto simp: CheckStep_def statusOf_def ErrRunNotFound_def ErrStepNotAwaited_def run_table
      split: sum.splits if_splits)

section \<open>The awaited action of a run\<close>

text \<open>What the run awaits, which only dispatching and reporting change.\<close>

definition awaited_of :: "world \<Rightarrow> uuid \<Rightarrow> string option option" where
  "awaited_of w i = map_option run_awaited_action_dispatch (map_of (runs (st w)) i)"

lemma awaited_with_run:
  assumes "\<And>r. run_awaited_action_dispatch (f r) = run_awaited_action_dispatch r"
  shows "awaited_of (snd (try_store (with_run j f) w)) i = awaited_of w i"
  using assms by (auto simp: awaited_of_def try_store_def with_run_def split: option.split)

lemma awaited_cong: "runs (st w) = runs (st w') \<Longrightarrow> awaited_of w i = awaited_of w' i"
  by (simp add: awaited_of_def)

lemma awaited_effects [simp]:
  "awaited_of (emit e k s a ty act m w) i = awaited_of w i"
  "awaited_of (snd (PublishSagaAdvance p j w)) i = awaited_of w i"
  "awaited_of (send d w) i = awaited_of w i"
  "awaited_of (snd (fresh e w)) i = awaited_of w i"
  by (rule awaited_cong, simp)+

lemma awaited_store [simp]:
  "awaited_of (snd (try_store (UpdateRunState j x cur) w)) i = awaited_of w i"
  "awaited_of (snd (try_store (UpdateRunVariables j m) w)) i = awaited_of w i"
  "awaited_of (snd (try_store (WakeFromExternal j) w)) i = awaited_of w i"
  "awaited_of (snd (try_store (MarkRunFailed t j cur msg) w)) i = awaited_of w i"
  unfolding UpdateRunState_def UpdateRunVariables_def WakeFromExternal_def MarkRunFailed_alt
  by (rule awaited_with_run, simp add: clear_awaits_def failed_run_def)+

lemma awaited_tried:
  "try_store (UpdateRunState j x cur) w = (err, w') \<Longrightarrow> awaited_of w' = awaited_of w"
  "try_store (UpdateRunVariables j m) w = (err, w') \<Longrightarrow> awaited_of w' = awaited_of w"
  "try_store (WakeFromExternal j) w = (err, w') \<Longrightarrow> awaited_of w' = awaited_of w"
  "try_store (MarkRunFailed t j cur msg) w = (err, w') \<Longrightarrow> awaited_of w' = awaited_of w"
  by (rule ext, metis awaited_store snd_conv)+

lemma awaited_wake_parent [simp]: "awaited_of (wake_parent e j key watched w) i = awaited_of w i"
  by (auto simp: wake_parent_def Let_def dest!: awaited_tried split: prod.split option.split)

lemma awaited_checkParentJoin [simp]: "awaited_of (checkParentJoin e run w) i = awaited_of w i"
proof -
  have "awaited_of (checkJoinBarriers e run w) i = awaited_of w i"
    by (auto simp: checkJoinBarriers_def Let_def split: option.split sum.split)
  then show ?thesis
    by (auto simp: checkParentJoin_def Let_def split: option.split sum.split)
qed

lemma awaited_dispatch [simp]: "awaited_of (snd (dispatch av a b w)) i = awaited_of w i"
  by (auto simp: dispatch_def Let_def split: prod.split option.split)

lemma awaited_compensate_steps [simp]: "awaited_of (compensate_steps av run ss w) i = awaited_of w i"
  by (induction ss arbitrary: w) (auto simp: DispatchCompensation_def split: option.split)

lemma awaited_compensate [simp]: "awaited_of (compensate c run d sp w) i = awaited_of w i"
  by (auto simp: compensate_def Let_def dest!: awaited_tried split: prod.split option.split)

lemma awaited_CompensateFailedStep [simp]: "awaited_of (snd (CompensateFailedStep c j sid w)) i = awaited_of w i"
proof (cases "GetRun (st w) j")
  case (Inr run)
  show ?thesis
  proof (cases "GetWorkflowDefinition (st w) (run_definition_id run)")
    case def: (Inr d)
    define w1 where "w1 = compensate c run d (or_default (StepByID d sid) (blank_step sid)) w"
    have "awaited_of w1 i = awaited_of w i" by (simp add: w1_def)
    moreover have "?thesis" if "awaited_of w1 i = awaited_of w i"
      unfolding CompensateFailedStep_def Inr def Let_def sum.case w1_def [symmetric]
      using that by (auto simp del: awaited_store dest!: awaited_tried
          split: prod.splits option.splits sum.splits if_splits)
    ultimately show ?thesis by blast
  qed (simp add: CompensateFailedStep_def Inr)
qed (simp add: CompensateFailedStep_def)

section \<open>Reports as claims\<close>

text \<open>
  Reports on one step and attempt compete for it. The only thing asked of a compensator is that it
  leaves awaited actions alone, which the coordinator's does.
\<close>

datatype report = Completed gomap | Failed string string bool

definition handle_report ::
  "env \<Rightarrow> reporter \<Rightarrow> report \<times> uuid \<times> string \<times> int \<Rightarrow> world \<Rightarrow> bool \<times> world" where
  "handle_report e rp a w =
     (case a of (x, i, sid, n) \<Rightarrow>
       (case (case x of
                Completed m \<Rightarrow> CompleteStep rp i sid n m w
              | Failed code msg again \<Rightarrow> FailStep e rp i sid n code msg again w) of
          (err, w1) \<Rightarrow> (err = None, w1)))"

definition report_open :: "report \<times> uuid \<times> string \<times> int \<Rightarrow> world \<Rightarrow> bool" where
  "report_open a w = (case a of (x, i, sid, n) \<Rightarrow> CheckStep (st w) i sid n = None)"

lemma not_awaited: "awaited_of w i = Some None \<Longrightarrow> CheckStep (st w) i sid n \<noteq> None"
  by (auto simp: CheckStep_None_iff awaited_of_def GetRun_iff)

text \<open>
  An attempt is settled when the run awaits no action any more or a later attempt has begun. What the rest of the
  system does in the meantime keeps that, unless it marks the same attempt or an earlier one again.
\<close>

definition settled :: "uuid \<Rightarrow> int \<Rightarrow> world \<Rightarrow> bool" where
  "settled i n w \<longleftrightarrow> (\<exists>r. GetRun (st w) i = Inr r
     \<and> (run_awaited_action_dispatch r = None \<or> n < run_current_attempt r))"

definition spares_attempt :: "uuid \<Rightarrow> int \<Rightarrow> (world \<Rightarrow> world) \<Rightarrow> bool" where
  "spares_attempt i n f \<longleftrightarrow> (\<forall>v. settled i n v \<longrightarrow> settled i n (f v))"

lemma settled_refused: "settled i n w \<Longrightarrow> CheckStep (st w) i sid n \<noteq> None"
  by (auto simp: settled_def CheckStep_None_iff)

lemma awaited_settled: "awaited_of w i = Some None \<Longrightarrow> settled i n w"
  by (auto simp: awaited_of_def settled_def GetRun_iff)

lemma spares_attempt_with_run:
  assumes "\<And>r. run_awaited_action_dispatch r = None \<or> n < run_current_attempt r
      \<Longrightarrow> run_awaited_action_dispatch (f r) = None \<or> n < run_current_attempt (f r)"
  shows "spares_attempt i n (\<lambda>v. snd (try_store (with_run j f) v))"
  using assms unfolding spares_attempt_def settled_def
  by (auto simp: GetRun_iff try_store_def with_run_def split: option.split)

lemma spares_attempt_comp: "spares_attempt i n f \<Longrightarrow> spares_attempt i n g \<Longrightarrow> spares_attempt i n (g \<circ> f)"
  by (simp add: spares_attempt_def)

text \<open>Steps of the coordinator spare an attempt, and so does the dispatch of a later one.\<close>

lemma spares_attempt_steps:
  "spares_attempt i n (emit e k s a ty act m)"
  "spares_attempt i n (\<lambda>v. snd (PublishSagaAdvance p j v))"
  "spares_attempt i n (\<lambda>v. snd (try_store (UpdateRunState j x cur) v))"
  "spares_attempt i n (\<lambda>v. snd (try_store (UpdateRunVariables j mm) v))"
  "spares_attempt i n (\<lambda>v. snd (try_store (WakeFromExternal j) v))"
  "spares_attempt i n (\<lambda>v. snd (try_store (MarkRunFailed t j cur msg) v))"
  "spares_attempt i n (\<lambda>v. snd (try_store (ClearPause j) v))"
proof -
  show "spares_attempt i n (emit e k s a ty act m)" "spares_attempt i n (\<lambda>v. snd (PublishSagaAdvance p j v))"
    by (simp_all add: spares_attempt_def settled_def)
  show "spares_attempt i n (\<lambda>v. snd (try_store (UpdateRunState j x cur) v))"
    "spares_attempt i n (\<lambda>v. snd (try_store (UpdateRunVariables j mm) v))"
    "spares_attempt i n (\<lambda>v. snd (try_store (WakeFromExternal j) v))"
    "spares_attempt i n (\<lambda>v. snd (try_store (MarkRunFailed t j cur msg) v))"
    "spares_attempt i n (\<lambda>v. snd (try_store (ClearPause j) v))"
    unfolding UpdateRunState_def UpdateRunVariables_def WakeFromExternal_def MarkRunFailed_alt ClearPause_def
    by (rule spares_attempt_with_run, simp add: clear_awaits_def failed_run_def)+
qed

lemma spares_later_attempt:
  assumes "n < attempt"
  shows "spares_attempt i n (\<lambda>v. snd (try_store (MarkAwaitingAction j action attempt) v))"
  unfolding MarkAwaitingAction_def by (rule spares_attempt_with_run) (use assms in auto)

lemma complete_checked_effect:
  assumes "GetRun (st w) i = Inr r" and "run_current_attempt r = n"
  shows "complete_checked rp i sid n m w =
    (None, (case rp_advance rp of None \<Rightarrow> id | Some p \<Rightarrow> (\<lambda>w1. ignore (PublishSagaAdvance p i w1)))
       (put_run i (r\<lparr>run_awaited_action_dispatch := None, run_wakeup_at := Some (wall w),
                     run_variables := put_vars (run_variables r) m\<rparr>) w))"
  using assms
  by (simp add: complete_checked_def CompleteAction_def try_with_run split: option.split)

definition fail_event :: "gotime \<Rightarrow> uuid \<Rightarrow> saga_run \<Rightarrow> int \<Rightarrow> string \<Rightarrow> string \<Rightarrow> bool \<Rightarrow> saga_run_event" where
  "fail_event now evid r n code msg again =
     (NewEvent evid now (run_id r) (run_current_step r) n EventStepFailed ''engine'')
       \<lparr>ev_metadata := [(''code'', VStr code), (''message'', VStr msg), (''retryable'', VBool again),
                        (''action'', VStr (or_default (run_awaited_action_dispatch r) []))]\<rparr>"

definition reported_failed :: "gotime \<Rightarrow> string \<Rightarrow> saga_run \<Rightarrow> saga_run" where
  "reported_failed now msg r =
     r\<lparr>run_awaited_action_dispatch := None, run_state := RunStateFailed, run_terminal_at := Some now,
       run_last_event_at := now, run_last_error := (if msg \<noteq> [] then Some msg else run_last_error r)\<rparr>"

text \<open>The world once the store has recorded a failure.\<close>

definition failure_recorded ::
  "env \<Rightarrow> uuid \<Rightarrow> saga_run \<Rightarrow> int \<Rightarrow> string \<Rightarrow> string \<Rightarrow> bool \<Rightarrow> world \<Rightarrow> world" where
  "failure_recorded e i r n code msg again w =
     do_store (AppendEvent ((fail_event (wall w) (uuid_new e (draws w)) r n code msg again)
         \<lparr>ev_run_id := i\<rparr>))
       (put_run i (reported_failed (wall w) msg r) (w\<lparr>draws := Suc (draws w)\<rparr>))"

lemma failure_recorded_reads [simp]:
  "GetRun (st (failure_recorded e i r n code msg again w)) j =
     (if j = i then Inr (reported_failed (wall w) msg r) else GetRun (st w) j)"
  "GetWorkflowDefinition (st (failure_recorded e i r n code msg again w)) d = GetWorkflowDefinition (st w) d"
  "queue (failure_recorded e i r n code msg again w) = queue w"
  "outbox (failure_recorded e i r n code msg again w) = outbox w"
  "actions (st (failure_recorded e i r n code msg again w)) = actions (st w)"
  "history (failure_recorded e i r n code msg again w) i =
     history w i @ [(EventStepFailed, run_current_step r)]"
  by (simp_all add: failure_recorded_def do_store_def put_run_def GetRun_def AppendEvent_def
      GetWorkflowDefinition_def history_def ListEventsByRun_def fail_event_def NewEvent_def at_key_update)

lemma fail_checked_effect:
  assumes "GetRun (st w) i = Inr r" and "run_current_attempt r = n"
  shows "fail_checked e rp i sid n code msg again w =
    (None, case rp_compensator rp of
             None \<Rightarrow> failure_recorded e i r n code msg again w
           | Some cmp \<Rightarrow> ignore (cmp i sid (failure_recorded e i r n code msg again w)))"
proof -
  have "try_store (FailAction (wall w) (uuid_new e (draws w)) i n code msg again) (w\<lparr>draws := Suc (draws w)\<rparr>)
    = (None, failure_recorded e i r n code msg again w)"
    using assms
    by (simp add: try_store_def FailAction_def GetRun_iff Let_def failure_recorded_def do_store_def
        put_run_def reported_failed_def fail_event_def NewEvent_def)
  then show ?thesis by (simp add: fail_checked_def fresh_def)
qed

locale report_service =
  fixes e :: env
    and rp :: reporter
  assumes compensator_keeps:
    "rp_compensator rp = Some cmp \<Longrightarrow> awaited_of (snd (cmp i sid w)) j = awaited_of w j"
begin

lemma report_settles:
  assumes "report_open (x, i, sid, n) w"
  shows "\<exists>w'. handle_report e rp (x, i, sid, n) w = (True, w') \<and> awaited_of w' i = Some None"
proof -
  obtain r where r: "GetRun (st w) i = Inr r" "run_current_attempt r = n" "CheckStep (st w) i sid n = None"
    using assms by (auto simp: report_open_def CheckStep_None_iff)
  show ?thesis
  proof (cases x)
    case (Completed m)
    then show ?thesis
      using r by (auto simp: handle_report_def CompleteStep_def complete_checked_effect awaited_of_def put_run_def
          split: option.split)
  next
    case (Failed code msg again)
    have "map_of (runs (st (failure_recorded e i r n code msg again w))) i = Some (reported_failed (wall w) msg r)"
      by (rule GetRun_iff [THEN iffD1]) simp
    then have "awaited_of (failure_recorded e i r n code msg again w) i = Some None"
      by (simp add: awaited_of_def reported_failed_def)
    then show ?thesis
      using r Failed compensator_keeps
      by (auto simp: handle_report_def FailStep_def fail_checked_effect split: option.split)
  qed
qed

sublocale claim_op "handle_report e rp" report_open "\<lambda>_. True" snd
proof
  fix a :: "report \<times> uuid \<times> string \<times> int" and w
  obtain x i sid n where a: "a = (x, i, sid, n)" by (cases a) auto
  have refused: "handle_report e rp a w = (False, w)" if "\<not> report_open a w"
    using that by (auto simp: a report_open_def handle_report_def CompleteStep_def FailStep_def split: report.split)
  show "fst (handle_report e rp a w) \<longleftrightarrow> report_open a w"
    using refused report_settles [of x i sid n w] by (cases "report_open a w") (auto simp: a)
  show "\<not> report_open b (snd (handle_report e rp a w))"
    if op: "report_open a w" and eq: "snd b = snd a" for b :: "report \<times> uuid \<times> string \<times> int"
  proof -
    obtain w' where "handle_report e rp a w = (True, w')" "awaited_of w' i = Some None"
      using report_settles op a by blast
    moreover obtain y where "b = (y, i, sid, n)" using eq a by (cases b) auto
    ultimately show ?thesis using not_awaited by (simp add: report_open_def)
  qed
  show "snd (handle_report e rp a w) = w" if "\<not> report_open a w" using refused [OF that] by simp
qed

text \<open>Reports with other activity in front of each.\<close>

definition interleaved :: "(world \<Rightarrow> world) \<times> report \<times> uuid \<times> string \<times> int \<Rightarrow> world \<Rightarrow> bool \<times> world" where
  "interleaved x w = handle_report e rp (snd x) (fst x w)"

lemma settled_all_refused:
  assumes "\<forall>(f, a) \<in> set xs. snd a = (i, sid, n) \<and> spares_attempt i n f" and "settled i n w"
  shows "outcomes interleaved xs w = replicate (length xs) False"
  using assms
proof (induction xs arbitrary: w)
  case (Cons x xs)
  obtain f y where x: "x = (f, y, i, sid, n)" using Cons.prems(1) by (cases x) auto
  have w: "settled i n (f w)" using Cons.prems x by (simp add: spares_attempt_def)
  then have "\<not> report_open (y, i, sid, n) (f w)" using settled_refused by (simp add: report_open_def)
  then show ?case using Cons w by (simp add: interleaved_def x claim_wins claim_loses)
qed simp

lemma accepted_then_refused:
  assumes "\<forall>(f, a) \<in> set ((f, a) # xs). snd a = (i, sid, n) \<and> spares_attempt i n f" and "report_open a (f w)"
  shows "outcomes interleaved ((f, a) # xs) w = True # replicate (length xs) False"
proof -
  obtain y where a: "a = (y, i, sid, n)" using assms(1) by (cases a) auto
  obtain w1 where "handle_report e rp a (f w) = (True, w1)" "awaited_of w1 i = Some None"
    using report_settles assms(2) a by blast
  then show ?thesis
    using settled_all_refused [of xs i sid n w1] assms(1) awaited_settled by (simp add: interleaved_def)
qed

lemma interleaved_once:
  assumes "\<forall>(f, a) \<in> set xs. snd a = (i, sid, n) \<and> spares_attempt i n f"
  shows "length (filter id (outcomes interleaved xs w)) \<le> 1"
  using assms
proof (induction xs arbitrary: w)
  case (Cons x xs)
  show ?case
  proof (cases "report_open (snd x) (fst x w)")
    case True
    then show ?thesis using accepted_then_refused [of "fst x" "snd x" xs i sid n w] Cons.prems by simp
  next
    case False
    then show ?thesis using Cons by (simp add: interleaved_def claim_wins claim_loses)
  qed
qed simp

end

text \<open>The reporter the engine is wired with: any publisher, the coordinator as compensator.\<close>

definition engine_reporter :: "coord \<Rightarrow> (world \<Rightarrow> string \<Rightarrow> gerr option) option \<Rightarrow> reporter" where
  "engine_reporter c adv = \<lparr>rp_advance = adv, rp_compensator = Some (CompensateFailedStep c)\<rparr>"

interpretation reports: report_service e "engine_reporter c adv" for e c adv
  by unfold_locales (auto simp: engine_reporter_def)

definition reporting_run :: saga_run where
  "reporting_run = (sample_run ''r1'')\<lparr>run_state := RunStatePaused, run_current_step := ''c'',
     run_awaited_action_dispatch := Some ''svc.do'', run_current_attempt := 1\<rparr>"

lemma reporting_run_fields [simp]:
  "run_id reporting_run = ''r1''" "run_state reporting_run = RunStatePaused"
  "run_current_step reporting_run = ''c''" "run_awaited_action_dispatch reporting_run = Some ''svc.do''"
  "run_current_attempt reporting_run = 1" "run_definition_id reporting_run = ''d1''"
  "run_parent_run_id reporting_run = None" "run_variables reporting_run = []"
  by (simp_all add: reporting_run_def) (simp_all add: sample_run_def NewSagaRun_def)

lemma reporting_check: "CheckStep (st (demo_world reporting_run ss)) ''r1'' ''c'' 1 = None"
  using demo_reads(1) [of reporting_run ss] by (simp add: CheckStep_def)

text \<open>
  C6: Each attempt of a step is reported at most once. A completion or failure reported for a run, step and attempt is
  accepted exactly when the run is paused on that step in that attempt with an action awaited, and a refused one
  changes nothing. Of any sequence of reports on one run, step and attempt, each handled as a whole, with any activity
  in front of each that does not mark this attempt or an earlier one as awaited again (it may dispatch later
  attempts), at most one is accepted, whatever it was; and when the first one is, all the others are refused.
\<close>

theorem one_report_per_attempt:
  assumes "\<forall>(f, a) \<in> set xs. snd a = (i, sid, n) \<and> spares_attempt i n f"
    and "report = handle_report e (engine_reporter c adv)"
  shows "(\<forall>y v. fst (report (y, i, sid, n) v) \<longleftrightarrow> CheckStep (st v) i sid n = None)
    \<and> (\<forall>y v. CheckStep (st v) i sid n \<noteq> None \<longrightarrow> snd (report (y, i, sid, n) v) = v)
    \<and> length (filter id (outcomes (\<lambda>x v. report (snd x) (fst x v)) xs w)) \<le> 1
    \<and> (\<forall>f a ys. xs = (f, a) # ys \<and> CheckStep (st (f w)) i sid n = None \<longrightarrow>
         outcomes (\<lambda>x v. report (snd x) (fst x v)) xs w = True # replicate (length ys) False)"
proof -
  have eq: "(\<lambda>x v. report (snd x) (fst x v)) = reports.interleaved e c adv"
    by (intro ext) (simp add: reports.interleaved_def assms(2))
  have "outcomes (reports.interleaved e c adv) xs w = True # replicate (length ys) False"
    if "xs = (f, a) # ys" "CheckStep (st (f w)) i sid n = None" for f a ys
  proof -
    have "report_open a (f w)" using assms(1) that by (cases a) (simp add: report_open_def)
    then show ?thesis using reports.accepted_then_refused [of f a ys i sid n] assms(1) that(1) by simp
  qed
  moreover have "fst (report (y, i, sid, n) v) \<longleftrightarrow> CheckStep (st v) i sid n = None"
    "CheckStep (st v) i sid n \<noteq> None \<longrightarrow> snd (report (y, i, sid, n) v) = v" for y v
    using reports.claim_wins reports.claim_loses unfolding assms(2) by (simp_all add: report_open_def)
  ultimately show ?thesis unfolding eq using reports.interleaved_once [OF assms(1)] by blast
qed

text \<open>Between the two reports the next attempt is dispatched; the report on the first attempt is refused all the same.\<close>

theorem one_report_per_attempt_witness:
  "outcomes (\<lambda>x v. handle_report test_env (engine_reporter demo_coord None) (snd x) (fst x v))
     [(id, Failed ''x'' ''m'' True, ''r1'', ''c'', 1),
      (\<lambda>v. snd (try_store (MarkAwaitingAction ''r1'' ''svc.do'' 2) v), Completed [], ''r1'', ''c'', 1)]
     (demo_world reporting_run []) = [True, False]"
proof -
  let ?ys = "[(\<lambda>v. snd (try_store (MarkAwaitingAction ''r1'' ''svc.do'' 2) v), Completed [], ''r1'', ''c'', 1)]
      :: ((world \<Rightarrow> world) \<times> report \<times> uuid \<times> string \<times> int) list"
  let ?xs = "(id, Failed ''x'' ''m'' True, ''r1'', ''c'', 1) # ?ys"
  have "\<forall>(f, a) \<in> set ?xs. snd a = (''r1'', ''c'', 1) \<and> spares_attempt ''r1'' 1 f"
    using spares_later_attempt [of 1 2] by (simp add: spares_attempt_def)
  from one_report_per_attempt [OF this refl, of test_env demo_coord None "demo_world reporting_run []",
      THEN conjunct2, THEN conjunct2, THEN conjunct2, rule_format, of id "(Failed ''x'' ''m'' True, ''r1'', ''c'', 1)" ?ys]
  show ?thesis using reporting_check [of "[]"] by simp
qed

section \<open>A report on the stream\<close>

lemma ExecuteStep_heartbeats:
  "ExecuteStep srv started (map (\<lambda>p. (id, Inr (WHeartbeat p))) ps @ rest) w = ExecuteStep srv started rest w"
  by (induction ps) simp_all

text \<open>
  A worker that starts the awaited job, sends any number of heartbeats and then its result is
  answered OK: the action is no longer awaited, the result is merged into the run's
  variables, the wakeup is set to the present so that the timer finds the run, and one
  advance is published. The run stays paused at its step for the coordinator to resume.
  Bytes that are not a JSON object are kept under \<^verbatim>\<open>_raw_result\<close>.
\<close>

theorem stream_completes:
  assumes "uuid_parse (srv_env srv) istr = Inr i" and "CheckStep (st w) i sid n = None"
    and "srv_send_ack srv w = None" and "GetRun (st w) i = Inr r"
    and "rp_advance (srv_reporter srv) = Some p" and "\<And>w. p w i = None"
    and "m = (if b = [] then [] else case decoded of Inl err \<Rightarrow> [(''_raw_result'', VStr b)] | Inr x \<Rightarrow> x)"
  shows "\<exists>w' r'. ExecuteStep srv None
        ((id, Inr (WStart istr sid n)) # map (\<lambda>pct. (id, Inr (WHeartbeat pct))) ps
          @ [(id, Inr (WComplete b decoded))]) w = (StatusOK, w')
    \<and> GetRun (st w') i = Inr r'
    \<and> r' = r\<lparr>run_awaited_action_dispatch := None, run_wakeup_at := Some (wall w),
             run_variables := put_vars (run_variables r) m\<rparr>
    \<and> run_state r' = RunStatePaused \<and> run_current_step r' = sid
    \<and> (\<forall>j. j \<noteq> i \<longrightarrow> GetRun (st w') j = GetRun (st w) j)
    \<and> queue w' = queue w @ [i] \<and> outbox w' = outbox w"
proof -
  have r: "run_current_attempt r = n" "run_state r = RunStatePaused" "run_current_step r = sid"
    using assms(2,4) by (auto simp: CheckStep_None_iff)
  have pub: "PublishSagaAdvance p i v = (None, v\<lparr>queue := queue v @ [i]\<rparr>)" for v
    using assms(6) by (simp add: PublishSagaAdvance_def)
  show ?thesis
    using assms(1-5) r
    by (simp add: server_start_def ExecuteStep_heartbeats server_complete_def CompleteStep_def
        complete_checked_effect pub assms(7) [symmetric])
qed

definition demo_server :: server where
  "demo_server = \<lparr>srv_env = test_env,
     srv_reporter = engine_reporter demo_coord (Some (\<lambda>_ _. None)), srv_send_ack = (\<lambda>_. None)\<rparr>"

theorem stream_completes_witness:
  "\<exists>w' r'. ExecuteStep demo_server None
        [(id, Inr (WStart ''r1'' ''c'' 1)), (id, Inr (WHeartbeat 50)),
         (id, Inr (WComplete ''{..}'' (Inr [(''x'', VBool True)])))] (demo_world reporting_run []) = (StatusOK, w')
    \<and> GetRun (st w') ''r1'' = Inr r' \<and> run_variables r' = [(''x'', VBool True)] \<and> queue w' = [''r1'']"
  using stream_completes [of demo_server "''r1''" "''r1''" "demo_world reporting_run []" "''c''" 1 reporting_run
      "\<lambda>_ _. None" "[(''x'', VBool True)]" "''{..}''" "Inr [(''x'', VBool True)]" "[50]"]
    reporting_check [of "[]"] demo_reads(1) [of reporting_run "[]"]
  by (auto simp: demo_server_def engine_reporter_def put_vars_def)

section \<open>A failure on the stream\<close>

lemma CompensateFailedStep_failed:
  assumes "GetRun (st w) i = Inr run" and "run_id run = i" and "run_state run = RunStateFailed"
    and "run_parent_run_id run \<noteq> Some i"
    and "GetWorkflowDefinition (st w) (run_definition_id run) = Inr d"
    and "c_verbs c StepTypeAction = Some en" and "entry_action en = Some av" and "brokered av (st w)"
    and "done = completed_steps d sid (ListEventsByRun (st w) i)"
  shows "\<exists>w2 w'. CompensateFailedStep c i sid w = (None, w')
    \<and> w' = checkParentJoin (c_env c) run w2 \<and> queue w2 = queue w
    \<and> GetRun (st w') i = Inr run \<and> outbox w' = outbox w @ rollback run (rev done)
    \<and> history w' i = history w i @ (if done = [] then [] else [(EventCompensationStarted, sid)])"
proof -
  let ?sp = "or_default (StepByID d sid) (blank_step sid)"
  have sid: "step_id ?sp = sid"
    by (auto simp: blank_step_def dest: StepByID_SomeD split: option.split)
  let ?w1 = "if done = [] then w
     else (emit (c_env c) i sid 0 EventCompensationStarted ''engine'' []
             (put_run i (run\<lparr>run_state := RunStateCompensating\<rparr>) w))
          \<lparr>outbox := outbox w @ rollback run (rev done)\<rparr>"
  have comp: "compensate c run d ?sp w = ?w1"
    using compensate_effect [OF _ assms(6,7,8), of run run "done" d ?sp] assms(1,2,9) by (simp add: sid)
  have same: "run\<lparr>run_state := RunStateFailed\<rparr> = run" using assms(3) by (cases run) simp
  let ?w2 = "if done = [] then w else put_run i run ?w1"
  have "CompensateFailedStep c i sid w = (None, checkParentJoin (c_env c) run ?w2)"
    using assms(1-3,5) unfolding CompensateFailedStep_def
    by (simp add: comp Let_def as_with_run try_with_run same)
  then show ?thesis
    using assms(1,4) checkParentJoin_keeps [where e = "c_env c" and run = run and w = ?w2]
    by (intro exI [of _ ?w2] exI [of _ "checkParentJoin (c_env c) run ?w2"]) simp
qed

text \<open>
  C16: A worker that starts the awaited job, sends any number of heartbeats and then an error is answered OK and fails
  the run, whether it calls the error retryable or not: nothing is tried again. The failure is logged, the steps that
  succeeded before are compensated in the reverse of the order in which they first completed, and the run ends failed
  at that step with the worker's message. The hook that may wake the parent of a child run comes last; for a
  top-level run nothing is published. The reporter is the engine's, the compensations are taken to go through a broker
  that accepts them (\<open>brokered\<close>), and a run is never its own parent.
\<close>

theorem stream_fails:
  assumes "uuid_parse (srv_env srv) istr = Inr i" and "CheckStep (st w) i sid n = None"
    and "srv_send_ack srv w = None" and "GetRun (st w) i = Inr r" and "run_id r = i"
    and "run_parent_run_id r \<noteq> Some i" and "srv_reporter srv = engine_reporter c adv"
    and "GetWorkflowDefinition (st w) (run_definition_id r) = Inr d"
    and "c_verbs c StepTypeAction = Some en" and "entry_action en = Some av" and "brokered av (st w)"
    and "done = completed_steps d sid (ListEventsByRun (st w) i)"
  shows "\<exists>w2 w' r'. ExecuteStep srv None
        ((id, Inr (WStart istr sid n)) # map (\<lambda>pct. (id, Inr (WHeartbeat pct))) ps
          @ [(id, Inr (WError code msg again))]) w = (StatusOK, w')
    \<and> w' = checkParentJoin (c_env c) r' w2 \<and> queue w2 = queue w
    \<and> GetRun (st w') i = Inr r' \<and> r' = reported_failed (wall w) msg r
    \<and> run_state r' = RunStateFailed \<and> run_current_step r' = sid
    \<and> history w' i = history w i @ (EventStepFailed, sid)
        # (if done = [] then [] else [(EventCompensationStarted, sid)])
    \<and> outbox w' = outbox w @ rollback r' (rev done)
    \<and> (run_parent_run_id r = None \<longrightarrow> queue w' = queue w)"
proof -
  have r: "run_current_attempt r = n" "run_current_step r = sid"
    using assms(2,4) by (auto simp: CheckStep_None_iff)
  let ?r = "reported_failed (wall w) msg r"
  define w1 where "w1 = failure_recorded (srv_env srv) i r n code msg again w"
  have ids: "succeeded_ids (ListEventsByRun (st w1) i) = succeeded_ids (ListEventsByRun (st w) i)"
    by (simp add: succeeded_ids_history w1_def)
  obtain w2 w' where w': "CompensateFailedStep c i sid w1 = (None, w')"
      "w' = checkParentJoin (c_env c) ?r w2" "queue w2 = queue w1" "GetRun (st w') i = Inr ?r"
      "outbox w' = outbox w1 @ rollback ?r (rev done)"
      "history w' i = history w1 i @ (if done = [] then [] else [(EventCompensationStarted, sid)])"
    using CompensateFailedStep_failed [of w1 i ?r d c en av "done" sid]
      assms(4-6,8-12) ids brokered_cong [of "st w1" "st w"]
    by (auto simp: w1_def reported_failed_def completed_steps_def)
  have top: "queue w' = queue w" if "run_parent_run_id r = None"
  proof -
    have "run_parent_run_id ?r = None" using that by (simp add: reported_failed_def)
    then have "w' = w2" using w'(2) checkParentJoin_top by simp
    then show ?thesis using w'(3) by (simp add: w1_def)
  qed
  have "FailStep (srv_env srv) (srv_reporter srv) i sid n code msg again w = (None, w')"
    using assms(2,4,7) r w'(1)
    by (simp add: FailStep_def fail_checked_effect engine_reporter_def w1_def [symmetric])
  then have "ExecuteStep srv None
      ((id, Inr (WStart istr sid n)) # map (\<lambda>pct. (id, Inr (WHeartbeat pct))) ps
          @ [(id, Inr (WError code msg again))]) w = (StatusOK, w')"
    using assms(1-3) by (simp add: server_start_def ExecuteStep_heartbeats)
  moreover have "run_state ?r = RunStateFailed" "run_current_step ?r = sid" using r(2) by (simp_all add: reported_failed_def)
  moreover have "queue w1 = queue w" "outbox w1 = outbox w" "history w1 i = history w i @ [(EventStepFailed, sid)]"
    using r(2) by (simp_all add: w1_def)
  ultimately show ?thesis using w'(2-6) top by (intro exI [of _ w2] exI [of _ w'] exI [of _ ?r]) simp
qed

definition reporting_world :: world where
  "reporting_world = emit test_env ''r1'' ''b'' 0 EventStepSucceeded ''engine'' []
     (emit test_env ''r1'' ''a'' 0 EventStepSucceeded ''engine'' []
       (demo_world reporting_run [undo_step ''a'', undo_step ''b'', blank_step ''c'']))"

theorem stream_fails_witness:
  "\<exists>w' r'. ExecuteStep demo_server None
        [(id, Inr (WStart ''r1'' ''c'' 1)), (id, Inr (WHeartbeat 50)),
         (id, Inr (WError ''declined'' ''no funds'' True))] reporting_world
      = (StatusOK, w')
    \<and> GetRun (st w') ''r1'' = Inr r' \<and> run_state r' = RunStateFailed
    \<and> outbox w' = rollback r' [undo_step ''b'', undo_step ''a'']"
proof -
  obtain en where en: "c_verbs demo_coord StepTypeAction = Some en" "entry_action en = Some broker_verb"
    using demo_broker(1) by blast
  let ?d = "demo_def [undo_step ''a'', undo_step ''b'', blank_step ''c'']"
  have reads: "GetRun (st reporting_world) ''r1'' = Inr reporting_run"
    "GetWorkflowDefinition (st reporting_world) ''d1'' = Inr ?d" "outbox reporting_world = []"
    "succeeded_ids (ListEventsByRun (st reporting_world) ''r1'') = [''a'', ''b'']"
    using demo_reads(1) [of reporting_run] by (simp_all add: reporting_world_def succeeded_ids_history)
  have "completed_steps ?d ''c'' (ListEventsByRun (st reporting_world) ''r1'') = [undo_step ''a'', undo_step ''b'']"
    by (simp add: completed_steps_def reads compensable_def StepByID_def undo_step_def blank_step_def)
  moreover have "CheckStep (st reporting_world) ''r1'' ''c'' 1 = None" by (simp add: CheckStep_None_iff reads)
  ultimately show ?thesis
    using stream_fails [of demo_server "''r1''" "''r1''" reporting_world "''c''" 1 reporting_run demo_coord
        "Some (\<lambda>_ _. None)" ?d en broker_verb "[undo_step ''a'', undo_step ''b'']" "[50]" "''declined''" "''no funds''" True]
      en demo_broker(2) reads by (auto simp: demo_server_def)
qed

section \<open>The window between the check and the write\<close>

text \<open>
  The check and the write are separate store calls, and the write only looks at the attempt. Two
  streams that both pass the check are both told OK: a failure reported by the second one
  fails the run whose completion was already recorded and published.
\<close>

lemma checked_reports_race:
  assumes "CheckStep (st w) i sid n = None" and "rp_advance rp = Some p" and "\<And>w. p w i = None"
    and "rp_compensator rp = None"
  shows "\<exists>w1 w2 r. complete_checked rp i sid n m w = (None, w1) \<and> queue w1 = queue w @ [i]
    \<and> CheckStep (st w1) i sid n \<noteq> None
    \<and> fail_checked e rp i sid n code msg again w1 = (None, w2)
    \<and> GetRun (st w2) i = Inr r \<and> run_state r = RunStateFailed \<and> queue w2 = queue w @ [i]"
proof -
  obtain r where r: "GetRun (st w) i = Inr r" "run_current_attempt r = n"
    using assms(1) by (auto simp: CheckStep_None_iff)
  define r1 where "r1 = r\<lparr>run_awaited_action_dispatch := None, run_wakeup_at := Some (wall w),
      run_variables := put_vars (run_variables r) m\<rparr>"
  define w1 where "w1 = (put_run i r1 w)\<lparr>queue := queue w @ [i]\<rparr>"
  have c1: "complete_checked rp i sid n m w = (None, w1)"
    using r assms(2,3) by (simp add: complete_checked_effect PublishSagaAdvance_def w1_def r1_def)
  have g1: "GetRun (st w1) i = Inr r1" "run_current_attempt r1 = n" "run_awaited_action_dispatch r1 = None"
    using r by (simp_all add: w1_def r1_def)
  have "CheckStep (st w1) i sid n \<noteq> None" by (simp add: CheckStep_def g1)
  then show ?thesis
    using c1 fail_checked_effect [OF g1(1,2)] assms(4)
    by (simp add: w1_def) (simp add: reported_failed_def)
qed

end
