(* ===== verification/Worker_Client.thy ===== *)
theory Worker_Client
  imports Liveness Json
begin

text \<open>
  The Go worker client (\<^verbatim>\<open>clients/go/worker\<close>) and the broker topology it declares
  (\<^verbatim>\<open>topology/topology.go\<close>). The host service, the broker, HTTP and gRPC are one state \<open>'s\<close> with
  the operations the client calls on it, so that a delivery can be run against any of them; the
  last sections plug in the engine's own liveness service and the in-memory idempotency store.
\<close>

section \<open>Payloads and handlers\<close>

record wpayload =
  wp_run :: string
  wp_step :: string
  wp_attempt :: int
  wp_key :: string
  wp_action :: string
  wp_inputs :: gomap
  wp_dry :: bool
  wp_compensation :: bool

text \<open>
  What a worker decodes from the two kinds of message the engine publishes. The engine marshals the payload as JSON and
  the worker unmarshals it into a struct with typed fields and a map of inputs, in which every number is a
  \<^verbatim>\<open>float64\<close> and typed slices and maps have become generic ones.
\<close>

definition wire_map :: "gomap \<Rightarrow> gomap" where
  "wire_map m = std_map (json_map m)"

fun wire :: "payload \<Rightarrow> wpayload" where
  "wire (ActionPayload run step attempt key action inputs dry) =
     \<lparr>wp_run = run, wp_step = step, wp_attempt = attempt, wp_key = key, wp_action = action,
      wp_inputs = wire_map inputs, wp_dry = dry, wp_compensation = False\<rparr>"
| "wire (CompensationPayload run step action inputs dry) =
     \<lparr>wp_run = run, wp_step = step, wp_attempt = 0, wp_key = [], wp_action = action,
      wp_inputs = wire_map inputs, wp_dry = dry, wp_compensation = True\<rparr>"

lemma wire_map_number: "in_int64 n \<Longrightarrow> wire_map [(k, VInt n)] = [(k, VFloat (of_int (float64 n)))]"
  by (simp add: wire_map_def json_map_def std_map_def int_literal_def)

definition IsCompensation :: "wpayload \<Rightarrow> bool" where
  "IsCompensation p \<longleftrightarrow> wp_compensation p \<or> wp_attempt p = 0"

text \<open>A handler's error: one with a code and a retryable flag, or any other.\<close>

datatype werror = CodedError string string bool | PlainError string

type_synonym 's whandler = "wpayload \<Rightarrow> 's \<Rightarrow> (werror + gomap) \<times> 's"

section \<open>Configuration\<close>

record 's waction =
  wa_name :: string
  wa_description :: string
  wa_category :: string
  wa_compensable :: bool
  wa_input_schema :: gomap
  wa_output_schema :: gomap
  wa_error_codes :: "string list"
  wa_default_retry :: gomap
  wa_default_timeout_ms :: int
  wa_license_group :: string
  wa_dry_run_supported :: bool
  wa_handler :: "'s whandler option"

record 's config =
  cfg_service :: string
  cfg_service_version :: string
  cfg_registry_url :: string
  cfg_rmq_url :: string
  cfg_grpc_url :: string
  cfg_actions :: "'s waction list"
  cfg_skip_registration :: bool
  cfg_qualified :: bool
  cfg_queue :: string

definition routingKey :: "'s config \<Rightarrow> 's waction \<Rightarrow> string" where
  "routingKey c a = (if cfg_qualified c then wa_name a else cfg_service c @ ''.'' @ wa_name a)"

definition RoutingKeys :: "'s config \<Rightarrow> string list" where
  "RoutingKeys c = map (routingKey c) (cfg_actions c)"

definition QueueName :: "'s config \<Rightarrow> string" where
  "QueueName c = (if cfg_queue c \<noteq> [] then cfg_queue c else cfg_service c @ ''.actions'')"

fun validate_actions :: "bool \<Rightarrow> int \<Rightarrow> string list \<Rightarrow> 's waction list \<Rightarrow> gerr option" where
  "validate_actions qualified i seen [] = None"
| "validate_actions qualified i seen (a # as) =
     (if wa_name a = [] then Some (Errorf ''worker: Actions[%d].Name required'' [AInt i])
      else if wa_name a \<in> set seen
      then Some (Errorf ''worker: duplicate Action name %q'' [AStr (wa_name a)])
      else if wa_handler a = None
      then Some (Errorf ''worker: Actions[%d] (%s) missing Handler'' [AInt i, AStr (wa_name a)])
      else if qualified \<and> \<not> contains_str (wa_name a) ''.''
      then Some (Errorf ''worker: Actions[%d] qualified name %q has no dot (want service.name)''
                   [AInt i, AStr (wa_name a)])
      else validate_actions qualified (i + 1) (wa_name a # seen) as)"

definition Validate :: "'s config \<Rightarrow> gerr option" where
  "Validate c =
     (if cfg_service c = [] then Some (Errorf ''worker: Service required'' [])
      else if cfg_registry_url c = [] \<and> \<not> cfg_skip_registration c
      then Some (Errorf ''worker: RegistryURL required (or set SkipRegistration)'' [])
      else if cfg_rmq_url c = [] then Some (Errorf ''worker: RmqURL required'' [])
      else if cfg_grpc_url c = [] then Some (Errorf ''worker: GrpcURL required'' [])
      else if cfg_actions c = [] then Some (Errorf ''worker: at least one Action required'' [])
      else validate_actions (cfg_qualified c) 0 [] (cfg_actions c))"

text \<open>The handler table of \<^verbatim>\<open>Bootstrap\<close>; a nil handler is the entry \<open>None\<close>.\<close>

definition handler_table :: "'s config \<Rightarrow> (string \<times> 's whandler option) list" where
  "handler_table c = foldl (\<lambda>m a. AList.update (routingKey c a) (wa_handler a) m) [] (cfg_actions c)"

section \<open>Topology\<close>

text \<open>The three operations of \<^verbatim>\<open>topology.Channel\<close>; queues and exchanges are all durable.\<close>

datatype amqp_op =
    ExchangeDeclare string string
  | QueueDeclare string
  | QueueBind string string string

type_synonym 's channel = "amqp_op \<Rightarrow> 's \<Rightarrow> gerr option \<times> 's"

text \<open>Running operations in order until one fails, whose error is wrapped.\<close>

fun declare_all :: "'s channel \<Rightarrow> (amqp_op \<times> (gerr \<Rightarrow> gerr)) list \<Rightarrow> 's \<Rightarrow> gerr option \<times> 's" where
  "declare_all ch [] s = (None, s)"
| "declare_all ch ((x, wrap) # xs) s =
     (case ch x s of
        (Some err, s1) \<Rightarrow> (Some (wrap err), s1)
      | (None, s1) \<Rightarrow> declare_all ch xs s1)"

definition declare_exchange :: "string \<Rightarrow> string \<Rightarrow> amqp_op \<times> (gerr \<Rightarrow> gerr)" where
  "declare_exchange x kind =
     (ExchangeDeclare x kind, \<lambda>err. Errorf ''topology: exchange %s: %w'' [AStr x, AErr err])"

definition declare_queue :: "string \<Rightarrow> amqp_op \<times> (gerr \<Rightarrow> gerr)" where
  "declare_queue q = (QueueDeclare q, \<lambda>err. Errorf ''topology: queue %s: %w'' [AStr q, AErr err])"

definition topology_Declare :: "'s channel \<Rightarrow> 's \<Rightarrow> gerr option \<times> 's" where
  "topology_Declare ch =
     declare_all ch
       ([declare_exchange ''action.direct'' ''direct'', declare_exchange ''workflow.events'' ''topic'']
        @ map declare_queue [''saga.advance'', ''saga.dlq'', ''action.dlq''])"

definition DeclareActionQueue :: "'s channel \<Rightarrow> string \<Rightarrow> string list \<Rightarrow> 's \<Rightarrow> gerr option \<times> 's" where
  "DeclareActionQueue ch q keys s =
     (if q = [] then (Some (Errorf ''topology: queue name required'' []), s)
      else if keys = [] then (Some (Errorf ''topology: at least one routing key required'' []), s)
      else case find (\<lambda>(i, k). k = []) (zip [0..<length keys] keys) of
        Some (i, k) \<Rightarrow> (Some (Errorf ''topology: routing key %d is empty'' [AInt (int i)]), s)
      | None \<Rightarrow>
          declare_all ch
            ([declare_exchange ''action.direct'' ''direct'', declare_queue q]
             @ map (\<lambda>k. (QueueBind q k ''action.direct'',
                         \<lambda>err. Errorf ''topology: bind %s to %s: %w'' [AStr q, AStr k, AErr err])) keys) s)"

section \<open>Driving the stream\<close>

datatype engine_event = EngineAck | EngineOther string

text \<open>A gRPC status as the error value the client library returns.\<close>

definition status_err :: "string \<Rightarrow> string \<Rightarrow> gerr" where
  "status_err code msg = Errorf ''rpc error: code = %s desc = %s'' [AStr code, AStr msg]"

fun has_code :: "string list \<Rightarrow> gerr \<Rightarrow> bool" where
  "has_code cs (Errorf f [AStr code, AStr msg]) =
     (f = ''rpc error: code = %s desc = %s'' \<and> code \<in> set cs)"
| "has_code cs _ = False"

definition refused :: "gerr \<Rightarrow> bool" where
  "refused err = err_is (has_code [''NotFound'', ''FailedPrecondition'']) err"

definition int32_max :: int where
  "int32_max = 2 ^ 31 - 1"

definition attemptInt32 :: "int \<Rightarrow> int" where
  "attemptInt32 n = (if n < 0 then 0 else if n > int32_max then int32_max else n)"

record 's client =
  cl_open :: "'s \<Rightarrow> gerr option \<times> 's"
  cl_start :: "string \<Rightarrow> string \<Rightarrow> int \<Rightarrow> 's \<Rightarrow> gerr option \<times> 's"
  cl_recv :: "'s \<Rightarrow> (gerr + engine_event) \<times> 's"
  cl_error :: "string \<Rightarrow> string \<Rightarrow> bool \<Rightarrow> 's \<Rightarrow> gerr option \<times> 's"
  cl_complete :: "string \<Rightarrow> 's \<Rightarrow> gerr option \<times> 's"
  cl_marshal :: "gomap \<Rightarrow> gerr + string" \<comment> \<open>json.Marshal of a result\<close>

text \<open>Running the handler and reporting; the outcome of sending the report is only logged.\<close>

definition run_handler :: "'s client \<Rightarrow> wpayload \<Rightarrow> 's whandler \<Rightarrow> 's \<Rightarrow> 's" where
  "run_handler cl p h s =
     (case h p s of
        (Inl (CodedError code msg again), s1) \<Rightarrow> snd (cl_error cl code msg again s1)
      | (Inl (PlainError msg), s1) \<Rightarrow> snd (cl_error cl ''handler_error'' msg True s1)
      | (Inr result, s1) \<Rightarrow>
          snd (cl_complete cl (case cl_marshal cl result of Inl err \<Rightarrow> [] | Inr b \<Rightarrow> b) s1))"

definition driveStream :: "'s client \<Rightarrow> wpayload \<Rightarrow> 's whandler \<Rightarrow> 's \<Rightarrow> gerr option \<times> 's" where
  "driveStream cl p h s =
     (case cl_open cl s of
        (Some err, s1) \<Rightarrow> (Some (Errorf ''open stream: %w'' [AErr err]), s1)
      | (None, s1) \<Rightarrow>
          (case cl_start cl (wp_run p) (wp_step p) (attemptInt32 (wp_attempt p)) s1 of
             (Some err, s2) \<Rightarrow> (Some (Errorf ''send start: %w'' [AErr err]), s2)
           | (None, s2) \<Rightarrow>
               (case cl_recv cl s2 of
                  (Inl err, s3) \<Rightarrow> (Some (Errorf ''recv ack: %w'' [AErr err]), s3)
                | (Inr (EngineOther ty), s3) \<Rightarrow> (Some (Errorf ''expected ack, got %T'' [AStr ty]), s3)
                | (Inr EngineAck, s3) \<Rightarrow> (None, run_handler cl p h s3))))"

section \<open>Deliveries\<close>

datatype settlement = Ack | Nack bool

definition runCompensation :: "wpayload \<Rightarrow> 's whandler \<Rightarrow> 's \<Rightarrow> settlement \<times> 's" where
  "runCompensation p h s =
     (case h p s of
        (Inl err, s1) \<Rightarrow> (Nack False, s1)
      | (Inr _, s1) \<Rightarrow> (Ack, s1))"

text \<open>
  A delivery is what \<^verbatim>\<open>json.Unmarshal\<close> makes of its body. Calling a nil handler would panic;
  \<^verbatim>\<open>Bootstrap\<close> validates the configuration first, which leaves none in the table.
\<close>

definition processDelivery ::
  "gerr + wpayload \<Rightarrow> (string \<times> 's whandler option) list \<Rightarrow> 's client \<Rightarrow> 's \<Rightarrow> settlement \<times> 's" where
  "processDelivery d handlers cl s =
     (case d of
        Inl err \<Rightarrow> (Nack False, s)
      | Inr p \<Rightarrow>
          (case map_of handlers (wp_action p) of
             None \<Rightarrow> (Nack False, s)
           | Some h \<Rightarrow>
               (if IsCompensation p then runCompensation p (the h) s
                else case driveStream cl p (the h) s of
                  (Some err, s1) \<Rightarrow> (if refused err then (Ack, s1) else (Nack True, s1))
                | (None, s1) \<Rightarrow> (Ack, s1))))"

datatype poll = CtxDone gerr | Deliver "gerr + wpayload" | Closed

text \<open>
  The consumer loop over what each \<^verbatim>\<open>select\<close> picks; without an error it is still waiting when
  the list ends.
\<close>

fun consumeLoop ::
  "(gerr + wpayload \<Rightarrow> 's \<Rightarrow> settlement \<times> 's) \<Rightarrow> poll list \<Rightarrow> 's \<Rightarrow> gerr option \<times> settlement list \<times> 's" where
  "consumeLoop run [] s = (None, [], s)"
| "consumeLoop run (CtxDone err # ps) s = (Some err, [], s)"
| "consumeLoop run (Closed # ps) s = (Some (Errorf ''worker: deliveries channel closed'' []), [], s)"
| "consumeLoop run (Deliver d # ps) s =
     (case run d s of
        (x, s1) \<Rightarrow> (case consumeLoop run ps s1 of (err, xs, s2) \<Rightarrow> (err, x # xs, s2)))"

section \<open>Starting a worker\<close>

record action_envelope =
  env_action_name :: string
  env_version :: int
  env_description :: string
  env_category :: string
  env_compensable :: bool
  env_input_schema :: gomap
  env_output_schema :: gomap
  env_error_codes :: "string list"
  env_default_retry :: gomap
  env_default_timeout_ms :: int
  env_license_group :: string
  env_dry_run_supported :: bool

record register_envelope =
  renv_service :: string
  renv_service_version :: string
  renv_actions :: "action_envelope list"

definition envelope_of :: "'s waction \<Rightarrow> action_envelope" where
  "envelope_of a =
     \<lparr>env_action_name = wa_name a, env_version = 1, env_description = wa_description a,
      env_category = wa_category a, env_compensable = wa_compensable a,
      env_input_schema = wa_input_schema a, env_output_schema = wa_output_schema a,
      env_error_codes = wa_error_codes a, env_default_retry = wa_default_retry a,
      env_default_timeout_ms = wa_default_timeout_ms a, env_license_group = wa_license_group a,
      env_dry_run_supported = wa_dry_run_supported a\<rparr>"

text \<open>What the worker calls: an HTTP POST, the broker, and the gRPC client it opens.\<close>

record 's net =
  net_post :: "string \<Rightarrow> register_envelope \<Rightarrow> 's \<Rightarrow> (gerr + int \<times> string) \<times> 's"
  net_dial :: "string \<Rightarrow> 's \<Rightarrow> gerr option \<times> 's"
  net_open_channel :: "'s \<Rightarrow> gerr option \<times> 's"
  net_channel :: "'s channel"
  net_qos :: "'s \<Rightarrow> gerr option \<times> 's"
  net_consume :: "string \<Rightarrow> 's \<Rightarrow> gerr option \<times> 's"
  net_grpc :: "string \<Rightarrow> 's \<Rightarrow> gerr option \<times> 's"
  net_client :: "'s client"

definition trim_right_slash :: "string \<Rightarrow> string" where
  "trim_right_slash s = rev (dropWhile (\<lambda>c. c = CHR ''/'') (rev s))"

definition registerWithOrchestrator :: "'s net \<Rightarrow> 's config \<Rightarrow> 's \<Rightarrow> gerr option \<times> 's" where
  "registerWithOrchestrator net c s =
     (case net_post net (trim_right_slash (cfg_registry_url c) @ ''/api/v1/registry/register'')
             \<lparr>renv_service = cfg_service c, renv_service_version = cfg_service_version c,
              renv_actions = map envelope_of (cfg_actions c)\<rparr> s of
        (Inl err, s1) \<Rightarrow> (Some err, s1)
      | (Inr (code, body), s1) \<Rightarrow>
          (if code \<ge> 300 then (Some (Errorf ''register: status %d: %s'' [AInt code, AStr body]), s1)
           else (None, s1)))"

text \<open>The preparation as steps that stop at the first error, each with its wrapping.\<close>

fun run_steps :: "(('s \<Rightarrow> gerr option \<times> 's) \<times> (gerr \<Rightarrow> gerr)) list \<Rightarrow> 's \<Rightarrow> gerr option \<times> 's" where
  "run_steps [] s = (None, s)"
| "run_steps ((f, wrap) # fs) s =
     (case f s of
        (Some err, s1) \<Rightarrow> (Some (wrap err), s1)
      | (None, s1) \<Rightarrow> run_steps fs s1)"

definition bootstrap_steps ::
  "'s net \<Rightarrow> 's config \<Rightarrow> (('s \<Rightarrow> gerr option \<times> 's) \<times> (gerr \<Rightarrow> gerr)) list" where
  "bootstrap_steps net c =
     (if cfg_skip_registration c then []
      else [(registerWithOrchestrator net c, \<lambda>err. Errorf ''worker: register: %w'' [AErr err])])
     @ [(net_dial net (cfg_rmq_url c), \<lambda>err. Errorf ''worker: dial rabbitmq: %w'' [AErr err]),
        (net_open_channel net, \<lambda>err. Errorf ''worker: rabbitmq channel: %w'' [AErr err]),
        (DeclareActionQueue (net_channel net) (QueueName c) (RoutingKeys c),
           \<lambda>err. Errorf ''worker: %w'' [AErr err]),
        (net_qos net, \<lambda>err. Errorf ''worker: qos: %w'' [AErr err]),
        (net_consume net (QueueName c), \<lambda>err. Errorf ''worker: consume: %w'' [AErr err]),
        (net_grpc net (cfg_grpc_url c), \<lambda>err. Errorf ''worker: grpc dial: %w'' [AErr err])]"

definition Bootstrap ::
  "'s net \<Rightarrow> 's config \<Rightarrow> poll list \<Rightarrow> 's \<Rightarrow> gerr option \<times> settlement list \<times> 's" where
  "Bootstrap net c polls s =
     (case Validate c of
        Some err \<Rightarrow> (Some err, [], s)
      | None \<Rightarrow>
          (case run_steps (bootstrap_steps net c) s of
             (Some err, s1) \<Rightarrow> (Some err, [], s1)
           | (None, s1) \<Rightarrow>
               consumeLoop (\<lambda>d. processDelivery d (handler_table c) (net_client net)) polls s1))"

section \<open>Idempotency\<close>

text \<open>
  \<^verbatim>\<open>IdempotencyStore\<close> over a state \<open>'s\<close>, and the handler \<^verbatim>\<open>Wrap\<close> builds from one. A failing
  \<^verbatim>\<open>Get\<close> counts as a miss and the outcome of \<^verbatim>\<open>Put\<close> is ignored.
\<close>

record 's idem_store =
  idem_get :: "string \<Rightarrow> 's \<Rightarrow> (gerr + gomap option) \<times> 's"
  idem_put :: "string \<Rightarrow> gomap \<Rightarrow> 's \<Rightarrow> gerr option \<times> 's"

definition wrap_miss :: "'s idem_store \<Rightarrow> 's whandler \<Rightarrow> 's whandler" where
  "wrap_miss store inner p s =
     (case inner p s of
        (Inl err, s1) \<Rightarrow> (Inl err, s1)
      | (Inr result, s1) \<Rightarrow>
          (Inr result, if wp_key p \<noteq> [] then snd (idem_put store (wp_key p) result s1) else s1))"

definition Wrap :: "'s idem_store \<Rightarrow> 's whandler \<Rightarrow> 's whandler" where
  "Wrap store inner p s =
     (if wp_key p \<noteq> []
      then (case idem_get store (wp_key p) s of
              (Inr (Some cached), s1) \<Rightarrow> (Inr cached, s1)
            | (_, s1) \<Rightarrow> wrap_miss store inner p s1)
      else wrap_miss store inner p s)"

text \<open>\<^verbatim>\<open>MemoryIdempotencyStore\<close>: a map beside the host service's own state.\<close>

type_synonym 'h cached = "(string \<times> gomap) list \<times> 'h"

definition memory_idem_get :: "string \<Rightarrow> 'h cached \<Rightarrow> (gerr + gomap option) \<times> 'h cached" where
  "memory_idem_get k s = (Inr (map_of (fst s) k), s)"

definition memory_idem_put :: "string \<Rightarrow> gomap \<Rightarrow> 'h cached \<Rightarrow> gerr option \<times> 'h cached" where
  "memory_idem_put k r s = (None, (AList.update k r (fst s), snd s))"

definition MemoryIdempotencyStore :: "'h cached idem_store" where
  "MemoryIdempotencyStore = \<lparr>idem_get = memory_idem_get, idem_put = memory_idem_put\<rparr>"

text \<open>A handler of the host service, which does not touch the cache.\<close>

definition on_host :: "'h whandler \<Rightarrow> 'h cached whandler" where
  "on_host h p s = (case h p (snd s) of (r, x) \<Rightarrow> (r, (fst s, x)))"

fun exec_all :: "'s whandler \<Rightarrow> wpayload list \<Rightarrow> 's \<Rightarrow> (werror + gomap) list \<times> 's" where
  "exec_all h [] s = ([], s)"
| "exec_all h (p # ps) s =
     (case h p s of (r, s1) \<Rightarrow> (case exec_all h ps s1 of (rs, s2) \<Rightarrow> (r # rs, s2)))"

text \<open>
  The interface's promise: reading does not change the state, and a put is what later reads of
  its key see, whatever is put under other keys. \<open>sees\<close> is the reader's view of the state.
\<close>

locale idem_contract =
  fixes store :: "'s idem_store"
    and sees :: "'s \<Rightarrow> string \<Rightarrow> gomap option"
  assumes get_reads: "idem_get store k s = (Inr (sees s k), s)"
    and put_seen: "sees (snd (idem_put store k r s)) j = (if j = k then Some r else sees s j)"
begin

lemma Wrap_hit: "wp_key p \<noteq> [] \<Longrightarrow> sees s (wp_key p) = Some r \<Longrightarrow> Wrap store h p s = (Inr r, s)"
  by (simp add: Wrap_def get_reads)

lemma Wrap_miss: "wp_key p = [] \<or> sees s (wp_key p) = None \<Longrightarrow> Wrap store h p s = wrap_miss store h p s"
  by (auto simp: Wrap_def get_reads)

lemma wrap_miss_sees:
  assumes "\<And>p s j. sees (snd (h p s)) j = sees s j"
  shows "sees (snd (wrap_miss store h p s)) j =
    (case fst (h p s) of
       Inr r \<Rightarrow> if wp_key p \<noteq> [] \<and> j = wp_key p then Some r else sees s j
     | Inl err \<Rightarrow> sees s j)"
  using assms [of p s j] by (auto simp: wrap_miss_def put_seen split: prod.splits sum.splits)

lemma Wrap_sees_kept:
  assumes "\<And>p s j. sees (snd (h p s)) j = sees s j" and "sees s k = Some r" and "k \<noteq> []"
  shows "sees (snd (Wrap store h p s)) k = Some r"
proof (cases "wp_key p = [] \<or> sees s (wp_key p) = None")
  case True
  then show ?thesis
    using assms wrap_miss_sees [of h p s k] by (auto simp: Wrap_miss split: sum.split)
next
  case False
  then show ?thesis using assms(2) by (auto simp: Wrap_hit)
qed

lemma first_result_cached:
  assumes "\<And>p s j. sees (snd (h p s)) j = sees s j" and "wp_key p \<noteq> []"
    and "Wrap store h p s = (Inr r, s1)"
  shows "sees s1 (wp_key p) = Some r"
proof (cases "sees s (wp_key p)")
  case None
  then show ?thesis
    using assms wrap_miss_sees [of h p s "wp_key p"]
    by (auto simp: Wrap_miss wrap_miss_def put_seen split: prod.splits sum.splits)
next
  case (Some x)
  then show ?thesis using assms(2,3) by (simp add: Wrap_hit)
qed

end

interpretation memory_idem: idem_contract MemoryIdempotencyStore "\<lambda>s. map_of (fst s)"
  by unfold_locales (simp_all add: MemoryIdempotencyStore_def memory_idem_get_def memory_idem_put_def)

lemma on_host_sees [simp]: "fst (snd (on_host h p s)) = fst s"
  by (simp add: on_host_def split: prod.split)

lemma cached_key_stays:
  assumes "map_of (fst s) k = Some r" and "k \<noteq> []"
  shows "list_all2 (\<lambda>p x. wp_key p = k \<longrightarrow> x = Inr r) ps (fst (exec_all (Wrap MemoryIdempotencyStore (on_host h)) ps s))
    \<and> snd (snd (exec_all (Wrap MemoryIdempotencyStore (on_host h)) ps s)) =
       snd (snd (exec_all (Wrap MemoryIdempotencyStore (on_host h)) (filter (\<lambda>p. wp_key p \<noteq> k) ps) s))"
  using assms(1)
proof (induction ps arbitrary: s)
  case (Cons p ps)
  let ?W = "Wrap MemoryIdempotencyStore (on_host h)"
  obtain x s1 where step: "?W p s = (x, s1)" by (cases "?W p s") blast
  have kept: "map_of (fst s1) k = Some r"
    using memory_idem.Wrap_sees_kept [of "on_host h" s k r p] Cons.prems assms(2) step by simp
  have hit: "x = Inr r \<and> s1 = s" if "wp_key p = k"
    using memory_idem.Wrap_hit [of p s r "on_host h"] Cons.prems assms(2) step that by simp
  show ?case using Cons.IH [OF kept] hit step by (auto split: prod.split)
qed simp

text \<open>
  C17: An idempotent handler does its work once per key. After a delivery with a non-empty key has
  succeeded, whatever deliveries follow, those with the same key are answered with the
  first result and the host service ends in the state it would have without them.
\<close>

theorem Wrap_runs_once:
  fixes h :: "'h whandler"
  assumes "wp_key p \<noteq> []" and "Wrap MemoryIdempotencyStore (on_host h) p s = (Inr r, s1)"
    and "exec_all (Wrap MemoryIdempotencyStore (on_host h)) ps s1 = (rs, s2)"
    and "exec_all (Wrap MemoryIdempotencyStore (on_host h))
           (filter (\<lambda>q. wp_key q \<noteq> wp_key p) ps) s1 = (rs', s3)"
  shows "list_all2 (\<lambda>q x. wp_key q = wp_key p \<longrightarrow> x = Inr r) ps rs \<and> snd s2 = snd s3"
proof -
  have "map_of (fst s1) (wp_key p) = Some r"
    using memory_idem.first_result_cached [of "on_host h" p s r s1] assms(1,2) by simp
  from cached_key_stays [OF this assms(1), where h = h and ps = ps] show ?thesis using assms(3,4) by simp
qed

definition charge :: "string \<Rightarrow> wpayload" where
  "charge k = wire (ActionPayload ''r1'' ''c'' 1 k ''svc.do'' [] False)"

definition counting :: "nat whandler" where
  "counting p n = (Inr [(''n'', VInt (int n))], Suc n)"

theorem Wrap_runs_once_witness:
  "\<exists>rs s2 s3. exec_all (Wrap MemoryIdempotencyStore (on_host counting)) [charge ''x'', charge ''k'']
        ([(''k'', [(''n'', VInt 5)])], 6) = (rs, s2)
    \<and> exec_all (Wrap MemoryIdempotencyStore (on_host counting)) [charge ''x'']
        ([(''k'', [(''n'', VInt 5)])], 6) = ([Inr [(''n'', VInt 6)]], s3)
    \<and> list_all2 (\<lambda>q x. wp_key q = ''k'' \<longrightarrow> x = Inr [(''n'', VInt 5)]) [charge ''x'', charge ''k''] rs
    \<and> snd s2 = snd s3"
proof -
  let ?W = "Wrap MemoryIdempotencyStore (on_host counting)"
  note unfold = Wrap_def wrap_miss_def MemoryIdempotencyStore_def memory_idem_get_def memory_idem_put_def
    on_host_def counting_def charge_def
  have first: "?W (charge ''k'') ([], 5) = (Inr [(''n'', VInt 5)], ([(''k'', [(''n'', VInt 5)])], 6))"
    by (simp add: unfold)
  have key: "wp_key (charge k) = k" for k by (simp add: charge_def)
  have later: "exec_all ?W [charge ''x'', charge ''k''] ([(''k'', [(''n'', VInt 5)])], 6)
      = ([Inr [(''n'', VInt 6)], Inr [(''n'', VInt 5)]],
         ([(''k'', [(''n'', VInt 5)]), (''x'', [(''n'', VInt 6)])], 7))"
    "exec_all ?W [charge ''x''] ([(''k'', [(''n'', VInt 5)])], 6)
      = ([Inr [(''n'', VInt 6)]], ([(''k'', [(''n'', VInt 5)]), (''x'', [(''n'', VInt 6)])], 7))"
    by (simp_all add: unfold)
  have kept: "filter (\<lambda>q. wp_key q \<noteq> wp_key (charge ''k'')) [charge ''x'', charge ''k''] = [charge ''x'']"
    by (simp add: key)
  show ?thesis
    using Wrap_runs_once [OF _ first later(1)] later kept by (auto simp: key)
qed

section \<open>Configuration and routing\<close>

lemma validate_actions_None_iff:
  "validate_actions q i seen as = None \<longleftrightarrow>
     distinct (map wa_name as) \<and> set (map wa_name as) \<inter> set seen = {}
     \<and> (\<forall>a \<in> set as. wa_name a \<noteq> [] \<and> wa_handler a \<noteq> None \<and> (q \<longrightarrow> contains_str (wa_name a) ''.''))"
  by (induction as arbitrary: i seen) auto

lemma handler_fold:
  "map_of (foldl (\<lambda>m a. AList.update (f a) (g a) m) m as) k =
     (case find (\<lambda>a. f a = k) (rev as) of Some a \<Rightarrow> Some (g a) | None \<Rightarrow> map_of m k)"
  by (induction as rule: rev_induct) auto

lemma find_hit: "find P xs = Some x \<Longrightarrow> P x \<and> x \<in> set xs"
  by (induction xs) (auto split: if_splits)

lemma find_rev_distinct:
  assumes "a \<in> set as" and "distinct (map f as)"
  shows "find (\<lambda>b. f b = f a) (rev as) = Some a"
proof -
  obtain b where b: "find (\<lambda>b. f b = f a) (rev as) = Some b"
    using assms(1) find_None_iff [of "\<lambda>b. f b = f a" "rev as"]
    by (cases "find (\<lambda>b. f b = f a) (rev as)") auto
  then have "f b = f a" "b \<in> set as" using find_hit [OF b] by simp_all
  then have "b = a" using assms by (meson distinct_map inj_on_def)
  then show ?thesis using b by simp
qed

lemma routingKey_inj: "routingKey c a = routingKey c b \<longleftrightarrow> wa_name a = wa_name b"
  by (simp add: routingKey_def)

lemma RoutingKeys_distinct: "distinct (RoutingKeys c) \<longleftrightarrow> distinct (map wa_name (cfg_actions c))"
  by (simp add: RoutingKeys_def distinct_map inj_on_def routingKey_inj)

text \<open>
  A validated configuration routes every action to its own handler: the routing keys are distinct and
  each contains a dot, the queue is bound to exactly these keys and its declaration
  passes its argument checks, and the table a delivery is looked up in maps the key of each
  action to that action's handler and knows no other key.
\<close>

theorem Validate_routes:
  assumes "Validate c = None"
  shows "distinct (RoutingKeys c) \<and> (\<forall>k \<in> set (RoutingKeys c). contains_str k ''.'')
    \<and> fst ` set (handler_table c) = set (RoutingKeys c)
    \<and> (\<forall>a \<in> set (cfg_actions c). \<exists>h. wa_handler a = Some h
        \<and> map_of (handler_table c) (routingKey c a) = Some (Some h))
    \<and> (\<forall>(ch :: 's channel) s. DeclareActionQueue ch (QueueName c) (RoutingKeys c) s =
        declare_all ch
          ([declare_exchange ''action.direct'' ''direct'', declare_queue (QueueName c)]
           @ map (\<lambda>k. (QueueBind (QueueName c) k ''action.direct'', \<lambda>err. Errorf ''topology: bind %s to %s: %w''
                 [AStr (QueueName c), AStr k, AErr err])) (RoutingKeys c)) s)"
proof -
  have ok: "cfg_actions c \<noteq> []" "distinct (map wa_name (cfg_actions c))"
    "\<forall>a \<in> set (cfg_actions c). wa_name a \<noteq> [] \<and> wa_handler a \<noteq> None
       \<and> (cfg_qualified c \<longrightarrow> contains_str (wa_name a) ''.'')"
    using assms by (auto simp: Validate_def validate_actions_None_iff split: if_splits)
  have keys: "distinct (RoutingKeys c)" using ok(2) by (simp add: RoutingKeys_distinct)
  have dots: "\<forall>k \<in> set (RoutingKeys c). contains_str k ''.''"
    using ok(3) by (auto simp: RoutingKeys_def routingKey_def contains_dot [symmetric])
  have dom: "fst ` set (foldl (\<lambda>m a. AList.update (routingKey c a) (wa_handler a) m) m as)
      = fst ` set m \<union> set (map (routingKey c) as)" for m as
    by (induction as arbitrary: m) auto
  have "map_of (handler_table c) (routingKey c a) = Some (wa_handler a)" if "a \<in> set (cfg_actions c)" for a
    using find_rev_distinct [OF that, of "routingKey c"] keys
    by (simp add: handler_table_def handler_fold RoutingKeys_def)
  then have table: "\<forall>a \<in> set (cfg_actions c). \<exists>h. wa_handler a = Some h
        \<and> map_of (handler_table c) (routingKey c a) = Some (Some h)"
    using ok(3) by fastforce
  have "\<forall>k \<in> set (RoutingKeys c). k \<noteq> []" using dots by (auto simp: contains_dot [symmetric])
  then have none: "find (\<lambda>(i, k). k = []) (zip [0..<length (RoutingKeys c)] (RoutingKeys c)) = None"
    by (auto simp: find_None_iff dest: set_zip_rightD)
  have "QueueName c \<noteq> []" "RoutingKeys c \<noteq> []" using ok(1) by (auto simp: QueueName_def RoutingKeys_def)
  then show ?thesis
    using keys dots table dom [of "[]" "cfg_actions c"] none
    by (simp add: handler_table_def [symmetric] RoutingKeys_def [symmetric] DeclareActionQueue_def)
qed

definition demo_action :: "string \<Rightarrow> nat waction" where
  "demo_action name = \<lparr>wa_name = name, wa_description = [], wa_category = [], wa_compensable = False,
     wa_input_schema = [], wa_output_schema = [], wa_error_codes = [], wa_default_retry = [],
     wa_default_timeout_ms = 0, wa_license_group = [], wa_dry_run_supported = False,
     wa_handler = Some counting\<rparr>"

definition demo_config :: "nat config" where
  "demo_config = \<lparr>cfg_service = ''svc'', cfg_service_version = ''1'', cfg_registry_url = ''u'',
     cfg_rmq_url = ''m'', cfg_grpc_url = ''g'', cfg_actions = [demo_action ''do'', demo_action ''undo''],
     cfg_skip_registration = False, cfg_qualified = False, cfg_queue = []\<rparr>"

theorem Validate_routes_witness:
  "RoutingKeys demo_config = [''svc.do'', ''svc.undo'']
    \<and> (\<exists>h. map_of (handler_table demo_config) ''svc.undo'' = Some (Some h))"
proof -
  have ok: "Validate demo_config = None"
    by (simp add: Validate_def validate_actions_None_iff demo_config_def demo_action_def)
  have act: "demo_action ''undo'' \<in> set (cfg_actions demo_config)" by (simp add: demo_config_def)
  have key: "routingKey demo_config (demo_action ''undo'') = ''svc.undo''"
    by (simp add: routingKey_def demo_config_def demo_action_def)
  have "\<forall>a \<in> set (cfg_actions demo_config). \<exists>h. wa_handler a = Some h
      \<and> map_of (handler_table demo_config) (routingKey demo_config a) = Some (Some h)"
    using Validate_routes [OF ok] by blast
  from bspec [OF this act] have "\<exists>h. map_of (handler_table demo_config) ''svc.undo'' = Some (Some h)"
    unfolding key by blast
  then show ?thesis by (simp add: RoutingKeys_def routingKey_def demo_config_def demo_action_def)
qed

section \<open>A worker and the engine together\<close>

text \<open>
  The client end of a stream to the engine's own liveness service in one process: each message
  is served when it is sent, and the answer waits in the inbox.
\<close>

record 'h loop =
  lp_world :: world
  lp_host :: 'h
  lp_job :: "job option"
  lp_inbox :: "(gerr + engine_event) list"

fun status_error :: "grpc_status \<Rightarrow> gerr" where
  "status_error StatusOK = Errorf ''EOF'' []"
| "status_error (NotFound msg) = status_err ''NotFound'' msg"
| "status_error (FailedPrecondition msg) = status_err ''FailedPrecondition'' msg"
| "status_error (InvalidArgument msg) = status_err ''InvalidArgument'' msg"
| "status_error (Internal msg) = status_err ''Internal'' msg"
| "status_error (Transport err) = err"

definition loop_send :: "server \<Rightarrow> worker_event \<Rightarrow> 'h loop \<Rightarrow> gerr option \<times> 'h loop" where
  "loop_send srv ev s =
     (case server_step srv (lp_job s) ev (lp_world s) of
        (Ended x, w) \<Rightarrow> (None, s\<lparr>lp_world := w, lp_inbox := lp_inbox s @ [Inl (status_error x)]\<rparr>)
      | (Serving j acked, w) \<Rightarrow>
          (None, s\<lparr>lp_world := w, lp_job := j,
                   lp_inbox := lp_inbox s @ (if acked then [Inr EngineAck] else [])\<rparr>))"

definition loop_recv :: "'h loop \<Rightarrow> (gerr + engine_event) \<times> 'h loop" where
  "loop_recv s =
     (case lp_inbox s of
        [] \<Rightarrow> (Inl (Errorf ''EOF'' []), s)
      | m # ms \<Rightarrow> (m, s\<lparr>lp_inbox := ms\<rparr>))"

definition loop_client ::
  "server \<Rightarrow> (gomap \<Rightarrow> gerr + string) \<Rightarrow> (string \<Rightarrow> gerr + gomap) \<Rightarrow> 'h loop client" where
  "loop_client srv marshal unmarshal =
     \<lparr>cl_open = (\<lambda>s. (None, s\<lparr>lp_job := None, lp_inbox := []\<rparr>)),
      cl_start = (\<lambda>run sid n. loop_send srv (WStart run sid n)),
      cl_recv = loop_recv,
      cl_error = (\<lambda>code msg again. loop_send srv (WError code msg again)),
      cl_complete = (\<lambda>b. loop_send srv (WComplete b (unmarshal b))),
      cl_marshal = marshal\<rparr>"

definition on_loop :: "'h whandler \<Rightarrow> 'h loop whandler" where
  "on_loop h p s = (case h p (lp_host s) of (r, x) \<Rightarrow> (r, s\<lparr>lp_host := x\<rparr>))"

lemma attemptInt32_id: "0 \<le> n \<Longrightarrow> n \<le> int32_max \<Longrightarrow> attemptInt32 n = n"
  by (simp add: attemptInt32_def)

lemma attemptInt32_range: "0 \<le> attemptInt32 n \<and> attemptInt32 n \<le> int32_max"
  by (simp add: attemptInt32_def int32_max_def)

text \<open>A job the engine refuses: the worker drops the message without running anything.\<close>

lemma refused_delivery:
  assumes "CheckStep (st (lp_world s)) i sid n = Some err" and "uuid_parse (srv_env srv) istr = Inr i"
    and "p = wire (ActionPayload istr sid n key action inputs dry)" and "0 < n" and "n \<le> int32_max"
    and "map_of handlers action = Some (Some h)"
  shows "\<exists>s'. processDelivery (Inr p) handlers (loop_client srv marshal unmarshal) s = (Ack, s')
    \<and> lp_host s' = lp_host s \<and> lp_world s' = lp_world s"
proof -
  have "\<exists>msg. statusOf err \<in> {NotFound msg, FailedPrecondition msg}"
    using statusOf_CheckStep [OF assms(1)] by (auto split: if_splits)
  then have "refused (Errorf ''recv ack: %w'' [AErr (status_error (statusOf err))])"
    by (auto simp: refused_def status_err_def)
  then show ?thesis
    using assms by (simp add: processDelivery_def IsCompensation_def driveStream_def loop_client_def
        loop_send_def server_start_def loop_recv_def attemptInt32_id)
qed

text \<open>What the action verb leaves for the worker, on the broker's transport.\<close>

lemma ActionVerb_dispatches:
  assumes "GetRun (st w) (run_id r) = Inr r" and "step_action sp = action" and "contains_str action ''.''"
    and "brokered av (st w)" and "n = run_current_attempt r + 1"
    and "body = ActionPayload (run_id r) (step_id sp) n
       (generateIdempotencyKey e (run_id r) (step_id sp) n) action (step_inputs sp) (run_dry_run r)"
  shows "ActionVerb e av r sp w = (Inl ErrSagaPaused,
    (put_run (run_id r) (r\<lparr>run_state := RunStatePaused, run_awaited_action_dispatch := Some action,
       run_current_attempt := n\<rparr>) w)\<lparr>outbox := outbox w @ [ToExchange action body]\<rparr>)"
proof -
  let ?r = "r\<lparr>run_state := RunStatePaused, run_awaited_action_dispatch := Some action, run_current_attempt := n\<rparr>"
  have "try_store (MarkAwaitingAction (run_id r) action n) w = (None, put_run (run_id r) ?r w)"
    using assms(1,5) by (simp add: MarkAwaitingAction_def try_with_run)
  moreover have "brokered av (st (put_run (run_id r) ?r w))"
    using assms(4) brokered_cong [of "st (put_run (run_id r) ?r w)" "st w"] by (simp add: put_run_def)
  moreover have "action \<noteq> []" using assms(3) by (auto simp: contains_dot)
  ultimately show ?thesis
    using assms(2,3,5,6) by (simp add: ActionVerb_def Let_def dispatch_brokered send_def)
qed

text \<open>
  C7: A dispatched action comes back to its run exactly once. The action verb, called on a run at its step with an
  action that goes through the broker, pauses the run and sends one message. A worker that reads the message sees the
  inputs of the step as JSON hands them over, with every number a \<^verbatim>\<open>float64\<close>; when its handler succeeds it
  acknowledges the message, the result, again as JSON hands it over, is merged into the run's variables, the run awaits
  no action any more and one advance is published. A second delivery of the same message is acknowledged without
  running the handler and without changing anything in the engine. The attempts fit an int32, as the stream counts
  them; \<open>marshal\<close> and \<open>unmarshal\<close> are \<^verbatim>\<open>encoding/json\<close>.
\<close>

theorem action_worker_round_trip:
  assumes "GetRun (st w) i = Inr r" and "run_id r = i" and "run_current_step r = step_id sp"
    and "step_action sp = action" and "contains_str action ''.''" and "brokered av (st w)"
    and "0 \<le> run_current_attempt r" and "run_current_attempt r < int32_max"
    and "uuid_parse (srv_env srv) i = Inr i" and "\<And>w. srv_send_ack srv w = None"
    and "srv_reporter srv = engine_reporter c (Some pub)" and "\<And>w. pub w i = None"
    and "map_of handlers action = Some (Some (on_loop h))"
    and "\<And>p. wp_run p = i \<Longrightarrow> wp_step p = step_id sp \<Longrightarrow> wp_action p = action
       \<Longrightarrow> wp_inputs p = wire_map (step_inputs sp) \<Longrightarrow> h p (lp_host s) = (Inr result, x)"
    and "marshal result = Inr b" and "b \<noteq> []" and "unmarshal b = Inr (wire_map result)"
  shows "\<exists>w1 body s1 s2. ActionVerb e av r sp w = (Inl ErrSagaPaused, w1)
    \<and> outbox w1 = outbox w @ [ToExchange action body]
    \<and> processDelivery (Inr (wire body)) handlers (loop_client srv marshal unmarshal) (s\<lparr>lp_world := w1\<rparr>) = (Ack, s1)
    \<and> lp_host s1 = x
    \<and> GetRun (st (lp_world s1)) i = Inr (r\<lparr>run_state := RunStatePaused, run_awaited_action_dispatch := None,
        run_current_attempt := run_current_attempt r + 1, run_wakeup_at := Some (wall w),
        run_variables := put_vars (run_variables r) (wire_map result)\<rparr>)
    \<and> queue (lp_world s1) = queue w @ [i] \<and> outbox (lp_world s1) = outbox w1
    \<and> processDelivery (Inr (wire body)) handlers (loop_client srv marshal unmarshal) s1 = (Ack, s2)
    \<and> lp_host s2 = lp_host s1 \<and> lp_world s2 = lp_world s1"
proof -
  define n where "n = run_current_attempt r + 1"
  have n: "0 < n" "n \<le> int32_max" using assms(7,8) by (simp_all add: n_def)
  define key where "key = generateIdempotencyKey e i (step_id sp) n"
  define body where "body = ActionPayload i (step_id sp) n key action (step_inputs sp) (run_dry_run r)"
  define r1 where "r1 = r\<lparr>run_state := RunStatePaused, run_awaited_action_dispatch := Some action, run_current_attempt := n\<rparr>"
  define w1 where "w1 = (put_run i r1 w)\<lparr>outbox := outbox w @ [ToExchange action body]\<rparr>"
  have verb: "ActionVerb e av r sp w = (Inl ErrSagaPaused, w1)"
    using ActionVerb_dispatches [of w r sp action av n body e] assms(1,2,4-6)
    by (simp add: n_def w1_def r1_def body_def key_def)
  have get1: "GetRun (st w1) i = Inr r1" "wall w1 = wall w" "queue w1 = queue w"
    by (simp_all add: w1_def)
  have check: "CheckStep (st w1) i (step_id sp) n = None"
    using get1 assms(3) by (simp add: CheckStep_None_iff r1_def)
  define m where "m = wire_map result"
  define r2 where "r2 = r1\<lparr>run_awaited_action_dispatch := None,
      run_wakeup_at := Some (wall w), run_variables := put_vars (run_variables r) m\<rparr>"
  define w2 where "w2 = (put_run i r2 w1)\<lparr>queue := queue w @ [i]\<rparr>"
  have done1: "CompleteStep (srv_reporter srv) i (step_id sp) n m w1 = (None, w2)"
  proof -
    have "run_current_attempt r1 = n" "run_variables r1 = run_variables r" by (simp_all add: r1_def)
    then show ?thesis
      using check get1 complete_checked_effect [OF get1(1)] assms(11,12)
      by (simp add: CompleteStep_def engine_reporter_def PublishSagaAdvance_def w2_def r2_def)
  qed
  have run: "h (wire body) (lp_host s) = (Inr result, x)"
    by (rule assms(14)) (simp_all add: body_def)
  obtain s1 where s1: "processDelivery (Inr (wire body)) handlers (loop_client srv marshal unmarshal)
        (s\<lparr>lp_world := w1\<rparr>) = (Ack, s1)"
      "lp_host s1 = x" "lp_world s1 = w2"
    using assms(9,10,13,15-17) n check run done1
    by (simp add: processDelivery_def IsCompensation_def driveStream_def loop_client_def loop_send_def
        server_start_def loop_recv_def attemptInt32_id run_handler_def on_loop_def server_complete_def body_def m_def)
  have get2: "GetRun (st w2) i = Inr r2" "queue w2 = queue w @ [i]" "outbox w2 = outbox w1"
    by (simp_all add: w2_def)
  then obtain err where err: "CheckStep (st (lp_world s1)) i (step_id sp) n = Some err"
    by (cases "CheckStep (st w2) i (step_id sp) n") (auto simp: CheckStep_None_iff s1 r2_def)
  have "wire body = wire (ActionPayload i (step_id sp) n key action (step_inputs sp) (run_dry_run r))"
    by (simp add: body_def)
  then obtain s2 where "processDelivery (Inr (wire body)) handlers (loop_client srv marshal unmarshal) s1 = (Ack, s2)"
      "lp_host s2 = lp_host s1" "lp_world s2 = lp_world s1"
    using refused_delivery [OF err assms(9) _ n assms(13)] by blast
  then show ?thesis
    using verb s1 get2 by (intro exI [of _ w1] exI [of _ body] exI [of _ s1] exI [of _ s2])
      (simp add: w1_def r2_def r1_def m_def n_def)
qed

definition demo_loop :: "nat loop" where
  "demo_loop = \<lparr>lp_world = demo_world reporting_run [], lp_host = 7, lp_job = None, lp_inbox = []\<rparr>"

definition entering_run :: saga_run where
  "entering_run = (sample_run ''r1'')\<lparr>run_state := RunStateRunning, run_current_step := ''c'', run_current_attempt := 0\<rparr>"

definition charge_step :: step where
  "charge_step = (blank_step ''c'')\<lparr>step_type := StepTypeAction, step_action := ''svc.do'',
     step_inputs := [(''amount'', VInt 5)]\<rparr>"

text \<open>A handler that answers with the amount it reads, provided it is the number JSON gives.\<close>

definition echo_amount :: "nat whandler" where
  "echo_amount p k = (case map_of (wp_inputs p) ''amount'' of
     Some (VFloat q) \<Rightarrow> (Inr [(''paid'', VInt (\<lfloor>q\<rfloor>))], Suc k)
   | _ \<Rightarrow> (Inl (PlainError ''amount is not a number''), k))"

theorem action_worker_round_trip_witness:
  "\<exists>w1 body s1 s2. ActionVerb test_env broker_verb entering_run charge_step (demo_world entering_run [])
        = (Inl ErrSagaPaused, w1)
    \<and> outbox w1 = [ToExchange ''svc.do'' body]
    \<and> processDelivery (Inr (wire body)) [(''svc.do'', Some (on_loop echo_amount))]
        (loop_client demo_server (\<lambda>_. Inr ''{..}'') (\<lambda>_. Inr (wire_map [(''paid'', VInt 5)])))
        (demo_loop\<lparr>lp_world := w1\<rparr>) = (Ack, s1)
    \<and> lp_host s1 = 8 \<and> queue (lp_world s1) = [''r1'']
    \<and> processDelivery (Inr (wire body)) [(''svc.do'', Some (on_loop echo_amount))]
        (loop_client demo_server (\<lambda>_. Inr ''{..}'') (\<lambda>_. Inr (wire_map [(''paid'', VInt 5)]))) s1 = (Ack, s2)
    \<and> lp_host s2 = 8"
proof -
  have run: "GetRun (st (demo_world entering_run [])) ''r1'' = Inr entering_run" "run_id entering_run = ''r1''"
    using demo_reads(1) [of entering_run "[]"] by (simp_all add: entering_run_def)
  have "float64 5 = 5" by code_simp
  then have five: "wire_map [(''amount'', VInt 5)] = [(''amount'', VFloat 5)]"
    by (simp add: wire_map_number in_int64_def)
  have echo: "echo_amount p 7 = (Inr [(''paid'', VInt 5)], 8)" if "wp_inputs p = wire_map (step_inputs charge_step)" for p
    using that five by (simp add: echo_amount_def charge_step_def)
  have fields: "run_current_step entering_run = step_id charge_step" "step_action charge_step = ''svc.do''"
    "contains_str ''svc.do'' ''.''" "0 \<le> run_current_attempt entering_run"
    "run_current_attempt entering_run < int32_max" "uuid_parse (srv_env demo_server) ''r1'' = Inr ''r1''"
    "srv_send_ack demo_server v = None" "srv_reporter demo_server = engine_reporter demo_coord (Some (\<lambda>_ _. None))"
    "map_of [(''svc.do'', Some (on_loop echo_amount))] ''svc.do'' = Some (Some (on_loop echo_amount))"
    "lp_host demo_loop = 7" for v
    by (simp_all add: entering_run_def charge_step_def blank_step_def int32_max_def demo_server_def demo_loop_def
        contains_dot)
  from action_worker_round_trip [where e = test_env and s = demo_loop and h = echo_amount and x = 8 and result = "[(''paid'', VInt 5)]"
      and marshal = "\<lambda>_. Inr ''{..}''" and b = "''{..}''" and unmarshal = "\<lambda>_. Inr (wire_map [(''paid'', VInt 5)])",
      OF run fields(1-3) demo_broker(2) fields(4-8) _ fields(9)]
  show ?thesis using echo fields(10) demo_reads(4,5) [of entering_run "[]"] by fastforce
qed

text \<open>
  Once the engine has acknowledged the job nothing can bring the message back: when sending the
  report fails, it is acknowledged all the same and the run keeps waiting.
\<close>

lemma report_lost:
  assumes "map_of handlers (wp_action p) = Some (Some h)" and "\<not> IsCompensation p"
    and "cl_open cl s = (None, s1)"
    and "cl_start cl (wp_run p) (wp_step p) (attemptInt32 (wp_attempt p)) s1 = (None, s2)"
    and "cl_recv cl s2 = (Inr EngineAck, s3)" and "h p s3 = (Inr result, s4)"
    and "cl_complete cl (case cl_marshal cl result of Inl err \<Rightarrow> [] | Inr b \<Rightarrow> b) s4 = (Some err, s5)"
  shows "processDelivery (Inr p) handlers cl s = (Ack, s5)"
  using assms by (simp add: processDelivery_def driveStream_def run_handler_def)

text \<open>The engine's two kinds of message are told apart by every worker.\<close>

lemma wire_compensation:
  "IsCompensation (wire (CompensationPayload run sid action inputs dry))"
  "1 \<le> n \<Longrightarrow> \<not> IsCompensation (wire (ActionPayload run sid n key action inputs dry))"
  by (simp_all add: IsCompensation_def)

end
