(* ===== verification/Store_Suite.thy ===== *)
theory Store_Suite
  imports Store_Properties "HOL-Library.Monad_Syntax"
begin

text \<open>
  The interface \<^verbatim>\<open>store.Store\<close> as a record of its methods, and the conformance suite of
  \<^verbatim>\<open>store/storetest\<close> that every backend has to pass. A group of the suite is a function from
  the state of a fresh store to the state after its checks, or to \<open>None\<close> when one of them fails: \<^verbatim>\<open>Errorf\<close> and
  \<^verbatim>\<open>Fatalf\<close> differ only in how a failing test goes on. Where the suite ignores the
  error of a read, an error fails the model's check.
\<close>

section \<open>A store under test\<close>

text \<open>
  Beside its data the state holds where UUIDs and times come from and how many were drawn so
  far, by the store or the test: the clock moves on with each draw. It counts whole
  microseconds, so the truncation of \<^verbatim>\<open>storeNow\<close> changes nothing.
\<close>

record 'db bench =
  bn_db :: 'db
  bn_ids :: "nat \<Rightarrow> uuid"
  bn_start :: int
  bn_drawn :: int

definition new_id :: "'db bench \<Rightarrow> uuid \<times> 'db bench" where
  "new_id s = (bn_ids s (nat (bn_drawn s)), s\<lparr>bn_drawn := bn_drawn s + 1\<rparr>)"

definition now_utc :: "'db bench \<Rightarrow> gotime \<times> 'db bench" where
  "now_utc s = (1000 * (bn_start s + bn_drawn s), s\<lparr>bn_drawn := bn_drawn s + 1\<rparr>)"

type_synonym ('a, 'db) call = "'db bench \<Rightarrow> (gerr + 'a) \<times> 'db bench"

record 'db store_api =
  a_UpsertWorkflowDefinition :: "workflow_definition \<Rightarrow> (uuid, 'db) call"
  a_GetWorkflowDefinition :: "uuid \<Rightarrow> (workflow_definition, 'db) call"
  a_ListWorkflowDefinitions :: "definition_filter \<Rightarrow> (workflow_definition list, 'db) call"
  a_GetPublishedWorkflowByID :: "string \<Rightarrow> uuid option \<Rightarrow> (workflow_definition, 'db) call"
  a_CreateRun :: "saga_run \<Rightarrow> (unit, 'db) call"
  a_GetRun :: "uuid \<Rightarrow> (saga_run, 'db) call"
  a_UpdateRunState :: "uuid \<Rightarrow> run_state \<Rightarrow> string \<Rightarrow> (unit, 'db) call"
  a_Cancel :: "uuid \<Rightarrow> string \<Rightarrow> (unit, 'db) call"
  a_MarkRunFailed :: "uuid \<Rightarrow> string \<Rightarrow> string \<Rightarrow> (unit, 'db) call"
  a_ListRuns :: "run_filter \<Rightarrow> (saga_run list, 'db) call"
  a_CountRuns :: "run_filter \<Rightarrow> (int, 'db) call"
  a_StatsForWorkflow :: "string \<Rightarrow> (workflow_stats, 'db) call"
  a_AppendEvent :: "saga_run_event \<Rightarrow> (unit, 'db) call"
  a_ListEventsByRun :: "uuid \<Rightarrow> (saga_run_event list, 'db) call"
  a_GetEventByID :: "uuid \<Rightarrow> (saga_run_event, 'db) call"
  a_UpsertRuleDefinition :: "rule_definition \<Rightarrow> (uuid, 'db) call"
  a_GetPublishedRuleByID :: "string \<Rightarrow> uuid option \<Rightarrow> (rule_definition, 'db) call"
  a_UpdateRunVariables :: "uuid \<Rightarrow> gomap \<Rightarrow> (unit, 'db) call"
  a_SetPausedWithWakeup :: "uuid \<Rightarrow> gotime \<Rightarrow> (unit, 'db) call"
  a_SetPausedAwaitingSignal :: "uuid \<Rightarrow> string \<Rightarrow> gotime option \<Rightarrow> (unit, 'db) call"
  a_SetPausedAwaitingEvent :: "uuid \<Rightarrow> string \<Rightarrow> (string \<times> string) list \<Rightarrow> (unit, 'db) call"
  a_SetPausedAwaitingEventWithDeadline ::
    "uuid \<Rightarrow> string \<Rightarrow> (string \<times> string) list \<Rightarrow> gotime option \<Rightarrow> (unit, 'db) call"
  a_ClearPause :: "uuid \<Rightarrow> (unit, 'db) call"
  a_FindRunsByDueWakeup :: "gotime \<Rightarrow> int \<Rightarrow> (uuid list, 'db) call"
  a_FindRunsByAwaitedEvent :: "string \<Rightarrow> (saga_run list, 'db) call"
  a_TryConsumeAwaitedSignal :: "uuid \<Rightarrow> string \<Rightarrow> (bool, 'db) call"
  a_AppendSignal :: "saga_signal \<Rightarrow> (unit, 'db) call"
  a_WakeFromExternal :: "uuid \<Rightarrow> (unit, 'db) call"
  a_SpawnChildRun :: "uuid \<Rightarrow> string \<Rightarrow> string \<Rightarrow> workflow_definition \<Rightarrow> gomap \<Rightarrow> (uuid, 'db) call"
  a_SpawnChildRunAt ::
    "uuid \<Rightarrow> string \<Rightarrow> string \<Rightarrow> workflow_definition \<Rightarrow> gomap \<Rightarrow> string \<Rightarrow> (uuid, 'db) call"
  a_ListChildrenByParent :: "uuid \<Rightarrow> string \<Rightarrow> (saga_run list, 'db) call"
  a_PushTryCatch :: "uuid \<Rightarrow> try_catch_frame \<Rightarrow> (unit, 'db) call"
  a_PopTryCatch :: "uuid \<Rightarrow> (try_catch_frame option, 'db) call"
  a_CreateUserTask :: "user_task \<Rightarrow> (unit, 'db) call"
  a_GetUserTask :: "uuid \<Rightarrow> (user_task, 'db) call"
  a_SubmitUserTask :: "uuid \<Rightarrow> string \<Rightarrow> gomap \<Rightarrow> (unit, 'db) call"
  a_ListUserTasksByRun :: "uuid \<Rightarrow> (user_task list, 'db) call"
  a_UpsertActionRegistration :: "action_registration \<Rightarrow> (unit, 'db) call"
  a_ListActions :: "action_filter \<Rightarrow> (action_registration list, 'db) call"
  a_GetAction :: "string \<Rightarrow> string \<Rightarrow> int \<Rightarrow> (action_registration, 'db) call"
  a_UpsertTrigger :: "saga_trigger \<Rightarrow> (uuid, 'db) call"
  a_GetTrigger :: "uuid \<Rightarrow> (saga_trigger, 'db) call"
  a_ListTriggers :: "trigger_filter \<Rightarrow> (saga_trigger list, 'db) call"
  a_DeleteTrigger :: "uuid \<Rightarrow> (unit, 'db) call"
  a_ListDueCronTriggers :: "gotime \<Rightarrow> int \<Rightarrow> (saga_trigger list, 'db) call"
  a_ClaimCronFire :: "uuid \<Rightarrow> gotime \<Rightarrow> gotime \<Rightarrow> (bool, 'db) call"
  a_RecordTriggerFire :: "uuid \<Rightarrow> string \<Rightarrow> uuid option \<Rightarrow> string \<Rightarrow> (unit, 'db) call"
  a_MarkAwaitingAction :: "uuid \<Rightarrow> string \<Rightarrow> int \<Rightarrow> (unit, 'db) call"
  a_CompleteAction :: "uuid \<Rightarrow> int \<Rightarrow> gomap \<Rightarrow> (unit, 'db) call"
  a_FailAction :: "uuid \<Rightarrow> int \<Rightarrow> string \<Rightarrow> string \<Rightarrow> bool \<Rightarrow> (unit, 'db) call"

section \<open>Helpers\<close>

definition requireNotFound :: "(gerr + 'a) \<times> 's \<Rightarrow> 's option" where
  "requireNotFound r =
     (case fst r of Inr _ \<Rightarrow> None | Inl err \<Rightarrow> if is_not_found err then Some (snd r) else None)"

definition requireNoErr :: "(gerr + 'a) \<times> 's \<Rightarrow> ('a \<times> 's) option" where
  "requireNoErr r = (case fst r of Inl _ \<Rightarrow> None | Inr x \<Rightarrow> Some (x, snd r))"

definition check :: "bool \<Rightarrow> 's \<Rightarrow> 's option" where
  "check p s = (if p then Some s else None)"

definition sameNumber :: "val option \<Rightarrow> rat \<Rightarrow> bool" where
  "sameNumber got want =
     (case got of Some (VInt n) \<Rightarrow> of_int n = want | Some (VInt64 n) \<Rightarrow> of_int n = want
      | Some (VFloat x) \<Rightarrow> x = want | _ \<Rightarrow> False)"

definition seedDef :: "string \<Rightarrow> int \<Rightarrow> bool \<Rightarrow> workflow_definition" where
  "seedDef workflowID version published =
     blank_def\<lparr>def_id := workflowID, def_version := version, def_name := workflowID, def_start := ''end'',
       def_steps := [(blank_step ''end'')\<lparr>step_type := StepTypeEnd\<rparr>], def_published := published\<rparr>"

definition newRun :: "'db store_api \<Rightarrow> string \<Rightarrow> 'db bench \<Rightarrow> (saga_run \<times> 'db bench) option" where
  "newRun A workflowID s = do {
     (defID, s) \<leftarrow> requireNoErr (a_UpsertWorkflowDefinition A (seedDef workflowID 1 True) s);
     let (i, s) = new_id s;
     let (now, s) = now_utc s;
     Some (NewSagaRun i now workflowID defID None [], s)
   }"

definition seedRun :: "'db store_api \<Rightarrow> string \<Rightarrow> 'db bench \<Rightarrow> (saga_run \<times> 'db bench) option" where
  "seedRun A workflowID s = do {
     (r, s) \<leftarrow> newRun A workflowID s;
     (_, s) \<leftarrow> requireNoErr (a_CreateRun A r s);
     Some (r, s)
   }"

definition decisionRule :: "string \<Rightarrow> int \<Rightarrow> bool \<Rightarrow> 'db bench \<Rightarrow> rule_definition \<times> 'db bench" where
  "decisionRule ruleID version published s =
     (let (i, s) = new_id s; (now, s) = now_utc s
      in ((NewRuleDefinition i now ruleID version ruleID ''decision_table''
            \<lparr>spec_hit_policy = ''first'', spec_rows = [\<lparr>row_when = ''x==1'', row_then = [(''branch'', VStr ''a'')]\<rparr>],
             spec_default_output = Some [(''branch'', VStr ''b'')]\<rparr> ''by'')\<lparr>rule_published := published\<rparr>, s))"

definition frameID :: "string \<Rightarrow> nat \<Rightarrow> string" where
  "frameID pre n = pre @ show_nat n"

definition containsID :: "uuid list \<Rightarrow> uuid \<Rightarrow> bool" where
  "containsID ids want = list_ex (\<lambda>i. i = want) ids"

definition containsRun :: "saga_run list \<Rightarrow> uuid \<Rightarrow> bool" where
  "containsRun rs want = list_ex (\<lambda>r. run_id r = want) rs"

definition hasEventType :: "saga_run_event list \<Rightarrow> event_type \<Rightarrow> bool" where
  "hasEventType evts want = list_ex (\<lambda>e. ev_type e = want) evts"

text \<open>The zero filters and entities.\<close>

definition any_definition :: definition_filter where
  "any_definition = \<lparr>dfilter_published = None, dfilter_search = [], dfilter_limit = 0, dfilter_offset = 0\<rparr>"

definition any_run :: run_filter where
  "any_run = \<lparr>rfilter_workflow_id = [], rfilter_state = [], rfilter_trigger_type = [], rfilter_since = None,
     rfilter_has_error = None, rfilter_requires_review = None, rfilter_limit = 0, rfilter_offset = 0\<rparr>"

definition any_action :: action_filter where
  "any_action = \<lparr>afilter_service = [], afilter_search = [], afilter_category = []\<rparr>"

definition any_trigger :: trigger_filter where
  "any_trigger = \<lparr>tfilter_type = None, tfilter_enabled = None, tfilter_tenant_id = None\<rparr>"

definition blank_task :: user_task where
  "blank_task = \<lparr>task_id = uuid_Nil, task_run_id = uuid_Nil, task_step_id = [], task_assignee = [],
     task_due_at = None, task_form_schema = [], task_submitted_at = None, task_submitted_by = [],
     task_result = []\<rparr>"

definition blank_trigger :: saga_trigger where
  "blank_trigger = \<lparr>trig_id = uuid_Nil, trig_type = TriggerOther [], trig_workflow_id = [], trig_version = 0,
     trig_config = [], trig_enabled = False, trig_tenant_id = None, trig_created_at = 0, trig_created_by = [],
     trig_next_fire_at = None, trig_last_fired_at = None\<rparr>"

definition blank_registration :: action_registration where
  "blank_registration = \<lparr>reg_id = uuid_Nil, reg_service = [], reg_action_name = [], reg_version = 0,
     reg_description = [], reg_category = [], reg_compensable = False, reg_input_schema = [],
     reg_output_schema = [], reg_error_codes = [], reg_default_retry = None, reg_default_timeout_ms = 0,
     reg_deprecated = False, reg_registered_at = 0, reg_service_version = [], reg_dry_run_supported = False,
     reg_license_group = [], reg_transport = [], reg_address = []\<rparr>"

definition minute :: duration where "minute = 60 * second_ns"
definition hour :: duration where "hour = 60 * minute"

section \<open>Groups: definitions, runs, events, rules\<close>

definition testDefinitions :: "'db store_api \<Rightarrow> 'db bench \<Rightarrow> 'db bench option" where
  "testDefinitions A s = do {
     (i, s) \<leftarrow> requireNoErr (a_UpsertWorkflowDefinition A (seedDef ''wf'' 1 True) s);
     s \<leftarrow> check (i \<noteq> uuid_Nil) s;
     (got, s) \<leftarrow> requireNoErr (a_GetWorkflowDefinition A i s);
     s \<leftarrow> check (def_id got = ''wf'' \<and> def_version got = 1) s;
     let (other, s) = new_id s;
     requireNotFound (a_GetWorkflowDefinition A other s)
   }"

definition testListDefinitions :: "'db store_api \<Rightarrow> 'db bench \<Rightarrow> 'db bench option" where
  "testListDefinitions A s = do {
     let (now, s) = now_utc s;
     (_, s) \<leftarrow> requireNoErr (a_UpsertWorkflowDefinition A ((seedDef ''wf-list-a'' 1 True)\<lparr>def_created_at := now - 2 * minute\<rparr>) s);
     (_, s) \<leftarrow> requireNoErr (a_UpsertWorkflowDefinition A ((seedDef ''wf-list-a'' 2 False)\<lparr>def_created_at := now - minute\<rparr>) s);
     (_, s) \<leftarrow> requireNoErr (a_UpsertWorkflowDefinition A ((seedDef ''wf-list-b'' 1 True)\<lparr>def_created_at := now\<rparr>) s);
     (all, s) \<leftarrow> requireNoErr (a_ListWorkflowDefinitions A any_definition s);
     s \<leftarrow> check (length all = 3 \<and> sorted_wrt (\<ge>) (map def_created_at all)) s;
     s \<leftarrow> check (def_id (hd all) = ''wf-list-b'' \<and> def_version (hd all) = 1) s;
     s \<leftarrow> check (length (filter (\<lambda>d. def_id d = ''wf-list-a'') all) = 2) s;
     (pub, s) \<leftarrow> requireNoErr (a_ListWorkflowDefinitions A (any_definition\<lparr>dfilter_published := Some True\<rparr>) s);
     s \<leftarrow> check (length pub = 2 \<and> list_all def_published pub) s;
     (drafts, s) \<leftarrow> requireNoErr (a_ListWorkflowDefinitions A (any_definition\<lparr>dfilter_published := Some False\<rparr>) s);
     check (map def_version drafts = [2]) s
   }"

definition testPublishedWorkflow :: "bool \<Rightarrow> 'db store_api \<Rightarrow> 'db bench \<Rightarrow> 'db bench option" where
  "testPublishedWorkflow publishedOnly A s = do {
     (_, s) \<leftarrow> requireNoErr (a_UpsertWorkflowDefinition A (seedDef ''wf'' 1 True) s);
     (_, s) \<leftarrow> requireNoErr (a_UpsertWorkflowDefinition A (seedDef ''wf'' 2 False) s);
     (got, s) \<leftarrow> requireNoErr (a_GetPublishedWorkflowByID A ''wf'' None s);
     s \<leftarrow> check (def_version got = 1 \<and> def_published got) s;
     (_, s) \<leftarrow> requireNoErr (a_UpsertWorkflowDefinition A (seedDef ''draft'' 1 False) s);
     (_, s) \<leftarrow> requireNoErr (a_UpsertWorkflowDefinition A (seedDef ''draft'' 2 False) s);
     s \<leftarrow> (if publishedOnly then requireNotFound (a_GetPublishedWorkflowByID A ''draft'' None s)
          else do {
            (got, s) \<leftarrow> requireNoErr (a_GetPublishedWorkflowByID A ''draft'' None s);
            check (def_version got = 2) s
          });
     requireNotFound (a_GetPublishedWorkflowByID A ''unknown'' None s)
   }"

definition testRuns :: "'db store_api \<Rightarrow> 'db bench \<Rightarrow> 'db bench option" where
  "testRuns A s = do {
     (run, s) \<leftarrow> newRun A ''wf'' s;
     let run = run\<lparr>run_inputs := [(''seed'', VInt 1)]\<rparr>;
     (_, s) \<leftarrow> requireNoErr (a_CreateRun A run s);
     (got, s) \<leftarrow> requireNoErr (a_GetRun A (run_id run) s);
     s \<leftarrow> check (run_id got = run_id run \<and> run_workflow_id got = ''wf'') s;
     s \<leftarrow> check (sameNumber (map_of (run_inputs got) ''seed'') 1) s;
     let (other, s) = new_id s;
     requireNotFound (a_GetRun A other s)
   }"

definition testRunState :: "'db store_api \<Rightarrow> 'db bench \<Rightarrow> 'db bench option" where
  "testRunState A s = do {
     (run, s) \<leftarrow> seedRun A ''wf'' s;
     (_, s) \<leftarrow> requireNoErr (a_UpdateRunState A (run_id run) RunStateRunning ''step2'' s);
     (got, s) \<leftarrow> requireNoErr (a_GetRun A (run_id run) s);
     s \<leftarrow> check (run_state got = RunStateRunning \<and> run_current_step got = ''step2'') s;
     let (other, s) = new_id s;
     requireNotFound (a_UpdateRunState A other RunStateRunning ''x'' s)
   }"

definition testRunVariables :: "'db store_api \<Rightarrow> 'db bench \<Rightarrow> 'db bench option" where
  "testRunVariables A s = do {
     (run, s) \<leftarrow> seedRun A ''wf'' s;
     (_, s) \<leftarrow> requireNoErr (a_UpdateRunVariables A (run_id run) [(''a'', VInt 1), (''scope.x'', VInt 2)] s);
     (got, s) \<leftarrow> requireNoErr (a_GetRun A (run_id run) s);
     s \<leftarrow> check (sameNumber (map_of (run_variables got) ''a'') 1) s;
     s \<leftarrow> (case map_of (run_variables got) ''scope'' of
            Some (VMap scope) \<Rightarrow> check (sameNumber (map_of scope ''x'') 2) s
          | _ \<Rightarrow> None);
     let (other, s) = new_id s;
     requireNotFound (a_UpdateRunVariables A other [(''a'', VInt 1)] s)
   }"

definition testEvents :: "'db store_api \<Rightarrow> 'db bench \<Rightarrow> 'db bench option" where
  "testEvents A s = do {
     (run, s) \<leftarrow> seedRun A ''wf'' s;
     let (i1, s) = new_id s; let (t1, s) = now_utc s;
     let (i2, s) = new_id s; let (t2, s) = now_utc s;
     (_, s) \<leftarrow> requireNoErr (a_AppendEvent A (NewEvent i1 t1 (run_id run) ''s1'' 0 EventStepSucceeded ''engine'') s);
     (_, s) \<leftarrow> requireNoErr (a_AppendEvent A (NewEvent i2 t2 (run_id run) ''s2'' 1 EventStepSucceeded ''engine'') s);
     (evts, s) \<leftarrow> requireNoErr (a_ListEventsByRun A (run_id run) s);
     s \<leftarrow> check (map ev_id evts = [i1, i2]) s;
     let (other, s) = new_id s;
     (none, s) \<leftarrow> requireNoErr (a_ListEventsByRun A other s);
     s \<leftarrow> check (none = []) s;
     (got, s) \<leftarrow> requireNoErr (a_GetEventByID A i1 s);
     s \<leftarrow> check (ev_id got = i1) s;
     let (other, s) = new_id s;
     requireNotFound (a_GetEventByID A other s)
   }"

definition testRules :: "bool \<Rightarrow> 'db store_api \<Rightarrow> 'db bench \<Rightarrow> 'db bench option" where
  "testRules publishedOnly A s = do {
     let (def, s) = decisionRule ''r'' 1 True s;
     (gen, s) \<leftarrow> requireNoErr (a_UpsertRuleDefinition A (def\<lparr>rule_uuid := uuid_Nil\<rparr>) s);
     s \<leftarrow> check (gen \<noteq> uuid_Nil) s;
     let (preset, s) = decisionRule ''r2'' 1 True s;
     let (i, s) = new_id s;
     let preset = preset\<lparr>rule_uuid := i\<rparr>;
     (ret, s) \<leftarrow> requireNoErr (a_UpsertRuleDefinition A preset s);
     s \<leftarrow> check (ret = rule_uuid preset) s;
     (_, s) \<leftarrow> requireNoErr (a_UpsertRuleDefinition A preset s);
     (got, s) \<leftarrow> requireNoErr (a_GetPublishedRuleByID A ''r2'' None s);
     s \<leftarrow> check (rule_uuid got = rule_uuid preset) s;
     (got, s) \<leftarrow> requireNoErr (a_GetPublishedRuleByID A ''r'' None s);
     s \<leftarrow> check (rule_published got \<and> rule_rule_id got = ''r'') s;
     let (d1, s) = decisionRule ''draft'' 1 False s; let (i1, s) = new_id s;
     let (d2, s) = decisionRule ''draft'' 2 False s; let (i2, s) = new_id s;
     (_, s) \<leftarrow> requireNoErr (a_UpsertRuleDefinition A (d1\<lparr>rule_uuid := i1\<rparr>) s);
     (_, s) \<leftarrow> requireNoErr (a_UpsertRuleDefinition A (d2\<lparr>rule_uuid := i2\<rparr>) s);
     s \<leftarrow> (if publishedOnly then requireNotFound (a_GetPublishedRuleByID A ''draft'' None s)
          else do {
            (got, s) \<leftarrow> requireNoErr (a_GetPublishedRuleByID A ''draft'' None s);
            check (rule_version got = 2) s
          });
     requireNotFound (a_GetPublishedRuleByID A ''unknown'' None s)
   }"

section \<open>Groups: pauses, signals, awaited events\<close>

fun pause_extra :: "'db store_api \<Rightarrow> gotime \<Rightarrow> nat \<Rightarrow> 'db bench \<Rightarrow> 'db bench option" where
  "pause_extra A wakeup 0 s = Some s"
| "pause_extra A wakeup (Suc n) s = do {
     (r, s) \<leftarrow> seedRun A ''wf'' s;
     (_, s) \<leftarrow> requireNoErr (a_SetPausedWithWakeup A (run_id r) wakeup s);
     pause_extra A wakeup n s
   }"

definition testPauseWakeup :: "'db store_api \<Rightarrow> 'db bench \<Rightarrow> 'db bench option" where
  "testPauseWakeup A s = do {
     (run, s) \<leftarrow> seedRun A ''wf'' s;
     let (now, s) = now_utc s;
     let wakeup = now + minute;
     (_, s) \<leftarrow> requireNoErr (a_SetPausedWithWakeup A (run_id run) wakeup s);
     (got, s) \<leftarrow> requireNoErr (a_GetRun A (run_id run) s);
     s \<leftarrow> check (run_state got = RunStatePaused \<and> run_wakeup_at got = Some wakeup) s;
     (ids, s) \<leftarrow> requireNoErr (a_FindRunsByDueWakeup A (wakeup + second_ns) 10 s);
     s \<leftarrow> check (containsID ids (run_id run)) s;
     (ids, s) \<leftarrow> requireNoErr (a_FindRunsByDueWakeup A (wakeup - minute) 10 s);
     s \<leftarrow> check (\<not> containsID ids (run_id run)) s;
     s \<leftarrow> pause_extra A wakeup 3 s;
     (limited, s) \<leftarrow> requireNoErr (a_FindRunsByDueWakeup A (wakeup + second_ns) 2 s);
     check (length limited \<le> 2) s
   }"

definition testSignals :: "'db store_api \<Rightarrow> 'db bench \<Rightarrow> 'db bench option" where
  "testSignals A s = do {
     (run, s) \<leftarrow> seedRun A ''wf'' s;
     (_, s) \<leftarrow> requireNoErr (a_SetPausedAwaitingSignal A (run_id run) ''go'' None s);
     (got, s) \<leftarrow> requireNoErr (a_GetRun A (run_id run) s);
     s \<leftarrow> check (run_state got = RunStatePaused \<and> run_awaited_signal got = Some ''go'') s;
     (ok, s) \<leftarrow> requireNoErr (a_TryConsumeAwaitedSignal A (run_id run) ''nope'' s);
     s \<leftarrow> check (\<not> ok) s;
     (ok, s) \<leftarrow> requireNoErr (a_TryConsumeAwaitedSignal A (run_id run) ''go'' s);
     s \<leftarrow> check ok s;
     (got, s) \<leftarrow> requireNoErr (a_GetRun A (run_id run) s);
     s \<leftarrow> check (run_awaited_signal got = None) s;
     (ok, s) \<leftarrow> requireNoErr (a_TryConsumeAwaitedSignal A (run_id run) ''go'' s);
     s \<leftarrow> check (\<not> ok) s;
     let (i, s) = new_id s; let (now, s) = now_utc s;
     (_, s) \<leftarrow> requireNoErr (a_AppendSignal A \<lparr>sig_id = i, sig_run_id = run_id run, sig_name = ''go'',
       sig_payload = [], sig_received_at = now, sig_consumed_at = None\<rparr> s);
     Some s
   }"

definition testAwaitedEvent :: "'db store_api \<Rightarrow> 'db bench \<Rightarrow> 'db bench option" where
  "testAwaitedEvent A s = do {
     (run, s) \<leftarrow> seedRun A ''wf'' s;
     (_, s) \<leftarrow> requireNoErr (a_SetPausedAwaitingEvent A (run_id run) ''topic'' [(''k'', ''v'')] s);
     (got, s) \<leftarrow> requireNoErr (a_GetRun A (run_id run) s);
     s \<leftarrow> check (run_state got = RunStatePaused) s;
     (rs, s) \<leftarrow> requireNoErr (a_FindRunsByAwaitedEvent A ''topic'' s);
     s \<leftarrow> check (containsRun rs (run_id run)) s;
     (others, s) \<leftarrow> requireNoErr (a_FindRunsByAwaitedEvent A ''other'' s);
     s \<leftarrow> check (\<not> containsRun others (run_id run)) s;
     (run2, s) \<leftarrow> seedRun A ''wf'' s;
     let (now, s) = now_utc s;
     let deadline = now + hour;
     (_, s) \<leftarrow> requireNoErr (a_SetPausedAwaitingEventWithDeadline A (run_id run2) ''topic2'' [(''a'', ''b'')] (Some deadline) s);
     (got2, s) \<leftarrow> requireNoErr (a_GetRun A (run_id run2) s);
     check (run_wakeup_at got2 = Some deadline) s
   }"

text \<open>No wait marker is left.\<close>

definition unmarked :: "saga_run \<Rightarrow> bool" where
  "unmarked r \<longleftrightarrow> run_wakeup_at r = None \<and> run_awaited_signal r = None \<and> run_awaited_event_topic r = None
     \<and> run_awaited_event_headers r = []"

definition testClearAndWake :: "'db store_api \<Rightarrow> 'db bench \<Rightarrow> 'db bench option" where
  "testClearAndWake A s = do {
     (run, s) \<leftarrow> seedRun A ''wf'' s;
     let (now, s) = now_utc s;
     (_, s) \<leftarrow> requireNoErr (a_SetPausedAwaitingEventWithDeadline A (run_id run) ''topic'' [(''k'', ''v'')] (Some (now + hour)) s);
     (_, s) \<leftarrow> requireNoErr (a_ClearPause A (run_id run) s);
     (got, s) \<leftarrow> requireNoErr (a_GetRun A (run_id run) s);
     s \<leftarrow> check (run_state got = RunStateRunning \<and> unmarked got) s;
     let (other, s) = new_id s;
     s \<leftarrow> requireNotFound (a_ClearPause A other s);
     (run2, s) \<leftarrow> seedRun A ''wf'' s;
     let (now, s) = now_utc s;
     (_, s) \<leftarrow> requireNoErr (a_SetPausedAwaitingSignal A (run_id run2) ''go'' (Some (now + hour)) s);
     (_, s) \<leftarrow> requireNoErr (a_WakeFromExternal A (run_id run2) s);
     (got2, s) \<leftarrow> requireNoErr (a_GetRun A (run_id run2) s);
     s \<leftarrow> check (run_state got2 = RunStatePaused \<and> unmarked got2) s;
     let (other, s) = new_id s;
     requireNotFound (a_WakeFromExternal A other s)
   }"

section \<open>Groups: child runs, try blocks, user tasks\<close>

definition testChildRuns :: "'db store_api \<Rightarrow> 'db bench \<Rightarrow> 'db bench option" where
  "testChildRuns A s = do {
     (parent, s) \<leftarrow> seedRun A ''wf-parent'' s;
     let childDef = seedDef ''wf-child'' 1 True;
     (_, s) \<leftarrow> requireNoErr (a_UpsertWorkflowDefinition A childDef s);
     (childID, s) \<leftarrow> requireNoErr (a_SpawnChildRun A (run_id parent) ''stepA'' ''b0'' childDef [(''in'', VInt 1)] s);
     (child, s) \<leftarrow> requireNoErr (a_GetRun A childID s);
     s \<leftarrow> check (run_parent_run_id child = Some (run_id parent)) s;
     s \<leftarrow> check (run_parent_step_id child = Some ''stepA'') s;
     (_, s) \<leftarrow> requireNoErr (a_SpawnChildRun A (run_id parent) ''stepB'' ''b0'' childDef [] s);
     (children, s) \<leftarrow> requireNoErr (a_ListChildrenByParent A (run_id parent) ''stepA'' s);
     s \<leftarrow> check (map run_id children = [childID]) s;
     (atID, s) \<leftarrow> requireNoErr (a_SpawnChildRunAt A (run_id parent) ''stepC'' ''b0'' childDef [] ''startStep'' s);
     (placed, s) \<leftarrow> requireNoErr (a_GetRun A atID s);
     check (run_current_step placed = ''startStep'') s
   }"

fun push_frames :: "'db store_api \<Rightarrow> uuid \<Rightarrow> nat list \<Rightarrow> 'db bench \<Rightarrow> 'db bench option" where
  "push_frames A i [] s = Some s"
| "push_frames A i (n # ns) s = do {
     (_, s) \<leftarrow> requireNoErr (a_PushTryCatch A i \<lparr>frame_step_id = frameID ''t'' n, frame_catch_step = frameID ''c'' n\<rparr> s);
     push_frames A i ns s
   }"

definition testTryCatch :: "'db store_api \<Rightarrow> 'db bench \<Rightarrow> 'db bench option" where
  "testTryCatch A s = do {
     (run, s) \<leftarrow> seedRun A ''wf'' s;
     s \<leftarrow> push_frames A (run_id run) [1, 2, 3] s;
     s \<leftarrow> (case a_PushTryCatch A (run_id run) \<lparr>frame_step_id = ''t4'', frame_catch_step = ''c4''\<rparr> s of
            (Inr _, _) \<Rightarrow> None | (Inl _, s) \<Rightarrow> Some s);
     (f, s) \<leftarrow> requireNoErr (a_PopTryCatch A (run_id run) s);
     s \<leftarrow> check (map_option frame_step_id f = Some ''t3'') s;
     (f, s) \<leftarrow> requireNoErr (a_PopTryCatch A (run_id run) s);
     s \<leftarrow> check (map_option frame_step_id f = Some ''t2'') s;
     (f, s) \<leftarrow> requireNoErr (a_PopTryCatch A (run_id run) s);
     s \<leftarrow> check (f \<noteq> None) s;
     (zero, s) \<leftarrow> requireNoErr (a_PopTryCatch A (run_id run) s);
     s \<leftarrow> check (zero = None) s;
     let (other, s) = new_id s;
     s \<leftarrow> requireNotFound (a_PushTryCatch A other \<lparr>frame_step_id = ''x'', frame_catch_step = []\<rparr> s);
     let (other, s) = new_id s;
     requireNotFound (a_PopTryCatch A other s)
   }"

definition testUserTasks :: "'db store_api \<Rightarrow> 'db bench \<Rightarrow> 'db bench option" where
  "testUserTasks A s = do {
     (run, s) \<leftarrow> seedRun A ''wf'' s;
     let (i, s) = new_id s;
     let task = blank_task\<lparr>task_id := i, task_run_id := run_id run, task_step_id := ''approve'', task_assignee := ''bob''\<rparr>;
     (_, s) \<leftarrow> requireNoErr (a_CreateUserTask A task s);
     (got, s) \<leftarrow> requireNoErr (a_GetUserTask A i s);
     s \<leftarrow> check (task_id got = i \<and> task_assignee got = ''bob'') s;
     let (other, s) = new_id s;
     s \<leftarrow> requireNotFound (a_GetUserTask A other s);
     (_, s) \<leftarrow> requireNoErr (a_SubmitUserTask A i ''alice'' [(''vote'', VStr ''approve'')] s);
     (got, s) \<leftarrow> requireNoErr (a_GetUserTask A i s);
     s \<leftarrow> check (task_submitted_at got \<noteq> None \<and> task_submitted_by got = ''alice''
            \<and> map_of (task_result got) ''vote'' = Some (VStr ''approve'')) s;
     let (other, s) = new_id s;
     s \<leftarrow> requireNotFound (a_SubmitUserTask A other ''x'' [] s);
     let (i2, s) = new_id s;
     (_, s) \<leftarrow> requireNoErr (a_CreateUserTask A (blank_task\<lparr>task_id := i2, task_run_id := run_id run,
       task_step_id := ''approve2'', task_assignee := ''carol''\<rparr>) s);
     (otherRun, s) \<leftarrow> seedRun A ''wf'' s;
     let (i3, s) = new_id s;
     (_, s) \<leftarrow> requireNoErr (a_CreateUserTask A (blank_task\<lparr>task_id := i3, task_run_id := run_id otherRun,
       task_step_id := ''x'', task_assignee := ''dan''\<rparr>) s);
     (tasks, s) \<leftarrow> requireNoErr (a_ListUserTasksByRun A (run_id run) s);
     check (length tasks = 2 \<and> list_all (\<lambda>t. task_run_id t = run_id run) tasks) s
   }"

section \<open>Groups: cancelled and failed runs\<close>

definition testRunCancel :: "'db store_api \<Rightarrow> 'db bench \<Rightarrow> 'db bench option" where
  "testRunCancel A s = do {
     (run, s) \<leftarrow> seedRun A ''wf'' s;
     let (now, s) = now_utc s;
     (_, s) \<leftarrow> requireNoErr (a_SetPausedAwaitingSignal A (run_id run) ''approve'' (Some (now + hour)) s);
     let (i, s) = new_id s;
     (_, s) \<leftarrow> requireNoErr (a_CreateUserTask A (blank_task\<lparr>task_id := i, task_run_id := run_id run,
       task_step_id := ''approve'', task_assignee := ''bob''\<rparr>) s);
     (_, s) \<leftarrow> requireNoErr (a_Cancel A (run_id run) ''withdrawn'' s);
     (got, s) \<leftarrow> requireNoErr (a_GetRun A (run_id run) s);
     s \<leftarrow> check (run_state got = RunStateCancelled \<and> run_terminal_at got \<noteq> None
            \<and> run_last_error got = Some ''withdrawn'') s;
     s \<leftarrow> check (run_awaited_signal got = None \<and> run_wakeup_at got = None) s;
     (gotTask, s) \<leftarrow> requireNoErr (a_GetUserTask A i s);
     s \<leftarrow> check (task_submitted_at gotTask \<noteq> None) s;
     (_, s) \<leftarrow> requireNoErr (a_Cancel A (run_id run) ''again'' s);
     (got2, s) \<leftarrow> requireNoErr (a_GetRun A (run_id run) s);
     s \<leftarrow> check (run_last_error got2 = Some ''withdrawn'') s;
     let (other, s) = new_id s;
     requireNotFound (a_Cancel A other ''x'' s)
   }"

definition testMarkRunFailed :: "'db store_api \<Rightarrow> 'db bench \<Rightarrow> 'db bench option" where
  "testMarkRunFailed A s = do {
     (run, s) \<leftarrow> seedRun A ''wf'' s;
     (_, s) \<leftarrow> requireNoErr (a_MarkRunFailed A (run_id run) ''charge'' ''card declined'' s);
     (got, s) \<leftarrow> requireNoErr (a_GetRun A (run_id run) s);
     s \<leftarrow> check (run_state got = RunStateFailed \<and> run_terminal_at got \<noteq> None
            \<and> run_last_error got = Some ''card declined'' \<and> run_current_step got = ''charge'') s;
     (_, s) \<leftarrow> requireNoErr (a_MarkRunFailed A (run_id run) ''other'' ''second error'' s);
     (got2, s) \<leftarrow> requireNoErr (a_GetRun A (run_id run) s);
     s \<leftarrow> check (run_last_error got2 = Some ''card declined'') s;
     let (other, s) = new_id s;
     requireNotFound (a_MarkRunFailed A other ''s'' ''e'' s)
   }"

section \<open>Groups: actions and triggers\<close>

definition registration :: "string \<Rightarrow> string \<Rightarrow> string \<Rightarrow> action_registration" where
  "registration service name category =
     blank_registration\<lparr>reg_service := service, reg_action_name := name, reg_version := 1, reg_category := category\<rparr>"

definition testActionRegistry :: "'db store_api \<Rightarrow> 'db bench \<Rightarrow> 'db bench option" where
  "testActionRegistry A s = do {
     (_, s) \<leftarrow> requireNoErr (a_UpsertActionRegistration A ((registration ''svc1'' ''create_order'' ''orders'')
       \<lparr>reg_transport := ''http'', reg_address := ''https://svc1.local/create_order''\<rparr>) s);
     (_, s) \<leftarrow> requireNoErr (a_UpsertActionRegistration A (registration ''svc1'' ''cancel_order'' ''orders'') s);
     (_, s) \<leftarrow> requireNoErr (a_UpsertActionRegistration A ((registration ''svc2'' ''send_email'' ''comms'')
       \<lparr>reg_transport := ''rmq'', reg_address := ''svc2.send_email.q''\<rparr>) s);
     (got, s) \<leftarrow> requireNoErr (a_GetAction A ''svc1'' ''create_order'' 1 s);
     s \<leftarrow> check (reg_service got = ''svc1'' \<and> reg_action_name got = ''create_order'') s;
     s \<leftarrow> check (reg_transport got = ''http'' \<and> reg_address got = ''https://svc1.local/create_order'') s;
     (plain, s) \<leftarrow> requireNoErr (a_GetAction A ''svc1'' ''cancel_order'' 1 s);
     s \<leftarrow> check (reg_transport plain = [] \<and> reg_address plain = []) s;
     s \<leftarrow> requireNotFound (a_GetAction A ''svc1'' ''missing'' 1 s);
     (all, s) \<leftarrow> requireNoErr (a_ListActions A any_action s);
     s \<leftarrow> check (length all = 3) s;
     (bySvc, s) \<leftarrow> requireNoErr (a_ListActions A (any_action\<lparr>afilter_service := ''svc1''\<rparr>) s);
     s \<leftarrow> check (length bySvc = 2) s;
     (byCat, s) \<leftarrow> requireNoErr (a_ListActions A (any_action\<lparr>afilter_category := ''comms''\<rparr>) s);
     s \<leftarrow> check (map reg_action_name byCat = [''send_email'']) s;
     (bySearch, s) \<leftarrow> requireNoErr (a_ListActions A (any_action\<lparr>afilter_search := ''order''\<rparr>) s);
     s \<leftarrow> check (length bySearch = 2) s;
     (caseSensitive, s) \<leftarrow> requireNoErr (a_ListActions A (any_action\<lparr>afilter_search := ''ORDER''\<rparr>) s);
     check (caseSensitive = []) s
   }"

definition testActionDispatch :: "'db store_api \<Rightarrow> 'db bench \<Rightarrow> 'db bench option" where
  "testActionDispatch A s = do {
     (run, s) \<leftarrow> seedRun A ''wf'' s;
     (_, s) \<leftarrow> requireNoErr (a_MarkAwaitingAction A (run_id run) ''svc.name'' 1 s);
     (got, s) \<leftarrow> requireNoErr (a_GetRun A (run_id run) s);
     s \<leftarrow> check (run_state got = RunStatePaused \<and> run_current_attempt got = 1) s;
     (_, s) \<leftarrow> requireNoErr (a_MarkAwaitingAction A (run_id run) ''svc.name'' 1 s);
     (got, s) \<leftarrow> requireNoErr (a_GetRun A (run_id run) s);
     s \<leftarrow> check (run_current_attempt got = 1) s;
     (_, s) \<leftarrow> requireNoErr (a_CompleteAction A (run_id run) 1 [(''k'', VStr ''v'')] s);
     (got, s) \<leftarrow> requireNoErr (a_GetRun A (run_id run) s);
     s \<leftarrow> check (map_of (run_variables got) ''k'' = Some (VStr ''v'')) s;
     (run2, s) \<leftarrow> seedRun A ''wf'' s;
     (_, s) \<leftarrow> requireNoErr (a_MarkAwaitingAction A (run_id run2) ''svc.name'' 1 s);
     (_, s) \<leftarrow> requireNoErr (a_CompleteAction A (run_id run2) 99 [(''late'', VBool True)] s);
     (got2, s) \<leftarrow> requireNoErr (a_GetRun A (run_id run2) s);
     s \<leftarrow> check (or_default (map_of (run_variables got2) ''late'') VNil = VNil) s;
     let (other, s) = new_id s;
     s \<leftarrow> requireNotFound (a_CompleteAction A other 1 [] s);
     (run3, s) \<leftarrow> seedRun A ''wf'' s;
     (_, s) \<leftarrow> requireNoErr (a_MarkAwaitingAction A (run_id run3) ''svc.name'' 1 s);
     (_, s) \<leftarrow> requireNoErr (a_FailAction A (run_id run3) 1 ''code'' ''msg'' False s);
     (got3, s) \<leftarrow> requireNoErr (a_GetRun A (run_id run3) s);
     s \<leftarrow> check (run_state got3 = RunStateFailed) s;
     (evts, s) \<leftarrow> requireNoErr (a_ListEventsByRun A (run_id run3) s);
     s \<leftarrow> check (hasEventType evts EventStepFailed) s;
     (run4, s) \<leftarrow> seedRun A ''wf'' s;
     (_, s) \<leftarrow> requireNoErr (a_MarkAwaitingAction A (run_id run4) ''svc.name'' 1 s);
     (_, s) \<leftarrow> requireNoErr (a_FailAction A (run_id run4) 99 ''code'' ''msg'' False s);
     (got4, s) \<leftarrow> requireNoErr (a_GetRun A (run_id run4) s);
     s \<leftarrow> check (run_state got4 \<noteq> RunStateFailed) s;
     let (other, s) = new_id s;
     requireNotFound (a_FailAction A other 1 ''c'' ''m'' False s)
   }"

definition testTriggers :: "'db store_api \<Rightarrow> 'db bench \<Rightarrow> 'db bench option" where
  "testTriggers A s = do {
     let (tenant, s) = new_id s;
     (i, s) \<leftarrow> requireNoErr (a_UpsertTrigger A (blank_trigger\<lparr>trig_type := TriggerRecordTransition,
       trig_workflow_id := ''wf'', trig_enabled := True, trig_tenant_id := Some tenant\<rparr>) s);
     s \<leftarrow> check (i \<noteq> uuid_Nil) s;
     (got, s) \<leftarrow> requireNoErr (a_GetTrigger A i s);
     s \<leftarrow> check (trig_workflow_id got = ''wf'' \<and> trig_type got = TriggerRecordTransition) s;
     let (other, s) = new_id s;
     s \<leftarrow> requireNotFound (a_GetTrigger A other s);
     let (otherTenant, s) = new_id s;
     (_, s) \<leftarrow> requireNoErr (a_UpsertTrigger A (blank_trigger\<lparr>trig_type := TriggerRecordTransition,
       trig_workflow_id := ''wf2'', trig_tenant_id := Some otherTenant\<rparr>) s);
     (byType, s) \<leftarrow> requireNoErr (a_ListTriggers A (any_trigger\<lparr>tfilter_type := Some TriggerRecordTransition\<rparr>) s);
     s \<leftarrow> check (length byType = 2) s;
     (byEnabled, s) \<leftarrow> requireNoErr (a_ListTriggers A (any_trigger\<lparr>tfilter_enabled := Some True\<rparr>) s);
     s \<leftarrow> check (map trig_id byEnabled = [i]) s;
     (byTenant, s) \<leftarrow> requireNoErr (a_ListTriggers A (any_trigger\<lparr>tfilter_tenant_id := Some tenant\<rparr>) s);
     s \<leftarrow> check (map trig_id byTenant = [i]) s;
     (_, s) \<leftarrow> requireNoErr (a_DeleteTrigger A i s);
     s \<leftarrow> requireNotFound (a_GetTrigger A i s);
     let (other, s) = new_id s;
     requireNotFound (a_DeleteTrigger A other s)
   }"

section \<open>Groups: queries\<close>

definition make_run ::
  "'db store_api \<Rightarrow> string \<Rightarrow> run_state \<Rightarrow> gotime \<Rightarrow> 'db bench \<Rightarrow> (saga_run \<times> 'db bench) option" where
  "make_run A name state startedAt s = do {
     (r, s) \<leftarrow> newRun A name s;
     Some (r\<lparr>run_state := state, run_started_at := startedAt, run_last_event_at := startedAt\<rparr>, s)
   }"

fun create_runs :: "'db store_api \<Rightarrow> saga_run list \<Rightarrow> 'db bench \<Rightarrow> 'db bench option" where
  "create_runs A [] s = Some s"
| "create_runs A (r # rs) s = do {
     (_, s) \<leftarrow> requireNoErr (a_CreateRun A r s);
     create_runs A rs s
   }"

definition testListRuns :: "'db store_api \<Rightarrow> 'db bench \<Rightarrow> 'db bench option" where
  "testListRuns A s = do {
     let (now, s) = now_utc s;
     (a1, s) \<leftarrow> make_run A ''wf-a'' RunStateSucceeded (now - minute) s;
     (a2, s) \<leftarrow> make_run A ''wf-a'' RunStateRunning (now - 2 * minute) s;
     (a3, s) \<leftarrow> make_run A ''wf-a'' RunStateFailed (now - 3 * minute) s;
     (b1, s) \<leftarrow> make_run A ''wf-b'' RunStateSucceeded (now - 30 * minute) s;
     s \<leftarrow> create_runs A [a1, a2, a3, b1] s;
     (rs, s) \<leftarrow> requireNoErr (a_ListRuns A (any_run\<lparr>rfilter_workflow_id := ''wf-a''\<rparr>) s);
     s \<leftarrow> check (length rs = 3 \<and> list_all (\<lambda>r. run_workflow_id r = ''wf-a'') rs) s;
     s \<leftarrow> check (sorted_wrt (\<ge>) (map run_started_at rs)) s;
     (failed, s) \<leftarrow> requireNoErr (a_ListRuns A (any_run\<lparr>rfilter_state := ''failed''\<rparr>) s);
     s \<leftarrow> check (map run_id failed = [run_id a3]) s;
     (recent, s) \<leftarrow> requireNoErr (a_ListRuns A (any_run\<lparr>rfilter_since := Some (now - 10 * minute)\<rparr>) s);
     s \<leftarrow> check (length recent = 3) s;
     (page1, s) \<leftarrow> requireNoErr (a_ListRuns A (any_run\<lparr>rfilter_workflow_id := ''wf-a'', rfilter_limit := 2\<rparr>) s);
     (page2, s) \<leftarrow> requireNoErr (a_ListRuns A (any_run\<lparr>rfilter_workflow_id := ''wf-a'', rfilter_limit := 2,
       rfilter_offset := 2\<rparr>) s);
     s \<leftarrow> check (length page1 = 2 \<and> length page2 = 1) s;
     (deflt, s) \<leftarrow> requireNoErr (a_ListRuns A any_run s);
     s \<leftarrow> check (length deflt = 4) s;
     (count, s) \<leftarrow> requireNoErr (a_CountRuns A (any_run\<lparr>rfilter_workflow_id := ''wf-a'', rfilter_limit := 1,
       rfilter_offset := 1\<rparr>) s);
     check (count = 3) s
   }"

definition testListRunsNullCurrentStep :: "'db store_api \<Rightarrow> 'db bench \<Rightarrow> 'db bench option" where
  "testListRunsNullCurrentStep A s = do {
     (nullStep, s) \<leftarrow> newRun A ''wf-nullstep'' s;
     (_, s) \<leftarrow> requireNoErr (a_CreateRun A nullStep s);
     (withStep, s) \<leftarrow> newRun A ''wf-nullstep'' s;
     (_, s) \<leftarrow> requireNoErr (a_CreateRun A (withStep\<lparr>run_state := RunStateRunning, run_current_step := ''step1''\<rparr>) s);
     (rs, s) \<leftarrow> requireNoErr (a_ListRuns A (any_run\<lparr>rfilter_workflow_id := ''wf-nullstep''\<rparr>) s);
     s \<leftarrow> check (length rs = 2) s;
     s \<leftarrow> check (list_all (\<lambda>r. run_id r = run_id nullStep \<longrightarrow> run_current_step r = []) rs) s;
     check (containsRun rs (run_id nullStep)) s
   }"

fun seed_stats :: "'db store_api \<Rightarrow> (run_state \<times> gotime) list \<Rightarrow> 'db bench \<Rightarrow> 'db bench option" where
  "seed_stats A [] s = Some s"
| "seed_stats A ((state, t) # xs) s = do {
     (r, s) \<leftarrow> make_run A ''wf-stat'' state t s;
     (_, s) \<leftarrow> requireNoErr (a_CreateRun A r s);
     seed_stats A xs s
   }"

definition testStats :: "'db store_api \<Rightarrow> 'db bench \<Rightarrow> 'db bench option" where
  "testStats A s = do {
     let (now, s) = now_utc s;
     s \<leftarrow> seed_stats A [(RunStateSucceeded, now - hour), (RunStateSucceeded, now - 2 * hour),
       (RunStateSucceeded, now - 3 * hour), (RunStateFailed, now - 4 * hour),
       (RunStateRunning, now - 10 * minute), (RunStatePaused, now - 20 * minute),
       (RunStateSucceeded, now - 30 * hour)] s;
     (stats, s) \<leftarrow> requireNoErr (a_StatsForWorkflow A ''wf-stat'' s);
     s \<leftarrow> check (stats_workflow_id stats = ''wf-stat'' \<and> stats_in_flight stats = 2) s;
     s \<leftarrow> (case stats_success_rate stats of None \<Rightarrow> None
          | Some rate \<Rightarrow> check (\<bar>rate - 3 / 4\<bar> \<le> 1 / 1000) s);
     s \<leftarrow> check (stats_last_run_at stats = Some (now - 10 * minute)) s;
     (none, s) \<leftarrow> requireNoErr (a_StatsForWorkflow A ''no-such-wf'' s);
     check (stats_success_rate none = None \<and> stats_last_run_at none = None \<and> stats_in_flight none = 0) s
   }"

section \<open>The suite\<close>

text \<open>Each group gets a store of its own.\<close>

definition suite_groups :: "bool \<Rightarrow> (string \<times> ('db store_api \<Rightarrow> 'db bench \<Rightarrow> 'db bench option)) list" where
  "suite_groups publishedOnly =
     [(''Definitions'', testDefinitions), (''ListDefinitions'', testListDefinitions),
      (''PublishedWorkflow'', testPublishedWorkflow publishedOnly), (''Runs'', testRuns),
      (''RunState'', testRunState), (''RunVariables'', testRunVariables), (''Events'', testEvents),
      (''Rules'', testRules publishedOnly), (''PauseWakeup'', testPauseWakeup), (''Signals'', testSignals),
      (''AwaitedEvent'', testAwaitedEvent), (''ClearAndWake'', testClearAndWake),
      (''ChildRuns'', testChildRuns), (''TryCatch'', testTryCatch), (''UserTasks'', testUserTasks),
      (''RunCancel'', testRunCancel), (''MarkRunFailed'', testMarkRunFailed),
      (''ActionRegistry'', testActionRegistry), (''ActionDispatch'', testActionDispatch),
      (''Triggers'', testTriggers), (''ListRuns'', testListRuns),
      (''ListRunsNullCurrentStep'', testListRunsNullCurrentStep), (''Stats'', testStats)]"

definition fresh_bench :: "(nat \<Rightarrow> uuid) \<Rightarrow> int \<Rightarrow> 'db \<Rightarrow> 'db bench" where
  "fresh_bench ids start db = \<lparr>bn_db = db, bn_ids = ids, bn_start = start, bn_drawn = 0\<rparr>"

text \<open>The first instant of 2026, in microseconds.\<close>

definition new_year :: int where "new_year = 1767225600000000"

definition RunSuite :: "bool \<Rightarrow> 'db store_api \<Rightarrow> 'db bench \<Rightarrow> (string \<times> bool) list" where
  "RunSuite publishedOnly A new = map (\<lambda>(name, group). (name, group A new \<noteq> None)) (suite_groups publishedOnly)"

section \<open>Methods of a backend\<close>

text \<open>A read, a write that may fail, and methods that draw an id or read the clock.\<close>

definition reading :: "('db \<Rightarrow> gerr + 'a) \<Rightarrow> ('a, 'db) call" where
  "reading f s = (f (bn_db s), s)"

definition listing :: "('db \<Rightarrow> 'a) \<Rightarrow> ('a, 'db) call" where
  "listing f = reading (\<lambda>db. Inr (f db))"

definition writing :: "('db \<Rightarrow> (gerr + 'a) \<times> 'db) \<Rightarrow> ('a, 'db) call" where
  "writing f s = (case f (bn_db s) of (r, db) \<Rightarrow> (r, s\<lparr>bn_db := db\<rparr>))"

definition with_id :: "(uuid \<Rightarrow> ('a, 'db) call) \<Rightarrow> ('a, 'db) call" where
  "with_id f s = (case new_id s of (i, s) \<Rightarrow> f i s)"

definition with_now :: "(gotime \<Rightarrow> ('a, 'db) call) \<Rightarrow> ('a, 'db) call" where
  "with_now f s = (case now_utc s of (t, s) \<Rightarrow> f t s)"

text \<open>The shapes in which the models of the methods answer.\<close>

definition finished :: "'db \<Rightarrow> (gerr + unit) \<times> 'db" where
  "finished db = (Inr (), db)"

definition of_write :: "('db \<Rightarrow> gerr + 'db) \<Rightarrow> 'db \<Rightarrow> (gerr + unit) \<times> 'db" where
  "of_write f db = (case f db of Inl err \<Rightarrow> (Inl err, db) | Inr db' \<Rightarrow> (Inr (), db'))"

definition of_answer :: "gerr option \<times> 'db \<Rightarrow> (gerr + unit) \<times> 'db" where
  "of_answer r = (case r of (None, db) \<Rightarrow> (Inr (), db) | (Some err, db) \<Rightarrow> (Inl err, db))"

definition no_error :: "'a \<times> 'db \<Rightarrow> (gerr + 'a) \<times> 'db" where
  "no_error r = (case r of (x, db) \<Rightarrow> (Inr x, db))"

section \<open>Evaluating the suite\<close>

text \<open>
  The suite is evaluated by rewriting, call by call: the state is a literal record at every
  call, and the congruence rules keep the simplifier out of the checks that come later.
\<close>

named_theorems suite_eval

lemma bench_calls [suite_eval]:
  fixes d f t n defines "s \<equiv> \<lparr>bn_db = d, bn_ids = f, bn_start = t, bn_drawn = n\<rparr>"
  shows "new_id s = (f (nat n), \<lparr>bn_db = d, bn_ids = f, bn_start = t, bn_drawn = n + 1\<rparr>)"
    "now_utc s = (1000 * (t + n), \<lparr>bn_db = d, bn_ids = f, bn_start = t, bn_drawn = n + 1\<rparr>)"
    "reading g s = (g d, s)" "listing l s = (Inr (l d), s)"
    "writing h s = (let p = h d in (fst p, \<lparr>bn_db = snd p, bn_ids = f, bn_start = t, bn_drawn = n\<rparr>))"
    "with_id c s = c (f (nat n)) \<lparr>bn_db = d, bn_ids = f, bn_start = t, bn_drawn = n + 1\<rparr>"
    "with_now e s = e (1000 * (t + n)) \<lparr>bn_db = d, bn_ids = f, bn_start = t, bn_drawn = n + 1\<rparr>"
  by (auto simp: s_def new_id_def now_utc_def reading_def listing_def writing_def with_id_def with_now_def split_beta Let_def)

lemma require_pairs [suite_eval]:
  "requireNoErr (Inr x, s) = Some (x, s)" "requireNoErr (Inl err, s) = None"
  "requireNotFound (Inl err, s) = (if is_not_found err then Some s else None)"
  "requireNotFound (Inr x, s) = None"
  by (simp_all add: requireNoErr_def requireNotFound_def)

lemma frame_digits [suite_eval]:
  "show_nat (Suc 0) = ''1''" "show_nat 2 = ''2''" "show_nat 3 = ''3''"
  by code_simp+

lemma pause_three [suite_eval]: "pause_extra A wakeup 3 s = pause_extra A wakeup (Suc (Suc (Suc 0))) s"
  by (simp only: numeral_3_eq_3)

declare Let_def [suite_eval]
  finished_def [suite_eval] of_write_def [suite_eval] of_answer_def [suite_eval]
  no_error_def [suite_eval] fresh_bench_def [suite_eval] 
  check_def [suite_eval] sameNumber_def [suite_eval] seedDef_def [suite_eval]
  newRun_def [suite_eval] seedRun_def [suite_eval] decisionRule_def [suite_eval] frameID_def [suite_eval]
  containsID_def [suite_eval] containsRun_def [suite_eval] hasEventType_def [suite_eval]
  any_definition_def [suite_eval] any_run_def [suite_eval] any_action_def [suite_eval]
  any_trigger_def [suite_eval] blank_task_def [suite_eval] blank_trigger_def [suite_eval]
  blank_registration_def [suite_eval] minute_def [suite_eval] hour_def [suite_eval] unmarked_def [suite_eval]
  registration_def [suite_eval] make_run_def [suite_eval] blank_step_def [suite_eval] blank_def_def [suite_eval]
  NewSagaRun_def [suite_eval] NewEvent_def [suite_eval] NewRuleDefinition_def [suite_eval]

declare testDefinitions_def [suite_eval] testListDefinitions_def [suite_eval] testPublishedWorkflow_def [suite_eval]
  testRuns_def [suite_eval] testRunState_def [suite_eval] testRunVariables_def [suite_eval]
  testEvents_def [suite_eval] testRules_def [suite_eval] testPauseWakeup_def [suite_eval]
  testSignals_def [suite_eval] testAwaitedEvent_def [suite_eval] testClearAndWake_def [suite_eval]
  testChildRuns_def [suite_eval] testTryCatch_def [suite_eval] testUserTasks_def [suite_eval]
  testRunCancel_def [suite_eval] testMarkRunFailed_def [suite_eval] testActionRegistry_def [suite_eval]
  testActionDispatch_def [suite_eval] testTriggers_def [suite_eval] testListRuns_def [suite_eval]
  testListRunsNullCurrentStep_def [suite_eval] testStats_def [suite_eval]

lemma weak_congs:
  "x = y \<Longrightarrow> Option.bind x g = Option.bind y g"
  "p = q \<Longrightarrow> case_prod h p = case_prod h q"
  "xs = ys \<Longrightarrow> filter P xs = filter P ys"
  "xs = ys \<Longrightarrow> List.map k xs = List.map k ys"
  "xs = ys \<Longrightarrow> find P xs = find P ys"
  "a = b \<Longrightarrow> us = vs \<Longrightarrow> foldl f a us = foldl f b vs"
  "ms = ns \<Longrightarrow> insertion_sort lt' ms = insertion_sort lt' ns"
  "v = w \<Longrightarrow> ws = zs \<Longrightarrow> sink lt v ws = sink lt w zs"
  by simp_all

lemma closed_congs:
  "reading f0 = reading f0" "listing f1 = listing f1" "writing f2 = writing f2"
  "with_id f3 = with_id f3" "with_now f4 = with_now f4"
  by (rule refl)+

lemmas suite_unfold = RunSuite_def suite_groups_def list.map list.pred_inject prod.case snd_conv

lemmas lazy = weak_congs closed_congs let_weak_cong if_weak_cong

end
