(* ===== verification/Memory_Suite.thy ===== *)
theory Memory_Suite
  imports Store_Suite
begin

text \<open>The in-memory store as a backend, and the conformance suite run on it.\<close>

definition memory_api :: "mem_store store_api" where
  "memory_api =
     \<lparr>a_UpsertWorkflowDefinition = (\<lambda>d. with_id (\<lambda>i. writing (\<lambda>db. (Inr i, UpsertWorkflowDefinition i d db)))),
      a_GetWorkflowDefinition = (\<lambda>i. reading (\<lambda>db. GetWorkflowDefinition db i)),
      a_ListWorkflowDefinitions = (\<lambda>f. listing (ListWorkflowDefinitions f)),
      a_GetPublishedWorkflowByID = (\<lambda>n t. reading (\<lambda>db. GetPublishedWorkflowByID db n)),
      a_CreateRun = (\<lambda>r. writing (\<lambda>db. finished (CreateRun r db))),
      a_GetRun = (\<lambda>i. reading (\<lambda>db. GetRun db i)),
      a_UpdateRunState = (\<lambda>i state cur. writing (of_write (UpdateRunState i state cur))),
      a_Cancel = (\<lambda>i reason. with_id (\<lambda>e. with_now (\<lambda>now. writing (of_write (Cancel now e i reason))))),
      a_MarkRunFailed = (\<lambda>i cur msg. with_now (\<lambda>now. writing (of_write (MarkRunFailed now i cur msg)))),
      a_ListRuns = (\<lambda>f. listing (ListRuns f)),
      a_CountRuns = (\<lambda>f. listing (CountRuns f)),
      a_StatsForWorkflow = (\<lambda>n. with_now (\<lambda>now. listing (StatsForWorkflow now n))),
      a_AppendEvent = (\<lambda>e. writing (\<lambda>db. finished (AppendEvent e db))),
      a_ListEventsByRun = (\<lambda>i. listing (\<lambda>db. ListEventsByRun db i)),
      a_GetEventByID = (\<lambda>i. reading (\<lambda>db. GetEventByID db i)),
      a_UpsertRuleDefinition = (\<lambda>d. with_id (\<lambda>i. writing (\<lambda>db. no_error (UpsertRuleDefinition i d db)))),
      a_GetPublishedRuleByID = (\<lambda>n t. reading (\<lambda>db. GetPublishedRuleByID db n)),
      a_UpdateRunVariables = (\<lambda>i m. writing (of_write (UpdateRunVariables i m))),
      a_SetPausedWithWakeup = (\<lambda>i t. writing (of_write (SetPausedWithWakeup i t))),
      a_SetPausedAwaitingSignal = (\<lambda>i n d. writing (of_write (SetPausedAwaitingSignal i n d))),
      a_SetPausedAwaitingEvent = (\<lambda>i n h. writing (of_write (SetPausedAwaitingEvent i n h))),
      a_SetPausedAwaitingEventWithDeadline =
        (\<lambda>i n h d. writing (of_write (SetPausedAwaitingEventWithDeadline i n h d))),
      a_ClearPause = (\<lambda>i. writing (of_write (ClearPause i))),
      a_FindRunsByDueWakeup = (\<lambda>now n. listing (FindRunsByDueWakeup now n)),
      a_FindRunsByAwaitedEvent = (\<lambda>n. listing (FindRunsByAwaitedEvent n)),
      a_TryConsumeAwaitedSignal =
        (\<lambda>i n. with_now (\<lambda>now. writing (\<lambda>db. no_error (TryConsumeAwaitedSignal now i n db)))),
      a_AppendSignal = (\<lambda>g. writing (\<lambda>db. finished (AppendSignal g db))),
      a_WakeFromExternal = (\<lambda>i. writing (of_write (WakeFromExternal i))),
      a_SpawnChildRun = (\<lambda>p ps b d m. with_id (\<lambda>di. with_id (\<lambda>ci. with_now (\<lambda>now.
        writing (\<lambda>db. (Inr ci, SpawnChildRun di ci now p ps b d m db)))))),
      a_SpawnChildRunAt = (\<lambda>p ps b d m start. with_id (\<lambda>di. with_id (\<lambda>ci. with_now (\<lambda>now.
        writing (\<lambda>db. (Inr ci, SpawnChildRunAt di ci now p ps b d m start db)))))),
      a_ListChildrenByParent = (\<lambda>p ps. listing (\<lambda>db. ListChildrenByParent db p ps)),
      a_PushTryCatch = (\<lambda>i f. writing (of_write (PushTryCatch i f))),
      a_PopTryCatch = (\<lambda>i. writing (\<lambda>db. (case PopTryCatch i db of
        Inl err \<Rightarrow> (Inl err, db) | Inr (f, db') \<Rightarrow> (Inr f, db')))),
      a_CreateUserTask = (\<lambda>t. writing (\<lambda>db. finished (CreateUserTask t db))),
      a_GetUserTask = (\<lambda>i. reading (\<lambda>db. GetUserTask db i)),
      a_SubmitUserTask = (\<lambda>i who m. with_now (\<lambda>now. writing (of_write (SubmitUserTask now i who m)))),
      a_ListUserTasksByRun = (\<lambda>i. listing (\<lambda>db. ListUserTasksByRun db i)),
      a_UpsertActionRegistration =
        (\<lambda>g. with_id (\<lambda>i. with_now (\<lambda>now. writing (\<lambda>db. finished (UpsertActionRegistration i now g db))))),
      a_ListActions = (\<lambda>f. listing (ListActions f)),
      a_GetAction = (\<lambda>service n v. reading (\<lambda>db. GetAction db service n v)),
      a_UpsertTrigger = (\<lambda>t. with_id (\<lambda>i. with_now (\<lambda>now. writing (\<lambda>db. no_error (UpsertTrigger i now t db))))),
      a_GetTrigger = (\<lambda>i. reading (\<lambda>db. GetTrigger db i)),
      a_ListTriggers = (\<lambda>f. listing (ListTriggers f)),
      a_DeleteTrigger = (\<lambda>i. writing (of_write (DeleteTrigger i))),
      a_ListDueCronTriggers = (\<lambda>now n. listing (ListDueCronTriggers now n)),
      a_ClaimCronFire = (\<lambda>i t t'. writing (\<lambda>db. no_error (ClaimCronFire i t t' db))),
      a_RecordTriggerFire = (\<lambda>t n r err. with_id (\<lambda>i. with_now (\<lambda>now.
        writing (\<lambda>db. finished (RecordTriggerFire i now t n r err db))))),
      a_MarkAwaitingAction = (\<lambda>i d a. writing (of_write (MarkAwaitingAction i d a))),
      a_CompleteAction = (\<lambda>i a m. with_now (\<lambda>now. writing (of_write (CompleteAction now i a m)))),
      a_FailAction = (\<lambda>i a code msg b. with_id (\<lambda>e. with_now (\<lambda>now.
        writing (of_write (FailAction now e i a code msg b)))))\<rparr>"

lemmas memory_call = arg_cong [OF memory_api_def]

lemmas memory_calls =
  memory_call [of a_UpsertWorkflowDefinition, simplified]
  memory_call [of a_GetWorkflowDefinition, simplified]
  memory_call [of a_ListWorkflowDefinitions, simplified]
  memory_call [of a_GetPublishedWorkflowByID, simplified] memory_call [of a_CreateRun, simplified]
  memory_call [of a_GetRun, simplified] memory_call [of a_UpdateRunState, simplified]
  memory_call [of a_Cancel, simplified] memory_call [of a_MarkRunFailed, simplified]
  memory_call [of a_ListRuns, simplified] memory_call [of a_CountRuns, simplified]
  memory_call [of a_StatsForWorkflow, simplified] memory_call [of a_AppendEvent, simplified]
  memory_call [of a_ListEventsByRun, simplified] memory_call [of a_GetEventByID, simplified]
  memory_call [of a_UpsertRuleDefinition, simplified] memory_call [of a_GetPublishedRuleByID, simplified]
  memory_call [of a_UpdateRunVariables, simplified] memory_call [of a_SetPausedWithWakeup, simplified]
  memory_call [of a_SetPausedAwaitingSignal, simplified]
  memory_call [of a_SetPausedAwaitingEvent, simplified]
  memory_call [of a_SetPausedAwaitingEventWithDeadline, simplified]
  memory_call [of a_ClearPause, simplified] memory_call [of a_FindRunsByDueWakeup, simplified]
  memory_call [of a_FindRunsByAwaitedEvent, simplified]
  memory_call [of a_TryConsumeAwaitedSignal, simplified] memory_call [of a_AppendSignal, simplified]
  memory_call [of a_WakeFromExternal, simplified] memory_call [of a_SpawnChildRun, simplified]
  memory_call [of a_SpawnChildRunAt, simplified] memory_call [of a_ListChildrenByParent, simplified]
  memory_call [of a_PushTryCatch, simplified] memory_call [of a_PopTryCatch, simplified]
  memory_call [of a_CreateUserTask, simplified] memory_call [of a_GetUserTask, simplified]
  memory_call [of a_SubmitUserTask, simplified] memory_call [of a_ListUserTasksByRun, simplified]
  memory_call [of a_UpsertActionRegistration, simplified] memory_call [of a_ListActions, simplified]
  memory_call [of a_GetAction, simplified] memory_call [of a_UpsertTrigger, simplified]
  memory_call [of a_GetTrigger, simplified] memory_call [of a_ListTriggers, simplified]
  memory_call [of a_DeleteTrigger, simplified] memory_call [of a_ListDueCronTriggers, simplified]
  memory_call [of a_ClaimCronFire, simplified] memory_call [of a_RecordTriggerFire, simplified]
  memory_call [of a_MarkAwaitingAction, simplified] memory_call [of a_CompleteAction, simplified]
  memory_call [of a_FailAction, simplified]

lemmas memory_eval = memory_calls
  New_def UpsertWorkflowDefinition_def GetWorkflowDefinition_def GetPublishedWorkflowByID_def page_def
  newer_def_def def_matches_def ListWorkflowDefinitions_def CreateRun_def GetRun_def with_run_def
  UpdateRunState_def AppendEvent_def ListEventsByRun_def GetEventByID_def close_task_def cancel_run_def
  Cancel_def MarkRunFailed_def applyDottedKey_def merge_vars_def UpdateRunVariables_def
  SetPausedWithWakeup_def SetPausedAwaitingSignal_def SetPausedAwaitingEventWithDeadline_def
  SetPausedAwaitingEvent_def ClearPause_def wakeup_due_def FindRunsByDueWakeup_def
  FindRunsByAwaitedEvent_def clear_awaits_def consume_signal_def TryConsumeAwaitedSignal_def
  WakeFromExternal_def AppendSignal_def new_child_def SpawnChildRunAt_def SpawnChildRun_def
  ListChildrenByParent_def maxDepth_def PushTryCatch_def PopTryCatch_def CreateUserTask_def GetUserTask_def
  ListUserTasksByRun_def SubmitUserTask_def UpsertActionRegistration_def action_matches_def ListActions_def
  GetAction_def MarkAwaitingAction_def put_vars_def CompleteAction_def FailAction_def
  buildTriggerTypeMap_def run_matches_def filterRuns_def started_later_def ListRuns_def CountRuns_def
  StatsForWorkflow_def UpsertRuleDefinition_def blank_rule_def GetPublishedRuleByID_def UpsertTrigger_def
  GetTrigger_def trigger_matches_def ListTriggers_def DeleteTrigger_def failed_run_def cancelled_run_def
  at_key_def insertion_sort_def insert_right_def to_lower_def

text \<open>The in-memory store passes every group, whatever ids are drawn and whenever the suite runs.\<close>

lemma memory_conforms:
  assumes "inj ids" "\<And>n. ids n \<noteq> uuid_Nil"
  shows "list_all snd (RunSuite False memory_api (fresh_bench ids start New))"
  unfolding suite_unfold
  by (intro conjI TrueI; simp add: suite_eval memory_eval inj_eq [OF assms(1)] assms(2) assms(2) [symmetric]
      cong: lazy)

text \<open>The suite tells a store that falls back to a draft from one that does not.\<close>

lemma memory_published:
  assumes "inj ids" "\<And>n. ids n \<noteq> uuid_Nil"
  shows "testPublishedWorkflow True memory_api (fresh_bench ids start New) = None"
  by (simp add: suite_eval memory_eval inj_eq [OF assms(1)] assms(2) assms(2) [symmetric]
      cong: lazy)

end
