(* ===== verification/Redis_Suite.thy ===== *)
theory Redis_Suite
  imports Store_Suite Redis_Properties
begin

text \<open>
  The Redis store as a backend of the conformance suite, with no lifetime for ended runs as in the
  package's own test, and the suite run on it.
\<close>

definition redis_api :: "rivals \<Rightarrow> redis store_api" where
  "redis_api rv =
     \<lparr>a_UpsertWorkflowDefinition = (\<lambda>d.
        with_id (\<lambda>i. writing (\<lambda>db. (Inr i, redis_UpsertWorkflowDefinition i d db)))),
      a_GetWorkflowDefinition = (\<lambda>i. reading (\<lambda>db. redis_GetWorkflowDefinition db i)),
      a_ListWorkflowDefinitions = (\<lambda>f. listing (redis_ListWorkflowDefinitions f)),
      a_GetPublishedWorkflowByID = (\<lambda>n t. reading (\<lambda>db. redis_GetPublishedWorkflowByID db n)),
      a_CreateRun = (\<lambda>r. writing (\<lambda>db. finished (redis_CreateRun r db))),
      a_GetRun = (\<lambda>i. reading (\<lambda>db. redis_GetRun db i)),
      a_UpdateRunState = (\<lambda>i state cur.
        writing (\<lambda>db. of_answer (redis_UpdateRunState 0 rv i state cur db))),
      a_Cancel = (\<lambda>i reason.
        with_id (\<lambda>e. with_now (\<lambda>now. writing (\<lambda>db. of_answer (redis_Cancel 0 rv now e i reason db))))),
      a_MarkRunFailed = (\<lambda>i cur msg.
        with_now (\<lambda>now. writing (\<lambda>db. of_answer (redis_MarkRunFailed 0 rv now i cur msg db)))),
      a_ListRuns = (\<lambda>f. listing (redis_ListRuns f)),
      a_CountRuns = (\<lambda>f. listing (redis_CountRuns f)),
      a_StatsForWorkflow = (\<lambda>n. with_now (\<lambda>now. listing (redis_StatsForWorkflow now n))),
      a_AppendEvent = (\<lambda>e. writing (\<lambda>db. finished (redis_AppendEvent e db))),
      a_ListEventsByRun = (\<lambda>i. listing (\<lambda>db. redis_ListEventsByRun db i)),
      a_GetEventByID = (\<lambda>i. reading (\<lambda>db. redis_GetEventByID db i)),
      a_UpsertRuleDefinition = (\<lambda>d. with_id (\<lambda>i. writing (redis_UpsertRuleDefinition rv i d))),
      a_GetPublishedRuleByID = (\<lambda>n t. reading (\<lambda>db. redis_GetPublishedRuleByID db n)),
      a_UpdateRunVariables = (\<lambda>i m. writing (\<lambda>db. of_answer (redis_UpdateRunVariables rv i m db))),
      a_SetPausedWithWakeup = (\<lambda>i t.
        writing (\<lambda>db. of_answer (redis_SetPausedWithWakeup rv i t db))),
      a_SetPausedAwaitingSignal = (\<lambda>i n d.
        writing (\<lambda>db. of_answer (redis_SetPausedAwaitingSignal rv i n d db))),
      a_SetPausedAwaitingEvent = (\<lambda>i n h.
        writing (\<lambda>db. of_answer (redis_SetPausedAwaitingEvent rv i n h db))),
      a_SetPausedAwaitingEventWithDeadline = (\<lambda>i n h d.
        writing (\<lambda>db. of_answer (redis_SetPausedAwaitingEventWithDeadline rv i n h d db))),
      a_ClearPause = (\<lambda>i. writing (\<lambda>db. of_answer (redis_ClearPause rv i db))),
      a_FindRunsByDueWakeup = (\<lambda>now n. listing (redis_FindRunsByDueWakeup now (nat n))),
      a_FindRunsByAwaitedEvent = (\<lambda>n. listing (redis_FindRunsByAwaitedEvent n)),
      a_TryConsumeAwaitedSignal = (\<lambda>i n.
        with_now (\<lambda>now. writing (redis_TryConsumeAwaitedSignal rv now i n))),
      a_AppendSignal = (\<lambda>g. writing (\<lambda>db. finished (redis_AppendSignal g db))),
      a_WakeFromExternal = (\<lambda>i. writing (\<lambda>db. of_answer (redis_WakeFromExternal rv i db))),
      a_SpawnChildRun = (\<lambda>p ps b d m.
        with_id (\<lambda>di. with_id (\<lambda>ci. with_now (\<lambda>now. writing (redis_SpawnChildRun rv di ci now p ps b d m))))),
      a_SpawnChildRunAt = (\<lambda>p ps b d m start.
        with_id (\<lambda>di. with_id (\<lambda>ci. with_now (\<lambda>now. writing (redis_SpawnChildRunAt rv di ci now p ps b d m start))))),
      a_ListChildrenByParent = (\<lambda>p ps. listing (\<lambda>db. redis_ListChildrenByParent db p ps)),
      a_PushTryCatch = (\<lambda>i f. writing (\<lambda>db. of_answer (redis_PushTryCatch rv i f db))),
      a_PopTryCatch = (\<lambda>i. writing (redis_PopTryCatch rv i)),
      a_CreateUserTask = (\<lambda>t. writing (\<lambda>db. finished (redis_CreateUserTask t db))),
      a_GetUserTask = (\<lambda>i. reading (\<lambda>db. redis_GetUserTask db i)),
      a_SubmitUserTask = (\<lambda>i who m.
        with_now (\<lambda>now. writing (\<lambda>db. of_answer (redis_SubmitUserTask now i who m db)))),
      a_ListUserTasksByRun = (\<lambda>i. listing (\<lambda>db. redis_ListUserTasksByRun db i)),
      a_UpsertActionRegistration = (\<lambda>g.
        with_id (\<lambda>i. with_now (\<lambda>now. writing (\<lambda>db. finished (redis_UpsertActionRegistration i now g db))))),
      a_ListActions = (\<lambda>f. listing (redis_ListActions f)),
      a_GetAction = (\<lambda>service n v. reading (\<lambda>db. redis_GetAction db service n v)),
      a_UpsertTrigger = (\<lambda>t.
        with_id (\<lambda>i. with_now (\<lambda>now. writing (\<lambda>db. no_error (redis_UpsertTrigger i now t db))))),
      a_GetTrigger = (\<lambda>i. reading (\<lambda>db. redis_GetTrigger db i)),
      a_ListTriggers = (\<lambda>f. listing (redis_ListTriggers f)),
      a_DeleteTrigger = (\<lambda>i. writing (\<lambda>db. of_answer (redis_DeleteTrigger i db))),
      a_ListDueCronTriggers = (\<lambda>now n. listing (redis_ListDueCronTriggers now n)),
      a_ClaimCronFire = (\<lambda>i t t'. with_now (\<lambda>now. writing (redis_ClaimCronFire rv now i t t'))),
      a_RecordTriggerFire = (\<lambda>t n r err.
        writing (\<lambda>db. finished (redis_RecordTriggerFire t n r err db))),
      a_MarkAwaitingAction = (\<lambda>i d a.
        writing (\<lambda>db. of_answer (redis_MarkAwaitingAction rv i d a db))),
      a_CompleteAction = (\<lambda>i a m.
        with_now (\<lambda>now. writing (\<lambda>db. of_answer (redis_CompleteAction rv now i a m db)))),
      a_FailAction = (\<lambda>i a code msg b.
        with_id (\<lambda>e. with_now (\<lambda>now. writing (\<lambda>db. of_answer (redis_FailAction 0 rv now e i a code msg b db)))))\<rparr>"

text \<open>The suite has the server to itself, so every transaction succeeds at its first attempt.\<close>

lemmas redis_call = arg_cong [OF redis_api_def [of quiet]]

lemmas redis_calls =
  redis_call [of a_UpsertWorkflowDefinition, simplified]
  redis_call [of a_GetWorkflowDefinition, simplified] redis_call [of a_ListWorkflowDefinitions, simplified]
  redis_call [of a_GetPublishedWorkflowByID, simplified] redis_call [of a_CreateRun, simplified]
  redis_call [of a_GetRun, simplified] redis_call [of a_UpdateRunState, simplified]
  redis_call [of a_Cancel, simplified] redis_call [of a_MarkRunFailed, simplified]
  redis_call [of a_ListRuns, simplified] redis_call [of a_CountRuns, simplified]
  redis_call [of a_StatsForWorkflow, simplified] redis_call [of a_AppendEvent, simplified]
  redis_call [of a_ListEventsByRun, simplified] redis_call [of a_GetEventByID, simplified]
  redis_call [of a_UpsertRuleDefinition, simplified] redis_call [of a_GetPublishedRuleByID, simplified]
  redis_call [of a_UpdateRunVariables, simplified] redis_call [of a_SetPausedWithWakeup, simplified]
  redis_call [of a_SetPausedAwaitingSignal, simplified]
  redis_call [of a_SetPausedAwaitingEvent, simplified]
  redis_call [of a_SetPausedAwaitingEventWithDeadline, simplified] redis_call [of a_ClearPause, simplified]
  redis_call [of a_FindRunsByDueWakeup, simplified] redis_call [of a_FindRunsByAwaitedEvent, simplified]
  redis_call [of a_TryConsumeAwaitedSignal, simplified] redis_call [of a_AppendSignal, simplified]
  redis_call [of a_WakeFromExternal, simplified] redis_call [of a_SpawnChildRun, simplified]
  redis_call [of a_SpawnChildRunAt, simplified] redis_call [of a_ListChildrenByParent, simplified]
  redis_call [of a_PushTryCatch, simplified] redis_call [of a_PopTryCatch, simplified]
  redis_call [of a_CreateUserTask, simplified] redis_call [of a_GetUserTask, simplified]
  redis_call [of a_SubmitUserTask, simplified] redis_call [of a_ListUserTasksByRun, simplified]
  redis_call [of a_UpsertActionRegistration, simplified] redis_call [of a_ListActions, simplified]
  redis_call [of a_GetAction, simplified] redis_call [of a_UpsertTrigger, simplified]
  redis_call [of a_GetTrigger, simplified] redis_call [of a_ListTriggers, simplified]
  redis_call [of a_DeleteTrigger, simplified] redis_call [of a_ListDueCronTriggers, simplified]
  redis_call [of a_ClaimCronFire, simplified] redis_call [of a_RecordTriggerFire, simplified]
  redis_call [of a_MarkAwaitingAction, simplified] redis_call [of a_CompleteAction, simplified]
  redis_call [of a_FailAction, simplified]

lemma quiet_loops:
  "rule_loop quiet i d 0 txMaxRetries rd =
     (let byid = (case map_of (k_rule rd) i of None \<Rightarrow> k_rule_byid rd
                  | Some x \<Rightarrow> srem_at (rule_rule_id x) i (k_rule_byid rd))
      in (Inr i, rd\<lparr>k_rule := AList.update i (json_rule d) (k_rule rd),
                     k_rule_byid := rpush_at (rule_rule_id d) i byid\<rparr>))"
  "spawn_loop quiet name parentID childID writes 0 txMaxRetries rd =
     (Inr childID, writes (at_key (k_def_byname rd) name) rd)"
  by (simp_all add: txMaxRetries_def eval_nat_numeral quiet_def)

text \<open>The times of the suite lie between \<open>2 ^ 60\<close> and \<open>2 ^ 61\<close>.\<close>

lemma float64_times:
  assumes "2 ^ 60 \<le> i" "i < 2 ^ 61"
  shows "float64 i = int (round_even (nat i) 256) * 256"
proof -
  have "floorlog 2 (nat i) = 61"
    using assms by (intro antisym floorlog_leI floorlog_geI) (auto simp: nat_less_iff le_nat_iff)
  then show ?thesis using assms by (simp add: float64_def float64_nat_def)
qed

lemma tx_congs:
  "txSimple rv i m = txSimple rv i m" "txRun rv i m' c = txRun rv i m' c" "atomic_tx i m' c = atomic_tx i m' c"
  "spawn_loop rv name parent child writes = spawn_loop rv name parent child writes"
  by (rule refl)+

lemmas redis_eval = redis_calls txRun_quiet quiet_loops atomic_tx_def float64_times round_even_def
  redis_empty_def sadd_def sadd_at_def srem_at_def rpush_at_def mget_def zrange_def set_run_def
  txSimple_def key_exists_def applyTerminalTTL_def redis_UpsertWorkflowDefinition_def
  redis_GetWorkflowDefinition_def redis_GetPublishedWorkflowByID_def redis_ListWorkflowDefinitions_def
  redis_AppendEvent_def redis_ListEventsByRun_def redis_GetEventByID_def redis_CreateUserTask_def
  redis_GetUserTask_def redis_SubmitUserTask_def redis_ListUserTasksByRun_def redis_CreateRun_def
  redis_GetRun_def drop_indexes_def add_wakeup_def redis_UpdateRunState_def cancel_mutation_def
  redis_Cancel_def redis_MarkRunFailed_def redis_merge_def redis_UpdateRunVariables_def
  redis_SetPausedWithWakeup_def redis_SetPausedAwaitingSignal_def
  redis_SetPausedAwaitingEventWithDeadline_def redis_SetPausedAwaitingEvent_def redis_ClearPause_def
  redis_WakeFromExternal_def redis_FindRunsByDueWakeup_def redis_FindRunsByAwaitedEvent_def
  consume_mutation_def redis_TryConsumeAwaitedSignal_def redis_AppendSignal_def spawn_writes_def
  redis_SpawnChildRunAt_def redis_SpawnChildRun_def redis_ListChildrenByParent_def redis_PushTryCatch_def
  redis_PopTryCatch_def actionKey_def redis_UpsertActionRegistration_def redis_GetAction_def
  redis_ListActions_def redis_MarkAwaitingAction_def redis_put_def redis_CompleteAction_def
  fail_mutation_def redis_FailAction_def loadCandidates_def redis_triggerTypeMap_def redis_filterRuns_def
  redis_ListRuns_def redis_CountRuns_def redis_StatsForWorkflow_def redis_UpsertRuleDefinition_def
  redis_GetPublishedRuleByID_def redis_UpsertTrigger_def redis_GetTrigger_def redis_ListTriggers_def
  redis_DeleteTrigger_def in_int64_def int_literal_def json_map_def std_map_def json_run_def std_run_def
  json_step_def json_def_def json_event_def std_event_def json_signal_def std_signal_def json_task_def
  json_action_def json_rule_def json_trigger_def page_def newer_def_def def_matches_def close_task_def
  cancel_run_def applyDottedKey_def merge_vars_def clear_awaits_def consume_signal_def new_child_def
  maxDepth_def put_vars_def run_matches_def started_later_def trigger_matches_def failed_run_def
  cancelled_run_def at_key_def insertion_sort_def insert_right_def to_lower_def action_matches_def
  blank_rule_def

text \<open>The Redis store passes every group of a suite that runs in 2026.\<close>

lemma redis_conforms:
  assumes "inj ids" "\<And>n. ids n \<noteq> uuid_Nil"
  shows "list_all snd (RunSuite False (redis_api quiet) (fresh_bench ids new_year redis_empty))"
  unfolding suite_unfold
  by (intro conjI TrueI; simp add: suite_eval redis_eval new_year_def inj_eq [OF assms(1)] assms(2) assms(2) [symmetric]
      cong: lazy tx_congs)

text \<open>The suite tells a store that falls back to a draft from one that does not.\<close>

lemma redis_published:
  assumes "inj ids" "\<And>n. ids n \<noteq> uuid_Nil"
  shows "testPublishedWorkflow True (redis_api quiet) (fresh_bench ids new_year redis_empty) = None"
  by (simp add: suite_eval redis_eval new_year_def inj_eq [OF assms(1)] assms(2) assms(2) [symmetric]
      cong: lazy tx_congs)

end
