(* ===== verification/Postgres_Suite.thy ===== *)
theory Postgres_Suite
  imports Store_Suite Postgres_Store
begin

text \<open>The PostgreSQL store as a backend of the conformance suite, and the suite run on it.\<close>

definition postgres_api :: "event_tie \<Rightarrow> (string \<Rightarrow> uuid option) \<Rightarrow> (string \<Rightarrow> string \<Rightarrow> bool) \<Rightarrow> pgdb store_api" where
  "postgres_api tie as_uuid before =
     \<lparr>a_UpsertWorkflowDefinition = (\<lambda>d.
        with_id (\<lambda>fresh. with_now (\<lambda>now. writing (pg_UpsertWorkflowDefinition as_uuid fresh now d)))),
      a_GetWorkflowDefinition = (\<lambda>i. reading (\<lambda>db. pg_GetWorkflowDefinition db i)),
      a_ListWorkflowDefinitions = (\<lambda>f. listing (pg_ListWorkflowDefinitions f)),
      a_GetPublishedWorkflowByID = (\<lambda>n t. reading (\<lambda>db. pg_GetPublishedWorkflowByID db n t)),
      a_CreateRun = (\<lambda>r. writing (\<lambda>db. of_answer (pg_CreateRun r db))),
      a_GetRun = (\<lambda>i. reading (\<lambda>db. pg_GetRun db i)),
      a_UpdateRunState = (\<lambda>i state cur.
        with_now (\<lambda>now. writing (\<lambda>db. of_answer (pg_UpdateRunState now i state cur db)))),
      a_Cancel = (\<lambda>i reason.
        with_id (\<lambda>fresh. with_now (\<lambda>now. writing (\<lambda>db. of_answer (pg_Cancel now fresh i reason db))))),
      a_MarkRunFailed = (\<lambda>i cur msg.
        with_now (\<lambda>now. writing (\<lambda>db. of_answer (pg_MarkRunFailed now i cur msg db)))),
      a_ListRuns = (\<lambda>f. listing (pg_ListRuns f)),
      a_CountRuns = (\<lambda>f. listing (pg_CountRuns f)),
      a_StatsForWorkflow = (\<lambda>n. with_now (\<lambda>now. listing (pg_StatsForWorkflow now n))),
      a_AppendEvent = (\<lambda>e. writing (\<lambda>db. of_answer (pg_AppendEvent e db))),
      a_ListEventsByRun = (\<lambda>i. listing (\<lambda>db. pg_ListEventsByRun tie db i)),
      a_GetEventByID = (\<lambda>i. reading (\<lambda>db. pg_GetEventByID db i)),
      a_UpsertRuleDefinition = (\<lambda>d.
        with_id (\<lambda>fresh. with_now (\<lambda>now. writing (pg_UpsertRuleDefinition as_uuid fresh now d)))),
      a_GetPublishedRuleByID = (\<lambda>n t. reading (\<lambda>db. pg_GetPublishedRuleByID db n t)),
      a_UpdateRunVariables = (\<lambda>i m.
        with_now (\<lambda>now. writing (\<lambda>db. of_answer (pg_UpdateRunVariables now i m db)))),
      a_SetPausedWithWakeup = (\<lambda>i t.
        with_now (\<lambda>now. writing (\<lambda>db. of_answer (pg_SetPausedWithWakeup now i t db)))),
      a_SetPausedAwaitingSignal = (\<lambda>i n d.
        with_now (\<lambda>now. writing (\<lambda>db. of_answer (pg_SetPausedAwaitingSignal now i n d db)))),
      a_SetPausedAwaitingEvent = (\<lambda>i n h.
        with_now (\<lambda>now. writing (\<lambda>db. of_answer (pg_SetPausedAwaitingEvent now i n h db)))),
      a_SetPausedAwaitingEventWithDeadline = (\<lambda>i n h d.
        with_now (\<lambda>now. writing (\<lambda>db. of_answer (pg_SetPausedAwaitingEventWithDeadline now i n h d db)))),
      a_ClearPause = (\<lambda>i.
        with_now (\<lambda>now. writing (\<lambda>db. of_answer (pg_ClearPause now i db)))),
      a_FindRunsByDueWakeup = (\<lambda>t n. listing (pg_FindRunsByDueWakeup t n)),
      a_FindRunsByAwaitedEvent = (\<lambda>n. listing (pg_FindRunsByAwaitedEvent n)),
      a_TryConsumeAwaitedSignal = (\<lambda>i n.
        with_now (\<lambda>now. writing (\<lambda>db. no_error (pg_TryConsumeAwaitedSignal now i n db)))),
      a_AppendSignal = (\<lambda>g. writing (\<lambda>db. of_answer (pg_AppendSignal g db))),
      a_WakeFromExternal = (\<lambda>i.
        with_now (\<lambda>now. writing (\<lambda>db. of_answer (pg_WakeFromExternal now i db)))),
      a_SpawnChildRun = (\<lambda>p ps b d m.
        with_id (\<lambda>fresh. with_now (\<lambda>now. writing (pg_SpawnChildRun fresh now p ps b d m)))),
      a_SpawnChildRunAt = (\<lambda>p ps b d m start.
        with_id (\<lambda>fresh. with_now (\<lambda>now. writing (pg_SpawnChildRunAt fresh now p ps b d m start)))),
      a_ListChildrenByParent = (\<lambda>p ps. listing (\<lambda>db. pg_ListChildrenByParent db p ps)),
      a_PushTryCatch = (\<lambda>i f.
        with_now (\<lambda>now. writing (\<lambda>db. of_answer (pg_PushTryCatch now i f db)))),
      a_PopTryCatch = (\<lambda>i. with_now (\<lambda>now. writing (pg_PopTryCatch now i))),
      a_CreateUserTask = (\<lambda>t. writing (\<lambda>db. of_answer (pg_CreateUserTask t db))),
      a_GetUserTask = (\<lambda>i. reading (\<lambda>db. pg_GetUserTask db i)),
      a_SubmitUserTask = (\<lambda>i who m.
        with_now (\<lambda>now. writing (\<lambda>db. of_answer (pg_SubmitUserTask now i who m db)))),
      a_ListUserTasksByRun = (\<lambda>i. listing (\<lambda>db. pg_ListUserTasksByRun db i)),
      a_UpsertActionRegistration = (\<lambda>g.
        with_id (\<lambda>fresh. with_now (\<lambda>now. writing (\<lambda>db. of_answer (pg_UpsertActionRegistration fresh now g db))))),
      a_ListActions = (\<lambda>f. listing (pg_ListActions before f)),
      a_GetAction = (\<lambda>service n v. reading (\<lambda>db. pg_GetAction db service n v)),
      a_UpsertTrigger = (\<lambda>t.
        with_id (\<lambda>fresh. with_now (\<lambda>now. writing (\<lambda>db. no_error (pg_UpsertTrigger fresh now t db))))),
      a_GetTrigger = (\<lambda>i. reading (\<lambda>db. pg_GetTrigger db i)),
      a_ListTriggers = (\<lambda>f. listing (pg_ListTriggers f)),
      a_DeleteTrigger = (\<lambda>i. writing (\<lambda>db. of_answer (pg_DeleteTrigger i db))),
      a_ListDueCronTriggers = (\<lambda>t n. listing (pg_ListDueCronTriggers t n)),
      a_ClaimCronFire = (\<lambda>i t t'.
        with_now (\<lambda>now. writing (\<lambda>db. no_error (pg_ClaimCronFire now i t t' db)))),
      a_RecordTriggerFire = (\<lambda>t n r err.
        with_id (\<lambda>fresh. with_now (\<lambda>now. writing (\<lambda>db. of_answer (pg_RecordTriggerFire fresh now t n r err db))))),
      a_MarkAwaitingAction = (\<lambda>i d a.
        with_now (\<lambda>now. writing (\<lambda>db. of_answer (pg_MarkAwaitingAction now i d a db)))),
      a_CompleteAction = (\<lambda>i a m.
        with_now (\<lambda>now. writing (\<lambda>db. of_answer (pg_CompleteAction now i a m db)))),
      a_FailAction = (\<lambda>i a code msg b.
        with_id (\<lambda>fresh. with_now (\<lambda>now. writing (\<lambda>db. of_answer (pg_FailAction now fresh i a code msg b db)))))\<rparr>"

lemmas postgres_call = arg_cong [OF postgres_api_def]

lemmas postgres_calls =
  postgres_call [of a_UpsertWorkflowDefinition, simplified]
  postgres_call [of a_GetWorkflowDefinition, simplified]
  postgres_call [of a_ListWorkflowDefinitions, simplified]
  postgres_call [of a_GetPublishedWorkflowByID, simplified] postgres_call [of a_CreateRun, simplified]
  postgres_call [of a_GetRun, simplified] postgres_call [of a_UpdateRunState, simplified]
  postgres_call [of a_Cancel, simplified] postgres_call [of a_MarkRunFailed, simplified]
  postgres_call [of a_ListRuns, simplified] postgres_call [of a_CountRuns, simplified]
  postgres_call [of a_StatsForWorkflow, simplified] postgres_call [of a_AppendEvent, simplified]
  postgres_call [of a_ListEventsByRun, simplified] postgres_call [of a_GetEventByID, simplified]
  postgres_call [of a_UpsertRuleDefinition, simplified]
  postgres_call [of a_GetPublishedRuleByID, simplified] postgres_call [of a_UpdateRunVariables, simplified]
  postgres_call [of a_SetPausedWithWakeup, simplified]
  postgres_call [of a_SetPausedAwaitingSignal, simplified]
  postgres_call [of a_SetPausedAwaitingEvent, simplified]
  postgres_call [of a_SetPausedAwaitingEventWithDeadline, simplified]
  postgres_call [of a_ClearPause, simplified] postgres_call [of a_FindRunsByDueWakeup, simplified]
  postgres_call [of a_FindRunsByAwaitedEvent, simplified]
  postgres_call [of a_TryConsumeAwaitedSignal, simplified] postgres_call [of a_AppendSignal, simplified]
  postgres_call [of a_WakeFromExternal, simplified] postgres_call [of a_SpawnChildRun, simplified]
  postgres_call [of a_SpawnChildRunAt, simplified] postgres_call [of a_ListChildrenByParent, simplified]
  postgres_call [of a_PushTryCatch, simplified] postgres_call [of a_PopTryCatch, simplified]
  postgres_call [of a_CreateUserTask, simplified] postgres_call [of a_GetUserTask, simplified]
  postgres_call [of a_SubmitUserTask, simplified] postgres_call [of a_ListUserTasksByRun, simplified]
  postgres_call [of a_UpsertActionRegistration, simplified] postgres_call [of a_ListActions, simplified]
  postgres_call [of a_GetAction, simplified] postgres_call [of a_UpsertTrigger, simplified]
  postgres_call [of a_GetTrigger, simplified] postgres_call [of a_ListTriggers, simplified]
  postgres_call [of a_DeleteTrigger, simplified] postgres_call [of a_ListDueCronTriggers, simplified]
  postgres_call [of a_ClaimCronFire, simplified] postgres_call [of a_RecordTriggerFire, simplified]
  postgres_call [of a_MarkAwaitingAction, simplified] postgres_call [of a_CompleteAction, simplified]
  postgres_call [of a_FailAction, simplified]

lemma counts_exact: "float64 1 = 1" "float64 2 = 2"
  by code_simp+

lemma table_steps:
  "sql_select p [] = []"
  "sql_select p (x # xs) = (if selects (p x) then x # sql_select p xs else sql_select p xs)"
  "sql_update p f [] = (0, [])"
  "sql_update p f (x # xs) =
     (let u = sql_update p f xs
      in if selects (p x) then (Suc (fst u), f x # snd u) else (fst u, x # snd u))"
  by (simp_all add: sql_select_def sql_update_def)

lemma table_weak:
  "t = t' \<Longrightarrow> sql_select p t = sql_select p t'"
  "u = u' \<Longrightarrow> sql_update q f u = sql_update q f u'"
  by simp_all

lemma update_congs:
  "run_update i c f = run_update i c f" "upsert_row key m = upsert_row key m"
  by (rule refl)+

lemmas postgres_eval = postgres_calls counts_exact table_steps ex_bool_eq
  pg_empty_def jsonb_step_def jsonb_def_def uuid_param_def def_key_def pg_UpsertWorkflowDefinition_def
  pg_GetWorkflowDefinition_def newer_def_row_def pg_ListWorkflowDefinitions_def
  pg_GetPublishedWorkflowByID_def row_of_run_def pg_CreateRun_def run_of_row_def pg_GetRun_def
  child_of_row_def awaiting_of_row_def scanRunRow_def run_update_def must_touch_def any_touch_def
  run_exists_def notFoundUnlessRunExists_def always_def not_ended_def pg_UpdateRunState_def
  pg_MarkRunFailed_def same_event_def insert_event_def pg_Cancel_def pg_SetPausedWithWakeup_def
  pg_SetPausedAwaitingSignal_def pg_SetPausedAwaitingEventWithDeadline_def pg_SetPausedAwaitingEvent_def
  clear_markers_def pg_ClearPause_def pg_WakeFromExternal_def pg_FindRunsByDueWakeup_def
  pg_FindRunsByAwaitedEvent_def pg_TryConsumeAwaitedSignal_def pg_AppendSignal_def pg_SpawnChildRunAt_def
  pg_SpawnChildRun_def pg_ListChildrenByParent_def pg_PushTryCatch_def pg_PopTryCatch_def split_merge_def
  make_parent_def set_dotted_def pg_merge_def pg_UpdateRunVariables_def list_cond_def pg_ListRuns_def
  pg_CountRuns_def pg_StatsForWorkflow_def pg_MarkAwaitingAction_def pg_CompleteAction_def
  pg_FailAction_def row_of_event_def pg_AppendEvent_def event_of_row_def event_before_def timestamptz_def pg_ListEventsByRun_def
  pg_GetEventByID_def pg_CreateUserTask_def pg_GetUserTask_def pg_ListUserTasksByRun_def
  pg_SubmitUserTask_def jsonb_rule_spec_def rule_key_def pg_UpsertRuleDefinition_def
  pg_GetPublishedRuleByID_def action_key_def pg_UpsertActionRegistration_def action_before_def
  pg_ListActions_def pg_GetAction_def pg_UpsertTrigger_def pg_GetTrigger_def pg_ListTriggers_def
  pg_DeleteTrigger_def sql_not_def sql_and_def sql_or_def sql_cmp_def is_null_def selects_def
  sql_nullif_def sql_coalesce_def sql_delete_def sql_error_def unique_violation_def
  foreign_key_violation_def invalid_text_def insert_row_def upsert_row_def row_at_def limit_offset_def
  ilike_def jsonb_def jsonb_val_def jsonb_concat_def is_object_def json_map_def std_map_def to_lower_def
  insertion_sort_def insert_right_def maxDepth_def int_literal_def in_int64_def trigger_matches_def

text \<open>The PostgreSQL store passes every group of the suite for stores that only return published versions.\<close>

lemma postgres_conforms:
  assumes "inj ids" "\<And>n. ids n \<noteq> uuid_Nil"
  shows "list_all snd (RunSuite True (postgres_api tie as_uuid before) (fresh_bench ids new_year pg_empty))"
  unfolding suite_unfold
  by (intro conjI TrueI; simp add: suite_eval postgres_eval new_year_def inj_eq [OF assms(1)] assms(2) assms(2) [symmetric]
      cong: lazy table_weak update_congs)

text \<open>The suite tells a store that never returns a draft from one that does.\<close>

lemma postgres_published:
  assumes "inj ids" "\<And>n. ids n \<noteq> uuid_Nil"
  shows "testPublishedWorkflow False (postgres_api tie as_uuid before) (fresh_bench ids new_year pg_empty) = None"
  by (simp add: suite_eval postgres_eval new_year_def inj_eq [OF assms(1)] assms(2) assms(2) [symmetric]
      cong: lazy table_weak update_congs)

end
