(* ===== verification/Conformance.thy ===== *)
theory Conformance
  imports Memory_Suite Redis_Suite Postgres_Suite
begin

text \<open>The three backends under the conformance suite of the repository.\<close>

text \<open>
  C22: the in-memory store passes the conformance suite of \<^verbatim>\<open>store/storetest\<close> whenever it runs, and so do the
  Redis store on a server of its own and the PostgreSQL store in a run that starts with the year 2026, with the
  options their packages' tests give, whatever distinct ids are drawn. The option is not idle: with the other
  value the group on published versions fails for each of them.
\<close>

theorem backends_conform:
  assumes "inj ids" and "\<And>n. ids n \<noteq> uuid_Nil"
  shows "list_all snd (RunSuite False memory_api (fresh_bench ids start New))
    \<and> list_all snd (RunSuite False (redis_api quiet) (fresh_bench ids new_year redis_empty))
    \<and> list_all snd (RunSuite True (postgres_api tie as_uuid before) (fresh_bench ids new_year pg_empty))
    \<and> testPublishedWorkflow True memory_api (fresh_bench ids start New) = None
    \<and> testPublishedWorkflow True (redis_api quiet) (fresh_bench ids new_year redis_empty) = None
    \<and> testPublishedWorkflow False (postgres_api tie as_uuid before) (fresh_bench ids new_year pg_empty) = None"
  using memory_conforms redis_conforms postgres_conforms memory_published redis_published postgres_published
    assms by blast

theorem backends_conform_witness:
  "list_all snd (RunSuite True (postgres_api (\<lambda>_ _. True) Some (\<lambda>_ _. False)) (fresh_bench (\<lambda>n. replicate n CHR ''a'') new_year pg_empty))"
proof -
  have "inj (\<lambda>n. replicate n CHR ''a'')" by (rule injI) (metis length_replicate)
  moreover have "replicate n CHR ''a'' \<noteq> uuid_Nil" for n by (cases n) (simp_all add: uuid_Nil_def)
  ultimately show ?thesis using backends_conform [where tie = "\<lambda>_ _. True" and as_uuid = Some and before = "\<lambda>_ _. False"] by blast
qed

end
