(* ===== verification/Triggers.thy ===== *)
theory Triggers
  imports Recovery
begin

text \<open>
  What starts and wakes runs from outside the coordinator: startup variables
  (\<^verbatim>\<open>engine/startup_variables.go\<close>), the wake-up timer (\<^verbatim>\<open>timer.go\<close>), event delivery
  (\<^verbatim>\<open>event_subscriber.go\<close>, \<^verbatim>\<open>saga/event_emitter.go\<close>), record-transition triggers
  (\<^verbatim>\<open>trigger_dispatcher.go\<close>) and cron triggers (\<^verbatim>\<open>cron_dispatcher.go\<close>). Each polling or delivery
  loop is modelled by one pass of its body.
\<close>

section \<open>Startup variables\<close>

text \<open>A provider is code of the embedder: a function of the tenant that may fail.\<close>

type_synonym provider = "uuid option \<Rightarrow> gerr + gomap"

fun startup_merge :: "uuid option \<Rightarrow> gomap \<Rightarrow> provider list \<Rightarrow> gomap" where
  "startup_merge tenantID merge [] = merge"
| "startup_merge tenantID merge (p # ps) =
     (case p tenantID of
        Inl err \<Rightarrow> startup_merge tenantID merge ps
      | Inr vars \<Rightarrow> startup_merge tenantID (foldl (\<lambda>m (k, v). AList.update k v m) merge vars) ps)"

definition InjectStartupVariables :: "uuid \<Rightarrow> uuid option \<Rightarrow> provider list \<Rightarrow> world \<Rightarrow> world" where
  "InjectStartupVariables runID tenantID providers w =
     (if providers = [] then w
      else
        (let merge = startup_merge tenantID [] providers
         in if merge = [] then w
            else ignore (try_store (UpdateRunVariables runID merge) w)))"

section \<open>Timer\<close>

type_synonym advance_publisher = "world \<Rightarrow> string \<Rightarrow> gerr option"

fun publish_each :: "advance_publisher \<Rightarrow> uuid list \<Rightarrow> world \<Rightarrow> world" where
  "publish_each p [] w = w"
| "publish_each p (i # is) w = publish_each p is (ignore (PublishSagaAdvance p i w))"

text \<open>One tick: wait on the clock, find the due runs, publish each, ignoring failures.\<close>

definition timer_tick :: "advance_publisher \<Rightarrow> duration \<Rightarrow> int \<Rightarrow> world \<Rightarrow> world" where
  "timer_tick p tick0 batch0 w =
     (let tick = (if tick0 = 0 then second_ns else tick0);
          batch = (if batch0 = 0 then 100 else batch0);
          w1 = w\<lparr>clk := clk w + max 0 tick\<rparr>
      in publish_each p (FindRunsByDueWakeup (clk w1) batch (st w1)) w1)"

section \<open>Event delivery\<close>

text \<open>\<open>ed_json\<close> is what \<^verbatim>\<open>json.Unmarshal\<close> makes of the body, \<open>None\<close> when it fails.\<close>

record event_delivery =
  ed_topic :: string
  ed_headers :: "(string \<times> string) list"
  ed_json :: "gomap option"

definition headersSubset :: "(string \<times> string) list \<Rightarrow> (string \<times> string) list \<Rightarrow> bool" where
  "headersSubset want have \<longleftrightarrow> list_all (\<lambda>(k, v). map_of have k = Some v) want"

fun deliver_loop ::
  "advance_publisher option \<Rightarrow> (string \<times> string) list \<Rightarrow> saga_run list \<Rightarrow> world \<Rightarrow> gerr option \<times> world" where
  "deliver_loop pub hdrs [] w = (None, w)"
| "deliver_loop pub hdrs (r # rs) w =
     (if \<not> headersSubset (run_awaited_event_headers r) hdrs then deliver_loop pub hdrs rs w
      else case try_store (WakeFromExternal (run_id r)) w of
        (Some err, w1) \<Rightarrow>
          (Some (Errorf ''wake from external for %s: %w'' [AStr (run_id r), AErr err]), w1)
      | (None, w1) \<Rightarrow>
          (case pub of
             None \<Rightarrow> deliver_loop pub hdrs rs w1
           | Some p \<Rightarrow>
               (case PublishSagaAdvance p (run_id r) w1 of
                  (Some err, w2) \<Rightarrow>
                    (Some (Errorf ''publish advance for %s: %w'' [AStr (run_id r), AErr err]), w2)
                | (None, w2) \<Rightarrow> deliver_loop pub hdrs rs w2)))"

definition Deliver :: "advance_publisher option \<Rightarrow> event_delivery \<Rightarrow> world \<Rightarrow> gerr option \<times> world" where
  "Deliver pub d w = deliver_loop pub (ed_headers d) (FindRunsByAwaitedEvent (ed_topic d) (st w)) w"

section \<open>Starting a run for a trigger\<close>

text \<open>
  The common sequence: store the definition, create the run at its entry step, inject the
  startup variables, publish, record the fire.
\<close>

definition start_run ::
  "env \<Rightarrow> advance_publisher option \<Rightarrow> provider list \<Rightarrow> saga_trigger \<Rightarrow> uuid option \<Rightarrow> gomap
   \<Rightarrow> workflow_definition \<Rightarrow> string \<Rightarrow> world \<Rightarrow> gerr option \<times> world" where
  "start_run e pub providers trig tenantID inputs d startStep w =
     (let (rowID, w1) = fresh e w;
          w2 = do_store (UpsertWorkflowDefinition rowID d) w1;
          (runID, w3) = fresh e w2;
          run = (NewSagaRun runID (wall w3) (def_id d) rowID tenantID inputs)
                  \<lparr>run_current_step := startStep, run_trigger_id := Some (trig_id trig)\<rparr>;
          w4 = InjectStartupVariables runID tenantID providers (do_store (CreateRun run) w3)
      in case (case pub of None \<Rightarrow> (None, w4) | Some p \<Rightarrow> PublishSagaAdvance p runID w4) of
           (Some err, w5) \<Rightarrow> (Some err, w5)
         | (None, w5) \<Rightarrow>
             (let (fireID, w6) = fresh e w5
              in (None, do_store (RecordTriggerFire fireID (wall w6) (trig_id trig)
                          (trig_workflow_id trig) (Some runID) []) w6)))"

section \<open>Record transitions\<close>

definition isRecordTransitionTopic :: "string \<Rightarrow> bool" where
  "isRecordTransitionTopic topic =
     (case split_on (CHR ''.'') topic of
        [_, b, c, d] \<Rightarrow> b = ''record'' \<and> c = ''transitioned'' \<and> d \<noteq> []
      | _ \<Rightarrow> False)"

definition map_input :: "gomap \<Rightarrow> gomap \<Rightarrow> string \<times> val \<Rightarrow> gomap" where
  "map_input body out kv =
     (case kv of
        (k, VStr v) \<Rightarrow>
          (if has_prefix v ''$.''
           then (case map_of body (trim_prefix v ''$.'') of
                   Some got \<Rightarrow> AList.update k got out
                 | None \<Rightarrow> out)
           else AList.update k (VStr v) out)
      | (k, raw) \<Rightarrow> AList.update k raw out)"

definition mapInputs :: "gomap \<Rightarrow> gomap \<Rightarrow> gomap" where
  "mapInputs body mapping = (if mapping = [] then body else foldl (map_input body) [] mapping)"

text \<open>The trigger's own tenant, or the event's, or none.\<close>

definition trigger_tenant :: "env \<Rightarrow> gomap \<Rightarrow> saga_trigger \<Rightarrow> uuid option" where
  "trigger_tenant e body trig =
     (case trig_tenant_id trig of
        Some t \<Rightarrow> Some t
      | None \<Rightarrow>
          (let tidStr = get_str body ''tenant_id''
           in if tidStr = [] then None
              else case uuid_parse e tidStr of Inl _ \<Rightarrow> None | Inr tid \<Rightarrow> Some tid))"

definition transition_matches :: "gomap \<Rightarrow> saga_trigger \<Rightarrow> bool" where
  "transition_matches body trig \<longleftrightarrow>
     get_str (trig_config trig) ''record_type'' = get_str body ''record_type'' \<and>
     get_str (trig_config trig) ''from_state'' = get_str body ''from_state'' \<and>
     get_str (trig_config trig) ''to_state'' = get_str body ''to_state''"

fun dispatch_loop ::
  "env \<Rightarrow> advance_publisher option \<Rightarrow> provider list \<Rightarrow> gomap \<Rightarrow> gerr option \<Rightarrow> saga_trigger list
   \<Rightarrow> world \<Rightarrow> gerr option \<times> world" where
  "dispatch_loop e pub providers body firstErr [] w = (firstErr, w)"
| "dispatch_loop e pub providers body firstErr (trig # trigs) w =
     (if \<not> transition_matches body trig then dispatch_loop e pub providers body firstErr trigs w
      else case GetPublishedWorkflowByID (st w) (trig_workflow_id trig) of
        Inl _ \<Rightarrow> dispatch_loop e pub providers body firstErr trigs w
      | Inr d \<Rightarrow>
          (case ResolveEntry d (get_str (trig_config trig) ''entrypoint'') of
             Inl _ \<Rightarrow> dispatch_loop e pub providers body firstErr trigs w
           | Inr startStep \<Rightarrow>
               (case start_run e pub providers trig (trigger_tenant e body trig)
                       (mapInputs body (or_default (get_map (trig_config trig) ''input_mapping'') []))
                       d startStep w of
                  (r, w1) \<Rightarrow>
                    dispatch_loop e pub providers body
                      (if firstErr = None then r else firstErr) trigs w1)))"

definition Dispatch ::
  "env \<Rightarrow> advance_publisher option \<Rightarrow> provider list \<Rightarrow> event_delivery \<Rightarrow> world \<Rightarrow> gerr option \<times> world" where
  "Dispatch e pub providers evt w =
     (if \<not> isRecordTransitionTopic (ed_topic evt) then (None, w)
      else case ed_json evt of
        None \<Rightarrow> (None, w)
      | Some body \<Rightarrow>
          dispatch_loop e pub providers body None
            (ListTriggers \<lparr>tfilter_type = Some TriggerRecordTransition, tfilter_enabled = Some True,
                           tfilter_tenant_id = None\<rparr> (st w)) w)"

section \<open>Events emitted in process\<close>

fun emit_loop ::
  "advance_publisher option \<Rightarrow> (string \<times> string) list \<Rightarrow> saga_run list \<Rightarrow> world \<Rightarrow> world" where
  "emit_loop pub hdrs [] w = w"
| "emit_loop pub hdrs (r # rs) w =
     (if \<not> headersSubset (run_awaited_event_headers r) hdrs then emit_loop pub hdrs rs w
      else case try_store (WakeFromExternal (run_id r)) w of
        (Some err, w1) \<Rightarrow> emit_loop pub hdrs rs w1
      | (None, w1) \<Rightarrow>
          emit_loop pub hdrs rs
            (case pub of None \<Rightarrow> w1 | Some p \<Rightarrow> ignore (PublishSagaAdvance p (run_id r) w1)))"

text \<open>
  \<open>providers\<close> are the trigger dispatcher's, \<open>None\<close> when there is no dispatcher. The payload goes through
  JSON on its way to the dispatcher.
\<close>

definition EmitEvent ::
  "env \<Rightarrow> advance_publisher option \<Rightarrow> provider list option \<Rightarrow> string \<Rightarrow> (string \<times> string) list
   \<Rightarrow> gomap \<Rightarrow> world \<Rightarrow> gerr option \<times> world" where
  "EmitEvent e pub dispatcher topic headers payload w =
     (let w1 = emit_loop pub headers (FindRunsByAwaitedEvent topic (st w)) w
      in (None,
          case dispatcher of
            None \<Rightarrow> w1
          | Some providers \<Rightarrow>
              ignore (Dispatch e pub providers
                \<lparr>ed_topic = topic, ed_headers = headers,
                  ed_json = (case json_norm e (VMap payload) of VMap m \<Rightarrow> Some m | _ \<Rightarrow> None)\<rparr> w1)))"

section \<open>Cron triggers\<close>

definition FeatureCronTriggers :: string where
  "FeatureCronTriggers = ''wf.cron_triggers''"

text \<open>
  \<open>sched\<close> stands for \<^verbatim>\<open>ParseSchedule\<close>, which hands the expression to the cron library: the parsed schedule is its
  \<^verbatim>\<open>Next\<close> function. For a schedule that no date satisfies \<^verbatim>\<open>Next\<close> answers the zero time, which the code takes
  like any other instant.
\<close>

definition zero_time :: gotime where
  "zero_time = 0"

type_synonym schedule_parser = "string \<Rightarrow> gerr + (gotime \<Rightarrow> gotime)"

definition next_fire :: "env \<Rightarrow> schedule_parser \<Rightarrow> gotime \<Rightarrow> saga_trigger \<Rightarrow> gotime option" where
  "next_fire e sched now tr =
     (let intervalStr = get_str (trig_config tr) ''interval''
      in if intervalStr \<noteq> []
         then (case parse_duration e intervalStr of
                 Inl _ \<Rightarrow> None
               | Inr d \<Rightarrow> (if d \<le> 0 then None else Some (now + d)))
         else (case sched (get_str (trig_config tr) ''schedule'') of
                 Inl _ \<Rightarrow> None
               | Inr nxt \<Rightarrow> Some (nxt now)))"

definition cron_startRun ::
  "env \<Rightarrow> advance_publisher option \<Rightarrow> provider list \<Rightarrow> saga_trigger \<Rightarrow> world \<Rightarrow> gerr option \<times> world" where
  "cron_startRun e pub providers tr w =
     (case GetPublishedWorkflowByID (st w) (trig_workflow_id tr) of
        Inl err \<Rightarrow> (Some err, w)
      | Inr d \<Rightarrow>
          (case ResolveEntry d (get_str (trig_config tr) ''entrypoint'') of
             Inl err \<Rightarrow> (Some err, w)
           | Inr startStep \<Rightarrow>
               start_run e pub providers tr (trig_tenant_id tr)
                 (or_default (get_map (trig_config tr) ''input'') []) d startStep w))"

text \<open>\<^verbatim>\<open>enabled, _ :=\<close> discards the error; the resolvers answer false with one.\<close>

fun fire_loop ::
  "env \<Rightarrow> schedule_parser \<Rightarrow> resolver \<Rightarrow> advance_publisher option \<Rightarrow> provider list \<Rightarrow> gotime
   \<Rightarrow> gerr option \<Rightarrow> saga_trigger list \<Rightarrow> world \<Rightarrow> gerr option \<times> world" where
  "fire_loop e sched lic pub providers now firstErr [] w = (firstErr, w)"
| "fire_loop e sched lic pub providers now firstErr (tr # trs) w =
     (case next_fire e sched now tr of
        None \<Rightarrow> fire_loop e sched lic pub providers now firstErr trs w
      | Some next \<Rightarrow>
          (let (won, s') = ClaimCronFire (trig_id tr) (or_default (trig_next_fire_at tr) 0) next (st w);
               w1 = w\<lparr>st := s'\<rparr>
           in if \<not> won \<or> lic (trig_tenant_id tr) FeatureCronTriggers [] \<noteq> Inr True
              then fire_loop e sched lic pub providers now firstErr trs w1
              else case cron_startRun e pub providers tr w1 of
                (r, w2) \<Rightarrow> fire_loop e sched lic pub providers now
                             (if firstErr = None then r else firstErr) trs w2))"

definition fireDue ::
  "env \<Rightarrow> schedule_parser \<Rightarrow> resolver \<Rightarrow> advance_publisher option \<Rightarrow> provider list \<Rightarrow> world
   \<Rightarrow> gerr option \<times> world" where
  "fireDue e sched lic pub providers w =
     fire_loop e sched lic pub providers (clk w) None (ListDueCronTriggers (clk w) 100 (st w)) w"

definition cron_tick ::
  "env \<Rightarrow> schedule_parser \<Rightarrow> resolver \<Rightarrow> advance_publisher option \<Rightarrow> provider list \<Rightarrow> duration
   \<Rightarrow> world \<Rightarrow> world" where
  "cron_tick e sched lic pub providers tick0 w =
     ignore (fireDue e sched lic pub providers
       (w\<lparr>clk := clk w + max 0 (if tick0 = 0 then second_ns else tick0)\<rparr>))"

section \<open>Delivered events\<close>

definition awaits :: "string \<Rightarrow> (string \<times> string) list \<Rightarrow> saga_run \<Rightarrow> bool" where
  "awaits topic hdrs r \<longleftrightarrow> run_state r = RunStatePaused \<and> run_awaited_event_topic r = Some topic
     \<and> headersSubset (run_awaited_event_headers r) hdrs"

lemma publish_accepts:
  "p w i = None \<Longrightarrow> PublishSagaAdvance p i w = (None, w\<lparr>queue := queue w @ [i]\<rparr>)"
  by (simp add: PublishSagaAdvance_def)

lemma deliver_loop_effect:
  assumes "\<And>w i. p w i = None" and "distinct (map run_id rs)"
    and "\<forall>r \<in> set rs. GetRun (st w) (run_id r) = Inr r"
  shows "\<exists>w'. deliver_loop (Some p) hdrs rs w = (None, w') \<and> emit_loop (Some p) hdrs rs w = w'
    \<and> queue w' = queue w @ map run_id (filter (\<lambda>r. headersSubset (run_awaited_event_headers r) hdrs) rs)
    \<and> outbox w' = outbox w
    \<and> (\<forall>r \<in> set rs. headersSubset (run_awaited_event_headers r) hdrs
         \<longrightarrow> GetRun (st w') (run_id r) = Inr (clear_awaits r))
    \<and> (\<forall>j. (\<forall>r \<in> set rs. headersSubset (run_awaited_event_headers r) hdrs \<longrightarrow> run_id r \<noteq> j)
         \<longrightarrow> GetRun (st w') j = GetRun (st w) j)"
  using assms(2,3)
proof (induction rs arbitrary: w)
  case (Cons r rs)
  show ?case
  proof (cases "headersSubset (run_awaited_event_headers r) hdrs")
    case False
    then show ?thesis using Cons by simp
  next
    case True
    define w1 where "w1 = (put_run (run_id r) (clear_awaits r) w)\<lparr>queue := queue w @ [run_id r]\<rparr>"
    have get1: "GetRun (st w1) j = (if j = run_id r then Inr (clear_awaits r) else GetRun (st w) j)" for j
      by (simp add: w1_def)
    have step: "deliver_loop (Some p) hdrs (r # rs) w = deliver_loop (Some p) hdrs rs w1"
      "emit_loop (Some p) hdrs (r # rs) w = emit_loop (Some p) hdrs rs w1"
      using True Cons.prems(2) assms(1)
      by (simp_all add: as_with_run try_with_run publish_accepts w1_def)
    have apart: "run_id r \<notin> run_id ` set rs" using Cons.prems(1) by simp
    have "\<forall>x \<in> set rs. GetRun (st w1) (run_id x) = Inr x"
    proof
      fix x assume "x \<in> set rs"
      then have "run_id x \<noteq> run_id r" "GetRun (st w) (run_id x) = Inr x"
        using apart Cons.prems(2) by (metis imageI, simp)
      then show "GetRun (st w1) (run_id x) = Inr x" unfolding get1 by simp
    qed
    from Cons.IH [OF _ this] Cons.prems(1) obtain w' where
      w': "deliver_loop (Some p) hdrs rs w1 = (None, w')" "emit_loop (Some p) hdrs rs w1 = w'"
        "queue w' = queue w1 @ map run_id (filter (\<lambda>r. headersSubset (run_awaited_event_headers r) hdrs) rs)"
        "outbox w' = outbox w1"
      and hit: "\<forall>r \<in> set rs. headersSubset (run_awaited_event_headers r) hdrs
         \<longrightarrow> GetRun (st w') (run_id r) = Inr (clear_awaits r)"
      and other: "\<forall>j. (\<forall>r \<in> set rs. headersSubset (run_awaited_event_headers r) hdrs \<longrightarrow> run_id r \<noteq> j)
         \<longrightarrow> GetRun (st w') j = GetRun (st w1) j"
      by auto
    have "\<forall>x \<in> set rs. run_id x \<noteq> run_id r" using apart by (metis imageI)
    then have mine: "GetRun (st w') (run_id r) = Inr (clear_awaits r)" using other get1 [of "run_id r"] by simp
    show ?thesis
    proof (intro exI [of _ w'] conjI)
      show "\<forall>x \<in> set (r # rs). headersSubset (run_awaited_event_headers x) hdrs
          \<longrightarrow> GetRun (st w') (run_id x) = Inr (clear_awaits x)" using hit mine by simp
      show "\<forall>j. (\<forall>x \<in> set (r # rs). headersSubset (run_awaited_event_headers x) hdrs \<longrightarrow> run_id x \<noteq> j)
          \<longrightarrow> GetRun (st w') j = GetRun (st w) j" using other get1 True by simp
    qed (use step w' True in \<open>simp_all add: w1_def\<close>)
  qed
qed simp

lemma store_wf_runs:
  assumes "store_wf s"
  shows "keys_distinct (runs s)" "map_of (runs s) i = Some r \<Longrightarrow> run_id r = i"
  using assms by (auto simp: store_wf_def table_wf_def run_wf_def list_all_iff dest: map_of_SomeD)

lemma distinct_run_ids: "store_wf s \<Longrightarrow> distinct (map run_id (filter P (vals (runs s))))"
proof -
  assume wf: "store_wf s"
  have "map run_id (vals (runs s)) = map fst (runs s)"
    using wf by (auto simp: store_wf_def table_wf_def run_wf_def list_all_iff)
  then show ?thesis
    using store_wf_runs(1) [OF wf] by (metis distinct_map_filter)
qed

lemma awaited_runs:
  assumes "store_wf s"
  shows "r \<in> set (FindRunsByAwaitedEvent topic s) \<longleftrightarrow>
    GetRun s (run_id r) = Inr r \<and> run_state r = RunStatePaused \<and> run_awaited_event_topic r = Some topic"
  using store_wf_runs [OF assms] vals_map_of [of "runs s" r]
  by (auto simp: FindRunsByAwaitedEvent_def GetRun_iff)

lemma matching_woken:
  assumes "store_wf (st w)" and "\<And>w i. p w i = None"
  shows "\<exists>w'. Deliver (Some p) d w = (None, w')
    \<and> emit_loop (Some p) (ed_headers d) (FindRunsByAwaitedEvent (ed_topic d) (st w)) w = w'
    \<and> queue w' = queue w @ map run_id
        (filter (\<lambda>r. headersSubset (run_awaited_event_headers r) (ed_headers d))
           (FindRunsByAwaitedEvent (ed_topic d) (st w)))
    \<and> (\<forall>i r. GetRun (st w) i = Inr r
         \<longrightarrow> GetRun (st w') i = Inr (if awaits (ed_topic d) (ed_headers d) r then clear_awaits r else r))
    \<and> outbox w' = outbox w"
proof -
  let ?rs = "FindRunsByAwaitedEvent (ed_topic d) (st w)"
  have d: "distinct (map run_id ?rs)"
    using distinct_run_ids [OF assms(1)] by (simp add: FindRunsByAwaitedEvent_def comp_def)
  have g: "\<forall>r \<in> set ?rs. GetRun (st w) (run_id r) = Inr r" using awaited_runs [OF assms(1)] by blast
  from deliver_loop_effect [where p = p and hdrs = "ed_headers d", OF assms(2) d g] obtain w'
    where w': "deliver_loop (Some p) (ed_headers d) ?rs w = (None, w')"
        "emit_loop (Some p) (ed_headers d) ?rs w = w'"
        "queue w' = queue w @ map run_id (filter (\<lambda>r. headersSubset (run_awaited_event_headers r) (ed_headers d)) ?rs)"
        "outbox w' = outbox w"
      and hit: "\<forall>r \<in> set ?rs. headersSubset (run_awaited_event_headers r) (ed_headers d)
         \<longrightarrow> GetRun (st w') (run_id r) = Inr (clear_awaits r)"
      and other: "\<forall>j. (\<forall>r \<in> set ?rs. headersSubset (run_awaited_event_headers r) (ed_headers d) \<longrightarrow> run_id r \<noteq> j)
         \<longrightarrow> GetRun (st w') j = GetRun (st w) j" by blast
  have "GetRun (st w') i = Inr (if awaits (ed_topic d) (ed_headers d) r then clear_awaits r else r)"
    if i: "GetRun (st w) i = Inr r" for i r
  proof -
    have id: "run_id r = i" using store_wf_runs(2) [OF assms(1)] i by (simp add: GetRun_iff)
    show ?thesis
    proof (cases "awaits (ed_topic d) (ed_headers d) r")
      case True
      then have "r \<in> set ?rs" using awaited_runs [OF assms(1)] i id by (simp add: awaits_def)
      then show ?thesis using True hit id by (auto simp: awaits_def)
    next
      case False
      have "\<forall>x \<in> set ?rs. headersSubset (run_awaited_event_headers x) (ed_headers d) \<longrightarrow> run_id x \<noteq> i"
        using False awaited_runs [OF assms(1)] i by (fastforce simp: awaits_def)
      then show ?thesis using False other i by simp
    qed
  qed
  then show ?thesis using w' by (auto simp: Deliver_def)
qed

text \<open>
  Event delivery wakes exactly the runs that wait for the event. Every run paused on the topic whose
  awaited headers are among the event's has its wait cleared and is published once; every other
  run is untouched. The in-process emitter does the same as the broker subscriber.
\<close>

theorem event_wakes_matching:
  assumes "store_wf (st w)" and "\<And>w i. p w i = None"
  shows "\<exists>w'. Deliver (Some p) d w = (None, w')
    \<and> EmitEvent e (Some p) None (ed_topic d) (ed_headers d) payload w = (None, w')
    \<and> queue w' = queue w @ map run_id
        (filter (\<lambda>r. headersSubset (run_awaited_event_headers r) (ed_headers d))
           (FindRunsByAwaitedEvent (ed_topic d) (st w)))
    \<and> (\<forall>i r. GetRun (st w) i = Inr r
         \<longrightarrow> GetRun (st w') i = Inr (if awaits (ed_topic d) (ed_headers d) r then clear_awaits r else r))
    \<and> outbox w' = outbox w"
  using matching_woken [where p = p, OF assms, of d] by (auto simp: EmitEvent_def Let_def)

definition event_run :: saga_run where
  "event_run = paused_sample\<lparr>run_awaited_event_topic := Some ''t'',
     run_awaited_event_headers := [(''k'', ''v'')]\<rparr>"

definition event_world :: world where
  "event_world = test_world\<lparr>st := CreateRun event_run New\<rparr>"

lemma event_world_wf: "store_wf (st event_world)"
proof -
  have "store_steps New (CreateRun event_run New)"
    by (rule r_into_rtranclp) (rule store_step.create_run, simp add: event_run_def paused_sample_def)
  then show ?thesis using store_reachable_wf by (simp add: event_world_def)
qed

theorem event_wakes_matching_witness:
  "\<exists>w'. Deliver (Some (\<lambda>_ _. None)) \<lparr>ed_topic = ''t'', ed_headers = [(''k'', ''v''), (''x'', ''y'')], ed_json = None\<rparr>
      event_world = (None, w')
    \<and> queue w' = [''r1''] \<and> GetRun (st w') ''r1'' = Inr (clear_awaits event_run)"
proof -
  have r: "GetRun (st event_world) ''r1'' = Inr event_run" "queue event_world = []"
    "FindRunsByAwaitedEvent ''t'' (st event_world) = [event_run]"
    by (simp_all add: event_world_def test_world_def CreateRun_def New_def GetRun_iff event_run_def
        paused_sample_def FindRunsByAwaitedEvent_def)
  have a: "awaits ''t'' [(''k'', ''v''), (''x'', ''y'')] event_run" "run_id event_run = ''r1''"
    "headersSubset (run_awaited_event_headers event_run) [(''k'', ''v''), (''x'', ''y'')]"
    by (simp_all add: awaits_def event_run_def paused_sample_def headersSubset_def)
  obtain w' where "Deliver (Some (\<lambda>_ _. None))
        \<lparr>ed_topic = ''t'', ed_headers = [(''k'', ''v''), (''x'', ''y'')], ed_json = None\<rparr> event_world = (None, w')"
    and "queue w' = [''r1'']"
    and "\<forall>i r. GetRun (st event_world) i = Inr r \<longrightarrow> GetRun (st w') i
      = Inr (if awaits ''t'' [(''k'', ''v''), (''x'', ''y'')] r then clear_awaits r else r)"
    using event_wakes_matching [OF event_world_wf, of "\<lambda>_ _. None"
        "\<lparr>ed_topic = ''t'', ed_headers = [(''k'', ''v''), (''x'', ''y'')], ed_json = None\<rparr>" test_env "[]"]
      r a by auto
  then show ?thesis using r(1) a(1) by simp
qed

section \<open>Started runs\<close>

lemma Inject_put_run:
  assumes "GetRun (st w) i = Inr r"
  shows "InjectStartupVariables i t ps w = w
    \<or> (\<exists>v. InjectStartupVariables i t ps w = put_run i (r\<lparr>run_variables := v\<rparr>) w)"
  using assms by (auto simp: InjectStartupVariables_def Let_def as_with_run try_with_run)

text \<open>Every UUID still to be drawn is new to the run and definition tables.\<close>

definition rows_fresh :: "env \<Rightarrow> world \<Rightarrow> bool" where
  "rows_fresh e w \<longleftrightarrow> inj (uuid_new e) \<and>
     (\<forall>n \<ge> draws w. map_of (runs (st w)) (uuid_new e n) = None
        \<and> map_of (defs (st w)) (uuid_new e n) = None)"

definition indexed :: "mem_store \<Rightarrow> bool" where
  "indexed s \<longleftrightarrow> (\<forall>n. \<forall>i \<in> set (at_key (defsByName s) n).
     \<exists>d. map_of (defs s) i = Some d \<and> def_id d = n)"

lemma store_wf_indexed: "store_wf s \<Longrightarrow> indexed s"
proof -
  assume "store_wf s"
  then have wf: "list_all (\<lambda>(n, ids). list_all (\<lambda>i. case map_of (defs s) i of None \<Rightarrow> False
      | Some d \<Rightarrow> def_id d = n) ids) (defsByName s)"
    by (simp add: store_wf_def index_wf_def table_wf_def)
  show ?thesis
    unfolding indexed_def at_key_def
  proof (intro allI ballI)
    fix n i assume i: "i \<in> set (or_default (map_of (defsByName s) n) [])"
    then obtain ids where "map_of (defsByName s) n = Some ids" "i \<in> set ids"
      by (cases "map_of (defsByName s) n") auto
    then show "\<exists>d. map_of (defs s) i = Some d \<and> def_id d = n"
      using wf by (force simp: list_all_iff dest: map_of_SomeD split: option.splits)
  qed
qed

lemma first_published_cong:
  "(\<And>i. i \<in> set is \<Longrightarrow> map_of (defs s) i = map_of (defs s') i) \<Longrightarrow>
     first_published s is = first_published s' is"
  by (induction "is") (simp_all add: Let_def)

lemma published_id:
  assumes "indexed s" and "GetPublishedWorkflowByID s x = Inr d"
  shows "def_id d = x"
proof -
  have "first_published s is = Some d \<Longrightarrow> \<exists>i \<in> set is. d = or_default (map_of (defs s) i) blank_def" for "is"
    by (induction "is") (auto simp: Let_def split: if_splits)
  then obtain i where "i \<in> set (at_key (defsByName s) x)" "d = or_default (map_of (defs s) i) blank_def"
    using assms(2) last_in_set
    by (fastforce simp: GetPublishedWorkflowByID_def Let_def split: option.splits if_splits)
  then show ?thesis using assms(1) by (force simp: indexed_def)
qed

text \<open>Storing the looked-up version again does not change what any lookup returns.\<close>

lemma published_upsert:
  assumes ix: "indexed s" and row: "map_of (defs s) row = None"
    and d: "GetPublishedWorkflowByID s (def_id d) = Inr d"
  shows "GetPublishedWorkflowByID (UpsertWorkflowDefinition row d s) x = GetPublishedWorkflowByID s x"
proof -
  let ?s = "UpsertWorkflowDefinition row d s"
  have old: "i \<noteq> row" if "i \<in> set (at_key (defsByName s) n)" for i n
    using ix that row by (force simp: indexed_def)
  have same: "map_of (defs ?s) i = map_of (defs s) i" if "i \<in> set (at_key (defsByName s) n)" for i n
    using old [OF that] by (simp add: UpsertWorkflowDefinition_def)
  have fp: "first_published ?s (rev (at_key (defsByName s) n)) = first_published s (rev (at_key (defsByName s) n))" for n
    by (rule first_published_cong) (use same in simp)
  have at: "at_key (defsByName ?s) n = at_key (defsByName s) n @ (if n = def_id d then [row] else [])" for n
    by (simp add: UpsertWorkflowDefinition_def at_key_def)
  have new: "map_of (defs ?s) row = Some d" by (simp add: UpsertWorkflowDefinition_def)
  have unpub: "\<not> def_published d \<Longrightarrow> first_published s (rev (at_key (defsByName s) (def_id d))) = None"
  proof -
    have "first_published s is = Some d' \<Longrightarrow> def_published d'" for "is" d'
      by (induction "is") (auto simp: Let_def split: if_splits)
    then show "\<not> def_published d \<Longrightarrow> ?thesis"
      using d by (fastforce simp: GetPublishedWorkflowByID_def Let_def split: option.splits)
  qed
  show ?thesis
  proof (cases "x = def_id d")
    case True
    show ?thesis
      using d unpub new fp [of x] unfolding True
      by (cases "def_published d") (simp_all add: GetPublishedWorkflowByID_def at Let_def)
  next
    case False
    have "map_of (defs ?s) (last (at_key (defsByName s) x)) = map_of (defs s) (last (at_key (defsByName s) x))"
      if "at_key (defsByName s) x \<noteq> []" using same that last_in_set by blast
    then show ?thesis using False fp [of x] by (auto simp: GetPublishedWorkflowByID_def at Let_def split: option.split)
  qed
qed

lemma indexed_upsert:
  "indexed s \<Longrightarrow> map_of (defs s) row = None \<Longrightarrow> indexed (UpsertWorkflowDefinition row d s)"
  by (fastforce simp: indexed_def UpsertWorkflowDefinition_def at_key_def)

text \<open>What \<open>start_run\<close> leaves behind, for a publisher that accepts.\<close>

definition started ::
  "saga_trigger \<Rightarrow> uuid option \<Rightarrow> gomap \<Rightarrow> workflow_definition \<Rightarrow> string \<Rightarrow> saga_run \<Rightarrow> bool" where
  "started trig tenantID inputs d startStep r \<longleftrightarrow> run_state r = RunStatePending
     \<and> run_trigger_id r = Some (trig_id trig) \<and> run_tenant_id r = tenantID \<and> run_inputs r = inputs
     \<and> run_workflow_id r = def_id d \<and> run_current_step r = startStep"

lemma start_run_effect:
  assumes fr: "rows_fresh e w" and ix: "indexed (st w)" and acc: "\<And>w i. p w i = None"
    and d: "GetPublishedWorkflowByID (st w) (def_id d) = Inr d"
  shows "\<exists>w' i r. start_run e (Some p) providers trig tenantID inputs d startStep w = (None, w')
    \<and> GetRun (st w) i = Inl (ErrNotFound ''saga_run'' i)
    \<and> GetRun (st w') i = Inr r \<and> started trig tenantID inputs d startStep r
    \<and> (\<forall>j. j \<noteq> i \<longrightarrow> GetRun (st w') j = GetRun (st w) j)
    \<and> queue w' = queue w @ [i] \<and> outbox w' = outbox w \<and> clk w' = clk w
    \<and> map (\<lambda>f. (fire_trigger_id f, fire_resulting_run_id f)) (triggerFires (st w'))
      = map (\<lambda>f. (fire_trigger_id f, fire_resulting_run_id f)) (triggerFires (st w)) @ [(trig_id trig, Some i)]
    \<and> triggers (st w') = triggers (st w) \<and> rows_fresh e w' \<and> indexed (st w')
    \<and> (\<forall>x. GetPublishedWorkflowByID (st w') x = GetPublishedWorkflowByID (st w) x)
    \<and> (store_wf (st w) \<longrightarrow> store_wf (st w'))"
proof -
  define row where "row = uuid_new e (draws w)"
  define i where "i = uuid_new e (Suc (draws w))"
  define run where "run = (NewSagaRun i (wall w) (def_id d) row tenantID inputs)
    \<lparr>run_current_step := startStep, run_trigger_id := Some (trig_id trig)\<rparr>"
  define s1 where "s1 = UpsertWorkflowDefinition row d (st w)"
  define w3 where "w3 = w\<lparr>draws := Suc (Suc (draws w)), st := CreateRun run s1\<rparr>"
  define w4 where "w4 = InjectStartupVariables i tenantID providers w3"
  define w5 where "w5 = w4\<lparr>queue := queue w4 @ [i]\<rparr>"
  define w6 where "w6 = w5\<lparr>draws := Suc (draws w5), st := RecordTriggerFire (uuid_new e (draws w5)) (wall w5)
    (trig_id trig) (trig_workflow_id trig) (Some i) [] (st w5)\<rparr>"
  have run: "run_id run = i" "started trig tenantID inputs d startStep run"
    by (simp_all add: run_def NewSagaRun_def started_def)
  have eq: "start_run e (Some p) providers trig tenantID inputs d startStep w = (None, w6)"
    using acc by (simp add: start_run_def fresh_def do_store_def publish_accepts Let_def
        row_def [symmetric] i_def [symmetric] run_def [symmetric] s1_def [symmetric] w3_def [symmetric]
        w4_def [symmetric]) (simp add: w6_def w5_def)
  have row0: "map_of (defs (st w)) row = None" using fr by (simp add: rows_fresh_def row_def)
  have i0: "map_of (runs (st w)) i = None" using fr by (simp add: rows_fresh_def i_def)
  have get3: "GetRun (st w3) i = Inr run" using run(1) by (simp add: w3_def GetRun_iff CreateRun_def)
  obtain v where w4: "w4 = w3 \<or> w4 = put_run i (run\<lparr>run_variables := v\<rparr>) w3"
    using Inject_put_run [OF get3, of tenantID providers] by (auto simp: w4_def)
  obtain r where r: "GetRun (st w6) i = Inr r" "started trig tenantID inputs d startStep r"
  proof
    let ?r = "if w4 = w3 then run else run\<lparr>run_variables := v\<rparr>"
    show "GetRun (st w6) i = Inr ?r"
      using w4 get3 by (auto simp: w6_def w5_def RecordTriggerFire_def GetRun_iff put_run_def)
    show "started trig tenantID inputs d startStep ?r" using run(2) by (simp add: started_def)
  qed
  have frame: "triggers (st w6) = triggers (st w)" "defs (st w6) = defs s1" "defsByName (st w6) = defsByName s1"
    "queue w6 = queue w @ [i]" "outbox w6 = outbox w" "clk w6 = clk w" "draws w6 = Suc (Suc (Suc (draws w)))"
    "map (\<lambda>f. (fire_trigger_id f, fire_resulting_run_id f)) (triggerFires (st w6))
      = map (\<lambda>f. (fire_trigger_id f, fire_resulting_run_id f)) (triggerFires (st w)) @ [(trig_id trig, Some i)]"
    using w4 by (auto simp: w6_def w5_def RecordTriggerFire_def put_run_def w3_def CreateRun_def s1_def
        UpsertWorkflowDefinition_def)
  have others: "map_of (runs (st w6)) j = map_of (runs (st w)) j" if "j \<noteq> i" for j
    using w4 that run(1) by (auto simp: w6_def w5_def RecordTriggerFire_def put_run_def w3_def CreateRun_def
        s1_def UpsertWorkflowDefinition_def)
  have pub: "GetPublishedWorkflowByID (st w6) x = GetPublishedWorkflowByID s1 x" for x
  proof -
    have "first_published (st w6) is = first_published s1 is" for "is"
      by (rule first_published_cong) (simp add: frame)
    then show ?thesis by (simp add: GetPublishedWorkflowByID_def frame Let_def split: option.split)
  qed
  have fresh6: "rows_fresh e w6"
    unfolding rows_fresh_def frame(7)
  proof (intro conjI allI impI)
    show inj: "inj (uuid_new e)" using fr by (simp add: rows_fresh_def)
    fix n assume n: "Suc (Suc (Suc (draws w))) \<le> n"
    have "uuid_new e n \<noteq> i" "uuid_new e n \<noteq> row"
      using n injD [OF inj] by (force simp: i_def row_def)+
    then show "map_of (runs (st w6)) (uuid_new e n) = None" "map_of (defs (st w6)) (uuid_new e n) = None"
      using fr n others by (simp_all add: rows_fresh_def frame s1_def UpsertWorkflowDefinition_def)
  qed
  have "store_wf (st w6)" if wf: "store_wf (st w)"
  proof -
    have "store_step s1 (st w3)" by (simp add: w3_def store_step.create_run run_def NewSagaRun_def)
    then have wf3: "store_wf (st w3)"
      using store_step_wf wf_UpsertWorkflowDefinition [OF wf row0] by (auto simp: s1_def)
    have "run_wf i (run\<lparr>run_variables := v\<rparr>)" by (simp add: run_wf_def run_def NewSagaRun_def)
    then have "store_wf (st w4)" using w4 wf3 by (auto simp: put_run_def wf_set_run)
    then show ?thesis unfolding w6_def w5_def using store_step_wf [OF store_step.record_fire] by simp
  qed
  moreover have "indexed (st w6)"
    using indexed_upsert [OF ix row0] by (simp add: indexed_def frame s1_def)
  moreover have "GetRun (st w) i = Inl (ErrNotFound ''saga_run'' i)" using i0 by (simp add: GetRun_def)
  moreover have "GetRun (st w6) j = GetRun (st w) j" if "j \<noteq> i" for j using others [OF that] by (simp add: GetRun_def)
  ultimately show ?thesis
    using eq r frame fresh6 pub published_upsert [OF ix row0 d] by (intro exI [of _ w6] exI [of _ i] exI [of _ r])
      (simp add: s1_def)
qed

text \<open>
  A trigger can start a run when its workflow is found and its entry point exists.
\<close>

definition startable :: "mem_store \<Rightarrow> gomap \<Rightarrow> saga_trigger \<Rightarrow> bool" where
  "startable s body trig \<longleftrightarrow> transition_matches body trig \<and>
     (case GetPublishedWorkflowByID s (trig_workflow_id trig) of
        Inl _ \<Rightarrow> False
      | Inr d \<Rightarrow> is_ok (ResolveEntry d (get_str (trig_config trig) ''entrypoint'')))"

definition started_for :: "env \<Rightarrow> mem_store \<Rightarrow> gomap \<Rightarrow> saga_trigger \<Rightarrow> saga_run \<Rightarrow> bool" where
  "started_for e s body trig r \<longleftrightarrow>
     (\<exists>d startStep. GetPublishedWorkflowByID s (trig_workflow_id trig) = Inr d
        \<and> ResolveEntry d (get_str (trig_config trig) ''entrypoint'') = Inr startStep
        \<and> started trig (trigger_tenant e body trig)
            (mapInputs body (or_default (get_map (trig_config trig) ''input_mapping'') [])) d startStep r)"

text \<open>
  From \<open>w\<close> to \<open>w'\<close> exactly the runs \<open>ids\<close> were started, one for each of the triggers \<open>ts\<close> and each as \<open>sf\<close>
  says.
\<close>

definition starts_by ::
  "(saga_trigger \<Rightarrow> saga_run \<Rightarrow> bool) \<Rightarrow> saga_trigger list \<Rightarrow> uuid list \<Rightarrow> world \<Rightarrow> world \<Rightarrow> bool" where
  "starts_by sf ts ids w w' \<longleftrightarrow>
     list_all2 (\<lambda>t i. (\<exists>err. GetRun (st w) i = Inl err) \<and> (\<exists>r. GetRun (st w') i = Inr r \<and> sf t r)) ts ids
     \<and> distinct ids \<and> (\<forall>j. j \<notin> set ids \<longrightarrow> GetRun (st w') j = GetRun (st w) j)
     \<and> queue w' = queue w @ ids \<and> outbox w' = outbox w
     \<and> map (\<lambda>f. (fire_trigger_id f, fire_resulting_run_id f)) (triggerFires (st w'))
       = map (\<lambda>f. (fire_trigger_id f, fire_resulting_run_id f)) (triggerFires (st w))
         @ zip (map trig_id ts) (map Some ids)"

definition starts :: "env \<Rightarrow> gomap \<Rightarrow> saga_trigger list \<Rightarrow> uuid list \<Rightarrow> world \<Rightarrow> world \<Rightarrow> bool" where
  "starts e body ts ids w w' \<longleftrightarrow> starts_by (started_for e (st w) body) ts ids w w'"

lemmas starts_iff = starts_def starts_by_def

lemma starts_by_Nil: "starts_by sf [] [] w w"
  by (simp add: starts_by_def)

lemma starts_by_Cons:
  assumes one: "GetRun (st w) i = Inl err" "GetRun (st w1) i = Inr r" "sf t r"
      "\<forall>j. j \<noteq> i \<longrightarrow> GetRun (st w1) j = GetRun (st w) j" "queue w1 = queue w @ [i]" "outbox w1 = outbox w"
      "map (\<lambda>f. (fire_trigger_id f, fire_resulting_run_id f)) (triggerFires (st w1))
        = map (\<lambda>f. (fire_trigger_id f, fire_resulting_run_id f)) (triggerFires (st w)) @ [(trig_id t, Some i)]"
    and rest: "starts_by sf ts ids w1 w'"
  shows "starts_by sf (t # ts) (i # ids) w w'"
proof -
  have R: "list_all2 (\<lambda>t i. (\<exists>err. GetRun (st w1) i = Inl err)
      \<and> (\<exists>r. GetRun (st w') i = Inr r \<and> sf t r)) ts ids"
    "distinct ids" "\<forall>j. j \<notin> set ids \<longrightarrow> GetRun (st w') j = GetRun (st w1) j"
    using rest by (simp_all add: starts_by_def)
  have "GetRun (st w1) j \<noteq> Inr r'" if "j \<in> set ids" for j r'
    using R(1) that by (force simp: list_all2_conv_all_nth in_set_conv_nth)
  then have i: "i \<notin> set ids" using one(2) by blast
  have "list_all2 (\<lambda>t i. (\<exists>err. GetRun (st w) i = Inl err)
      \<and> (\<exists>r. GetRun (st w') i = Inr r \<and> sf t r)) ts ids"
    using R(1) by (rule list_all2_mono) (use one(2,4) in \<open>metis Inl_Inr_False\<close>)
  then show ?thesis using one R i rest by (simp add: starts_by_def)
qed

lemma starts_Cons:
  assumes one: "GetRun (st w) i = Inl err" "GetRun (st w1) i = Inr r" "started_for e (st w) body t r"
      "\<forall>j. j \<noteq> i \<longrightarrow> GetRun (st w1) j = GetRun (st w) j" "queue w1 = queue w @ [i]" "outbox w1 = outbox w"
      "map (\<lambda>f. (fire_trigger_id f, fire_resulting_run_id f)) (triggerFires (st w1))
        = map (\<lambda>f. (fire_trigger_id f, fire_resulting_run_id f)) (triggerFires (st w)) @ [(trig_id t, Some i)]"
    and same: "\<And>x. GetPublishedWorkflowByID (st w1) x = GetPublishedWorkflowByID (st w) x"
    and rest: "starts e body ts ids w1 w'"
  shows "starts e body (t # ts) (i # ids) w w'"
proof -
  have "started_for e (st w1) body = started_for e (st w) body" by (intro ext) (simp add: started_for_def same)
  then show ?thesis using starts_by_Cons [where sf = "started_for e (st w) body", OF one] rest by (simp add: starts_def)
qed

lemma dispatch_loop_starts:
  assumes "rows_fresh e w" and "indexed (st w)" and "\<And>w i. p w i = None"
  shows "\<exists>w' ids. dispatch_loop e (Some p) providers body None ts w = (None, w')
    \<and> starts e body (filter (startable (st w) body) ts) ids w w'
    \<and> rows_fresh e w' \<and> indexed (st w') \<and> (store_wf (st w) \<longrightarrow> store_wf (st w'))
    \<and> triggers (st w') = triggers (st w)
    \<and> (\<forall>x. GetPublishedWorkflowByID (st w') x = GetPublishedWorkflowByID (st w) x)"
  using assms(1,2)
proof (induction ts arbitrary: w)
  case Nil
  then show ?case by (auto simp: starts_iff intro!: exI [of _ "[]"])
next
  case (Cons t ts)
  show ?case
  proof (cases "startable (st w) body t")
    case False
    then have "dispatch_loop e (Some p) providers body None (t # ts) w
        = dispatch_loop e (Some p) providers body None ts w"
      by (auto simp: startable_def split: sum.splits)
    then show ?thesis using Cons False by simp
  next
    case True
    then obtain d startStep where m: "transition_matches body t"
      and d: "GetPublishedWorkflowByID (st w) (trig_workflow_id t) = Inr d"
      and s: "ResolveEntry d (get_str (trig_config t) ''entrypoint'') = Inr startStep"
      by (auto simp: startable_def split: sum.splits)
    have id: "def_id d = trig_workflow_id t" using published_id [OF Cons.prems(2) d] .
    let ?in = "mapInputs body (or_default (get_map (trig_config t) ''input_mapping'') [])"
    from start_run_effect [where p = p and trig = t and tenantID = "trigger_tenant e body t" and inputs = ?in
        and startStep = startStep and providers = providers, OF Cons.prems assms(3), of d] d id
    obtain w1 i r where w1: "start_run e (Some p) providers t (trigger_tenant e body t) ?in d startStep w = (None, w1)"
      and one: "GetRun (st w) i = Inl (ErrNotFound ''saga_run'' i)" "GetRun (st w1) i = Inr r"
        "started t (trigger_tenant e body t) ?in d startStep r"
        "\<forall>j. j \<noteq> i \<longrightarrow> GetRun (st w1) j = GetRun (st w) j" "queue w1 = queue w @ [i]" "outbox w1 = outbox w"
        "map (\<lambda>f. (fire_trigger_id f, fire_resulting_run_id f)) (triggerFires (st w1))
          = map (\<lambda>f. (fire_trigger_id f, fire_resulting_run_id f)) (triggerFires (st w)) @ [(trig_id t, Some i)]"
      and ok: "rows_fresh e w1" "indexed (st w1)"
      and keep: "triggers (st w1) = triggers (st w)" "store_wf (st w) \<longrightarrow> store_wf (st w1)"
      and same: "\<And>x. GetPublishedWorkflowByID (st w1) x = GetPublishedWorkflowByID (st w) x" by auto
    have st: "startable (st w1) body = startable (st w) body" by (rule ext) (simp add: startable_def same)
    from Cons.IH [OF ok] obtain w' ids
      where w': "dispatch_loop e (Some p) providers body None ts w1 = (None, w')"
        "starts e body (filter (startable (st w) body) ts) ids w1 w'"
      and keep': "rows_fresh e w'" "indexed (st w')" "store_wf (st w1) \<longrightarrow> store_wf (st w')"
        "triggers (st w') = triggers (st w1)"
        "\<And>x. GetPublishedWorkflowByID (st w') x = GetPublishedWorkflowByID (st w1) x"
      by (auto simp: st)
    have "dispatch_loop e (Some p) providers body None (t # ts) w = (None, w')"
      using m d s w1 w'(1) by simp
    moreover have "started_for e (st w) body t r" using d s one(3) by (auto simp: started_for_def)
    then have "starts e body (filter (startable (st w) body) (t # ts)) (i # ids) w w'"
      using starts_Cons [OF one(1,2) _ one(4-7) same w'(2)] True by simp
    ultimately show ?thesis using keep keep' same by (intro exI [of _ w'] exI [of _ "i # ids"]) simp
  qed
qed

text \<open>
  A record transition starts exactly the runs its triggers ask for: one per enabled trigger whose
  record type and states match and whose workflow and entry point exist, at that entry
  point, with the mapped inputs and the trigger's or event's tenant. Each is published once and its fire
  recorded; existing runs are untouched, and an event on any other topic or without a JSON
  body starts nothing.
\<close>

theorem transition_starts_runs:
  assumes "store_wf (st w)" and "rows_fresh e w" and "\<And>w i. p w i = None"
    and "ts = ListTriggers \<lparr>tfilter_type = Some TriggerRecordTransition, tfilter_enabled = Some True,
      tfilter_tenant_id = None\<rparr> (st w)"
  shows "\<exists>w' ids. Dispatch e (Some p) providers evt w = (None, w')
    \<and> (case ed_json evt of
         Some body \<Rightarrow>
           (if isRecordTransitionTopic (ed_topic evt)
            then starts e body (filter (startable (st w) body) ts) ids w w' else w' = w)
       | None \<Rightarrow> w' = w)"
  using dispatch_loop_starts [where p = p, OF assms(2) store_wf_indexed [OF assms(1)] assms(3)]
  by (auto simp: Dispatch_def assms(4) split: option.split) blast

definition ticket_trigger :: saga_trigger where
  "ticket_trigger = sample_trigger\<lparr>trig_type := TriggerRecordTransition, trig_next_fire_at := None,
     trig_config := [(''record_type'', VStr ''ticket''), (''from_state'', VStr ''open''),
       (''to_state'', VStr ''done''), (''input_mapping'', VMap [(''id'', VStr ''$.record_id'')])]\<rparr>"

definition trigger_world :: "saga_trigger \<Rightarrow> world" where
  "trigger_world t = test_world\<lparr>st := snd (UpsertTrigger ''t1'' 1 t
     (UpsertWorkflowDefinition ''r0'' (sample_def True) New))\<rparr>"

lemma trigger_world_ok: "store_wf (st (trigger_world t))" "rows_fresh test_env (trigger_world t)"
proof -
  let ?s = "UpsertWorkflowDefinition ''r0'' (sample_def True) New"
  have "store_step New ?s" by (rule store_step.upsert_def) (simp add: New_def)
  moreover have "store_step ?s (snd (UpsertTrigger ''t1'' 1 t ?s))"
    by (rule store_step.upsert_trigger [of "''t1''" 1 t _ "fst (UpsertTrigger ''t1'' 1 t ?s)"]) simp
  ultimately have "store_steps New (snd (UpsertTrigger ''t1'' 1 t ?s))" by (simp add: rtranclp.rtrancl_into_rtrancl)
  then show "store_wf (st (trigger_world t))" using store_reachable_wf by (simp add: trigger_world_def)
  have "show_nat n \<noteq> ''r0''" for n using show_nat_no_r [of n] by auto
  then show "rows_fresh test_env (trigger_world t)"
    by (auto simp: rows_fresh_def trigger_world_def test_env_def test_world_def UpsertTrigger_def New_def Let_def
        UpsertWorkflowDefinition_def inj_def dest: show_nat_inj)
qed

theorem transition_starts_runs_witness:
  "\<exists>w' i r. Dispatch test_env (Some (\<lambda>_ _. None)) []
      \<lparr>ed_topic = ''a.record.transitioned.ticket'', ed_headers = [],
       ed_json = Some [(''record_type'', VStr ''ticket''), (''from_state'', VStr ''open''),
         (''to_state'', VStr ''done''), (''record_id'', VStr ''c1'')]\<rparr> (trigger_world ticket_trigger) = (None, w')
    \<and> queue w' = [i] \<and> GetRun (st w') i = Inr r \<and> run_inputs r = [(''id'', VStr ''c1'')]"
proof -
  let ?body = "[(''record_type'', VStr ''ticket''), (''from_state'', VStr ''open''),
         (''to_state'', VStr ''done''), (''record_id'', VStr ''c1'')]"
  let ?evt = "\<lparr>ed_topic = ''a.record.transitioned.ticket'', ed_headers = [], ed_json = Some ?body\<rparr>"
  let ?w = "trigger_world ticket_trigger"
  let ?ts = "ListTriggers \<lparr>tfilter_type = Some TriggerRecordTransition, tfilter_enabled = Some True,
      tfilter_tenant_id = None\<rparr> (st ?w)"
  have topic: "isRecordTransitionTopic ''a.record.transitioned.ticket''" by (simp add: isRecordTransitionTopic_def)
  have ts: "filter (startable (st ?w) ?body) ?ts = [ticket_trigger]"
    by (simp add: ListTriggers_def trigger_matches_def trigger_world_def UpsertTrigger_def ticket_trigger_def
        sample_trigger_def Let_def uuid_Nil_def UpsertWorkflowDefinition_def New_def startable_def
        transition_matches_def get_str_def GetPublishedWorkflowByID_def at_key_def sample_def_def
        ResolveEntry_def)
  have inputs: "mapInputs ?body (or_default (get_map (trig_config ticket_trigger) ''input_mapping'') [])
      = [(''id'', VStr ''c1'')]"
    by (simp add: ticket_trigger_def get_map_def mapInputs_def map_input_def trim_prefix_def)
  have q: "queue ?w = []" by (simp add: trigger_world_def test_world_def)
  from transition_starts_runs [OF trigger_world_ok(1) [of ticket_trigger] trigger_world_ok(2), where p = "\<lambda>_ _. None"
      and evt = ?evt and providers = "[]", OF refl refl] obtain w' ids
    where w': "Dispatch test_env (Some (\<lambda>_ _. None)) [] ?evt ?w = (None, w')"
      and "starts test_env ?body [ticket_trigger] ids ?w w'" using topic ts by auto
  then show ?thesis
    using q inputs by (cases ids) (auto simp: starts_iff started_for_def started_def)
qed

section \<open>Cron passes\<close>

lemma start_run_triggers:
  "triggers (st (snd (start_run e pub ps tr tid inp d s w))) = triggers (st w)"
  "clk (snd (start_run e pub ps tr tid inp d s w)) = clk w"
proof -
  have inj: "triggers (st (InjectStartupVariables i t ps w)) = triggers (st w)"
    "clk (InjectStartupVariables i t ps w) = clk w" for i t w
    by (simp_all add: InjectStartupVariables_def Let_def as_with_run try_store_def with_run_def
        split: option.split)
  show "triggers (st (snd (start_run e pub ps tr tid inp d s w))) = triggers (st w)"
    "clk (snd (start_run e pub ps tr tid inp d s w)) = clk w"
    by (auto simp: start_run_def fresh_def do_store_def RecordTriggerFire_def CreateRun_def
        UpsertWorkflowDefinition_def PublishSagaAdvance_def inj Let_def split: option.split)
qed

lemma cron_startRun_triggers:
  "triggers (st (snd (cron_startRun e pub ps tr w))) = triggers (st w)"
  "clk (snd (cron_startRun e pub ps tr w)) = clk w"
  by (simp_all add: cron_startRun_def start_run_triggers split: sum.split)

text \<open>The trigger table after a pass: every due trigger with a valid schedule has moved to its next fire.\<close>

definition fired :: "gotime \<Rightarrow> saga_trigger \<Rightarrow> saga_trigger" where
  "fired n tr = tr\<lparr>trig_next_fire_at := Some n, trig_last_fired_at := Some n\<rparr>"

definition refired ::
  "env \<Rightarrow> schedule_parser \<Rightarrow> gotime \<Rightarrow> saga_trigger list \<Rightarrow> (uuid \<rightharpoonup> saga_trigger) \<Rightarrow> (uuid \<rightharpoonup> saga_trigger)" where
  "refired e sched now trs tab i =
     (case find (\<lambda>tr. trig_id tr = i) trs of
        None \<Rightarrow> tab i
      | Some tr \<Rightarrow> (case next_fire e sched now tr of None \<Rightarrow> tab i | Some n \<Rightarrow> Some (fired n tr)))"

lemma claim_wins_row:
  assumes "map_of (triggers s) (trig_id tr) = Some tr" and "trig_next_fire_at tr \<noteq> None"
  shows "ClaimCronFire (trig_id tr) (or_default (trig_next_fire_at tr) 0) n s
    = (True, s\<lparr>triggers := AList.update (trig_id tr) (fired n tr) (triggers s)\<rparr>)"
  using assms by (auto simp: ClaimCronFire_def fired_def)

lemma fire_loop_triggers:
  assumes "distinct (map trig_id trs)"
    and "\<forall>tr \<in> set trs. map_of (triggers (st w)) (trig_id tr) = Some tr \<and> trig_next_fire_at tr \<noteq> None"
    and "fire_loop e sched lic pub ps now fe trs w = (r, w')"
  shows "clk w' = clk w \<and> map_of (triggers (st w')) = refired e sched now trs (map_of (triggers (st w)))
    \<and> (keys_distinct (triggers (st w)) \<longrightarrow> keys_distinct (triggers (st w')))"
  using assms
proof (induction trs arbitrary: w fe)
  case Nil
  then show ?case by (simp add: refired_def fun_eq_iff)
next
  case (Cons tr trs)
  have apart: "trig_id x \<noteq> trig_id tr" if "x \<in> set trs" for x using Cons.prems(1) that by (metis distinct.simps(2) image_eqI list.simps(9) list.set_map)
  show ?case
  proof (cases "next_fire e sched now tr")
    case None
    then have "fire_loop e sched lic pub ps now fe trs w = (r, w')" using Cons.prems(3) by simp
    from Cons.IH [OF _ _ this] Cons.prems(1,2) have
      "clk w' = clk w \<and> map_of (triggers (st w')) = refired e sched now trs (map_of (triggers (st w)))
        \<and> (keys_distinct (triggers (st w)) \<longrightarrow> keys_distinct (triggers (st w')))" by simp
    moreover have "find (\<lambda>x. trig_id x = trig_id tr) trs = None" using apart by (auto simp: find_None_iff)
    ultimately show ?thesis using None by (auto simp: refired_def fun_eq_iff)
  next
    case (Some n)
    define w1 where "w1 = w\<lparr>st := (st w)\<lparr>triggers := AList.update (trig_id tr) (fired n tr) (triggers (st w))\<rparr>\<rparr>"
    have claim: "ClaimCronFire (trig_id tr) (or_default (trig_next_fire_at tr) 0) n (st w) = (True, st w1)"
      using claim_wins_row [of "st w" tr n] Cons.prems(2) by (simp add: w1_def)
    obtain w2 fe' where w2: "fire_loop e sched lic pub ps now fe' trs w2 = (r, w')"
      and t2: "triggers (st w2) = triggers (st w1)" "clk w2 = clk w"
    proof (cases "lic (trig_tenant_id tr) FeatureCronTriggers [] = Inr True")
      case True
      obtain r1 w3 where s: "cron_startRun e pub ps tr w1 = (r1, w3)" by fastforce
      then have "fire_loop e sched lic pub ps now (if fe = None then r1 else fe) trs w3 = (r, w')"
        using Cons.prems(3) Some claim True by (simp add: w1_def)
      then show ?thesis using that cron_startRun_triggers [of e pub ps tr w1] s by (simp add: w1_def)
    next
      case False
      then have "fire_loop e sched lic pub ps now fe trs w1 = (r, w')"
        using Cons.prems(3) Some claim by (simp add: w1_def)
      then show ?thesis using that [of fe w1] by (simp add: w1_def)
    qed
    have "\<forall>x \<in> set trs. map_of (triggers (st w2)) (trig_id x) = Some x \<and> trig_next_fire_at x \<noteq> None"
      using Cons.prems(2) apart by (simp add: t2 w1_def)
    from Cons.IH [OF _ this w2] Cons.prems(1) have ih:
      "clk w' = clk w2" "map_of (triggers (st w')) = refired e sched now trs (map_of (triggers (st w2)))"
      "keys_distinct (triggers (st w2)) \<longrightarrow> keys_distinct (triggers (st w'))" by simp_all
    have none: "find (\<lambda>x. trig_id x = trig_id tr) trs = None" using apart by (auto simp: find_None_iff)
    have "refired e sched now trs (map_of (triggers (st w2))) i
        = refired e sched now (tr # trs) (map_of (triggers (st w))) i" for i
    proof (cases "i = trig_id tr")
      case True
      then show ?thesis using none Some by (simp add: refired_def t2 w1_def)
    next
      case False
      then show ?thesis by (auto simp: refired_def t2 w1_def split: option.split)
    qed
    then show ?thesis using ih t2 by (simp add: w1_def fun_eq_iff)
  qed
qed

lemma fire_loop_skips:
  "\<forall>tr \<in> set trs. next_fire e sched now tr = None \<Longrightarrow> fire_loop e sched lic pub ps now fe trs w = (fe, w)"
  by (induction trs) simp_all

text \<open>A cron trigger that starts a run when it is claimed, and the run it starts.\<close>

definition cron_startable :: "env \<Rightarrow> schedule_parser \<Rightarrow> resolver \<Rightarrow> gotime \<Rightarrow> mem_store \<Rightarrow> saga_trigger \<Rightarrow> bool" where
  "cron_startable e sched lic now s t \<longleftrightarrow> next_fire e sched now t \<noteq> None
     \<and> lic (trig_tenant_id t) FeatureCronTriggers [] = Inr True
     \<and> (case GetPublishedWorkflowByID s (trig_workflow_id t) of
          Inl _ \<Rightarrow> False
        | Inr d \<Rightarrow> is_ok (ResolveEntry d (get_str (trig_config t) ''entrypoint'')))"

definition cron_started_for :: "mem_store \<Rightarrow> saga_trigger \<Rightarrow> saga_run \<Rightarrow> bool" where
  "cron_started_for s t r \<longleftrightarrow>
     (\<exists>d startStep. GetPublishedWorkflowByID s (trig_workflow_id t) = Inr d
        \<and> ResolveEntry d (get_str (trig_config t) ''entrypoint'') = Inr startStep
        \<and> started t (trig_tenant_id t) (or_default (get_map (trig_config t) ''input'') []) d startStep r)"

lemma fire_loop_starts:
  assumes acc: "\<And>w i. p w i = None" and "rows_fresh e w" and "indexed (st w)"
    and "distinct (map trig_id trs)"
    and "\<forall>tr \<in> set trs. map_of (triggers (st w)) (trig_id tr) = Some tr \<and> trig_next_fire_at tr \<noteq> None"
    and "fire_loop e sched lic (Some p) ps now fe trs w = (r, w')"
  shows "\<exists>ids. starts_by (cron_started_for (st w)) (filter (cron_startable e sched lic now (st w)) trs) ids w w'"
  using assms(2-6)
proof (induction trs arbitrary: w fe)
  case Nil
  then show ?case using starts_by_Nil by auto
next
  case (Cons tr trs)
  have apart: "trig_id x \<noteq> trig_id tr" if "x \<in> set trs" for x
    using Cons.prems(3) that by (metis distinct.simps(2) image_eqI list.set_map list.simps(9))
  show ?case
  proof (cases "next_fire e sched now tr")
    case None
    then have "fire_loop e sched lic (Some p) ps now fe trs w = (r, w')" using Cons.prems(5) by simp
    from Cons.IH [OF Cons.prems(1,2) _ _ this] Cons.prems(3,4) None show ?thesis by (simp add: cron_startable_def)
  next
    case (Some n)
    define w1 where "w1 = w\<lparr>st := (st w)\<lparr>triggers := AList.update (trig_id tr) (fired n tr) (triggers (st w))\<rparr>\<rparr>"
    have claim: "ClaimCronFire (trig_id tr) (or_default (trig_next_fire_at tr) 0) n (st w) = (True, st w1)"
      using claim_wins_row [of "st w" tr n] Cons.prems(4) by (simp add: w1_def)
    have "first_published (st w1) is = first_published (st w) is" for "is"
      by (rule first_published_cong) (simp add: w1_def)
    then have same1: "GetPublishedWorkflowByID (st w1) x = GetPublishedWorkflowByID (st w) x" for x
      by (simp add: GetPublishedWorkflowByID_def w1_def Let_def split: option.split)
    have ok1: "rows_fresh e w1" "indexed (st w1)"
      using Cons.prems(1,2) by (simp_all add: rows_fresh_def indexed_def w1_def)
    have from1: "starts_by sf ts ids w1 v \<longleftrightarrow> starts_by sf ts ids w v" for sf ts ids v
      by (simp add: starts_by_def w1_def GetRun_def)
    have next1: "\<forall>x \<in> set trs. map_of (triggers (st v)) (trig_id x) = Some x \<and> trig_next_fire_at x \<noteq> None"
      if "triggers (st v) = triggers (st w1)" for v
      using Cons.prems(4) apart that by (simp add: w1_def)
    have cong: "cron_startable e sched lic now (st v) = cron_startable e sched lic now (st w)"
      "cron_started_for (st v) = cron_started_for (st w)"
      if "\<And>x. GetPublishedWorkflowByID (st v) x = GetPublishedWorkflowByID (st w) x" for v
      by (intro ext; simp add: cron_startable_def cron_started_for_def that)+
    show ?thesis
    proof (cases "cron_startable e sched lic now (st w) tr")
      case False
      obtain fe' where "fire_loop e sched lic (Some p) ps now fe' trs w1 = (r, w')"
        using Cons.prems(5) Some claim False same1
        by (auto simp: cron_startable_def cron_startRun_def w1_def Let_def split: sum.splits if_splits)
      from Cons.IH [OF ok1 _ next1 [OF refl] this] Cons.prems(3) False show ?thesis
        by (simp add: cong [OF same1] from1)
    next
      case True
      then obtain d startStep where d: "GetPublishedWorkflowByID (st w) (trig_workflow_id tr) = Inr d"
        and s: "ResolveEntry d (get_str (trig_config tr) ''entrypoint'') = Inr startStep"
        and l: "lic (trig_tenant_id tr) FeatureCronTriggers [] = Inr True"
        by (auto simp: cron_startable_def split: sum.splits)
      have id: "def_id d = trig_workflow_id tr" using published_id [OF Cons.prems(2) d] .
      let ?in = "or_default (get_map (trig_config tr) ''input'') []"
      from start_run_effect [where p = p and trig = tr and tenantID = "trig_tenant_id tr" and inputs = ?in
          and startStep = startStep and providers = ps, OF ok1 acc, of d] d id same1
      obtain w2 i r2 where w2: "start_run e (Some p) ps tr (trig_tenant_id tr) ?in d startStep w1 = (None, w2)"
        and one: "GetRun (st w1) i = Inl (ErrNotFound ''saga_run'' i)" "GetRun (st w2) i = Inr r2"
          "started tr (trig_tenant_id tr) ?in d startStep r2"
          "\<forall>j. j \<noteq> i \<longrightarrow> GetRun (st w2) j = GetRun (st w1) j" "queue w2 = queue w1 @ [i]" "outbox w2 = outbox w1"
          "map (\<lambda>f. (fire_trigger_id f, fire_resulting_run_id f)) (triggerFires (st w2))
            = map (\<lambda>f. (fire_trigger_id f, fire_resulting_run_id f)) (triggerFires (st w1)) @ [(trig_id tr, Some i)]"
        and keep: "rows_fresh e w2" "indexed (st w2)" "triggers (st w2) = triggers (st w1)"
        and same2: "\<And>x. GetPublishedWorkflowByID (st w2) x = GetPublishedWorkflowByID (st w) x" by auto
      have "cron_startRun e (Some p) ps tr w1 = (None, w2)"
        using d s w2 by (simp add: cron_startRun_def same1)
      then obtain fe' where loop: "fire_loop e sched lic (Some p) ps now fe' trs w2 = (r, w')"
        using Cons.prems(5) Some claim l by (auto simp: w1_def split: if_splits)
      from Cons.IH [OF keep(1,2) _ next1 [OF keep(3)] loop] Cons.prems(3)
      obtain ids where "starts_by (cron_started_for (st w)) (filter (cron_startable e sched lic now (st w)) trs) ids w2 w'"
        by (auto simp: cong [OF same2])
      moreover have "cron_started_for (st w) tr r2" using d s one(3) by (auto simp: cron_started_for_def)
      ultimately have "starts_by (cron_started_for (st w)) (tr # filter (cron_startable e sched lic now (st w)) trs) (i # ids) w1 w'"
        using starts_by_Cons [where sf = "cron_started_for (st w)", OF one(1,2) _ one(4-7)] by blast
      then show ?thesis using True from1 by auto
    qed
  qed
qed

lemma due_triggers:
  assumes "length (filter (cron_due now) (vals (triggers s))) \<le> 100"
  shows "mset (ListDueCronTriggers now 100 s) = mset (filter (cron_due now) (vals (triggers s)))"
proof -
  have "map cloneTrigger ts = ts" for ts by (simp add: map_idI)
  then show ?thesis using assms unfolding ListDueCronTriggers_def Let_def by simp
qed

text \<open>What a pass does to the due triggers, when there are at most as many as one pass reads.\<close>

lemma due_rows:
  assumes wf: "store_wf s" and few: "length (filter (cron_due now) (vals (triggers s))) \<le> 100"
    and trs: "trs = ListDueCronTriggers now 100 s"
  shows "distinct (map trig_id trs)"
    "t \<in> set trs \<longleftrightarrow> map_of (triggers s) (trig_id t) = Some t \<and> cron_due now t"
    "\<forall>t \<in> set trs. map_of (triggers s) (trig_id t) = Some t \<and> trig_next_fire_at t \<noteq> None"
proof -
  have rows: "keys_distinct (triggers s)" "\<And>i t. map_of (triggers s) i = Some t \<Longrightarrow> trig_id t = i"
    using wf by (auto simp: store_wf_def table_wf_def list_all_iff dest: map_of_SomeD)
  have ms: "mset trs = mset (filter (cron_due now) (vals (triggers s)))"
    using due_triggers [OF few] trs by simp
  show set: "t \<in> set trs \<longleftrightarrow> map_of (triggers s) (trig_id t) = Some t \<and> cron_due now t" for t
    using mset_eq_setD [OF ms] vals_map_of [OF rows(1)] rows(2) by auto
  have "map trig_id (vals (triggers s)) = map fst (triggers s)"
    using wf by (auto simp: store_wf_def table_wf_def list_all_iff)
  then have "distinct (map trig_id (filter (cron_due now) (vals (triggers s))))"
    using rows(1) by (metis distinct_map_filter)
  then show "distinct (map trig_id trs)" using ms by (metis mset_eq_imp_distinct_iff mset_map)
  show "\<forall>t \<in> set trs. map_of (triggers s) (trig_id t) = Some t \<and> trig_next_fire_at t \<noteq> None"
    using set by (auto simp: cron_due_def split: option.splits)
qed

definition after_pass :: "env \<Rightarrow> schedule_parser \<Rightarrow> gotime \<Rightarrow> saga_trigger \<Rightarrow> saga_trigger" where
  "after_pass e sched now t =
     (if cron_due now t then (case next_fire e sched now t of None \<Rightarrow> t | Some n \<Rightarrow> fired n t) else t)"

lemma fireDue_triggers:
  assumes wf: "store_wf (st w)" and few: "length (filter (cron_due (clk w)) (vals (triggers (st w)))) \<le> 100"
    and pass: "fireDue e sched lic pub ps w = (r, w')"
  shows "map_of (triggers (st w')) i = map_option (after_pass e sched (clk w)) (map_of (triggers (st w)) i)"
    "clk w' = clk w" "keys_distinct (triggers (st w'))"
proof -
  define trs where "trs = ListDueCronTriggers (clk w) 100 (st w)"
  note due = due_rows [OF wf few trs_def]
  have rows: "keys_distinct (triggers (st w))" "\<And>i t. map_of (triggers (st w)) i = Some t \<Longrightarrow> trig_id t = i"
    using wf by (auto simp: store_wf_def table_wf_def list_all_iff dest: map_of_SomeD)
  have "fire_loop e sched lic pub ps (clk w) None trs w = (r, w')"
    using pass by (simp add: fireDue_def trs_def)
  note eff = fire_loop_triggers [OF due(1,3) this]
  show "clk w' = clk w" "keys_distinct (triggers (st w'))" using eff rows(1) by blast+
  have hit: "x \<in> set trs \<and> trig_id x = i" if "find (\<lambda>x. trig_id x = i) trs = Some x" for x
    using that by (auto simp: find_Some_iff)
  show "map_of (triggers (st w')) i = map_option (after_pass e sched (clk w)) (map_of (triggers (st w)) i)"
  proof (cases "map_of (triggers (st w)) i")
    case None
    have "find (\<lambda>x. trig_id x = i) trs = None"
    proof (cases "find (\<lambda>x. trig_id x = i) trs")
      case (Some x)
      then show ?thesis using hit [OF Some] due(2) [of x] None by auto
    qed
    then show ?thesis using eff None by (simp add: refired_def)
  next
    case (Some t)
    then have t: "trig_id t = i" using rows(2) by blast
    show ?thesis
    proof (cases "cron_due (clk w) t")
      case True
      then have "t \<in> set trs" using due(2) [of t] Some t by simp
      then have "find (\<lambda>x. trig_id x = i) trs \<noteq> None" using t by (auto simp: find_None_iff)
      then obtain x where x: "find (\<lambda>x. trig_id x = i) trs = Some x" by blast
      then have "x = t" using hit [OF x] due(2) [of x] Some by auto
      then show ?thesis using eff Some x True by (simp add: refired_def after_pass_def split: option.split)
    next
      case False
      have "find (\<lambda>x. trig_id x = i) trs = None"
      proof (cases "find (\<lambda>x. trig_id x = i) trs")
        case (Some x)
        then show ?thesis using hit [OF Some] due(2) [of x] \<open>map_of (triggers (st w)) i = Some t\<close> False by auto
      qed
      then show ?thesis using eff Some False by (simp add: refired_def after_pass_def)
    qed
  qed
qed

text \<open>
  C37: A cron pass fires every due trigger once. Take a pass over at most a hundred due triggers, the number one pass
  reads, with a publisher that accepts, and suppose that the next fire computed for a due trigger, if its
  configuration is valid, lies after the present (a schedule that no date satisfies has none: the cron library answers
  the zero time for it). Then every due trigger with a valid configuration has its computed next fire as
  \<^verbatim>\<open>next_fire_at\<close> and \<^verbatim>\<open>last_fired_at\<close>, and no other trigger changes; one run is created, published and recorded for
  each of them whose tenant is licensed and whose workflow and entry point exist, and no other; and a second pass at
  the same instant, by this or another replica, changes nothing and starts nothing.
\<close>

theorem fireDue_idempotent:
  assumes "store_wf (st w)" and "rows_fresh e w" and "\<And>w i. p w i = None"
    and "length (filter (cron_due (clk w)) (vals (triggers (st w)))) \<le> 100"
    and "\<And>t n. t \<in> set (ListDueCronTriggers (clk w) 100 (st w)) \<Longrightarrow> next_fire e sched (clk w) t = Some n \<Longrightarrow> clk w < n"
    and "fireDue e sched lic (Some p) ps w = (r, w')"
  shows "(\<forall>i. map_of (triggers (st w')) i = map_option (\<lambda>t.
          if cron_due (clk w) t
          then case next_fire e sched (clk w) t of
                 None \<Rightarrow> t
               | Some n \<Rightarrow> t\<lparr>trig_next_fire_at := Some n, trig_last_fired_at := Some n\<rparr>
          else t) (map_of (triggers (st w)) i))
    \<and> (\<exists>ids. starts_by (cron_started_for (st w))
         (filter (cron_startable e sched lic (clk w) (st w)) (ListDueCronTriggers (clk w) 100 (st w))) ids w w')
    \<and> fireDue e sched lic (Some p) ps w' = (None, w')"
proof -
  define trs where "trs = ListDueCronTriggers (clk w) 100 (st w)"
  note due = due_rows [OF assms(1,4) trs_def]
  note after = fireDue_triggers [OF assms(1,4,6)]
  have loop: "fire_loop e sched lic (Some p) ps (clk w) None trs w = (r, w')"
    using assms(6) by (simp add: fireDue_def trs_def)
  have none: "next_fire e sched (clk w) t = None" if t: "t \<in> set (ListDueCronTriggers (clk w) 100 (st w'))" for t
  proof -
    have "t \<in> set (filter (cron_due (clk w)) (vals (triggers (st w'))))"
      using t by (auto simp: ListDueCronTriggers_def Let_def dest: in_set_takeD split: if_splits)
    then obtain i x where x: "map_of (triggers (st w)) i = Some x" "t = after_pass e sched (clk w) x"
      and now: "cron_due (clk w) t"
      using vals_map_of [OF after(3), of t] after(1) by auto
    have "trig_id x = i" using assms(1) x(1) by (auto simp: store_wf_def table_wf_def list_all_iff dest: map_of_SomeD)
    then have "x \<in> set trs" if "cron_due (clk w) x" using due(2) [of x] x(1) that by simp
    then show ?thesis
      using x(2) now assms(5) [of x] unfolding trs_def after_pass_def
      by (auto simp: cron_due_def fired_def split: if_splits option.splits)
  qed
  obtain ids where ids: "starts_by (cron_started_for (st w))
      (filter (cron_startable e sched lic (clk w) (st w)) trs) ids w w'"
    using fire_loop_starts [OF assms(3,2) store_wf_indexed [OF assms(1)] due(1,3) loop] by blast
  have again: "fireDue e sched lic (Some p) ps w' = (None, w')"
    using none fire_loop_skips after(2) by (simp add: fireDue_def)
  show ?thesis
    using after(1) ids again unfolding after_pass_def fired_def trs_def by blast
qed

text \<open>
  The hypothesis is needed. A trigger whose next fire is the zero time, which the library answers for a schedule
  like the thirtieth of February, is due again as soon as it has fired, so every pass starts another run.
\<close>

lemma zero_next_fire_stays_due:
  assumes "store_wf (st w)" and "length (filter (cron_due (clk w)) (vals (triggers (st w)))) \<le> 100"
    and "fireDue e sched lic pub ps w = (r, w')"
    and "map_of (triggers (st w)) i = Some t" and "cron_due (clk w) t"
    and "next_fire e sched (clk w) t = Some zero_time" and "zero_time \<le> later"
  shows "map_of (triggers (st w')) i = Some (fired zero_time t) \<and> cron_due later (fired zero_time t)"
  using fireDue_triggers(1) [OF assms(1-3), of i] assms(4-7)
  by (auto simp: after_pass_def cron_due_def fired_def split: option.splits)

definition every_minute :: schedule_parser where
  "every_minute x = Inr (\<lambda>t. t + 60)"

definition due_trigger :: saga_trigger where
  "due_trigger = sample_trigger\<lparr>trig_next_fire_at := Some 5\<rparr>"

theorem fireDue_idempotent_witness:
  "\<exists>w' i. snd (fireDue test_env every_minute StubAllowAll (Some (\<lambda>_ _. None)) [] (trigger_world due_trigger)) = w'
    \<and> queue w' = [i] \<and> map_of (triggers (st w')) ''t1'' = Some (fired 70 due_trigger)
    \<and> fireDue test_env every_minute StubAllowAll (Some (\<lambda>_ _. None)) [] w' = (None, w')"
proof -
  let ?w = "trigger_world due_trigger"
  have one: "triggers (st ?w) = [(''t1'', due_trigger)]" "clk ?w = 10" "queue ?w = []"
    by (simp_all add: trigger_world_def UpsertTrigger_def due_trigger_def sample_trigger_def Let_def
        uuid_Nil_def UpsertWorkflowDefinition_def New_def test_world_def)
  have now: "cron_due 10 due_trigger" by (simp add: cron_due_def due_trigger_def sample_trigger_def)
  then have due: "cron_due 10 due_trigger" "ListDueCronTriggers 10 100 (st ?w) = [due_trigger]"
    by (simp_all add: ListDueCronTriggers_def one Let_def insertion_sort_def insert_right_def)
  have nxt: "next_fire test_env every_minute 10 due_trigger = Some 70"
    by (simp add: next_fire_def due_trigger_def sample_trigger_def get_str_def every_minute_def Let_def)
  have able: "cron_startable test_env every_minute StubAllowAll 10 (st ?w) due_trigger"
    using nxt by (simp add: cron_startable_def StubAllowAll_def due_trigger_def sample_trigger_def trigger_world_def
        UpsertTrigger_def Let_def uuid_Nil_def UpsertWorkflowDefinition_def New_def GetPublishedWorkflowByID_def
        at_key_def sample_def_def ResolveEntry_def get_str_def)
  obtain r w' where pass: "fireDue test_env every_minute StubAllowAll (Some (\<lambda>_ _. None)) [] ?w = (r, w')"
    by fastforce
  have "length (filter (cron_due (clk ?w)) (vals (triggers (st ?w)))) \<le> 100"
    by (simp add: one)
  from fireDue_idempotent [OF trigger_world_ok _ this _ pass] obtain ids where
    "starts_by (cron_started_for (st ?w)) [due_trigger] ids ?w w'"
    "map_of (triggers (st w')) ''t1'' = Some (due_trigger\<lparr>trig_next_fire_at := Some 70, trig_last_fired_at := Some 70\<rparr>)"
    "fireDue test_env every_minute StubAllowAll (Some (\<lambda>_ _. None)) [] w' = (None, w')"
    using due nxt able by (auto simp: one)
  then show ?thesis using pass one(3) by (cases ids) (auto simp: starts_by_def fired_def)
qed

end
