(* ===== verification/Api.thy ===== *)
theory Api
  imports Triggers
begin

text \<open>
  The handlers of the REST API that start, list, cancel, signal and complete runs
  (\<^verbatim>\<open>api/handler_sagas.go\<close>, \<^verbatim>\<open>handler_signals.go\<close>, \<^verbatim>\<open>handler_user_tasks.go\<close>,
  \<^verbatim>\<open>handler_action_result.go\<close>, \<^verbatim>\<open>response.go\<close>). A handler is a function of the path parameters,
  the query, the decoded body and the world to a response and the world after it. What
  \<^verbatim>\<open>json.Decode\<close> makes of the body is an argument; errors the in-memory store cannot return have
  no branch.
\<close>

section \<open>Responses and parameters\<close>

datatype body =
    Empty
  | ErrorBody string string
  | StatusBody string
  | TextBody string
  | RunIdBody uuid
  | RunBody saga_run
  | RunsBody "saga_run list" int int int
  | DefBody workflow_definition
  | DefsBody "workflow_definition list" int int int
  | SavedBody uuid workflow_definition
  | StatsBody workflow_stats
  | RegisteredBody string string int
  | ActionsBody "action_registration list"
  | RuleBody gomap "evaluated_row list"
  | TriggerBody saga_trigger
  | TriggersBody "saga_trigger list"

record response =
  status :: int
  content :: body

definition WriteJSON :: "int \<Rightarrow> body \<Rightarrow> response" where
  "WriteJSON code b = \<lparr>status = code, content = b\<rparr>"

definition WriteError :: "int \<Rightarrow> string \<Rightarrow> string \<Rightarrow> response" where
  "WriteError code err msg = WriteJSON code (ErrorBody err msg)"

definition bad_request_response :: "string \<Rightarrow> response" where
  "bad_request_response msg = WriteError 400 ''bad_request'' msg"

definition internal_error :: "string \<Rightarrow> response" where
  "internal_error code = WriteError 500 code ''internal error''"

type_synonym query = "(string \<times> string) list"

definition query_get :: "query \<Rightarrow> string \<Rightarrow> string" where
  "query_get q k = or_default (map_of q k) []"

text \<open>\<^verbatim>\<open>strconv.Atoi\<close> and \<^verbatim>\<open>strconv.ParseBool\<close>; \<open>None\<close> is an error.\<close>

fun digits_value :: "int \<Rightarrow> string \<Rightarrow> int option" where
  "digits_value acc [] = Some acc"
| "digits_value acc (c # cs) =
     (let d = (of_char c :: int) - 48
      in if 0 \<le> d \<and> d \<le> 9 then digits_value (10 * acc + d) cs else None)"

definition Atoi :: "string \<Rightarrow> int option" where
  "Atoi s =
     (let (neg, ds) = (case s of
            c # cs \<Rightarrow> (if c = CHR ''-'' then (True, cs) else if c = CHR ''+'' then (False, cs) else (False, s))
          | [] \<Rightarrow> (False, s))
      in if ds = [] then None
         else case digits_value 0 ds of
           None \<Rightarrow> None
         | Some n \<Rightarrow>
             (let v = (if neg then - n else n)
              in if - (2 ^ 63) \<le> v \<and> v < 2 ^ 63 then Some v else None))"

definition ParseBool :: "string \<Rightarrow> bool option" where
  "ParseBool s =
     (if s \<in> {''1'', ''t'', ''T'', ''true'', ''TRUE'', ''True''} then Some True
      else if s \<in> {''0'', ''f'', ''F'', ''false'', ''FALSE'', ''False''} then Some False
      else None)"

text \<open>The limit and offset parameters, which two handlers parse alike.\<close>

definition parse_limit :: "query \<Rightarrow> response + int" where
  "parse_limit q =
     (let raw = query_get q ''limit''
      in if raw = [] then Inr 50
         else case Atoi raw of
           None \<Rightarrow> Inl (bad_request_response ''limit must be an integer >= 1'')
         | Some v \<Rightarrow>
             (if v < 1 then Inl (bad_request_response ''limit must be an integer >= 1'')
              else if v > 500 then Inl (bad_request_response ''limit must be <= 500'')
              else Inr v))"

definition parse_offset :: "query \<Rightarrow> response + int" where
  "parse_offset q =
     (let raw = query_get q ''offset''
      in if raw = [] then Inr 0
         else case Atoi raw of
           None \<Rightarrow> Inl (bad_request_response ''offset must be an integer >= 0'')
         | Some v \<Rightarrow>
             (if v < 0 then Inl (bad_request_response ''offset must be an integer >= 0'') else Inr v))"

text \<open>An optional parameter: absent, or what \<open>parse\<close> makes of it, or a 400 with the message.\<close>

definition optional :: "query \<Rightarrow> string \<Rightarrow> (string \<Rightarrow> 'a option) \<Rightarrow> string \<Rightarrow> response + 'a option" where
  "optional q k parse msg =
     (let raw = query_get q k
      in if raw = [] then Inr None
         else case parse raw of None \<Rightarrow> Inl (bad_request_response msg) | Some v \<Rightarrow> Inr (Some v))"

section \<open>Action results\<close>

record action_error_body =
  aerr_code :: string
  aerr_message :: string
  aerr_retryable :: bool

record action_result_req =
  ares_attempt :: "int option"
  ares_result :: "gomap option"
  ares_error :: "action_error_body option"

definition resolveAttempt :: "mem_store \<Rightarrow> uuid \<Rightarrow> int option \<Rightarrow> gerr + int" where
  "resolveAttempt s runID explicit =
     (case explicit of
        Some n \<Rightarrow> Inr n
      | None \<Rightarrow>
          (case GetRun s runID of
             Inl err \<Rightarrow> Inl err
           | Inr run \<Rightarrow> Inr (run_current_attempt run)))"

text \<open>The last step of several handlers: publish, if there is a publisher, and answer.\<close>

definition publish_then ::
  "advance_publisher option \<Rightarrow> uuid \<Rightarrow> response \<Rightarrow> world \<Rightarrow> response \<times> world" where
  "publish_then pub runID ok w =
     (case pub of
        None \<Rightarrow> (ok, w)
      | Some p \<Rightarrow>
          (case PublishSagaAdvance p runID w of
             (Some err, w1) \<Rightarrow> (internal_error ''publish_failed'', w1)
           | (None, w1) \<Rightarrow> (ok, w1)))"

definition ActionResult_Post ::
  "env \<Rightarrow> advance_publisher option \<Rightarrow> string \<Rightarrow> gerr + action_result_req \<Rightarrow> world \<Rightarrow> response \<times> world" where
  "ActionResult_Post e pub runIDStr decoded w =
     (case uuid_parse e runIDStr of
        Inl err \<Rightarrow> (bad_request_response ''bad run id'', w)
      | Inr runID \<Rightarrow>
          (case decoded of
             Inl err \<Rightarrow> (bad_request_response ''bad request body'', w)
           | Inr req \<Rightarrow>
               (if (ares_result req = None) = (ares_error req = None)
                then (bad_request_response ''exactly one of result or error required'', w)
                else case resolveAttempt (st w) runID (ares_attempt req) of
                  Inl err \<Rightarrow> (bad_request_response ''run not found'', w)
                | Inr attempt \<Rightarrow>
                    (case ares_error req of
                       Some er \<Rightarrow>
                         (let (evid, w1) = fresh e w
                          in case try_store (FailAction (wall w1) evid runID attempt (aerr_code er)
                                    (aerr_message er) (aerr_retryable er)) w1 of
                               (Some err, w2) \<Rightarrow> (internal_error ''internal'', w2)
                             | (None, w2) \<Rightarrow> (WriteJSON 202 Empty, w2))
                     | None \<Rightarrow>
                         (case try_store (CompleteAction (wall w) runID attempt
                                 (or_default (ares_result req) [])) w of
                            (Some err, w1) \<Rightarrow> (internal_error ''internal'', w1)
                          | (None, w1) \<Rightarrow> publish_then pub runID (WriteJSON 202 Empty) w1)))))"

section \<open>Signals\<close>

definition new_signal :: "uuid \<Rightarrow> uuid \<Rightarrow> string \<Rightarrow> gomap \<Rightarrow> gotime \<Rightarrow> saga_signal" where
  "new_signal i runID name payload now =
     \<lparr>sig_id = i, sig_run_id = runID, sig_name = name, sig_payload = payload,
      sig_received_at = now, sig_consumed_at = None\<rparr>"

text \<open>
  Recording a signal and trying to consume it, which three callers do in the same way: whether the run
  was awaiting it, and the world after. The signal's time and the time of consumption are the
  same instant.
\<close>

definition record_signal :: "env \<Rightarrow> uuid \<Rightarrow> string \<Rightarrow> gomap \<Rightarrow> world \<Rightarrow> bool \<times> world" where
  "record_signal e runID name payload w =
     (let (i, w1) = fresh e w;
          w2 = do_store (AppendSignal (new_signal i runID name payload (wall w1))) w1;
          (ok, s) = TryConsumeAwaitedSignal (wall w2) runID name (st w2)
      in (ok, w2\<lparr>st := s\<rparr>))"

definition Signal_Post ::
  "env \<Rightarrow> advance_publisher option \<Rightarrow> string \<Rightarrow> string \<Rightarrow> gomap \<Rightarrow> world \<Rightarrow> response \<times> world" where
  "Signal_Post e pub runIDStr name payload w =
     (case uuid_parse e runIDStr of
        Inl err \<Rightarrow> (bad_request_response ''bad run id'', w)
      | Inr runID \<Rightarrow>
          (case record_signal e runID name payload w of
             (True, w1) \<Rightarrow> publish_then pub runID (WriteJSON 202 Empty) w1
           | (False, w1) \<Rightarrow>
               (WriteError 409 ''conflict'' ''signal recorded but run was not awaiting it'', w1)))"

section \<open>User tasks\<close>

record user_task_submit_req =
  uts_submitted_by :: string
  uts_result :: gomap

definition UserTask_Submit ::
  "env \<Rightarrow> advance_publisher option \<Rightarrow> string \<Rightarrow> gerr + user_task_submit_req \<Rightarrow> world
   \<Rightarrow> response \<times> world" where
  "UserTask_Submit e pub taskIDStr decoded w =
     (case uuid_parse e taskIDStr of
        Inl err \<Rightarrow> (bad_request_response ''bad task id'', w)
      | Inr taskID \<Rightarrow>
          (case decoded of
             Inl err \<Rightarrow> (bad_request_response ''bad request body'', w)
           | Inr req \<Rightarrow>
               (if uts_submitted_by req = []
                then (bad_request_response ''submitted_by required'', w)
                else case GetUserTask (st w) taskID of
                  Inl err \<Rightarrow> (WriteError 404 ''not_found'' ''task not found'', w)
                | Inr task \<Rightarrow>
                    (case try_store (SubmitUserTask (wall w) taskID (uts_submitted_by req) (uts_result req)) w of
                       (Some err, w1) \<Rightarrow> (internal_error ''internal'', w1)
                     | (None, w1) \<Rightarrow>
                         (case record_signal e (task_run_id task)
                                 (''user_task.'' @ taskID @ ''.submitted'') (uts_result req) w1 of
                            (True, w2) \<Rightarrow> publish_then pub (task_run_id task) (WriteJSON 202 Empty) w2
                          | (False, w2) \<Rightarrow> (WriteJSON 202 Empty, w2))))))"

section \<open>Runs\<close>

record saga_handler =
  sh_pub :: advance_publisher
  sh_providers :: "provider list"
  sh_canceller :: "(uuid \<Rightarrow> string \<Rightarrow> world \<Rightarrow> gerr option \<times> world) option"

record start_request =
  sreq_workflow_id :: string
  sreq_inputs :: gomap
  sreq_tenant_id :: "uuid option"
  sreq_dry_run :: bool

text \<open>\<^verbatim>\<open>strings.TrimSpace\<close> of ASCII text.\<close>

definition is_space :: "char \<Rightarrow> bool" where
  "is_space c \<longleftrightarrow> c \<in> {CHR '' '', CHR 0x09, CHR 0x0A, CHR 0x0B, CHR 0x0C, CHR 0x0D}"

definition TrimSpace :: "string \<Rightarrow> string" where
  "TrimSpace s = rev (dropWhile is_space (rev (dropWhile is_space s)))"

fun override_value :: "string \<Rightarrow> bool option" where
  "override_value v =
     (if v \<in> {''on'', ''true'', ''1''} then Some True
      else if v \<in> {''off'', ''false'', ''0''} then Some False else None)"

definition override_pair :: "(string \<times> bool) list \<Rightarrow> string \<Rightarrow> (string \<times> bool) list" where
  "override_pair out raw =
     (let pair = TrimSpace raw
      in case index_of (CHR ''='') pair of
           None \<Rightarrow> out
         | Some i \<Rightarrow>
             (if i < 1 \<or> i = length pair - 1 then out
              else case override_value (to_lower (TrimSpace (drop (Suc i) pair))) of
                None \<Rightarrow> out
              | Some v \<Rightarrow> AList.update (TrimSpace (take i pair)) v out))"

definition parseFeatureOverrideHeader :: "string \<Rightarrow> (string \<times> bool) list" where
  "parseFeatureOverrideHeader h =
     (if h = [] then [] else foldl override_pair [] (split_on (CHR '','') h))"

definition Saga_Start ::
  "env \<Rightarrow> saga_handler \<Rightarrow> string \<Rightarrow> gerr + start_request \<Rightarrow> world \<Rightarrow> response \<times> world" where
  "Saga_Start e h header decoded w =
     (case decoded of
        Inl err \<Rightarrow> (bad_request_response ''bad request body'', w)
      | Inr req \<Rightarrow>
          (if sreq_workflow_id req = [] then (bad_request_response ''workflow_id is required'', w)
           else case GetPublishedWorkflowByID (st w) (sreq_workflow_id req) of
             Inl err \<Rightarrow>
               (if is_not_found err then (WriteError 404 ''workflow_not_found'' (sreq_workflow_id req), w)
                else (internal_error ''internal'', w))
           | Inr d \<Rightarrow>
               (let (rowID, w1) = fresh e w;
                    w2 = do_store (UpsertWorkflowDefinition rowID d) w1;
                    (runID, w3) = fresh e w2;
                    run = (NewSagaRun runID (wall w3) (def_id d) rowID (sreq_tenant_id req) (sreq_inputs req))
                            \<lparr>run_dry_run := sreq_dry_run req,
                              run_feature_overrides := parseFeatureOverrideHeader header\<rparr>;
                    w4 = InjectStartupVariables runID (sreq_tenant_id req) (sh_providers h)
                           (do_store (CreateRun run) w3)
                in publish_then (Some (sh_pub h)) runID (WriteJSON 202 (RunIdBody runID)) w4)))"

definition Saga_Get :: "env \<Rightarrow> string \<Rightarrow> world \<Rightarrow> response" where
  "Saga_Get e idStr w =
     (case uuid_parse e idStr of
        Inl err \<Rightarrow> bad_request_response ''invalid id''
      | Inr i \<Rightarrow>
          (case GetRun (st w) i of
             Inl err \<Rightarrow>
               (if is_not_found err then WriteError 404 ''saga_not_found'' idStr
                else internal_error ''internal'')
           | Inr run \<Rightarrow> WriteJSON 200 (RunBody run)))"

text \<open>The decoded body is the reason: an error other than \<^verbatim>\<open>io.EOF\<close> is \<open>Inl\<close>, no body is \<open>Inr []\<close>.\<close>

definition Saga_Cancel :: "env \<Rightarrow> saga_handler \<Rightarrow> string \<Rightarrow> gerr + string \<Rightarrow> world \<Rightarrow> response \<times> world" where
  "Saga_Cancel e h idStr decoded w =
     (case uuid_parse e idStr of
        Inl err \<Rightarrow> (bad_request_response ''invalid id'', w)
      | Inr i \<Rightarrow>
          (case decoded of
             Inl err \<Rightarrow> (bad_request_response ''bad request body'', w)
           | Inr reason \<Rightarrow>
               (case sh_canceller h of
                  None \<Rightarrow> (WriteError 501 ''not_implemented'' ''cancel is not available'', w)
                | Some cancel \<Rightarrow>
                    (case cancel i reason w of
                       (Some err, w1) \<Rightarrow>
                         (if is_not_found err then (WriteError 404 ''saga_not_found'' idStr, w1)
                          else (internal_error ''internal'', w1))
                     | (None, w1) \<Rightarrow> (WriteJSON 202 Empty, w1)))))"

definition parse_time :: "env \<Rightarrow> string \<Rightarrow> gotime option" where
  "parse_time e s = (case parse_rfc3339 e s of Inl _ \<Rightarrow> None | Inr t \<Rightarrow> Some t)"

definition Saga_List :: "env \<Rightarrow> query \<Rightarrow> world \<Rightarrow> response" where
  "Saga_List e q w =
     (case parse_limit q of Inl r \<Rightarrow> r | Inr limit \<Rightarrow>
     (case parse_offset q of Inl r \<Rightarrow> r | Inr offset \<Rightarrow>
     (case optional q ''since'' (parse_time e) ''since must be an RFC3339 timestamp'' of
        Inl r \<Rightarrow> r | Inr since \<Rightarrow>
     (case optional q ''has_error'' ParseBool ''has_error must be true or false'' of
        Inl r \<Rightarrow> r | Inr hasError \<Rightarrow>
     (case optional q ''requires_review'' ParseBool ''requires_review must be true or false'' of
        Inl r \<Rightarrow> r | Inr review \<Rightarrow>
       (let f = \<lparr>rfilter_workflow_id = query_get q ''workflow_id'', rfilter_state = query_get q ''state'',
                 rfilter_trigger_type = query_get q ''trigger_type'', rfilter_since = since,
                 rfilter_has_error = hasError, rfilter_requires_review = review,
                 rfilter_limit = limit, rfilter_offset = offset\<rparr>
        in WriteJSON 200 (RunsBody (ListRuns f (st w)) (CountRuns f (st w)) limit offset)))))))"

section \<open>Signals delivered\<close>

lemma publish_then_accepts:
  "p w i = None \<Longrightarrow> publish_then (Some p) i ok w = (ok, w\<lparr>queue := queue w @ [i]\<rparr>)"
  by (simp add: publish_then_def PublishSagaAdvance_def)

definition awaits_signal :: "mem_store \<Rightarrow> uuid \<Rightarrow> string \<Rightarrow> bool" where
  "awaits_signal s i name \<longleftrightarrow>
     (case GetRun s i of
        Inl _ \<Rightarrow> False
      | Inr r \<Rightarrow> run_state r = RunStatePaused \<and> run_awaited_signal r = Some name)"

text \<open>
  What recording a signal does: the run is released if it was waiting for it, nothing else about runs
  changes, and the signal joins the run's log, consumed together with earlier
  unconsumed ones of the name if the run was released.
\<close>

lemma record_signal_effect:
  fixes e i name payload w
  defines "ok \<equiv> awaits_signal (st w) i name"
  shows "\<exists>w'. record_signal e i name payload w = (ok, w')
    \<and> (\<forall>j. GetRun (st w') j = (if ok \<and> j = i then map_sum id clear_awaits (GetRun (st w) i) else GetRun (st w) j))
    \<and> at_key (signals (st w')) i = map (if ok then consume_signal (wall w) name else id)
        (at_key (signals (st w)) i @ [new_signal (uuid_new e (draws w)) i name payload (wall w)])
    \<and> userTasks (st w') = userTasks (st w)
    \<and> (\<forall>d. GetWorkflowDefinition (st w') d = GetWorkflowDefinition (st w) d)
    \<and> (\<forall>j. ListEventsByRun (st w') j = ListEventsByRun (st w) j)
    \<and> queue w' = queue w \<and> outbox w' = outbox w \<and> clk w' = clk w \<and> wall w' = wall w"
proof -
  let ?s = "st (do_store (AppendSignal (new_signal (uuid_new e (draws w)) i name payload (wall w)))
              (w\<lparr>draws := Suc (draws w)\<rparr>))"
  have s: "runs ?s = runs (st w)"
    "map_of (signals ?s) i = Some (at_key (signals (st w)) i @ [new_signal (uuid_new e (draws w)) i name payload (wall w)])"
    by (simp_all add: do_store_def AppendSignal_def new_signal_def cloneSignal_def)
  show ?thesis
  proof (cases "awaits_signal (st w) i name")
    case False
    then have "TryConsumeAwaitedSignal (wall w) i name ?s = (False, ?s)"
      using s(1) by (auto simp: TryConsumeAwaitedSignal_def awaits_signal_def GetRun_def split: option.splits)
    then show ?thesis
      using False s by (simp add: record_signal_def fresh_def ok_def do_store_def GetRun_def at_key_def
          AppendSignal_def GetWorkflowDefinition_def ListEventsByRun_def)
  next
    case True
    then obtain r where r: "map_of (runs (st w)) i = Some r" "run_state r = RunStatePaused"
        "run_awaited_signal r = Some name"
      by (auto simp: awaits_signal_def GetRun_iff split: sum.splits)
    then have "TryConsumeAwaitedSignal (wall w) i name ?s = (True,
        ?s\<lparr>signals := AList.update i (map (consume_signal (wall w) name)
              (at_key (signals (st w)) i @ [new_signal (uuid_new e (draws w)) i name payload (wall w)])) (signals ?s),
           runs := AList.update i (clear_awaits r) (runs (st w))\<rparr>)"
      using s by (simp add: TryConsumeAwaitedSignal_def)
    then show ?thesis
      using True r by (simp add: record_signal_def fresh_def ok_def do_store_def GetRun_def at_key_def
          AppendSignal_def GetWorkflowDefinition_def ListEventsByRun_def)
  qed
qed

text \<open>
  C20: The signal endpoint. A signal for a run that is paused awaiting exactly that name is answered
  202, the run's waits are cleared and one advance is published; any other signal, also for an
  unknown run, is answered 409 and changes no run. In both cases the signal is kept in
  the run's log.
\<close>

theorem signal_endpoint:
  assumes "uuid_parse e istr = Inr i" and "\<And>w. p w i = None"
    and "Signal_Post e (Some p) istr name payload w = (resp, w')"
  shows "status resp = (if awaits_signal (st w) i name then 202 else 409)
    \<and> queue w' = queue w @ (if awaits_signal (st w) i name then [i] else [])
    \<and> (\<forall>j. GetRun (st w') j = (if awaits_signal (st w) i name \<and> j = i
         then map_sum id clear_awaits (GetRun (st w) i) else GetRun (st w) j))
    \<and> map sig_name (at_key (signals (st w')) i) = map sig_name (at_key (signals (st w)) i) @ [name]
    \<and> sig_payload (last (at_key (signals (st w')) i)) = payload
    \<and> outbox w' = outbox w"
proof -
  obtain w1 where w1: "record_signal e i name payload w = (awaits_signal (st w) i name, w1)"
    and runs1: "\<forall>j. GetRun (st w1) j = (if awaits_signal (st w) i name \<and> j = i
         then map_sum id clear_awaits (GetRun (st w) i) else GetRun (st w) j)"
    and sigs: "at_key (signals (st w1)) i = map (if awaits_signal (st w) i name then consume_signal (wall w) name else id)
        (at_key (signals (st w)) i @ [new_signal (uuid_new e (draws w)) i name payload (wall w)])"
    and q: "queue w1 = queue w" "outbox w1 = outbox w"
    using record_signal_effect [of e i name payload w] by blast
  have "sig_name (consume_signal t name x) = sig_name x" "sig_payload (consume_signal t name x) = sig_payload x" for t x
    by (simp_all add: consume_signal_def)
  then have log: "map sig_name (at_key (signals (st w1)) i) = map sig_name (at_key (signals (st w)) i) @ [name]"
    "sig_payload (last (at_key (signals (st w1)) i)) = payload"
    by (simp_all add: sigs new_signal_def)
  have "w' = (if awaits_signal (st w) i name then w1\<lparr>queue := queue w1 @ [i]\<rparr> else w1)"
    "status resp = (if awaits_signal (st w) i name then 202 else 409)"
    using assms(1,3) w1 publish_then_accepts [where p = p and i = i] assms(2)
    by (auto simp: Signal_Post_def WriteJSON_def WriteError_def split: if_splits bool.splits)
  then show ?thesis using runs1 q log by simp
qed

definition signalled_run :: saga_run where
  "signalled_run = paused_sample\<lparr>run_awaited_signal := Some ''go''\<rparr>"

theorem signal_endpoint_witness:
  "status (fst (Signal_Post test_env (Some (\<lambda>_ _. None)) ''r1'' ''go'' [] (demo_world signalled_run []))) = 202
    \<and> status (fst (Signal_Post test_env (Some (\<lambda>_ _. None)) ''r1'' ''no'' [] (demo_world signalled_run []))) = 409
    \<and> queue (snd (Signal_Post test_env (Some (\<lambda>_ _. None)) ''r1'' ''go'' [] (demo_world signalled_run []))) = [''r1'']"
proof -
  have "GetRun (st (demo_world signalled_run [])) ''r1'' = Inr signalled_run"
    using demo_reads(1) [of signalled_run "[]"] by (simp add: signalled_run_def paused_sample_def)
  then have aw: "awaits_signal (st (demo_world signalled_run [])) ''r1'' name \<longleftrightarrow> name = ''go''" for name
    by (auto simp: awaits_signal_def signalled_run_def paused_sample_def)
  have run: "\<exists>resp w'. Signal_Post test_env (Some (\<lambda>_ _. None)) ''r1'' name [] (demo_world signalled_run []) = (resp, w')"
    for name by (cases "Signal_Post test_env (Some (\<lambda>_ _. None)) ''r1'' name [] (demo_world signalled_run [])") blast
  show ?thesis
    using signal_endpoint [of test_env "''r1''" "''r1''" "\<lambda>_ _. None" _ "[]" "demo_world signalled_run []"]
      run [of "''go''"] run [of "''no''"] by (fastforce simp: aw)
qed

section \<open>A late result\<close>

text \<open>
  C28: A result reported for another attempt than the one awaited is documented as ignored, but
  the endpoint publishes an advance all the same, and that advance moves the run past the
  step: the step is logged as succeeded, no result was stored and the dispatched action is still
  marked as awaited.
\<close>

theorem late_result_skips_step:
  assumes "uuid_parse e istr = Inr i" and "\<And>w. p w i = None" and "e = c_env c" and "\<And>w. ctx_err e w = None"
    and "GetRun (st w) i = Inr run" and "run_id run = i" and "run_state run = RunStatePaused"
    and "\<not> marker run" and "run_wakeup_at run = None" and "run_current_attempt run \<noteq> n"
    and "GetWorkflowDefinition (st w) (run_definition_id run) = Inr d"
    and "StepByID d (run_current_step run) = Some sp" and "step_type sp = StepTypeAction" and "step_next sp \<noteq> []"
    and "req = \<lparr>ares_attempt = Some n, ares_result = Some m, ares_error = None\<rparr>"
  shows "\<exists>w1 w2 r. ActionResult_Post e (Some p) istr (Inr req) w = (\<lparr>status = 202, content = Empty\<rparr>, w1)
    \<and> GetRun (st w1) i = Inr run \<and> queue w1 = queue w @ [i]
    \<and> advance_iter c i w1 = (Continue, w2) \<and> GetRun (st w2) i = Inr r
    \<and> run_state r = RunStateRunning \<and> run_current_step r = step_next sp
    \<and> run_variables r = run_variables run
    \<and> run_awaited_action_dispatch r = run_awaited_action_dispatch run
    \<and> history w2 i = history w i @ [(EventStepSucceeded, step_id sp)]"
proof -
  define w1 where "w1 = (put_run i run w)\<lparr>queue := queue w @ [i]\<rparr>"
  have "ActionResult_Post e (Some p) istr (Inr req) w = (\<lparr>status = 202, content = Empty\<rparr>, w1)"
    using assms(1,2,5,10,15)
    by (simp add: ActionResult_Post_def resolveAttempt_def CompleteAction_def try_with_run
        publish_then_accepts WriteJSON_def w1_def)
  moreover have "history w1 i = history w i" by (simp add: w1_def history_def ListEventsByRun_def)
  moreover have "\<exists>w2 r. advance_iter c i w1 = (Continue, w2) \<and> GetRun (st w2) i = Inr r
      \<and> run_state r = RunStateRunning \<and> run_current_step r = step_next sp
      \<and> run_awaited_action_dispatch r = run_awaited_action_dispatch run \<and> run_variables r = run_variables run
      \<and> history w2 i = history w1 i @ [(EventStepSucceeded, step_id sp)]"
    by (rule duplicate_advance_skips_wait [where d = d])
      (use assms in \<open>simp_all add: w1_def\<close>)
  ultimately show ?thesis by (auto simp: w1_def)
qed

theorem late_result_skips_step_witness:
  "\<exists>w1 w2 r. ActionResult_Post test_env (Some (\<lambda>_ _. None)) ''r1''
        (Inr \<lparr>ares_attempt = Some 7, ares_result = Some [], ares_error = None\<rparr>)
        (demo_world awaiting_run [act_step\<lparr>step_next := ''b''\<rparr>]) = (\<lparr>status = 202, content = Empty\<rparr>, w1)
    \<and> advance_iter demo_coord ''r1'' w1 = (Continue, w2) \<and> GetRun (st w2) ''r1'' = Inr r
    \<and> run_current_step r = ''b'' \<and> run_awaited_action_dispatch r = Some ''svc.do''"
proof -
  let ?a = "act_step\<lparr>step_next := ''b''\<rparr>"
  have run: "run_id awaiting_run = ''r1''" "run_state awaiting_run = RunStatePaused" "\<not> marker awaiting_run"
    "run_wakeup_at awaiting_run = None" "run_current_attempt awaiting_run \<noteq> 7"
    "run_definition_id awaiting_run = ''d1''" "run_current_step awaiting_run = ''a''"
    "run_awaited_action_dispatch awaiting_run = Some ''svc.do''"
    by (simp_all add: awaiting_run_def paused_sample_def marker_def) (simp add: sample_run_def NewSagaRun_def)
  have step: "StepByID (demo_def [?a]) ''a'' = Some ?a" "step_type ?a = StepTypeAction" "step_next ?a = ''b''"
    by (simp_all add: act_step_def blank_step_def)
  show ?thesis
    using late_result_skips_step [where e = test_env and istr = "''r1''" and i = "''r1''" and p = "\<lambda>_ _. None"
        and c = demo_coord and w = "demo_world awaiting_run [?a]" and run = awaiting_run and n = 7
        and d = "demo_def [?a]" and sp = ?a and m = "[]"]
      run step demo_reads(1) [of awaiting_run "[?a]"] by auto
qed

section \<open>User tasks submitted\<close>

lemma open_task_effect:
  assumes "GetRun (st w) (run_id run) = Inr r"
  shows "\<exists>w'. open_task e fmt run s assignee due schema w = (Inl ErrSagaPaused, w')
    \<and> GetRun (st w') (run_id run) = Inr (r\<lparr>run_state := RunStatePaused,
        run_awaited_signal := Some (''user_task.'' @ uuid_new e (draws w) @ ''.submitted''),
        run_wakeup_at := (case due of None \<Rightarrow> run_wakeup_at r | Some d \<Rightarrow> Some d)\<rparr>)
    \<and> GetUserTask (st w') (uuid_new e (draws w)) = Inr \<lparr>task_id = uuid_new e (draws w),
        task_run_id = run_id run, task_step_id = step_id s, task_assignee = assignee, task_due_at = due,
        task_form_schema = schema, task_submitted_at = None, task_submitted_by = [], task_result = []\<rparr>
    \<and> (\<forall>d. GetWorkflowDefinition (st w') d = GetWorkflowDefinition (st w) d)
    \<and> history w' j = history w j \<and> queue w' = queue w \<and> clk w' = clk w \<and> wall w' = wall w"
proof -
  let ?i = "uuid_new e (draws w)"
  let ?t = "\<lparr>task_id = ?i, task_run_id = run_id run, task_step_id = step_id s, task_assignee = assignee,
     task_due_at = due, task_form_schema = schema, task_submitted_at = None, task_submitted_by = [], task_result = []\<rparr>"
  let ?w = "do_store (CreateUserTask ?t) (w\<lparr>draws := Suc (draws w)\<rparr>)"
  have "GetRun (st ?w) (run_id run) = Inr r"
    using assms by (simp add: do_store_def CreateUserTask_def GetRun_def)
  then show ?thesis
    by (simp add: open_task_def fresh_def SetPausedAwaitingSignal_def try_with_run)
      (simp add: do_store_def put_run_def GetUserTask_def GetWorkflowDefinition_def CreateUserTask_def
        history_def ListEventsByRun_def)
qed

lemma SubmitUserTask_effect:
  assumes "GetUserTask (st w) i = Inr t"
  shows "\<exists>w'. try_store (SubmitUserTask now i by res) w = (None, w')
    \<and> GetUserTask (st w') i = Inr (t\<lparr>task_submitted_at := Some now, task_submitted_by := by, task_result := res\<rparr>)
    \<and> (\<forall>j. GetRun (st w') j = GetRun (st w) j)
    \<and> (\<forall>d. GetWorkflowDefinition (st w') d = GetWorkflowDefinition (st w) d)
    \<and> history w' j = history w j \<and> queue w' = queue w \<and> clk w' = clk w"
  using assms
  by (simp add: try_store_def SubmitUserTask_def GetUserTask_def GetRun_def GetWorkflowDefinition_def
      history_def ListEventsByRun_def split: option.splits)

text \<open>
  C18: An approval from end to end. A manual approval opens a task for its assignee and pauses the run;
  submitting that task is answered 202, records who submitted what, and publishes one advance,
  and that advance logs the step as succeeded and goes on at its successor. The run's
  variables stay as they were: what was submitted is kept with the task and the signal only.
\<close>

theorem approval_round_trip:
  assumes "GetRun (st w) i = Inr run" and "run_id run = i" and "run_current_step run = step_id s"
    and "get_str (step_inputs s) ''assignee'' \<noteq> []"
    and "due_at e ''manual_approval: bad due_in %q: %w'' s w = Inr due"
    and "run_awaited_event_topic run = None"
    and "GetWorkflowDefinition (st w) (run_definition_id run) = Inr d"
    and "StepByID d (step_id s) = Some s" and "step_type s = StepTypeManualApproval" and "step_next s \<noteq> []"
    and "e = c_env c" and "\<And>w. ctx_err e w = None" and "uuid_parse e tstr = Inr (uuid_new e (draws w))"
    and "\<And>w. p w i = None" and "uts_submitted_by req \<noteq> []"
  shows "\<exists>w1 w2 w3 task r. ManualApprovalVerb e run s w = (Inl ErrSagaPaused, w1)
    \<and> UserTask_Submit e (Some p) tstr (Inr req) w1 = (\<lparr>status = 202, content = Empty\<rparr>, w2)
    \<and> queue w2 = queue w @ [i]
    \<and> GetUserTask (st w2) (uuid_new e (draws w)) = Inr task \<and> task_submitted_at task = Some (wall w)
    \<and> task_submitted_by task = uts_submitted_by req \<and> task_result task = uts_result req
    \<and> advance_iter c i w2 = (Continue, w3) \<and> GetRun (st w3) i = Inr r
    \<and> run_state r = RunStateRunning \<and> run_current_step r = step_next s
    \<and> run_variables r = run_variables run
    \<and> history w3 i = history w i @ [(EventStepSucceeded, step_id s)]"
proof -
  let ?t = "uuid_new e (draws w)"
  let ?sig = "''user_task.'' @ ?t @ ''.submitted''"
  obtain w1 where w1: "ManualApprovalVerb e run s w = (Inl ErrSagaPaused, w1)"
    and run1: "GetRun (st w1) i = Inr (run\<lparr>run_state := RunStatePaused, run_awaited_signal := Some ?sig,
        run_wakeup_at := (case due of None \<Rightarrow> run_wakeup_at run | Some d \<Rightarrow> Some d)\<rparr>)"
    and task1: "\<exists>task. GetUserTask (st w1) ?t = Inr task \<and> task_run_id task = i"
    and rest1: "\<forall>d. GetWorkflowDefinition (st w1) d = GetWorkflowDefinition (st w) d"
      "history w1 i = history w i" "queue w1 = queue w" "wall w1 = wall w"
    using open_task_effect [where w = w and run = run and r = run and e = e and j = i and s = s and due = due
        and fmt = "''manual_approval: set awaited signal: %w''" and assignee = "get_str (step_inputs s) ''assignee''"
        and schema = "or_default (get_map (step_inputs s) ''form_schema'') []"] assms(1-5)
    by (auto simp: ManualApprovalVerb_def)
  obtain task where task: "GetUserTask (st w1) ?t = Inr task" "task_run_id task = i" using task1 by blast
  let ?task = "task\<lparr>task_submitted_at := Some (wall w), task_submitted_by := uts_submitted_by req,
      task_result := uts_result req\<rparr>"
  obtain w2 where sub: "try_store (SubmitUserTask (wall w) ?t (uts_submitted_by req) (uts_result req)) w1 = (None, w2)"
    and task2: "GetUserTask (st w2) ?t = Inr ?task"
    and run2: "\<forall>j. GetRun (st w2) j = GetRun (st w1) j"
    and rest2: "\<forall>d. GetWorkflowDefinition (st w2) d = GetWorkflowDefinition (st w1) d"
      "history w2 i = history w1 i" "queue w2 = queue w1"
    using SubmitUserTask_effect [OF task(1), of "wall w" "uts_submitted_by req" "uts_result req" i] by blast
  have open2: "awaits_signal (st w2) i ?sig" using run1 run2 by (simp add: awaits_signal_def)
  obtain w3 where sig: "record_signal e i ?sig (uts_result req) w2 = (True, w3)"
    and run3: "GetRun (st w3) i = map_sum id clear_awaits (GetRun (st w2) i)"
    and task3: "userTasks (st w3) = userTasks (st w2)"
    and rest3: "\<forall>d. GetWorkflowDefinition (st w3) d = GetWorkflowDefinition (st w2) d"
      "\<forall>j. ListEventsByRun (st w3) j = ListEventsByRun (st w2) j" "queue w3 = queue w2"
    using record_signal_effect [of e i ?sig "uts_result req" w2] open2 by auto
  define w4 where "w4 = w3\<lparr>queue := queue w3 @ [i]\<rparr>"
  have submit: "UserTask_Submit e (Some p) tstr (Inr req) w1 = (\<lparr>status = 202, content = Empty\<rparr>, w4)"
    using assms(13,15) task sub sig publish_then_accepts [where p = p and i = i and w = w3] assms(14) rest1
    by (simp add: UserTask_Submit_def WriteJSON_def w4_def)
  define r4 where "r4 = clear_awaits (run\<lparr>run_state := RunStatePaused\<rparr>)"
  have run4: "GetRun (st w4) i = Inr r4" using run1 run2 run3 by (simp add: w4_def r4_def clear_awaits_def)
  have r4: "run_id r4 = i" "run_state r4 = RunStatePaused" "\<not> marker r4" "run_wakeup_at r4 = None"
    "run_current_step r4 = step_id s" "run_definition_id r4 = run_definition_id run"
    "run_variables r4 = run_variables run"
    using assms(2,3) by (simp_all add: r4_def clear_awaits_def marker_def)
  have def4: "GetWorkflowDefinition (st w4) (run_definition_id r4) = Inr d"
    using rest1 rest2 rest3 assms(7) r4 by (simp add: w4_def)
  have hist4: "history w4 i = history w i" using rest1 rest2 rest3 by (simp add: w4_def history_def)
  have kids: "childrenStillRunning e r4 (st w4) = Inr False"
    using def4 r4 assms(8,9) by (simp add: childrenStillRunning_def)
  have nx: "resume_step (clk w4) r4 s = step_next s" using r4 by (simp add: resume_step_def)
  have "\<exists>w5. wake_paused c i r4 w4 = (Continue, w5)
    \<and> GetRun (st w5) i = Inr (resumed (step_next s) r4)
    \<and> history w5 i = history w4 i @ [(EventStepSucceeded, step_id s)]"
    using wake_paused_resumes [OF run4 r4(1) _ def4, of c s] r4 kids nx assms(8,10,11) by auto
  then obtain w5 where "advance_iter c i w4 = (Continue, w5)" "GetRun (st w5) i = Inr (resumed (step_next s) r4)"
    "history w5 i = history w i @ [(EventStepSucceeded, step_id s)]"
    using run4 r4 assms(11,12) hist4 by (auto simp: advance_iter_def)
  moreover have "GetUserTask (st w4) ?t = Inr ?task" using task2 task3 by (simp add: w4_def GetUserTask_def)
  ultimately show ?thesis
    using w1 submit rest1 rest2 rest3 r4 by (auto simp: resumed_def w4_def)
qed

definition approve_a :: step where
  "approve_a = (blank_step ''a'')\<lparr>step_type := StepTypeManualApproval, step_next := ''b'',
     step_inputs := [(''assignee'', VStr ''ann'')]\<rparr>"

definition approving_run :: saga_run where
  "approving_run = (sample_run ''r1'')\<lparr>run_state := RunStateRunning, run_current_step := ''a''\<rparr>"

theorem approval_round_trip_witness:
  "\<exists>w1 w2 w3 r. ManualApprovalVerb test_env approving_run approve_a (demo_world approving_run [approve_a])
        = (Inl ErrSagaPaused, w1)
    \<and> UserTask_Submit test_env (Some (\<lambda>_ _. None)) (uuid_new test_env 0)
        (Inr \<lparr>uts_submitted_by = ''ann'', uts_result = []\<rparr>) w1 = (\<lparr>status = 202, content = Empty\<rparr>, w2)
    \<and> advance_iter demo_coord ''r1'' w2 = (Continue, w3) \<and> GetRun (st w3) ''r1'' = Inr r
    \<and> run_current_step r = ''b''"
proof -
  let ?w = "demo_world approving_run [approve_a]"
  have run: "GetRun (st ?w) ''r1'' = Inr approving_run" "run_id approving_run = ''r1''"
    "run_current_step approving_run = ''a''" "run_awaited_event_topic approving_run = None"
    "run_definition_id approving_run = ''d1''" "draws ?w = 0"
    using demo_reads(1) [of approving_run "[approve_a]"]
    by (simp_all add: approving_run_def demo_world_def test_world_def)
  have step: "step_id approve_a = ''a''" "step_type approve_a = StepTypeManualApproval" "step_next approve_a = ''b''"
    "get_str (step_inputs approve_a) ''assignee'' = ''ann''" "get_str (step_inputs approve_a) ''due_in'' = []"
    by (simp_all add: approve_a_def blank_step_def get_str_def)
  show ?thesis
    using approval_round_trip [where w = ?w and i = "''r1''" and run = approving_run and s = approve_a
        and e = test_env and due = None and d = "demo_def [approve_a]" and c = demo_coord
        and tstr = "uuid_new test_env 0" and p = "\<lambda>_ _. None"
        and req = "\<lparr>uts_submitted_by = ''ann'', uts_result = []\<rparr>"] run step
    by (auto simp: due_at_def)
qed

text \<open>
  A task can be submitted again, also one that was closed when its run was cancelled: the answer is
  202 and the earlier submission is lost.
\<close>

lemma resubmission_overwrites:
  assumes "uuid_parse e tstr = Inr t" and "GetUserTask (st w) t = Inr task"
    and "\<not> awaits_signal (st w) (task_run_id task) (''user_task.'' @ t @ ''.submitted'')"
    and "uts_submitted_by req \<noteq> []"
  shows "\<exists>w'. UserTask_Submit e pub tstr (Inr req) w = (\<lparr>status = 202, content = Empty\<rparr>, w')
    \<and> GetUserTask (st w') t = Inr (task\<lparr>task_submitted_at := Some (wall w),
        task_submitted_by := uts_submitted_by req, task_result := uts_result req\<rparr>)
    \<and> queue w' = queue w"
proof -
  let ?sig = "''user_task.'' @ t @ ''.submitted''"
  obtain w2 where sub: "try_store (SubmitUserTask (wall w) t (uts_submitted_by req) (uts_result req)) w = (None, w2)"
    "GetUserTask (st w2) t = Inr (task\<lparr>task_submitted_at := Some (wall w),
        task_submitted_by := uts_submitted_by req, task_result := uts_result req\<rparr>)"
    "\<forall>j. GetRun (st w2) j = GetRun (st w) j" "queue w2 = queue w"
    using SubmitUserTask_effect [OF assms(2)] by blast
  then have "\<not> awaits_signal (st w2) (task_run_id task) ?sig" using assms(3) by (simp add: awaits_signal_def)
  then obtain w3 where "record_signal e (task_run_id task) ?sig (uts_result req) w2 = (False, w3)"
    "userTasks (st w3) = userTasks (st w2)" "queue w3 = queue w2"
    using record_signal_effect [of e "task_run_id task" ?sig "uts_result req" w2] by auto
  then show ?thesis
    using assms sub by (simp add: UserTask_Submit_def WriteJSON_def GetUserTask_def)
qed

section \<open>Runs started\<close>

lemma Inject_reads:
  assumes "GetRun (st w) i = Inr r"
  shows "\<exists>v. GetRun (st (InjectStartupVariables i t ps w)) i = Inr (r\<lparr>run_variables := v\<rparr>)
    \<and> (\<forall>j. j \<noteq> i \<longrightarrow> GetRun (st (InjectStartupVariables i t ps w)) j = GetRun (st w) j)
    \<and> (\<forall>d. GetWorkflowDefinition (st (InjectStartupVariables i t ps w)) d = GetWorkflowDefinition (st w) d)
    \<and> queue (InjectStartupVariables i t ps w) = queue w \<and> outbox (InjectStartupVariables i t ps w) = outbox w"
  using Inject_put_run [OF assms, of t ps]
proof
  assume "InjectStartupVariables i t ps w = w"
  then show ?thesis using assms by (intro exI [of _ "run_variables r"]) simp
next
  assume "\<exists>v. InjectStartupVariables i t ps w = put_run i (r\<lparr>run_variables := v\<rparr>) w"
  then show ?thesis by auto
qed

text \<open>
  The start endpoint. For a workflow that exists the answer is 202 with the id of a new pending run: it
  belongs to a stored copy of the definition, carries the request's inputs, tenant, dry-run flag and
  feature overrides, and one advance is published for it, which begins at the
  definition's start step. Other runs are untouched; a workflow that does not exist is answered 404
  and changes nothing.
\<close>

theorem start_endpoint:
  assumes "sreq_workflow_id req \<noteq> []" and "\<And>w i. sh_pub h w i = None"
    and "GetPublishedWorkflowByID (st w) (sreq_workflow_id req) = found"
    and "ctx_err (c_env c) = (\<lambda>_. None)"
  shows "(\<forall>err. found = Inl err \<longrightarrow> Saga_Start e h hdr (Inr req) w =
        (\<lparr>status = 404, content = ErrorBody ''workflow_not_found'' (sreq_workflow_id req)\<rparr>, w))
    \<and> (\<forall>d s. found = Inr d \<longrightarrow> StepByID d (def_start d) = Some s \<longrightarrow>
        (\<exists>w' i r. Saga_Start e h hdr (Inr req) w = (\<lparr>status = 202, content = RunIdBody i\<rparr>, w')
          \<and> GetRun (st w') i = Inr r \<and> run_id r = i \<and> run_state r = RunStatePending
          \<and> run_inputs r = sreq_inputs req \<and> run_tenant_id r = sreq_tenant_id req
          \<and> run_dry_run r = sreq_dry_run req \<and> run_feature_overrides r = parseFeatureOverrideHeader hdr
          \<and> GetWorkflowDefinition (st w') (run_definition_id r) = Inr d
          \<and> queue w' = queue w @ [i] \<and> outbox w' = outbox w
          \<and> (\<forall>j. j \<noteq> i \<longrightarrow> GetRun (st w') j = GetRun (st w) j)
          \<and> advance_iter c i w' = enter_step c r d s
              (emit (c_env c) i [] 0 EventSagaStarted ''engine'' [] w')))"
proof (intro conjI allI impI)
  fix err assume "found = Inl err"
  moreover from this have "is_not_found err"
    using assms(3) by (auto simp: GetPublishedWorkflowByID_def Let_def split: option.splits if_splits)
  ultimately show "Saga_Start e h hdr (Inr req) w =
      (\<lparr>status = 404, content = ErrorBody ''workflow_not_found'' (sreq_workflow_id req)\<rparr>, w)"
    using assms(1,3) by (simp add: Saga_Start_def WriteError_def WriteJSON_def)
next
  fix d s assume d: "found = Inr d" and s: "StepByID d (def_start d) = Some s"
  define rowID where "rowID = uuid_new e (draws w)"
  define i where "i = uuid_new e (Suc (draws w))"
  define run where "run = (NewSagaRun i (wall w) (def_id d) rowID (sreq_tenant_id req) (sreq_inputs req))
      \<lparr>run_dry_run := sreq_dry_run req, run_feature_overrides := parseFeatureOverrideHeader hdr\<rparr>"
  define w3 where "w3 = do_store (CreateRun run)
      ((do_store (UpsertWorkflowDefinition rowID d) (w\<lparr>draws := Suc (draws w)\<rparr>))\<lparr>draws := Suc (Suc (draws w))\<rparr>)"
  have reads3: "GetRun (st w3) j = (if j = i then Inr run else GetRun (st w) j)"
    "GetWorkflowDefinition (st w3) rowID = Inr d" "queue w3 = queue w" "outbox w3 = outbox w" for j
    by (simp_all add: w3_def do_store_def CreateRun_def UpsertWorkflowDefinition_def GetRun_def
        GetWorkflowDefinition_def run_def NewSagaRun_def)
  define w4 where "w4 = InjectStartupVariables i (sreq_tenant_id req) (sh_providers h) w3"
  obtain v where w4: "GetRun (st w4) i = Inr (run\<lparr>run_variables := v\<rparr>)"
    "\<forall>j. j \<noteq> i \<longrightarrow> GetRun (st w4) j = GetRun (st w) j" "GetWorkflowDefinition (st w4) rowID = Inr d"
    "queue w4 = queue w" "outbox w4 = outbox w"
    using Inject_reads [OF reads3(1) [of i, simplified], of "sreq_tenant_id req" "sh_providers h"] reads3
    unfolding w4_def by auto
  define w5 where "w5 = w4\<lparr>queue := queue w4 @ [i]\<rparr>"
  have start: "Saga_Start e h hdr (Inr req) w = (\<lparr>status = 202, content = RunIdBody i\<rparr>, w5)"
    using assms(1,3) d publish_then_accepts [where p = "sh_pub h" and i = i] assms(2)
    by (simp add: Saga_Start_def fresh_def WriteJSON_def w5_def w4_def w3_def run_def rowID_def i_def do_store_def)
  define r where "r = run\<lparr>run_variables := v\<rparr>"
  have r: "run_id r = i" "run_state r = RunStatePending" "run_inputs r = sreq_inputs req"
    "run_tenant_id r = sreq_tenant_id req" "run_dry_run r = sreq_dry_run req"
    "run_feature_overrides r = parseFeatureOverrideHeader hdr" "run_definition_id r = rowID" "run_current_step r = []"
    by (simp_all add: r_def run_def NewSagaRun_def)
  have "advance_iter c i w5 = enter_step c r d s (emit (c_env c) i [] 0 EventSagaStarted ''engine'' [] w5)"
    using advance_iter_enter [of c w5 i r d s] r s w4 assms(4) by (simp add: w5_def r_def [symmetric])
  then show "\<exists>w' i r. Saga_Start e h hdr (Inr req) w = (\<lparr>status = 202, content = RunIdBody i\<rparr>, w')
          \<and> GetRun (st w') i = Inr r \<and> run_id r = i \<and> run_state r = RunStatePending
          \<and> run_inputs r = sreq_inputs req \<and> run_tenant_id r = sreq_tenant_id req
          \<and> run_dry_run r = sreq_dry_run req \<and> run_feature_overrides r = parseFeatureOverrideHeader hdr
          \<and> GetWorkflowDefinition (st w') (run_definition_id r) = Inr d
          \<and> queue w' = queue w @ [i] \<and> outbox w' = outbox w
          \<and> (\<forall>j. j \<noteq> i \<longrightarrow> GetRun (st w') j = GetRun (st w) j)
          \<and> advance_iter c i w' = enter_step c r d s
              (emit (c_env c) i [] 0 EventSagaStarted ''engine'' [] w')"
    using start r w4 by (intro exI [of _ w5] exI [of _ i] exI [of _ r]) (simp add: w5_def r_def [symmetric])
qed

definition demo_handler :: saga_handler where
  "demo_handler = \<lparr>sh_pub = (\<lambda>_ _. None), sh_providers = [], sh_canceller = None\<rparr>"

definition start_of :: "string \<Rightarrow> start_request" where
  "start_of workflow = \<lparr>sreq_workflow_id = workflow, sreq_inputs = [(''x'', VInt 1)], sreq_tenant_id = None,
     sreq_dry_run = False\<rparr>"

theorem start_endpoint_witness:
  "\<exists>w' i r. Saga_Start test_env demo_handler ''a=on'' (Inr (start_of ''wf''))
        (test_world\<lparr>st := UpsertWorkflowDefinition ''d1'' (demo_def [wait_a]) New\<rparr>)
      = (\<lparr>status = 202, content = RunIdBody i\<rparr>, w')
    \<and> GetRun (st w') i = Inr r \<and> run_inputs r = [(''x'', VInt 1)]"
proof -
  let ?w = "test_world\<lparr>st := UpsertWorkflowDefinition ''d1'' (demo_def [wait_a]) New\<rparr>"
  have "GetPublishedWorkflowByID (st ?w) ''wf'' = Inr (demo_def [wait_a])"
    by (simp add: GetPublishedWorkflowByID_def UpsertWorkflowDefinition_def New_def demo_def_def blank_def_def at_key_def)
  moreover have "ctx_err (c_env demo_coord) = (\<lambda>_. None)" by (rule ext) simp
  moreover have "StepByID (demo_def [wait_a]) (def_start (demo_def [wait_a])) = Some wait_a" by simp
  ultimately show ?thesis
    using start_endpoint [of "start_of ''wf''" demo_handler ?w "Inr (demo_def [wait_a])" demo_coord test_env "''a=on''"]
    by (simp add: start_of_def demo_handler_def) blast
qed

section \<open>Feature overrides\<close>

definition render_override :: "string \<times> bool \<Rightarrow> string" where
  "render_override fb = fst fb @ ''='' @ (if snd fb then ''on'' else ''off'')"

definition plain_name :: "string \<Rightarrow> bool" where
  "plain_name f \<longleftrightarrow> f \<noteq> [] \<and> (\<forall>c \<in> set f. c \<noteq> CHR '','' \<and> c \<noteq> CHR ''='' \<and> \<not> is_space c)"

lemma TrimSpace_id: "\<forall>c \<in> set s. \<not> is_space c \<Longrightarrow> TrimSpace s = s"
proof -
  have none: "dropWhile is_space xs = xs" if "\<forall>c \<in> set xs. \<not> is_space c" for xs
    using that by (cases xs) auto
  assume "\<forall>c \<in> set s. \<not> is_space c"
  then show ?thesis by (simp add: TrimSpace_def none)
qed

lemma index_of_append: "c \<notin> set f \<Longrightarrow> index_of c (f @ c # v) = Some (length f)"
  by (induction f) auto

lemma update_fresh_key: "k \<notin> fst ` set m \<Longrightarrow> AList.update k v m = m @ [(k, v)]"
  by (induction m) auto

lemma override_pair_render:
  assumes "plain_name f"
  shows "override_pair out (render_override (f, b)) = AList.update f b out"
proof -
  define v where "v = (if b then ''on'' else ''off'')"
  have v: "\<forall>c \<in> set v. \<not> is_space c" "v \<noteq> []" "override_value (to_lower v) = Some b"
    by (auto simp: v_def is_space_def to_lower_def lower_char_def)
  have name: "\<forall>c \<in> set f. \<not> is_space c" "CHR ''='' \<notin> set f" "f \<noteq> []"
    using assms by (auto simp: plain_name_def)
  have "render_override (f, b) = f @ CHR ''='' # v" by (simp add: render_override_def v_def)
  moreover have "TrimSpace (f @ CHR ''='' # v) = f @ CHR ''='' # v"
    by (rule TrimSpace_id) (use v name in \<open>auto simp: is_space_def\<close>)
  moreover have "TrimSpace v = v" "TrimSpace f = f" using v name by (simp_all add: TrimSpace_id)
  ultimately show ?thesis
    using v name by (simp add: override_pair_def index_of_append)
qed

text \<open>
  Feature overrides survive the header. Rendering distinct features with plain names as
  \<^verbatim>\<open>name=on\<close> or \<^verbatim>\<open>name=off\<close>, separated by commas, and parsing the header gives the
  same overrides in the same order.
\<close>

theorem override_header_round_trip:
  assumes "distinct (map fst fs)" and "\<forall>f \<in> fst ` set fs. plain_name f"
  shows "parseFeatureOverrideHeader (join_with [CHR '',''] (map render_override fs)) = fs"
proof (cases "fs = []")
  case False
  have "CHR '','' \<notin> set (render_override fb)" if "fb \<in> set fs" for fb
    using that assms(2) by (auto simp: render_override_def plain_name_def)
  then have split: "split_on (CHR '','') (join_with [CHR '',''] (map render_override fs)) = map render_override fs"
    using False by (intro split_on_join) auto
  have "split_on (CHR '','') [] = [[]]" by simp
  moreover have "map render_override fs \<noteq> [[]]" by (auto simp: render_override_def map_eq_Cons_conv)
  ultimately have nonempty: "join_with [CHR '',''] (map render_override fs) \<noteq> []" using split by metis
  have fold: "foldl override_pair out (map render_override gs) = out @ gs"
    if "distinct (map fst (out @ gs))" "\<forall>f \<in> fst ` set gs. plain_name f" for out gs
    using that
  proof (induction gs arbitrary: out)
    case (Cons g gs)
    obtain f b where g: "g = (f, b)" by force
    have "f \<notin> fst ` set out" using Cons.prems(1) g by auto
    then have "override_pair out (render_override g) = out @ [g]"
      using Cons.prems(2) override_pair_render [of f out b] by (simp add: g update_fresh_key)
    then show ?case using Cons.IH [of "out @ [g]"] Cons.prems by simp
  qed simp
  show ?thesis
    using fold [of "[]" fs] assms split nonempty by (simp add: parseFeatureOverrideHeader_def)
qed (simp add: parseFeatureOverrideHeader_def)

theorem override_header_round_trip_witness:
  "parseFeatureOverrideHeader ''wf.timers=off,wf.parallel=on'' = [(''wf.timers'', False), (''wf.parallel'', True)]"
proof -
  have "plain_name ''wf.timers''" "plain_name ''wf.parallel''" by (simp_all add: plain_name_def is_space_def)
  then show ?thesis
    using override_header_round_trip [of "[(''wf.timers'', False), (''wf.parallel'', True)]"]
    by (simp add: render_override_def)
qed

section \<open>Listing\<close>

text \<open>A listing that succeeds is a page within bounds of the runs that match.\<close>

lemma parse_limit_bounds: "parse_limit q = Inr n \<Longrightarrow> 1 \<le> n \<and> n \<le> 500"
  by (auto simp: parse_limit_def Let_def split: if_splits option.splits)

lemma parse_offset_bounds: "parse_offset q = Inr n \<Longrightarrow> 0 \<le> n"
  by (auto simp: parse_offset_def Let_def split: if_splits option.splits)

lemma page_length: "0 \<le> limit \<Longrightarrow> int (length (page limit offset xs)) \<le> limit"
  by (auto simp: page_def Let_def)

lemma parse_errors:
  "parse_limit q = Inl r \<Longrightarrow> content r \<noteq> RunsBody rs n l m"
  "parse_offset q = Inl r \<Longrightarrow> content r \<noteq> RunsBody rs n l m"
  "optional q k parse msg = Inl r \<Longrightarrow> content r \<noteq> RunsBody rs n l m"
  by (auto simp: parse_limit_def parse_offset_def optional_def Let_def bad_request_response_def WriteError_def
      WriteJSON_def split: if_splits option.splits)

lemma ListRuns_bounds:
  "1 \<le> rfilter_limit f \<Longrightarrow> int (length (ListRuns f s)) \<le> rfilter_limit f"
  "int (length (ListRuns f s)) \<le> CountRuns f s"
proof -
  have "int (length (page n m xs)) \<le> int (length xs)" for n m and xs :: "saga_run list"
    by (auto simp: page_def Let_def)
  from this [where xs = "insertion_sort started_later (filterRuns f (buildTriggerTypeMap s) s)"]
  show "int (length (ListRuns f s)) \<le> CountRuns f s"
    by (simp add: ListRuns_def CountRuns_def Let_def)
  show "1 \<le> rfilter_limit f \<Longrightarrow> int (length (ListRuns f s)) \<le> rfilter_limit f"
    by (simp add: ListRuns_def Let_def page_length)
qed

lemma Saga_List_page:
  assumes "content (Saga_List e q w) = RunsBody rs n limit offset"
  shows "status (Saga_List e q w) = 200 \<and> 1 \<le> limit \<and> limit \<le> 500 \<and> 0 \<le> offset
    \<and> int (length rs) \<le> limit \<and> int (length rs) \<le> n"
proof -
  obtain l m where lm: "parse_limit q = Inr l" "parse_offset q = Inr m"
    using assms parse_errors(1,2) [of q]
    by (cases "parse_limit q"; cases "parse_offset q") (auto simp: Saga_List_def)
  obtain since err review where opts:
    "optional q ''since'' (parse_time e) ''since must be an RFC3339 timestamp'' = Inr since"
    "optional q ''has_error'' ParseBool ''has_error must be true or false'' = Inr err"
    "optional q ''requires_review'' ParseBool ''requires_review must be true or false'' = Inr review"
    using assms lm by (auto simp: Saga_List_def dest: parse_errors(3) split: sum.splits)
  let ?f = "\<lparr>rfilter_workflow_id = query_get q ''workflow_id'', rfilter_state = query_get q ''state'',
     rfilter_trigger_type = query_get q ''trigger_type'', rfilter_since = since, rfilter_has_error = err,
     rfilter_requires_review = review, rfilter_limit = limit, rfilter_offset = offset\<rparr>"
  have "rs = ListRuns ?f (st w) \<and> n = CountRuns ?f (st w) \<and> l = limit \<and> m = offset
      \<and> status (Saga_List e q w) = 200"
    using assms lm opts by (auto simp: Saga_List_def WriteJSON_def Let_def)
  then show ?thesis
    using ListRuns_bounds [of ?f "st w"] parse_limit_bounds [OF lm(1)] parse_offset_bounds [OF lm(2)] by simp
qed

end
