(* ===== verification/Facade.thy ===== *)
theory Facade
  imports Api
begin

text \<open>
  The embedding facade (\<^verbatim>\<open>saga/saga.go\<close>, \<^verbatim>\<open>saga/publisher.go\<close>), the consumer of
  \<^verbatim>\<open>saga.advance\<close> messages the engine service runs (\<^verbatim>\<open>internal/mq/consumer.go\<close>,
  \<^verbatim>\<open>cmd/engine/main.go\<close>), and the small helpers they are wired with (\<^verbatim>\<open>secrets/secrets.go\<close>,
  \<^verbatim>\<open>clock/clock.go\<close>). A background goroutine of the in-process publisher is a run id in the
  world's queue.
\<close>

section \<open>Secrets and clocks\<close>

definition Memory_Get :: "(string \<times> string) list \<Rightarrow> string \<Rightarrow> gerr + string" where
  "Memory_Get m ref =
     (case map_of m ref of
        None \<Rightarrow> Inl (Errorf ''secrets: ref not found: %s'' [AStr ref])
      | Some v \<Rightarrow> Inr v)"

text \<open>
  \<^verbatim>\<open>FakeClock\<close>: the virtual time and the pending waiters, each with its deadline and its channel,
  and what has been sent on channels so far.
\<close>

record fake_clock =
  fake_now :: gotime
  fake_waiters :: "(gotime \<times> nat) list"
  fake_sent :: "(nat \<times> gotime) list"

definition NewFakeClock :: "gotime \<Rightarrow> fake_clock" where
  "NewFakeClock start = \<lparr>fake_now = start, fake_waiters = [], fake_sent = []\<rparr>"

definition FakeClock_After :: "duration \<Rightarrow> nat \<Rightarrow> fake_clock \<Rightarrow> fake_clock" where
  "FakeClock_After d ch f = f\<lparr>fake_waiters := fake_waiters f @ [(fake_now f + d, ch)]\<rparr>"

fun fire_waiters :: "gotime \<Rightarrow> (gotime \<times> nat) list \<Rightarrow> (gotime \<times> nat) list \<times> (nat \<times> gotime) list" where
  "fire_waiters now [] = ([], [])"
| "fire_waiters now ((due, ch) # ws) =
     (case fire_waiters now ws of
        (kept, sent) \<Rightarrow> (if \<not> due > now then (kept, (ch, now) # sent) else ((due, ch) # kept, sent)))"

definition FakeClock_Advance :: "duration \<Rightarrow> fake_clock \<Rightarrow> fake_clock" where
  "FakeClock_Advance d f =
     (let now = fake_now f + d;
          (kept, sent) = fire_waiters now (fake_waiters f)
      in \<lparr>fake_now = now, fake_waiters = kept, fake_sent = fake_sent f @ sent\<rparr>)"

section \<open>The facade\<close>

text \<open>The in-process publisher: an advance always starts, an action cannot be dispatched.\<close>

definition inproc_PublishSagaAdvance :: advance_publisher where
  "inproc_PublishSagaAdvance w runID = None"

definition inproc_PublishActionDispatch :: sender where
  "inproc_PublishActionDispatch w action body =
     Some (Errorf ''saga: in-process publisher cannot dispatch actions; run a worker or use the service mode'' [])"

text \<open>
  \<^verbatim>\<open>Options\<close>: a publisher comes with its action dispatch if its type has one. The clock is
  the world's.
\<close>

record options =
  opt_store :: bool
  opt_licensing :: "resolver option"
  opt_secrets :: "(string \<Rightarrow> gerr + string) option"
  opt_publisher :: "(advance_publisher \<times> sender option) option"
  opt_providers :: "provider list"

record saga =
  sg_coord :: coord
  sg_providers :: "provider list"

definition actionPublisher :: "(advance_publisher \<times> sender option) option \<Rightarrow> sender \<Rightarrow> sender" where
  "actionPublisher p fallback =
     (case p of Some (_, Some ap) \<Rightarrow> ap | _ \<Rightarrow> fallback)"

definition saga_New :: "env \<Rightarrow> options \<Rightarrow> gerr + saga" where
  "saga_New e opts =
     (if \<not> opt_store opts then Inl (Errorf ''saga: Options.Store is required'' [])
      else
        (let pub = (case opt_publisher opts of None \<Rightarrow> inproc_PublishSagaAdvance | Some (p, _) \<Rightarrow> p);
             e1 = e\<lparr>publisher := Some pub,
                    secrets := Some (or_default (opt_secrets opts) (Memory_Get [])),
                    emitter := Some (EmitEvent e (Some pub) (Some (opt_providers opts)))\<rparr>;
             av = \<lparr>av_store = True,
                   av_publisher = Some (actionPublisher (opt_publisher opts) inproc_PublishActionDispatch),
                   av_http = None, av_rmq = None\<rparr>
         in Inr \<lparr>sg_coord = NewCoordinator e1 av (opt_licensing opts),
                 sg_providers = opt_providers opts\<rparr>))"

definition InMemory :: "env \<Rightarrow> gerr + saga" where
  "InMemory e = saga_New e \<lparr>opt_store = True, opt_licensing = None, opt_secrets = None,
     opt_publisher = None, opt_providers = []\<rparr>"

definition saga_Register :: "saga \<Rightarrow> workflow_definition \<Rightarrow> world \<Rightarrow> world" where
  "saga_Register sg d w =
     (let (i, w1) = fresh (c_env (sg_coord sg)) w in do_store (UpsertWorkflowDefinition i d) w1)"

definition saga_RegisterVerb :: "string \<Rightarrow> string \<Rightarrow> handler \<Rightarrow> saga \<Rightarrow> saga" where
  "saga_RegisterVerb stepType licenseGroup h sg =
     sg\<lparr>sg_coord := RegisterVerb (step_type_of stepType) (plain_entry h licenseGroup) (sg_coord sg)\<rparr>"

text \<open>
  The error, the run id returned and the world; \<open>None\<close> when the fuel of \<^verbatim>\<open>Advance\<close> runs out.
\<close>

definition StartAt ::
  "saga \<Rightarrow> nat \<Rightarrow> string \<Rightarrow> string \<Rightarrow> gomap \<Rightarrow> world \<Rightarrow> (gerr option \<times> uuid \<times> world) option" where
  "StartAt sg fuel workflowID entrypoint inputs w =
     (case GetPublishedWorkflowByID (st w) workflowID of
        Inl err \<Rightarrow> Some (Some err, uuid_Nil, w)
      | Inr d \<Rightarrow>
          (case ResolveEntry d entrypoint of
             Inl err \<Rightarrow> Some (Some err, uuid_Nil, w)
           | Inr startStep \<Rightarrow>
               (let e = c_env (sg_coord sg);
                    (rowID, w1) = fresh e w;
                    w2 = do_store (UpsertWorkflowDefinition rowID d) w1;
                    (runID, w3) = fresh e w2;
                    run = (NewSagaRun runID (wall w3) (def_id d) rowID None inputs)
                            \<lparr>run_current_step := startStep\<rparr>;
                    w4 = InjectStartupVariables runID None (sg_providers sg) (do_store (CreateRun run) w3)
                in map_option (\<lambda>(err, w5). (err, runID, w5)) (Advance (sg_coord sg) fuel runID w4))))"

definition saga_Start ::
  "saga \<Rightarrow> nat \<Rightarrow> string \<Rightarrow> gomap \<Rightarrow> world \<Rightarrow> (gerr option \<times> uuid \<times> world) option" where
  "saga_Start sg fuel workflowID inputs = StartAt sg fuel workflowID [] inputs"

definition saga_Get :: "uuid \<Rightarrow> world \<Rightarrow> gerr + saga_run" where
  "saga_Get runID w = GetRun (st w) runID"

definition saga_Cancel :: "saga \<Rightarrow> uuid \<Rightarrow> string \<Rightarrow> world \<Rightarrow> gerr option \<times> world" where
  "saga_Cancel sg = coord_Cancel (sg_coord sg)"

definition saga_Signal ::
  "saga \<Rightarrow> nat \<Rightarrow> uuid \<Rightarrow> string \<Rightarrow> gomap \<Rightarrow> world \<Rightarrow> (gerr option \<times> world) option" where
  "saga_Signal sg fuel runID name payload w =
     (case record_signal (c_env (sg_coord sg)) runID name payload w of
        (True, w1) \<Rightarrow> Advance (sg_coord sg) fuel runID w1
      | (False, w1) \<Rightarrow> Some (None, w1))"

section \<open>The engine service\<close>

datatype settled = Acked | Nacked | Rejected

text \<open>A delivery: \<open>None\<close> when its body does not decode, else the run id it carries.\<close>

definition settle_advance ::
  "(string \<Rightarrow> world \<Rightarrow> (gerr option \<times> world) option) \<Rightarrow> string option \<Rightarrow> world \<Rightarrow> (settled \<times> world) option" where
  "settle_advance h d w =
     (case d of
        None \<Rightarrow> Some (Rejected, w)
      | Some runID \<Rightarrow>
          (case h runID w of
             None \<Rightarrow> None
           | Some (Some err, w1) \<Rightarrow> Some (Nacked, w1)
           | Some (None, w1) \<Rightarrow> Some (Acked, w1)))"

text \<open>The handler of the engine binary; tracing and logging are left out.\<close>

definition engine_advance :: "coord \<Rightarrow> nat \<Rightarrow> string \<Rightarrow> world \<Rightarrow> (gerr option \<times> world) option" where
  "engine_advance c fuel runID w =
     (case Advance c fuel runID w of
        None \<Rightarrow> None
      | Some (Some err, w1) \<Rightarrow> Some (Some (Errorf ''advance: %w'' [AErr err]), w1)
      | Some (None, w1) \<Rightarrow> Some (None, w1))"

text \<open>The loop over the deliveries received before the context is cancelled.\<close>

fun ConsumeSagaAdvance ::
  "(string \<Rightarrow> world \<Rightarrow> (gerr option \<times> world) option) \<Rightarrow> string option list \<Rightarrow> world
   \<Rightarrow> (settled list \<times> world) option" where
  "ConsumeSagaAdvance h [] w = Some ([], w)"
| "ConsumeSagaAdvance h (d # ds) w =
     (case settle_advance h d w of
        None \<Rightarrow> None
      | Some (x, w1) \<Rightarrow>
          (case ConsumeSagaAdvance h ds w1 of
             None \<Rightarrow> None
           | Some (xs, w2) \<Rightarrow> Some (x # xs, w2)))"

section \<open>Clocks\<close>

text \<open>A waiter fires once, at the first advance that reaches its deadline.\<close>

lemma fire_waiters_spec:
  "fire_waiters now ws = (filter (\<lambda>(due, ch). due > now) ws, map (\<lambda>(due, ch). (ch, now)) (filter (\<lambda>(due, ch). \<not> due > now) ws))"
  by (induction ws) auto

definition fired :: "fake_clock \<Rightarrow> nat set" where
  "fired f = fst ` set (fake_sent f)"

lemma FakeClock_Advance_fields:
  "fake_now (FakeClock_Advance d f) = fake_now f + d"
  "(t, ch) \<in> set (fake_waiters (FakeClock_Advance d f)) \<longleftrightarrow> (t, ch) \<in> set (fake_waiters f) \<and> t > fake_now f + d"
  "ch \<in> fired (FakeClock_Advance d f) \<longleftrightarrow>
     ch \<in> fired f \<or> (\<exists>t \<le> fake_now f + d. (t, ch) \<in> set (fake_waiters f))"
  by (auto simp: FakeClock_Advance_def fire_waiters_spec Let_def fired_def image_Un image_iff)

lemma FakeClock_Advance_twice:
  assumes "0 \<le> d2"
  shows "fired (FakeClock_Advance d2 (FakeClock_Advance d1 f)) = fired (FakeClock_Advance (d1 + d2) f)"
proof (intro set_eqI)
  fix ch
  have "t \<le> fake_now f + d1 \<or> t > fake_now f + d1 \<and> t \<le> fake_now f + d1 + d2 \<longleftrightarrow> t \<le> fake_now f + (d1 + d2)" for t
    using assms by linarith
  then show "ch \<in> fired (FakeClock_Advance d2 (FakeClock_Advance d1 f)) \<longleftrightarrow> ch \<in> fired (FakeClock_Advance (d1 + d2) f)"
    unfolding FakeClock_Advance_fields by blast
qed

section \<open>Starting and signalling\<close>

lemma StartAt_unknown:
  assumes "GetPublishedWorkflowByID (st w) workflow = Inr d" and "ResolveEntry d entrypoint = Inl err"
  shows "StartAt sg fuel workflow entrypoint inputs w = Some (Some err, uuid_Nil, w)"
  using assms by (simp add: StartAt_def)

text \<open>
  Starting at an entry point. The run created is pending at the step the entry point names, belongs to a
  stored copy of the definition and has the given inputs; the first pass executes exactly
  that step. Other runs are untouched before it.
\<close>

theorem StartAt_enters:
  assumes "GetPublishedWorkflowByID (st w) workflow = Inr d" and "ResolveEntry d entrypoint = Inr start"
    and "start \<noteq> []" and "StepByID d start = Some s"
    and "e = c_env (sg_coord sg)" and "i = uuid_new e (Suc (draws w))"
    and "uuid_parse e i = Inr i" and "\<And>w. ctx_err e w = None"
  shows "\<exists>w1 r. StartAt sg (Suc n) workflow entrypoint inputs w =
        map_option (\<lambda>(err, w2). (err, i, w2))
          (case enter_step (sg_coord sg) r d s (emit e i [] 0 EventSagaStarted ''engine'' [] w1) of
             (Return x, w2) \<Rightarrow> Some (x, w2)
           | (Continue, w2) \<Rightarrow> advance_loop (sg_coord sg) i n w2)
    \<and> GetRun (st w1) i = Inr r \<and> run_id r = i \<and> run_state r = RunStatePending \<and> run_current_step r = start
    \<and> run_inputs r = inputs \<and> GetWorkflowDefinition (st w1) (run_definition_id r) = Inr d
    \<and> (\<forall>j. j \<noteq> i \<longrightarrow> GetRun (st w1) j = GetRun (st w) j) \<and> queue w1 = queue w \<and> outbox w1 = outbox w"
proof -
  define rowID where "rowID = uuid_new e (draws w)"
  define run where "run = (NewSagaRun i (wall w) (def_id d) rowID None inputs)\<lparr>run_current_step := start\<rparr>"
  define w3 where "w3 = do_store (CreateRun run)
      ((do_store (UpsertWorkflowDefinition rowID d) (w\<lparr>draws := Suc (draws w)\<rparr>))\<lparr>draws := Suc (Suc (draws w))\<rparr>)"
  have reads3: "GetRun (st w3) j = (if j = i then Inr run else GetRun (st w) j)"
    "GetWorkflowDefinition (st w3) rowID = Inr d" "queue w3 = queue w" "outbox w3 = outbox w" for j
    by (simp_all add: w3_def do_store_def CreateRun_def UpsertWorkflowDefinition_def GetRun_def
        GetWorkflowDefinition_def run_def NewSagaRun_def)
  define w4 where "w4 = InjectStartupVariables i None (sg_providers sg) w3"
  obtain v where w4: "GetRun (st w4) i = Inr (run\<lparr>run_variables := v\<rparr>)"
    "\<forall>j. j \<noteq> i \<longrightarrow> GetRun (st w4) j = GetRun (st w) j" "GetWorkflowDefinition (st w4) rowID = Inr d"
    "queue w4 = queue w" "outbox w4 = outbox w"
    using Inject_reads [OF reads3(1) [of i, simplified], of None "sg_providers sg"] reads3
    unfolding w4_def by auto
  define r where "r = run\<lparr>run_variables := v\<rparr>"
  have r: "run_id r = i" "run_state r = RunStatePending" "run_inputs r = inputs"
    "run_definition_id r = rowID" "run_current_step r = start"
    by (simp_all add: r_def run_def NewSagaRun_def)
  have "advance_iter (sg_coord sg) i w4 =
      enter_step (sg_coord sg) r d s (emit e i [] 0 EventSagaStarted ''engine'' [] w4)"
    using advance_iter_enter [of "sg_coord sg" w4 i r d s] r w4 assms(3-5,8) by (simp add: r_def [symmetric])
  then have "Advance (sg_coord sg) (Suc n) i w4 =
      (case enter_step (sg_coord sg) r d s (emit e i [] 0 EventSagaStarted ''engine'' [] w4) of
         (Return x, w2) \<Rightarrow> Some (x, w2) | (Continue, w2) \<Rightarrow> advance_loop (sg_coord sg) i n w2)"
    using assms(5,7) by (simp add: Advance_def)
  moreover have "StartAt sg (Suc n) workflow entrypoint inputs w =
      map_option (\<lambda>(err, w2). (err, i, w2)) (Advance (sg_coord sg) (Suc n) i w4)"
    using assms(1,2,5,6) by (simp add: StartAt_def Let_def fresh_def w4_def w3_def run_def rowID_def do_store_def)
  ultimately show ?thesis
    using r w4 by (intro exI [of _ w4] exI [of _ r]) (simp add: r_def [symmetric])
qed

definition demo_saga :: saga where
  "demo_saga = \<lparr>sg_coord = demo_coord, sg_providers = []\<rparr>"

theorem StartAt_enters_witness:
  "\<exists>w1 r. GetRun (st w1) (uuid_new test_env 1) = Inr r \<and> run_current_step r = ''a''
    \<and> StartAt demo_saga 1 ''wf'' [] [] (test_world\<lparr>st := UpsertWorkflowDefinition ''d1'' (demo_def [wait_a]) New\<rparr>)
      = map_option (\<lambda>(err, w2). (err, uuid_new test_env 1, w2))
          (case enter_step demo_coord r (demo_def [wait_a]) wait_a
                  (emit test_env (uuid_new test_env 1) [] 0 EventSagaStarted ''engine'' [] w1) of
             (Return x, w2) \<Rightarrow> Some (x, w2) | (Continue, w2) \<Rightarrow> advance_loop demo_coord (uuid_new test_env 1) 0 w2)"
proof -
  let ?w = "test_world\<lparr>st := UpsertWorkflowDefinition ''d1'' (demo_def [wait_a]) New\<rparr>"
  have found: "GetPublishedWorkflowByID (st ?w) ''wf'' = Inr (demo_def [wait_a])"
    by (simp add: GetPublishedWorkflowByID_def UpsertWorkflowDefinition_def New_def demo_def_def blank_def_def at_key_def)
  have entry: "ResolveEntry (demo_def [wait_a]) [] = Inr ''a''"
    by (simp add: ResolveEntry_def)
  have sg: "sg_coord demo_saga = demo_coord" "c_env demo_coord = test_env" "draws ?w = 0"
    "Suc 0 = (1 :: nat)"
    by (simp_all add: demo_saga_def test_world_def)
  have step: "StepByID (demo_def [wait_a]) ''a'' = Some wait_a" by simp
  show ?thesis
    using StartAt_enters [OF found entry _ step, where sg = demo_saga and e = test_env
        and i = "uuid_new test_env 1" and n = 0 and inputs = "[]"] unfolding sg by auto
qed

text \<open>
  Signalling a run that awaits the signal resumes it: the step is logged as succeeded and the coordinator
  goes on at its successor with all waits cleared. Any other signal returns without
  error and changes no run.
\<close>

theorem Signal_resumes:
  assumes "e = c_env (sg_coord sg)" and "uuid_parse e i = Inr i" and "\<And>w. ctx_err e w = None"
    and "GetRun (st w) i = Inr run" and "run_id run = i"
    and "GetWorkflowDefinition (st w) (run_definition_id run) = Inr d"
    and "StepByID d (run_current_step run) = Some sp" and "step_next sp \<noteq> []"
    and "step_type sp \<notin> {StepTypeParallel, StepTypeForeach, StepTypeSubSaga}"
    and "run_awaited_event_topic run = None"
  shows "(awaits_signal (st w) i name \<longrightarrow>
        (\<exists>w1 w2. saga_Signal sg (Suc n) i name payload w = advance_loop (sg_coord sg) i n w2
          \<and> GetRun (st w2) i = Inr (resumed (step_next sp) run)
          \<and> history w2 i = history w i @ [(EventStepSucceeded, step_id sp)]
          \<and> (\<forall>j. j \<noteq> i \<longrightarrow> GetRun (st w2) j = GetRun (st w) j) \<and> queue w2 = queue w \<and> outbox w2 = outbox w))
    \<and> (\<not> awaits_signal (st w) i name \<longrightarrow>
        (\<exists>w1. saga_Signal sg fuel i name payload w = Some (None, w1)
          \<and> (\<forall>j. GetRun (st w1) j = GetRun (st w) j) \<and> queue w1 = queue w \<and> outbox w1 = outbox w))"
proof -
  obtain w1 where w1: "record_signal e i name payload w = (awaits_signal (st w) i name, w1)"
    and runs1: "\<forall>j. GetRun (st w1) j = (if awaits_signal (st w) i name \<and> j = i
         then map_sum id clear_awaits (GetRun (st w) i) else GetRun (st w) j)"
    and rest1: "\<forall>d. GetWorkflowDefinition (st w1) d = GetWorkflowDefinition (st w) d"
      "\<forall>j. ListEventsByRun (st w1) j = ListEventsByRun (st w) j" "queue w1 = queue w" "outbox w1 = outbox w"
    using record_signal_effect [of e i name payload w] by blast
  show ?thesis
  proof (cases "awaits_signal (st w) i name")
    case False
    then show ?thesis using w1 runs1 rest1 assms(1) by (simp add: saga_Signal_def)
  next
    case True
    then have paused: "run_state run = RunStatePaused" using assms(4) by (simp add: awaits_signal_def)
    define r1 where "r1 = clear_awaits run"
    have run1: "GetRun (st w1) i = Inr r1" using runs1 True assms(4) by (simp add: r1_def)
    have r1: "run_id r1 = i" "run_state r1 = RunStatePaused" "\<not> marker r1" "run_wakeup_at r1 = None"
      "run_current_step r1 = run_current_step run" "run_definition_id r1 = run_definition_id run"
      using assms(5,10) paused by (simp_all add: r1_def clear_awaits_def marker_def)
    have def1: "GetWorkflowDefinition (st w1) (run_definition_id r1) = Inr d" using rest1 assms(6) r1 by simp
    have kids: "childrenStillRunning e r1 (st w1) = Inr False"
      using def1 r1 assms(7,9) by (simp add: childrenStillRunning_def)
    have nx: "resume_step (clk w1) r1 sp = step_next sp" using r1 by (simp add: resume_step_def)
    have "\<exists>w2. wake_paused (sg_coord sg) i r1 w1 = (Continue, w2)
        \<and> GetRun (st w2) i = Inr (resumed (step_next sp) r1)
        \<and> (\<forall>j. j \<noteq> i \<longrightarrow> GetRun (st w2) j = GetRun (st w1) j)
        \<and> history w2 i = history w1 i @ [(EventStepSucceeded, step_id sp)]
        \<and> queue w2 = queue w1 \<and> outbox w2 = outbox w1"
      using wake_paused_resumes [OF run1 r1(1) _ def1, of "sg_coord sg" sp] r1 kids nx assms(1,7,8) by auto
    then obtain w2 where w2: "wake_paused (sg_coord sg) i r1 w1 = (Continue, w2)"
        "GetRun (st w2) i = Inr (resumed (step_next sp) r1)"
        "\<forall>j. j \<noteq> i \<longrightarrow> GetRun (st w2) j = GetRun (st w1) j"
        "history w2 i = history w1 i @ [(EventStepSucceeded, step_id sp)]" "queue w2 = queue w1" "outbox w2 = outbox w1"
      by blast
    then have "advance_iter (sg_coord sg) i w1 = (Continue, w2)"
      using run1 r1 assms(1,3) by (simp add: advance_iter_def)
    then have "saga_Signal sg (Suc n) i name payload w = advance_loop (sg_coord sg) i n w2"
      using w1 True assms(1,2) by (simp add: saga_Signal_def Advance_def)
    moreover have "resumed (step_next sp) r1 = resumed (step_next sp) run"
      by (simp add: resumed_def r1_def clear_awaits_def)
    moreover have "history w1 i = history w i" using rest1 by (simp add: history_def)
    ultimately show ?thesis using True w2 runs1 rest1 by auto
  qed
qed

definition wait_signal_a :: step where
  "wait_signal_a = (blank_step ''a'')\<lparr>step_type := StepTypeWaitForSignal, step_next := ''b''\<rparr>"

theorem Signal_resumes_witness:
  "\<exists>w2. saga_Signal demo_saga 1 ''r1'' ''go'' [] (demo_world signalled_run [wait_signal_a]) = advance_loop demo_coord ''r1'' 0 w2
    \<and> GetRun (st w2) ''r1'' = Inr (resumed ''b'' signalled_run)"
proof -
  let ?w = "demo_world signalled_run [wait_signal_a]"
  have run: "GetRun (st ?w) ''r1'' = Inr signalled_run" "run_id signalled_run = ''r1''"
    "run_current_step signalled_run = ''a''" "run_definition_id signalled_run = ''d1''"
    "run_awaited_event_topic signalled_run = None"
    using demo_reads(1) [of signalled_run "[wait_signal_a]"] by (simp_all add: signalled_run_def paused_sample_def)
  have "awaits_signal (st ?w) ''r1'' ''go''"
    using run(1) by (simp add: awaits_signal_def signalled_run_def paused_sample_def)
  moreover have "StepByID (demo_def [wait_signal_a]) ''a'' = Some wait_signal_a" "step_next wait_signal_a = ''b''"
    "step_type wait_signal_a = StepTypeWaitForSignal"
    by (simp_all add: wait_signal_a_def blank_step_def)
  ultimately show ?thesis
    using Signal_resumes [where sg = demo_saga and e = test_env and w = ?w and i = "''r1''" and run = signalled_run
        and d = "demo_def [wait_signal_a]" and sp = wait_signal_a and n = 0 and name = "''go''" and payload = "[]"] run
    by (auto simp: demo_saga_def)
qed

section \<open>Deliveries of \<^verbatim>\<open>saga.advance\<close>\<close>

lemma terminal_delivery_acked:
  assumes "uuid_parse (c_env c) istr = Inr i" and "\<And>w. ctx_err (c_env c) w = None"
    and "GetRun (st w) i = Inr run" and "IsTerminal (run_state run)"
  shows "settle_advance (engine_advance c (Suc n)) (Some istr) w = Some (Acked, w)"
  using assms by (simp add: settle_advance_def engine_advance_def Advance_def advance_iter_def)

lemma unregistered_iter:
  assumes "ctx_err (c_env c) w = None" and "GetRun (st w) i = Inr run" and "run_id run = i"
    and "run_state run = RunStateRunning" and "run_current_step run \<noteq> []"
    and "GetWorkflowDefinition (st w) (run_definition_id run) = Inr d"
    and "StepByID d (run_current_step run) = Some s" and "step_type s \<noteq> StepTypeEnd"
    and "c_verbs c (step_type s) = None"
  shows "\<exists>err w'. advance_iter c i w = (Return (Some err), w') \<and> GetRun (st w') i = Inr run
    \<and> GetWorkflowDefinition (st w') (run_definition_id run) = Inr d
    \<and> history w' i = history w i @ [(EventStepDispatched, step_id s)]
    \<and> queue w' = queue w \<and> outbox w' = outbox w"
proof -
  have sid: "step_id s = run_current_step run" using StepByID_SomeD [OF assms(7)] by simp
  have same: "run\<lparr>run_state := RunStateRunning, run_current_step := run_current_step run\<rparr> = run"
    using assms(4) by (cases run) simp
  have "advance_iter c i w = enter_step c run d s w"
    using advance_iter_enter [OF assms(1,2), of d s] assms(4-7) by simp
  then show ?thesis
    using assms sid same by (simp add: enter_step_def Let_def as_with_run try_with_run)
qed

text \<open>
  C31: A step whose type has no handler blocks its message. Each delivery of the run's \<^verbatim>\<open>saga.advance\<close>
  is refused and requeued, however often it comes back: the run stays running at that step, never
  fails and is never set aside, and every delivery adds one more dispatch event to its log.
\<close>

theorem unregistered_step_requeues:
  assumes "uuid_parse (c_env c) istr = Inr i" and "\<And>w. ctx_err (c_env c) w = None"
    and "GetRun (st w) i = Inr run" and "run_id run = i"
    and "run_state run = RunStateRunning" and "run_current_step run \<noteq> []"
    and "GetWorkflowDefinition (st w) (run_definition_id run) = Inr d"
    and "StepByID d (run_current_step run) = Some s" and "step_type s \<noteq> StepTypeEnd"
    and "c_verbs c (step_type s) = None"
  shows "\<exists>w'. ConsumeSagaAdvance (engine_advance c (Suc n)) (replicate k (Some istr)) w = Some (replicate k Nacked, w')
    \<and> GetRun (st w') i = Inr run
    \<and> history w' i = history w i @ replicate k (EventStepDispatched, step_id s)
    \<and> queue w' = queue w \<and> outbox w' = outbox w"
  using assms(3,7)
proof (induction k arbitrary: w)
  case (Suc k)
  obtain err w1 where w1: "advance_iter c i w = (Return (Some err), w1)" "GetRun (st w1) i = Inr run"
      "GetWorkflowDefinition (st w1) (run_definition_id run) = Inr d"
      "history w1 i = history w i @ [(EventStepDispatched, step_id s)]" "queue w1 = queue w" "outbox w1 = outbox w"
    using unregistered_iter [OF assms(2) Suc.prems(1) assms(4-6) Suc.prems(2) assms(8-10)] by blast
  have "settle_advance (engine_advance c (Suc n)) (Some istr) w = Some (Nacked, w1)"
    using w1(1) assms(1) by (simp add: settle_advance_def engine_advance_def Advance_def)
  then show ?case using Suc.IH [OF w1(2,3)] w1 by auto
qed simp

definition odd_step :: step where
  "odd_step = (blank_step ''a'')\<lparr>step_type := StepTypeCustom ''odd'', step_next := ''b''\<rparr>"

definition running_sample :: saga_run where
  "running_sample = (sample_run ''r1'')\<lparr>run_state := RunStateRunning, run_current_step := ''a''\<rparr>"

theorem unregistered_step_requeues_witness:
  "\<exists>w'. ConsumeSagaAdvance (engine_advance demo_coord 1) (replicate 3 (Some ''r1''))
        (demo_world running_sample [odd_step]) = Some (replicate 3 Nacked, w')
    \<and> GetRun (st w') ''r1'' = Inr running_sample"
proof -
  have run: "GetRun (st (demo_world running_sample [odd_step])) ''r1'' = Inr running_sample"
    "run_id running_sample = ''r1''" "run_state running_sample = RunStateRunning"
    "run_current_step running_sample = ''a''" "run_definition_id running_sample = ''d1''"
    using demo_reads(1) [of running_sample "[odd_step]"] by (simp_all add: running_sample_def)
  have step: "StepByID (demo_def [odd_step]) ''a'' = Some odd_step" "step_type odd_step = StepTypeCustom ''odd''"
    by (simp_all add: odd_step_def blank_step_def)
  have verbs: "c_verbs demo_coord (StepTypeCustom ''odd'') = None"
    by (simp add: demo_coord_def NewCoordinator_def RegisterVerb_def Default_def)
  show ?thesis
    using unregistered_step_requeues [where c = demo_coord and istr = "''r1''" and i = "''r1''" and n = 0
        and w = "demo_world running_sample [odd_step]" and run = running_sample and d = "demo_def [odd_step]"
        and s = odd_step and k = 3] run step verbs by auto
qed

end
