(* ===== verification/Messaging.thy ===== *)
theory Messaging
  imports Facade Worker_Client
begin

text \<open>
  The messages the binaries exchange through RabbitMQ: publishing (\<^verbatim>\<open>internal/mq/publisher.go\<close>), opening a consumer
  (\<^verbatim>\<open>internal/mq/consumer.go\<close>), the subscription of each engine process to workflow events
  (\<open>RunRMQ\<close> of \<^verbatim>\<open>engine/event_subscriber.go\<close>) and the HTTP transport of dispatches (\<^verbatim>\<open>internal/dispatch/http.go\<close>).
  The broker itself is a parameter: a state and what each operation answers.
\<close>

section \<open>The broker as the code sees it\<close>

text \<open>\<^verbatim>\<open>amqp.Publishing\<close> with the exchange and the key it is published to.\<close>

record publishing =
  pub_exchange :: string
  pub_key :: string
  pub_content_type :: string
  pub_persistent :: bool
  pub_headers :: "(string \<times> string) list"
  pub_body :: string

text \<open>
  Operations on a connection and its channels. \<open>DeclarePrivate\<close> declares a queue by name, with the flags durable,
  auto-delete and exclusive; \<open>ConsumeFrom\<close> has the flag for automatic acknowledgement.
\<close>

datatype mq_op =
    OpenChannel
  | CloseChannel
  | Qos nat
  | Topology amqp_op
  | DeclarePrivate string bool bool bool
  | ConsumeFrom string bool
  | Publish publishing

type_synonym 'b broker = "mq_op \<Rightarrow> 'b \<Rightarrow> gerr option \<times> 'b"

text \<open>Operations in order until one fails, whose error is wrapped with the name of the step.\<close>

fun mq_steps :: "'b broker \<Rightarrow> (mq_op \<times> string) list \<Rightarrow> 'b \<Rightarrow> gerr option \<times> 'b" where
  "mq_steps br [] b = (None, b)"
| "mq_steps br ((x, what) # xs) b =
     (case br x b of
        (Some err, b1) \<Rightarrow> (Some (Errorf (what @ '': %w'') [AErr err]), b1)
      | (None, b1) \<Rightarrow> mq_steps br xs b1)"

section \<open>Connecting and publishing\<close>

definition mq_Connect :: "(string \<Rightarrow> gerr + 'c) \<Rightarrow> string \<Rightarrow> gerr + 'c" where
  "mq_Connect dial url = (if url = [] then Inl (Errorf ''rabbitmq: URL is empty'' []) else dial url)"

definition DeclareTopology :: "'b broker \<Rightarrow> 'b \<Rightarrow> gerr option \<times> 'b" where
  "DeclareTopology br = topology_Declare (\<lambda>x. br (Topology x))"

text \<open>\<open>marshal\<close> is \<^verbatim>\<open>json.Marshal\<close>.\<close>

definition json_message :: "string \<Rightarrow> string \<Rightarrow> (string \<times> string) list \<Rightarrow> string \<Rightarrow> publishing" where
  "json_message exchange key headers body =
     \<lparr>pub_exchange = exchange, pub_key = key, pub_content_type = ''application/json'', pub_persistent = True,
      pub_headers = headers, pub_body = body\<rparr>"

definition mq_PublishSagaAdvance ::
  "(val \<Rightarrow> gerr + string) \<Rightarrow> 'b broker \<Rightarrow> string \<Rightarrow> 'b \<Rightarrow> gerr option \<times> 'b" where
  "mq_PublishSagaAdvance marshal br runID b =
     (case marshal (VMap [(''saga_run_id'', VStr runID)]) of
        Inl err \<Rightarrow> (Some err, b)
      | Inr body \<Rightarrow> br (Publish (json_message [] ''saga.advance'' [] body)) b)"

definition mq_PublishActionDispatch :: "'b broker \<Rightarrow> string \<Rightarrow> string \<Rightarrow> 'b \<Rightarrow> gerr option \<times> 'b" where
  "mq_PublishActionDispatch br key body = br (Publish (json_message ''action.direct'' key [] body))"

definition DispatchRMQQueue :: "'b broker \<Rightarrow> string \<Rightarrow> string \<Rightarrow> 'b \<Rightarrow> gerr option \<times> 'b" where
  "DispatchRMQQueue br q body = br (Publish (json_message [] q [] body))"

definition PublishEvent ::
  "(val \<Rightarrow> gerr + string) \<Rightarrow> 'b broker \<Rightarrow> string \<Rightarrow> (string \<times> string) list \<Rightarrow> val \<Rightarrow> 'b \<Rightarrow> gerr option \<times> 'b" where
  "PublishEvent marshal br topic headers body b =
     (case marshal body of
        Inl err \<Rightarrow> (Some err, b)
      | Inr text \<Rightarrow> br (Publish (json_message ''workflow.events'' topic headers text)) b)"

text \<open>\<open>post\<close> is the request: an error building it, an error sending it, or the status of the answer.\<close>

datatype posted = BadRequest gerr | NotSent gerr | Answered int

definition DispatchHTTP :: "(string \<Rightarrow> string \<Rightarrow> posted) \<Rightarrow> string \<Rightarrow> string \<Rightarrow> gerr option" where
  "DispatchHTTP post address body =
     (case post address body of
        BadRequest err \<Rightarrow> Some (Errorf ''dispatch http: build request: %w'' [AErr err])
      | NotSent err \<Rightarrow> Some (Errorf ''dispatch http: post %s: %w'' [AStr address, AErr err])
      | Answered code \<Rightarrow>
          (if code < 200 \<or> code \<ge> 300
           then Some (Errorf ''dispatch http: %s returned status %d'' [AStr address, AInt code])
           else None))"

section \<open>Consuming\<close>

text \<open>
  What a consumer receives: the context is cancelled, a delivery arrives, or the delivery channel is closed.
  A loop that returns closes its channel on the way out.
\<close>

datatype 'd arrival = Cancelled gerr | Arrived 'd | Closed

definition consume_setup :: "'b broker \<Rightarrow> 'b \<Rightarrow> gerr option \<times> 'b" where
  "consume_setup br b =
     (case br OpenChannel b of
        (Some err, b1) \<Rightarrow> (Some (Errorf ''channel: %w'' [AErr err]), b1)
      | (None, b1) \<Rightarrow>
          (case mq_steps br [(Qos 1, ''qos''), (ConsumeFrom ''saga.advance'' False, ''consume'')] b1 of
             (Some err, b2) \<Rightarrow> (Some err, snd (br CloseChannel b2))
           | (None, b2) \<Rightarrow> (None, b2)))"

text \<open>\<^verbatim>\<open>amqp.Delivery\<close>: the routing key, the header table and the body.\<close>

record amqp_delivery =
  dl_key :: string
  dl_headers :: gomap
  dl_body :: string

record event_subscriber =
  es_publisher :: "advance_publisher option"
  es_dispatcher :: "(advance_publisher option \<times> provider list) option"

text \<open>\<open>decode\<close> is what \<^verbatim>\<open>json.Unmarshal\<close> makes of a body, \<open>None\<close> when it fails.\<close>

definition to_event :: "env \<Rightarrow> (string \<Rightarrow> gomap option) \<Rightarrow> amqp_delivery \<Rightarrow> event_delivery" where
  "to_event e decode d =
     \<lparr>ed_topic = dl_key d, ed_headers = map (\<lambda>(k, v). (k, fmt_sprint e v)) (dl_headers d),
      ed_json = decode (dl_body d)\<rparr>"

text \<open>One delivery: errors of both parts are only logged.\<close>

definition handle_event ::
  "env \<Rightarrow> (string \<Rightarrow> gomap option) \<Rightarrow> event_subscriber \<Rightarrow> amqp_delivery \<Rightarrow> world \<Rightarrow> world" where
  "handle_event e decode es d w =
     (let evt = to_event e decode d;
          w1 = ignore (Triggers.Deliver (es_publisher es) evt w)
      in case es_dispatcher es of
           None \<Rightarrow> w1
         | Some (pub, providers) \<Rightarrow> ignore (Dispatch e pub providers evt w1))"

text \<open>The loop over what arrives; no result when it is still waiting for more.\<close>

fun event_loop ::
  "env \<Rightarrow> (string \<Rightarrow> gomap option) \<Rightarrow> event_subscriber \<Rightarrow> amqp_delivery arrival list \<Rightarrow> world
   \<Rightarrow> gerr option \<times> world" where
  "event_loop e decode es [] w = (None, w)"
| "event_loop e decode es (Cancelled err # xs) w = (Some err, w)"
| "event_loop e decode es (Closed # xs) w = (Some (Errorf ''event subscriber channel closed'' []), w)"
| "event_loop e decode es (Arrived d # xs) w = event_loop e decode es xs (handle_event e decode es d w)"

text \<open>The name of the declared queue is the one asked for, which the embedder chooses per process.\<close>

definition subscribe :: "'b broker \<Rightarrow> string \<Rightarrow> 'b \<Rightarrow> gerr option \<times> 'b" where
  "subscribe br queueName b =
     (case br OpenChannel b of
        (Some err, b1) \<Rightarrow> (Some (Errorf ''channel: %w'' [AErr err]), b1)
      | (None, b1) \<Rightarrow>
          (case mq_steps br
                  [(DeclarePrivate queueName False True True, ''queue declare''),
                   (Topology (QueueBind queueName ''#'' ''workflow.events''), ''queue bind''),
                   (ConsumeFrom queueName True, ''consume'')] b1 of
             (Some err, b2) \<Rightarrow> (Some err, snd (br CloseChannel b2))
           | (None, b2) \<Rightarrow> (None, b2)))"

definition RunRMQ ::
  "env \<Rightarrow> (string \<Rightarrow> gomap option) \<Rightarrow> event_subscriber \<Rightarrow> 'b broker \<Rightarrow> string
   \<Rightarrow> amqp_delivery arrival list \<Rightarrow> 'b \<times> world \<Rightarrow> gerr option \<times> 'b \<times> world" where
  "RunRMQ e decode es br queueName arrivals bw =
     (case subscribe br queueName (fst bw) of
        (Some err, b1) \<Rightarrow> (Some err, b1, snd bw)
      | (None, b1) \<Rightarrow>
          (case event_loop e decode es arrivals (snd bw) of
             (None, w1) \<Rightarrow> (None, b1, w1)
           | (Some err, w1) \<Rightarrow> (Some err, snd (br CloseChannel b1), w1)))"

section \<open>What delivering an event leaves alone\<close>

definition spares :: "world \<Rightarrow> world \<Rightarrow> bool" where
  "spares w w' \<longleftrightarrow> triggers (st w') = triggers (st w) \<and> defs (st w') = defs (st w)
     \<and> defsByName (st w') = defsByName (st w) \<and> draws w' = draws w \<and> (store_wf (st w) \<longrightarrow> store_wf (st w'))
     \<and> (\<forall>i. map_of (runs (st w')) i = None \<longleftrightarrow> map_of (runs (st w)) i = None)"

lemma spares_refl [simp]: "spares w w"
  by (simp add: spares_def)

lemma spares_trans: "spares w1 w2 \<Longrightarrow> spares w2 w3 \<Longrightarrow> spares w1 w3"
  by (simp add: spares_def)

lemma spares_publish: "spares w (snd (PublishSagaAdvance p i w))"
  by (simp add: spares_def)

lemma spares_wake: "spares w (snd (try_store (WakeFromExternal i) w))"
proof (cases "WakeFromExternal i (st w)")
  case (Inr s)
  then obtain r where "map_of (runs (st w)) i = Some r"
    "s = st w\<lparr>runs := AList.update i (clear_awaits r) (runs (st w))\<rparr>"
    using with_run_InrD [of i clear_awaits "st w" s] by (auto simp: WakeFromExternal_def)
  moreover have "store_wf (st w) \<longrightarrow> store_wf s" using store_step_wf [OF store_step.wake [OF Inr]] by blast
  ultimately show ?thesis using Inr by (auto simp: spares_def try_store_def split: if_splits)
qed (simp add: try_store_def)

lemma deliver_loop_spares: "spares w (snd (deliver_loop pub hdrs rs w))"
proof (induction rs arbitrary: w)
  case (Cons r rs)
  obtain x w1 where wake: "try_store (WakeFromExternal (run_id r)) w = (x, w1)" by fastforce
  then have w1: "spares w w1" using spares_wake by (metis snd_conv)
  have tail: "spares w1 (snd (case pub of None \<Rightarrow> deliver_loop pub hdrs rs w1
    | Some p \<Rightarrow> (case PublishSagaAdvance p (run_id r) w1 of
        (Some err, w2) \<Rightarrow> (Some (Errorf ''publish advance for %s: %w'' [AStr (run_id r), AErr err]), w2)
      | (None, w2) \<Rightarrow> deliver_loop pub hdrs rs w2)))"
  proof (cases pub)
    case None
    then show ?thesis using Cons.IH by simp
  next
    case (Some p)
    obtain y w2 where out: "PublishSagaAdvance p (run_id r) w1 = (y, w2)" by fastforce
    then have "spares w1 w2" using spares_publish by (metis snd_conv)
    then show ?thesis using Some out Cons.IH [of w2] spares_trans by (cases y) auto
  qed
  show ?case
    using wake w1 Cons.IH [of w] spares_trans [OF w1 tail] by (cases x) (simp_all del: split_paired_All)
qed simp

lemma Deliver_frame:
  assumes "Triggers.Deliver pub evt w = (r, w')"
  shows "triggers (st w') = triggers (st w)" "GetPublishedWorkflowByID (st w') x = GetPublishedWorkflowByID (st w) x"
    "store_wf (st w) \<Longrightarrow> store_wf (st w')" "rows_fresh e w \<Longrightarrow> rows_fresh e w'"
    "GetRun (st w') i = Inl err \<longleftrightarrow> GetRun (st w) i = Inl err"
proof -
  have f: "spares w w'"
    using deliver_loop_spares assms by (metis Triggers.Deliver_def snd_conv)
  then have "first_published (st w') is = first_published (st w) is" for "is"
    by (intro first_published_cong) (simp add: spares_def)
  then show "GetPublishedWorkflowByID (st w') x = GetPublishedWorkflowByID (st w) x"
    using f by (simp add: GetPublishedWorkflowByID_def spares_def Let_def split: option.split)
  show "triggers (st w') = triggers (st w)" "store_wf (st w) \<Longrightarrow> store_wf (st w')"
    "rows_fresh e w \<Longrightarrow> rows_fresh e w'" using f by (auto simp: spares_def rows_fresh_def)
  have "map_of (runs (st w')) i = None \<longleftrightarrow> map_of (runs (st w)) i = None" using f by (simp add: spares_def)
  then show "GetRun (st w') i = Inl err \<longleftrightarrow> GetRun (st w) i = Inl err"
    by (cases "map_of (runs (st w)) i"; cases "map_of (runs (st w')) i") (simp_all add: GetRun_def)
qed

lemma no_match_idle:
  "(\<And>r. r \<in> set rs \<Longrightarrow> \<not> headersSubset (run_awaited_event_headers r) hdrs) \<Longrightarrow> deliver_loop pub hdrs rs w = (None, w)"
  by (induction rs) auto

lemma nobody_awaits_idle:
  assumes "store_wf (st w)"
    and "\<And>i r. GetRun (st w) i = Inr r \<Longrightarrow> \<not> awaits (ed_topic evt) (ed_headers evt) r"
  shows "Triggers.Deliver pub evt w = (None, w)"
  unfolding Triggers.Deliver_def
  by (rule no_match_idle) (use awaited_runs [OF assms(1)] assms(2) in \<open>auto simp: awaits_def\<close>)

section \<open>An event that reaches several processes\<close>

lemma starts_append:
  assumes one: "starts e body ts ids w w1" and two: "starts e body us js w1 w2"
    and same: "\<And>x. GetPublishedWorkflowByID (st w1) x = GetPublishedWorkflowByID (st w) x"
  shows "starts e body (ts @ us) (ids @ js) w w2"
proof -
  have sf: "started_for e (st w1) body t r = started_for e (st w) body t r" for t r
    by (simp add: started_for_def same)
  have A: "list_all2 (\<lambda>t i. (\<exists>err. GetRun (st w) i = Inl err)
        \<and> (\<exists>r. GetRun (st w1) i = Inr r \<and> started_for e (st w) body t r)) ts ids"
      "distinct ids" "\<forall>j. j \<notin> set ids \<longrightarrow> GetRun (st w1) j = GetRun (st w) j"
    and B: "list_all2 (\<lambda>t i. (\<exists>err. GetRun (st w1) i = Inl err)
        \<and> (\<exists>r. GetRun (st w2) i = Inr r \<and> started_for e (st w) body t r)) us js"
      "distinct js" "\<forall>j. j \<notin> set js \<longrightarrow> GetRun (st w2) j = GetRun (st w1) j"
    using one two by (simp_all add: starts_iff sf)
  have ids: "\<exists>r. GetRun (st w1) i = Inr r" if "i \<in> set ids" for i
    using A(1) that by (force simp: list_all2_conv_all_nth in_set_conv_nth)
  have js: "\<exists>err. GetRun (st w1) i = Inl err" if "i \<in> set js" for i
    using B(1) that by (force simp: list_all2_conv_all_nth in_set_conv_nth)
  have apart: "set ids \<inter> set js = {}" using ids js by fastforce
  have "list_all2 (\<lambda>t i. (\<exists>err. GetRun (st w) i = Inl err)
        \<and> (\<exists>r. GetRun (st w2) i = Inr r \<and> started_for e (st w) body t r)) ts ids"
    using A(1) B(3) apart by (auto simp: list_all2_conv_all_nth) (metis disjoint_iff nth_mem)
  moreover have "list_all2 (\<lambda>t i. (\<exists>err. GetRun (st w) i = Inl err)
        \<and> (\<exists>r. GetRun (st w2) i = Inr r \<and> started_for e (st w) body t r)) us js"
    using B(1) A(3) apart by (auto simp: list_all2_conv_all_nth) (metis disjoint_iff nth_mem)
  moreover have "length ts = length ids" using A(1) by (rule list_all2_lengthD)
  ultimately show ?thesis
    using one two A B apart by (auto simp: starts_iff list_all2_appendI)
qed

abbreviation transition_filter :: trigger_filter where
  "transition_filter \<equiv> \<lparr>tfilter_type = Some TriggerRecordTransition, tfilter_enabled = Some True,
     tfilter_tenant_id = None\<rparr>"

abbreviation wanted :: "gomap \<Rightarrow> world \<Rightarrow> saga_trigger list" where
  "wanted body w \<equiv> filter (startable (st w) body) (ListTriggers transition_filter (st w))"

lemma wanted_cong:
  "triggers (st w1) = triggers (st w) \<Longrightarrow> (\<And>x. GetPublishedWorkflowByID (st w1) x = GetPublishedWorkflowByID (st w) x)
     \<Longrightarrow> wanted body w1 = wanted body w"
  by (simp add: startable_def ListTriggers_def cong: filter_cong)

text \<open>Processes that handle an event no run waits for start the wanted runs, once each.\<close>

lemma later_processes:
  assumes es: "es = \<lparr>es_publisher = Some p, es_dispatcher = Some (Some p, providers)\<rparr>"
    and acc: "\<And>w i. p w i = None"
    and evt: "to_event e decode d = evt" "isRecordTransitionTopic (ed_topic evt)" "ed_json evt = Some body"
  shows "store_wf (st w) \<Longrightarrow> rows_fresh e w
     \<Longrightarrow> (\<And>i r. GetRun (st w) i = Inr r \<Longrightarrow> \<not> awaits (ed_topic evt) (ed_headers evt) r)
     \<Longrightarrow> \<exists>ids. starts e body (concat (replicate k (wanted body w))) ids w ((handle_event e decode es d ^^ k) w)"
proof (induction k arbitrary: w)
  case 0
  then show ?case by (auto simp: starts_iff intro!: exI [of _ "[]"])
next
  case (Suc k)
  have idle: "Triggers.Deliver (Some p) evt w = (None, w)" by (rule nobody_awaits_idle) (use Suc.prems in auto)
  from dispatch_loop_starts [where p = p and providers = providers and ts = "ListTriggers transition_filter (st w)"
      and body = body, OF Suc.prems(2) store_wf_indexed [OF Suc.prems(1)] acc] obtain w1 ids where
    w1: "dispatch_loop e (Some p) providers body None (ListTriggers transition_filter (st w)) w = (None, w1)"
      "starts e body (wanted body w) ids w w1"
    and keep: "rows_fresh e w1" "store_wf (st w1)" "triggers (st w1) = triggers (st w)"
      "\<And>x. GetPublishedWorkflowByID (st w1) x = GetPublishedWorkflowByID (st w) x"
    using Suc.prems(1) by blast
  have step: "handle_event e decode es d w = w1"
    using idle evt w1(1) by (simp add: handle_event_def Let_def es Dispatch_def)
  have quiet: "\<not> awaits (ed_topic evt) (ed_headers evt) r" if r: "GetRun (st w1) i = Inr r" for i r
  proof (cases "i \<in> set ids")
    case True
    then have "\<exists>r. GetRun (st w1) i = Inr r \<and> run_state r = RunStatePending"
      using w1(2) by (fastforce simp: starts_iff list_all2_conv_all_nth in_set_conv_nth started_for_def started_def)
    then show ?thesis using r by (auto simp: awaits_def)
  next
    case False
    then show ?thesis using r w1(2) Suc.prems(3) by (simp add: starts_iff)
  qed
  obtain js where "starts e body (concat (replicate k (wanted body w))) js w1 ((handle_event e decode es d ^^ k) w1)"
    using Suc.IH [OF keep(2,1)] quiet wanted_cong [OF keep(3,4)] by auto
  then have "starts e body (wanted body w @ concat (replicate k (wanted body w))) (ids @ js) w
      ((handle_event e decode es d ^^ k) w1)"
    using starts_append [OF w1(2) _ keep(4)] by blast
  then show ?case using step by (auto simp: funpow_Suc_right simp del: funpow.simps)
qed

text \<open>
  Handled \<open>n\<close> times, one after another, an event wakes each waiting run once and starts the wanted runs \<open>n\<close> times.
\<close>

lemma handled_n_times:
  assumes "es = \<lparr>es_publisher = Some p, es_dispatcher = Some (Some p, providers)\<rparr>" and "\<And>w i. p w i = None"
    and "to_event e decode d = evt" and "isRecordTransitionTopic (ed_topic evt)" and "ed_json evt = Some body"
    and "store_wf (st w)" and "rows_fresh e w" and "0 < n"
  shows "\<exists>w1 ids. queue w1 = queue w @ map run_id
        (filter (\<lambda>r. headersSubset (run_awaited_event_headers r) (ed_headers evt))
           (FindRunsByAwaitedEvent (ed_topic evt) (st w)))
    \<and> (\<forall>i r. GetRun (st w) i = Inr r
         \<longrightarrow> GetRun (st w1) i = Inr (if awaits (ed_topic evt) (ed_headers evt) r then clear_awaits r else r))
    \<and> (\<forall>i err. GetRun (st w1) i = Inl err \<longleftrightarrow> GetRun (st w) i = Inl err)
    \<and> starts e body (concat (replicate n (wanted body w))) ids w1 ((handle_event e decode es d ^^ n) w)"
proof -
  from matching_woken [where p = p and d = evt, OF assms(6,2)] obtain w1
    where w1: "Triggers.Deliver (Some p) evt w = (None, w1)"
      and q: "queue w1 = queue w @ map run_id
        (filter (\<lambda>r. headersSubset (run_awaited_event_headers r) (ed_headers evt))
           (FindRunsByAwaitedEvent (ed_topic evt) (st w)))"
      and woken: "\<And>i r. GetRun (st w) i = Inr r
         \<Longrightarrow> GetRun (st w1) i = Inr (if awaits (ed_topic evt) (ed_headers evt) r then clear_awaits r else r)" by blast
  note keep = Deliver_frame [OF w1]
  have quiet: "\<not> awaits (ed_topic evt) (ed_headers evt) r" if "GetRun (st w1) i = Inr r" for i r
  proof (cases "GetRun (st w) i")
    case (Inl err)
    then show ?thesis using keep(5) [of i err] that by simp
  next
    case (Inr r0)
    then show ?thesis using woken [OF Inr] that by (auto simp: awaits_def clear_awaits_def split: if_splits)
  qed
  note wf1 = keep(3) [OF assms(6)] keep(4) [OF assms(7)]
  from later_processes [OF assms(1-5) wf1, of n] quiet obtain ids
    where "starts e body (concat (replicate n (wanted body w1))) ids w1 ((handle_event e decode es d ^^ n) w1)" by blast
  moreover have "wanted body w1 = wanted body w" using keep(1,2) by (rule wanted_cong)
  moreover have "handle_event e decode es d w = handle_event e decode es d w1"
    using w1 nobody_awaits_idle [OF wf1(1) quiet] by (simp add: handle_event_def Let_def assms(1,3))
  then have "(handle_event e decode es d ^^ n) w = (handle_event e decode es d ^^ n) w1"
    using assms(8) by (cases n) (simp_all add: funpow_Suc_right del: funpow.simps)
  moreover have "\<forall>i err. GetRun (st w1) i = Inl err \<longleftrightarrow> GetRun (st w) i = Inl err" using keep(5) by blast
  ultimately show ?thesis using q woken by (intro exI [of _ w1] exI [of _ ids]) simp
qed

section \<open>Processes that subscribe\<close>

text \<open>
  What AMQP documents of a topic exchange, for the operations the subscribers use and when they succeed: a queue bound
  with the key \<^verbatim>\<open>#\<close> gets one copy of every message published to the exchange, whoever else is bound, and opening channels,
  declaring queues, binding and consuming put nothing into a queue. \<open>bound\<close> are the queues with such a binding to
  \<^verbatim>\<open>workflow.events\<close>, \<open>inbox\<close> the messages put into a queue so far.
\<close>

definition topic_broker :: "'b broker \<Rightarrow> ('b \<Rightarrow> string set) \<Rightarrow> ('b \<Rightarrow> string \<Rightarrow> publishing list) \<Rightarrow> bool" where
  "topic_broker br bound inbox \<longleftrightarrow> (\<forall>x b b'. br x b = (None, b') \<longrightarrow>
     (case x of
        CloseChannel \<Rightarrow> True
      | Publish p \<Rightarrow>
          pub_exchange p = ''workflow.events'' \<longrightarrow> (\<forall>q \<in> bound b. inbox b' q = inbox b q @ [p])
      | Topology (QueueBind q key ex) \<Rightarrow> bound b \<subseteq> bound b' \<and> inbox b' = inbox b
          \<and> (key = ''#'' \<and> ex = ''workflow.events'' \<longrightarrow> q \<in> bound b')
      | _ \<Rightarrow> bound b \<subseteq> bound b' \<and> inbox b' = inbox b))"

text \<open>The delivery a published message becomes.\<close>

definition delivered :: "publishing \<Rightarrow> amqp_delivery" where
  "delivered p = \<lparr>dl_key = pub_key p, dl_headers = map (\<lambda>(k, v). (k, VStr v)) (pub_headers p), dl_body = pub_body p\<rparr>"

text \<open>
  Processes that call \<open>RunRMQ\<close>, each with a queue name of its own: they subscribe in turn, and then each handles what
  arrives in its queue, one process after another.
\<close>

fun run_all ::
  "env \<Rightarrow> (string \<Rightarrow> gomap option) \<Rightarrow> event_subscriber \<Rightarrow> 'b broker \<Rightarrow> (string \<Rightarrow> amqp_delivery arrival list)
   \<Rightarrow> string list \<Rightarrow> 'b \<times> world \<Rightarrow> gerr option \<times> 'b \<times> world" where
  "run_all e decode es br arrivals [] bw = (None, bw)"
| "run_all e decode es br arrivals (q # qs) bw =
     (case RunRMQ e decode es br q (arrivals q) bw of
        (Some err, bw1) \<Rightarrow> (Some err, bw1)
      | (None, bw1) \<Rightarrow> run_all e decode es br arrivals qs bw1)"

lemma subscribe_binds:
  assumes "topic_broker br bound inbox" and "subscribe br q b = (None, b')"
  shows "bound b \<subseteq> bound b' \<and> q \<in> bound b' \<and> inbox b' = inbox b"
proof -
  have law: "case x of
        CloseChannel \<Rightarrow> True
      | Publish p \<Rightarrow>
          pub_exchange p = ''workflow.events'' \<longrightarrow> (\<forall>q \<in> bound b. inbox b' q = inbox b q @ [p])
      | Topology (QueueBind q key ex) \<Rightarrow> bound b \<subseteq> bound b' \<and> inbox b' = inbox b
          \<and> (key = ''#'' \<and> ex = ''workflow.events'' \<longrightarrow> q \<in> bound b')
      | _ \<Rightarrow> bound b \<subseteq> bound b' \<and> inbox b' = inbox b" if "br x b = (None, b')" for x b b'
    using assms(1) that unfolding topic_broker_def by blast
  obtain b1 b2 b3 where ops: "br OpenChannel b = (None, b1)" "br (DeclarePrivate q False True True) b1 = (None, b2)"
    "br (Topology (QueueBind q ''#'' ''workflow.events'')) b2 = (None, b3)" "br (ConsumeFrom q True) b3 = (None, b')"
    using assms(2) by (auto simp: subscribe_def split: prod.splits option.splits)
  show ?thesis using law [OF ops(1)] law [OF ops(2)] law [OF ops(3)] law [OF ops(4)] by auto
qed

lemma run_all_binds:
  assumes "topic_broker br bound inbox" and "run_all e decode es br arrivals qs (b, w) = (None, b', w')"
  shows "bound b \<subseteq> bound b' \<and> set qs \<subseteq> bound b' \<and> inbox b' = inbox b"
  using assms(2)
proof (induction qs arbitrary: b w)
  case (Cons q qs)
  obtain b1 w1 where sub: "subscribe br q b = (None, b1)"
    and rest: "run_all e decode es br arrivals qs (b1, w1) = (None, b', w')"
    using Cons.prems by (auto simp: RunRMQ_def split: prod.splits option.splits)
  show ?case using Cons.IH [OF rest] subscribe_binds [OF assms(1) sub] by auto
qed simp

lemma run_all_handles:
  assumes "\<And>q. q \<in> set qs \<Longrightarrow> arrivals q = [Arrived d]"
    and "run_all e decode es br arrivals qs (b, w) = (None, b', w')"
  shows "w' = (handle_event e decode es d ^^ length qs) w"
  using assms
proof (induction qs arbitrary: b w)
  case (Cons q qs)
  have d: "arrivals q = [Arrived d]" using Cons.prems(1) by simp
  obtain b1 where "run_all e decode es br arrivals qs (b1, handle_event e decode es d w) = (None, b', w')"
    using Cons.prems(2) d by (auto simp: RunRMQ_def split: prod.splits option.splits)
  from Cons.IH [OF _ this] show ?case
    using Cons.prems(1) by (auto simp: funpow_Suc_right simp del: funpow.simps)
qed simp

text \<open>
  C19: An event published while several engine processes subscribe wakes each waiting run once but starts the runs of
  its triggers once per process. The processes call \<open>RunRMQ\<close> with names of their own, so each has a queue that is
  bound to all topics; an event is published to a broker that keeps to AMQP's rules for a topic exchange, and the
  processes handle it one after another. The first clears the waits that match and publishes those runs; the others find
  nobody waiting (two that handle it at once may both publish: \<open>stale_list_publishes_again\<close>). Yet each of them starts,
  publishes and records a run for every trigger that asks for one. The publisher of advances is taken to accept.
\<close>

theorem event_starts_per_process:
  assumes "topic_broker br bound inbox" and "qs \<noteq> []" and "distinct qs" and "\<And>q. q \<in> set qs \<Longrightarrow> inbox b q = []"
    and "run_all e decode es br (\<lambda>q. map (\<lambda>p. Arrived (delivered p)) (inbox b2 q)) qs (b, w) = (None, b1, w')"
    and "PublishEvent marshal br topic headers payload b1 = (None, b2)"
    and "marshal payload = Inr text" and "decode text = Some body" and "isRecordTransitionTopic topic"
    and "es = \<lparr>es_publisher = Some p, es_dispatcher = Some (Some p, providers)\<rparr>" and "\<And>w i. p w i = None"
    and "store_wf (st w)" and "rows_fresh e w"
    and "hdrs = map (\<lambda>(k, v). (k, fmt_sprint e (VStr v))) headers"
  shows "\<exists>w1 ids. queue w1 = queue w @ map run_id
        (filter (\<lambda>r. headersSubset (run_awaited_event_headers r) hdrs) (FindRunsByAwaitedEvent topic (st w)))
    \<and> (\<forall>i r. GetRun (st w) i = Inr r
         \<longrightarrow> GetRun (st w1) i = Inr (if awaits topic hdrs r then clear_awaits r else r))
    \<and> (\<forall>i err. GetRun (st w1) i = Inl err \<longleftrightarrow> GetRun (st w) i = Inl err)
    \<and> starts e body (concat (replicate (length qs) (wanted body w))) ids w1 w'"
proof -
  let ?msg = "json_message ''workflow.events'' topic headers text"
  have pub: "br (Publish ?msg) b1 = (None, b2)" using assms(6,7) by (simp add: PublishEvent_def)
  define evt where "evt = to_event e decode (delivered ?msg)"
  have evt: "ed_topic evt = topic" "ed_headers evt = hdrs" "ed_json evt = Some body"
    using assms(8,14) by (simp_all add: evt_def to_event_def delivered_def json_message_def case_prod_beta comp_def)
  have "\<forall>q \<in> bound b1. inbox b2 q = inbox b1 q @ [?msg]"
    using assms(1) pub unfolding topic_broker_def by (force simp: json_message_def)
  then have "inbox b2 q = [?msg]" if "q \<in> set qs" for q
    using run_all_binds [OF assms(1,5)] assms(4) that by auto
  then have w': "w' = (handle_event e decode es (delivered ?msg) ^^ length qs) w"
    using run_all_handles [OF _ assms(5), where d = "delivered ?msg"] by simp
  have "0 < length qs" using assms(2) by simp
  from handled_n_times [OF assms(10,11) evt_def [symmetric] _ evt(3) assms(12,13) this] show ?thesis
    using assms(9) evt(1,2) by (simp add: w')
qed

text \<open>A broker that keeps the queues bound to all topics and what was put into them.\<close>

definition demo_topics :: "(string list \<times> (string \<times> publishing) list) broker" where
  "demo_topics x b = (None, case x of
     Publish p \<Rightarrow> (fst b, snd b @ map (\<lambda>q. (q, p)) (fst b))
   | Topology (QueueBind q key ex) \<Rightarrow>
       (if key = ''#'' \<and> ex = ''workflow.events'' then removeAll q (fst b) @ [q] else fst b, snd b)
   | _ \<Rightarrow> b)"

lemma demo_topics_laws:
  "topic_broker demo_topics (\<lambda>b. {q. filter (\<lambda>x. x = q) (fst b) = [q]}) (\<lambda>b q. map snd (filter (\<lambda>x. fst x = q) (snd b)))"
proof -
  have "map snd (filter (\<lambda>x. fst x = q) (map (\<lambda>q. (q, p)) qs)) = map (\<lambda>_. p) (filter (\<lambda>x. x = q) qs)"
    for q :: string and qs and p :: publishing by (induction qs) simp_all
  moreover have "filter (\<lambda>x. x = q) (removeAll r qs) = filter (\<lambda>x. x = q \<and> x \<noteq> r) qs" for q r :: string and qs
    by (induction qs) auto
  moreover have "filter (\<lambda>x. x = q \<and> x \<noteq> r) qs = (if q = r then [] else filter (\<lambda>x. x = q) qs)" for q r :: string and qs
    by (induction qs) auto
  ultimately show ?thesis
    unfolding topic_broker_def demo_topics_def
    by (auto split: mq_op.split amqp_op.split)
qed

definition ticket_body :: gomap where
  "ticket_body = [(''record_type'', VStr ''ticket''), (''from_state'', VStr ''open''),
     (''to_state'', VStr ''done''), (''record_id'', VStr ''c1'')]"

definition demo_subscriber :: event_subscriber where
  "demo_subscriber = \<lparr>es_publisher = Some (\<lambda>_ _. None), es_dispatcher = Some (Some (\<lambda>_ _. None), [])\<rparr>"

lemma ticket_wanted: "wanted ticket_body (trigger_world ticket_trigger) = [ticket_trigger]"
  by (simp add: ListTriggers_def trigger_matches_def trigger_world_def UpsertTrigger_def ticket_trigger_def
      sample_trigger_def Let_def uuid_Nil_def UpsertWorkflowDefinition_def New_def startable_def
      transition_matches_def get_str_def GetPublishedWorkflowByID_def at_key_def sample_def_def
      ResolveEntry_def ticket_body_def)

theorem event_starts_per_process_witness:
  "\<exists>i j w'. i \<noteq> j \<and> queue w' = [i, j]
    \<and> (\<exists>b1 b2. run_all test_env (\<lambda>_. Some ticket_body) demo_subscriber demo_topics
          (\<lambda>q. map (\<lambda>p. Arrived (delivered p)) (map snd (filter (\<lambda>x. fst x = q) (snd b2))))
          [''pod1'', ''pod2''] (([], []), trigger_world ticket_trigger) = (None, b1, w')
        \<and> PublishEvent (\<lambda>_. Inr ''...'') demo_topics ''a.record.transitioned.ticket'' [] (VMap ticket_body) b1 = (None, b2))"
proof -
  let ?w = "trigger_world ticket_trigger"
  let ?b1 = "([''pod1'', ''pod2''], []) :: string list \<times> (string \<times> publishing) list"
  define b2 where "b2 = snd (PublishEvent (\<lambda>_. Inr ''...'') demo_topics ''a.record.transitioned.ticket'' [] (VMap ticket_body) ?b1)"
  have pub: "PublishEvent (\<lambda>_. Inr ''...'') demo_topics ''a.record.transitioned.ticket'' [] (VMap ticket_body) ?b1 = (None, b2)"
    by (simp add: b2_def PublishEvent_def demo_topics_def)
  let ?arr = "\<lambda>q. map (\<lambda>p. Arrived (delivered p)) (map snd (filter (\<lambda>x. fst x = q) (snd b2)))"
  obtain w' where run: "run_all test_env (\<lambda>_. Some ticket_body) demo_subscriber demo_topics ?arr [''pod1'', ''pod2''] (([], []), ?w)
      = (None, ?b1, w')"
    by (simp add: b2_def PublishEvent_def demo_topics_def RunRMQ_def subscribe_def)
  have topic: "isRecordTransitionTopic ''a.record.transitioned.ticket''" by (simp add: isRecordTransitionTopic_def)
  have quiet: "FindRunsByAwaitedEvent ''a.record.transitioned.ticket'' (st ?w) = []" "queue ?w = []"
    by (simp_all add: trigger_world_def test_world_def FindRunsByAwaitedEvent_def UpsertTrigger_def Let_def
        UpsertWorkflowDefinition_def New_def)
  from event_starts_per_process [OF demo_topics_laws _ _ _ run pub refl refl topic demo_subscriber_def refl
      trigger_world_ok(1) [of ticket_trigger] trigger_world_ok(2) refl] obtain w1 ids
    where "queue w1 = []" "starts test_env ticket_body (concat (replicate 2 [ticket_trigger])) ids w1 w'"
    using quiet ticket_wanted by (auto simp: numeral_2_eq_2)
  then have "distinct ids" "length ids = 2" "queue w' = ids"
    by (auto simp: starts_iff dest: list_all2_lengthD)
  then obtain i j where "i \<noteq> j" "queue w' = [i, j]" by (auto simp: length_Suc_conv numeral_2_eq_2)
  then show ?thesis using run pub by blast
qed

section \<open>Two deliveries in flight\<close>

text \<open>
  The loop of a process wakes the runs of the list it has read. A process whose list was read before another process
  had handled the same event publishes each matching run again.
\<close>

lemma stale_list_publishes_again:
  assumes "store_wf (st w)" and "\<And>w i. p w i = None"
    and "rs = FindRunsByAwaitedEvent topic (st w)" and "deliver_loop (Some p) hdrs rs w = (r, w1)"
  shows "\<exists>w2. deliver_loop (Some p) hdrs rs w1 = (None, w2)
    \<and> queue w2 = queue w1 @ map run_id (filter (\<lambda>r. headersSubset (run_awaited_event_headers r) hdrs) rs)"
proof -
  have known: "\<forall>r \<in> set rs. map_of (runs (st w1)) (run_id r) \<noteq> None"
  proof
    fix r assume "r \<in> set rs"
    then have "map_of (runs (st w)) (run_id r) \<noteq> None"
      using awaited_runs [OF assms(1)] assms(3) by (simp add: GetRun_iff)
    then show "map_of (runs (st w1)) (run_id r) \<noteq> None"
      using deliver_loop_spares [of w "Some p" hdrs rs] assms(4) by (simp add: spares_def)
  qed
  have "\<forall>r \<in> set rs. map_of (runs (st v)) (run_id r) \<noteq> None \<Longrightarrow> \<exists>w2. deliver_loop (Some p) hdrs rs v = (None, w2)
    \<and> queue w2 = queue v @ map run_id (filter (\<lambda>r. headersSubset (run_awaited_event_headers r) hdrs) rs)" for rs v
  proof (induction rs arbitrary: v)
    case (Cons r rs)
    obtain x v1 where wake: "try_store (WakeFromExternal (run_id r)) v = (x, v1)" by fastforce
    then have x: "x = None" using Cons.prems
      by (auto simp: try_store_def WakeFromExternal_def with_run_def split: option.splits)
    have v1: "spares v v1" "queue v1 = queue v" using spares_wake wake try_store_frame(1) by (metis snd_conv)+
    let ?v2 = "v1\<lparr>queue := queue v1 @ [run_id r]\<rparr>"
    have same: "map_of (runs (st v1)) i = None \<longleftrightarrow> map_of (runs (st v)) i = None" for i using v1 by (simp add: spares_def)
    have "\<forall>r \<in> set rs. map_of (runs (st v)) (run_id r) \<noteq> None"
      "\<forall>r \<in> set rs. map_of (runs (st ?v2)) (run_id r) \<noteq> None"
      using Cons.prems same by simp_all
    from Cons.IH [OF this(1)] Cons.IH [OF this(2)] show ?case
      using wake x v1(2) by (cases "headersSubset (run_awaited_event_headers r) hdrs") (simp_all add: publish_accepts assms(2))
  qed simp
  then show ?thesis using known by blast
qed

section \<open>Channels and messages\<close>

text \<open>A number of open channels that opening and closing change by one and nothing else does.\<close>

definition counts_channels :: "'b broker \<Rightarrow> ('b \<Rightarrow> nat) \<Rightarrow> bool" where
  "counts_channels br chans \<longleftrightarrow>
     (\<forall>b x. chans (snd (br x b)) =
        (case x of
           OpenChannel \<Rightarrow> (if fst (br x b) = None then Suc (chans b) else chans b)
         | CloseChannel \<Rightarrow> chans b - 1
         | _ \<Rightarrow> chans b))"

lemma channel_counts:
  assumes "counts_channels br chans"
  shows "chans (snd (br CloseChannel b)) = chans b - 1"
    and "br OpenChannel b = (r, b1) \<Longrightarrow> chans b1 = (if r = None then Suc (chans b) else chans b)"
    and "x \<noteq> OpenChannel \<Longrightarrow> x \<noteq> CloseChannel \<Longrightarrow> chans (snd (br x b)) = chans b"
proof -
  note c = assms [unfolded counts_channels_def, THEN spec, THEN spec]
  show "chans (snd (br CloseChannel b)) = chans b - 1" using c [of CloseChannel b] by simp
  show "br OpenChannel b = (r, b1) \<Longrightarrow> chans b1 = (if r = None then Suc (chans b) else chans b)"
    using c [of OpenChannel b] by simp
  show "x \<noteq> OpenChannel \<Longrightarrow> x \<noteq> CloseChannel \<Longrightarrow> chans (snd (br x b)) = chans b"
    using c [of x b] by (cases x) simp_all
qed

lemma mq_steps_channels:
  assumes "counts_channels br chans" and "list_all (\<lambda>(x, what). x \<noteq> OpenChannel \<and> x \<noteq> CloseChannel) xs"
  shows "chans (snd (mq_steps br xs b)) = chans b"
  using assms(2)
proof (induction xs arbitrary: b)
  case (Cons y xs)
  obtain x what where y: "y = (x, what)" by (cases y)
  obtain r b1 where step: "br x b = (r, b1)" by fastforce
  then have "chans b1 = chans b" using channel_counts(3) [OF assms(1), of x b] Cons.prems y by simp
  then show ?case using Cons step y by (cases r) simp_all
qed simp

lemma consume_setup_closes:
  assumes "counts_channels br chans" and "consume_setup br b = (Some err, b')"
  shows "chans b' = chans b"
proof -
  obtain r b1 where o: "br OpenChannel b = (r, b1)" by fastforce
  obtain t b2 where m: "mq_steps br [(Qos 1, ''qos''), (ConsumeFrom ''saga.advance'' False, ''consume'')] b1 = (t, b2)"
    by fastforce
  have "chans b2 = chans b1"
    using mq_steps_channels [OF assms(1), of "[(Qos 1, ''qos''), (ConsumeFrom ''saga.advance'' False, ''consume'')]" b1] m by simp
  then show ?thesis
    using assms(2) channel_counts(1) [OF assms(1), of b2] channel_counts(2) [OF assms(1) o] o m
    by (cases r; cases t) (auto simp: consume_setup_def simp del: mq_steps.simps)
qed

lemma subscribe_channels:
  assumes "counts_channels br chans" and "subscribe br q b = (r, b')"
  shows "chans b' = (if r = None then Suc (chans b) else chans b)"
proof -
  let ?xs = "[(DeclarePrivate q False True True, ''queue declare''),
    (Topology (QueueBind q ''#'' ''workflow.events''), ''queue bind''), (ConsumeFrom q True, ''consume'')]"
  obtain r1 b1 where o: "br OpenChannel b = (r1, b1)" by fastforce
  obtain t b2 where m: "mq_steps br ?xs b1 = (t, b2)" by fastforce
  have "chans b2 = chans b1" using mq_steps_channels [OF assms(1), of ?xs b1] m by simp
  then show ?thesis
    using assms(2) channel_counts(1) [OF assms(1), of b2] channel_counts(2) [OF assms(1) o] o m
    by (cases r1; cases t) (auto simp: subscribe_def simp del: mq_steps.simps)
qed

text \<open>Neither consumer leaves a channel behind when it returns, whichever step fails.\<close>

lemma RunRMQ_closes:
  assumes "counts_channels br chans" and "RunRMQ e decode es br q arrivals (b, w) = (Some err, b', w')"
  shows "chans b' = chans b"
proof -
  obtain r b1 where s: "subscribe br q b = (r, b1)" by fastforce
  then show ?thesis
    using assms(2) channel_counts(1) [OF assms(1), of b1] subscribe_channels [OF assms(1) s]
    by (cases r) (auto simp: RunRMQ_def split: prod.splits option.splits)
qed

text \<open>The message of an advance is read back as the run it was published for.\<close>

lemma advance_message_read_back:
  assumes "\<And>v text. marshal v = Inr text \<Longrightarrow> unmarshal text = Some v"
    and "mq_PublishSagaAdvance marshal br runID b = (None, b')"
  shows "\<exists>text. unmarshal text = Some (VMap [(''saga_run_id'', VStr runID)])
    \<and> br (Publish (json_message [] ''saga.advance'' [] text)) b = (None, b')"
  using assms by (auto simp: mq_PublishSagaAdvance_def split: sum.splits)

end
