(* ===== verification/Database_Setup.thy ===== *)
theory Database_Setup
  imports Facade
begin

text \<open>
  How a process reads its configuration and opens its store: \<^verbatim>\<open>internal/config\<close>, \<^verbatim>\<open>internal/storefactory\<close>,
  \<^verbatim>\<open>store/postgres/pool.go\<close>, \<^verbatim>\<open>migrate.go\<close> and \<^verbatim>\<open>leader.go\<close>, and \<open>Open\<close> of \<^verbatim>\<open>store/redis/store.go\<close>. The drivers and
  servers are a parameter: a state and what each operation on it answers.
\<close>

section \<open>Configuration\<close>

text \<open>\<^verbatim>\<open>os.Getenv\<close>: the empty text when a variable is not set.\<close>

type_synonym environ = "string \<Rightarrow> string"

record service_config =
  cfg_api_port :: string
  cfg_grpc_port :: string
  cfg_cron_dispatcher :: bool
  cfg_shutdown :: duration
  cfg_dsn :: string
  cfg_rabbit :: string
  cfg_store_type :: string
  cfg_redis_url :: string
  cfg_redis_ttl :: duration

definition getEnv :: "environ \<Rightarrow> string \<Rightarrow> string \<Rightarrow> string" where
  "getEnv env key fallback = (if env key \<noteq> [] then env key else fallback)"

text \<open>\<^verbatim>\<open>strconv.ParseBool\<close>\<close>

definition ParseBool :: "string \<Rightarrow> bool option" where
  "ParseBool s =
     (if s \<in> {''1'', ''t'', ''T'', ''TRUE'', ''true'', ''True''} then Some True
      else if s \<in> {''0'', ''f'', ''F'', ''FALSE'', ''false'', ''False''} then Some False
      else None)"

definition getEnvBool :: "environ \<Rightarrow> string \<Rightarrow> bool \<Rightarrow> bool" where
  "getEnvBool env key fallback =
     (if env key = [] then fallback
      else case ParseBool (env key) of None \<Rightarrow> fallback | Some b \<Rightarrow> b)"

definition parseRunTTL :: "env \<Rightarrow> string \<Rightarrow> duration" where
  "parseRunTTL e s = (if s = [] then 0 else case parse_duration e s of Inl _ \<Rightarrow> 0 | Inr d \<Rightarrow> d)"

definition Load :: "env \<Rightarrow> environ \<Rightarrow> service_config" where
  "Load e env =
     \<lparr>cfg_api_port = getEnv env ''WORKFLOW_API_PORT'' ''8080'',
      cfg_grpc_port = getEnv env ''WORKFLOW_ENGINE_GRPC_PORT'' ''9090'',
      cfg_cron_dispatcher = getEnvBool env ''WORKFLOW_CRON_DISPATCHER'' True,
      cfg_shutdown = 15 * second_ns,
      cfg_dsn = getEnv env ''DATABASE_DSN'' [],
      cfg_rabbit = getEnv env ''RABBITMQ_URL'' [],
      cfg_store_type = getEnv env ''STORE_TYPE'' ''postgres'',
      cfg_redis_url = getEnv env ''REDIS_URL'' [],
      cfg_redis_ttl = parseRunTTL e (getEnv env ''REDIS_RUN_TTL'' ''0s'')\<rparr>"

section \<open>Data source names\<close>

text \<open>
  \<^verbatim>\<open>net/url\<close>: a parsed URL is what precedes the query and the query's values; \<open>url_string\<close> writes it again with the
  query encoded.
\<close>

record durl =
  du_rest :: string
  du_query :: "(string \<times> string list) list"

record url_lib =
  url_parse :: "string \<Rightarrow> gerr + durl"
  url_string :: "durl \<Rightarrow> string"

definition query_get :: "string \<Rightarrow> durl \<Rightarrow> string" where
  "query_get k u = (case map_of (du_query u) k of Some (v # vs) \<Rightarrow> v | _ \<Rightarrow> [])"

fun strip_loop :: "string list \<Rightarrow> string \<Rightarrow> string" where
  "strip_loop [] dsn = dsn"
| "strip_loop (p # ps) dsn =
     (if length dsn > length p \<and> take (length p) dsn = p then drop (length p) dsn else strip_loop ps dsn)"

definition stripScheme :: "string \<Rightarrow> string" where
  "stripScheme = strip_loop [''postgres://'', ''postgresql://'']"

definition migrationsTable :: string where
  "migrationsTable = [CHR 0x22] @ ''public'' @ [CHR 0x22] @ ''.'' @ [CHR 0x22] @ ''schema_migrations'' @ [CHR 0x22]"

definition migrationsURL :: "url_lib \<Rightarrow> string \<Rightarrow> gerr + string \<times> bool" where
  "migrationsURL lib dsn =
     (case url_parse lib (''pgx5://'' @ stripScheme dsn) of
        Inl err \<Rightarrow> Inl (Errorf ''parse DSN: %w'' [AErr err])
      | Inr u \<Rightarrow>
          (if query_get ''x-migrations-table'' u \<noteq> [] then Inr (url_string lib u, False)
           else Inr (url_string lib (u\<lparr>du_query :=
             AList.update ''x-migrations-table-quoted'' [''1'']
               (AList.update ''x-migrations-table'' [migrationsTable] (du_query u))\<rparr>), True)))"

definition connDSN :: "url_lib \<Rightarrow> string \<Rightarrow> string" where
  "connDSN lib dsn =
     (case url_parse lib (''postgres://'' @ stripScheme dsn) of
        Inl _ \<Rightarrow> dsn
      | Inr u \<Rightarrow> url_string lib (u\<lparr>du_query := filter (\<lambda>(k, v). \<not> has_prefix k ''x-'') (du_query u)\<rparr>))"

section \<open>The database driver\<close>

datatype db_op =
    ParseConfig string
  | NewPool string int int duration duration \<comment> \<open>with the limits set on the parsed configuration\<close>
  | PingPool
  | ClosePool
  | AcquireConn
  | ReleaseConn
  | AdvisoryLock int
  | AdvisoryUnlock int
  | OpenMigrations
  | NewMigrate string
  | MigrateUp
  | CloseMigrate
  | ParseConn string
  | Dial string
  | CurrentDatabase
  | LockTransaction int
  | AdoptTable
  | CloseConn
  | ParseRedis string
  | NewRedisClient string
  | PingRedis
  | CloseRedis

text \<open>
  An operation answers an error or a text (the name of the database, nothing otherwise). \<open>h_tx\<close> is
  \<^verbatim>\<open>pgx.BeginFunc\<close>, which runs a function in a transaction; \<open>h_lock_id\<close> and \<open>h_no_change\<close> are
  \<^verbatim>\<open>GenerateAdvisoryLockId\<close> and the test for \<^verbatim>\<open>ErrNoChange\<close> of golang-migrate.
\<close>

record 's host =
  h_db :: "db_op \<Rightarrow> 's \<Rightarrow> (gerr + string) \<times> 's"
  h_tx :: "('s \<Rightarrow> gerr option \<times> 's) \<Rightarrow> 's \<Rightarrow> gerr option \<times> 's"
  h_lock_id :: "string \<Rightarrow> string list \<Rightarrow> gerr + int"
  h_no_change :: "gerr \<Rightarrow> bool"
  h_url :: url_lib

definition db_run :: "'s host \<Rightarrow> db_op \<Rightarrow> 's \<Rightarrow> 's" where
  "db_run h x s = snd (h_db h x s)"

fun db_steps :: "'s host \<Rightarrow> (db_op \<times> string) list \<Rightarrow> 's \<Rightarrow> gerr option \<times> 's" where
  "db_steps h [] s = (None, s)"
| "db_steps h ((x, what) # xs) s =
     (case h_db h x s of
        (Inl err, s1) \<Rightarrow> (Some (Errorf (what @ '': %w'') [AErr err]), s1)
      | (Inr _, s1) \<Rightarrow> db_steps h xs s1)"

section \<open>Opening PostgreSQL\<close>

definition pg_Open :: "'s host \<Rightarrow> string \<Rightarrow> 's \<Rightarrow> gerr option \<times> 's" where
  "pg_Open h dsn s =
     (if dsn = [] then (Some (Errorf ''postgres: DSN is empty'' []), s)
      else case db_steps h [(ParseConfig dsn, ''postgres: parse DSN''),
                            (NewPool dsn 20 2 (30 * 60 * second_ns) (5 * 60 * second_ns), ''postgres: connect'')] s of
        (Some err, s1) \<Rightarrow> (Some err, s1)
      | (None, s1) \<Rightarrow>
          (case db_steps h [(PingPool, ''postgres: ping'')] s1 of
             (Some err, s2) \<Rightarrow> (Some err, db_run h ClosePool s2)
           | (None, s2) \<Rightarrow> (None, s2)))"

text \<open>The connection that adopts an older migrations table is closed however this ends.\<close>

definition adopt_on_conn :: "'s host \<Rightarrow> 's \<Rightarrow> gerr option \<times> 's" where
  "adopt_on_conn h s =
     (case h_db h CurrentDatabase s of
        (Inl err, s1) \<Rightarrow> (Some (Errorf ''current database: %w'' [AErr err]), s1)
      | (Inr dbName, s1) \<Rightarrow>
          (case h_lock_id h dbName [''public'', ''schema_migrations''] of
             Inl err \<Rightarrow> (Some (Errorf ''advisory lock id: %w'' [AErr err]), s1)
           | Inr lockID \<Rightarrow>
               h_tx h (db_steps h [(LockTransaction lockID, ''lock migrations table''),
                                   (AdoptTable, ''adopt legacy schema_migrations'')]) s1))"

definition adoptMigrationsTable :: "'s host \<Rightarrow> string \<Rightarrow> 's \<Rightarrow> gerr option \<times> 's" where
  "adoptMigrationsTable h dsn s =
     (let conn = connDSN (h_url h) dsn
      in case db_steps h [(ParseConn conn, ''parse DSN''), (Dial conn, ''connect'')] s of
           (Some err, s1) \<Rightarrow> (Some err, s1)
         | (None, s1) \<Rightarrow> (case adopt_on_conn h s1 of (r, s2) \<Rightarrow> (r, db_run h CloseConn s2)))"

definition migrate_err :: "gerr \<Rightarrow> gerr" where
  "migrate_err err = Errorf ''postgres.Migrate: %w'' [AErr err]"

definition migrate_up :: "'s host \<Rightarrow> string \<Rightarrow> 's \<Rightarrow> gerr option \<times> 's" where
  "migrate_up h migrateURL s =
     (case db_steps h [(NewMigrate migrateURL, ''postgres.Migrate: new migrate'')] s of
        (Some err, s1) \<Rightarrow> (Some err, s1)
      | (None, s1) \<Rightarrow>
          (case h_db h MigrateUp s1 of
             (Inl err, s2) \<Rightarrow>
               (if \<not> h_no_change h err then (Some (Errorf ''postgres.Migrate: up: %w'' [AErr err]), s2)
                else (None, db_run h CloseMigrate s2))
           | (Inr _, s2) \<Rightarrow> (None, db_run h CloseMigrate s2)))"

definition Migrate :: "'s host \<Rightarrow> string \<Rightarrow> 's \<Rightarrow> gerr option \<times> 's" where
  "Migrate h dsn s =
     (if dsn = [] then (Some (Errorf ''postgres.Migrate: DSN is empty'' []), s)
      else case db_steps h [(OpenMigrations, ''postgres.Migrate: open source'')] s of
        (Some err, s1) \<Rightarrow> (Some err, s1)
      | (None, s1) \<Rightarrow>
          (case migrationsURL (h_url h) dsn of
             Inl err \<Rightarrow> (Some (migrate_err err), s1)
           | Inr (migrateURL, pinned) \<Rightarrow>
               (case (if pinned then adoptMigrationsTable h dsn s1 else (None, s1)) of
                  (Some err, s2) \<Rightarrow> (Some (migrate_err err), s2)
                | (None, s2) \<Rightarrow> migrate_up h migrateURL s2)))"

section \<open>The leader's lock\<close>

text \<open>The outcome of acquiring the lock, and the release function the caller gets.\<close>

definition AcquireAdvisoryLock :: "'s host \<Rightarrow> int \<Rightarrow> 's \<Rightarrow> gerr option \<times> 's" where
  "AcquireAdvisoryLock h lockID s =
     (case h_db h AcquireConn s of
        (Inl err, s1) \<Rightarrow> (Some (Errorf ''postgres: acquire advisory-lock conn: %w'' [AErr err]), s1)
      | (Inr _, s1) \<Rightarrow>
          (case h_db h (AdvisoryLock lockID) s1 of
             (Inl err, s2) \<Rightarrow>
               (Some (Errorf ''postgres: acquire advisory lock %d: %w'' [AInt lockID, AErr err]), db_run h ReleaseConn s2)
           | (Inr _, s2) \<Rightarrow> (None, s2)))"

definition release_lock :: "'s host \<Rightarrow> int \<Rightarrow> 's \<Rightarrow> 's" where
  "release_lock h lockID s = db_run h ReleaseConn (db_run h (AdvisoryUnlock lockID) s)"

section \<open>Opening a store\<close>

definition redis_Open :: "'s host \<Rightarrow> string \<Rightarrow> 's \<Rightarrow> gerr option \<times> 's" where
  "redis_Open h url s =
     (case h_db h (ParseRedis url) s of
        (Inl err, s1) \<Rightarrow> (Some err, s1)
      | (Inr _, s1) \<Rightarrow>
          (case h_db h PingRedis (db_run h (NewRedisClient url) s1) of
             (Inl err, s2) \<Rightarrow> (Some err, s2)
           | (Inr _, s2) \<Rightarrow> (None, s2)))"

datatype backend = PostgresBackend | RedisBackend duration | MemoryBackend

definition storefactory_Open :: "'s host \<Rightarrow> service_config \<Rightarrow> 's \<Rightarrow> (gerr + backend) \<times> 's" where
  "storefactory_Open h cfg s =
     (if cfg_store_type cfg \<in> {[], ''postgres''} then
        (case pg_Open h (cfg_dsn cfg) s of
           (Some err, s1) \<Rightarrow> (Inl err, s1)
         | (None, s1) \<Rightarrow>
             (case Migrate h (cfg_dsn cfg) s1 of
                (Some err, s2) \<Rightarrow> (Inl err, db_run h ClosePool s2)
              | (None, s2) \<Rightarrow> (Inr PostgresBackend, s2)))
      else if cfg_store_type cfg \<in> {''redis'', ''valkey''} then
        (case redis_Open h (cfg_redis_url cfg) s of
           (Some err, s1) \<Rightarrow> (Inl err, s1)
         | (None, s1) \<Rightarrow> (Inr (RedisBackend (cfg_redis_ttl cfg)), s1))
      else if cfg_store_type cfg = ''memory'' then (Inr MemoryBackend, s)
      else (Inl (Errorf ''unknown STORE_TYPE %q (want postgres|redis|valkey|memory)'' [AStr (cfg_store_type cfg)]), s))"

text \<open>The function the caller must call at shutdown.\<close>

definition close_store :: "'s host \<Rightarrow> backend \<Rightarrow> 's \<Rightarrow> 's" where
  "close_store h b s =
     (case b of PostgresBackend \<Rightarrow> db_run h ClosePool s | RedisBackend _ \<Rightarrow> db_run h CloseRedis s | MemoryBackend \<Rightarrow> s)"

section \<open>Adopting the migrations table\<close>

text \<open>
  The statement of \<^verbatim>\<open>adoptLegacyMigrationsTable\<close> on the tables of a database, each with its schema, and the schemas
  of the connection's search path. \<^verbatim>\<open>to_regclass\<close> looks a name up, in its schema or along the path.
\<close>

record catalog =
  cat_tables :: "(string \<times> string) list"
  cat_path :: "string list"

definition to_regclass :: "string option \<Rightarrow> string \<Rightarrow> catalog \<Rightarrow> (string \<times> string) option" where
  "to_regclass schema name c =
     find (\<lambda>t. t \<in> set (cat_tables c))
       (map (\<lambda>s. (s, name)) (case schema of Some s \<Rightarrow> [s] | None \<Rightarrow> cat_path c))"

definition set_schema :: "string \<times> string \<Rightarrow> string \<Rightarrow> catalog \<Rightarrow> catalog" where
  "set_schema t s c = c\<lparr>cat_tables := map (\<lambda>x. if x = t then (s, snd t) else x) (cat_tables c)\<rparr>"

definition adoptLegacyMigrationsTable :: "catalog \<Rightarrow> catalog" where
  "adoptLegacyMigrationsTable c =
     (if to_regclass (Some ''public'') ''schema_migrations'' c = None
      then (case to_regclass None ''schema_migrations'' c of
              None \<Rightarrow> c
            | Some legacy \<Rightarrow> set_schema legacy ''public'' c)
      else c)"

section \<open>Open handles\<close>

text \<open>
  What an operation adds to the pools, connections, migrators and clients that are open; the driver's state is
  only asked for their number.
\<close>

fun opened_by :: "db_op \<Rightarrow> bool \<Rightarrow> int" where
  "opened_by (NewPool _ _ _ _ _) ok = of_bool ok"
| "opened_by AcquireConn ok = of_bool ok"
| "opened_by (Dial _) ok = of_bool ok"
| "opened_by (NewMigrate _) ok = of_bool ok"
| "opened_by (NewRedisClient _) ok = 1"
| "opened_by ClosePool ok = - 1"
| "opened_by ReleaseConn ok = - 1"
| "opened_by CloseConn ok = - 1"
| "opened_by CloseMigrate ok = - 1"
| "opened_by CloseRedis ok = - 1"
| "opened_by _ ok = 0"

definition counts_handles :: "'s host \<Rightarrow> ('s \<Rightarrow> int) \<Rightarrow> bool" where
  "counts_handles h held \<longleftrightarrow>
     (\<forall>x s. held (snd (h_db h x s)) = held s + opened_by x (is_ok (fst (h_db h x s))))
     \<and> (\<forall>f s. (\<forall>s. held (snd (f s)) = held s) \<longrightarrow> held (snd (h_tx h f s)) = held s)"

lemma held_db:
  "counts_handles h held \<Longrightarrow> h_db h x s = (r, s1) \<Longrightarrow> held s1 = held s + opened_by x (is_ok r)"
  unfolding counts_handles_def by (metis fst_conv snd_conv)

lemma held_run:
  "counts_handles h held \<Longrightarrow> opened_by x True = opened_by x False
     \<Longrightarrow> held (db_run h x s) = held s + opened_by x True"
  unfolding db_run_def counts_handles_def by (metis (full_types))

lemma held_steps:
  "counts_handles h held \<Longrightarrow> list_all (\<lambda>(x, what). opened_by x True = 0 \<and> opened_by x False = 0) xs
     \<Longrightarrow> held (snd (db_steps h xs s)) = held s"
proof (induction xs arbitrary: s)
  case (Cons y xs)
  obtain x what where y: "y = (x, what)" by (cases y)
  obtain r s1 where step: "h_db h x s = (r, s1)" by fastforce
  then have "held s1 = held s" using held_db [OF Cons.prems(1) step] Cons.prems(2) y by (cases "is_ok r") simp_all
  then show ?case using Cons step y by (cases r) simp_all
qed simp

text \<open>A last step that opens something: it is open if and only if all steps succeed.\<close>

lemma held_opening:
  assumes "counts_handles h held" and "opened_by x True = 0" "opened_by x False = 0"
    and "opened_by y True = 1" "opened_by y False = 0" and "db_steps h [(x, a), (y, b)] s = (r, s1)"
  shows "held s1 = held s + of_bool (r = None)"
proof -
  obtain r1 u1 where one: "h_db h x s = (r1, u1)" by fastforce
  obtain r2 u2 where two: "h_db h y u1 = (r2, u2)" by fastforce
  show ?thesis
    using assms(2-6) held_db [OF assms(1) one] held_db [OF assms(1) two] one two by (cases r1; cases r2) auto
qed

lemma held_pg_Open:
  assumes "counts_handles h held" and "pg_Open h dsn s = (r, s1)"
  shows "held s1 = held s + of_bool (r = None)"
proof (cases "dsn = []")
  case False
  let ?n = "NewPool dsn 20 2 (30 * 60 * second_ns) (5 * 60 * second_ns)"
  obtain r1 u1 where one: "db_steps h [(ParseConfig dsn, ''postgres: parse DSN''), (?n, ''postgres: connect'')] s = (r1, u1)"
    by fastforce
  obtain r2 u2 where two: "db_steps h [(PingPool, ''postgres: ping'')] u1 = (r2, u2)" by fastforce
  have "held u1 = held s + of_bool (r1 = None)" by (rule held_opening [OF assms(1) _ _ _ _ one]) simp_all
  moreover have "held u2 = held u1" using held_steps [OF assms(1), of "[(PingPool, ''postgres: ping'')]" u1] two by simp
  moreover have "held (db_run h ClosePool u2) = held u2 - 1" using held_run [OF assms(1), of ClosePool u2] by simp
  ultimately show ?thesis
    using assms(2) False one two unfolding pg_Open_def
    by (cases r1; cases r2) (auto simp del: db_steps.simps)
qed (use assms(2) in \<open>auto simp: pg_Open_def\<close>)

lemma held_adopt:
  assumes "counts_handles h held" and "adoptMigrationsTable h dsn s = (r, s1)"
  shows "held s1 = held s"
proof -
  let ?c = "connDSN (h_url h) dsn"
  obtain r1 u1 where one: "db_steps h [(ParseConn ?c, ''parse DSN''), (Dial ?c, ''connect'')] s = (r1, u1)" by fastforce
  have opened: "held u1 = held s + of_bool (r1 = None)" by (rule held_opening [OF assms(1) _ _ _ _ one]) simp_all
  have "held (snd (adopt_on_conn h u)) = held u" for u
  proof -
    obtain r2 u2 where two: "h_db h CurrentDatabase u = (r2, u2)" by fastforce
    have tx: "held (snd (h_tx h (db_steps h [(LockTransaction i, a), (AdoptTable, b)]) v)) = held v" for i a b v
      using assms(1) held_steps [OF assms(1), of "[(LockTransaction i, a), (AdoptTable, b)]"]
      by (simp add: counts_handles_def del: db_steps.simps)
    show ?thesis
      using held_db [OF assms(1) two] two tx
      by (simp add: adopt_on_conn_def del: db_steps.simps split: sum.split)
  qed
  moreover have "held (db_run h CloseConn v) = held v - 1" for v using held_run [OF assms(1), of CloseConn v] by simp
  ultimately show ?thesis
    using assms(2) one opened unfolding adoptMigrationsTable_def Let_def
    by (cases r1) (auto simp del: db_steps.simps split: prod.splits, metis add_diff_cancel_right' snd_conv)
qed

text \<open>The error of a migration that was started and failed.\<close>

definition up_failed :: "gerr \<Rightarrow> bool" where
  "up_failed err \<longleftrightarrow> (\<exists>x. err = Errorf ''postgres.Migrate: up: %w'' [AErr x])"

lemma held_migrate_up:
  assumes "counts_handles h held" and "migrate_up h url s = (r, s1)"
  shows "held s1 = held s + of_bool (\<exists>err. r = Some err \<and> up_failed err)"
proof -
  obtain r1 u1 where one: "h_db h (NewMigrate url) s = (r1, u1)" by fastforce
  obtain r2 u2 where two: "h_db h MigrateUp u1 = (r2, u2)" by fastforce
  show ?thesis
    using assms(2) held_db [OF assms(1) one] held_db [OF assms(1) two] held_run [OF assms(1), of CloseMigrate u2] one two
    by (cases r1; cases r2) (auto simp: migrate_up_def up_failed_def split: if_splits)
qed

lemma held_Migrate:
  assumes "counts_handles h held" and "Migrate h dsn s = (r, s1)"
  shows "held s1 = held s + of_bool (\<exists>err. r = Some err \<and> up_failed err)"
proof (cases "dsn = []")
  case False
  obtain r1 u1 where one: "db_steps h [(OpenMigrations, ''postgres.Migrate: open source'')] s = (r1, u1)" by fastforce
  have u1: "held u1 = held s" using held_steps [OF assms(1), of "[(OpenMigrations, ''postgres.Migrate: open source'')]" s] one by simp
  have errs: "\<not> up_failed (migrate_err e)" "r1 = Some e \<Longrightarrow> \<not> up_failed e" for e
    using one by (auto simp: up_failed_def migrate_err_def split: prod.splits sum.splits)
  show ?thesis
  proof (cases r1)
    case None
    show ?thesis
    proof (cases "migrationsURL (h_url h) dsn")
      case (Inl err)
      then show ?thesis using assms(2) False one None u1 errs(1) by (auto simp: Migrate_def simp del: db_steps.simps)
    next
      case (Inr up)
      obtain url pinned where up: "up = (url, pinned)" by (cases up)
      obtain r2 u2 where two: "(if pinned then adoptMigrationsTable h dsn u1 else (None, u1)) = (r2, u2)" by fastforce
      have "held u2 = held u1" using two held_adopt [OF assms(1)] by (auto split: if_splits)
      then show ?thesis
        using assms(2) False one None u1 errs(1) Inr up two held_migrate_up [OF assms(1)]
        by (cases r2) (auto simp: Migrate_def simp del: db_steps.simps)
    qed
  next
    case (Some err)
    then show ?thesis using assms(2) False one u1 errs(2) by (auto simp: Migrate_def simp del: db_steps.simps)
  qed
qed (use assms(2) in \<open>auto simp: Migrate_def up_failed_def\<close>)

lemma pg_Open_error: "pg_Open h dsn s = (Some err, s1) \<Longrightarrow> \<not> up_failed err"
  by (auto simp: pg_Open_def up_failed_def split: if_splits prod.splits option.splits sum.splits)

lemma held_redis_Open:
  assumes "counts_handles h held" and "redis_Open h url s = (r, s1)"
  shows "held s1 = held s + of_bool (\<not> isl (fst (h_db h (ParseRedis url) s)))
    \<and> (r = None \<longrightarrow> \<not> isl (fst (h_db h (ParseRedis url) s)))"
proof -
  obtain r1 u1 where one: "h_db h (ParseRedis url) s = (r1, u1)" by fastforce
  obtain r2 u2 where two: "h_db h PingRedis (db_run h (NewRedisClient url) u1) = (r2, u2)" by fastforce
  show ?thesis
    using assms(2) held_db [OF assms(1) one] held_db [OF assms(1) two] held_run [OF assms(1), of "NewRedisClient url" u1] one two
    by (cases r1; cases r2) (auto simp: redis_Open_def)
qed

text \<open>
  C30: A store that opens holds one handle, its pool or client, and closing it gives the handle back; the
  in-memory store holds none. An attempt that fails holds none either, whichever of its steps fails: the pool is
  closed when a ping or a migration fails, and the connection of the adoption always. There are two
  exceptions: a migration that fails leaves the migrator open, and a Redis client that cannot be reached is kept.
\<close>

theorem store_open_handles:
  assumes "counts_handles h held" and "storefactory_Open h cfg s = (r, s1)"
  shows "case r of
      Inr b \<Rightarrow> held s1 = held s + of_bool (b \<noteq> MemoryBackend) \<and> held (close_store h b s1) = held s
    | Inl err \<Rightarrow> held s1 = held s + of_bool
        (cfg_store_type cfg \<in> {[], ''postgres''} \<and> up_failed err
         \<or> cfg_store_type cfg \<in> {''redis'', ''valkey''} \<and> \<not> isl (fst (h_db h (ParseRedis (cfg_redis_url cfg)) s)))"
proof (cases "cfg_store_type cfg \<in> {[], ''postgres''}")
  case True
  obtain r1 u1 where one: "pg_Open h (cfg_dsn cfg) s = (r1, u1)" by fastforce
  obtain r2 u2 where two: "Migrate h (cfg_dsn cfg) u1 = (r2, u2)" by fastforce
  have types: "cfg_store_type cfg \<noteq> ''redis''" "cfg_store_type cfg \<noteq> ''valkey''" using True by auto
  have close: "held (db_run h ClosePool v) = held v - 1" for v using held_run [OF assms(1), of ClosePool v] by simp
  show ?thesis
    using assms(2) True one two held_pg_Open [OF assms(1) one] held_Migrate [OF assms(1) two] types pg_Open_error [of h "cfg_dsn cfg" s]
    by (cases r1; cases r2) (auto simp: storefactory_Open_def close_store_def close)
next
  case False
  obtain r1 u1 where one: "redis_Open h (cfg_redis_url cfg) s = (r1, u1)" by fastforce
  have close: "held (db_run h CloseRedis v) = held v - 1" for v using held_run [OF assms(1), of CloseRedis v] by simp
  show ?thesis
    using assms(2) False one held_redis_Open [OF assms(1) one]
    by (cases r1) (auto simp: storefactory_Open_def close_store_def close split: if_splits)
qed

text \<open>A driver whose state is the number of handles, on which every operation succeeds but the migrations.\<close>

definition counting_host :: "int host" where
  "counting_host = \<lparr>h_db = \<lambda>x s. (if x = MigrateUp then Inl (ErrCtx ''broken migration'') else Inr [],
       s + opened_by x (x \<noteq> MigrateUp)),
     h_tx = \<lambda>f s. f s, h_lock_id = \<lambda>_ _. Inr 1, h_no_change = \<lambda>_. False,
     h_url = \<lparr>url_parse = \<lambda>u. Inr \<lparr>du_rest = u, du_query = []\<rparr>, url_string = du_rest\<rparr>\<rparr>"

theorem store_open_handles_witness:
  "\<exists>err. storefactory_Open counting_host ((Load test_env (\<lambda>_. []))\<lparr>cfg_dsn := ''postgres://db''\<rparr>) 0 = (Inl err, 1)
    \<and> up_failed err"
proof -
  let ?cfg = "(Load test_env (\<lambda>_. []))\<lparr>cfg_dsn := ''postgres://db''\<rparr>"
  have "counts_handles counting_host (\<lambda>s. s)"
    by (auto simp: counts_handles_def counting_host_def)
  moreover obtain r s1 where out: "storefactory_Open counting_host ?cfg 0 = (r, s1)" by fastforce
  moreover have "r = Inl (Errorf ''postgres.Migrate: up: %w'' [AErr (ErrCtx ''broken migration'')])"
    "cfg_store_type ?cfg = ''postgres''"
    using out by (simp_all add: storefactory_Open_def Load_def getEnv_def pg_Open_def Migrate_def migrationsURL_def
        counting_host_def stripScheme_def query_get_def adoptMigrationsTable_def connDSN_def adopt_on_conn_def
        migrate_up_def Let_def)
  ultimately show ?thesis using store_open_handles [of counting_host "\<lambda>s. s" ?cfg 0 r s1] by (auto simp: up_failed_def)
qed

text \<open>A lock that could not be taken holds no connection, and releasing a lock gives its connection back.\<close>

lemma held_leader_lock:
  assumes "counts_handles h held" and "AcquireAdvisoryLock h lockID s = (r, s1)"
  shows "if r = None then held s1 = held s + 1 \<and> held (release_lock h lockID s1) = held s else held s1 = held s"
proof -
  obtain r1 u1 where one: "h_db h AcquireConn s = (r1, u1)" by fastforce
  obtain r2 u2 where two: "h_db h (AdvisoryLock lockID) u1 = (r2, u2)" by fastforce
  have "held (db_run h ReleaseConn v) = held v - 1" "held (db_run h (AdvisoryUnlock lockID) v) = held v" for v
    using held_run [OF assms(1), of ReleaseConn v] held_run [OF assms(1), of "AdvisoryUnlock lockID" v] by simp_all
  then show ?thesis
    using assms(2) held_db [OF assms(1) one] held_db [OF assms(1) two] one two
    by (cases r1; cases r2) (auto simp: AcquireAdvisoryLock_def release_lock_def)
qed

section \<open>Adoption\<close>

lemma to_regclass_public:
  "to_regclass (Some ''public'') n c = (if (''public'', n) \<in> set (cat_tables c) then Some (''public'', n) else None)"
  by (simp add: to_regclass_def)

lemma to_regclass_path:
  "to_regclass None n c = Some t \<Longrightarrow> t \<in> set (cat_tables c) \<and> snd t = n \<and> fst t \<in> set (cat_path c)"
  by (auto simp: to_regclass_def find_Some_iff)

text \<open>
  The migrations table ends up in public if it was there or the connection found one on its search path; no other
  table moves, and adopting again, from any search path, changes nothing once it is there.
\<close>

lemma adopted_table:
  assumes "c' = adoptLegacyMigrationsTable c"
  shows "(''public'', ''schema_migrations'') \<in> set (cat_tables c') \<longleftrightarrow>
      (''public'', ''schema_migrations'') \<in> set (cat_tables c) \<or> to_regclass None ''schema_migrations'' c \<noteq> None"
    and "snd t \<noteq> ''schema_migrations'' \<Longrightarrow> t \<in> set (cat_tables c') \<longleftrightarrow> t \<in> set (cat_tables c)"
    and "(''public'', ''schema_migrations'') \<in> set (cat_tables c')
      \<Longrightarrow> adoptLegacyMigrationsTable (c'\<lparr>cat_path := path\<rparr>) = c'\<lparr>cat_path := path\<rparr>"
  using to_regclass_path [of "''schema_migrations''" c] assms
  by (auto simp: adoptLegacyMigrationsTable_def to_regclass_public set_schema_def split: option.splits if_splits)

end
