(* ===== verification/Api_Catalog.thy ===== *)
theory Api_Catalog
  imports Api
begin

text \<open>
  The handlers of the REST API that manage what runs are made of: workflows, the action registry,
  rules and triggers (\<^verbatim>\<open>api/handler_workflows.go\<close>, \<^verbatim>\<open>handler_registry.go\<close>,
  \<^verbatim>\<open>handler_rules.go\<close>, \<^verbatim>\<open>handler_triggers.go\<close>), the health checks and the part of the
  run stream before the connection is upgraded.
\<close>

section \<open>Health\<close>

definition HealthLive :: response where
  "HealthLive = WriteJSON 200 (StatusBody ''live'')"

definition HealthReady :: response where
  "HealthReady = WriteJSON 200 (StatusBody ''ready'')"

section \<open>Workflows\<close>

definition Workflow_Stats :: "string \<Rightarrow> world \<Rightarrow> response" where
  "Workflow_Stats wfID w =
     (if wfID = [] then bad_request_response ''wf_id required''
      else WriteJSON 200 (StatsBody (StatsForWorkflow (wall w) wfID (st w))))"

definition Workflow_List :: "query \<Rightarrow> world \<Rightarrow> response" where
  "Workflow_List q w =
     (case parse_limit q of Inl r \<Rightarrow> r | Inr limit \<Rightarrow>
     (case parse_offset q of Inl r \<Rightarrow> r | Inr offset \<Rightarrow>
     (case optional q ''published'' ParseBool ''published must be true or false'' of
        Inl r \<Rightarrow> r | Inr published \<Rightarrow>
       (let ds = ListWorkflowDefinitions
                   \<lparr>dfilter_published = published, dfilter_search = query_get q ''search'',
                    dfilter_limit = limit, dfilter_offset = offset\<rparr> (st w)
        in WriteJSON 200 (DefsBody ds (int (length ds)) limit offset)))))"

definition Workflow_Get :: "env \<Rightarrow> string \<Rightarrow> world \<Rightarrow> response" where
  "Workflow_Get e idStr w =
     (case uuid_parse e idStr of
        Inr i \<Rightarrow>
          (case GetWorkflowDefinition (st w) i of
             Inl err \<Rightarrow>
               (if is_not_found err then WriteError 404 ''workflow_not_found'' idStr
                else internal_error ''internal'')
           | Inr d \<Rightarrow> WriteJSON 200 (DefBody d))
      | Inl _ \<Rightarrow>
          (case find (\<lambda>d. def_id d = idStr)
                  (ListWorkflowDefinitions
                     \<lparr>dfilter_published = None, dfilter_search = idStr, dfilter_limit = 500,
                      dfilter_offset = 0\<rparr> (st w)) of
             Some d \<Rightarrow> WriteJSON 200 (DefBody d)
           | None \<Rightarrow> WriteError 404 ''workflow_not_found'' idStr))"

definition Workflow_Save :: "env \<Rightarrow> gerr + workflow_definition \<Rightarrow> world \<Rightarrow> response \<times> world" where
  "Workflow_Save e decoded w =
     (case decoded of
        Inl err \<Rightarrow> (bad_request_response ''bad request body'', w)
      | Inr d \<Rightarrow>
          (case ValidateDefinition d of
             Some err \<Rightarrow> (bad_request_response (err_text err), w)
           | None \<Rightarrow>
               (let (i, w1) = fresh e w
                in (WriteJSON 200 (SavedBody i d), do_store (UpsertWorkflowDefinition i d) w1))))"

section \<open>Action registry\<close>

record register_req =
  rreq_service :: string
  rreq_service_version :: string
  rreq_actions :: "action_registration list"

text \<open>The loop returns at the first bad action; the ones before it stay registered.\<close>

fun register_loop ::
  "env \<Rightarrow> string \<Rightarrow> string \<Rightarrow> int \<Rightarrow> action_registration list \<Rightarrow> world \<Rightarrow> response option \<times> world" where
  "register_loop e service version i [] w = (None, w)"
| "register_loop e service version i (a # as) w =
     (if reg_action_name a = []
      then (Some (bad_request_response (''actions['' @ show_int i @ ''].name required'')), w)
      else if reg_version a < 1
      then (Some (bad_request_response (''actions['' @ show_int i @ ''].version must be >= 1'')), w)
      else
        (let (fr, w1) = fresh e w;
             a = a\<lparr>reg_service := service, reg_service_version := version\<rparr>
         in register_loop e service version (i + 1) as
              (do_store (UpsertActionRegistration fr (wall w1) a) w1)))"

definition Registry_Register :: "env \<Rightarrow> gerr + register_req \<Rightarrow> world \<Rightarrow> response \<times> world" where
  "Registry_Register e decoded w =
     (case decoded of
        Inl err \<Rightarrow> (bad_request_response ''bad request body'', w)
      | Inr req \<Rightarrow>
          (if rreq_service req = [] then (bad_request_response ''service required'', w)
           else if rreq_actions req = [] then (bad_request_response ''actions required (non-empty)'', w)
           else case register_loop e (rreq_service req) (rreq_service_version req) 0 (rreq_actions req) w of
             (Some r, w1) \<Rightarrow> (r, w1)
           | (None, w1) \<Rightarrow>
               (WriteJSON 200 (RegisteredBody (rreq_service req) (rreq_service_version req)
                  (int (length (rreq_actions req)))), w1)))"

definition Registry_List :: "query \<Rightarrow> world \<Rightarrow> response" where
  "Registry_List q w =
     WriteJSON 200 (ActionsBody (ListActions
       \<lparr>afilter_service = query_get q ''service'', afilter_search = query_get q ''search'',
        afilter_category = query_get q ''category''\<rparr> (st w)))"

section \<open>Rules\<close>

text \<open>The tenant is parsed but the in-memory store does not look at it.\<close>

definition Rules_Evaluate :: "env \<Rightarrow> string \<Rightarrow> gerr + gomap \<Rightarrow> world \<Rightarrow> response" where
  "Rules_Evaluate e ruleID decoded w =
     (if ruleID = [] then bad_request_response ''rule_id required''
      else case decoded of
        Inl err \<Rightarrow> bad_request_response ''bad request body''
      | Inr inputs \<Rightarrow>
          (case GetPublishedRuleByID (st w) ruleID of
             Inl err \<Rightarrow>
               (if is_not_found err then WriteError 404 ''not_found'' (''rule not found: '' @ ruleID)
                else internal_error ''internal'')
           | Inr rule \<Rightarrow>
               (case Evaluate (cel e) rule inputs of
                  (Inl err, audit) \<Rightarrow>
                    WriteError 422 ''unprocessable'' (''rule evaluation failed: '' @ err_text err)
                | (Inr out, audit) \<Rightarrow> WriteJSON 200 (RuleBody out audit))))"

section \<open>Triggers\<close>

record trigger_create_req =
  tcr_type :: string
  tcr_workflow_id :: string
  tcr_version :: int
  tcr_config :: "gomap option"
  tcr_enabled :: bool
  tcr_tenant_id :: "string option"
  tcr_created_by :: string

definition trigger_type_of :: "string \<Rightarrow> trigger_type" where
  "trigger_type_of s =
     (if s = ''record_transition'' then TriggerRecordTransition
      else if s = ''cron'' then TriggerCron else TriggerOther s)"

fun required_fields :: "gomap \<Rightarrow> string list \<Rightarrow> gerr option" where
  "required_fields cfg [] = None"
| "required_fields cfg (k # ks) =
     (case map_of cfg k of
        None \<Rightarrow> Some (Errorf ''config.%s is required for trigger_type record_transition'' [AStr k])
      | Some v \<Rightarrow>
          (case v of
             VStr (c # cs) \<Rightarrow> required_fields cfg ks
           | _ \<Rightarrow> Some (Errorf ''config.%s must be a non-empty string'' [AStr k])))"

definition validateRecordTransitionConfig :: "gomap \<Rightarrow> gerr option" where
  "validateRecordTransitionConfig cfg = required_fields cfg [''record_type'', ''from_state'', ''to_state'']"

text \<open>A tenant that does not parse is dropped.\<close>

definition body_tenant :: "env \<Rightarrow> string option \<Rightarrow> uuid option" where
  "body_tenant e t =
     (case t of
        None \<Rightarrow> None
      | Some s \<Rightarrow>
          (if s = [] then None
           else case uuid_parse e s of Inl _ \<Rightarrow> None | Inr u \<Rightarrow> Some u))"

text \<open>The first fire of a cron trigger, and whether cron triggers are licensed.\<close>

definition cron_first_fire ::
  "env \<Rightarrow> schedule_parser \<Rightarrow> resolver \<Rightarrow> trigger_create_req \<Rightarrow> gomap \<Rightarrow> gotime \<Rightarrow> response + gotime" where
  "cron_first_fire e sched lic req cfg now =
     (let hasSchedule = (map_of cfg ''schedule'' \<noteq> None);
          hasInterval = (map_of cfg ''interval'' \<noteq> None);
          next =
            (if hasSchedule \<and> hasInterval
             then Inl (bad_request_response ''cron config must have exactly one of schedule or interval, not both'')
             else if hasInterval
             then (case parse_duration e (get_str cfg ''interval'') of
                     Inl _ \<Rightarrow> Inl (bad_request_response
                       ''invalid cron interval: must be a positive Go duration (e.g. \"30s\")'')
                   | Inr d \<Rightarrow>
                       (if d \<le> 0 then Inl (bad_request_response
                          ''invalid cron interval: must be a positive Go duration (e.g. \"30s\")'')
                        else Inr (now + d)))
             else if hasSchedule
             then (case sched (get_str cfg ''schedule'') of
                     Inl _ \<Rightarrow> Inl (bad_request_response ''invalid cron schedule'')
                   | Inr nxt \<Rightarrow> Inr (nxt now))
             else Inl (bad_request_response ''cron config must have exactly one of schedule or interval''))
      in case next of
           Inl r \<Rightarrow> Inl r
         | Inr t \<Rightarrow>
             (if lic (body_tenant e (tcr_tenant_id req)) FeatureCronTriggers [] = Inr True then Inr t
              else Inl (WriteError 403 ''forbidden'' ''cron triggers not licensed'')))"

definition trigger_fields :: "trigger_create_req \<Rightarrow> response + gomap" where
  "trigger_fields req =
     (if tcr_type req = [] then Inl (bad_request_response ''trigger_type required'')
      else if tcr_workflow_id req = [] then Inl (bad_request_response ''workflow_id required'')
      else if tcr_version req < 1 then Inl (bad_request_response ''version must be >= 1'')
      else case tcr_config req of
        None \<Rightarrow> Inl (bad_request_response ''config field must be present (use {} for empty)'')
      | Some cfg \<Rightarrow>
          (if tcr_created_by req = [] then Inl (bad_request_response ''created_by required'')
           else if trigger_type_of (tcr_type req) = TriggerRecordTransition
           then (case validateRecordTransitionConfig cfg of
                   Some err \<Rightarrow> Inl (WriteError 422 ''invalid_config'' (err_text err))
                 | None \<Rightarrow> Inr cfg)
           else Inr cfg))"

definition new_trigger ::
  "env \<Rightarrow> trigger_create_req \<Rightarrow> gomap \<Rightarrow> gotime option \<Rightarrow> saga_trigger" where
  "new_trigger e req cfg next =
     \<lparr>trig_id = uuid_Nil, trig_type = trigger_type_of (tcr_type req),
      trig_workflow_id = tcr_workflow_id req, trig_version = tcr_version req, trig_config = cfg,
      trig_enabled = tcr_enabled req, trig_tenant_id = body_tenant e (tcr_tenant_id req),
      trig_created_at = 0, trig_created_by = tcr_created_by req, trig_next_fire_at = next,
      trig_last_fired_at = None\<rparr>"

definition Trigger_Create ::
  "env \<Rightarrow> schedule_parser \<Rightarrow> resolver \<Rightarrow> gerr + trigger_create_req \<Rightarrow> world \<Rightarrow> response \<times> world" where
  "Trigger_Create e sched lic decoded w =
     (case decoded of
        Inl err \<Rightarrow> (bad_request_response (''bad body: '' @ err_text err), w)
      | Inr req \<Rightarrow>
          (case trigger_fields req of
             Inl r \<Rightarrow> (r, w)
           | Inr cfg \<Rightarrow>
               (case (if trigger_type_of (tcr_type req) = TriggerCron
                      then map_sum id Some (cron_first_fire e sched lic req cfg (clk w))
                      else Inr None) of
                  Inl r \<Rightarrow> (r, w)
                | Inr next \<Rightarrow>
                    (let (fr, w1) = fresh e w;
                         (i, s) = UpsertTrigger fr (wall w1) (new_trigger e req cfg next) (st w1);
                         w2 = w1\<lparr>st := s\<rparr>
                     in case GetTrigger s i of
                          Inl err \<Rightarrow> (internal_error ''internal'', w2)
                        | Inr created \<Rightarrow> (WriteJSON 201 (TriggerBody created), w2)))))"

definition Trigger_Get :: "env \<Rightarrow> string \<Rightarrow> world \<Rightarrow> response" where
  "Trigger_Get e idStr w =
     (case uuid_parse e idStr of
        Inl err \<Rightarrow> bad_request_response ''invalid id''
      | Inr i \<Rightarrow>
          (case GetTrigger (st w) i of
             Inl err \<Rightarrow>
               (if is_not_found err then WriteError 404 ''trigger_not_found'' idStr
                else internal_error ''internal'')
           | Inr t \<Rightarrow> WriteJSON 200 (TriggerBody t)))"

definition Trigger_List :: "query \<Rightarrow> world \<Rightarrow> response" where
  "Trigger_List q w =
     (let t = query_get q ''type'';
          en = query_get q ''enabled''
      in WriteJSON 200 (TriggersBody (ListTriggers
           \<lparr>tfilter_type = (if t \<noteq> [] then Some (trigger_type_of t) else None),
            tfilter_enabled =
              (if en \<in> {''true'', ''1''} then Some True
               else if en \<in> {''false'', ''0''} then Some False else None),
            tfilter_tenant_id = None\<rparr> (st w))))"

definition Trigger_Delete :: "env \<Rightarrow> string \<Rightarrow> world \<Rightarrow> response \<times> world" where
  "Trigger_Delete e idStr w =
     (case uuid_parse e idStr of
        Inl err \<Rightarrow> (bad_request_response ''invalid id'', w)
      | Inr i \<Rightarrow>
          (case try_store (DeleteTrigger i) w of
             (Some err, w1) \<Rightarrow>
               (if is_not_found err then (WriteError 404 ''trigger_not_found'' idStr, w1)
                else (internal_error ''internal'', w1))
           | (None, w1) \<Rightarrow> (WriteJSON 204 Empty, w1)))"

section \<open>The run stream\<close>

text \<open>
  Before the upgrade: the refusal, or the frames of the initial snapshot (the run, then its
  events so far) the connection starts with. \<open>pool\<close> says whether there is a PostgreSQL pool.
\<close>

definition quoteIdent :: "string \<Rightarrow> string" where
  "quoteIdent s = [CHR 0x22] @ concat (map (\<lambda>c. if c = CHR 0x22 then [c, c] else [c]) s) @ [CHR 0x22]"

definition stream_channel :: "uuid \<Rightarrow> string" where
  "stream_channel runID = ''saga_event_'' @ filter (\<lambda>c. c \<noteq> CHR ''-'') runID"

definition Stream_open ::
  "env \<Rightarrow> bool \<Rightarrow> string \<Rightarrow> world \<Rightarrow> response + saga_run \<times> saga_run_event list \<times> string" where
  "Stream_open e pool runIDStr w =
     (case uuid_parse e runIDStr of
        Inl err \<Rightarrow> Inl (bad_request_response ''bad run_id'')
      | Inr runID \<Rightarrow>
          (case GetRun (st w) runID of
             Inl err \<Rightarrow>
               (if is_not_found err then Inl (WriteError 404 ''not_found'' ''run not found'')
                else Inl (internal_error ''internal''))
           | Inr run \<Rightarrow>
               (if \<not> pool
                then Inl (WriteJSON 501 (TextBody ''live streaming requires the postgres store backend''))
                else Inr (run, ListEventsByRun (st w) runID,
                          ''LISTEN '' @ quoteIdent (stream_channel runID)))))"

section \<open>What is created can be found\<close>

text \<open>
  A saved workflow is read back under the id of the answer and, if it is published, is the one new runs
  of its name start from; what does not validate is not stored.
\<close>

lemma first_published_last:
  "map_of (defs s) i = Some d \<Longrightarrow> def_published d \<Longrightarrow> first_published s (i # is) = Some d"
  by simp

lemma saved_workflow_found:
  assumes "ValidateDefinition d = None"
  shows "\<exists>i w'. Workflow_Save e (Inr d) w = (\<lparr>status = 200, content = SavedBody i d\<rparr>, w')
    \<and> GetWorkflowDefinition (st w') i = Inr d
    \<and> (def_published d \<longrightarrow> GetPublishedWorkflowByID (st w') (def_id d) = Inr d)
    \<and> runs (st w') = runs (st w)"
  using assms
  by (simp add: Workflow_Save_def fresh_def WriteJSON_def do_store_def UpsertWorkflowDefinition_def
      GetWorkflowDefinition_def GetPublishedWorkflowByID_def at_key_def)

lemma Workflow_Save_invalid:
  "ValidateDefinition d = Some err \<Longrightarrow> Workflow_Save e (Inr d) w = (bad_request_response (err_text err), w)"
  by (simp add: Workflow_Save_def)

text \<open>
  Creating an interval trigger. A licensed cron trigger with a positive interval is answered 201 with
  the stored trigger, whose first fire lies one interval ahead of the clock: the cron
  dispatcher finds it due from that instant on, if it is enabled, and never before. Without
  the license the answer is 403 and nothing is stored.
\<close>

theorem cron_trigger_created:
  assumes "trigger_fields req = Inr cfg" and "trigger_type_of (tcr_type req) = TriggerCron"
    and "map_of cfg ''schedule'' = None" and "map_of cfg ''interval'' = Some (VStr text)"
    and "parse_duration e text = Inr d" and "0 < d"
    and "licensed \<longleftrightarrow> lic (body_tenant e (tcr_tenant_id req)) FeatureCronTriggers [] = Inr True"
  shows "(\<not> licensed \<longrightarrow> Trigger_Create e sched lic (Inr req) w =
        (\<lparr>status = 403, content = ErrorBody ''forbidden'' ''cron triggers not licensed''\<rparr>, w))
    \<and> (licensed \<longrightarrow> (\<exists>t w'. Trigger_Create e sched lic (Inr req) w = (\<lparr>status = 201, content = TriggerBody t\<rparr>, w')
        \<and> GetTrigger (st w') (trig_id t) = Inr t \<and> trig_workflow_id t = tcr_workflow_id req
        \<and> trig_config t = cfg \<and> trig_next_fire_at t = Some (clk w + d)
        \<and> (\<forall>now. cron_due now t \<longleftrightarrow> tcr_enabled req \<and> clk w + d \<le> now)
        \<and> next_fire e sched (clk w + d) t = (if text = [] then (case sched [] of Inl _ \<Rightarrow> None | Inr nxt \<Rightarrow> Some (nxt (clk w + d)))
             else Some (clk w + d + d))))"
proof -
  have interval: "get_str cfg ''interval'' = text" "get_str cfg ''schedule'' = []"
    using assms(3,4) by (simp_all add: get_str_def)
  have first: "cron_first_fire e sched lic req cfg (clk w) =
      (if licensed then Inr (clk w + d) else Inl (WriteError 403 ''forbidden'' ''cron triggers not licensed''))"
    using assms(3-7) interval by (simp add: cron_first_fire_def)
  show ?thesis
    using assms(1,2) first interval assms(5,6)
    by (auto simp: Trigger_Create_def WriteError_def WriteJSON_def fresh_def UpsertTrigger_def Let_def
        new_trigger_def GetTrigger_def cron_due_def next_fire_def)
qed

definition nightly :: trigger_create_req where
  "nightly = \<lparr>tcr_type = ''cron'', tcr_workflow_id = ''wf'', tcr_version = 1,
     tcr_config = Some [(''interval'', VStr ''30s'')], tcr_enabled = True, tcr_tenant_id = None,
     tcr_created_by = ''ann''\<rparr>"

definition minute_env :: env where
  "minute_env = test_env\<lparr>parse_duration := (\<lambda>s. Inr (30 * second_ns))\<rparr>"

theorem cron_trigger_created_witness:
  "\<exists>t w'. Trigger_Create minute_env (\<lambda>_. Inl ErrSagaPaused) StubAllowAll (Inr nightly) test_world
        = (\<lparr>status = 201, content = TriggerBody t\<rparr>, w')
    \<and> trig_next_fire_at t = Some (10 + 30 * second_ns) \<and> \<not> cron_due 10 t \<and> cron_due (10 + 30 * second_ns) t"
proof -
  have "clk test_world = 10" by (simp add: test_world_def)
  then show ?thesis
    using cron_trigger_created [of nightly "[(''interval'', VStr ''30s'')]" "''30s''" minute_env "30 * second_ns"
        True StubAllowAll "\<lambda>_. Inl ErrSagaPaused" test_world]
    by (auto simp: nightly_def trigger_fields_def trigger_type_of_def minute_env_def StubAllowAll_def)
qed

text \<open>
  Registration stamps the service of the envelope on every action, and a bad action stops it
  after the ones before it have been stored.
\<close>

lemma register_loop_service:
  assumes "register_loop e service version i as w = (None, w')"
  shows "list_all (\<lambda>a. reg_action_name a \<noteq> [] \<and> 1 \<le> reg_version a) as"
  using assms by (induction as arbitrary: i w) (auto simp: Let_def fresh_def split: if_splits)

lemma registered_action_found:
  assumes "reg_action_name a \<noteq> []" and "1 \<le> reg_version a" and "reg_id a \<noteq> uuid_Nil"
    and "reg_registered_at a \<noteq> 0"
  shows "\<exists>w'. register_loop e service version i [a] w = (None, w')
    \<and> GetAction (st w') service (reg_action_name a) (reg_version a) =
        Inr (a\<lparr>reg_service := service, reg_service_version := version\<rparr>)"
  using assms
  by (simp add: fresh_def do_store_def UpsertActionRegistration_def GetAction_def at_key_def Let_def)

end
