(* ===== verification/Process.thy ===== *)
theory Process
  imports Messaging Database_Setup Api_Catalog
begin

text \<open>
  The two service binaries (\<^verbatim>\<open>cmd/api/main.go\<close>, \<^verbatim>\<open>cmd/engine/main.go\<close>) up to the point where they serve, the
  route table (\<^verbatim>\<open>api/router.go\<close>), and loggers: \<open>sagalog\<close>, its recorder, the request log of \<^verbatim>\<open>api/logging.go\<close> and the
  spans of \<^verbatim>\<open>cmd/api/tracing.go\<close>.
\<close>

section \<open>Loggers\<close>

text \<open>
  A logger of the caller is a value of type \<open>'l\<close>; \<open>Nop\<close> is the one that discards. A context may carry a logger.
\<close>

datatype 'l logger = Nop | Logger 'l

record 'l ctx =
  ctx_logger :: "'l logger option"

definition NewContext :: "'l ctx \<Rightarrow> 'l logger option \<Rightarrow> 'l ctx" where
  "NewContext c l = (case l of None \<Rightarrow> c | Some _ \<Rightarrow> c\<lparr>ctx_logger := l\<rparr>)"

definition FromContext :: "'l ctx option \<Rightarrow> 'l logger option" where
  "FromContext c = (case c of None \<Rightarrow> None | Some c \<Rightarrow> ctx_logger c)"

text \<open>\<open>with_ctx\<close> is the method \<^verbatim>\<open>Ctx\<close> of a caller's logger.\<close>

fun logger_Ctx :: "('l ctx \<Rightarrow> 'l \<Rightarrow> 'l logger) \<Rightarrow> 'l ctx \<Rightarrow> 'l logger \<Rightarrow> 'l logger" where
  "logger_Ctx with_ctx c Nop = Nop"
| "logger_Ctx with_ctx c (Logger l) = with_ctx c l"

definition sagalog_For :: "('l ctx \<Rightarrow> 'l \<Rightarrow> 'l logger) \<Rightarrow> 'l ctx option \<Rightarrow> 'l logger option \<Rightarrow> 'l logger" where
  "sagalog_For with_ctx c fallback =
     (case (case FromContext c of Some l \<Rightarrow> Some l | None \<Rightarrow> fallback) of
        None \<Rightarrow> Nop
      | Some l \<Rightarrow> (case c of None \<Rightarrow> l | Some c \<Rightarrow> logger_Ctx with_ctx c l))"

definition sagalog_Or :: "'l logger option \<Rightarrow> 'l logger" where
  "sagalog_Or l = or_default l Nop"

section \<open>The recorder\<close>

datatype level = LevelTrace | LevelDebug | LevelInfo | LevelWarn | LevelError | LevelFatal

record log_entry =
  en_level :: level
  en_msg :: string
  en_err :: "gerr option"
  en_fields :: gomap

text \<open>A recorder is its fields; the entries are shared by all that \<^verbatim>\<open>With\<close> derives, oldest first.\<close>

definition merge_fields :: "gomap \<Rightarrow> (string \<times> val) list \<Rightarrow> gomap" where
  "merge_fields old new = foldl (\<lambda>m (k, v). AList.update k v m) old new"

definition recorder_add ::
  "gomap \<Rightarrow> level \<Rightarrow> gerr option \<Rightarrow> string \<Rightarrow> (string \<times> val) list \<Rightarrow> log_entry list \<Rightarrow> log_entry list" where
  "recorder_add r lvl err msg fs entries =
     entries @ [\<lparr>en_level = lvl, en_msg = msg, en_err = err, en_fields = merge_fields r fs\<rparr>]"

definition recorder_With :: "gomap \<Rightarrow> (string \<times> val) list \<Rightarrow> gomap" where
  "recorder_With r fs = merge_fields r fs"

definition recorder_Has :: "level \<Rightarrow> string \<Rightarrow> log_entry list \<Rightarrow> bool" where
  "recorder_Has lvl msg entries \<longleftrightarrow> list_ex (\<lambda>x. en_level x = lvl \<and> en_msg x = msg) entries"

definition recorder_Find :: "string \<Rightarrow> log_entry list \<Rightarrow> log_entry option" where
  "recorder_Find msg entries = find (\<lambda>x. en_msg x = msg) entries"

text \<open>\<open>render\<close> is the entry's \<^verbatim>\<open>String\<close>, whose formats are those of package fmt.\<close>

definition recorder_Contains :: "(log_entry \<Rightarrow> string) \<Rightarrow> string \<Rightarrow> log_entry list \<Rightarrow> bool" where
  "recorder_Contains render s entries \<longleftrightarrow> list_ex (\<lambda>x. contains_str (render x) s) entries"

section \<open>The request log and spans\<close>

text \<open>
  A finished request as the middleware sees it: the resolved pattern and the status are empty or 0 when not set.
\<close>

record exchange =
  ex_request_id :: string
  ex_method :: string
  ex_path :: string
  ex_pattern :: string
  ex_status :: int
  ex_millis :: int
  ex_bytes :: int

definition request_logger :: "gomap \<Rightarrow> exchange \<Rightarrow> gomap" where
  "request_logger r x =
     (if ex_request_id x \<noteq> [] then recorder_With r [(''request_id'', VStr (ex_request_id x))] else r)"

definition response_status :: "int \<Rightarrow> int" where
  "response_status s = (if s = 0 then 200 else s)"

text \<open>The line of a request, for a recorder with fields \<open>r\<close>; without a logger there is none.\<close>

definition LoggingMiddleware :: "gomap option \<Rightarrow> exchange \<Rightarrow> log_entry list \<Rightarrow> log_entry list" where
  "LoggingMiddleware l x entries =
     (case l of
        None \<Rightarrow> entries
      | Some r \<Rightarrow>
          (let reqLog = request_logger r x;
               code = response_status (ex_status x);
               fs = [(''method'', VStr (ex_method x)),
                     (''route'', VStr (if ex_pattern x \<noteq> [] then ex_pattern x else ex_path x)),
                     (''status'', VInt code), (''duration_ms'', VInt64 (ex_millis x)), (''bytes'', VInt (ex_bytes x))]
           in if code \<ge> 500 then recorder_add reqLog LevelError None ''http request failed'' fs entries
              else if code \<ge> 400 then recorder_add reqLog LevelWarn None ''http request rejected'' fs entries
              else recorder_add reqLog LevelDebug None ''http request'' fs entries))"

text \<open>The status a span records: the last one the handler wrote, and whether it marks an error.\<close>

definition tracingMiddleware :: "int list \<Rightarrow> int \<times> bool" where
  "tracingMiddleware written =
     (let code = foldl (\<lambda>_ c. c) 200 written in (code, code \<ge> 500))"

section \<open>The routes\<close>

datatype segment = Lit string | Par string

type_synonym route = "string \<times> segment list \<times> string"

definition api_v1 :: "string \<Rightarrow> segment list \<Rightarrow> string \<Rightarrow> route" where
  "api_v1 m segs h = (m, Lit ''api'' # Lit ''v1'' # segs, h)"

definition NewRouter :: "route list" where
  "NewRouter =
     [(''GET'', [Lit ''health'', Lit ''live''], ''HealthLive''),
      (''GET'', [Lit ''health'', Lit ''ready''], ''HealthReady''),
      api_v1 ''GET'' [Lit ''sagas''] ''sagas.List'',
      api_v1 ''POST'' [Lit ''sagas'', Lit ''start''] ''sagas.Start'',
      api_v1 ''GET'' [Lit ''sagas'', Par ''id''] ''sagas.Get'',
      api_v1 ''POST'' [Lit ''sagas'', Par ''id'', Lit ''cancel''] ''sagas.Cancel'',
      api_v1 ''POST'' [Lit ''sagas'', Par ''run_id'', Lit ''signal'', Par ''name''] ''signals.Post'',
      api_v1 ''POST'' [Lit ''sagas'', Par ''run_id'', Lit ''user_task'', Par ''task_id'', Lit ''submit''] ''userTasks.Submit'',
      api_v1 ''POST'' [Lit ''sagas'', Par ''run_id'', Lit ''actions'', Par ''step_id'', Lit ''result''] ''actionResults.Post'',
      api_v1 ''GET'' [Lit ''sagas'', Par ''run_id'', Lit ''stream''] ''streamHandler.Stream'',
      api_v1 ''GET'' [Lit ''workflows''] ''workflows.List'',
      api_v1 ''GET'' [Lit ''workflows'', Par ''id''] ''workflows.Get'',
      api_v1 ''POST'' [Lit ''workflows''] ''workflows.Save'',
      api_v1 ''POST'' [Lit ''registry'', Lit ''register''] ''registryHandler.Register'',
      api_v1 ''GET'' [Lit ''registry'', Lit ''actions''] ''registryHandler.List'',
      api_v1 ''POST'' [Lit ''rules'', Par ''rule_id'', Lit ''evaluate''] ''rulesHandler.Evaluate'',
      api_v1 ''POST'' [Lit ''triggers''] ''triggersHandler.Create'',
      api_v1 ''GET'' [Lit ''triggers''] ''triggersHandler.List'',
      api_v1 ''GET'' [Lit ''triggers'', Par ''id''] ''triggersHandler.Get'',
      api_v1 ''DELETE'' [Lit ''triggers'', Par ''id''] ''triggersHandler.Delete'',
      api_v1 ''GET'' [Lit ''workflows'', Par ''wf_id'', Lit ''stats''] ''workflows.Stats'']"

text \<open>A parameter stands for one segment that is not empty.\<close>

fun route_params :: "segment list \<Rightarrow> string list \<Rightarrow> (string \<times> string) list option" where
  "route_params [] [] = Some []"
| "route_params (Lit l # ps) (s # ss) = (if l = s then route_params ps ss else None)"
| "route_params (Par p # ps) (s # ss) = (if s = [] then None else map_option (Cons (p, s)) (route_params ps ss))"
| "route_params _ _ = None"

definition handlers_for :: "string \<Rightarrow> string list \<Rightarrow> (string \<times> (string \<times> string) list) list" where
  "handlers_for m path =
     List.map_filter (\<lambda>(m', segs, h). if m' = m then map_option (Pair h) (route_params segs path) else None) NewRouter"

section \<open>Starting the binaries\<close>

text \<open>\<open>init\<close> is \<^verbatim>\<open>gootel.Init\<close>.\<close>

definition telemetry_Setup :: "(string \<Rightarrow> string \<Rightarrow> gerr option) \<Rightarrow> environ \<Rightarrow> string \<Rightarrow> gerr option" where
  "telemetry_Setup init env service =
     (case init service (TrimSpace (env ''OTEL_EXPORTER_OTLP_ENDPOINT'')) of
        Some err \<Rightarrow> Some (Errorf ''telemetry: init: %w'' [AErr err])
      | None \<Rightarrow> None)"

text \<open>What a machine offers a process: the databases, the broker, the network and telemetry.\<close>

record ('s, 'b) machine =
  m_host :: "'s host"
  m_broker :: "'b broker"
  m_dial :: "string \<Rightarrow> gerr + unit"
  m_listen :: "string \<Rightarrow> gerr option"
  m_telemetry :: "string \<Rightarrow> string \<Rightarrow> gerr option"
  m_env :: environ

text \<open>
  A process either exits with the line it logs as fatal, or serves: with the store it opened and the goroutines it
  started.
\<close>

datatype task = TimerTask | CronTask | GrpcTask string | AdvanceTask | HttpTask string

datatype outcome = Fatal string gerr | Serving backend "task list"

definition start_store :: "env \<Rightarrow> ('s, 'b) machine \<Rightarrow> string \<Rightarrow> 's \<Rightarrow> (string \<times> gerr + backend) \<times> 's" where
  "start_store e m service s =
     (case telemetry_Setup (m_telemetry m) (m_env m) service of
        Some err \<Rightarrow> (Inl (''telemetry setup'', err), s)
      | None \<Rightarrow>
          (case storefactory_Open (m_host m) (Load e (m_env m)) s of
             (Inl err, s1) \<Rightarrow> (Inl (''store open'', err), s1)
           | (Inr backend, s1) \<Rightarrow>
               (case mq_Connect (m_dial m) (cfg_rabbit (Load e (m_env m))) of
                  Inl err \<Rightarrow> (Inl (''rabbitmq connect'', err), s1)
                | Inr _ \<Rightarrow> (Inr backend, s1))))"

definition api_main :: "env \<Rightarrow> ('s, 'b) machine \<Rightarrow> 's \<times> 'b \<Rightarrow> outcome \<times> 's \<times> 'b" where
  "api_main e m sb =
     (let br = m_broker m
      in case start_store e m ''go-saga-orchestration-api'' (fst sb) of
           (Inl (what, err), s1) \<Rightarrow> (Fatal what err, s1, snd sb)
         | (Inr backend, s1) \<Rightarrow>
             (case br OpenChannel (snd sb) of
                (Some err, b1) \<Rightarrow> (Fatal ''rabbitmq channel'' err, s1, b1)
              | (None, b1) \<Rightarrow>
                  (case DeclareTopology br b1 of
                     (Some err, b2) \<Rightarrow> (Fatal ''rabbitmq topology'' err, s1, b2)
                   | (None, b2) \<Rightarrow>
                       (case br OpenChannel (snd (br CloseChannel b2)) of
                          (Some err, b3) \<Rightarrow> (Fatal ''rabbitmq publisher'' err, s1, b3)
                        | (None, b3) \<Rightarrow>
                            (case m_listen m ('':'' @ cfg_api_port (Load e (m_env m))) of
                               Some err \<Rightarrow> (Fatal ''http'' err, s1, b3)
                             | None \<Rightarrow>
                                 (Serving backend [HttpTask ('':'' @ cfg_api_port (Load e (m_env m)))], s1, b3))))))"

definition engine_tasks :: "service_config \<Rightarrow> task list" where
  "engine_tasks cfg = TimerTask # (if cfg_cron_dispatcher cfg then [CronTask] else [])"

definition engine_main :: "env \<Rightarrow> ('s, 'b) machine \<Rightarrow> 's \<times> 'b \<Rightarrow> outcome \<times> 's \<times> 'b" where
  "engine_main e m sb =
     (let br = m_broker m;
          cfg = Load e (m_env m);
          addr = '':'' @ cfg_grpc_port cfg
      in case start_store e m ''go-saga-orchestration-engine'' (fst sb) of
           (Inl (what, err), s1) \<Rightarrow> (Fatal what err, s1, snd sb)
         | (Inr backend, s1) \<Rightarrow>
             (case br OpenChannel (snd sb) of
                (Some err, b1) \<Rightarrow> (Fatal ''rabbitmq publisher'' err, s1, b1)
              | (None, b1) \<Rightarrow>
                  (case m_listen m addr of
                     Some err \<Rightarrow> (Fatal ''grpc listen'' err, s1, b1)
                   | None \<Rightarrow>
                       (case consume_setup br b1 of
                          (Some err, b2) \<Rightarrow> (Fatal ''consume'' err, s1, b2)
                        | (None, b2) \<Rightarrow>
                            (Serving backend (engine_tasks cfg @ [GrpcTask addr, AdvanceTask]), s1, b2)))))"

text \<open>
  The coordinators of the two binaries on one publisher: \<open>adv\<close>, \<open>act\<close> and \<open>rmq\<close> are its methods for advances, actions and
  named queues, \<open>evts\<close> publishes events. Secrets are empty and every feature is licensed.
\<close>

definition mqEventEmitter ::
  "(val \<Rightarrow> gerr + string) \<Rightarrow> 'b broker \<Rightarrow> string \<Rightarrow> (string \<times> string) list \<Rightarrow> gomap \<Rightarrow> 'b \<Rightarrow> gerr option \<times> 'b" where
  "mqEventEmitter marshal br topic headers body = PublishEvent marshal br topic headers (VMap body)"

definition wired_env ::
  "env \<Rightarrow> advance_publisher \<Rightarrow> (string \<Rightarrow> (string \<times> string) list \<Rightarrow> gomap \<Rightarrow> world \<Rightarrow> gerr option \<times> world) \<Rightarrow> env" where
  "wired_env e adv evts = e\<lparr>publisher := Some adv, secrets := Some (Memory_Get []), emitter := Some evts\<rparr>"

definition engine_coord ::
  "env \<Rightarrow> advance_publisher \<Rightarrow> sender \<Rightarrow> sender \<Rightarrow> sender
   \<Rightarrow> (string \<Rightarrow> (string \<times> string) list \<Rightarrow> gomap \<Rightarrow> world \<Rightarrow> gerr option \<times> world) \<Rightarrow> coord" where
  "engine_coord e adv act http rmq evts =
     NewCoordinator (wired_env e adv evts)
       \<lparr>av_store = True, av_publisher = Some act, av_http = Some http, av_rmq = Some rmq\<rparr> (Some StubAllowAll)"

definition api_coord ::
  "env \<Rightarrow> advance_publisher \<Rightarrow> sender
   \<Rightarrow> (string \<Rightarrow> (string \<times> string) list \<Rightarrow> gomap \<Rightarrow> world \<Rightarrow> gerr option \<times> world) \<Rightarrow> coord" where
  "api_coord e adv act evts =
     NewCoordinator (wired_env e adv evts)
       \<lparr>av_store = True, av_publisher = Some act, av_http = None, av_rmq = None\<rparr> (Some StubAllowAll)"

text \<open>The transports the API process does not wire make no difference to the only call it makes.\<close>

lemma api_cancels_like_engine:
  "coord_Cancel (api_coord e adv act evts) = coord_Cancel (engine_coord e adv act http rmq evts)"
proof -
  have "c_env (api_coord e adv act evts) = c_env (engine_coord e adv act http rmq evts)"
    by (simp add: api_coord_def engine_coord_def NewCoordinator_def RegisterVerb_def)
  then have same: "c_env (engine_coord e adv act http rmq evts) = c_env (api_coord e adv act evts)" ..
  show ?thesis unfolding fun_eq_iff coord_Cancel_def same by (intro allI refl)
qed

text \<open>
  The timer's goroutine: with PostgreSQL it waits for the advisory lock first. The result is whether the timer ran,
  and the lock it must release.
\<close>

definition TimerAdvisoryLockID :: int where
  "TimerAdvisoryLockID = 0xBA70C420"

definition timer_task :: "'s host \<Rightarrow> backend \<Rightarrow> ('s \<Rightarrow> 's) \<Rightarrow> 's \<Rightarrow> bool \<times> 's" where
  "timer_task h b run s =
     (if b = PostgresBackend
      then (case AcquireAdvisoryLock h TimerAdvisoryLockID s of
              (Some err, s1) \<Rightarrow> (False, s1)
            | (None, s1) \<Rightarrow> (True, release_lock h TimerAdvisoryLockID (run s1)))
      else (True, run s))"

section \<open>What a fresh broker needs\<close>

text \<open>
  The broker's documented behaviour, as far as it matters here: a declared queue exists, consuming from a queue works if
  and only if the queue exists, and nothing else fails or adds and removes a queue with a name of its own.
\<close>

definition keeps_queues :: "'b broker \<Rightarrow> ('b \<Rightarrow> string set) \<Rightarrow> bool" where
  "keeps_queues br qs \<longleftrightarrow>
     (\<forall>b x. (case x of
        Topology (QueueDeclare q) \<Rightarrow> fst (br x b) = None \<and> qs (snd (br x b)) = insert q (qs b)
      | ConsumeFrom q auto \<Rightarrow> (fst (br x b) = None \<longleftrightarrow> q \<in> qs b) \<and> qs (snd (br x b)) = qs b
      | DeclarePrivate q d a x' \<Rightarrow> True
      | _ \<Rightarrow> fst (br x b) = None \<and> qs (snd (br x b)) = qs b))"

lemma queue_ops:
  assumes "keeps_queues br qs"
  shows "br (Topology (QueueDeclare q)) b = (r, b1) \<Longrightarrow> r = None \<and> qs b1 = insert q (qs b)"
    and "br (Topology (ExchangeDeclare y k)) b = (r, b1) \<Longrightarrow> r = None \<and> qs b1 = qs b"
    and "br (ConsumeFrom q a) b = (r, b1) \<Longrightarrow> (r = None \<longleftrightarrow> q \<in> qs b) \<and> qs b1 = qs b"
    and "br OpenChannel b = (r, b1) \<Longrightarrow> r = None \<and> qs b1 = qs b"
    and "br (Qos n) b = (r, b1) \<Longrightarrow> r = None \<and> qs b1 = qs b"
    and "qs (snd (br CloseChannel b)) = qs b"
proof -
  note c = assms [unfolded keeps_queues_def, THEN spec, THEN spec]
  show "br (Topology (QueueDeclare q)) b = (r, b1) \<Longrightarrow> r = None \<and> qs b1 = insert q (qs b)"
    using c [of "Topology (QueueDeclare q)" b] by simp
  show "br (Topology (ExchangeDeclare y k)) b = (r, b1) \<Longrightarrow> r = None \<and> qs b1 = qs b"
    using c [of "Topology (ExchangeDeclare y k)" b] by simp
  show "br (ConsumeFrom q a) b = (r, b1) \<Longrightarrow> (r = None \<longleftrightarrow> q \<in> qs b) \<and> qs b1 = qs b"
    using c [of "ConsumeFrom q a" b] by simp
  show "br OpenChannel b = (r, b1) \<Longrightarrow> r = None \<and> qs b1 = qs b" using c [of OpenChannel b] by simp
  show "br (Qos n) b = (r, b1) \<Longrightarrow> r = None \<and> qs b1 = qs b" using c [of "Qos n" b] by simp
  show "qs (snd (br CloseChannel b)) = qs b" using c [of CloseChannel b] by simp
qed

lemma topology_declares:
  assumes "keeps_queues br qs"
  shows "\<exists>b1. DeclareTopology br b = (None, b1) \<and> qs b1 = qs b \<union> {''saga.advance'', ''saga.dlq'', ''action.dlq''}"
  unfolding DeclareTopology_def topology_Declare_def declare_exchange_def declare_queue_def
  by (auto split: prod.splits option.splits dest!: queue_ops(1,2) [OF assms])

lemma consuming_needs_queue:
  assumes "keeps_queues br qs" and "consume_setup br b = (r, b1)"
  shows "(r = None \<longleftrightarrow> ''saga.advance'' \<in> qs b) \<and> qs b1 = qs b"
  using assms(2) unfolding consume_setup_def
  by (auto split: prod.splits option.splits dest!: queue_ops(3-5) [OF assms(1)] simp: queue_ops(6) [OF assms(1)])

text \<open>A process whose own surroundings work: telemetry starts, the store opens, the broker can be dialled, ports are free.\<close>

definition surroundings_work :: "env \<Rightarrow> ('s, 'b) machine \<Rightarrow> backend \<Rightarrow> bool" where
  "surroundings_work e m backend \<longleftrightarrow>
     (\<forall>service endpoint. m_telemetry m service endpoint = None)
     \<and> (\<forall>s. fst (storefactory_Open (m_host m) (Load e (m_env m)) s) = Inr backend)
     \<and> cfg_rabbit (Load e (m_env m)) \<noteq> [] \<and> (\<forall>url. m_dial m url = Inr ()) \<and> (\<forall>addr. m_listen m addr = None)"

lemma store_starts:
  assumes "surroundings_work e m backend"
  shows "\<exists>s1. start_store e m service s = (Inr backend, s1)"
proof -
  obtain r s1 where r: "storefactory_Open (m_host m) (Load e (m_env m)) s = (r, s1)" by fastforce
  then have "r = Inr backend" using assms unfolding surroundings_work_def by (metis fst_conv)
  then show ?thesis
    using r assms by (simp add: start_store_def telemetry_Setup_def mq_Connect_def surroundings_work_def)
qed

lemma engine_outcome:
  assumes "keeps_queues (m_broker m) qs" and "surroundings_work e m backend"
  shows "\<exists>err s1 b1 tasks. engine_main e m (s, b) =
    (if ''saga.advance'' \<in> qs b then Serving backend tasks else Fatal ''consume'' err, s1, b1)"
proof -
  obtain s1 where s1: "start_store e m ''go-saga-orchestration-engine'' s = (Inr backend, s1)"
    using store_starts [OF assms(2)] by blast
  obtain r b1 where b1: "m_broker m OpenChannel b = (r, b1)" by fastforce
  obtain r2 b2 where b2: "consume_setup (m_broker m) b1 = (r2, b2)" by fastforce
  have "r = None" "qs b1 = qs b" using queue_ops(4) [OF assms(1) b1] by simp_all
  moreover have "r2 = None \<longleftrightarrow> ''saga.advance'' \<in> qs b1" using consuming_needs_queue [OF assms(1) b2] by simp
  moreover have "m_listen m addr = None" for addr using assms(2) by (simp add: surroundings_work_def)
  ultimately show ?thesis using s1 b1 b2 by (cases r2) (auto simp: engine_main_def Let_def)
qed

text \<open>
  C29: The engine does not declare the queue it consumes from. On a broker no API process has used yet, an
  engine whose store, ports and connection all work exits with the fatal line of its consumer; once an API process has
  started there, every engine that starts serves.
\<close>

theorem engine_needs_topology:
  assumes "keeps_queues (m_broker m) qs" and "surroundings_work e m backend" and "''saga.advance'' \<notin> qs b"
  shows "(\<exists>err s1 b1. engine_main e m (s, b) = (Fatal ''consume'' err, s1, b1))
    \<and> (\<exists>s1 b1 addr. api_main e m (s, b) = (Serving backend [HttpTask addr], s1, b1)
      \<and> (\<forall>s'. \<exists>s2 b2 tasks. engine_main e m (s', b1) = (Serving backend tasks, s2, b2)))"
proof
  show "\<exists>err s1 b1. engine_main e m (s, b) = (Fatal ''consume'' err, s1, b1)"
    using engine_outcome [OF assms(1,2), of s b] assms(3) by auto
  let ?br = "m_broker m"
  obtain s1 where s1: "start_store e m ''go-saga-orchestration-api'' s = (Inr backend, s1)"
    using store_starts [OF assms(2)] by blast
  obtain r b1 where b1: "?br OpenChannel b = (r, b1)" by fastforce
  obtain b2 where b2: "DeclareTopology ?br b1 = (None, b2)" "''saga.advance'' \<in> qs b2"
    using topology_declares [OF assms(1), of b1] by auto
  obtain r3 b3 where b3: "?br OpenChannel (snd (?br CloseChannel b2)) = (r3, b3)" by fastforce
  have "r = None" using queue_ops(4) [OF assms(1) b1] by simp
  moreover have "r3 = None" "qs b3 = qs b2"
    using queue_ops(4) [OF assms(1) b3] queue_ops(6) [OF assms(1), of b2] by simp_all
  moreover have "m_listen m addr = None" for addr using assms(2) by (simp add: surroundings_work_def)
  moreover have "\<exists>s2 b' tasks. engine_main e m (s', b3) = (Serving backend tasks, s2, b')" for s'
    using engine_outcome [OF assms(1,2), of s' b3] b2(2) \<open>qs b3 = qs b2\<close> by auto
  ultimately show "\<exists>s1 b1 addr. api_main e m (s, b) = (Serving backend [HttpTask addr], s1, b1)
      \<and> (\<forall>s'. \<exists>s2 b2 tasks. engine_main e m (s', b1) = (Serving backend tasks, s2, b2))"
    using s1 b1 b2(1) b3 by (simp add: api_main_def Let_def)
qed

text \<open>A broker whose state is the list of its queues, and a machine with the in-memory store.\<close>

fun listing_broker :: "string list broker" where
  "listing_broker (Topology (QueueDeclare q)) b = (None, q # b)"
| "listing_broker (ConsumeFrom q _) b = (if q \<in> set b then None else Some (ErrNotFound ''queue'' q), b)"
| "listing_broker _ b = (None, b)"

definition demo_environ :: environ where
  "demo_environ k =
     (if k = ''STORE_TYPE'' then ''memory'' else if k = ''RABBITMQ_URL'' then ''amqp://mq'' else [])"

definition demo_machine :: "'b broker \<Rightarrow> (int, 'b) machine" where
  "demo_machine br = \<lparr>m_host = counting_host, m_broker = br, m_dial = \<lambda>_. Inr (), m_listen = \<lambda>_. None,
     m_telemetry = \<lambda>_ _. None, m_env = demo_environ\<rparr>"

lemma demo_surroundings: "surroundings_work test_env (demo_machine br) MemoryBackend"
  by (simp add: surroundings_work_def demo_machine_def demo_environ_def Load_def getEnv_def storefactory_Open_def)

theorem engine_needs_topology_witness:
  "\<exists>err s1 b1. engine_main test_env (demo_machine listing_broker) (0, []) = (Fatal ''consume'' err, s1, b1)"
proof -
  have "keeps_queues listing_broker set" unfolding keeps_queues_def
  proof (intro allI)
    fix b x show "case x of
        Topology (QueueDeclare q) \<Rightarrow> fst (listing_broker x b) = None \<and> set (snd (listing_broker x b)) = insert q (set b)
      | ConsumeFrom q auto \<Rightarrow> (fst (listing_broker x b) = None \<longleftrightarrow> q \<in> set b) \<and> set (snd (listing_broker x b)) = set b
      | DeclarePrivate q d a x' \<Rightarrow> True
      | _ \<Rightarrow> fst (listing_broker x b) = None \<and> set (snd (listing_broker x b)) = set b"
      by (cases "(x, b)" rule: listing_broker.cases) simp_all
  qed
  then show ?thesis
    using engine_needs_topology [of "demo_machine listing_broker" set test_env MemoryBackend "[]" 0] demo_surroundings
    by (auto simp: demo_machine_def)
qed

text \<open>
  What a starting engine asks of the broker, the latest request first: two channels, one of them consuming
  \<^verbatim>\<open>saga.advance\<close>. It does not subscribe to the exchange its events are published to.
\<close>

lemma engine_never_subscribes:
  "snd (snd (engine_main test_env (demo_machine (\<lambda>x b. (None, x # b))) (0, [])))
     = [ConsumeFrom ''saga.advance'' False, Qos 1, OpenChannel, OpenChannel]"
  by (simp add: engine_main_def start_store_def telemetry_Setup_def storefactory_Open_def mq_Connect_def
      consume_setup_def demo_machine_def demo_environ_def Load_def getEnv_def Let_def)

section \<open>Routing\<close>

text \<open>Whether some path matches both patterns.\<close>

fun overlap :: "segment list \<Rightarrow> segment list \<Rightarrow> bool" where
  "overlap [] [] = True"
| "overlap (Lit a # ps) (Lit b # qs) = (a = b \<and> overlap ps qs)"
| "overlap (p # ps) (q # qs) = overlap ps qs"
| "overlap _ _ = False"

lemma both_match: "route_params ps path \<noteq> None \<Longrightarrow> route_params qs path \<noteq> None \<Longrightarrow> overlap ps qs"
proof (induction ps arbitrary: qs path)
  case Nil
  then show ?case by (cases path; cases qs) (auto elim: route_params.elims)
next
  case (Cons p ps)
  then obtain s ss where path: "path = s # ss" by (cases path; cases p) auto
  with Cons.prems obtain q qs' where qs: "qs = q # qs'" by (cases qs) auto
  have "overlap ps qs'" using Cons path qs by (cases p; cases q) (auto split: if_splits)
  then show ?case using Cons.prems path qs by (cases p; cases q) (auto split: if_splits)
qed

lemma at_most_one:
  "distinct xs \<Longrightarrow> (\<And>x y. x \<in> set xs \<Longrightarrow> y \<in> set xs \<Longrightarrow> f x \<noteq> None \<Longrightarrow> f y \<noteq> None \<Longrightarrow> x = y)
     \<Longrightarrow> length (List.map_filter f xs) \<le> 1"
proof (induction xs)
  case (Cons x xs)
  show ?case
  proof (cases "f x = None")
    case False
    then have "\<forall>y \<in> set xs. f y = None" using Cons.prems by (metis distinct.simps(2) list.set_intros)
    then have "List.map_filter f xs = []" by (induction xs) (simp_all add: List.map_filter_simps)
    then show ?thesis using False by (auto simp: List.map_filter_simps)
  qed (use Cons in \<open>simp add: List.map_filter_simps\<close>)
qed (simp add: List.map_filter_simps)

lemma set_map_filter: "y \<in> set (List.map_filter f xs) \<longleftrightarrow> (\<exists>x \<in> set xs. f x = Some y)"
  by (induction xs) (auto simp: List.map_filter_simps split: option.split)

lemma distinct_routes: "distinct NewRouter"
  by code_simp

lemma routes_apart:
  "\<forall>(m, ps, h) \<in> set NewRouter. \<forall>(m', qs, h') \<in> set NewRouter. m = m' \<and> overlap ps qs \<longrightarrow> ps = qs \<and> h = h'"
  by code_simp

text \<open>
  No request can reach two handlers: whatever the path, at most one route of its method matches, so the order in which
  routes are registered or tried does not matter. The handler gets the segments of the path under the names of the
  pattern.
\<close>

theorem one_handler_per_request:
  "length (handlers_for m path) \<le> 1 \<and>
   (\<forall>h ps. (h, ps) \<in> set (handlers_for m path) \<longleftrightarrow>
      (\<exists>segs. (m, segs, h) \<in> set NewRouter \<and> route_params segs path = Some ps))"
proof -
  define f :: "route \<Rightarrow> _" where "f = (\<lambda>(m', segs, h). if m' = m then map_option (Pair h) (route_params segs path) else None)"
  have hits: "f x = Some (h, ps) \<longleftrightarrow> (\<exists>segs. x = (m, segs, h) \<and> route_params segs path = Some ps)" for x h ps
    by (cases x) (auto simp: f_def)
  have "x = y" if xy: "x \<in> set NewRouter" "y \<in> set NewRouter" and "f x \<noteq> None" "f y \<noteq> None" for x y
  proof -
    obtain h1 a1 h2 a2 where "f x = Some (h1, a1)" "f y = Some (h2, a2)" using \<open>f x \<noteq> None\<close> \<open>f y \<noteq> None\<close> by auto
    then obtain p1 p2 where eq: "x = (m, p1, h1)" "y = (m, p2, h2)"
      and "route_params p1 path = Some a1" "route_params p2 path = Some a2" unfolding hits by blast
    then have "overlap p1 p2" using both_match by blast
    then show ?thesis using routes_apart xy eq by fast
  qed
  then have "length (List.map_filter f NewRouter) \<le> 1" using distinct_routes by (rule at_most_one [rotated])
  moreover have "(h, ps) \<in> set (List.map_filter f NewRouter) \<longleftrightarrow>
      (\<exists>segs. (m, segs, h) \<in> set NewRouter \<and> route_params segs path = Some ps)" for h ps
    unfolding set_map_filter by (auto simp: hits)
  ultimately show ?thesis unfolding handlers_for_def f_def by blast
qed

end
