(* ===== verification/Spec2Isabelle.thy ===== *)
theory Spec2Isabelle
  imports Run_Locks Progress Redis_Refinement Postgres_Refinement Worker_Client Conformance Process
begin

text \<open>
  Verification of the saga orchestrator, a workflow engine in Go. A workflow is a JSON-defined graph of steps; a
  run is one execution of it. The engine advances runs step by step, keeps their state in a store, compensates
  the completed steps of a run that fails, retries steps, suspends runs until a time, a signal, an event, a
  person or a worker answers, and starts and joins child runs.

  \<^bold>\<open>The program and its parts.\<close> A run moves only when a \<^verbatim>\<open>saga.advance\<close> message for it is
  handled (\<^verbatim>\<open>internal/mq\<close>): \<^verbatim>\<open>engine/advance.go\<close> loads the run, decides whether its pause is over, and then
  executes steps until one pauses or the run ends. Each step type has a verb (\<^verbatim>\<open>engine/verbs\<close>). Verbs and
  coordinator call the store (\<open>store\<close>: in memory, Redis or PostgreSQL), send messages (actions to workers,
  advances, events) and evaluate expressions (\<^verbatim>\<open>internal/cel\<close>, \<^verbatim>\<open>internal/rules\<close>). What was paused is woken by the
  timer and the cron dispatcher, by events and signals, by finished children, by the REST API (\<open>api\<close>) and by
  workers, which report over the liveness stream (\<open>liveness\<close>, \<^verbatim>\<open>clients/go/worker\<close>). An application can embed all
  of it (\<open>saga\<close>). A per-run mutex (\<^verbatim>\<open>engine/runlock.go\<close>) keeps two advances of one run apart.

  \<^bold>\<open>Theories and sources.\<close>

  \<^item> \<open>Saga_Prelude\<close>: Go's strings, maps and stable sort; lemmas on association lists, options, sums.
  \<^item> \<open>Domain\<close>: the types of \<^verbatim>\<open>domain/*.go\<close> and error values. \<open>Clone\<close>: \<^verbatim>\<open>store/memory/clone.go\<close>.
  \<^item> \<open>Store_Interface\<close>: what callers rely on in \<^verbatim>\<open>store/store.go\<close>, as locales (a table with creates, an
    operation on one run, one that leaves ended runs alone, a claim with one winner).
  \<^item> \<open>Memory_Store\<close>: \<^verbatim>\<open>store/memory/*.go\<close>; a record of association lists, one definition per method under
    its Go name; interprets the locales. \<open>Store_Invariant\<close>: its methods as a step relation, well-formedness and
    append-only histories by rule induction. \<open>Store_Properties\<close>: laws of single methods.
  \<^item> \<open>Json\<close>: what values become when written as JSON and read back. \<open>Redis_Store\<close>: \<^verbatim>\<open>store/redis/*.go\<close>; one
    field per key family; a WATCH transaction is a loop over attempts, and between its read and its write a list
    of foreign writes happens. \<open>Redis_Properties\<close>: atomicity of that loop, and JSON.
  \<^item> \<open>Sql\<close>: three-valued conditions, guarded updates with row counts, upserts, times cut to microseconds,
    LIKE and JSONB. \<open>Postgres_Store\<close>: \<^verbatim>\<open>store/postgres/*.go\<close>, each statement of a method translated, over the
    tables of the migrations. \<open>Postgres_Properties\<close>: merge by JSONB operators, the unique key of the audit log,
    consumers of one signal interleaved statement by statement under the row lock.
  \<^item> \<open>Store_Trace\<close>: the locale of simulations and the language of store calls. \<open>Redis_Refinement\<close>,
    \<open>Postgres_Refinement\<close>: both stores simulate the in-memory one; the locale is interpreted on the models.
  \<^item> \<open>Store_Suite\<close>: \<^verbatim>\<open>store/storetest\<close>, the repository's own conformance suite over a record of the methods
    of \<^verbatim>\<open>store.Store\<close>; a group of checks gives the first requirement it finds violated. \<open>Memory_Suite\<close>,
    \<open>Redis_Suite\<close>, \<open>Postgres_Suite\<close> run it on the three models, by rewriting with symbolic ids; \<open>Conformance\<close>
    collects the outcome.
  \<^item> \<open>Cel\<close>: \<^verbatim>\<open>internal/cel\<close>; \<open>Rules\<close>: \<^verbatim>\<open>internal/rules\<close>; \<open>Licensing\<close>: \<open>licensing\<close> and \<^verbatim>\<open>engine/validate.go\<close>.
  \<^item> \<open>Runtime\<close>: the world (store, outbox, sent dispatches, clocks, fresh ids) and the environment, that is
    everything the engine calls that is not code of the repository. A verb is a function from a world, a run and
    a step to an outcome or an error, and a new world.
  \<^item> \<open>Verbs_Data\<close>, \<open>Verbs_Wait\<close>, \<open>Verbs_Fanout\<close>, \<open>Verbs_IO\<close>: \<^verbatim>\<open>engine/verbs/*.go\<close> by kind.
  \<^item> \<open>Coordinator\<close>: \<^verbatim>\<open>engine/coordinator.go\<close>, \<^verbatim>\<open>advance.go\<close>, \<^verbatim>\<open>compensation.go\<close>, \<^verbatim>\<open>retry.go\<close>, \<^verbatim>\<open>entry.go\<close>.
    \<open>Coordinator_Properties\<close>: premature and due advances, license gate, retries. \<open>Recovery\<close>: order of
    compensation, caught and uncaught failures, children waking parents. \<open>Progress\<close>: termination of \<open>Advance\<close>.
  \<^item> \<open>Run_Locks\<close>: \<^verbatim>\<open>engine/runlock.go\<close>, its critical sections as steps of any number of threads.
  \<^item> \<open>Triggers\<close>: \<^verbatim>\<open>engine/timer.go\<close>, \<^verbatim>\<open>event_subscriber.go\<close>, \<^verbatim>\<open>trigger_dispatcher.go\<close>, \<^verbatim>\<open>cron_dispatcher.go\<close>,
    \<^verbatim>\<open>startup_variables.go\<close>.
  \<^item> \<open>Liveness\<close>: \<open>liveness\<close>; \<open>Worker_Client\<close>: \<^verbatim>\<open>clients/go/worker\<close> and \<open>topology\<close>.
  \<^item> \<open>Api\<close>, \<open>Api_Catalog\<close>: the handlers of \<open>api\<close>; a handler maps a decoded request and a world to a
    response.
  \<^item> \<open>Facade\<close>: \<open>saga\<close>, the deliveries of \<^verbatim>\<open>saga.advance\<close>, \<open>clock\<close> and \<open>secrets\<close>.
  \<^item> \<open>Messaging\<close>: publishers and consumers of \<^verbatim>\<open>internal/mq\<close>, \<open>RunRMQ\<close> of \<^verbatim>\<open>engine/event_subscriber.go\<close>,
    \<^verbatim>\<open>internal/dispatch\<close>, over a broker that is a parameter; what one event does in several processes.
  \<^item> \<open>Database_Setup\<close>: \<^verbatim>\<open>internal/config\<close>, \<^verbatim>\<open>internal/storefactory\<close>, opening, migrating and locking in
    \<^verbatim>\<open>store/postgres\<close>; which handles are left open. \<open>Process\<close>: how \<^verbatim>\<open>cmd/api\<close> and \<^verbatim>\<open>cmd/engine\<close> start, the route
    table, \<open>sagalog\<close> and request logs.

  \<^bold>\<open>How code is written here.\<close> Structs are records, enums and tagged unions datatypes. A Go
  map is an association list whose order is one possible iteration order; theorems about maps that are ranged
  over hold for every order, or say which one they take. Errors are values: \<open>gerr + 'a\<close>, with the format strings
  of the source, so every early return is a branch. Times are nanoseconds, cut to microseconds on the way into a
  PostgreSQL row, and durations wrap to 64 bits where the code converts. Events of one microsecond are listed by
  PostgreSQL in an order that is a parameter; other ties of its queries come in table order. A value stored by
  reference is copied by the code (\<open>Clone\<close>), so values may be shared. Store calls in the engine are made on the
  in-memory store; the two refinements carry the results over to the others, as far as their callers keep to the
  limits stated there, up to the numbers Redis reads as floats and the time PostgreSQL cuts.

  \<^bold>\<open>What is shown.\<close> The properties are marked C1 to C40 in the text before each. Rollback:
  the steps completed before a failure are compensated once each in reverse order, a caught failure rolls back
  nothing, an uncaught one ends the run. Advance: a premature or repeated message changes nothing, a due one
  resumes at the right successor, and a call on a workflow that descends and has no step of the types parallel,
  foreach, sub_saga, spawn_saga and emit_event returns. Fan-out: children, join conditions and the waking of the
  parent. Stores: invariants, refinement, claims with one winner, sequential and concurrent, and the
  repository's conformance suite, which all three models pass with the options their packages' tests use (Redis
  and PostgreSQL in a run at the start of 2026). Workers: one accepted report per attempt, one effect per
  idempotency key, the round trip of an action. API: what each endpoint changes and answers. Processes: what a
  start needs of the broker, and which handles an attempt leaves open. Some theorems state defects as they are
  (a duplicate advance releasing a join or an action, a late result that skips a step, a failure report that the
  log refuses, an event that starts its runs once per process): they are listed with their code in the list of
  findings.

  \<^bold>\<open>Bounds and fuel.\<close> \<open>Advance\<close> is a loop over \<open>advance_iter\<close> with fuel; the theorem on its
  termination says that for definitions in which every edge descends in some rank and no step is of the types
  above, the rank of the run's step plus that of its open try/catch frames is enough fuel, whatever the other
  verbs answer. A workflow with a cycle through steps that do not pause may loop in the code as well, and then
  no fuel is enough. Retries run for the budget of the policy and Redis transactions for \<open>txMaxRetries\<close>
  attempts, as in the code. All other loops are structural recursions. The engine's own limits (three try
  blocks, page sizes, iteration caps) are those of the source.

  \<^bold>\<open>Not modelled.\<close> Code outside the repository is a parameter with its documented behaviour:
  cel-go, the SQL and Redis servers' connections, AMQP, gRPC and HTTP transports, cron schedule parsing, UUID
  generation, floating point beyond the rounding of integers. Left out because they have no state of their own:
  opening and closing a RabbitMQ connection, the shutdown of a process, the adapter of zerolog
  (\<^verbatim>\<open>internal/logging\<close>), the frames of a run's stream, the generated protocol code (\<open>proto\<close>) and the examples.
  Goroutines are modelled where the code shares state between them: run locks, Redis transactions, PostgreSQL
  row locks and claims; an advance is one step otherwise, which the run lock justifies within one process.
\<close>

end
